(* ===== verification/Prelude.thy ===== *)
theory Prelude
  imports Main "HOL-Library.Word" "HOL-Library.Signed_Division"
begin

text \<open>
  What every component of the firmware shares: the C integer types, byte memory seen
  through a pointer, big-endian reads and writes, the wrap-around of signed 64-bit
  arithmetic, and the wrap guard on millisecond ages.  The lemmas at the end of each
  section carry the component proofs; the collections \<open>wire\<close> (reading back what was
  written to a frame) and \<open>s64_simps\<close> (signed arithmetic that does not overflow) gather
  the ones used as simplification rules on demand.
\<close>

unbundle bit_operations_syntax

named_theorems wire "reading back bytes written to a frame buffer"
named_theorems s64_simps "signed 64-bit arithmetic within range"

section \<open>C integer types\<close>

type_synonym u8 = "8 word"
type_synonym u16 = "16 word"
type_synonym u32 = "32 word"
type_synonym u64 = "64 word"

text \<open>
  \<open>int64_t\<close> values are integers.  Every signed operation of the code whose result is
  stored goes through \<open>s64\<close>, the two's complement value of the low 64 bits: what the
  RISC-V code computes where C leaves signed overflow undefined, and the identity
  wherever the operation stays in range.
\<close>

definition s64 :: "int \<Rightarrow> int" where
  "s64 x = signed_take_bit 63 x"

lemma s64_range: "- (2 ^ 63) \<le> s64 x \<and> s64 x < 2 ^ 63"
  unfolding s64_def
  using signed_take_bit_int_greater_eq_minus_exp [of 63 x] signed_take_bit_int_less_exp [of 63 x]
  by simp

lemma s64_id [s64_simps]: "- (2 ^ 63) \<le> x \<Longrightarrow> x < 2 ^ 63 \<Longrightarrow> s64 x = x"
  unfolding s64_def by (rule signed_take_bit_int_eq_self)

definition s32 :: "int \<Rightarrow> int" where
  "s32 x = signed_take_bit 31 x"

lemma s32_id [s64_simps]: "- (2 ^ 31) \<le> x \<Longrightarrow> x < 2 ^ 31 \<Longrightarrow> s32 x = x"
  unfolding s32_def by (rule signed_take_bit_int_eq_self)

lemma s64_s64 [simp]: "s64 (s64 x) = s64 x"
  by (rule s64_id) (use s64_range [of x] in auto)

text \<open>C division truncates towards zero: \<open>sdiv\<close> of the library.\<close>

lemma sdiv_nonneg: "0 \<le> (a::int) \<Longrightarrow> 0 < b \<Longrightarrow> a sdiv b = a div b"
  by (simp add: signed_divide_int_def sgn_if)

lemma sdiv_neg: "(a::int) \<le> 0 \<Longrightarrow> 0 < b \<Longrightarrow> a sdiv b = - ((- a) div b)"
  by (simp add: signed_divide_int_def sgn_if)

lemma sdiv_bounds:
  assumes "- l * b \<le> a" and "a \<le> l * b" and "0 < (b::int)"
  shows "- l \<le> a sdiv b \<and> a sdiv b \<le> l"
proof (cases "0 \<le> a")
  case True
  then have "0 \<le> a div b" using assms(3) by (simp add: pos_imp_zdiv_nonneg_iff)
  moreover have "a div b \<le> l"
    using assms(2,3) zdiv_mono1 [of a "l * b" b] by simp
  ultimately show ?thesis using True assms(3) by (simp add: sdiv_nonneg)
next
  case False
  then have "0 \<le> (- a) div b" using assms(3) by (simp add: pos_imp_zdiv_nonneg_iff)
  moreover have "(- a) div b \<le> l"
    using assms(1,3) zdiv_mono1 [of "- a" "l * b" b] by simp
  ultimately show ?thesis using False assms(3) by (simp add: sdiv_neg)
qed

text \<open>The two-sided clamp that the servos write as a pair of \<open>if\<close> statements.\<close>

definition clamp_sym :: "int \<Rightarrow> int \<Rightarrow> int" where
  "clamp_sym c x = (let y = (if x > c then c else x) in if y < - c then - c else y)"

lemma clamp_sym_bounds: "0 \<le> c \<Longrightarrow> - c \<le> clamp_sym c x \<and> clamp_sym c x \<le> c"
  by (simp add: clamp_sym_def Let_def)

lemma clamp_sym_id: "- c \<le> x \<Longrightarrow> x \<le> c \<Longrightarrow> clamp_sym c x = x"
  by (simp add: clamp_sym_def Let_def)

section \<open>Ages of millisecond stamps\<close>

text \<open>
  Ages are differences of two 32-bit millisecond stamps.  The code guards each against a
  stamp from the future (the clock was stepped back): a difference above 2000000000 is
  replaced, by 0 where nothing should expire and by the period where a timer should fire.
\<close>

definition guarded_age :: "u32 \<Rightarrow> u32 \<Rightarrow> u32 \<Rightarrow> u32" where
  "guarded_age now stamp dflt = (let age = now - stamp in if age > 2000000000 then dflt else age)"

lemma guarded_age_future:
  "now < stamp \<Longrightarrow> stamp - now < 2294967296 \<Longrightarrow> guarded_age now stamp d = d"
proof -
  assume a: "now < stamp" and b: "stamp - now < 2294967296"
  have "uint (now - stamp) = uint now - uint stamp + 2 ^ 32"
    using a uint_bounded [of now] uint_bounded [of stamp]
    by (simp add: uint_sub_if' word_less_alt)
  moreover have "uint (stamp - now) = uint stamp - uint now"
    using a by (simp add: uint_sub_if' word_less_alt)
  ultimately have "uint (now - stamp) > 2000000000"
    using b by (simp add: word_less_alt)
  then show ?thesis by (simp add: guarded_age_def word_less_alt Let_def)
qed

lemma guarded_age_past:
  "stamp \<le> now \<Longrightarrow> now - stamp \<le> 2000000000 \<Longrightarrow> guarded_age now stamp d = now - stamp"
  by (simp add: guarded_age_def Let_def not_less [symmetric])

section \<open>Byte memory\<close>

text \<open>
  A buffer is what the memory holds at a pointer: byte \<open>i\<close> past the pointer is \<open>m i\<close>.
  A received frame is such a view together with its length; the bytes past the length are
  there (whatever an earlier frame left in the slot), so a read past the length is in
  the model what it is in the code.  \<open>bytes m off n\<close> is the block of \<open>n\<close> bytes at
  \<open>off\<close>, \<open>mput\<close> a \<open>memcpy\<close> into the buffer, \<open>mputs\<close> a sequence of stores.
\<close>

type_synonym mem = "nat \<Rightarrow> u8"

definition bytes :: "mem \<Rightarrow> nat \<Rightarrow> nat \<Rightarrow> u8 list" where
  "bytes m off n = map (\<lambda>i. m (off + i)) [0..<n]"

definition mput :: "mem \<Rightarrow> nat \<Rightarrow> u8 list \<Rightarrow> mem" where
  "mput m off bs = (\<lambda>i. if off \<le> i \<and> i < off + length bs then bs ! (i - off) else m i)"

fun mputs :: "mem \<Rightarrow> (nat \<times> u8 list) list \<Rightarrow> mem" where
  "mputs m [] = m"
| "mputs m ((off, bs) # ps) = mputs (mput m off bs) ps"

definition mem_of :: "u8 list \<Rightarrow> mem" where
  "mem_of xs = (\<lambda>i. if i < length xs then xs ! i else 0)"

definition zeros :: "nat \<Rightarrow> u8 list" where
  "zeros n = replicate n 0"

lemma length_zeros [simp]: "length (zeros n) = n"
  by (simp add: zeros_def)

lemma length_bytes [simp]: "length (bytes m off n) = n"
  by (simp add: bytes_def)

lemma nth_bytes [simp]: "i < n \<Longrightarrow> bytes m off n ! i = m (off + i)"
  by (simp add: bytes_def)

lemma bytes_0 [simp]: "bytes m off 0 = []"
  by (simp add: bytes_def)

lemma bytes_add: "bytes m off (a + b) = bytes m off a @ bytes m (off + a) b"
  by (rule nth_equalityI) (auto simp: nth_append add.assoc)

lemma bytes_cong:
  "(\<And>i. off \<le> i \<Longrightarrow> i < off + n \<Longrightarrow> m i = m' i) \<Longrightarrow> bytes m off n = bytes m' off n"
  by (simp add: bytes_def)

lemma mput_outside [wire]: "i < off \<or> off + length bs \<le> i \<Longrightarrow> mput m off bs i = m i"
  by (auto simp: mput_def)

lemma mput_inside [wire]: "off \<le> i \<Longrightarrow> i < off + length bs \<Longrightarrow> mput m off bs i = bs ! (i - off)"
  by (simp add: mput_def)

lemma bytes_mput_same [wire]: "length bs = n \<Longrightarrow> bytes (mput m off bs) off n = bs"
  by (rule nth_equalityI) (simp_all add: mput_def)

lemma bytes_mput_other [wire]:
  "off + n \<le> o' \<or> o' + length bs \<le> off \<Longrightarrow> bytes (mput m o' bs) off n = bytes m off n"
  by (rule bytes_cong) (auto simp: mput_def)

lemma mputs_append: "mputs m (ps @ qs) = mputs (mputs m ps) qs"
  by (induction m ps rule: mputs.induct) auto

text \<open>
  A frame is written field after field.  When the stores are contiguous from an offset,
  the bytes from there on are the concatenation of the fields.
\<close>

fun contig :: "nat \<Rightarrow> (nat \<times> u8 list) list \<Rightarrow> bool" where
  "contig off [] = True"
| "contig off ((p, bs) # ps) = (p = off \<and> contig (off + length bs) ps)"

lemma bytes_mputs_below:
  "contig off ps \<Longrightarrow> o' + n \<le> off \<Longrightarrow> bytes (mputs m ps) o' n = bytes m o' n"
proof (induction ps arbitrary: off m)
  case Nil
  then show ?case by simp
next
  case (Cons p ps)
  obtain q bs where p: "p = (q, bs)" by (cases p)
  with Cons.prems have "q = off" and c: "contig (off + length bs) ps" by auto
  moreover have "bytes (mputs (mput m q bs) ps) o' n = bytes (mput m q bs) o' n"
    using Cons.prems(2) by (intro Cons.IH [OF c]) auto
  ultimately show ?case using p Cons.prems(2) by (simp add: wire)
qed

lemma mputs_below: "contig off ps \<Longrightarrow> i < off \<Longrightarrow> mputs m ps i = m i"
  using bytes_mputs_below [of off ps i 1 m] by (simp add: bytes_def)

lemma bytes_mputs_contig:
  "contig off ps \<Longrightarrow>
   bytes (mputs m ps) off (length (concat (map snd ps))) = concat (map snd ps)"
proof (induction ps arbitrary: off m)
  case Nil
  then show ?case by simp
next
  case (Cons p ps)
  obtain q bs where p: "p = (q, bs)" by (cases p)
  with Cons.prems have q: "q = off" and c: "contig (off + length bs) ps" by auto
  have "bytes (mputs (mput m off bs) ps) off (length bs) = bs"
    using bytes_mputs_below [OF c, of off "length bs"] by (simp add: wire)
  then show ?case
    using p q Cons.IH [OF c, of "mput m off bs"] by (simp add: bytes_add)
qed

lemma contig_split:
  "contig off (pre @ (p, bs) # post) \<Longrightarrow> p = off + length (concat (map snd pre))"
proof (induction pre arbitrary: off)
  case Nil
  then show ?case by simp
next
  case (Cons x pre)
  obtain q cs where x: "x = (q, cs)" by (cases x)
  with Cons.prems have "contig (off + length cs) (pre @ (p, bs) # post)" by simp
  from Cons.IH [OF this] x show ?case by simp
qed

text \<open>Any one field of a frame written contiguously from its start can be read back.\<close>

lemma field_at:
  assumes "contig 0 ps" and "ps = pre @ (p, bs) # post"
    and "bytes m 0 (length (concat (map snd ps))) = concat (map snd ps)"
  shows "bytes m p (length bs) = bs"
proof -
  have p: "p = length (concat (map snd pre))"
    using contig_split [of 0 pre p bs post] assms(1,2) by simp
  have "bytes m 0 (p + (length bs + length (concat (map snd post))))
      = concat (map snd pre) @ bs @ concat (map snd post)"
    using assms(2,3) p by simp
  then show ?thesis using p by (simp add: bytes_add)
qed

lemma mputs_above:
  "contig off ps \<Longrightarrow> off + length (concat (map snd ps)) \<le> i \<Longrightarrow> mputs m ps i = m i"
proof (induction ps arbitrary: off m)
  case Nil
  then show ?case by simp
next
  case (Cons p ps)
  obtain q bs where p: "p = (q, bs)" by (cases p)
  with Cons.prems have "q = off" and c: "contig (off + length bs) ps" by auto
  moreover have "mputs (mput m off bs) ps i = mput m off bs i"
    using Cons.prems p by (intro Cons.IH [OF c]) auto
  ultimately show ?case using p Cons.prems(2) by (simp add: mput_def)
qed

lemma bytes_mem_of: "bytes (mem_of xs) 0 (length xs) = xs"
  by (rule nth_equalityI) (auto simp: mem_of_def)

lemma bytes_mem_of_slice:
  "off + n \<le> length xs \<Longrightarrow> bytes (mem_of xs) off n = take n (drop off xs)"
  by (rule nth_equalityI) (auto simp: mem_of_def)

lemma mem_of_bytes: "i < n \<Longrightarrow> mem_of (bytes m 0 n) i = m i"
  by (simp add: mem_of_def)

text \<open>The \<open>k\<close>-th block of a concatenation of blocks of equal length.\<close>

lemma concat_block:
  "\<forall>b \<in> set bss. length b = n \<Longrightarrow> k < length bss \<Longrightarrow> take n (drop (n * k) (concat bss)) = bss ! k"
proof (induction bss arbitrary: k)
  case Nil
  then show ?case by simp
next
  case (Cons b bss)
  then show ?case by (cases k) auto
qed

lemma length_concat_blocks: "\<forall>b \<in> set bss. length b = n \<Longrightarrow> length (concat bss) = n * length bss"
  by (induction bss) auto

lemma bytes_block:
  assumes "bytes m off (length (concat bss)) = concat bss"
    and "\<forall>b \<in> set bss. length b = n" and "k < length bss"
  shows "bytes m (off + n * k) n = bss ! k"
proof -
  have len: "n * k + n \<le> length (concat bss)"
    using assms(2,3) mult_le_mono2 [of "Suc k" "length bss" n]
    by (simp add: length_concat_blocks [OF assms(2)])
  then obtain r where r: "length (concat bss) = n * k + (n + r)"
    using le_Suc_ex by (metis add.assoc)
  then have "bytes m off (n * k) @ bytes m (off + n * k) n @ bytes m (off + n * k + n) r = concat bss"
    using assms(1) by (simp add: bytes_add)
  then have "take n (drop (n * k) (concat bss)) = bytes m (off + n * k) n"
    by (metis append_eq_conv_conj length_bytes)
  then show ?thesis using concat_block [OF assms(2,3)] by simp
qed

section \<open>Widening\<close>

lemma unat_ucast_16_32: "unat (ucast (w :: u16) :: u32) = unat w"
proof -
  have "unat w < 2 ^ LENGTH(16)" by (rule unsigned_less)
  then have "unat w < 2 ^ 32" by simp
  then show ?thesis by (simp add: unsigned_ucast_eq take_bit_nat_eq_self)
qed

lemma unat_lt2p16: "unat (w :: u16) < 65536"
  using unsigned_less [of w] by simp

lemma unat_small: "n \<le> 65535 \<Longrightarrow> unat (of_nat n :: u32) = n"
  by (simp add: unsigned_of_nat take_bit_nat_eq_self)

end
