(* ===== verification/Wire.thy ===== *)
theory Wire
  imports Prelude
begin

text \<open>
  The byte-order helpers.  The firmware has one private copy of them per module
  (\<open>be16\<close>, \<open>get_be16\<close>, \<open>srp_get_be16\<close>, \<open>av_get_be16\<close> and their kin, all with the same
  bodies); the model has one definition of each.  A read takes the buffer and an offset
  into it; a write is the list of bytes it stores, for \<open>mput\<close>.  The lemmas are the round
  trips, in the collection \<open>wire\<close>.
\<close>

definition get_be16 :: "mem \<Rightarrow> nat \<Rightarrow> u16" where
  "get_be16 p o' = push_bit 8 (ucast (p o')) OR ucast (p (o' + 1))"

definition get_be32 :: "mem \<Rightarrow> nat \<Rightarrow> u32" where
  "get_be32 p o' = push_bit 24 (ucast (p o')) OR push_bit 16 (ucast (p (o' + 1)))
                OR push_bit 8 (ucast (p (o' + 2))) OR ucast (p (o' + 3))"

definition get_be48 :: "mem \<Rightarrow> nat \<Rightarrow> u64" where
  "get_be48 p o' = push_bit 40 (ucast (p o')) OR push_bit 32 (ucast (p (o' + 1)))
                OR push_bit 24 (ucast (p (o' + 2))) OR push_bit 16 (ucast (p (o' + 3)))
                OR push_bit 8 (ucast (p (o' + 4))) OR ucast (p (o' + 5))"

definition get_be64 :: "mem \<Rightarrow> nat \<Rightarrow> u64" where
  "get_be64 p o' = push_bit 32 (ucast (get_be32 p o')) OR ucast (get_be32 p (o' + 4))"

definition get_be64_signed :: "mem \<Rightarrow> nat \<Rightarrow> int" where
  "get_be64_signed p o' =
     sint (push_bit 56 (ucast (p o')) OR push_bit 48 (ucast (p (o' + 1)))
        OR push_bit 40 (ucast (p (o' + 2))) OR push_bit 32 (ucast (p (o' + 3)))
        OR push_bit 24 (ucast (p (o' + 4))) OR push_bit 16 (ucast (p (o' + 5)))
        OR push_bit 8 (ucast (p (o' + 6))) OR ucast (p (o' + 7)) :: u64)"

definition put_be16 :: "u16 \<Rightarrow> u8 list" where
  "put_be16 v = [ucast (drop_bit 8 v AND 0xFF), ucast (v AND 0xFF)]"

definition put_be32 :: "u32 \<Rightarrow> u8 list" where
  "put_be32 v = [ucast (drop_bit 24 v AND 0xFF), ucast (drop_bit 16 v AND 0xFF),
                 ucast (drop_bit 8 v AND 0xFF), ucast (v AND 0xFF)]"

definition put_be48 :: "u64 \<Rightarrow> u8 list" where
  "put_be48 v = [ucast (drop_bit 40 v AND 0xFF), ucast (drop_bit 32 v AND 0xFF),
                 ucast (drop_bit 24 v AND 0xFF), ucast (drop_bit 16 v AND 0xFF),
                 ucast (drop_bit 8 v AND 0xFF), ucast (v AND 0xFF)]"

lemma length_put_be [simp]:
  "length (put_be16 v) = 2" "length (put_be32 w) = 4" "length (put_be48 x) = 6"
  by (simp_all add: put_be16_def put_be32_def put_be48_def)

section \<open>Round trips\<close>

lemma bit_FF: "bit (0xFF :: 'a::len word) n \<longleftrightarrow> n < 8 \<and> n < LENGTH('a)"
proof -
  have m: "(0xFF :: 'a word) = mask 8" by (simp add: mask_eq_exp_minus_1)
  show ?thesis unfolding m bit_mask_iff by (auto simp: possible_bit_def)
qed

lemma ucast_and_FF [simp]: "(ucast ((w::'a::len word) AND 0xFF) :: u8) = ucast w"
  by (rule bit_word_eqI) (auto simp: bit_simps bit_FF simp del: bit_numeral_word_iff dest: bit_imp_le_length)

lemma be16_join: "push_bit 8 (ucast (ucast (drop_bit 8 v) :: u8)) OR ucast (ucast v :: u8) = (v :: u16)"
  by (rule bit_word_eqI) (auto simp: bit_simps)

lemma be32_join:
  "push_bit 24 (ucast (ucast (drop_bit 24 v) :: u8)) OR push_bit 16 (ucast (ucast (drop_bit 16 v) :: u8))
   OR push_bit 8 (ucast (ucast (drop_bit 8 v) :: u8)) OR ucast (ucast v :: u8) = (v :: u32)" (is "?l = v")
proof (rule bit_word_eqI)
  fix n assume "n < LENGTH(32)"
  then consider "n < 8" | "8 \<le> n" "n < 16" | "16 \<le> n" "n < 24" | "24 \<le> n" "n < 32" by fastforce
  then show "bit ?l n = bit v n"
    by cases (auto simp: bit_simps)
qed

lemma be48_join:
  assumes "v < 2 ^ 48"
  shows "push_bit 40 (ucast (ucast (drop_bit 40 v) :: u8)) OR push_bit 32 (ucast (ucast (drop_bit 32 v) :: u8))
   OR push_bit 24 (ucast (ucast (drop_bit 24 v) :: u8)) OR push_bit 16 (ucast (ucast (drop_bit 16 v) :: u8))
   OR push_bit 8 (ucast (ucast (drop_bit 8 v) :: u8)) OR ucast (ucast v :: u8) = (v :: u64)" (is "?l = v")
proof (rule bit_word_eqI)
  have "unat v < 2 ^ 48" using assms by (simp add: word_less_nat_alt)
  then have "unat (take_bit 48 v) = unat v"
    unfolding unsigned_take_bit_eq by (rule take_bit_nat_eq_self)
  then have "take_bit 48 v = v" by (rule word_unat_eq_iff [THEN iffD2])
  then have hi: "\<not> n < 48 \<Longrightarrow> \<not> bit v n" for n by (metis bit_take_bit_iff)
  fix n assume "n < LENGTH(64)"
  then consider "n < 8" | "8 \<le> n" "n < 16" | "16 \<le> n" "n < 24" | "24 \<le> n" "n < 32"
    | "32 \<le> n" "n < 40" | "40 \<le> n" "n < 48" | "48 \<le> n" by fastforce
  then show "bit ?l n = bit v n"
    by cases (auto simp: bit_simps hi)
qed

lemma get_put_be16 [wire]:
  "bytes m o' 2 = put_be16 v \<Longrightarrow> get_be16 m o' = v"
proof -
  assume "bytes m o' 2 = put_be16 v"
  then have "m o' = put_be16 v ! 0" "m (o' + 1) = put_be16 v ! 1"
    using nth_bytes [of 0 2 m o'] nth_bytes [of 1 2 m o'] by simp_all
  then show ?thesis by (simp add: get_be16_def put_be16_def be16_join)
qed

lemma get_put_be32 [wire]:
  "bytes m o' 4 = put_be32 v \<Longrightarrow> get_be32 m o' = v"
proof -
  assume "bytes m o' 4 = put_be32 v"
  then have "m o' = put_be32 v ! 0" "m (o' + 1) = put_be32 v ! 1" "m (o' + 2) = put_be32 v ! 2"
      "m (o' + 3) = put_be32 v ! 3"
    using nth_bytes [of 0 4 m o'] nth_bytes [of 1 4 m o'] nth_bytes [of 2 4 m o']
      nth_bytes [of 3 4 m o'] by simp_all
  then show ?thesis by (simp add: get_be32_def put_be32_def be32_join)
qed

lemma get_put_be48:
  assumes "bytes m o' 6 = put_be48 v" and "v < 2 ^ 48"
  shows "get_be48 m o' = v"
proof -
  have "m o' = put_be48 v ! 0" "m (o' + 1) = put_be48 v ! 1" "m (o' + 2) = put_be48 v ! 2"
      "m (o' + 3) = put_be48 v ! 3" "m (o' + 4) = put_be48 v ! 4" "m (o' + 5) = put_be48 v ! 5"
    using assms(1) nth_bytes [of 0 6 m o'] nth_bytes [of 1 6 m o'] nth_bytes [of 2 6 m o']
      nth_bytes [of 3 6 m o'] nth_bytes [of 4 6 m o'] nth_bytes [of 5 6 m o'] by simp_all
  then show ?thesis by (simp add: get_be48_def put_be48_def be48_join [OF assms(2)])
qed

lemma put_get_be16_bytes: "put_be16 (get_be16 m p) = [m p, m (Suc p)]"
proof -
  have "ucast (drop_bit 8 (get_be16 m p)) = m p" "ucast (get_be16 m p) = m (Suc p)"
    by (rule bit_word_eqI, auto simp: get_be16_def bit_simps dest: bit_imp_le_length)+
  then show ?thesis by (simp add: put_be16_def)
qed

text \<open>A read sees only its own bytes.\<close>

lemma get_be16_agree:
  "(\<And>i. a \<le> i \<Longrightarrow> i < a + 2 \<Longrightarrow> m i = m' i) \<Longrightarrow> get_be16 m a = get_be16 m' a"
  by (simp add: get_be16_def)

lemma get_be32_agree:
  "(\<And>i. a \<le> i \<Longrightarrow> i < a + 4 \<Longrightarrow> m i = m' i) \<Longrightarrow> get_be32 m a = get_be32 m' a"
  by (simp add: get_be32_def)

lemma get_be48_agree:
  "(\<And>i. a \<le> i \<Longrightarrow> i < a + 6 \<Longrightarrow> m i = m' i) \<Longrightarrow> get_be48 m a = get_be48 m' a"
  by (simp add: get_be48_def)

lemma get_be64_agree:
  "(\<And>i. a \<le> i \<Longrightarrow> i < a + 8 \<Longrightarrow> m i = m' i) \<Longrightarrow> get_be64 m a = get_be64 m' a"
  by (simp add: get_be64_def get_be32_def)

text \<open>\<open>stored m p xs\<close>: the bytes \<open>xs\<close> are in the buffer from offset \<open>p\<close>.\<close>

definition stored :: "mem \<Rightarrow> nat \<Rightarrow> u8 list \<Rightarrow> bool" where
  "stored m p xs \<longleftrightarrow> bytes m p (length xs) = xs"

lemma stored_append [simp]: "stored m p (xs @ ys) \<longleftrightarrow> stored m p xs \<and> stored m (p + length xs) ys"
  by (simp add: stored_def bytes_add)

lemma stored_Cons [simp]: "stored m p (x # xs) \<longleftrightarrow> m p = x \<and> stored m (p + 1) xs"
  using stored_append [of m p "[x]" xs] by (simp add: stored_def bytes_def)

lemma stored_Nil [simp]: "stored m p []"
  by (simp add: stored_def)

lemma stored_mem_of: "stored (mem_of xs) 0 xs"
  by (simp add: stored_def bytes_mem_of)

lemma stored_bytes: "stored m p xs \<Longrightarrow> length xs = n \<Longrightarrow> bytes m p n = xs"
  by (auto simp: stored_def)

lemma stored_be16: "stored m p (put_be16 v) \<Longrightarrow> get_be16 m p = v"
  by (rule get_put_be16) (simp add: stored_def)

lemma stored_be32: "stored m p (put_be32 v) \<Longrightarrow> get_be32 m p = v"
  by (rule get_put_be32) (simp add: stored_def)

section \<open>AVTP constants (avtp_const.h)\<close>

definition AVTP_ETHERTYPE :: u16 where "AVTP_ETHERTYPE = 0x22F0"
definition AVTP_SUBTYPE_AAF :: u8 where "AVTP_SUBTYPE_AAF = 0x02"
definition AVTP_SUBTYPE_CRF :: u8 where "AVTP_SUBTYPE_CRF = 0x04"

end
