(* ===== verification/Hw.thy ===== *)
theory Hw
  imports Wire
begin

text \<open>
  The hardware the firmware talks to through generated CSR accessors (\<open>generated/csr.h\<close>)
  and the Ethernet slot memory, as one record that every operation threads.

  \<^item> Clocks are read, never computed: \<open>hw_clock k\<close> is what the TSU answers to the
    \<open>k\<close>-th \<open>gptp_read_time\<close> of the run, \<open>hw_samples k\<close> what \<open>mcr_sample_count_read\<close>
    answers to its \<open>k\<close>-th call; both functions are arbitrary, so a theorem holds for every
    behaviour of the clocks.  \<open>hw_rx_ts\<close> is the timestamp popped for the frame in hand,
    \<open>hw_tx_ts n\<close> the transmit timestamp latched after \<open>n\<close> frames were sent.
  \<^item> The MAC's transmit slots are memory (\<open>hw_tx_mem\<close>): a frame is built in place, bytes
    that are not written keep what an earlier frame left there.  Each protocol module has
    its own slot counter (the static variables \<open>txslot\<close>, \<open>aaf_txslot\<close>, \<open>srp_txslot\<close>,
    \<open>avdecc_txslot\<close>, \<open>avtp_txslot\<close>: \<open>hw_txslot\<close>).  \<open>hw_sent\<close> lists the frames handed to the MAC.
  \<^item> The remaining fields are the registers written by the servos and the CRF extractor,
    whose FIFO (\<open>hw_crf_fifo\<close>) holds (AVTP time, local seconds, local nanoseconds).

  The busy wait for a free transmit slot and the UART (every \<open>printf\<close>) are not modelled.
  The build sets \<open>ntxslots = 2\<close> (avb_soc.py).
\<close>

record ptp_timestamp =
  seconds :: u64
  nanoseconds :: u32

datatype tx_user = TxGptp | TxAaf | TxSrp | TxAvdecc | TxAvtp

text \<open>The modules can be listed, which makes statements about all of them executable.\<close>

instantiation tx_user :: enum
begin

definition enum_tx_user :: "tx_user list" where
  "enum_tx_user = [TxGptp, TxAaf, TxSrp, TxAvdecc, TxAvtp]"

definition enum_all_tx_user :: "(tx_user \<Rightarrow> bool) \<Rightarrow> bool" where
  "enum_all_tx_user P \<longleftrightarrow> P TxGptp \<and> P TxAaf \<and> P TxSrp \<and> P TxAvdecc \<and> P TxAvtp"

definition enum_ex_tx_user :: "(tx_user \<Rightarrow> bool) \<Rightarrow> bool" where
  "enum_ex_tx_user P \<longleftrightarrow> P TxGptp \<or> P TxAaf \<or> P TxSrp \<or> P TxAvdecc \<or> P TxAvtp"

instance
proof
  show all: "UNIV = set (enum_class.enum :: tx_user list)"
    by (auto simp: enum_tx_user_def intro: tx_user.exhaust)
  show "distinct (enum_class.enum :: tx_user list)" by (simp add: enum_tx_user_def)
  show "enum_class.enum_all P \<longleftrightarrow> Ball UNIV P" for P :: "tx_user \<Rightarrow> bool"
    unfolding all by (simp add: enum_all_tx_user_def enum_tx_user_def)
  show "enum_class.enum_ex P \<longleftrightarrow> Bex UNIV P" for P :: "tx_user \<Rightarrow> bool"
    unfolding all by (simp add: enum_ex_tx_user_def enum_tx_user_def)
qed

end

record hw =
  hw_clock :: "nat \<Rightarrow> ptp_timestamp"
  hw_clock_k :: nat
  hw_rx_ts :: ptp_timestamp
  hw_tx_ts :: "nat \<Rightarrow> ptp_timestamp"
  hw_samples :: "nat \<Rightarrow> u32"
  hw_samples_k :: nat
  hw_txslot :: "tx_user \<Rightarrow> u32"
  hw_tx_mem :: "u32 \<Rightarrow> mem"
  hw_sent :: "u8 list list"
  hw_addend :: u32
  hw_addend_frac :: u32
  hw_steps :: "ptp_timestamp list"
  hw_offsets :: "(u32 \<times> u32) list"
  hw_nco :: u32
  hw_crf_sid_hi :: u32
  hw_crf_sid_lo :: u32
  hw_crf_enabled :: u32
  hw_crf_fifo :: "(u64 \<times> u64 \<times> u32) list"

definition ETHMAC_TX_SLOTS :: u32 where
  "ETHMAC_TX_SLOTS = 2"

section \<open>Transmission\<close>

text \<open>
  \<open>tx_buf\<close> is the current slot of a module as memory; \<open>tx_store\<close> records what the module
  wrote there; \<open>eth_send\<close> hands the first \<open>len\<close> bytes of the slot to the MAC and moves the
  module to its next slot.
\<close>

definition tx_buf :: "tx_user \<Rightarrow> hw \<Rightarrow> mem" where
  "tx_buf u h = hw_tx_mem h (hw_txslot h u)"

definition tx_store :: "tx_user \<Rightarrow> mem \<Rightarrow> hw \<Rightarrow> hw" where
  "tx_store u m h = h\<lparr>hw_tx_mem := (hw_tx_mem h)(hw_txslot h u := m)\<rparr>"

definition eth_send :: "tx_user \<Rightarrow> u32 \<Rightarrow> hw \<Rightarrow> hw" where
  "eth_send u len h =
     h\<lparr>hw_sent := hw_sent h @ [bytes (tx_buf u h) 0 (unat len)],
       hw_txslot := (hw_txslot h)(u := (hw_txslot h u + 1) mod ETHMAC_TX_SLOTS)\<rparr>"

text \<open>Building a frame in the current slot and sending it.\<close>

definition send_frame :: "tx_user \<Rightarrow> mem \<Rightarrow> u32 \<Rightarrow> hw \<Rightarrow> hw" where
  "send_frame u m len h = eth_send u len (tx_store u m h)"

lemma send_frame_sent [simp]:
  "hw_sent (send_frame u m len h) = hw_sent h @ [bytes m 0 (unat len)]"
  by (simp add: send_frame_def eth_send_def tx_store_def tx_buf_def)

lemma send_frame_other [simp]:
  "hw_clock (send_frame u m len h) = hw_clock h"
  "hw_clock_k (send_frame u m len h) = hw_clock_k h"
  "hw_rx_ts (send_frame u m len h) = hw_rx_ts h"
  "hw_tx_ts (send_frame u m len h) = hw_tx_ts h"
  "hw_samples (send_frame u m len h) = hw_samples h"
  "hw_samples_k (send_frame u m len h) = hw_samples_k h"
  "hw_addend (send_frame u m len h) = hw_addend h"
  "hw_addend_frac (send_frame u m len h) = hw_addend_frac h"
  "hw_steps (send_frame u m len h) = hw_steps h"
  "hw_offsets (send_frame u m len h) = hw_offsets h"
  "hw_nco (send_frame u m len h) = hw_nco h"
  "hw_crf_enabled (send_frame u m len h) = hw_crf_enabled h"
  "hw_crf_sid_hi (send_frame u m len h) = hw_crf_sid_hi h"
  "hw_crf_sid_lo (send_frame u m len h) = hw_crf_sid_lo h"
  "hw_crf_fifo (send_frame u m len h) = hw_crf_fifo h"
  by (simp_all add: send_frame_def eth_send_def tx_store_def)

text \<open>The slot counter of every module stays a valid slot number.\<close>

definition txslots_ok :: "hw \<Rightarrow> bool" where
  "txslots_ok h \<longleftrightarrow> (\<forall>u. hw_txslot h u < ETHMAC_TX_SLOTS)"

lemma send_frame_txslots_ok: "txslots_ok h \<Longrightarrow> txslots_ok (send_frame u m len h)"
  unfolding txslots_ok_def send_frame_def eth_send_def tx_store_def ETHMAC_TX_SLOTS_def
  by (auto intro: word_mod_less_divisor)

section \<open>Clock readings\<close>

definition gptp_read_time :: "hw \<Rightarrow> ptp_timestamp \<times> hw" where
  "gptp_read_time h = (hw_clock h (hw_clock_k h), h\<lparr>hw_clock_k := hw_clock_k h + 1\<rparr>)"

definition gptp_read_rx_timestamp :: "hw \<Rightarrow> ptp_timestamp" where
  "gptp_read_rx_timestamp h = hw_rx_ts h"

definition gptp_read_tx_timestamp :: "hw \<Rightarrow> ptp_timestamp" where
  "gptp_read_tx_timestamp h = hw_tx_ts h (length (hw_sent h))"

definition ts_to_ms :: "ptp_timestamp \<Rightarrow> u32" where
  "ts_to_ms t = ucast (seconds t * 1000 + ucast (nanoseconds t div 1000000))"

definition gptp_uptime_ms :: "hw \<Rightarrow> u32 \<times> hw" where
  "gptp_uptime_ms h = (let (t, h') = gptp_read_time h in (ts_to_ms t, h'))"

definition mcr_sample_count_read :: "hw \<Rightarrow> u32 \<times> hw" where
  "mcr_sample_count_read h = (hw_samples h (hw_samples_k h), h\<lparr>hw_samples_k := hw_samples_k h + 1\<rparr>)"

text \<open>The answer the next reading will give, and the state after it.\<close>

abbreviation peek_time :: "hw \<Rightarrow> ptp_timestamp" where
  "peek_time h \<equiv> hw_clock h (hw_clock_k h)"

abbreviation peek_ms :: "hw \<Rightarrow> u32" where
  "peek_ms h \<equiv> ts_to_ms (peek_time h)"

abbreviation tick_time :: "hw \<Rightarrow> hw" where
  "tick_time h \<equiv> h\<lparr>hw_clock_k := hw_clock_k h + 1\<rparr>"

abbreviation peek_samples :: "hw \<Rightarrow> u32" where
  "peek_samples h \<equiv> hw_samples h (hw_samples_k h)"

lemma gptp_uptime_ms_eq: "gptp_uptime_ms h = (peek_ms h, tick_time h)"
  by (simp add: gptp_uptime_ms_def gptp_read_time_def)

lemma gptp_read_time_eq: "gptp_read_time h = (peek_time h, tick_time h)"
  by (simp add: gptp_read_time_def)

text \<open>
  A board with an idle hardware state: the one the witnesses start from.  Its clock ticks
  one millisecond per reading.
\<close>

definition hw0 :: hw where
  "hw0 = \<lparr>hw_clock = (\<lambda>k. \<lparr>seconds = of_nat (k div 1000), nanoseconds = of_nat (k mod 1000) * 1000000\<rparr>),
          hw_clock_k = 0,
          hw_rx_ts = \<lparr>seconds = 0, nanoseconds = 0\<rparr>,
          hw_tx_ts = (\<lambda>_. \<lparr>seconds = 0, nanoseconds = 0\<rparr>),
          hw_samples = of_nat, hw_samples_k = 0,
          hw_txslot = (\<lambda>_. 0), hw_tx_mem = (\<lambda>_ _. 0), hw_sent = [],
          hw_addend = 0, hw_addend_frac = 0, hw_steps = [], hw_offsets = [], hw_nco = 0,
          hw_crf_sid_hi = 0, hw_crf_sid_lo = 0, hw_crf_enabled = 0, hw_crf_fifo = []\<rparr>"

end
