(* ===== verification/Ring.thy ===== *)
theory Ring
  imports Hw
begin

text \<open>
  The ring buffers of the audio path and the contract their users rely on.

  \<open>ring\<close> is the array \<open>int32_t buf[AAF_CHANNELS][AAF_BUFFER_SIZE]\<close>: a sample per channel
  and slot.  The indices run freely over 32 bits and are reduced with \<open>AAF_BUFFER_MASK\<close>
  when a slot is touched; \<open>ring_queue\<close> is the abstract content between the read and the
  write index.  The locale \<open>bounded_queue\<close> is the contract: a push onto a queue with room
  appends, a pop takes the head or reports that there is none.  Its lemmas (whole
  sequences of pushes and pops) are what the clients of a ring use.
\<close>

section \<open>The contract\<close>

locale bounded_queue =
  fixes queue :: "'s \<Rightarrow> 'a list"
    and cap :: nat
    and ok :: "'a \<Rightarrow> bool"
    and push :: "'a \<Rightarrow> 's \<Rightarrow> 's"
    and pop :: "'s \<Rightarrow> ('a \<times> 's) option"
  assumes queue_push: "ok x \<Longrightarrow> length (queue s) < cap \<Longrightarrow> queue (push x s) = queue s @ [x]"
    and pop_Nil: "queue s = [] \<Longrightarrow> pop s = None"
    and pop_Cons: "queue s = x # xs \<Longrightarrow> \<exists>s'. pop s = Some (x, s') \<and> queue s' = xs"
begin

fun pops :: "nat \<Rightarrow> 's \<Rightarrow> 'a list \<times> 's" where
  "pops 0 s = ([], s)"
| "pops (Suc n) s = (case pop s of None \<Rightarrow> ([], s)
     | Some (x, s') \<Rightarrow> (let (xs, t) = pops n s' in (x # xs, t)))"

lemma queue_pushes:
  "list_all ok xs \<Longrightarrow> length (queue s) + length xs \<le> cap \<Longrightarrow>
   queue (fold push xs s) = queue s @ xs"
proof (induction xs arbitrary: s)
  case Nil
  then show ?case by simp
next
  case (Cons x xs)
  then have "queue (push x s) = queue s @ [x]" by (auto intro: queue_push)
  with Cons show ?case by simp
qed

lemma pops_take:
  "fst (pops n s) = take n (queue s) \<and> queue (snd (pops n s)) = drop n (queue s)"
proof (induction n arbitrary: s)
  case 0
  then show ?case by simp
next
  case (Suc n)
  show ?case
  proof (cases "queue s")
    case Nil
    then show ?thesis by (simp add: pop_Nil)
  next
    case (Cons x xs)
    then obtain s' where s': "pop s = Some (x, s')" "queue s' = xs" using pop_Cons by blast
    with Suc.IH [of s'] Cons show ?thesis by (auto split: prod.splits)
  qed
qed

lemma fifo:
  "list_all ok xs \<Longrightarrow> queue s = [] \<Longrightarrow> length xs \<le> cap \<Longrightarrow>
   fst (pops (length xs) (fold push xs s)) = xs"
  using queue_pushes [of xs s] pops_take [of "length xs" "fold push xs s"] by simp

lemma pop_iff: "pop s = None \<longleftrightarrow> queue s = []"
  by (metis neq_Nil_conv option.distinct(1) pop_Cons pop_Nil)

end

section \<open>Slots between two free-running indices\<close>

text \<open>
  The rings of the firmware keep a read and a write index that run over all of 32 bits and
  reduce them with a mask of \<open>k\<close> ones when a slot is touched.  \<open>slots m r w\<close> are the slots
  from index \<open>r\<close> to before index \<open>w\<close>, oldest first.
\<close>

definition slots :: "u32 \<Rightarrow> u32 \<Rightarrow> u32 \<Rightarrow> u32 list" where
  "slots m r w = map (\<lambda>k. (r + of_nat k) AND m) [0..<unat (w - r)]"

lemma length_slots [simp]: "length (slots m r w) = unat (w - r)"
  by (simp add: slots_def)

lemma slots_empty: "slots m r w = [] \<longleftrightarrow> r = w"
  by (simp add: slots_def unat_eq_zero right_minus_eq) (auto)

lemma unat_succ_diff:
  assumes "unat (w - r) < 2 ^ 31"
  shows "unat ((w :: u32) + 1 - r) = unat (w - r) + 1"
proof -
  have "unat ((w - r) + 1) = unat (w - r) + 1"
    using assms by (subst unat_add_lem [THEN iffD1]) auto
  moreover have "(w - r) + 1 = w + 1 - r" by simp
  ultimately show ?thesis by metis
qed

lemma slots_push:
  assumes "unat (w - r) < 2 ^ 31"
  shows "slots m r (w + 1) = slots m r w @ [w AND m]"
proof -
  have "r + of_nat (unat (w - r)) = w" by simp
  then show ?thesis by (simp add: slots_def unat_succ_diff [OF assms])
qed

lemma unat_pop_diff:
  assumes "r \<noteq> (w :: u32)"
  shows "unat (w - r) = Suc (unat (w - (r + 1)))"
proof -
  have p: "0 < unat (w - r)" using assms by (simp add: unat_gt_0)
  have "unat (w - r - 1) = unat (w - r) - 1"
    using p by (subst unat_sub) (auto simp: word_le_nat_alt)
  moreover have "w - r - 1 = w - (r + 1)" by (simp add: algebra_simps)
  ultimately show ?thesis using p by (simp add: algebra_simps)
qed

lemma slots_pop:
  "r \<noteq> w \<Longrightarrow> slots m r w = (r AND m) # slots m (r + 1) w"
  unfolding slots_def unat_pop_diff upt_conv_Cons [OF zero_less_Suc]
  by (simp add: map_Suc_upt [symmetric] comp_def algebra_simps del: upt_Suc)

text \<open>With room left, the next slot to write is not among the ones in use.\<close>

lemma slots_fresh:
  assumes "unat (w - r) < 2 ^ k" and "k < 32"
  shows "w AND mask k \<notin> set (slots (mask k) r w)"
proof
  assume "w AND mask k \<in> set (slots (mask k) r w)"
  then obtain j where j: "j < unat (w - r)" and e: "w AND mask k = (r + of_nat j) AND mask k"
    by (auto simp: slots_def)
  define d where "d = unat (w - r) - j"
  have d: "0 < d" "d < 2 ^ k" using j assms by (auto simp: d_def)
  define x where "x = r + of_nat j"
  have "w = r + of_nat (unat (w - r))" by simp
  also have "\<dots> = x + of_nat d" using j by (simp add: d_def x_def flip: of_nat_add)
  finally have w: "w = x + of_nat d" .
  have "take_bit k w = take_bit k x" using e by (simp add: take_bit_eq_mask x_def)
  then have "take_bit k (unat w) = take_bit k (unat x)" by (metis unsigned_take_bit_eq)
  then have "unat w mod 2 ^ k = unat x mod 2 ^ k" by (simp add: take_bit_eq_mod)
  moreover have "unat w = (unat x + d) mod 2 ^ 32"
    unfolding w by (simp add: unat_word_ariths unsigned_of_nat take_bit_eq_mod mod_simps)
  moreover have "(2 ^ k :: nat) dvd 2 ^ 32" using assms(2) by (intro le_imp_power_dvd) simp
  ultimately have "(unat x + d) mod 2 ^ k = unat x mod 2 ^ k"
    by (simp add: mod_mod_cancel)
  then have "d mod 2 ^ k = 0"
    by (metis add_diff_cancel_left' mod_eq_dvd_iff_nat le_add1 mod_0_imp_dvd dvd_imp_mod_0)
  then show False using d by simp
qed

section \<open>Rings of 512 slots and 8 channels\<close>

type_synonym ring = "nat \<Rightarrow> u32 \<Rightarrow> u32"

definition AAF_BUFFER_MASK :: u32 where
  "AAF_BUFFER_MASK = 512 - 1"

definition ring_store :: "ring \<Rightarrow> u32 \<Rightarrow> u32 list \<Rightarrow> ring" where
  "ring_store buf slot block = (\<lambda>ch s. if ch < 8 \<and> s = slot then block ! ch else buf ch s)"

definition ring_load :: "ring \<Rightarrow> u32 \<Rightarrow> u32 list" where
  "ring_load buf slot = map (\<lambda>ch. buf ch slot) [0..<8]"

text \<open>The slots named by the indices between read and write, oldest first.\<close>

definition ring_slots :: "u32 \<Rightarrow> u32 \<Rightarrow> u32 list" where
  "ring_slots r w = slots AAF_BUFFER_MASK r w"

lemma buffer_mask: "AAF_BUFFER_MASK = mask 9"
  by (simp add: AAF_BUFFER_MASK_def mask_eq_exp_minus_1)

lemma mask_slot: "(x :: u32) AND AAF_BUFFER_MASK = x mod 512"
proof -
  have "AAF_BUFFER_MASK = mask 9" by (simp add: AAF_BUFFER_MASK_def mask_eq_exp_minus_1)
  moreover have "x AND mask 9 = x mod 512" unfolding take_bit_eq_mask [symmetric] take_bit_eq_mod by simp
  ultimately show ?thesis by simp
qed

lemma slot_bound: "(x :: u32) AND AAF_BUFFER_MASK < 512"
  by (simp add: mask_slot word_mod_less_divisor)

lemma length_ring_slots [simp]: "length (ring_slots r w) = unat (w - r)"
  by (simp add: ring_slots_def)

lemma ring_slots_empty: "ring_slots r w = [] \<longleftrightarrow> r = w"
  by (simp add: ring_slots_def slots_empty)

lemma ring_slots_push:
  "unat (w - r) < 512 \<Longrightarrow> ring_slots r (w + 1) = ring_slots r w @ [w AND AAF_BUFFER_MASK]"
  by (simp add: ring_slots_def slots_push)

lemma ring_slots_pop: "r \<noteq> w \<Longrightarrow> ring_slots r w = (r AND AAF_BUFFER_MASK) # ring_slots (r + 1) w"
  by (simp add: ring_slots_def slots_pop)

lemma next_slot_fresh: "unat (w - r) < 512 \<Longrightarrow> w AND AAF_BUFFER_MASK \<notin> set (ring_slots r w)"
  using slots_fresh [of w r 9] by (simp add: ring_slots_def buffer_mask)

lemma ring_load_store_same: "length block = 8 \<Longrightarrow> ring_load (ring_store buf slot block) slot = block"
  by (rule nth_equalityI) (auto simp: ring_load_def ring_store_def)

lemma ring_load_store_other: "s \<noteq> slot \<Longrightarrow> ring_load (ring_store buf slot block) s = ring_load buf s"
  by (simp add: ring_load_def ring_store_def)

lemma length_ring_load [simp]: "length (ring_load buf s) = 8"
  by (simp add: ring_load_def)

text \<open>The queued blocks, and how a push and a pop change them.\<close>

definition ring_queue :: "ring \<Rightarrow> u32 \<Rightarrow> u32 \<Rightarrow> u32 list list" where
  "ring_queue buf r w = map (ring_load buf) (ring_slots r w)"

lemma ring_queue_push:
  assumes "unat (w - r) < 512" and "length block = 8"
  shows "ring_queue (ring_store buf (w AND AAF_BUFFER_MASK) block) r (w + 1)
           = ring_queue buf r w @ [block]"
  using assms next_slot_fresh [OF assms(1)]
  by (auto simp: ring_queue_def ring_slots_push ring_load_store_same intro!: ring_load_store_other)

lemma ring_queue_pop:
  "r \<noteq> w \<Longrightarrow> ring_queue buf r w = ring_load buf (r AND AAF_BUFFER_MASK) # ring_queue buf (r + 1) w"
  by (simp add: ring_queue_def ring_slots_pop)

lemma ring_queue_empty: "ring_queue buf r w = [] \<longleftrightarrow> r = w"
  by (simp add: ring_queue_def ring_slots_empty)

lemma ring_queue_self [simp]: "ring_queue buf r r = []"
  by (simp add: ring_queue_empty)

lemma length_ring_queue [simp]: "length (ring_queue buf r w) = unat (w - r)"
  by (simp add: ring_queue_def)

end
