(* ===== verification/Aaf.thy ===== *)
theory Aaf
  imports Ring
begin

text \<open>
  The AAF audio stream (firmware/aaf.c, aaf.h): 8 channels of 32-bit samples at 48 kHz, 6
  sample blocks per Class A packet.  \<open>aaf_state\<close> is \<open>aaf_state_t\<close> field by field (prefix
  \<open>a_\<close>); a sample is its 32-bit pattern, and the two jitter buffers are indexed by
  channel and slot.  Each operation of aaf.c is one definition; the ones that touch the
  hardware thread \<open>hw\<close>.

  The lemmas show: both jitter buffers are bounded FIFO queues (the locale
  \<open>bounded_queue\<close>, interpreted here on the transmit and the receive path); a received
  frame is decoded only when stream and format match, and nothing past its end is read; a
  sent packet has the documented layout and is decoded by the receive path to the samples
  it carried; the transmit pacing sends exactly one packet per 6 ticks of the sample clock.
\<close>

section \<open>State\<close>

definition AAF_NSR_48000 :: u8 where "AAF_NSR_48000 = 5"
definition AAF_FORMAT_INT_32BIT :: u8 where "AAF_FORMAT_INT_32BIT = 2"
definition AAF_BIT_DEPTH :: u8 where "AAF_BIT_DEPTH = 32"
definition AAF_PRESENTATION_OFFSET_NS :: u64 where "AAF_PRESENTATION_OFFSET_NS = 2000000"
definition AAF_FRAME_LEN :: u32 where "AAF_FRAME_LEN = 18 + (24 + 6 * 8 * 4)"

record aaf_state =
  a_bound :: u8
  a_stream_id :: "u8 list"
  a_rx_enabled :: u8
  a_rx_audio_capture :: u8
  a_rx_count :: u32
  a_rx_other_count :: u32
  a_format_errors :: u32
  a_rx_seq_errors :: u32
  a_rx_last_seq :: u8
  a_rx_have_last_seq :: u8
  a_rx_buf :: ring
  a_rx_write_idx :: u32
  a_rx_read_idx :: u32
  a_last_presentation_ts :: u32
  a_tx_enabled :: u8
  a_tx_seq :: u8
  a_src_mac :: "u8 list"
  a_dest_mac :: "u8 list"
  a_tx_buf :: ring
  a_tx_write_idx :: u32
  a_tx_read_idx :: u32
  a_tx_packet_count :: u32
  a_tx_underrun_count :: u32
  a_tx_last_sample_count :: u32
  a_tx_pcp :: u8
  a_tx_vid :: u16

definition aaf_zero :: aaf_state where
  "aaf_zero = \<lparr>a_bound = 0, a_stream_id = zeros 8, a_rx_enabled = 0, a_rx_audio_capture = 0,
     a_rx_count = 0, a_rx_other_count = 0, a_format_errors = 0, a_rx_seq_errors = 0,
     a_rx_last_seq = 0, a_rx_have_last_seq = 0, a_rx_buf = (\<lambda>_ _. 0), a_rx_write_idx = 0,
     a_rx_read_idx = 0, a_last_presentation_ts = 0, a_tx_enabled = 0, a_tx_seq = 0,
     a_src_mac = zeros 6, a_dest_mac = zeros 6, a_tx_buf = (\<lambda>_ _. 0), a_tx_write_idx = 0,
     a_tx_read_idx = 0, a_tx_packet_count = 0, a_tx_underrun_count = 0,
     a_tx_last_sample_count = 0, a_tx_pcp = 0, a_tx_vid = 0\<rparr>"

section \<open>Operations\<close>

definition aaf_init :: "u8 list \<Rightarrow> u8 list \<Rightarrow> u8 list \<Rightarrow> hw \<Rightarrow> aaf_state \<times> hw" where
  "aaf_init mac sid dest h =
     (aaf_zero\<lparr>a_src_mac := mac, a_dest_mac := dest, a_stream_id := sid, a_tx_pcp := 3, a_tx_vid := 2\<rparr>,
      h\<lparr>hw_txslot := (hw_txslot h)(TxAaf := 0)\<rparr>)"

definition aaf_set_vlan :: "aaf_state \<Rightarrow> u8 \<Rightarrow> u16 \<Rightarrow> aaf_state" where
  "aaf_set_vlan a pcp vid = a\<lparr>a_tx_pcp := pcp AND 0x07, a_tx_vid := vid AND 0x0FFF\<rparr>"

definition aaf_bind :: "aaf_state \<Rightarrow> u8 list \<Rightarrow> aaf_state" where
  "aaf_bind a sid = a\<lparr>a_stream_id := sid, a_bound := 1, a_rx_enabled := 1, a_rx_count := 0,
     a_rx_seq_errors := 0, a_format_errors := 0, a_rx_have_last_seq := 0,
     a_rx_write_idx := 0, a_rx_read_idx := 0\<rparr>"

definition aaf_unbind :: "aaf_state \<Rightarrow> aaf_state" where
  "aaf_unbind a = a\<lparr>a_bound := 0, a_rx_enabled := 0\<rparr>"

definition aaf_tx_enable :: "aaf_state \<Rightarrow> u8 \<Rightarrow> hw \<Rightarrow> aaf_state \<times> hw" where
  "aaf_tx_enable a enable h =
     (if enable \<noteq> 0 then
        let (cnt, h') = mcr_sample_count_read h
        in (a\<lparr>a_tx_enabled := 1, a_tx_seq := 0, a_tx_packet_count := 0, a_tx_underrun_count := 0,
              a_tx_write_idx := 0, a_tx_read_idx := 0, a_tx_last_sample_count := cnt\<rparr>, h')
      else (a\<lparr>a_tx_enabled := 0\<rparr>, h))"

definition aaf_tx_push :: "aaf_state \<Rightarrow> u32 list \<Rightarrow> aaf_state" where
  "aaf_tx_push a block =
     (let slot = a_tx_write_idx a AND AAF_BUFFER_MASK
      in a\<lparr>a_tx_buf := ring_store (a_tx_buf a) slot block,
           a_tx_write_idx := a_tx_write_idx a + 1\<rparr>)"

definition aaf_rx_level :: "aaf_state \<Rightarrow> u32" where
  "aaf_rx_level a = (a_rx_write_idx a - a_rx_read_idx a) AND AAF_BUFFER_MASK"

definition aaf_tx_level :: "aaf_state \<Rightarrow> u32" where
  "aaf_tx_level a = (a_tx_write_idx a - a_tx_read_idx a) AND AAF_BUFFER_MASK"

text \<open>
  The receive path.  The copy loop of \<open>aaf_process_rx\<close> stores channels 0 and 1 of each
  block only and skips the other six.
\<close>

definition aaf_rx_store :: "ring \<Rightarrow> u32 \<Rightarrow> u32 \<Rightarrow> u32 \<Rightarrow> ring" where
  "aaf_rx_store buf slot l r =
     (\<lambda>ch s. if s = slot \<and> ch = 0 then l else if s = slot \<and> ch = 1 then r else buf ch s)"

fun aaf_rx_copy :: "nat \<Rightarrow> mem \<Rightarrow> nat \<Rightarrow> ring \<Rightarrow> u32 \<Rightarrow> ring \<times> u32" where
  "aaf_rx_copy 0 pdu audio buf wr = (buf, wr)"
| "aaf_rx_copy (Suc b) pdu audio buf wr =
     aaf_rx_copy b pdu (audio + 8 * 4)
       (aaf_rx_store buf (wr AND AAF_BUFFER_MASK) (get_be32 pdu audio) (get_be32 pdu (audio + 4)))
       (wr + 1)"

definition aaf_rx_audio :: "aaf_state \<Rightarrow> mem \<Rightarrow> u32 \<Rightarrow> aaf_state" where
  "aaf_rx_audio a pdu len =
     (let format = pdu 16;
          nsr_ch = get_be16 pdu 17;
          nsr = drop_bit 12 nsr_ch AND 0xF;
          channels = nsr_ch AND 0x3FF;
          bit_depth = pdu 19;
          data_len = get_be16 pdu 20
      in if format \<noteq> AAF_FORMAT_INT_32BIT \<or> nsr \<noteq> ucast AAF_NSR_48000 \<or> channels \<noteq> 8
            \<or> bit_depth \<noteq> AAF_BIT_DEPTH
         then a\<lparr>a_format_errors := a_format_errors a + 1\<rparr>
         else
           let avail = (if len > 14 + 24 then len - 14 - 24 else 0);
               stream_data_len = (if ucast data_len > avail then ucast avail else data_len);
               blocks = ucast stream_data_len div (8 * 4) :: u32;
               (buf, wr) = aaf_rx_copy (unat blocks) pdu 24 (a_rx_buf a) (a_rx_write_idx a)
           in a\<lparr>a_rx_buf := buf, a_rx_write_idx := wr\<rparr>)"

definition aaf_process_rx :: "aaf_state \<Rightarrow> mem \<Rightarrow> u32 \<Rightarrow> aaf_state" where
  "aaf_process_rx a frame len =
     (if a_rx_enabled a = 0 then a
      else if len < 14 + 24 then a
      else
        let pdu = (\<lambda>i. frame (14 + i))
        in if pdu 0 \<noteq> AVTP_SUBTYPE_AAF then a
           else if bytes pdu 4 8 \<noteq> a_stream_id a
           then a\<lparr>a_rx_other_count := a_rx_other_count a + 1\<rparr>
           else
             let seq = pdu 2;
                 a1 = (if a_rx_have_last_seq a \<noteq> 0 \<and> seq \<noteq> a_rx_last_seq a + 1
                       then a\<lparr>a_rx_seq_errors := a_rx_seq_errors a + 1\<rparr> else a);
                 a2 = a1\<lparr>a_rx_last_seq := seq, a_rx_have_last_seq := 1,
                         a_last_presentation_ts := get_be32 pdu 12,
                         a_rx_count := a_rx_count a1 + 1\<rparr>
             in if a_rx_audio_capture a2 = 0 then a2 else aaf_rx_audio a2 pdu len)"

definition aaf_rx_pop :: "aaf_state \<Rightarrow> (u32 list \<times> aaf_state) option" where
  "aaf_rx_pop a =
     (if a_rx_write_idx a = a_rx_read_idx a then None
      else let slot = a_rx_read_idx a AND AAF_BUFFER_MASK
           in Some (ring_load (a_rx_buf a) slot, a\<lparr>a_rx_read_idx := a_rx_read_idx a + 1\<rparr>))"

text \<open>
  The transmit path.  \<open>aaf_tx_take\<close> is one turn of the packing loop: a block from the
  ring, or silence and an underrun.
\<close>

definition aaf_tx_take :: "aaf_state \<Rightarrow> u32 list \<times> aaf_state" where
  "aaf_tx_take a =
     (if a_tx_read_idx a = a_tx_write_idx a
      then (replicate 8 0, a\<lparr>a_tx_underrun_count := a_tx_underrun_count a + 1\<rparr>)
      else let slot = a_tx_read_idx a AND AAF_BUFFER_MASK
           in (ring_load (a_tx_buf a) slot, a\<lparr>a_tx_read_idx := a_tx_read_idx a + 1\<rparr>))"

fun aaf_pack :: "nat \<Rightarrow> aaf_state \<Rightarrow> u8 list \<times> aaf_state" where
  "aaf_pack 0 a = ([], a)"
| "aaf_pack (Suc n) a =
     (let (block, a1) = aaf_tx_take a;
          (bs, a2) = aaf_pack n a1
      in (concat (map put_be32 block) @ bs, a2))"

definition aaf_header :: "aaf_state \<Rightarrow> u32 \<Rightarrow> (nat \<times> u8 list) list" where
  "aaf_header a pres_ts =
     [(0, a_dest_mac a), (6, a_src_mac a),
      (12, put_be16 0x8100),
      (14, put_be16 (push_bit 13 (ucast (a_tx_pcp a AND 0x07)) OR (a_tx_vid a AND 0x0FFF))),
      (16, put_be16 AVTP_ETHERTYPE),
      (18, [AVTP_SUBTYPE_AAF]), (19, [0x81]), (20, [a_tx_seq a]), (21, [0x00]),
      (22, a_stream_id a),
      (30, put_be32 pres_ts),
      (34, [AAF_FORMAT_INT_32BIT]),
      (35, put_be16 (push_bit 12 (ucast AAF_NSR_48000) OR (8 AND 0x3FF))),
      (37, [AAF_BIT_DEPTH]),
      (38, put_be16 (6 * 8 * 4)),
      (40, [0x00]), (41, [0x00])]"

definition aaf_pres_ts :: "ptp_timestamp \<Rightarrow> u32" where
  "aaf_pres_ts now =
     ucast (seconds now * 1000000000 + ucast (nanoseconds now) + AAF_PRESENTATION_OFFSET_NS)"

definition aaf_send_packet :: "aaf_state \<times> hw \<Rightarrow> aaf_state \<times> hw" where
  "aaf_send_packet = (\<lambda>(a, h).
     let frame = tx_buf TxAaf h;
         (now, h1) = gptp_read_time h;
         (audio, a1) = aaf_pack 6 a;
         frame' = mputs frame (aaf_header a (aaf_pres_ts now) @ [(42, audio)])
     in (a1\<lparr>a_tx_seq := a_tx_seq a1 + 1, a_tx_packet_count := a_tx_packet_count a1 + 1\<rparr>,
         send_frame TxAaf frame' AAF_FRAME_LEN h1))"

definition aaf_tx_poll :: "aaf_state \<times> hw \<Rightarrow> aaf_state \<times> hw" where
  "aaf_tx_poll = (\<lambda>(a, h).
     if a_tx_enabled a = 0 then (a, h)
     else
       let (now_cnt, h1) = mcr_sample_count_read h;
           elapsed = now_cnt - a_tx_last_sample_count a
       in if elapsed < 6 then (a, h1)
          else aaf_send_packet (a\<lparr>a_tx_last_sample_count := a_tx_last_sample_count a + 6\<rparr>, h1))"

section \<open>The jitter buffers are bounded FIFO queues\<close>

text \<open>
  Transmit: the queue of blocks between the read and the write index.  The consumer is
  \<open>aaf_tx_take\<close>, which never fails but plays silence on an empty ring.
\<close>

definition tx_queue :: "aaf_state \<Rightarrow> u32 list list" where
  "tx_queue a = ring_queue (a_tx_buf a) (a_tx_read_idx a) (a_tx_write_idx a)"

definition tx_pop :: "aaf_state \<Rightarrow> (u32 list \<times> aaf_state) option" where
  "tx_pop a = (if tx_queue a = [] then None else Some (aaf_tx_take a))"

interpretation txq: bounded_queue tx_queue 512 "\<lambda>b. length b = 8" "\<lambda>b a. aaf_tx_push a b" tx_pop
proof unfold_locales
  fix x :: "u32 list" and s :: aaf_state
  assume "length x = 8" "length (tx_queue s) < 512"
  then show "tx_queue (aaf_tx_push s x) = tx_queue s @ [x]"
    by (simp add: tx_queue_def aaf_tx_push_def Let_def ring_queue_push)
next
  fix s :: aaf_state and x xs
  assume q: "tx_queue s = x # xs"
  then have "a_tx_read_idx s \<noteq> a_tx_write_idx s"
    by (auto simp: tx_queue_def ring_queue_empty [THEN iffD2])
  then show "\<exists>s'. tx_pop s = Some (x, s') \<and> tx_queue s' = xs"
    using q by (auto simp: tx_pop_def aaf_tx_take_def Let_def tx_queue_def ring_queue_pop)
qed (simp add: tx_pop_def)

text \<open>
  Receive: only channels 0 and 1 are stored, so the queue content is the pair of them.
\<close>

definition stereo :: "u32 list \<Rightarrow> u32 \<times> u32" where
  "stereo b = (b ! 0, b ! 1)"

definition rx_queue :: "aaf_state \<Rightarrow> (u32 \<times> u32) list" where
  "rx_queue a = map stereo (ring_queue (a_rx_buf a) (a_rx_read_idx a) (a_rx_write_idx a))"

definition rx_put :: "u32 \<times> u32 \<Rightarrow> aaf_state \<Rightarrow> aaf_state" where
  "rx_put lr a = a\<lparr>a_rx_buf := aaf_rx_store (a_rx_buf a) (a_rx_write_idx a AND AAF_BUFFER_MASK)
                                (fst lr) (snd lr),
                  a_rx_write_idx := a_rx_write_idx a + 1\<rparr>"

definition rx_get :: "aaf_state \<Rightarrow> ((u32 \<times> u32) \<times> aaf_state) option" where
  "rx_get a = map_option (\<lambda>(b, a'). (stereo b, a')) (aaf_rx_pop a)"

lemma stereo_load: "stereo (ring_load buf s) = (buf 0 s, buf 1 s)"
  by (simp add: stereo_def ring_load_def)

lemma rx_queue_slots:
  "rx_queue a = map (\<lambda>s. (a_rx_buf a 0 s, a_rx_buf a 1 s)) (ring_slots (a_rx_read_idx a) (a_rx_write_idx a))"
  by (simp add: rx_queue_def ring_queue_def comp_def stereo_load)

interpretation rxq: bounded_queue rx_queue 512 "\<lambda>_. True" rx_put rx_get
proof unfold_locales
  fix x :: "u32 \<times> u32" and s :: aaf_state
  assume "length (rx_queue s) < 512"
  then have b: "unat (a_rx_write_idx s - a_rx_read_idx s) < 512" by (simp add: rx_queue_def)
  then show "rx_queue (rx_put x s) = rx_queue s @ [x]"
    using next_slot_fresh [OF b]
    by (auto simp: rx_queue_slots rx_put_def ring_slots_push aaf_rx_store_def)
next
  fix s :: aaf_state
  assume "rx_queue s = []"
  then have "a_rx_read_idx s = a_rx_write_idx s" by (simp add: rx_queue_def ring_queue_empty)
  then show "rx_get s = None" by (simp add: rx_get_def aaf_rx_pop_def)
next
  fix s :: aaf_state and x xs
  assume q: "rx_queue s = x # xs"
  then have "a_rx_read_idx s \<noteq> a_rx_write_idx s"
    by (auto simp: rx_queue_def ring_queue_empty [THEN iffD2])
  then show "\<exists>s'. rx_get s = Some (x, s') \<and> rx_queue s' = xs"
    using q by (auto simp: rx_get_def aaf_rx_pop_def Let_def rx_queue_def ring_queue_pop)
qed


section \<open>Packing\<close>

lemma aaf_tx_take_queue:
  "fst (aaf_tx_take a) = (case tx_queue a of [] \<Rightarrow> replicate 8 0 | b # _ \<Rightarrow> b)"
  "tx_queue (snd (aaf_tx_take a)) = tl (tx_queue a)"
  "a_tx_underrun_count (snd (aaf_tx_take a))
     = a_tx_underrun_count a + (if tx_queue a = [] then 1 else 0)"
proof -
  show "fst (aaf_tx_take a) = (case tx_queue a of [] \<Rightarrow> replicate 8 0 | b # _ \<Rightarrow> b)"
    by (auto simp: aaf_tx_take_def tx_queue_def Let_def ring_queue_empty ring_queue_pop
        split: list.split)
  show "tx_queue (snd (aaf_tx_take a)) = tl (tx_queue a)"
    by (auto simp: aaf_tx_take_def tx_queue_def Let_def ring_queue_empty ring_queue_pop
        ring_queue_empty [THEN iffD2])
  show "a_tx_underrun_count (snd (aaf_tx_take a))
     = a_tx_underrun_count a + (if tx_queue a = [] then 1 else 0)"
    by (auto simp: aaf_tx_take_def tx_queue_def Let_def ring_queue_empty)
qed

lemma tx_queue_blocks: "b \<in> set (tx_queue a) \<Longrightarrow> length b = 8"
  by (auto simp: tx_queue_def ring_queue_def)

text \<open>The blocks a packet carries: the oldest six, silence where the ring ran dry.\<close>

definition packet_blocks :: "nat \<Rightarrow> aaf_state \<Rightarrow> u32 list list" where
  "packet_blocks n a = take n (tx_queue a) @ replicate (n - length (tx_queue a)) (replicate 8 0)"

lemma length_packet_blocks [simp]: "length (packet_blocks n a) = n"
  by (simp add: packet_blocks_def)

lemma packet_blocks_8: "b \<in> set (packet_blocks n a) \<Longrightarrow> length b = 8"
  by (auto simp: packet_blocks_def dest: tx_queue_blocks in_set_takeD)

lemma packet_blocks_Suc:
  "packet_blocks (Suc n) a = fst (aaf_tx_take a) # packet_blocks n (snd (aaf_tx_take a))"
  by (cases "tx_queue a") (simp_all add: packet_blocks_def aaf_tx_take_queue)

definition block_bytes :: "u32 list \<Rightarrow> u8 list" where
  "block_bytes b = concat (map put_be32 b)"

lemma length_block_bytes: "length (block_bytes b) = 4 * length b"
  by (induction b) (simp_all add: block_bytes_def)

lemma aaf_pack_bytes: "fst (aaf_pack n a) = concat (map block_bytes (packet_blocks n a))"
proof (induction n arbitrary: a)
  case 0
  then show ?case by (simp add: packet_blocks_def)
next
  case (Suc n)
  then show ?case
    by (simp add: packet_blocks_Suc block_bytes_def split: prod.splits)
       (metis fst_conv snd_conv)
qed

lemma aaf_pack_queue: "tx_queue (snd (aaf_pack n a)) = drop n (tx_queue a)"
proof (induction n arbitrary: a)
  case 0
  then show ?case by simp
next
  case (Suc n)
  have "tx_queue (snd (aaf_pack n (snd (aaf_tx_take a)))) = drop n (tl (tx_queue a))"
    using Suc.IH by (simp add: aaf_tx_take_queue)
  then show ?case by (simp add: drop_Suc split: prod.splits) (metis snd_conv)
qed

lemma aaf_pack_underrun:
  "a_tx_underrun_count (snd (aaf_pack n a))
     = a_tx_underrun_count a + of_nat (n - length (tx_queue a))"
proof (induction n arbitrary: a)
  case 0
  then show ?case by simp
next
  case (Suc n)
  have "a_tx_underrun_count (snd (aaf_pack n (snd (aaf_tx_take a))))
      = a_tx_underrun_count a + of_nat (Suc n - length (tx_queue a))"
    using Suc.IH [of "snd (aaf_tx_take a)"]
    by (cases "tx_queue a") (simp_all add: aaf_tx_take_queue)
  then show ?case by (simp split: prod.splits) (metis snd_conv)
qed

lemma aaf_take_frame:
  "\<exists>r u. snd (aaf_tx_take a) = a\<lparr>a_tx_read_idx := r, a_tx_underrun_count := u\<rparr>"
proof (cases "a_tx_read_idx a = a_tx_write_idx a")
  case True
  then have "snd (aaf_tx_take a) = a\<lparr>a_tx_read_idx := a_tx_read_idx a,
      a_tx_underrun_count := a_tx_underrun_count a + 1\<rparr>" by (simp add: aaf_tx_take_def)
  then show ?thesis by blast
next
  case False
  then have "snd (aaf_tx_take a) = a\<lparr>a_tx_read_idx := a_tx_read_idx a + 1,
      a_tx_underrun_count := a_tx_underrun_count a\<rparr>" by (simp add: aaf_tx_take_def Let_def)
  then show ?thesis by blast
qed

lemma aaf_pack_frame:
  "\<exists>r u. snd (aaf_pack n a) = a\<lparr>a_tx_read_idx := r, a_tx_underrun_count := u\<rparr>"
proof (induction n arbitrary: a)
  case 0
  have "snd (aaf_pack 0 a) = a\<lparr>a_tx_read_idx := a_tx_read_idx a,
      a_tx_underrun_count := a_tx_underrun_count a\<rparr>" by simp
  then show ?case by blast
next
  case (Suc n)
  obtain block a1 where t: "aaf_tx_take a = (block, a1)" by fastforce
  obtain bs a2 where p: "aaf_pack n a1 = (bs, a2)" by fastforce
  obtain r u where 1: "a1 = a\<lparr>a_tx_read_idx := r, a_tx_underrun_count := u\<rparr>"
    using aaf_take_frame [of a] t by auto
  obtain r' u' where "a2 = a1\<lparr>a_tx_read_idx := r', a_tx_underrun_count := u'\<rparr>"
    using Suc.IH [of a1] p by auto
  moreover have "snd (aaf_pack (Suc n) a) = a2" by (simp add: t p)
  ultimately have "snd (aaf_pack (Suc n) a) = a\<lparr>a_tx_read_idx := r', a_tx_underrun_count := u'\<rparr>"
    by (simp add: 1)
  then show ?case by blast
qed

section \<open>The packet on the wire\<close>

definition aaf_ids_ok :: "aaf_state \<Rightarrow> bool" where
  "aaf_ids_ok a \<longleftrightarrow> length (a_src_mac a) = 6 \<and> length (a_dest_mac a) = 6 \<and> length (a_stream_id a) = 8"

definition aaf_packet :: "aaf_state \<Rightarrow> u32 \<Rightarrow> u8 list" where
  "aaf_packet a pres_ts =
     concat (map snd (aaf_header a pres_ts)) @ concat (map block_bytes (packet_blocks 6 a))"

lemma aaf_header_contig: "aaf_ids_ok a \<Longrightarrow> contig 0 (aaf_header a ts @ [(42, au)])"
  by (simp add: aaf_header_def aaf_ids_ok_def)

lemma length_aaf_header: "aaf_ids_ok a \<Longrightarrow> length (concat (map snd (aaf_header a ts))) = 42"
  by (simp add: aaf_header_def aaf_ids_ok_def)

lemma length_aaf_packet: "aaf_ids_ok a \<Longrightarrow> length (aaf_packet a ts) = 234"
proof -
  assume a: "aaf_ids_ok a"
  have "length (concat (map block_bytes (packet_blocks 6 a))) = 32 * 6"
    by (subst length_concat_blocks [where n = 32])
       (auto simp: length_block_bytes dest: packet_blocks_8)
  then show ?thesis using length_aaf_header [OF a] by (simp add: aaf_packet_def)
qed

lemma aaf_send_packet_eq:
  "aaf_send_packet (a, h) =
     ((snd (aaf_pack 6 a))\<lparr>a_tx_seq := a_tx_seq a + 1, a_tx_packet_count := a_tx_packet_count a + 1\<rparr>,
      send_frame TxAaf (mputs (tx_buf TxAaf h)
        (aaf_header a (aaf_pres_ts (peek_time h)) @ [(42, fst (aaf_pack 6 a))])) AAF_FRAME_LEN (tick_time h))"
proof -
  obtain r u where "snd (aaf_pack 6 a) = a\<lparr>a_tx_read_idx := r, a_tx_underrun_count := u\<rparr>"
    using aaf_pack_frame by blast
  then show ?thesis
    by (simp add: aaf_send_packet_def gptp_read_time_eq case_prod_unfold Let_def)
qed

lemma aaf_send_packet_sent:
  assumes "aaf_ids_ok a"
  shows "hw_sent (snd (aaf_send_packet (a, h))) = hw_sent h @ [aaf_packet a (aaf_pres_ts (peek_time h))]"
proof -
  let ?ts = "aaf_pres_ts (peek_time h)"
  let ?ps = "aaf_header a ?ts @ [(42, fst (aaf_pack 6 a))]"
  have c: "concat (map snd ?ps) = aaf_packet a ?ts"
    by (simp add: aaf_packet_def aaf_pack_bytes)
  have "bytes (mputs (tx_buf TxAaf h) ?ps) 0 (length (concat (map snd ?ps))) = concat (map snd ?ps)"
    by (rule bytes_mputs_contig [OF aaf_header_contig [OF assms]])
  then have "bytes (mputs (tx_buf TxAaf h) ?ps) 0 234 = aaf_packet a ?ts"
    unfolding c length_aaf_packet [OF assms] .
  then show ?thesis
    by (simp add: aaf_send_packet_eq AAF_FRAME_LEN_def)
qed

lemma tx_queue_counters [simp]:
  "tx_queue (a\<lparr>a_tx_seq := x, a_tx_packet_count := y\<rparr>) = tx_queue a"
  "tx_queue (a\<lparr>a_tx_last_sample_count := z\<rparr>) = tx_queue a"
  by (simp_all add: tx_queue_def)

lemma aaf_send_packet_queue:
  "tx_queue (fst (aaf_send_packet (a, h))) = drop 6 (tx_queue a)"
  by (simp add: aaf_send_packet_eq aaf_pack_queue)

section \<open>Reading a packet back\<close>

lemma aaf_rx_copy_fold:
  "(let (buf, wr) = aaf_rx_copy n pdu o' (a_rx_buf b) (a_rx_write_idx b)
    in b\<lparr>a_rx_buf := buf, a_rx_write_idx := wr\<rparr>)
   = fold rx_put (map (\<lambda>k. (get_be32 pdu (o' + 32 * k), get_be32 pdu (o' + 32 * k + 4))) [0..<n]) b"
proof (induction n arbitrary: o' b)
  case 0
  then show ?case by simp
next
  case (Suc n)
  define b1 where "b1 = rx_put (get_be32 pdu o', get_be32 pdu (o' + 4)) b"
  have "fold rx_put (map (\<lambda>k. (get_be32 pdu (o' + 32 * k), get_be32 pdu (o' + 32 * k + 4))) [0..<Suc n]) b
     = fold rx_put (map (\<lambda>k. (get_be32 pdu (o' + 32 + 32 * k), get_be32 pdu (o' + 32 + 32 * k + 4))) [0..<n]) b1"
    unfolding upt_conv_Cons [OF zero_less_Suc] map_Suc_upt [symmetric]
    by (simp add: b1_def comp_def algebra_simps del: upt_Suc)
  also have "\<dots> = (let (buf, wr) = aaf_rx_copy n pdu (o' + 32) (a_rx_buf b1) (a_rx_write_idx b1)
    in b1\<lparr>a_rx_buf := buf, a_rx_write_idx := wr\<rparr>)"
    by (rule Suc.IH [symmetric])
  also have "\<dots> = (let (buf, wr) = aaf_rx_copy (Suc n) pdu o' (a_rx_buf b) (a_rx_write_idx b)
    in b\<lparr>a_rx_buf := buf, a_rx_write_idx := wr\<rparr>)"
    by (simp add: b1_def rx_put_def case_prod_unfold)
  finally show ?case by (rule sym)
qed

lemma aaf_packet_field:
  assumes "aaf_ids_ok a" and "aaf_header a ts = pre @ (p, bs) # post"
  shows "bytes (mem_of (aaf_packet a ts)) p (length bs) = bs"
proof (rule field_at)
  let ?ps = "aaf_header a ts @ [(42, concat (map block_bytes (packet_blocks 6 a)))]"
  show "contig 0 ?ps" by (rule aaf_header_contig [OF assms(1)])
  show "?ps = pre @ (p, bs) # (post @ [(42, concat (map block_bytes (packet_blocks 6 a)))])"
    using assms(2) by simp
  have "concat (map snd ?ps) = aaf_packet a ts" by (simp add: aaf_packet_def)
  then show "bytes (mem_of (aaf_packet a ts)) 0 (length (concat (map snd ?ps))) = concat (map snd ?ps)"
    by (simp only: bytes_mem_of)
qed

lemma aaf_packet_audio:
  assumes "aaf_ids_ok a" and "k < 6" and "c < 8"
  shows "get_be32 (mem_of (aaf_packet a ts)) (42 + 32 * k + 4 * c) = packet_blocks 6 a ! k ! c"
proof -
  let ?m = "mem_of (aaf_packet a ts)" and ?bss = "map block_bytes (packet_blocks 6 a)"
  have "bytes ?m 0 (42 + length (concat ?bss)) = aaf_packet a ts"
    using bytes_mem_of [of "aaf_packet a ts"] length_aaf_header [OF assms(1), of ts]
    by (simp add: aaf_packet_def)
  then have "bytes ?m 42 (length (concat ?bss)) = concat ?bss"
    using length_aaf_header [OF assms(1), of ts] by (simp add: bytes_add aaf_packet_def)
  then have blk: "bytes ?m (42 + 32 * k) 32 = block_bytes (packet_blocks 6 a ! k)"
    using assms(2) bytes_block [of ?m 42 ?bss 32 k]
    by (auto simp: length_block_bytes dest: packet_blocks_8)
  let ?b = "packet_blocks 6 a ! k"
  have b8: "length ?b = 8" using assms(2) by (metis packet_blocks_8 nth_mem length_packet_blocks)
  have "bytes ?m (42 + 32 * k) (length (concat (map put_be32 ?b))) = concat (map put_be32 ?b)"
    using blk b8 length_block_bytes [of ?b] by (simp add: block_bytes_def)
  then have "bytes ?m (42 + 32 * k + 4 * c) 4 = put_be32 (?b ! c)"
    using assms(3) b8 bytes_block [of ?m "42 + 32 * k" "map put_be32 ?b" 4 c] by auto
  then show ?thesis by (rule get_put_be32)
qed

lemma aaf_rx_audio_accept:
  assumes "pdu 16 = AAF_FORMAT_INT_32BIT"
    and "get_be16 pdu 17 = push_bit 12 (ucast AAF_NSR_48000) OR (8 AND 0x3FF)"
    and "pdu 19 = AAF_BIT_DEPTH"
    and "get_be16 pdu 20 = 192" and "len = 230"
  shows "aaf_rx_audio b pdu len =
    fold rx_put (map (\<lambda>k. (get_be32 pdu (24 + 32 * k), get_be32 pdu (24 + 32 * k + 4))) [0..<6]) b"
proof -
  have "aaf_rx_audio b pdu len = (let (buf, wr) = aaf_rx_copy 6 pdu 24 (a_rx_buf b) (a_rx_write_idx b)
    in b\<lparr>a_rx_buf := buf, a_rx_write_idx := wr\<rparr>)"
    by (simp add: aaf_rx_audio_def assms AAF_NSR_48000_def Let_def)
  then show ?thesis unfolding aaf_rx_copy_fold .
qed

lemma rx_queue_book [simp]:
  "rx_queue (b\<lparr>a_rx_last_seq := s, a_rx_have_last_seq := t, a_last_presentation_ts := u,
      a_rx_count := v\<rparr>) = rx_queue b"
  "rx_queue (b\<lparr>a_rx_seq_errors := w\<rparr>) = rx_queue b"
  by (simp_all add: rx_queue_def)

lemma rx_put_other [simp]:
  "a_rx_count (rx_put x b) = a_rx_count b"
  "a_format_errors (rx_put x b) = a_format_errors b"
  "a_last_presentation_ts (rx_put x b) = a_last_presentation_ts b"
  by (simp_all add: rx_put_def)

lemma fold_rx_put_other [simp]:
  "a_rx_count (fold rx_put xs b) = a_rx_count b"
  "a_format_errors (fold rx_put xs b) = a_format_errors b"
  "a_last_presentation_ts (fold rx_put xs b) = a_last_presentation_ts b"
  by (induction xs arbitrary: b) simp_all

text \<open>
  What the receive dispatcher hands to the stream handlers for a tagged frame: the slot
  pointer advanced by the four bytes of the tag.
\<close>

definition untagged :: "u8 list \<Rightarrow> mem" where
  "untagged fr = (\<lambda>i. mem_of fr (i + 4))"

lemma received_packet_fields:
  fixes ts :: u32
  assumes ok: "aaf_ids_ok a"
  defines "pdu \<equiv> \<lambda>i. untagged (aaf_packet a ts) (14 + i)"
  shows "pdu 0 = AVTP_SUBTYPE_AAF" "bytes pdu 4 8 = a_stream_id a" "get_be32 pdu 12 = ts" "pdu 16 = AAF_FORMAT_INT_32BIT"
    "get_be16 pdu 17 = push_bit 12 (ucast AAF_NSR_48000) OR (8 AND 0x3FF)" "pdu 19 = AAF_BIT_DEPTH" "get_be16 pdu 20 = 192"
proof -
  have pdu: "pdu = (\<lambda>i. mem_of (aaf_packet a ts) (18 + i))" by (simp add: pdu_def untagged_def add.commute)
  have field: "bytes pdu (q - 18) (length xs) = xs"
    if "aaf_header a ts = pre @ (q, xs) # post" "18 \<le> q" for pre q xs post
    using aaf_packet_field [OF ok that(1)] that(2) by (simp add: pdu bytes_def)
  show "pdu 0 = AVTP_SUBTYPE_AAF" using field [of "take 5 (aaf_header a ts)" 18 "[AVTP_SUBTYPE_AAF]"]
    by (simp add: aaf_header_def bytes_def)
  show "bytes pdu 4 8 = a_stream_id a" using field [of "take 9 (aaf_header a ts)" 22 "a_stream_id a"] ok
    by (simp add: aaf_header_def aaf_ids_ok_def)
  show "get_be32 pdu 12 = ts" using field [of "take 10 (aaf_header a ts)" 30 "put_be32 ts"]
    by (intro get_put_be32) (simp add: aaf_header_def)
  show "pdu 16 = AAF_FORMAT_INT_32BIT" using field [of "take 11 (aaf_header a ts)" 34 "[AAF_FORMAT_INT_32BIT]"]
    by (simp add: aaf_header_def bytes_def)
  show "get_be16 pdu 17 = push_bit 12 (ucast AAF_NSR_48000) OR (8 AND 0x3FF)"
    using field [of "take 12 (aaf_header a ts)" 35 "put_be16 (push_bit 12 (ucast AAF_NSR_48000) OR (8 AND 0x3FF))"]
    by (intro get_put_be16) (simp add: aaf_header_def)
  show "pdu 19 = AAF_BIT_DEPTH" using field [of "take 13 (aaf_header a ts)" 37 "[AAF_BIT_DEPTH]"]
    by (simp add: aaf_header_def bytes_def)
  show "get_be16 pdu 20 = 192" using field [of "take 14 (aaf_header a ts)" 38 "put_be16 192"]
    by (intro get_put_be16) (simp add: aaf_header_def)
qed

lemma received_packet_audio:
  fixes ts :: u32
  assumes ok: "aaf_ids_ok a"
  defines "pdu \<equiv> \<lambda>i. untagged (aaf_packet a ts) (14 + i)"
  shows "map (\<lambda>k. (get_be32 pdu (24 + 32 * k), get_be32 pdu (24 + 32 * k + 4))) [0..<6] = map stereo (packet_blocks 6 a)"
proof (rule nth_equalityI)
  fix k assume "k < length (map (\<lambda>k. (get_be32 pdu (24 + 32 * k), get_be32 pdu (24 + 32 * k + 4))) [0..<6])"
  then have k: "k < 6" by simp
  have pdu: "pdu = (\<lambda>i. mem_of (aaf_packet a ts) (18 + i))" by (simp add: pdu_def untagged_def add.commute)
  have "get_be32 pdu (24 + 32 * k) = packet_blocks 6 a ! k ! 0" "get_be32 pdu (24 + 32 * k + 4) = packet_blocks 6 a ! k ! 1"
    using aaf_packet_audio [OF ok k, of 0 ts] aaf_packet_audio [OF ok k, of 1 ts]
    by (simp_all add: pdu get_be32_def add.assoc [symmetric])
  then show "map (\<lambda>k. (get_be32 pdu (24 + 32 * k), get_be32 pdu (24 + 32 * k + 4))) [0..<6] ! k = map stereo (packet_blocks 6 a) ! k"
    using k by (simp add: stereo_def)
qed simp

lemma aaf_process_rx_packet:
  assumes ok: "aaf_ids_ok a" and en: "a_rx_enabled b \<noteq> 0" "a_rx_audio_capture b \<noteq> 0"
    and sid: "a_stream_id b = a_stream_id a"
  shows "\<exists>b1. rx_queue b1 = rx_queue b \<and> a_rx_count b1 = a_rx_count b + 1
    \<and> a_format_errors b1 = a_format_errors b \<and> a_last_presentation_ts b1 = ts
    \<and> aaf_process_rx b (untagged (aaf_packet a ts)) 230
        = fold rx_put (map stereo (packet_blocks 6 a)) b1"
proof -
  let ?pdu = "\<lambda>i. untagged (aaf_packet a ts) (14 + i)"
  note f = received_packet_fields [OF ok, of ts]
  define b1 where "b1 = (if a_rx_have_last_seq b \<noteq> 0 \<and> ?pdu 2 \<noteq> a_rx_last_seq b + 1
     then b\<lparr>a_rx_seq_errors := a_rx_seq_errors b + 1\<rparr> else b)\<lparr>a_rx_last_seq := ?pdu 2,
     a_rx_have_last_seq := 1, a_last_presentation_ts := ts, a_rx_count := a_rx_count b + 1\<rparr>"
  have "aaf_process_rx b (untagged (aaf_packet a ts)) 230 = aaf_rx_audio b1 ?pdu 230"
    unfolding aaf_process_rx_def using en sid f(1-3) by (simp add: b1_def Let_def)
  also have "\<dots> = fold rx_put (map stereo (packet_blocks 6 a)) b1"
    unfolding received_packet_audio [OF ok, of ts, symmetric] by (rule aaf_rx_audio_accept [OF f(4-7) refl])
  finally show ?thesis
    by (intro exI [of _ b1]) (auto simp: b1_def)
qed

section \<open>Nothing past the end of a frame is read\<close>

lemma aaf_rx_copy_agree:
  "(\<And>i. i < o' + 32 * n \<Longrightarrow> f i = g i) \<Longrightarrow> aaf_rx_copy n f o' buf wr = aaf_rx_copy n g o' buf wr"
proof (induction n arbitrary: o' buf wr)
  case 0
  then show ?case by simp
next
  case (Suc n)
  have "get_be32 f o' = get_be32 g o'" "get_be32 f (o' + 4) = get_be32 g (o' + 4)"
    using Suc.prems by (auto intro: get_be32_agree)
  then show ?case using Suc by simp
qed

lemma aaf_rx_audio_agree:
  assumes "\<And>i. i < unat len - 14 \<Longrightarrow> f i = g i" and "\<not> len < 38"
  shows "aaf_rx_audio a f len = aaf_rx_audio a g len"
proof -
  have l: "38 \<le> unat len" using assms(2) by (simp add: word_less_nat_alt)
  have hd: "f 16 = g 16" "get_be16 f 17 = get_be16 g 17" "f 19 = g 19" "get_be16 f 20 = get_be16 g 20"
    using assms(1) l by (auto intro: get_be16_agree)
  define avail where "avail = (if len > 38 then len - 38 else 0)"
  have av: "unat avail = unat len - 38"
    using l by (auto simp: avail_def unat_sub_if' word_less_nat_alt)
  define sdl :: u16 where "sdl = (if ucast (get_be16 g 20) > avail then ucast avail else get_be16 g 20)"
  have "unat sdl \<le> unat avail"
  proof (cases "ucast (get_be16 g 20) > avail")
    case True
    have "unat (ucast avail :: u16) \<le> unat avail"
      by (simp add: unsigned_ucast_eq take_bit_eq_mod)
    then show ?thesis using True by (simp add: sdl_def)
  next
    case False
    then have "unat (ucast (get_be16 g 20) :: u32) \<le> unat avail"
      by (simp add: word_less_nat_alt not_less)
    then show ?thesis using False by (simp add: sdl_def unat_ucast_16_32)
  qed
  then have "32 * unat (ucast sdl div 32 :: u32) \<le> unat len - 38"
    using av by (simp add: unat_div_distrib unat_ucast_16_32)
  then have "aaf_rx_copy (unat (ucast sdl div 32 :: u32)) f 24 (a_rx_buf a) (a_rx_write_idx a)
           = aaf_rx_copy (unat (ucast sdl div 32 :: u32)) g 24 (a_rx_buf a) (a_rx_write_idx a)"
    using l by (intro aaf_rx_copy_agree assms(1)) simp
  then show ?thesis
    unfolding sdl_def avail_def by (simp add: aaf_rx_audio_def hd Let_def split: if_splits)
qed

lemma aaf_process_rx_agree:
  assumes "\<And>i. i < unat len \<Longrightarrow> f i = g i"
  shows "aaf_process_rx a f len = aaf_process_rx a g len"
proof (cases "a_rx_enabled a = 0 \<or> len < 38")
  case True
  then show ?thesis by (auto simp: aaf_process_rx_def)
next
  case False
  then have l: "38 \<le> unat len" by (simp add: word_less_nat_alt)
  have "f (14 + i) = g (14 + i)" if "i < unat len - 14" for i using assms that by simp
  note pd = this
  have hd: "f 14 = g 14" "f 16 = g 16" "bytes (\<lambda>i. f (14 + i)) 4 8 = bytes (\<lambda>i. g (14 + i)) 4 8"
    "get_be32 (\<lambda>i. f (14 + i)) 12 = get_be32 (\<lambda>i. g (14 + i)) 12"
    using assms l by (auto intro!: bytes_cong get_be32_agree)
  have "aaf_rx_audio a' (\<lambda>i. f (14 + i)) len = aaf_rx_audio a' (\<lambda>i. g (14 + i)) len" for a'
    using pd False by (intro aaf_rx_audio_agree) auto
  with hd show ?thesis by (simp add: aaf_process_rx_def Let_def)
qed

lemma aaf_process_rx_foreign:
  assumes "bytes (\<lambda>i. frame (14 + i)) 4 8 \<noteq> a_stream_id a"
  shows "rx_queue (aaf_process_rx a frame len) = rx_queue a
    \<and> a_rx_count (aaf_process_rx a frame len) = a_rx_count a"
  using assms by (simp add: aaf_process_rx_def Let_def rx_queue_def)

section \<open>Pacing\<close>

lemma aaf_send_packet_other:
  "a_tx_enabled (fst (aaf_send_packet (a, h))) = a_tx_enabled a"
  "a_tx_last_sample_count (fst (aaf_send_packet (a, h))) = a_tx_last_sample_count a"
  "hw_samples (snd (aaf_send_packet (a, h))) = hw_samples h"
  "hw_samples_k (snd (aaf_send_packet (a, h))) = hw_samples_k h"
  "length (hw_sent (snd (aaf_send_packet (a, h)))) = Suc (length (hw_sent h))"
proof -
  obtain r u where "snd (aaf_pack 6 a) = a\<lparr>a_tx_read_idx := r, a_tx_underrun_count := u\<rparr>"
    using aaf_pack_frame by blast
  then show "a_tx_enabled (fst (aaf_send_packet (a, h))) = a_tx_enabled a"
    "a_tx_last_sample_count (fst (aaf_send_packet (a, h))) = a_tx_last_sample_count a"
    by (simp_all add: aaf_send_packet_eq)
qed (simp_all add: aaf_send_packet_eq)

lemma aaf_tx_poll_step:
  assumes "a_tx_enabled a \<noteq> 0"
  shows "let d = peek_samples h - a_tx_last_sample_count a; r = aaf_tx_poll (a, h);
             k = (if d < 6 then 0 else 1)
         in a_tx_enabled (fst r) = a_tx_enabled a
          \<and> a_tx_last_sample_count (fst r) = a_tx_last_sample_count a + 6 * of_nat k
          \<and> hw_samples (snd r) = hw_samples h \<and> hw_samples_k (snd r) = hw_samples_k h + 1
          \<and> length (hw_sent (snd r)) = length (hw_sent h) + k"
  using assms by (simp add: aaf_tx_poll_def mcr_sample_count_read_def aaf_send_packet_other Let_def)

lemma aaf_pacing_inv:
  assumes en: "a_tx_enabled a \<noteq> 0"
    and clk: "\<And>i. hw_samples h (hw_samples_k h + i) = a_tx_last_sample_count a + of_nat (f i)"
    and f0: "f 0 < 12" and step: "\<And>i. f i \<le> f (Suc i) \<and> f (Suc i) \<le> f i + 6"
  shows "let r = (aaf_tx_poll ^^ Suc n) (a, h)
         in a_tx_enabled (fst r) \<noteq> 0
          \<and> a_tx_last_sample_count (fst r) = a_tx_last_sample_count a + of_nat (6 * (f n div 6))
          \<and> hw_samples (snd r) = hw_samples h \<and> hw_samples_k (snd r) = hw_samples_k h + Suc n
          \<and> length (hw_sent (snd r)) = length (hw_sent h) + f n div 6"
proof (induction n)
  case 0
  have d: "peek_samples h - a_tx_last_sample_count a = of_nat (f 0)" using clk [of 0] by simp
  have lt: "(of_nat (f 0) :: u32) < 6 \<longleftrightarrow> f 0 < 6"
    using f0 by (simp add: word_less_nat_alt unsigned_of_nat take_bit_nat_eq_self)
  have dv: "f 0 div 6 = (if f 0 < 6 then 0 else 1)"
    using f0 by (auto simp: div_if)
  show ?case
    using aaf_tx_poll_step [OF en, of h] en unfolding Let_def d lt dv by auto
next
  case (Suc n)
  define r where "r = (aaf_tx_poll ^^ Suc n) (a, h)"
  have IH: "a_tx_enabled (fst r) \<noteq> 0"
      "a_tx_last_sample_count (fst r) = a_tx_last_sample_count a + of_nat (6 * (f n div 6))"
      "hw_samples (snd r) = hw_samples h" "hw_samples_k (snd r) = hw_samples_k h + Suc n"
      "length (hw_sent (snd r)) = length (hw_sent h) + f n div 6"
    using Suc.IH unfolding r_def Let_def by blast+
  define e where "e = f (Suc n) - 6 * (f n div 6)"
  have le: "6 * (f n div 6) \<le> f (Suc n)" using step [of n] by (metis le_trans times_div_less_eq_dividend)
  have e12: "e < 12"
    using step [of n] mod_less_divisor [of 6 "f n"] minus_mod_eq_mult_div [of "f n" 6]
    unfolding e_def by linarith
  have d: "peek_samples (snd r) - a_tx_last_sample_count (fst r) = of_nat e"
    using clk [of "Suc n"] le by (simp only: IH e_def) (simp add: of_nat_diff)
  have lt: "(of_nat e :: u32) < 6 \<longleftrightarrow> e < 6"
    using e12 by (simp add: word_less_nat_alt unsigned_of_nat take_bit_nat_eq_self)
  have dv: "f (Suc n) div 6 = f n div 6 + (if e < 6 then 0 else 1)"
  proof -
    have "f (Suc n) = e + 6 * (f n div 6)" using le by (simp add: e_def)
    then have "f (Suc n) div 6 = e div 6 + f n div 6" by simp
    moreover have "e div 6 = (if e < 6 then 0 else 1)" using e12 by (auto simp: div_if)
    ultimately show ?thesis by simp
  qed
  have s: "(aaf_tx_poll ^^ Suc (Suc n)) (a, h) = aaf_tx_poll (fst r, snd r)"
    by (simp add: r_def)
  show ?case
    unfolding s using aaf_tx_poll_step [OF IH(1), of "snd r"] IH unfolding Let_def d lt dv
    by auto
qed



lemma aaf_tx_level_length: "aaf_tx_level a = of_nat (length (tx_queue a) mod 512)"
proof -
  have "unat (aaf_tx_level a) = length (tx_queue a) mod 512"
    by (simp add: aaf_tx_level_def tx_queue_def mask_slot unat_mod_distrib)
  then have "of_nat (unat (aaf_tx_level a)) = (of_nat (length (tx_queue a) mod 512) :: u32)" by simp
  then show ?thesis by simp
qed

lemma aaf_sends_frames:
  assumes "aaf_ids_ok a" and "length (tx_queue a) = 6 * n"
  shows "\<exists>frames. hw_sent (snd ((aaf_send_packet ^^ n) (a, h))) = hw_sent h @ frames
    \<and> concat (map (drop 42) frames) = concat (map block_bytes (tx_queue a))"
  using assms
proof (induction n arbitrary: a h)
  case 0
  then show ?case by simp
next
  case (Suc n)
  obtain a1 h1 where r: "aaf_send_packet (a, h) = (a1, h1)" by fastforce
  obtain r0 u where a1: "a1 = a\<lparr>a_tx_read_idx := r0, a_tx_underrun_count := u,
      a_tx_seq := a_tx_seq a + 1, a_tx_packet_count := a_tx_packet_count a + 1\<rparr>"
    using aaf_pack_frame [of 6 a] r by (auto simp: aaf_send_packet_eq)
  have ok1: "aaf_ids_ok a1" using Suc.prems(1) by (simp add: a1 aaf_ids_ok_def)
  have q1: "tx_queue a1 = drop 6 (tx_queue a)" using aaf_send_packet_queue [of a h] r by simp
  define fr where "fr = aaf_packet a (aaf_pres_ts (peek_time h))"
  have s1: "hw_sent h1 = hw_sent h @ [fr]"
    using aaf_send_packet_sent [OF Suc.prems(1), of h] r by (simp add: fr_def)
  have d: "drop 42 fr = concat (map block_bytes (take 6 (tx_queue a)))"
    using length_aaf_header [OF Suc.prems(1)] Suc.prems(2)
    by (simp add: fr_def aaf_packet_def packet_blocks_def)
  have "length (tx_queue a1) = 6 * n" using Suc.prems(2) q1 by simp
  from Suc.IH [OF ok1 this, of h1] obtain frames where f:
    "hw_sent (snd ((aaf_send_packet ^^ n) (a1, h1))) = hw_sent h1 @ frames"
    "concat (map (drop 42) frames) = concat (map block_bytes (tx_queue a1))" by blast
  have "hw_sent (snd ((aaf_send_packet ^^ Suc n) (a, h))) = hw_sent h @ (fr # frames)"
    using f(1) s1 r by (simp add: funpow_Suc_right del: funpow.simps)
  moreover have "concat (map (drop 42) (fr # frames)) = concat (map block_bytes (tx_queue a))"
    using f(2) d q1 by simp (metis append_take_drop_id concat_append map_append)
  ultimately show ?case by blast
qed

section \<open>Properties\<close>

text \<open>
  With the capture flag set -- which the firmware never does since the gateware stores the samples
  -- a packet sent by a talker with at least six queued blocks, handed to a listener bound to that
  stream, appends channels 0 and 1 of exactly those six blocks to the listener's jitter buffer, and
  takes them off the talker's.
\<close>

theorem aaf_stream_end_to_end:
  assumes "aaf_ids_ok talker" and "tx_queue talker = blocks" and "length blocks \<ge> 6"
    and "a_rx_enabled listener \<noteq> 0" and "a_rx_audio_capture listener \<noteq> 0"
    and "a_stream_id listener = a_stream_id talker"
    and "length (rx_queue listener) \<le> 506"
    and "aaf_send_packet (talker, h) = (talker', h')"
    and "aaf_process_rx listener (untagged (last (hw_sent h'))) 230 = listener'"
  shows "rx_queue listener' = rx_queue listener @ map stereo (take 6 blocks)
    \<and> tx_queue talker' = drop 6 blocks"
proof -
  let ?ts = "aaf_pres_ts (peek_time h)"
  have l: "last (hw_sent h') = aaf_packet talker ?ts"
    using aaf_send_packet_sent [OF assms(1), of h] assms(8) by simp
  obtain b1 where b1: "rx_queue b1 = rx_queue listener"
    "aaf_process_rx listener (untagged (aaf_packet talker ?ts)) 230
       = fold rx_put (map stereo (packet_blocks 6 talker)) b1"
    using aaf_process_rx_packet [OF assms(1) assms(4-6)] by blast
  have "rx_queue listener' = rx_queue listener @ map stereo (packet_blocks 6 talker)"
    using assms(7,9) b1 rxq.queue_pushes [of "map stereo (packet_blocks 6 talker)" b1]
    by (simp add: l list_all_iff)
  then show ?thesis
    using aaf_send_packet_queue [of talker h] assms(2,3,8) by (simp add: packet_blocks_def)
qed

definition demo_talker :: aaf_state where
  "demo_talker = fold (\<lambda>b a. aaf_tx_push a b) (replicate 6 [1, 2, 3, 4, 5, 6, 7, 8])
     (fst (aaf_init (replicate 6 1) (replicate 8 2) (replicate 6 3) hw0))"

definition demo_listener :: aaf_state where
  "demo_listener = (aaf_bind aaf_zero (replicate 8 2))\<lparr>a_rx_audio_capture := 1\<rparr>"

lemma demo_talker_ids: "aaf_ids_ok demo_talker" "a_stream_id demo_talker = replicate 8 2"
  by (simp_all add: demo_talker_def aaf_ids_ok_def aaf_init_def aaf_tx_push_def Let_def numeral_eq_Suc)

lemma demo_talker_queue: "tx_queue demo_talker = replicate 6 [1, 2, 3, 4, 5, 6, 7, 8]"
  unfolding demo_talker_def
  by (subst txq.queue_pushes)
     (simp_all add: list_all_iff tx_queue_def aaf_init_def aaf_zero_def)

lemma demo_listener_ready: "a_rx_enabled demo_listener \<noteq> 0" "a_rx_audio_capture demo_listener \<noteq> 0"
  "a_stream_id demo_listener = replicate 8 2" "rx_queue demo_listener = []"
  by (simp_all add: demo_listener_def aaf_bind_def rx_queue_def)

theorem aaf_stream_end_to_end_witness:
  "rx_queue (aaf_process_rx demo_listener
      (untagged (last (hw_sent (snd (aaf_send_packet (demo_talker, hw0)))))) 230) = replicate 6 (1, 2)"
  using aaf_stream_end_to_end [OF demo_talker_ids(1) demo_talker_queue _ demo_listener_ready(1,2) _ _
      prod.collapse [symmetric] refl, of hw0]
  by (simp add: demo_talker_ids demo_listener_ready stereo_def map_replicate_const numeral_eq_Suc)

text \<open>
  Each packet is one frame of 234 bytes: header fields from the state, presentation
  time two milliseconds ahead of the clock, then the six oldest blocks; a block that is
  not there is sent as silence and counted as an underrun, and the sequence number and
  the packet counter go up by one.
\<close>

theorem aaf_packet_sent:
  assumes "aaf_ids_ok a"
  shows "hw_sent (snd (aaf_send_packet (a, h))) = hw_sent h @ [aaf_packet a (aaf_pres_ts (peek_time h))]
    \<and> length (aaf_packet a (aaf_pres_ts (peek_time h))) = 234
    \<and> drop 42 (aaf_packet a (aaf_pres_ts (peek_time h)))
        = concat (map block_bytes (take 6 (tx_queue a)))
            @ zeros (32 * (6 - length (tx_queue a)))
    \<and> a_tx_underrun_count (fst (aaf_send_packet (a, h)))
        = a_tx_underrun_count a + of_nat (6 - length (tx_queue a))
    \<and> a_tx_seq (fst (aaf_send_packet (a, h))) = a_tx_seq a + 1
    \<and> a_tx_packet_count (fst (aaf_send_packet (a, h))) = a_tx_packet_count a + 1"
proof -
  have z: "concat (map block_bytes (replicate n (replicate 8 0))) = zeros (32 * n)" for n
    by (induction n) (simp_all add: block_bytes_def zeros_def put_be32_def numeral_eq_Suc)
  have d: "drop 42 (aaf_packet a (aaf_pres_ts (peek_time h)))
      = concat (map block_bytes (packet_blocks 6 a))"
    using length_aaf_header [OF assms] by (simp add: aaf_packet_def)
  show ?thesis
    by (simp add: aaf_send_packet_sent [OF assms] length_aaf_packet [OF assms] d)
       (simp add: packet_blocks_def z [unfolded map_replicate] aaf_send_packet_eq aaf_pack_underrun)
qed

theorem aaf_packet_sent_witness:
  "length (last (hw_sent (snd (aaf_send_packet (demo_talker, hw0))))) = 234"
  using aaf_packet_sent [OF demo_talker_ids(1), of hw0] by simp

text \<open>
  Transmit pacing: when the sample counter advances by at most six ticks between two
  polls, the number of packets sent up to any poll is the number of ticks elapsed divided
  by six: no packet is lost, none is sent early, and the 32-bit wrap of the counter makes
  no difference.
\<close>

theorem aaf_pacing:
  assumes "a_tx_enabled a \<noteq> 0"
    and "\<And>i. hw_samples h (hw_samples_k h + i) = a_tx_last_sample_count a + of_nat (f i)"
    and "f 0 < 12" and "\<And>i. f i \<le> f (Suc i) \<and> f (Suc i) \<le> f i + 6"
  shows "length (hw_sent (snd ((aaf_tx_poll ^^ Suc n) (a, h)))) = length (hw_sent h) + f n div 6"
  using aaf_pacing_inv [OF assms, of n] by (simp only: Let_def)

theorem aaf_pacing_witness:
  "length (hw_sent (snd ((aaf_tx_poll ^^ Suc 100)
     (demo_talker\<lparr>a_tx_enabled := 1, a_tx_last_sample_count := 0\<rparr>, hw0)))) = 16"
proof -
  have "hw_samples hw0 (hw_samples_k hw0 + i) = of_nat i" and "hw_sent hw0 = []" for i
    by (simp_all add: hw0_def)
  then show ?thesis
    using aaf_pacing [of "demo_talker\<lparr>a_tx_enabled := 1, a_tx_last_sample_count := 0\<rparr>" hw0 "\<lambda>i. i" 100]
    by (simp del: funpow.simps)
qed

text \<open>
  Audio leaves in the order it was pushed: from an empty ring, pushing \<open>6 * n\<close> blocks
  (up to the 512 the ring holds) and sending \<open>n\<close> packets puts exactly those blocks on
  the wire, in order.
\<close>

theorem aaf_tx_order:
  assumes "aaf_ids_ok a" and "tx_queue a = []" and "length blocks = 6 * n" and "length blocks \<le> 512"
    and "\<forall>b \<in> set blocks. length b = 8"
  shows "\<exists>frames. hw_sent (snd ((aaf_send_packet ^^ n) (fold (\<lambda>b a. aaf_tx_push a b) blocks a, h)))
      = hw_sent h @ frames
    \<and> concat (map (drop 42) frames) = concat (map block_bytes blocks)"
proof -
  have q: "tx_queue (fold (\<lambda>b a. aaf_tx_push a b) blocks a) = blocks"
    using txq.queue_pushes [of blocks a] assms by (simp add: list_all_iff)
  have "aaf_ids_ok (fold (\<lambda>b a. aaf_tx_push a b) blocks a)"
    using assms(1) by (induction blocks arbitrary: a) (simp_all add: aaf_tx_push_def aaf_ids_ok_def Let_def)
  from aaf_sends_frames [OF this, of n h] show ?thesis using assms(3) q by simp
qed

theorem aaf_tx_order_witness:
  "\<exists>frames. hw_sent (snd ((aaf_send_packet ^^ 1) (fold (\<lambda>b a. aaf_tx_push a b) (replicate 6 [1,2,3,4,5,6,7,8])
      (fst (aaf_init (replicate 6 1) (replicate 8 2) (replicate 6 3) hw0)), hw0))) = frames
    \<and> concat (map (drop 42) frames) = concat (map block_bytes (replicate 6 [1,2,3,4,5,6,7,8]))"
  using aaf_tx_order [of "fst (aaf_init (replicate 6 1) (replicate 8 2) (replicate 6 3) hw0)"
      "replicate 6 [1,2,3,4,5,6,7,8]" 1 hw0]
  by (simp add: aaf_init_def aaf_zero_def aaf_ids_ok_def tx_queue_def hw0_def)

text \<open>
  Memory safety of the receive path: the state after a frame does not depend on any
  byte of the receive slot past the frame's length, whatever lengths the frame claims.
\<close>

theorem aaf_rx_within_frame:
  assumes "\<And>i. i < unat len \<Longrightarrow> frame1 i = frame2 i"
  shows "aaf_process_rx a frame1 len = aaf_process_rx a frame2 len"
  using assms by (rule aaf_process_rx_agree)

theorem aaf_rx_within_frame_witness:
  "aaf_process_rx demo_listener (\<lambda>_. 7) 60 = aaf_process_rx demo_listener (\<lambda>i. if i < 60 then 7 else 9) 60"
  by (rule aaf_rx_within_frame) simp

text \<open>
  The stream id is shared by both directions: once \<open>aaf_bind\<close> has bound the listener
  side to a stream, the frames the talker side sends carry that stream's id.
\<close>

theorem aaf_bind_changes_talker_id:
  assumes "aaf_ids_ok a" and "length sid = 8"
  shows "bytes (mem_of (last (hw_sent (snd (aaf_send_packet (aaf_bind a sid, h)))))) 22 8 = sid"
proof -
  have ok: "aaf_ids_ok (aaf_bind a sid)" using assms by (simp add: aaf_bind_def aaf_ids_ok_def)
  let ?ts = "aaf_pres_ts (peek_time h)" and ?a = "aaf_bind a sid"
  have "aaf_header ?a ?ts = take 9 (aaf_header ?a ?ts) @ (22, sid) # drop 10 (aaf_header ?a ?ts)"
    by (simp add: aaf_header_def aaf_bind_def)
  from aaf_packet_field [OF ok this] show ?thesis
    using assms(2) by (simp add: aaf_send_packet_sent [OF ok])
qed

theorem aaf_bind_changes_talker_id_witness:
  "bytes (mem_of (last (hw_sent (snd (aaf_send_packet (aaf_bind demo_talker (replicate 8 9), hw0)))))) 22 8
     = replicate 8 9"
  by (rule aaf_bind_changes_talker_id) (simp_all add: demo_talker_ids)

end
