(* ===== verification/Mcr.thy ===== *)
theory Mcr
  imports Hw
begin

text \<open>
  Media clock recovery (firmware/mcr.c, mcr.h): pairs of (talker time stamp, local receive
  time) steer the numerically controlled oscillator that generates the sample clock.

  \<open>mcr_state\<close> is \<open>mcr_state_t\<close> (prefix \<open>m_\<close>); its \<open>int64_t\<close> fields are integers kept in
  the signed 64-bit range by \<open>s64\<close>.  \<open>hw_nco\<close> is the increment register, \<open>hw_crf_fifo\<close>
  the queue of the gateware extractor at the time it is drained.

  The lemmas show: an invariant of every operation (register and state agree, the
  increment stays in its window, the oscillator runs at the nominal rate whenever no
  stream is bound); the asymmetric lock hysteresis; the stale watchdog; the drain of the
  hardware queue as a bounded fold over its entries; the choice of the last time stamp
  that fits the frame, and that nothing past the frame is read.
\<close>

section \<open>State\<close>

definition CRF_TYPE_AUDIO_SAMPLE :: u8 where "CRF_TYPE_AUDIO_SAMPLE = 1"
definition MCR_KP_NUM :: int where "MCR_KP_NUM = 1"
definition MCR_KP_DEN :: int where "MCR_KP_DEN = 1"
definition MCR_KI_NUM :: int where "MCR_KI_NUM = 1"
definition MCR_KI_DEN :: int where "MCR_KI_DEN = 32"
definition MCR_INTEGRAL_CLAMP :: int where "MCR_INTEGRAL_CLAMP = 1000000"
definition MCR_INCREMENT_MAX_DELTA :: int where "MCR_INCREMENT_MAX_DELTA = 2 ^ 24"
definition MCR_STALE_THRESHOLD_MS :: u32 where "MCR_STALE_THRESHOLD_MS = 1000"
definition MCR_LOCK_ENTER_NS :: int where "MCR_LOCK_ENTER_NS = 2000"
definition MCR_LOCK_EXIT_NS :: int where "MCR_LOCK_EXIT_NS = 10000"
definition MCR_LOCK_ENTER_STREAK :: u8 where "MCR_LOCK_ENTER_STREAK = 1"
definition MCR_LOCK_EXIT_STREAK :: u8 where "MCR_LOCK_EXIT_STREAK = 4"
definition CRF_HDR_LEN :: u32 where "CRF_HDR_LEN = 20"

record mcr_state =
  m_bound :: u8
  m_stream_id :: "u8 list"
  m_base_frequency :: u32
  m_pull :: u8
  m_type :: u8
  m_timestamp_interval :: u16
  m_timestamps_per_pdu :: u8
  m_latest_avtp_ts :: u64
  m_latest_local_ts :: u64
  m_latest_offset_ns :: int
  m_have_latest :: u8
  m_servo_consumed :: u8
  m_prev_offset_ns :: int
  m_have_prev :: u8
  m_servo_integral :: int
  m_base_increment :: u32
  m_current_increment :: u32
  m_servo_locked :: u8
  m_lock_streak :: u8
  m_servo_step_count :: u32
  m_delta_max_abs :: int
  m_delta_sum_abs :: int
  m_delta_window_count :: u32
  m_rx_count :: u32
  m_hw_rx_count :: u32
  m_rx_other_count :: u32
  m_bad_type_count :: u32
  m_seq_errors :: u32
  m_last_seq :: u8
  m_have_last_seq :: u8
  m_last_rx_count_snapshot :: u32
  m_last_rx_check_ms :: u32
  m_watchdog_reset_active :: u8

definition mcr_zero :: mcr_state where
  "mcr_zero = \<lparr>m_bound = 0, m_stream_id = zeros 8, m_base_frequency = 0, m_pull = 0, m_type = 0,
     m_timestamp_interval = 0, m_timestamps_per_pdu = 0, m_latest_avtp_ts = 0,
     m_latest_local_ts = 0, m_latest_offset_ns = 0, m_have_latest = 0, m_servo_consumed = 0,
     m_prev_offset_ns = 0, m_have_prev = 0, m_servo_integral = 0, m_base_increment = 0,
     m_current_increment = 0, m_servo_locked = 0, m_lock_streak = 0, m_servo_step_count = 0,
     m_delta_max_abs = 0, m_delta_sum_abs = 0, m_delta_window_count = 0, m_rx_count = 0,
     m_hw_rx_count = 0, m_rx_other_count = 0, m_bad_type_count = 0, m_seq_errors = 0,
     m_last_seq = 0, m_have_last_seq = 0, m_last_rx_count_snapshot = 0,
     m_last_rx_check_ms = 0, m_watchdog_reset_active = 0\<rparr>"

section \<open>Operations\<close>

text \<open>Nominal increment: \<open>fs * 2^32 / sys_clk_freq\<close> rounded, in 64-bit arithmetic.\<close>

definition mcr_base_increment :: "u32 \<Rightarrow> u32 \<Rightarrow> u32" where
  "mcr_base_increment sys_clk_freq fs =
     (let n = push_bit 32 (ucast fs) :: u64;
          inc = n div ucast sys_clk_freq;
          inc' = (if n mod ucast sys_clk_freq > ucast (sys_clk_freq div 2) then inc + 1 else inc)
      in ucast inc')"

definition mcr_init :: "u32 \<Rightarrow> u32 \<Rightarrow> hw \<Rightarrow> mcr_state \<times> hw" where
  "mcr_init sys_clk_freq fs h =
     (let inc = mcr_base_increment sys_clk_freq fs
      in (mcr_zero\<lparr>m_base_increment := inc, m_current_increment := inc, m_watchdog_reset_active := 1\<rparr>,
          h\<lparr>hw_nco := inc\<rparr>))"

definition mcr_watchdog_tick :: "u32 \<Rightarrow> mcr_state \<times> hw \<Rightarrow> mcr_state \<times> hw" where
  "mcr_watchdog_tick now_ms = (\<lambda>(m, h).
     if m_bound m = 0 then
       (if m_watchdog_reset_active m = 0
        then (m\<lparr>m_current_increment := m_base_increment m, m_watchdog_reset_active := 1\<rparr>,
              h\<lparr>hw_nco := m_base_increment m\<rparr>)
        else (m, h))
     else if m_rx_count m \<noteq> m_last_rx_count_snapshot m then
       (m\<lparr>m_last_rx_count_snapshot := m_rx_count m, m_last_rx_check_ms := now_ms,
          m_watchdog_reset_active := 0\<rparr>, h)
     else if now_ms - m_last_rx_check_ms m > MCR_STALE_THRESHOLD_MS
          \<and> m_watchdog_reset_active m = 0 then
       (m\<lparr>m_current_increment := m_base_increment m, m_servo_integral := 0, m_have_prev := 0,
          m_servo_locked := 0, m_lock_streak := 0, m_watchdog_reset_active := 1\<rparr>,
        h\<lparr>hw_nco := m_base_increment m\<rparr>)
     else (m, h))"

definition mcr_bind :: "u8 list \<Rightarrow> mcr_state \<times> hw \<Rightarrow> mcr_state \<times> hw" where
  "mcr_bind sid = (\<lambda>(m, h).
     (m\<lparr>m_stream_id := sid, m_bound := 1, m_rx_count := 0, m_rx_other_count := 0,
        m_bad_type_count := 0, m_seq_errors := 0, m_have_last_seq := 0, m_have_latest := 0,
        m_have_prev := 0, m_servo_consumed := 1, m_servo_integral := 0, m_servo_locked := 0,
        m_servo_step_count := 0, m_hw_rx_count := 0\<rparr>,
      h\<lparr>hw_crf_sid_hi := get_be32 (mem_of sid) 0, hw_crf_sid_lo := get_be32 (mem_of sid) 4,
        hw_crf_enabled := 1\<rparr>))"

definition mcr_unbind :: "mcr_state \<times> hw \<Rightarrow> mcr_state \<times> hw" where
  "mcr_unbind = (\<lambda>(m, h).
     (m\<lparr>m_bound := 0, m_servo_locked := 0, m_lock_streak := 0, m_have_latest := 0,
        m_servo_consumed := 1, m_current_increment := m_base_increment m,
        m_watchdog_reset_active := 1\<rparr>,
      h\<lparr>hw_nco := m_base_increment m, hw_crf_enabled := 0\<rparr>))"

definition local_ns :: "u64 \<Rightarrow> u32 \<Rightarrow> u64" where
  "local_ns sec ns = sec * 1000000000 + ucast ns"

text \<open>The number of time stamps of a PDU that lie inside the frame.\<close>

definition mcr_ts_count :: "u32 \<Rightarrow> u16 \<Rightarrow> u32" where
  "mcr_ts_count len crf_data_len =
     (let header_end = 14 + CRF_HDR_LEN;
          bytes_avail = (if len > header_end then len - header_end else 0);
          ts_count = ucast (crf_data_len div 8)
      in if ts_count * 8 > bytes_avail then bytes_avail div 8 else ts_count)"

definition mcr_process_rx :: "mem \<Rightarrow> u32 \<Rightarrow> mcr_state \<times> hw \<Rightarrow> mcr_state \<times> hw" where
  "mcr_process_rx frame len = (\<lambda>(m, h).
     if m_bound m = 0 then (m, h)
     else if len < 14 + CRF_HDR_LEN then (m, h)
     else
       let pdu = (\<lambda>i. frame (14 + i))
       in if pdu 0 \<noteq> AVTP_SUBTYPE_CRF then (m, h)
          else if bytes pdu 4 8 \<noteq> m_stream_id m
          then (m\<lparr>m_rx_other_count := m_rx_other_count m + 1\<rparr>, h)
          else
            let seq = pdu 2;
                m1 = (if m_have_last_seq m \<noteq> 0 \<and> seq \<noteq> m_last_seq m + 1
                      then m\<lparr>m_seq_errors := m_seq_errors m + 1\<rparr> else m);
                m2 = m1\<lparr>m_last_seq := seq, m_have_last_seq := 1\<rparr>;
                typ = pdu 3;
                m3 = (if typ \<noteq> CRF_TYPE_AUDIO_SAMPLE
                      then m2\<lparr>m_bad_type_count := m_bad_type_count m2 + 1\<rparr> else m2);
                pb = get_be32 pdu 12;
                m4 = m3\<lparr>m_pull := ucast (drop_bit 29 pb AND 0x7),
                        m_base_frequency := pb AND 0x1FFFFFFF, m_type := typ,
                        m_timestamp_interval := get_be16 pdu 18\<rparr>;
                ts_count = mcr_ts_count len (get_be16 pdu 16)
            in if ts_count = 0 then (m4, h)
               else
                 let avtp_ts = get_be64 pdu (20 + 8 * (unat ts_count - 1));
                     rx = gptp_read_rx_timestamp h;
                     local_ts = local_ns (seconds rx) (nanoseconds rx)
                 in (m4\<lparr>m_timestamps_per_pdu := (if ts_count > 0xFF then 0xFF else ucast ts_count),
                        m_latest_avtp_ts := avtp_ts, m_latest_local_ts := local_ts,
                        m_latest_offset_ns := sint (avtp_ts - local_ts), m_have_latest := 1,
                        m_servo_consumed := 0, m_rx_count := m_rx_count m4 + 1\<rparr>, h))"

text \<open>
  The servo: \<open>mcr_pi\<close> is the PI step on the rate error \<open>delta\<close> (the clamped integral and
  the increment), \<open>mcr_hysteresis\<close> the lock decision.
\<close>

definition mcr_pi :: "u32 \<Rightarrow> int \<Rightarrow> int \<Rightarrow> int \<times> u32" where
  "mcr_pi base integral delta =
     (let integral' = clamp_sym MCR_INTEGRAL_CLAMP (s64 (integral + delta));
          p_term = s64 (delta * MCR_KP_NUM) sdiv MCR_KP_DEN;
          i_term = s64 (integral' * MCR_KI_NUM) sdiv MCR_KI_DEN;
          correction = clamp_sym MCR_INCREMENT_MAX_DELTA (s64 (- s64 (p_term + i_term)));
          inc = uint base + correction;
          inc1 = (if inc < 1 then 1 else inc);
          inc2 = (if inc1 > 0xFFFFFFFF then 0xFFFFFFFF else inc1)
      in (integral', word_of_int inc2))"

definition mcr_hysteresis :: "int \<Rightarrow> u8 \<Rightarrow> u8 \<Rightarrow> u8 \<times> u8" where
  "mcr_hysteresis abs_delta locked streak =
     (if locked \<noteq> 0 then
        if abs_delta > MCR_LOCK_EXIT_NS then
          let streak' = (if streak < MCR_LOCK_EXIT_STREAK then streak + 1 else streak)
          in if streak' \<ge> MCR_LOCK_EXIT_STREAK then (0, 0) else (locked, streak')
        else (locked, 0)
      else
        if abs_delta < MCR_LOCK_ENTER_NS then
          let streak' = (if streak < MCR_LOCK_ENTER_STREAK then streak + 1 else streak)
          in if streak' \<ge> MCR_LOCK_ENTER_STREAK then (1, 0) else (locked, streak')
        else (locked, 0))"

definition mcr_servo_update :: "mcr_state \<times> hw \<Rightarrow> mcr_state \<times> hw" where
  "mcr_servo_update = (\<lambda>(m, h).
     if m_bound m = 0 \<or> m_servo_consumed m \<noteq> 0 then (m, h)
     else
       let off = m_latest_offset_ns m
       in if m_have_prev m = 0
          then (m\<lparr>m_servo_consumed := 1, m_prev_offset_ns := off, m_have_prev := 1\<rparr>, h)
          else
            let delta = s64 (off - m_prev_offset_ns m);
                (integral, inc) = mcr_pi (m_base_increment m) (m_servo_integral m) delta;
                abs_delta = (if delta < 0 then s64 (- delta) else delta);
                (locked, streak) = mcr_hysteresis abs_delta (m_servo_locked m) (m_lock_streak m)
            in (m\<lparr>m_servo_consumed := 1, m_prev_offset_ns := off, m_servo_integral := integral,
                  m_current_increment := inc,
                  m_delta_max_abs := max abs_delta (m_delta_max_abs m),
                  m_delta_sum_abs := s64 (m_delta_sum_abs m + abs_delta),
                  m_delta_window_count := m_delta_window_count m + 1,
                  m_servo_locked := locked, m_lock_streak := streak,
                  m_servo_step_count := m_servo_step_count m + 1\<rparr>,
                h\<lparr>hw_nco := inc\<rparr>))"

text \<open>One queue entry fed to the servo, and the drain loop with its guard counter.\<close>

definition mcr_take_sample :: "u64 \<times> u64 \<times> u32 \<Rightarrow> mcr_state \<Rightarrow> mcr_state" where
  "mcr_take_sample = (\<lambda>(avtp_ts, sec, ns) m.
     m\<lparr>m_latest_offset_ns := sint (avtp_ts - local_ns sec ns), m_have_latest := 1,
       m_servo_consumed := 0, m_hw_rx_count := m_hw_rx_count m + 1,
       m_rx_count := m_rx_count m + 1\<rparr>)"

fun mcr_pump_loop :: "nat \<Rightarrow> mcr_state \<times> hw \<Rightarrow> mcr_state \<times> hw" where
  "mcr_pump_loop 0 (m, h) = (m, h)"
| "mcr_pump_loop (Suc guard) (m, h) =
     (case hw_crf_fifo h of
        [] \<Rightarrow> (m, h)
      | e # rest \<Rightarrow>
          mcr_pump_loop guard (mcr_servo_update (mcr_take_sample e m, h\<lparr>hw_crf_fifo := rest\<rparr>)))"

definition mcr_pump_hw :: "mcr_state \<times> hw \<Rightarrow> mcr_state \<times> hw" where
  "mcr_pump_hw = (\<lambda>(m, h). if m_bound m = 0 then (m, h) else mcr_pump_loop 64 (m, h))"


section \<open>The PI step and the hysteresis\<close>

lemma mcr_pi_bounds:
  assumes "0 < base"
  shows "\<bar>fst (mcr_pi base i d)\<bar> \<le> MCR_INTEGRAL_CLAMP
    \<and> \<bar>uint (snd (mcr_pi base i d)) - uint base\<bar> \<le> MCR_INCREMENT_MAX_DELTA
    \<and> 0 < snd (mcr_pi base i d)"
proof -
  define c where "c = clamp_sym MCR_INCREMENT_MAX_DELTA (s64 (- s64
      (s64 (d * MCR_KP_NUM) sdiv MCR_KP_DEN
       + s64 (fst (mcr_pi base i d) * MCR_KI_NUM) sdiv MCR_KI_DEN)))"
  define inc where "inc = uint base + c"
  define inc2 where "inc2 = (if (if inc < 1 then 1 else inc) > 0xFFFFFFFF then 0xFFFFFFFF
      else (if inc < 1 then 1 else inc))"
  have f: "fst (mcr_pi base i d) = clamp_sym MCR_INTEGRAL_CLAMP (s64 (i + d))"
    by (simp add: mcr_pi_def Let_def)
  have s: "snd (mcr_pi base i d) = word_of_int inc2"
    by (simp add: mcr_pi_def Let_def inc2_def inc_def c_def)
  have c: "- MCR_INCREMENT_MAX_DELTA \<le> c \<and> c \<le> MCR_INCREMENT_MAX_DELTA"
    unfolding c_def by (rule clamp_sym_bounds) (simp add: MCR_INCREMENT_MAX_DELTA_def)
  have b1: "1 \<le> uint base" using assms by (simp add: word_less_def)
  have b2: "uint base \<le> 0xFFFFFFFF" using uint_lt2p [of base] by simp
  have r: "1 \<le> inc2" "inc2 \<le> 0xFFFFFFFF" "\<bar>inc2 - uint base\<bar> \<le> MCR_INCREMENT_MAX_DELTA"
    using c b1 b2 by (auto simp: inc2_def inc_def)
  have u: "uint (word_of_int inc2 :: u32) = inc2"
    using r by (simp add: uint_word_of_int_eq take_bit_int_eq_self)
  show ?thesis
    using clamp_sym_bounds [of MCR_INTEGRAL_CLAMP "s64 (i + d)"] r u
    by (auto simp: f s word_less_def MCR_INTEGRAL_CLAMP_def)
qed

lemma mcr_hysteresis_streak:
  "streak < 4 \<Longrightarrow> snd (mcr_hysteresis d l streak) < 4"
  by (simp add: mcr_hysteresis_def MCR_LOCK_EXIT_STREAK_def MCR_LOCK_ENTER_STREAK_def Let_def not_le)

section \<open>An invariant of every operation\<close>

definition mcr_ok :: "u32 \<Rightarrow> mcr_state \<times> hw \<Rightarrow> bool" where
  "mcr_ok base = (\<lambda>(m, h).
     m_base_increment m = base \<and> hw_nco h = m_current_increment m
     \<and> \<bar>m_servo_integral m\<bar> \<le> MCR_INTEGRAL_CLAMP
     \<and> \<bar>uint (m_current_increment m) - uint base\<bar> \<le> MCR_INCREMENT_MAX_DELTA
     \<and> 0 < m_current_increment m \<and> m_lock_streak m < 4
     \<and> (m_bound m = 0 \<longrightarrow> m_current_increment m = base \<and> m_servo_locked m = 0
           \<and> m_watchdog_reset_active m = 1 \<and> hw_crf_enabled h = 0)
     \<and> (m_bound m \<noteq> 0 \<longrightarrow> hw_crf_enabled h = 1))"

inductive mcr_step :: "mcr_state \<times> hw \<Rightarrow> mcr_state \<times> hw \<Rightarrow> bool" where
  bind: "length sid = 8 \<Longrightarrow> mcr_step s (mcr_bind sid s)"
| unbind: "mcr_step s (mcr_unbind s)"
| rx: "mcr_step s (mcr_process_rx frame len s)"
| servo: "mcr_step s (mcr_servo_update s)"
| pump: "mcr_step s (mcr_pump_hw s)"
| tick: "mcr_step s (mcr_watchdog_tick now_ms s)"
| arrival: "mcr_step (m, h) (m, h\<lparr>hw_crf_fifo := q, hw_rx_ts := t\<rparr>)"

inductive_cases mcr_stepE: "mcr_step s s'"

lemma mcr_servo_ok: "0 < base \<Longrightarrow> mcr_ok base s \<Longrightarrow> mcr_ok base (mcr_servo_update s)"
proof -
  assume b: "0 < base" and ok: "mcr_ok base s"
  obtain m h where s: "s = (m, h)" by fastforce
  show ?thesis
  proof (cases "m_bound m = 0 \<or> m_servo_consumed m \<noteq> 0 \<or> m_have_prev m = 0")
    case True
    then show ?thesis using ok by (auto simp: s mcr_servo_update_def mcr_ok_def)
  next
    case False
    have base: "m_base_increment m = base" and st: "m_lock_streak m < 4"
      using ok by (simp_all add: s mcr_ok_def)
    show ?thesis
      using False ok mcr_pi_bounds [OF b] mcr_hysteresis_streak [OF st]
      by (auto simp: s mcr_servo_update_def mcr_ok_def base Let_def case_prod_unfold)
  qed
qed

lemma mcr_pump_loop_ok: "0 < base \<Longrightarrow> mcr_ok base s \<Longrightarrow> mcr_ok base (mcr_pump_loop n s)"
proof (induction n s rule: mcr_pump_loop.induct)
  case (1 m h)
  then show ?case by simp
next
  case (2 guard m h)
  show ?case
  proof (cases "hw_crf_fifo h")
    case Nil
    then show ?thesis using "2.prems" by simp
  next
    case (Cons e rest)
    have "mcr_ok base (mcr_take_sample e m, h\<lparr>hw_crf_fifo := rest\<rparr>)"
      using "2.prems" by (auto simp: mcr_ok_def mcr_take_sample_def split: prod.splits)
    then have "mcr_ok base (mcr_servo_update (mcr_take_sample e m, h\<lparr>hw_crf_fifo := rest\<rparr>))"
      by (rule mcr_servo_ok [OF "2.prems"(1)])
    then show ?thesis using "2.IH" [OF Cons "2.prems"(1)] Cons by simp
  qed
qed

lemma mcr_process_rx_other:
  "m_base_increment (fst (mcr_process_rx frame len (m, h))) = m_base_increment m"
  "m_current_increment (fst (mcr_process_rx frame len (m, h))) = m_current_increment m"
  "m_servo_integral (fst (mcr_process_rx frame len (m, h))) = m_servo_integral m"
  "m_bound (fst (mcr_process_rx frame len (m, h))) = m_bound m"
  "m_servo_locked (fst (mcr_process_rx frame len (m, h))) = m_servo_locked m"
  "m_lock_streak (fst (mcr_process_rx frame len (m, h))) = m_lock_streak m"
  "m_watchdog_reset_active (fst (mcr_process_rx frame len (m, h))) = m_watchdog_reset_active m"
  "snd (mcr_process_rx frame len (m, h)) = h"
  by (simp_all add: mcr_process_rx_def Let_def)

lemma mcr_process_rx_ok: "mcr_ok base s \<Longrightarrow> mcr_ok base (mcr_process_rx frame len s)"
  using mcr_process_rx_other [of frame len "fst s" "snd s"]
  by (cases s, cases "mcr_process_rx frame len s") (simp add: mcr_ok_def)

lemma mcr_tick_ok: "0 < base \<Longrightarrow> mcr_ok base s \<Longrightarrow> mcr_ok base (mcr_watchdog_tick now s)"
  by (cases s) (simp add: mcr_ok_def mcr_watchdog_tick_def MCR_INTEGRAL_CLAMP_def MCR_INCREMENT_MAX_DELTA_def)

lemma mcr_step_ok: "mcr_step s s' \<Longrightarrow> 0 < base \<Longrightarrow> mcr_ok base s \<Longrightarrow> mcr_ok base s'"
proof (induction rule: mcr_step.induct)
  case (bind sid s)
  then show ?case by (auto simp: mcr_ok_def mcr_bind_def MCR_INTEGRAL_CLAMP_def)
next
  case (unbind s)
  then show ?case by (auto simp: mcr_ok_def mcr_unbind_def MCR_INCREMENT_MAX_DELTA_def)
next
  case (pump s)
  then show ?case by (auto simp: mcr_pump_hw_def intro: mcr_pump_loop_ok split: prod.splits)
next
  case (arrival m h q t)
  then show ?case by (simp add: mcr_ok_def)
qed (auto intro: mcr_servo_ok mcr_tick_ok mcr_process_rx_ok)


lemma mcr_init_ok: "mcr_base_increment clk fs = base \<Longrightarrow> 0 < base \<Longrightarrow> hw_crf_enabled h = 0 \<Longrightarrow>
    mcr_ok base (mcr_init clk fs h)"
  by (simp add: mcr_ok_def mcr_init_def mcr_zero_def MCR_INTEGRAL_CLAMP_def MCR_INCREMENT_MAX_DELTA_def Let_def)

section \<open>Samples and the lock\<close>

definition mcr_feed :: "int \<Rightarrow> mcr_state \<times> hw \<Rightarrow> mcr_state \<times> hw" where
  "mcr_feed off = (\<lambda>(m, h). mcr_servo_update (m\<lparr>m_latest_offset_ns := off, m_servo_consumed := 0\<rparr>, h))"

definition mcr_abs :: "int \<Rightarrow> int" where
  "mcr_abs delta = (if delta < 0 then s64 (- delta) else delta)"

fun deltas :: "int \<Rightarrow> int list \<Rightarrow> int list" where
  "deltas prev [] = []"
| "deltas prev (off # offs) = s64 (off - prev) # deltas off offs"

definition trailing_bad :: "int list \<Rightarrow> nat" where
  "trailing_bad ds = length (takeWhile (\<lambda>d. mcr_abs d > MCR_LOCK_EXIT_NS) (rev ds))"

lemma deltas_snoc: "deltas prev (offs @ [off]) = deltas prev offs @ [s64 (off - last (prev # offs))]"
  by (induction offs arbitrary: prev) simp_all

lemma length_deltas [simp]: "length (deltas prev offs) = length offs"
  by (induction offs arbitrary: prev) simp_all

lemma mcr_feed_step:
  assumes "m_bound m \<noteq> 0" and "m_have_prev m \<noteq> 0"
  shows "let d = s64 (off - m_prev_offset_ns m); r = fst (mcr_feed off (m, h))
    in m_bound r = m_bound m \<and> m_have_prev r = m_have_prev m \<and> m_prev_offset_ns r = off
     \<and> (m_servo_locked r, m_lock_streak r)
         = mcr_hysteresis (mcr_abs d) (m_servo_locked m) (m_lock_streak m)"
  using assms by (simp add: mcr_feed_def mcr_servo_update_def Let_def case_prod_unfold mcr_abs_def)

lemma hysteresis_locked:
  assumes "l \<noteq> 0" and "n < 4"
  shows "mcr_hysteresis d l (of_nat n) =
    (if d > MCR_LOCK_EXIT_NS then if n = 3 then (0, 0) else (l, of_nat (n + 1)) else (l, 0))"
proof -
  have "n = 0 \<or> n = 1 \<or> n = 2 \<or> n = 3" using assms(2) by linarith
  then show ?thesis
    using assms(1) by (auto simp: mcr_hysteresis_def MCR_LOCK_EXIT_STREAK_def Let_def word_le_nat_alt)
qed

lemma trailing_bad_snoc:
  "trailing_bad (ds @ [d]) = (if mcr_abs d > MCR_LOCK_EXIT_NS then Suc (trailing_bad ds) else 0)"
  by (simp add: trailing_bad_def)

lemma mcr_lock_held:
  assumes "m_bound m \<noteq> 0" and "m_have_prev m \<noteq> 0" and "m_servo_locked m \<noteq> 0" and "m_lock_streak m = 0"
    and "\<forall>k \<le> length offs. trailing_bad (take k (deltas (m_prev_offset_ns m) offs)) < 4"
  shows "let r = fst (fold mcr_feed offs (m, h))
    in m_bound r = m_bound m \<and> m_have_prev r = m_have_prev m
     \<and> m_prev_offset_ns r = last (m_prev_offset_ns m # offs)
     \<and> m_servo_locked r = m_servo_locked m
     \<and> m_lock_streak r = of_nat (trailing_bad (deltas (m_prev_offset_ns m) offs))"
  using assms(5)
proof (induction offs rule: rev_induct)
  case Nil
  then show ?case using assms by (simp add: trailing_bad_def)
next
  case (snoc off offs)
  let ?p = "m_prev_offset_ns m"
  have pre: "\<forall>k \<le> length offs. trailing_bad (take k (deltas ?p offs)) < 4"
  proof (intro allI impI)
    fix k assume k: "k \<le> length offs"
    then show "trailing_bad (take k (deltas ?p offs)) < 4"
      using snoc.prems by (auto simp: deltas_snoc dest: spec [of _ k])
  qed
  obtain m1 h1 where r: "fold mcr_feed offs (m, h) = (m1, h1)" by fastforce
  have I: "m_bound m1 = m_bound m" "m_have_prev m1 = m_have_prev m"
      "m_prev_offset_ns m1 = last (?p # offs)" "m_servo_locked m1 = m_servo_locked m"
      "m_lock_streak m1 = of_nat (trailing_bad (deltas ?p offs))"
    using snoc.IH [OF pre] r by (simp_all add: Let_def)
  have t1: "trailing_bad (deltas ?p offs) < 4" using pre [rule_format, of "length offs"] by simp
  have t2: "trailing_bad (deltas ?p offs @ [s64 (off - last (?p # offs))]) < 4"
    using snoc.prems [rule_format, of "length (offs @ [off])"] by (simp add: deltas_snoc)
  have S: "m_bound (fst (mcr_feed off (m1, h1))) = m_bound m1"
    "m_have_prev (fst (mcr_feed off (m1, h1))) = m_have_prev m1"
    "m_prev_offset_ns (fst (mcr_feed off (m1, h1))) = off"
    "(m_servo_locked (fst (mcr_feed off (m1, h1))), m_lock_streak (fst (mcr_feed off (m1, h1))))
       = mcr_hysteresis (mcr_abs (s64 (off - last (?p # offs)))) (m_servo_locked m) (of_nat (trailing_bad (deltas ?p offs)))"
    using mcr_feed_step [of m1 off h1] assms(1,2) unfolding Let_def I by blast+
  show ?case
    using S(1-3) S(4) [unfolded hysteresis_locked [OF assms(3) t1]] t1 t2
    by (auto simp: r deltas_snoc trailing_bad_snoc I Let_def split: if_splits)
qed

section \<open>The stale watchdog\<close>

definition mcr_stale :: "mcr_state \<times> hw \<Rightarrow> mcr_state \<times> hw" where
  "mcr_stale = (\<lambda>(m, h).
    (m\<lparr>m_current_increment := m_base_increment m, m_servo_integral := 0, m_have_prev := 0,
       m_servo_locked := 0, m_lock_streak := 0, m_watchdog_reset_active := 1\<rparr>,
     h\<lparr>hw_nco := m_base_increment m\<rparr>))"

lemma mcr_tick_silent:
  assumes "m_bound m \<noteq> 0" and "m_rx_count m = m_last_rx_count_snapshot m"
  shows "mcr_watchdog_tick t (m, h) =
    (if t - m_last_rx_check_ms m > MCR_STALE_THRESHOLD_MS \<and> m_watchdog_reset_active m = 0
     then mcr_stale (m, h) else (m, h))"
  using assms by (simp add: mcr_watchdog_tick_def mcr_stale_def)

lemma mcr_ticks_reset:
  assumes "m_bound m \<noteq> 0" and "m_rx_count m = m_last_rx_count_snapshot m" and "m_watchdog_reset_active m \<noteq> 0"
  shows "fold mcr_watchdog_tick ts (m, h) = (m, h)"
  by (induction ts) (simp_all add: mcr_tick_silent assms)

lemma mcr_ticks_silent:
  assumes "m_bound m \<noteq> 0" and "m_rx_count m = m_last_rx_count_snapshot m" and "m_watchdog_reset_active m = 0"
  shows "fold mcr_watchdog_tick ts (m, h) =
    (if \<exists>t \<in> set ts. t - m_last_rx_check_ms m > MCR_STALE_THRESHOLD_MS then mcr_stale (m, h) else (m, h))"
proof (induction ts)
  case Nil
  then show ?case by simp
next
  case (Cons t ts)
  have "fold mcr_watchdog_tick ts (mcr_stale (m, h)) = mcr_stale (m, h)"
    unfolding mcr_stale_def by (simp add: mcr_ticks_reset assms)
  then show ?case using Cons by (auto simp: mcr_tick_silent assms)
qed

section \<open>The hardware queue\<close>

lemma mcr_pump_loop_fold:
  "mcr_pump_loop n (m, h\<lparr>hw_crf_fifo := q\<rparr>) =
     map_prod id (hw_crf_fifo_update (\<lambda>_. drop n q))
       (fold (\<lambda>e (m, h). mcr_servo_update (mcr_take_sample e m, h)) (take n q) (m, h))"
proof (induction n arbitrary: m h q)
  case 0
  then show ?case by simp
next
  case (Suc n)
  show ?case
  proof (cases q)
    case Nil
    then show ?thesis by simp
  next
    case (Cons e rest)
    have "mcr_servo_update (mcr_take_sample e m, h\<lparr>hw_crf_fifo := rest\<rparr>)
        = map_prod id (hw_crf_fifo_update (\<lambda>_. rest)) (mcr_servo_update (mcr_take_sample e m, h))"
      by (simp add: mcr_servo_update_def Let_def case_prod_unfold)
    then show ?thesis
      using Suc.IH [where m = "fst (mcr_servo_update (mcr_take_sample e m, h))"
          and h = "snd (mcr_servo_update (mcr_take_sample e m, h))" and q = rest] Cons
      by (cases "mcr_servo_update (mcr_take_sample e m, h)") simp
  qed
qed

section \<open>Received frames\<close>

lemma mcr_ts_count_min: "unat (mcr_ts_count len d) = min (unat d div 8) ((unat len - 34) div 8)"
proof -
  have d: "unat (ucast (d div 8) :: u32) = unat d div 8"
    by (simp add: unat_ucast_16_32 unat_div_distrib)
  have d8: "unat (ucast (d div 8) * 8 :: u32) = unat d div 8 * 8"
    using unat_lt2p16 [of d] by (simp add: unat_word_ariths d)
  have av: "unat (if len > 34 then len - 34 else 0 :: u32) = unat len - 34"
    by (auto simp: unat_sub_if' word_less_nat_alt)
  define av where "av = (if len > 34 then len - 34 else 0 :: u32)"
  have eq: "mcr_ts_count len d = (if ucast (d div 8) * 8 > av then av div 8 else ucast (d div 8))"
    by (simp add: mcr_ts_count_def CRF_HDR_LEN_def av_def)
  have "unat (mcr_ts_count len d) = (if unat d div 8 * 8 > unat av then unat av div 8 else unat d div 8)"
    unfolding eq by (simp add: word_less_nat_alt d8 d unat_div_distrib)
  also have "\<dots> = min (unat d div 8) (unat av div 8)"
    by (auto simp: min_def div_le_mono dest: leD)
  finally show ?thesis using av by (simp add: av_def)
qed


lemma mcr_process_rx_agree:
  assumes "\<And>i. i < unat len \<Longrightarrow> f i = g i"
  shows "mcr_process_rx f len s = mcr_process_rx g len s"
proof (cases "len < 34")
  case True
  then show ?thesis by (simp add: mcr_process_rx_def CRF_HDR_LEN_def case_prod_unfold)
next
  case False
  then have l: "34 \<le> unat len" by (simp add: word_less_nat_alt)
  let ?f = "\<lambda>i. f (14 + i)" and ?g = "\<lambda>i. g (14 + i)"
  have b: "f 14 = g 14" "f 16 = g 16" "f 17 = g 17" "bytes ?f 4 8 = bytes ?g 4 8"
    "get_be32 ?f 12 = get_be32 ?g 12" "get_be16 ?f 16 = get_be16 ?g 16" "get_be16 ?f 18 = get_be16 ?g 18"
    using assms l by (auto intro!: bytes_cong get_be32_agree get_be16_agree)
  have t: "get_be64 ?f (20 + 8 * (unat c - Suc 0)) = get_be64 ?g (20 + 8 * (unat c - Suc 0))"
    if c: "c = mcr_ts_count len d" "c \<noteq> 0" for c d
  proof -
    have "unat c \<le> (unat len - 34) div 8" using c(1) by (simp add: mcr_ts_count_min)
    moreover have "0 < unat c" using c(2) by (simp add: unat_gt_0)
    ultimately have "20 + 8 * (unat c - 1) + 8 \<le> unat len - 14" using l by linarith
    then show ?thesis by (intro get_be64_agree assms) simp
  qed
  show ?thesis
    by (simp add: mcr_process_rx_def Let_def b t case_prod_unfold)
qed

section \<open>Properties\<close>

text \<open>
  C12.  After any sequence of operations on a freshly initialised state (binds, unbinds,
  frames, servo steps, queue drains, watchdog ticks at any times): the NCO register holds
  \<open>current_increment\<close>, which is positive and at most 2^24 away from the nominal
  increment; the integral is clamped; and whenever no stream is bound the oscillator runs
  at the nominal rate, unlocked, with the gateware extractor off.
\<close>

theorem mcr_invariant:
  assumes "mcr_step\<^sup>*\<^sup>* (mcr_init clk fs h0) (m, h)"
    and "0 < mcr_base_increment clk fs" and "hw_crf_enabled h0 = 0"
  shows "m_base_increment m = mcr_base_increment clk fs \<and> hw_nco h = m_current_increment m
    \<and> \<bar>m_servo_integral m\<bar> \<le> MCR_INTEGRAL_CLAMP
    \<and> \<bar>uint (m_current_increment m) - uint (m_base_increment m)\<bar> \<le> MCR_INCREMENT_MAX_DELTA
    \<and> 0 < m_current_increment m
    \<and> (hw_crf_enabled h = 1 \<longleftrightarrow> m_bound m \<noteq> 0)
    \<and> (m_bound m = 0 \<longrightarrow> m_current_increment m = m_base_increment m \<and> m_servo_locked m = 0)"
proof -
  have "mcr_ok (mcr_base_increment clk fs) s" if "mcr_step\<^sup>*\<^sup>* (mcr_init clk fs h0) s" for s
    using that
  proof (induction rule: rtranclp_induct)
    case base
    then show ?case by (rule mcr_init_ok [OF refl assms(2,3)])
  next
    case (step s s')
    then show ?case using mcr_step_ok assms(2) by blast
  qed
  from this [OF assms(1)] show ?thesis by (auto simp: mcr_ok_def)
qed

theorem mcr_invariant_witness:
  "hw_nco (snd (mcr_unbind (mcr_bind (replicate 8 1) (mcr_init 50000000 48000 hw0)))) = 4123169"
proof -
  have b: "mcr_base_increment 50000000 48000 = 4123169" by (simp add: mcr_base_increment_def Let_def)
  let ?s = "mcr_unbind (mcr_bind (replicate 8 1) (mcr_init 50000000 48000 hw0))"
  have "mcr_step\<^sup>*\<^sup>* (mcr_init 50000000 48000 hw0) ?s"
    using mcr_step.bind [of "replicate 8 1" "mcr_init 50000000 48000 hw0"]
      mcr_step.unbind [of "mcr_bind (replicate 8 1) (mcr_init 50000000 48000 hw0)"]
    by (meson length_replicate r_into_rtranclp rtranclp.rtrancl_into_rtrancl)
  from mcr_invariant [of 50000000 48000 hw0 "fst ?s" "snd ?s"] this b
  have "hw_nco (snd ?s) = m_current_increment (fst ?s)
    \<and> m_base_increment (fst ?s) = 4123169
    \<and> (m_bound (fst ?s) = 0 \<longrightarrow> m_current_increment (fst ?s) = m_base_increment (fst ?s))"
    by (simp add: hw0_def)
  moreover have "m_bound (fst ?s) = 0" by (simp add: mcr_unbind_def case_prod_unfold)
  ultimately show ?thesis by simp
qed

lemma unat_ucast_32_64: "unat (ucast (x :: u32) :: u64) = unat x"
proof -
  have "unat x < 2 ^ LENGTH(32)" by (rule unsigned_less)
  then have "unat x < 2 ^ 64" by simp
  then show ?thesis by (simp add: unsigned_ucast_eq take_bit_nat_eq_self)
qed

text \<open>The quotient leaves room for rounding up.\<close>

lemma increment_room:
  fixes f c :: nat
  assumes "f < c" and "c < 2 ^ 32"
  shows "f * 2 ^ 32 div c < 2 ^ 32 - 1"
proof (rule ccontr)
  define q where "q = f * 2 ^ 32 div c"
  assume "\<not> f * 2 ^ 32 div c < 2 ^ 32 - 1"
  then have "4294967295 \<le> q" by (simp add: q_def)
  then have "4294967295 * c \<le> q * c" by (rule mult_right_mono) simp
  moreover have "f * 4294967296 + 4294967296 \<le> c * 4294967296" using assms(1) by linarith
  moreover have "q * c \<le> f * 4294967296" by (simp add: q_def)
  moreover have "c < 4294967296" using assms(2) by simp
  moreover define qc where "qc = q * c"
  ultimately show False by linarith
qed

lemma mcr_base_increment_rounds:
  assumes "fs < sys_clk_freq"
  defines "c \<equiv> unat sys_clk_freq" and "f \<equiv> unat fs"
  defines "q \<equiv> f * 2 ^ 32 div c" and "r \<equiv> f * 2 ^ 32 mod c"
  shows "unat (mcr_base_increment sys_clk_freq fs) = (if r > c div 2 then q + 1 else q)"
proof -
  have fc: "f < c" using assms by (simp add: word_less_nat_alt c_def f_def)
  have c32: "c < 2 ^ 32" using unsigned_less [of sys_clk_freq] by (simp add: c_def)
  define n :: u64 where "n = push_bit 32 (ucast fs)"
  have n: "unat n = f * 2 ^ 32"
  proof -
    have "f * 2 ^ 32 < 2 ^ 64" using fc c32 by simp
    then show ?thesis
      by (simp add: n_def push_bit_eq_mult unat_word_ariths unat_ucast_32_64 f_def)
  qed
  have half: "unat (ucast (sys_clk_freq div 2) :: u64) = c div 2"
    by (simp add: unat_ucast_32_64 unat_div_distrib c_def)
  have qb: "q < 2 ^ 32 - 1" unfolding q_def by (rule increment_room [OF fc c32])
  define i where "i = (if r > c div 2 then q + 1 else q)"
  have qi: "unat (n div ucast sys_clk_freq) = q"
    by (simp add: unat_div_distrib n unat_ucast_32_64 q_def c_def)
  have ri: "unat (n mod ucast sys_clk_freq) = r"
    by (simp add: unat_mod_distrib n unat_ucast_32_64 r_def c_def)
  have inc: "unat (n div ucast sys_clk_freq + 1) = q + 1"
  proof -
    have "unat (x + 1) = q + 1" if "unat x = q" for x :: u64
      using that qb by (simp add: unat_word_ariths)
    from this [OF qi] show ?thesis .
  qed
  have "unat (if n mod ucast sys_clk_freq > ucast (sys_clk_freq div 2)
      then n div ucast sys_clk_freq + 1 else n div ucast sys_clk_freq) = i"
    using qb by (simp add: i_def word_less_nat_alt ri half qi inc)
  then have "unat (mcr_base_increment sys_clk_freq fs) = take_bit 32 i"
    unfolding mcr_base_increment_def Let_def n_def [symmetric] by (simp add: unsigned_ucast_eq)
  moreover have "i < 2 ^ 32" using qb by (simp add: i_def)
  ultimately show ?thesis by (simp add: take_bit_nat_eq_self i_def)
qed

text \<open>
  The nominal increment is \<open>fs * 2^32 / sys_clk_freq\<close> rounded to the nearest integer
  (the 64-bit arithmetic neither overflows nor is cut when it is stored in 32 bits).
\<close>

theorem mcr_base_increment_nearest:
  assumes "fs < sys_clk_freq"
  shows "2 * \<bar>uint (mcr_base_increment sys_clk_freq fs) * uint sys_clk_freq - uint fs * 2 ^ 32\<bar>
           \<le> uint sys_clk_freq"
proof -
  define c where "c = unat sys_clk_freq"
  define f where "f = unat fs"
  define q where "q = f * 2 ^ 32 div c"
  define r where "r = f * 2 ^ 32 mod c"
  have qr: "f * 2 ^ 32 = q * c + r" by (simp add: q_def r_def)
  have rc: "r < c" using assms by (simp add: r_def c_def word_less_nat_alt)
  have ui: "uint (mcr_base_increment sys_clk_freq fs) = int (if r > c div 2 then q + 1 else q)"
    unfolding uint_nat mcr_base_increment_rounds [OF assms] q_def r_def c_def f_def by (rule refl)
  have c: "uint sys_clk_freq = int c" unfolding c_def by (rule uint_nat)
  have e: "uint fs * 2 ^ 32 = int q * int c + int r"
    using arg_cong [OF qr, of int] unfolding f_def uint_nat
    by (simp only: of_nat_mult of_nat_add of_nat_power of_nat_numeral)
  show ?thesis
    unfolding ui e c using rc by (auto simp: algebra_simps)
qed

theorem mcr_base_increment_nearest_witness:
  "2 * \<bar>uint (mcr_base_increment 50000000 48000) * 50000000 - 48000 * 2 ^ 32\<bar> \<le> 50000000"
  using mcr_base_increment_nearest [of 48000 50000000] by simp

text \<open>
  Lock hysteresis over a whole run of samples: as long as no four consecutive rate
  errors exceed 10 us the servo stays locked, and the next sample unlocks it exactly when
  it is the fourth bad one in a row.
\<close>

theorem mcr_lock_hysteresis:
  assumes "m_bound m \<noteq> 0" and "m_have_prev m \<noteq> 0" and "m_servo_locked m \<noteq> 0" and "m_lock_streak m = 0"
    and "\<forall>k \<le> length offs. trailing_bad (take k (deltas (m_prev_offset_ns m) offs)) < 4"
  shows "m_servo_locked (fst (fold mcr_feed offs (m, h))) = m_servo_locked m
    \<and> (m_servo_locked (fst (fold mcr_feed (offs @ [off]) (m, h))) = 0
         \<longleftrightarrow> trailing_bad (deltas (m_prev_offset_ns m) (offs @ [off])) = 4)"
proof -
  let ?p = "m_prev_offset_ns m"
  obtain m1 h1 where r: "fold mcr_feed offs (m, h) = (m1, h1)" by fastforce
  have I: "m_bound m1 = m_bound m" "m_have_prev m1 = m_have_prev m"
      "m_prev_offset_ns m1 = last (?p # offs)" "m_servo_locked m1 = m_servo_locked m"
      "m_lock_streak m1 = of_nat (trailing_bad (deltas ?p offs))"
    using mcr_lock_held [OF assms, of h] r by (simp_all add: Let_def)
  have t1: "trailing_bad (deltas ?p offs) < 4"
    using assms(5) [rule_format, of "length offs"] by simp
  have "(m_servo_locked (fst (mcr_feed off (m1, h1))), m_lock_streak (fst (mcr_feed off (m1, h1))))
      = mcr_hysteresis (mcr_abs (s64 (off - last (?p # offs)))) (m_servo_locked m) (of_nat (trailing_bad (deltas ?p offs)))"
    using mcr_feed_step [of m1 off h1] assms(1,2) unfolding Let_def I by blast
  then show ?thesis
    using t1 assms(3) unfolding hysteresis_locked [OF assms(3) t1]
    by (auto simp: r I deltas_snoc trailing_bad_snoc split: if_splits)
qed

theorem mcr_lock_hysteresis_witness:
  "m_servo_locked (fst (fold mcr_feed ([0, 20000, 40000] @ [60000])
     (mcr_zero\<lparr>m_bound := 1, m_have_prev := 1, m_servo_locked := 1\<rparr>, hw0))) = 1"
proof -
  let ?m = "mcr_zero\<lparr>m_bound := 1, m_have_prev := 1, m_servo_locked := 1\<rparr>"
  have d: "deltas 0 [0, 20000, 40000] = [0, 20000, 20000]"
    "deltas 0 ([0, 20000, 40000] @ [60000]) = [0, 20000, 20000, 20000]"
    "deltas 0 [0, 20000, 40000, 60000] = [0, 20000, 20000, 20000]"
    by (simp_all add: s64_simps)
  have t: "trailing_bad [0, 20000, 20000, 20000] = 3"
    by (simp add: trailing_bad_def mcr_abs_def MCR_LOCK_EXIT_NS_def)
  have "\<forall>k \<le> 4. trailing_bad (take k [0, 20000, 20000, 20000]) < 4"
    by (auto simp: trailing_bad_def mcr_abs_def MCR_LOCK_EXIT_NS_def le_Suc_eq numeral_eq_Suc)
  then have pre: "\<forall>k \<le> length [0::int, 20000, 40000, 60000]. trailing_bad (take k (deltas 0 [0, 20000, 40000, 60000])) < 4"
    unfolding d by simp
  have "m_prev_offset_ns ?m = 0" by (simp add: mcr_zero_def)
  then show ?thesis
    using mcr_lock_hysteresis [of ?m "[0, 20000, 40000, 60000]" hw0 0] pre
    by (simp add: mcr_zero_def)
qed

text \<open>
  Stale watchdog: after a reception is noticed at \<open>t0\<close>, a run of ticks without
  another leaves the servo alone while none is more than 1000 ms past \<open>t0\<close>; one that is
  puts the oscillator back to the nominal rate, drops the lock and clears the integral,
  and further ticks change nothing.
\<close>

theorem mcr_stale_watchdog:
  assumes "m_bound m \<noteq> 0" and "m_rx_count m \<noteq> m_last_rx_count_snapshot m"
  shows "let (m', h') = fold mcr_watchdog_tick (t0 # ts) (m, h)
    in if \<exists>t \<in> set ts. t - t0 > 1000
       then hw_nco h' = m_base_increment m \<and> m_current_increment m' = m_base_increment m
          \<and> m_servo_locked m' = 0 \<and> m_servo_integral m' = 0 \<and> m_have_prev m' = 0
       else h' = h \<and> m_current_increment m' = m_current_increment m
          \<and> m_servo_locked m' = m_servo_locked m \<and> m_servo_integral m' = m_servo_integral m"
proof -
  let ?m = "m\<lparr>m_last_rx_count_snapshot := m_rx_count m, m_last_rx_check_ms := t0,
      m_watchdog_reset_active := 0\<rparr>"
  have "fold mcr_watchdog_tick (t0 # ts) (m, h) = fold mcr_watchdog_tick ts (?m, h)"
    using assms by (simp add: mcr_watchdog_tick_def)
  also have "\<dots> = (if \<exists>t \<in> set ts. t - t0 > 1000 then mcr_stale (?m, h) else (?m, h))"
    using mcr_ticks_silent [of ?m ts h] assms by (simp add: MCR_STALE_THRESHOLD_MS_def)
  finally show ?thesis by (simp add: mcr_stale_def Let_def)
qed

theorem mcr_stale_watchdog_witness:
  "hw_nco (snd (fold mcr_watchdog_tick (0xFFFFFF00 # [100, 745])
     (mcr_zero\<lparr>m_bound := 1, m_rx_count := 7, m_base_increment := 5, m_current_increment := 9\<rparr>, hw0))) = 5"
  using mcr_stale_watchdog [of "mcr_zero\<lparr>m_bound := 1, m_rx_count := 7, m_base_increment := 5,
      m_current_increment := 9\<rparr>" "0xFFFFFF00" "[100, 745]" hw0]
  by (simp add: mcr_zero_def Let_def case_prod_unfold)

text \<open>
  C34.  Draining the hardware queue takes at most 64 entries, oldest first, runs one servo
  step per entry taken, and leaves the rest queued; so a call always returns.
\<close>

theorem mcr_pump_drains_64:
  assumes "m_bound m \<noteq> 0"
  shows "mcr_pump_hw (m, h) =
     map_prod id (hw_crf_fifo_update (\<lambda>_. drop 64 (hw_crf_fifo h)))
       (fold (\<lambda>e (m, h). mcr_servo_update (mcr_take_sample e m, h)) (take 64 (hw_crf_fifo h)) (m, h))"
proof -
  have "h\<lparr>hw_crf_fifo := hw_crf_fifo h\<rparr> = h" by simp
  then show ?thesis
    using mcr_pump_loop_fold [where n = 64 and m = m and h = h and q = "hw_crf_fifo h"] assms by (simp only: mcr_pump_hw_def) simp
qed

theorem mcr_pump_drains_64_witness:
  "hw_crf_fifo (snd (mcr_pump_hw (mcr_zero\<lparr>m_bound := 1\<rparr>, hw0\<lparr>hw_crf_fifo := replicate 65 (1, 2, 3)\<rparr>)))
     = [(1, 2, 3)]"
  using mcr_pump_drains_64 [of "mcr_zero\<lparr>m_bound := 1\<rparr>" "hw0\<lparr>hw_crf_fifo := replicate 65 (1, 2, 3)\<rparr>"]
  by simp

text \<open>What is noted of a frame of the bound stream with at least one time stamp.\<close>

lemma mcr_rx_sample:
  assumes "m_bound m \<noteq> 0" and "34 \<le> unat len" and "frame 14 = AVTP_SUBTYPE_CRF"
    and "bytes frame 18 8 = m_stream_id m"
    and "n = min (unat (get_be16 frame 30) div 8) ((unat len - 34) div 8)" and "0 < n"
    and "mcr_process_rx frame len (m, h) = (m', h')"
  shows "m_latest_avtp_ts m' = get_be64 frame (34 + 8 * (n - 1))" "34 + 8 * n \<le> unat len"
    "m_latest_local_ts m' = local_ns (seconds (hw_rx_ts h)) (nanoseconds (hw_rx_ts h))"
    "m_latest_offset_ns m' = sint (m_latest_avtp_ts m' - m_latest_local_ts m')"
    "m_servo_consumed m' = 0" "m_rx_count m' = m_rx_count m + 1" "m_bound m' = m_bound m" "m_have_prev m' = m_have_prev m"
    "m_prev_offset_ns m' = m_prev_offset_ns m" "m_servo_step_count m' = m_servo_step_count m" "h' = h"
proof -
  let ?pdu = "\<lambda>i. frame (14 + i)"
  have sh: "get_be16 ?pdu 16 = get_be16 frame 30" "bytes ?pdu 4 8 = bytes frame 18 8"
    "get_be64 ?pdu (20 + 8 * (n - Suc 0)) = get_be64 frame (34 + 8 * (n - 1))"
    by (simp_all add: get_be16_def get_be64_def get_be32_def bytes_def add.assoc [symmetric] del: map_eq_conv)
  have l: "\<not> len < 14 + CRF_HDR_LEN" using assms(2) by (simp add: word_less_nat_alt CRF_HDR_LEN_def)
  have c: "unat (mcr_ts_count len (get_be16 ?pdu 16)) = n"
    using assms(5) by (simp add: mcr_ts_count_min sh)
  then have nz: "mcr_ts_count len (get_be16 ?pdu 16) \<noteq> 0" using assms(6) by auto
  show "34 + 8 * n \<le> unat len" using assms(2,5) by auto
  have m': "m' = fst (mcr_process_rx frame len (m, h))" "h' = snd (mcr_process_rx frame len (m, h))" by (simp_all add: assms(7))
  show "m_latest_avtp_ts m' = get_be64 frame (34 + 8 * (n - 1))"
    "m_latest_local_ts m' = local_ns (seconds (hw_rx_ts h)) (nanoseconds (hw_rx_ts h))"
    "m_latest_offset_ns m' = sint (m_latest_avtp_ts m' - m_latest_local_ts m')"
    "m_servo_consumed m' = 0" "m_rx_count m' = m_rx_count m + 1" "m_bound m' = m_bound m" "m_have_prev m' = m_have_prev m"
    "m_prev_offset_ns m' = m_prev_offset_ns m" "m_servo_step_count m' = m_servo_step_count m" "h' = h"
    using assms(1,3,4) l nz unfolding m' by (simp_all add: mcr_process_rx_def gptp_read_rx_timestamp_def Let_def sh c [unfolded sh])
qed

text \<open>
  A frame of the bound stream with room for at least one time stamp feeds the servo
  the last time stamp that both its length field and the frame itself hold.
\<close>

theorem mcr_rx_last_timestamp:
  assumes "m_bound m \<noteq> 0" and "34 \<le> unat len" and "frame 14 = AVTP_SUBTYPE_CRF"
    and "bytes frame 18 8 = m_stream_id m"
    and "n = min (unat (get_be16 frame 30) div 8) ((unat len - 34) div 8)" and "0 < n"
    and "mcr_process_rx frame len (m, h) = (m', h')"
  shows "m_latest_avtp_ts m' = get_be64 frame (34 + 8 * (n - 1))
    \<and> 34 + 8 * n \<le> unat len
    \<and> m_latest_offset_ns m' = sint (m_latest_avtp_ts m' - m_latest_local_ts m')
    \<and> m_servo_consumed m' = 0 \<and> m_rx_count m' = m_rx_count m + 1"
  using mcr_rx_sample [OF assms] by simp

definition demo_crf_frame :: mem where
  "demo_crf_frame i = (if i = 14 then 4 else if 18 \<le> i \<and> i < 26 then 1 else if i = 31 then 24
     else if i = 49 then 2 else 0)"

theorem mcr_rx_last_timestamp_witness:
  "m_latest_avtp_ts (fst (mcr_process_rx demo_crf_frame 50
     (mcr_zero\<lparr>m_bound := 1, m_stream_id := replicate 8 1\<rparr>, hw0))) = 2"
proof -
  let ?f = demo_crf_frame and ?m = "mcr_zero\<lparr>m_bound := 1, m_stream_id := replicate 8 1\<rparr>"
  have "bytes ?f 18 8 = replicate 8 1"
    by (rule nth_equalityI) (simp_all add: demo_crf_frame_def)
  then have "bytes ?f 18 8 = m_stream_id ?m" by simp
  moreover have "?f 14 = AVTP_SUBTYPE_CRF" and l: "get_be16 ?f 30 = 24" and t: "get_be64 ?f 42 = 2"
    by (simp_all add: demo_crf_frame_def AVTP_SUBTYPE_CRF_def get_be16_def get_be64_def get_be32_def)
  moreover have n: "min (unat (get_be16 ?f 30) div 8) ((unat (50 :: u32) - 34) div 8) = 2"
    by (simp add: l)
  ultimately have "m_latest_avtp_ts (fst (mcr_process_rx ?f 50 (?m, hw0))) = get_be64 ?f (34 + 8 * (2 - 1))"
    using mcr_rx_last_timestamp [OF _ _ _ _ n [symmetric] _ prod.collapse [symmetric], of ?m hw0] by simp
  then show ?thesis by (simp add: t)
qed

text \<open>
  Memory safety of CRF reception: the outcome does not depend on any byte of the
  receive slot past the frame's length, whatever data length the PDU claims.
\<close>

theorem mcr_rx_within_frame:
  assumes "\<And>i. i < unat len \<Longrightarrow> frame1 i = frame2 i"
  shows "mcr_process_rx frame1 len s = mcr_process_rx frame2 len s"
  using assms by (rule mcr_process_rx_agree)

theorem mcr_rx_within_frame_witness:
  "mcr_process_rx (\<lambda>_. 4) 60 (mcr_zero\<lparr>m_bound := 1, m_stream_id := replicate 8 4\<rparr>, hw0)
     = mcr_process_rx (\<lambda>i. if i < 60 then 4 else 9) 60 (mcr_zero\<lparr>m_bound := 1, m_stream_id := replicate 8 4\<rparr>, hw0)"
  by (rule mcr_rx_within_frame) simp

text \<open>
  Rebinding does not preserve the accumulated tuning: \<open>mcr_bind\<close> keeps the increment
  but clears the integral, so the first servo step of the new binding puts the oscillator
  of an undisturbed stream (equal offsets) back to the nominal rate, whatever it was
  tuned to.
\<close>

theorem mcr_rebind_loses_tuning:
  assumes "0 < m_base_increment m"
  shows "hw_nco (snd (fold mcr_feed [off, off] (mcr_bind sid (m, h)))) = m_base_increment m"
proof -
  have pi: "mcr_pi base 0 0 = (0, base)" if "0 < base" for base
    using that uint_lt2p [of base]
    by (simp add: mcr_pi_def Let_def s64_simps clamp_sym_def MCR_INTEGRAL_CLAMP_def
        MCR_INCREMENT_MAX_DELTA_def word_less_def)
  show ?thesis
    by (simp add: mcr_bind_def mcr_feed_def mcr_servo_update_def Let_def case_prod_unfold
        s64_simps pi [OF assms])
qed

theorem mcr_rebind_loses_tuning_witness:
  "hw_nco (snd (fold mcr_feed [7, 7] (mcr_bind (replicate 8 1)
     (mcr_zero\<lparr>m_base_increment := 4123169, m_current_increment := 4123200, m_servo_integral := -992\<rparr>,
      hw0\<lparr>hw_nco := 4123200\<rparr>)))) = 4123169"
  using mcr_rebind_loses_tuning [of "mcr_zero\<lparr>m_base_increment := 4123169, m_current_increment := 4123200,
      m_servo_integral := -992\<rparr>"] by simp

end
