(* ===== verification/Gptp.thy ===== *)
theory Gptp
  imports Hw "HOL-Library.Multiset"
begin

text \<open>
  The clock synchronisation protocol (firmware/gptp.c, gptp.h): a slave-only IEEE 802.1AS
  node with peer delay measurement.

  \<open>gptp_t\<close> is the C structure field by field (prefix \<open>g_\<close>, source order); \<open>int64_t\<close> and
  \<open>int32_t\<close> fields are integers, every C operation on them reduced with \<open>s64\<close> (or
  \<open>s32\<close>) and every C division truncating (\<open>sdiv\<close>).  A received frame is the slot memory
  and its length; \<open>ptp\<close> is that memory from the end of the Ethernet header.  Counters that
  only gate a \<open>printf\<close> (\<open>dump_count\<close>, \<open>dbg_count\<close>, \<open>big_step_log\<close>) are left out.

  \<open>process_sync\<close> to \<open>process_pdelay_resp_fup\<close> are the handlers of \<open>gptp_process_rx\<close>,
  \<open>gptp_servo_update\<close> the PI servo on the TSU's 52-bit addend, \<open>gptp_poll\<close> the periodic
  work.
\<close>

section \<open>Constants and state\<close>

definition PTP_ETHERTYPE :: u16 where "PTP_ETHERTYPE = 0x88F7"
definition GPTP_MCAST_ADDR :: "u8 list" where "GPTP_MCAST_ADDR = [0x01, 0x80, 0xC2, 0x00, 0x00, 0x0E]"
definition PTP_MSG_SYNC :: u8 where "PTP_MSG_SYNC = 0x0"
definition PTP_MSG_PDELAY_REQ :: u8 where "PTP_MSG_PDELAY_REQ = 0x2"
definition PTP_MSG_PDELAY_RESP :: u8 where "PTP_MSG_PDELAY_RESP = 0x3"
definition PTP_MSG_FOLLOW_UP :: u8 where "PTP_MSG_FOLLOW_UP = 0x8"
definition PTP_MSG_PDELAY_RESP_FUP :: u8 where "PTP_MSG_PDELAY_RESP_FUP = 0xA"
definition PTP_MSG_ANNOUNCE :: u8 where "PTP_MSG_ANNOUNCE = 0xB"
definition PTP_FLAG_TWO_STEP :: u16 where "PTP_FLAG_TWO_STEP = 0x0200"
definition PTP_FLAG_PTP_TIMESCALE :: u16 where "PTP_FLAG_PTP_TIMESCALE = 0x0008"
definition GPTP_DOMAIN :: u8 where "GPTP_DOMAIN = 0"
definition SERVO_KP_NUM :: int where "SERVO_KP_NUM = 72"
definition SERVO_KP_DEN :: int where "SERVO_KP_DEN = 1000"
definition SERVO_KI_NUM :: int where "SERVO_KI_NUM = 3600"
definition SERVO_KI_DEN :: int where "SERVO_KI_DEN = 1000000"
definition SERVO_INTEGRAL_CLAMP_NS :: int where "SERVO_INTEGRAL_CLAMP_NS = 100000000"

text \<open>\<open>CONFIG_CLOCK_FREQUENCY\<close> of the generated headers: \<open>sys_clk_freq\<close> of avb_soc.py.\<close>

definition CONFIG_CLOCK_FREQUENCY :: u32 where "CONFIG_CLOCK_FREQUENCY = 50000000"

datatype gptp_state_t = GPTP_STATE_INIT | GPTP_STATE_LISTENING | GPTP_STATE_SLAVE

record gptp_t =
  g_state :: gptp_state_t
  g_our_mac :: "u8 list"
  g_clock_id :: "u8 list"
  g_port_number :: u16
  g_master_clock_id :: "u8 list"
  g_master_port_number :: u16
  g_gm_clock_id :: "u8 list"
  g_gm_priority1 :: u8
  g_gm_clock_class :: u8
  g_gm_clock_accuracy :: u8
  g_gm_offset_scaled_log_variance :: u16
  g_gm_priority2 :: u8
  g_gm_valid :: u8
  g_pdelay_seq_id :: u16
  g_pdelay_t1 :: ptp_timestamp
  g_pdelay_t2 :: ptp_timestamp
  g_pdelay_t3 :: ptp_timestamp
  g_pdelay_t4 :: ptp_timestamp
  g_mean_path_delay_ns :: int
  g_pdelay_lost_count :: int
  g_pdelay_resp_received :: u8
  g_pdelay_fup_received :: u8
  g_sync_seq_id :: u16
  g_sync_rx_ts :: ptp_timestamp
  g_sync_origin_ts :: ptp_timestamp
  g_sync_correction :: int
  g_sync_received :: u8
  g_offset_from_master_ns :: int
  g_freq_integral :: int
  g_base_addend_full :: u64
  g_current_addend_full :: u64
  g_servo_locked :: u8
  g_servo_step_count :: u32
  g_off_sum_ns_win :: int
  g_off_abs_sum_ns_win :: int
  g_off_count_win :: u32
  g_off_win_start_ms :: u32
  g_off_avg_ns_last :: int
  g_off_abs_avg_ns_last :: int
  g_off_avg_count_last :: u32
  g_prev_t3_ns :: int
  g_prev_t4_ns :: int
  g_nrr_ppb :: int
  g_pdelay_pair_count :: u32
  g_pdelay_outlier_count :: u32
  g_off_median_buf :: "int list"
  g_off_median_idx :: u8
  g_off_median_filled :: u8
  g_last_pdelay_time_ms :: u32
  g_last_sync_time_ms :: u32
  g_lock_sample_count :: u8
  g_pdelay_interval_ms :: u32
  g_sync_count :: u32
  g_pdelay_count :: u32
  g_pdelay_timeout_count :: u32
  g_rx_sync_count :: u32
  g_rx_followup_count :: u32
  g_rx_pdelay_req_count :: u32
  g_rx_pdelay_resp_count :: u32
  g_rx_pdelay_resp_fup_count :: u32
  g_rx_announce_count :: u32
  g_rx_other_count :: u32
  g_rx_wrong_domain_count :: u32
  g_rx_last_msg_type :: u8
  g_rx_last_domain :: u8

definition ptp0 :: ptp_timestamp where
  "ptp0 = \<lparr>seconds = 0, nanoseconds = 0\<rparr>"

definition gptp_zero :: gptp_t where
  "gptp_zero = \<lparr>g_state = GPTP_STATE_INIT, g_our_mac = zeros 6, g_clock_id = zeros 8,
     g_port_number = 0, g_master_clock_id = zeros 8, g_master_port_number = 0,
     g_gm_clock_id = zeros 8, g_gm_priority1 = 0, g_gm_clock_class = 0,
     g_gm_clock_accuracy = 0, g_gm_offset_scaled_log_variance = 0, g_gm_priority2 = 0,
     g_gm_valid = 0, g_pdelay_seq_id = 0, g_pdelay_t1 = ptp0, g_pdelay_t2 = ptp0,
     g_pdelay_t3 = ptp0, g_pdelay_t4 = ptp0, g_mean_path_delay_ns = 0,
     g_pdelay_lost_count = 0, g_pdelay_resp_received = 0, g_pdelay_fup_received = 0,
     g_sync_seq_id = 0, g_sync_rx_ts = ptp0, g_sync_origin_ts = ptp0,
     g_sync_correction = 0, g_sync_received = 0, g_offset_from_master_ns = 0,
     g_freq_integral = 0, g_base_addend_full = 0, g_current_addend_full = 0,
     g_servo_locked = 0, g_servo_step_count = 0, g_off_sum_ns_win = 0,
     g_off_abs_sum_ns_win = 0, g_off_count_win = 0, g_off_win_start_ms = 0,
     g_off_avg_ns_last = 0, g_off_abs_avg_ns_last = 0, g_off_avg_count_last = 0,
     g_prev_t3_ns = 0, g_prev_t4_ns = 0, g_nrr_ppb = 0, g_pdelay_pair_count = 0,
     g_pdelay_outlier_count = 0, g_off_median_buf = replicate 5 0, g_off_median_idx = 0,
     g_off_median_filled = 0, g_last_pdelay_time_ms = 0, g_last_sync_time_ms = 0,
     g_lock_sample_count = 0, g_pdelay_interval_ms = 0, g_sync_count = 0,
     g_pdelay_count = 0, g_pdelay_timeout_count = 0, g_rx_sync_count = 0,
     g_rx_followup_count = 0, g_rx_pdelay_req_count = 0, g_rx_pdelay_resp_count = 0,
     g_rx_pdelay_resp_fup_count = 0, g_rx_announce_count = 0, g_rx_other_count = 0,
     g_rx_wrong_domain_count = 0, g_rx_last_msg_type = 0, g_rx_last_domain = 0\<rparr>"

section \<open>Time stamps and the TSU\<close>

definition get_ptp_ts :: "mem \<Rightarrow> nat \<Rightarrow> ptp_timestamp" where
  "get_ptp_ts p o' = \<lparr>seconds = get_be48 p o', nanoseconds = get_be32 p (o' + 6)\<rparr>"

definition put_ptp_ts :: "ptp_timestamp \<Rightarrow> u8 list" where
  "put_ptp_ts ts = put_be48 (seconds ts) @ put_be32 (nanoseconds ts)"

definition gptp_set_addend_full :: "u64 \<Rightarrow> hw \<Rightarrow> hw" where
  "gptp_set_addend_full addend_full h =
     h\<lparr>hw_addend := ucast (drop_bit 20 addend_full), hw_addend_frac := ucast (addend_full AND 0xFFFFF)\<rparr>"

definition gptp_step_time :: "ptp_timestamp \<Rightarrow> hw \<Rightarrow> hw" where
  "gptp_step_time t h = h\<lparr>hw_steps := hw_steps h @ [t]\<rparr>"

definition gptp_adjust_offset :: "int \<Rightarrow> hw \<Rightarrow> hw" where
  "gptp_adjust_offset offset_ns h =
     h\<lparr>hw_offsets := hw_offsets h @ [(word_of_int (offset_ns AND 0xFFFFFFFF),
                                       word_of_int (drop_bit 32 offset_ns AND 0x1FFFF))]\<rparr>"

definition gptp_ts_diff_ns :: "ptp_timestamp \<Rightarrow> ptp_timestamp \<Rightarrow> int" where
  "gptp_ts_diff_ns a b =
     (let sec_diff = s64 (sint (seconds a) - sint (seconds b));
          ns_diff = s64 (uint (nanoseconds a) - uint (nanoseconds b))
      in s64 (s64 (sec_diff * 1000000000) + ns_diff))"

section \<open>Building frames\<close>

definition build_eth_header :: "u8 list \<Rightarrow> u8 list" where
  "build_eth_header src_mac = GPTP_MCAST_ADDR @ src_mac @ put_be16 PTP_ETHERTYPE"

text \<open>
  The 34 header bytes in order: the zeros are the bytes that only the initial \<open>memset\<close>
  writes (minorSdoId, correctionField and reserved).
\<close>

definition build_ptp_header :: "u8 \<Rightarrow> u16 \<Rightarrow> u8 list \<Rightarrow> u16 \<Rightarrow> u16 \<Rightarrow> u8 \<Rightarrow> u8 list" where
  "build_ptp_header msg_type msg_len clock_id port_num seq_id log_interval =
     (let flags = (if msg_type = PTP_MSG_PDELAY_RESP
                   then PTP_FLAG_PTP_TIMESCALE OR PTP_FLAG_TWO_STEP else PTP_FLAG_PTP_TIMESCALE);
          control = (if msg_type = PTP_MSG_SYNC then 0x00
                     else if msg_type = PTP_MSG_FOLLOW_UP then 0x02 else 0x05)
      in [0x10 OR (msg_type AND 0x0F), 0x02] @ put_be16 msg_len @ [GPTP_DOMAIN, 0]
         @ put_be16 flags @ zeros 12 @ clock_id @ put_be16 port_num @ put_be16 seq_id
         @ [control, log_interval])"

definition gptp_frame :: "gptp_t \<Rightarrow> u8 \<Rightarrow> u16 \<Rightarrow> u8 list \<Rightarrow> (nat \<times> u8 list) list" where
  "gptp_frame g msg_type seq body =
     [(0, build_eth_header (g_our_mac g)),
      (14, build_ptp_header msg_type (34 + 20) (g_clock_id g) (g_port_number g) seq 0),
      (48, body)]"

definition gptp_send_pdelay_req :: "gptp_t \<times> hw \<Rightarrow> gptp_t \<times> hw" where
  "gptp_send_pdelay_req = (\<lambda>(g, h).
     let frame = mputs (tx_buf TxGptp h) (gptp_frame g PTP_MSG_PDELAY_REQ (g_pdelay_seq_id g) (zeros 20));
         h1 = send_frame TxGptp frame (14 + 54) h;
         t1 = gptp_read_tx_timestamp h1;
         (now, h2) = gptp_uptime_ms h1
     in (g\<lparr>g_pdelay_resp_received := 0, g_pdelay_fup_received := 0, g_pdelay_t1 := t1,
           g_last_pdelay_time_ms := now, g_pdelay_count := g_pdelay_count g + 1\<rparr>, h2))"

definition gptp_send_pdelay_resp :: "gptp_t \<Rightarrow> mem \<Rightarrow> ptp_timestamp \<Rightarrow> hw \<Rightarrow> hw" where
  "gptp_send_pdelay_resp g req_ptp rx_ts h =
     send_frame TxGptp (mputs (tx_buf TxGptp h)
       (gptp_frame g PTP_MSG_PDELAY_RESP (get_be16 req_ptp 30) (put_ptp_ts rx_ts @ bytes req_ptp 20 10)))
       (14 + 54) h"

definition gptp_send_pdelay_resp_fup :: "gptp_t \<Rightarrow> mem \<Rightarrow> ptp_timestamp \<Rightarrow> hw \<Rightarrow> hw" where
  "gptp_send_pdelay_resp_fup g req_ptp resp_tx_ts h =
     send_frame TxGptp (mputs (tx_buf TxGptp h)
       (gptp_frame g PTP_MSG_PDELAY_RESP_FUP (get_be16 req_ptp 30)
         (put_ptp_ts resp_tx_ts @ bytes req_ptp 20 10)))
       (14 + 54) h"

section \<open>The servo\<close>

definition servo_step_target :: "gptp_t \<Rightarrow> ptp_timestamp" where
  "servo_step_target g =
     (let tgt = g_sync_origin_ts g;
          add_ns = ucast (nanoseconds tgt) + word_of_int (g_mean_path_delay_ns g) :: u64
      in if add_ns \<ge> 1000000000
         then tgt\<lparr>seconds := seconds tgt + add_ns div 1000000000,
                  nanoseconds := ucast (add_ns mod 1000000000)\<rparr>
         else tgt\<lparr>nanoseconds := ucast add_ns\<rparr>)"

definition servo_coarse_step :: "gptp_t \<times> hw \<Rightarrow> gptp_t \<times> hw" where
  "servo_coarse_step = (\<lambda>(g, h).
     let h1 = gptp_set_addend_full (g_base_addend_full g) (gptp_step_time (servo_step_target g) h);
         (now, h2) = gptp_uptime_ms h1
     in (g\<lparr>g_servo_step_count := 1, g_freq_integral := 0,
           g_current_addend_full := g_base_addend_full g,
           g_last_sync_time_ms := now, g_last_pdelay_time_ms := now\<rparr>, h2))"

definition abs64 :: "int \<Rightarrow> int" where
  "abs64 x = (if x < 0 then s64 (- x) else x)"

definition servo_pi :: "u64 \<Rightarrow> int \<Rightarrow> int \<Rightarrow> int \<times> u64" where
  "servo_pi base integral offset =
     (let integral' = clamp_sym SERVO_INTEGRAL_CLAMP_NS (s64 (integral + offset));
          (kp_num, kp_den) = (if abs64 offset > 1000 then (200, 1000) else (SERVO_KP_NUM, SERVO_KP_DEN));
          kp_term = s64 (offset * kp_num) sdiv kp_den;
          ki_term = s64 (integral' * SERVO_KI_NUM) sdiv SERVO_KI_DEN;
          addend_delta = s64 (- s64 (kp_term + ki_term));
          addend_new = s64 (sint base + addend_delta);
          a1 = (if addend_new < 1 then 1 else addend_new);
          a2 = (if a1 \<ge> 2 ^ 52 then 2 ^ 52 - 1 else a1)
      in (integral', word_of_int a2))"

definition servo_lock :: "int \<Rightarrow> u8 \<Rightarrow> u8 \<Rightarrow> u8 \<times> u8" where
  "servo_lock abs_off locked cnt =
     (if locked = 0 then
        if abs_off < 500 then (if cnt < 8 then (locked, cnt + 1) else (1, cnt)) else (locked, 0)
      else if abs_off > 2000 then (0, 0) else (locked, cnt))"

definition servo_window :: "u32 \<Rightarrow> int \<Rightarrow> gptp_t \<Rightarrow> gptp_t" where
  "servo_window now_ms offset g =
     (let g1 = (if g_off_win_start_ms g = 0 then g\<lparr>g_off_win_start_ms := now_ms\<rparr> else g);
          g2 = g1\<lparr>g_off_sum_ns_win := s64 (g_off_sum_ns_win g1 + offset),
                  g_off_abs_sum_ns_win := s64 (g_off_abs_sum_ns_win g1 + abs64 offset),
                  g_off_count_win := g_off_count_win g1 + 1\<rparr>
      in if now_ms - g_off_win_start_ms g2 \<ge> 30000 then
           let g3 = (if g_off_count_win g2 > 0
                     then g2\<lparr>g_off_avg_ns_last := g_off_sum_ns_win g2 sdiv uint (g_off_count_win g2),
                             g_off_abs_avg_ns_last := g_off_abs_sum_ns_win g2 sdiv uint (g_off_count_win g2),
                             g_off_avg_count_last := g_off_count_win g2\<rparr>
                     else g2)
           in g3\<lparr>g_off_sum_ns_win := 0, g_off_abs_sum_ns_win := 0, g_off_count_win := 0,
                 g_off_win_start_ms := now_ms\<rparr>
         else g2)"

definition gptp_servo_update :: "gptp_t \<times> hw \<Rightarrow> gptp_t \<times> hw" where
  "gptp_servo_update = (\<lambda>(g, h).
     let offset = g_offset_from_master_ns g; big_thresh = 500000000
     in if g_servo_step_count g = 0 \<or> offset > big_thresh \<or> offset < - big_thresh
        then servo_coarse_step (g, h)
        else
          let (integral, addend) = servo_pi (g_base_addend_full g) (g_freq_integral g) offset;
              (locked, cnt) = servo_lock (abs64 offset) (g_servo_locked g) (g_lock_sample_count g);
              h1 = gptp_set_addend_full addend h;
              (now_ms, h2) = gptp_uptime_ms h1
          in (servo_window now_ms offset
                (g\<lparr>g_freq_integral := integral, g_current_addend_full := addend,
                   g_servo_step_count := g_servo_step_count g + 1,
                   g_servo_locked := locked, g_lock_sample_count := cnt\<rparr>), h2))"

section \<open>The median filter\<close>

text \<open>
  The insertion sort of \<open>process_follow_up\<close>, in place: \<open>sift\<close> is its inner loop (move the
  elements above \<open>v\<close> one place up, drop \<open>v\<close> into the gap).
\<close>

fun sift :: "int \<Rightarrow> nat \<Rightarrow> int list \<Rightarrow> int list" where
  "sift v 0 xs = xs[0 := v]"
| "sift v (Suc j) xs = (if xs ! j > v then sift v j (xs[Suc j := xs ! j]) else xs[Suc j := v])"

definition insertion_sort :: "int list \<Rightarrow> int list" where
  "insertion_sort xs = fold (\<lambda>i ys. sift (ys ! i) i ys) [1..<length xs] xs"

definition median_push :: "int \<Rightarrow> gptp_t \<Rightarrow> gptp_t" where
  "median_push raw g =
     (let buf = (g_off_median_buf g)[unat (g_off_median_idx g) := raw];
          filled = (if g_off_median_filled g < 5 then g_off_median_filled g + 1 else g_off_median_filled g);
          sorted = insertion_sort (take (unat filled) buf)
      in g\<lparr>g_off_median_buf := buf, g_off_median_idx := (g_off_median_idx g + 1) mod 5,
           g_off_median_filled := filled,
           g_offset_from_master_ns := sorted ! (unat filled div 2)\<rparr>)"

section \<open>Handlers\<close>

definition process_sync :: "mem \<Rightarrow> gptp_t \<times> hw \<Rightarrow> gptp_t \<times> hw" where
  "process_sync ptp = (\<lambda>(g, h).
     let (now, h1) = gptp_uptime_ms h
     in (g\<lparr>g_sync_seq_id := get_be16 ptp 30, g_sync_correction := get_be64_signed ptp 8,
           g_sync_rx_ts := gptp_read_rx_timestamp h, g_sync_received := 1,
           g_master_clock_id := bytes ptp 20 8, g_master_port_number := get_be16 ptp 28,
           g_last_sync_time_ms := now,
           g_state := (if g_state g = GPTP_STATE_LISTENING then GPTP_STATE_SLAVE else g_state g)\<rparr>, h1))"

definition follow_up_offset :: "mem \<Rightarrow> gptp_t \<Rightarrow> int" where
  "follow_up_offset ptp g =
     (let rx_ns = gptp_ts_diff_ns (g_sync_rx_ts g) ptp0;
          orig_ns = gptp_ts_diff_ns (get_ptp_ts ptp 34) ptp0;
          corr_ns = drop_bit 16 (get_be64_signed ptp 8)
      in s64 (s64 (s64 (rx_ns - orig_ns) - corr_ns) - g_mean_path_delay_ns g))"

definition process_follow_up :: "mem \<Rightarrow> gptp_t \<times> hw \<Rightarrow> gptp_t \<times> hw" where
  "process_follow_up ptp = (\<lambda>(g, h).
     if g_sync_received g = 0 \<or> get_be16 ptp 30 \<noteq> g_sync_seq_id g then (g, h)
     else
       let raw_offset = follow_up_offset ptp g;
           g1 = median_push raw_offset (g\<lparr>g_sync_origin_ts := get_ptp_ts ptp 34\<rparr>)
       in gptp_servo_update (g1\<lparr>g_sync_received := 0, g_sync_count := g_sync_count g1 + 1\<rparr>, h))"

definition process_pdelay_req :: "mem \<Rightarrow> gptp_t \<times> hw \<Rightarrow> gptp_t \<times> hw" where
  "process_pdelay_req ptp = (\<lambda>(g, h).
     let rx_ts = gptp_read_rx_timestamp h;
         h1 = gptp_send_pdelay_resp g ptp rx_ts h;
         resp_tx_ts = gptp_read_tx_timestamp h1
     in (g, gptp_send_pdelay_resp_fup g ptp resp_tx_ts h1))"

definition process_pdelay_resp :: "mem \<Rightarrow> gptp_t \<times> hw \<Rightarrow> gptp_t \<times> hw" where
  "process_pdelay_resp ptp = (\<lambda>(g, h).
     if get_be16 ptp 30 \<noteq> g_pdelay_seq_id g then (g, h)
     else if bytes ptp (34 + 10) 8 \<noteq> g_clock_id g then (g, h)
     else (g\<lparr>g_pdelay_t4 := gptp_read_rx_timestamp h, g_pdelay_t2 := get_ptp_ts ptp 34,
             g_pdelay_resp_received := 1\<rparr>, h))"

text \<open>The neighbour rate ratio (\<open>int32_t nrr_ppb\<close>) after one more exchange.\<close>

definition nrr_update :: "u32 \<Rightarrow> int \<Rightarrow> int \<Rightarrow> int \<Rightarrow> int" where
  "nrr_update pair_count nrr dt3 dt4 =
     (if pair_count > 0 \<and> dt4 > 100000 then
        let nrr_num = s64 (s64 (dt3 - dt4) * 1000000000);
            nrr_inst = s32 (nrr_num sdiv dt4)
        in if nrr_inst > -10000 \<and> nrr_inst < 10000 then s32 (s32 (s32 (nrr * 7) + nrr_inst)) sdiv 8
           else nrr
      else nrr)"

definition pdelay_delay :: "int \<Rightarrow> int \<Rightarrow> int \<Rightarrow> int" where
  "pdelay_delay nrr round_trip responder =
     (let rt_corrected = s64 (round_trip + s64 (round_trip * nrr) sdiv 1000000000)
      in s64 (rt_corrected - responder) sdiv 2)"

definition process_pdelay_resp_fup :: "mem \<Rightarrow> gptp_t \<times> hw \<Rightarrow> gptp_t \<times> hw" where
  "process_pdelay_resp_fup ptp = (\<lambda>(g, h).
     if get_be16 ptp 30 \<noteq> g_pdelay_seq_id g then (g, h)
     else if g_pdelay_resp_received g = 0 then (g, h)
     else
       let t3 = get_ptp_ts ptp 34;
           t1_ns = gptp_ts_diff_ns (g_pdelay_t1 g) ptp0;
           t2_ns = gptp_ts_diff_ns (g_pdelay_t2 g) ptp0;
           t3_ns = gptp_ts_diff_ns t3 ptp0;
           t4_ns = gptp_ts_diff_ns (g_pdelay_t4 g) ptp0;
           nrr = nrr_update (g_pdelay_pair_count g) (g_nrr_ppb g)
                   (s64 (t3_ns - g_prev_t3_ns g)) (s64 (t4_ns - g_prev_t4_ns g));
           delay = pdelay_delay nrr (s64 (t4_ns - t1_ns)) (s64 (t3_ns - t2_ns));
           g1 = g\<lparr>g_pdelay_t3 := t3, g_pdelay_fup_received := 1, g_nrr_ppb := nrr,
                  g_prev_t3_ns := t3_ns, g_prev_t4_ns := t4_ns,
                  g_pdelay_pair_count := g_pdelay_pair_count g + 1\<rparr>;
           g2 = (if delay \<ge> 0 \<and> delay < 20000
                 then g1\<lparr>g_mean_path_delay_ns :=
                           (if g_mean_path_delay_ns g1 = 0 then delay
                            else s64 (s64 (g_mean_path_delay_ns g1 * 7) + delay) sdiv 8)\<rparr>
                 else g1\<lparr>g_pdelay_outlier_count := g_pdelay_outlier_count g1 + 1\<rparr>)
       in (g2\<lparr>g_pdelay_lost_count := 0, g_pdelay_seq_id := g_pdelay_seq_id g2 + 1\<rparr>, h))"

definition process_announce :: "mem \<Rightarrow> u32 \<Rightarrow> gptp_t \<Rightarrow> gptp_t" where
  "process_announce ptp ptp_len g =
     (if ptp_len \<ge> 34 + 30 then
        g\<lparr>g_gm_priority1 := ptp (34 + 13), g_gm_clock_class := ptp (34 + 14),
          g_gm_clock_accuracy := ptp (34 + 15),
          g_gm_offset_scaled_log_variance := get_be16 ptp (34 + 16),
          g_gm_priority2 := ptp (34 + 18), g_gm_clock_id := bytes ptp (34 + 19) 8,
          g_gm_valid := 1\<rparr>
      else g)"

definition gptp_process_rx :: "mem \<Rightarrow> u32 \<Rightarrow> gptp_t \<times> hw \<Rightarrow> gptp_t \<times> hw" where
  "gptp_process_rx frame len = (\<lambda>(g, h).
     if len < 14 + 34 then (g, h)
     else if get_be16 frame 12 \<noteq> PTP_ETHERTYPE then (g, h)
     else
       let ptp = (\<lambda>i. frame (14 + i)); ptp_len = len - 14
       in if drop_bit 4 (ptp 0) \<noteq> 0x1 then (g\<lparr>g_rx_other_count := g_rx_other_count g + 1\<rparr>, h)
          else
            let msg_type = ptp 0 AND 0x0F; domain = ptp 4;
                g1 = g\<lparr>g_rx_last_msg_type := msg_type, g_rx_last_domain := domain\<rparr>
            in if domain \<noteq> GPTP_DOMAIN
               then (g1\<lparr>g_rx_wrong_domain_count := g_rx_wrong_domain_count g1 + 1\<rparr>, h)
               else if msg_type = PTP_MSG_SYNC
               then process_sync ptp (g1\<lparr>g_rx_sync_count := g_rx_sync_count g1 + 1\<rparr>, h)
               else if msg_type = PTP_MSG_FOLLOW_UP
               then process_follow_up ptp (g1\<lparr>g_rx_followup_count := g_rx_followup_count g1 + 1\<rparr>, h)
               else if msg_type = PTP_MSG_PDELAY_REQ
               then process_pdelay_req ptp (g1\<lparr>g_rx_pdelay_req_count := g_rx_pdelay_req_count g1 + 1\<rparr>, h)
               else if msg_type = PTP_MSG_PDELAY_RESP
               then process_pdelay_resp ptp (g1\<lparr>g_rx_pdelay_resp_count := g_rx_pdelay_resp_count g1 + 1\<rparr>, h)
               else if msg_type = PTP_MSG_PDELAY_RESP_FUP
               then process_pdelay_resp_fup ptp
                      (g1\<lparr>g_rx_pdelay_resp_fup_count := g_rx_pdelay_resp_fup_count g1 + 1\<rparr>, h)
               else if msg_type = PTP_MSG_ANNOUNCE
               then (process_announce ptp ptp_len (g1\<lparr>g_rx_announce_count := g_rx_announce_count g1 + 1\<rparr>), h)
               else (g1\<lparr>g_rx_other_count := g_rx_other_count g1 + 1\<rparr>, h))"

section \<open>Initialisation and periodic work\<close>

definition gptp_base_addend :: u64 where
  "gptp_base_addend =
     (let clk = ucast CONFIG_CLOCK_FREQUENCY :: u64
      in 2 ^ 52 div clk + (if 2 ^ 52 mod clk > ucast (CONFIG_CLOCK_FREQUENCY div 2) then 1 else 0))"

definition gptp_init :: "u8 list \<Rightarrow> hw \<Rightarrow> gptp_t \<times> hw" where
  "gptp_init mac_addr h =
     (gptp_zero\<lparr>g_our_mac := mac_addr,
        g_clock_id := take 3 mac_addr @ [0xFF, 0xFE] @ drop 3 mac_addr,
        g_port_number := 1, g_state := GPTP_STATE_LISTENING,
        g_base_addend_full := gptp_base_addend, g_current_addend_full := gptp_base_addend,
        g_pdelay_interval_ms := 1000\<rparr>,
      gptp_set_addend_full gptp_base_addend (h\<lparr>hw_txslot := (hw_txslot h)(TxGptp := 0)\<rparr>))"

definition gptp_poll :: "gptp_t \<times> hw \<Rightarrow> gptp_t \<times> hw" where
  "gptp_poll = (\<lambda>(g, h).
     let (now, h1) = gptp_uptime_ms h;
         (g1, h2) =
           (if now - g_last_pdelay_time_ms g \<ge> g_pdelay_interval_ms g then
              gptp_send_pdelay_req
                (if g_pdelay_count g > 0 \<and> g_pdelay_fup_received g = 0
                 then g\<lparr>g_pdelay_lost_count := s32 (g_pdelay_lost_count g + 1),
                        g_pdelay_timeout_count := g_pdelay_timeout_count g + 1\<rparr>
                 else g, h1)
            else (g, h1))
     in if g_state g1 = GPTP_STATE_SLAVE \<and> now - g_last_sync_time_ms g1 > 3000
        then (g1\<lparr>g_state := GPTP_STATE_LISTENING, g_servo_locked := 0\<rparr>, h2)
        else (g1, h2))"


section \<open>The insertion sort is a sort\<close>

lemma length_sift [simp]: "length (sift v j xs) = length xs"
  by (induction v j xs rule: sift.induct) auto

text \<open>
  On a sorted prefix of length \<open>j\<close>, \<open>sift\<close> inserts \<open>v\<close> in order and leaves what lies
  beyond the gap alone.
\<close>

lemma insort_upper: "\<forall>x \<in> set xs. x \<le> v \<Longrightarrow> insort v (xs :: int list) = xs @ [v]"
  if "sorted xs"
  using that
proof (induction xs)
  case Nil
  then show ?case by simp
next
  case (Cons x xs)
  then show ?case by (cases "x = v") (auto simp: insort_is_Cons)
qed

lemma insort_snoc: "sorted (xs @ [y]) \<Longrightarrow> v < y \<Longrightarrow> insort v (xs @ [y]) = insort v xs @ [y :: int]"
  by (induction xs) auto

lemma sift_insort:
  "sorted xs \<Longrightarrow> sift v (length xs) (xs @ g # rest) = insort v xs @ rest"
proof (induction xs arbitrary: g rest rule: rev_induct)
  case Nil
  then show ?case by simp
next
  case (snoc y xs)
  have s: "sorted xs" using snoc.prems by (simp add: sorted_append)
  have n: "(xs @ y # g # rest) ! length xs = y" by simp
  have u1: "(xs @ y # g # rest)[Suc (length xs) := z] = xs @ y # z # rest" for z
    by (simp add: list_update_append)
  show ?case
  proof (cases "y > v")
    case True
    then show ?thesis
      using snoc.IH [OF s, of y "y # rest"] insort_snoc [OF snoc.prems] n u1 by simp
  next
    case False
    then have "\<forall>x \<in> set (xs @ [y]). x \<le> v" using snoc.prems by (auto simp: sorted_append)
    then have "insort v (xs @ [y]) = (xs @ [y]) @ [v]" using insort_upper [OF snoc.prems] by blast
    then show ?thesis using False n u1 by simp
  qed
qed

lemma sort_snoc: "sort (xs @ [v]) = insort (v :: int) (sort xs)"
  by (rule properties_for_sort) (simp_all add: sorted_insort)

lemma sort_steps:
  "k \<le> length xs \<Longrightarrow>
   fold (\<lambda>i ys. sift (ys ! i) i ys) [1..<k] xs = sort (take k xs) @ drop k xs" if "1 \<le> k"
  using that
proof (induction k rule: dec_induct)
  case base
  then show ?case by (cases xs) simp_all
next
  case (step k)
  then have k: "k < length xs" "1 \<le> k" by simp_all
  have IH: "fold (\<lambda>i ys. sift (ys ! i) i ys) [1..<k] xs = sort (take k xs) @ drop k xs"
    using step by simp
  have "sift (xs ! k) k (sort (take k xs) @ xs ! k # drop (Suc k) xs)
      = insort (xs ! k) (sort (take k xs)) @ drop (Suc k) xs"
    using sift_insort [of "sort (take k xs)" "xs ! k" "xs ! k" "drop (Suc k) xs"] k by simp
  moreover have "sort (take k xs) @ drop k xs = sort (take k xs) @ xs ! k # drop (Suc k) xs"
    using k by (simp add: Cons_nth_drop_Suc)
  moreover have "insort (xs ! k) (sort (take k xs)) = sort (take (Suc k) xs)"
    using k by (simp add: take_Suc_conv_app_nth sort_snoc)
  ultimately show ?case using IH k by (simp add: nth_append)
qed

lemma insertion_sort_sort: "insertion_sort xs = sort xs"
proof (cases "1 \<le> length xs")
  case True
  then show ?thesis unfolding insertion_sort_def using sort_steps [of "length xs" xs] by simp
next
  case False
  then show ?thesis by (cases xs) (simp_all add: insertion_sort_def)
qed

section \<open>The filter window\<close>

text \<open>
  \<open>window_of g hist\<close>: the ring of five holds the last five of the samples \<open>hist\<close> (oldest
  first), fewer at the start.
\<close>

definition last5 :: "int list \<Rightarrow> int list" where
  "last5 hist = drop (length hist - 5) hist"

definition ring5 :: "nat \<Rightarrow> int list \<Rightarrow> int list \<Rightarrow> bool" where
  "ring5 k buf hist \<longleftrightarrow> length buf = 5 \<and> k < 5
     \<and> (if length hist < 5 then k = length hist \<and> take k buf = hist else rotate k buf = last5 hist)"

definition window_of :: "gptp_t \<Rightarrow> int list \<Rightarrow> bool" where
  "window_of g hist \<longleftrightarrow> ring5 (unat (g_off_median_idx g)) (g_off_median_buf g) hist
     \<and> g_off_median_filled g = of_nat (min 5 (length hist))"

lemma last5_snoc: "5 \<le> length hist \<Longrightarrow> last5 (hist @ [x]) = tl (last5 hist) @ [x]"
proof -
  assume "5 \<le> length hist"
  then have "length (hist @ [x]) - 5 = Suc (length hist - 5)" by simp
  then show ?thesis using \<open>5 \<le> length hist\<close> by (simp add: last5_def drop_Suc tl_drop)
qed

lemma list5: "length xs = 5 \<Longrightarrow> \<exists>a b c d e. xs = [a, b, c, d, e :: 'a]"
  by (auto simp: length_Suc_conv numeral_eq_Suc)

lemma rotate_push:
  assumes "length buf = 5" and "k < 5"
  shows "rotate (Suc k mod 5) (buf[k := x]) = tl (rotate k buf) @ [x]"
proof -
  obtain a b c d e where b: "buf = [a, b, c, d, e]" using list5 [OF assms(1)] by blast
  have "k = 0 \<or> k = 1 \<or> k = 2 \<or> k = 3 \<or> k = 4" using assms(2) by linarith
  then show ?thesis by (elim disjE) (simp_all add: b rotate_drop_take)
qed


lemma mset_rotate: "mset (rotate n xs) = mset xs"
proof (induction n)
  case (Suc n)
  have "mset (rotate1 ys) = mset ys" for ys :: "'a list" by (cases ys) simp_all
  then show ?case using Suc by simp
qed simp

lemma ring5_push:
  assumes "ring5 k buf hist"
  shows "ring5 (Suc k mod 5) (buf[k := x]) (hist @ [x])
    \<and> mset (take (min 5 (Suc (length hist))) (buf[k := x])) = mset (last5 (hist @ [x]))"
proof -
  have l: "length buf = 5" and k: "k < 5" using assms by (simp_all add: ring5_def)
  consider (few) "length hist < 4" | (four) "length hist = 4" | (full) "5 \<le> length hist" by linarith
  then show ?thesis
  proof cases
    case few
    then have kk: "k = length hist" "take k buf = hist" using assms by (auto simp: ring5_def)
    then have "take (Suc k) (buf[k := x]) = hist @ [x]"
      using few l by (simp add: take_Suc_conv_app_nth)
    then show ?thesis using kk few l by (simp add: ring5_def last5_def)
  next
    case four
    then have kk: "k = 4" "take 4 buf = hist" using assms by (auto simp: ring5_def)
    then have "take 5 (buf[k := x]) = hist @ [x]"
      using l four take_Suc_conv_app_nth [of 4 "buf[k := x]"] by simp
    then have "buf[k := x] = hist @ [x]" using l by simp
    then show ?thesis using kk(1) l by (simp add: ring5_def last5_def four)
  next
    case full
    then have r: "rotate (Suc k mod 5) (buf[k := x]) = last5 (hist @ [x])"
      using assms rotate_push [OF l k, of x] last5_snoc [OF full, of x] by (simp add: ring5_def)
    moreover from this have "mset (buf[k := x]) = mset (last5 (hist @ [x]))" by (metis mset_rotate)
    ultimately show ?thesis using full l by (simp add: ring5_def)
  qed
qed

lemma word8_small: "n < 256 \<Longrightarrow> unat (of_nat n :: u8) = n"
  by (simp add: unsigned_of_nat take_bit_nat_eq_self)

lemma median_push_eq:
  assumes "window_of g hist"
  shows "median_push x g = (let k = unat (g_off_median_idx g); buf = (g_off_median_buf g)[k := x];
      n = min 5 (Suc (length hist))
    in g\<lparr>g_off_median_buf := buf, g_off_median_idx := of_nat (Suc k mod 5), g_off_median_filled := of_nat n,
         g_offset_from_master_ns := sort (take n buf) ! (n div 2)\<rparr>)"
proof -
  have k: "unat (g_off_median_idx g) < 5" and f: "g_off_median_filled g = of_nat (min 5 (length hist))"
    using assms by (simp_all add: window_of_def ring5_def)
  have "unat (g_off_median_idx g + 1) = Suc (unat (g_off_median_idx g))"
    using k by (simp add: unat_word_ariths)
  then have "unat ((g_off_median_idx g + 1) mod 5) = Suc (unat (g_off_median_idx g)) mod 5"
    by (simp add: unat_mod_distrib)
  then have idx: "(g_off_median_idx g + 1) mod 5 = of_nat (Suc (unat (g_off_median_idx g)) mod 5)"
    by (metis of_nat_unat ucast_id)
  define m where "m = min 5 (length hist)"
  have "m = 0 \<or> m = 1 \<or> m = 2 \<or> m = 3 \<or> m = 4 \<or> m = 5" unfolding m_def by linarith
  then have fil: "(if g_off_median_filled g < 5 then g_off_median_filled g + 1 else g_off_median_filled g)
      = of_nat (min 5 (Suc m))"
    unfolding f m_def [symmetric] by (elim disjE) simp_all
  have "min 5 (Suc m) = min 5 (Suc (length hist))" by (auto simp: m_def)
  moreover have "unat (of_nat (min 5 (Suc (length hist))) :: u8) = min 5 (Suc (length hist))"
    by (rule word8_small) simp
  ultimately show ?thesis
    unfolding median_push_def Let_def idx fil insertion_sort_sort by simp
qed

lemma window_push:
  assumes "window_of g hist"
  shows "window_of (median_push x g) (hist @ [x])
    \<and> g_offset_from_master_ns (median_push x g)
        = sort (last5 (hist @ [x])) ! (length (last5 (hist @ [x])) div 2)"
proof -
  let ?k = "unat (g_off_median_idx g)"
  have r: "ring5 ?k (g_off_median_buf g) hist" using assms by (simp add: window_of_def)
  have k: "unat (of_nat (Suc ?k mod 5) :: u8) = Suc ?k mod 5" by (rule word8_small) simp
  have "sort (take (min 5 (Suc (length hist))) ((g_off_median_buf g)[?k := x])) = sort (last5 (hist @ [x]))"
    using ring5_push [OF r, of x] by (metis sorted_list_of_multiset_mset)
  moreover have "length (last5 (hist @ [x])) = min 5 (Suc (length hist))" by (simp add: last5_def)
  ultimately show ?thesis
    using ring5_push [OF r, of x] k by (simp add: median_push_eq [OF assms] window_of_def Let_def)
qed

lemma sort_middle:
  assumes "length xs = 5" and "3 \<le> length (filter (\<lambda>x. lo \<le> x \<and> x \<le> hi) xs)"
  shows "lo \<le> sort xs ! 2 \<and> sort xs ! 2 \<le> (hi :: int)"
proof -
  obtain a b c d e where s: "sort xs = [a, b, c, d, e]"
    using list5 [of "sort xs"] assms(1) by auto
  have le: "a \<le> b" "b \<le> c" "c \<le> d" "d \<le> e" using sorted_sort [of xs] unfolding s by simp_all
  have "length (filter (\<lambda>x. lo \<le> x \<and> x \<le> hi) (sort xs)) = length (filter (\<lambda>x. lo \<le> x \<and> x \<le> hi) xs)"
    by (metis mset_filter mset_sort size_mset)
  then have "3 \<le> length (filter (\<lambda>x. lo \<le> x \<and> x \<le> hi) [a, b, c, d, e])"
    using assms(2) unfolding s by simp
  then show ?thesis using le unfolding s by (auto split: if_splits)
qed


section \<open>An invariant of every operation\<close>

lemma nrr_update_bounds:
  assumes "\<bar>nrr\<bar> < 10000"
  shows "\<bar>nrr_update c nrr dt3 dt4\<bar> < 10000"
proof -
  have "\<bar>s32 (s32 (s32 (nrr * 7) + i)) sdiv 8\<bar> < 10000" if "-10000 < i" "i < 10000" for i
  proof -
    have "s32 (s32 (s32 (nrr * 7) + i)) = nrr * 7 + i"
      using assms that by (simp add: s64_simps)
    moreover have "- 9999 \<le> (nrr * 7 + i) sdiv 8 \<and> (nrr * 7 + i) sdiv 8 \<le> 9999"
      by (rule sdiv_bounds) (use assms that in auto)
    ultimately show ?thesis by auto
  qed
  then show ?thesis using assms by (simp add: nrr_update_def Let_def)
qed

lemma ewma_bounds:
  assumes "0 \<le> m" and "m < 20000" and "0 \<le> d" and "d < 20000"
  shows "0 \<le> s64 (s64 (m * 7) + d) sdiv 8 \<and> s64 (s64 (m * 7) + d) sdiv 8 < 20000"
proof -
  have "s64 (s64 (m * 7) + d) = m * 7 + d" using assms by (simp add: s64_simps)
  moreover have "0 \<le> (m * 7 + d) div 8 \<and> (m * 7 + d) div 8 < 20000"
    using assms by presburger
  ultimately show ?thesis using assms by (simp add: sdiv_nonneg)
qed

lemma servo_pi_bounds:
  "\<bar>fst (servo_pi base i off)\<bar> \<le> SERVO_INTEGRAL_CLAMP_NS
   \<and> 0 < snd (servo_pi base i off) \<and> snd (servo_pi base i off) < 2 ^ 52"
proof -
  have "0 < (word_of_int (if (if a < 1 then 1 else a) \<ge> 2 ^ 52 then 2 ^ 52 - 1 else if a < 1 then 1 else a) :: u64)
    \<and> (word_of_int (if (if a < 1 then 1 else a) \<ge> 2 ^ 52 then 2 ^ 52 - 1 else if a < 1 then 1 else a) :: u64) < 2 ^ 52"
    (is "0 < ?w \<and> ?w < _") for a :: int
  proof -
    define x where "x = (if (if a < 1 then 1 else a) \<ge> 2 ^ 52 then 2 ^ 52 - 1 else if a < 1 then 1 else a)"
    have x: "1 \<le> x" "x < 2 ^ 52" by (auto simp: x_def)
    then have "uint (word_of_int x :: u64) = x" by (simp add: uint_word_of_int_eq take_bit_int_eq_self)
    then show ?thesis using x unfolding x_def [symmetric] by (simp add: word_less_def)
  qed
  then show ?thesis
    using clamp_sym_bounds [of SERVO_INTEGRAL_CLAMP_NS "s64 (i + off)"]
    by (auto simp: servo_pi_def Let_def case_prod_unfold SERVO_INTEGRAL_CLAMP_NS_def)
qed

definition gptp_ok :: "gptp_t \<times> hw \<Rightarrow> bool" where
  "gptp_ok = (\<lambda>(g, h).
     g_state g \<noteq> GPTP_STATE_INIT
     \<and> 0 \<le> g_mean_path_delay_ns g \<and> g_mean_path_delay_ns g < 20000
     \<and> \<bar>g_nrr_ppb g\<bar> < 10000
     \<and> \<bar>g_freq_integral g\<bar> \<le> SERVO_INTEGRAL_CLAMP_NS
     \<and> g_base_addend_full g = gptp_base_addend
     \<and> 0 < g_current_addend_full g \<and> g_current_addend_full g < 2 ^ 52
     \<and> hw_addend h = ucast (drop_bit 20 (g_current_addend_full g))
     \<and> hw_addend_frac h = ucast (g_current_addend_full g AND 0xFFFFF)
     \<and> g_lock_sample_count g \<le> 8
     \<and> (\<exists>hist. window_of g hist))"

text \<open>The fields the invariant speaks of: an operation that keeps them keeps it.\<close>

definition same_core :: "gptp_t \<Rightarrow> gptp_t \<Rightarrow> bool" where
  "same_core g g' \<longleftrightarrow> (g_state g' = g_state g \<or> g_state g' \<noteq> GPTP_STATE_INIT)
     \<and> g_mean_path_delay_ns g' = g_mean_path_delay_ns g \<and> g_nrr_ppb g' = g_nrr_ppb g
     \<and> g_freq_integral g' = g_freq_integral g \<and> g_base_addend_full g' = g_base_addend_full g
     \<and> g_current_addend_full g' = g_current_addend_full g
     \<and> g_lock_sample_count g' = g_lock_sample_count g
     \<and> g_off_median_buf g' = g_off_median_buf g \<and> g_off_median_idx g' = g_off_median_idx g
     \<and> g_off_median_filled g' = g_off_median_filled g"

lemma same_core_ok:
  "gptp_ok (g, h) \<Longrightarrow> same_core g g' \<Longrightarrow> hw_addend h' = hw_addend h \<Longrightarrow> hw_addend_frac h' = hw_addend_frac h
   \<Longrightarrow> gptp_ok (g', h')"
  by (auto simp: gptp_ok_def same_core_def window_of_def)

lemma process_sync_ok: "gptp_ok (g, h) \<Longrightarrow> gptp_ok (process_sync ptp (g, h))"
  unfolding process_sync_def gptp_uptime_ms_eq Let_def prod.case
  by (erule same_core_ok) (auto simp: same_core_def)

lemma pdelay_req_ok: "gptp_ok (g, h) \<Longrightarrow> gptp_ok (process_pdelay_req ptp (g, h))"
  unfolding process_pdelay_req_def Let_def prod.case gptp_send_pdelay_resp_def gptp_send_pdelay_resp_fup_def
  by (erule same_core_ok) (auto simp: same_core_def)

lemma pdelay_resp_ok: "gptp_ok (g, h) \<Longrightarrow> gptp_ok (process_pdelay_resp ptp (g, h))"
  unfolding process_pdelay_resp_def prod.case
  by (auto elim!: same_core_ok simp: same_core_def)

lemma announce_ok: "gptp_ok (g, h) \<Longrightarrow> gptp_ok (process_announce ptp n g, h)"
  unfolding process_announce_def by (auto elim!: same_core_ok simp: same_core_def)

lemma pdelay_resp_fup_ok: "gptp_ok (g, h) \<Longrightarrow> gptp_ok (process_pdelay_resp_fup ptp (g, h))"
proof -
  assume ok: "gptp_ok (g, h)"
  then have n: "\<bar>g_nrr_ppb g\<bar> < 10000" and m: "0 \<le> g_mean_path_delay_ns g" "g_mean_path_delay_ns g < 20000"
    by (simp_all add: gptp_ok_def)
  show ?thesis
    using ok nrr_update_bounds [OF n] ewma_bounds [OF m]
    by (simp add: process_pdelay_resp_fup_def gptp_ok_def window_of_def Let_def)
qed

lemma servo_lock_count: "c \<le> 8 \<Longrightarrow> snd (servo_lock a l c) \<le> 8"
  by (auto simp: servo_lock_def word_le_nat_alt word_less_nat_alt unat_word_ariths)

lemma servo_window_core: "same_core g (servo_window now off g)"
  by (simp add: servo_window_def same_core_def Let_def)

lemma servo_window_other:
  "g_servo_locked (servo_window now off g) = g_servo_locked g"
  "g_servo_step_count (servo_window now off g) = g_servo_step_count g"
  "g_offset_from_master_ns (servo_window now off g) = g_offset_from_master_ns g"
  "g_last_sync_time_ms (servo_window now off g) = g_last_sync_time_ms g"
  by (simp_all add: servo_window_def Let_def)

lemma gptp_base_addend_bounds: "0 < gptp_base_addend" "gptp_base_addend < 2 ^ 52"
  by (simp_all add: gptp_base_addend_def CONFIG_CLOCK_FREQUENCY_def Let_def)

lemma servo_update_ok: "gptp_ok (g, h) \<Longrightarrow> gptp_ok (gptp_servo_update (g, h))"
proof -
  assume ok: "gptp_ok (g, h)"
  show ?thesis
  proof (cases "g_servo_step_count g = 0 \<or> g_offset_from_master_ns g > 500000000
      \<or> g_offset_from_master_ns g < - 500000000")
    case True
    then show ?thesis
      using ok gptp_base_addend_bounds
      by (simp add: gptp_servo_update_def servo_coarse_step_def gptp_uptime_ms_eq gptp_ok_def Let_def
          gptp_set_addend_full_def gptp_step_time_def window_of_def SERVO_INTEGRAL_CLAMP_NS_def)
  next
    case False
    let ?off = "g_offset_from_master_ns g"
    let ?pi = "servo_pi (g_base_addend_full g) (g_freq_integral g) ?off"
    let ?lk = "servo_lock (abs64 ?off) (g_servo_locked g) (g_lock_sample_count g)"
    let ?g1 = "g\<lparr>g_freq_integral := fst ?pi, g_current_addend_full := snd ?pi,
                   g_servo_step_count := g_servo_step_count g + 1,
                   g_servo_locked := fst ?lk, g_lock_sample_count := snd ?lk\<rparr>"
    let ?h1 = "gptp_set_addend_full (snd ?pi) h"
    have eq: "gptp_servo_update (g, h) = (servo_window (peek_ms ?h1) ?off ?g1, tick_time ?h1)"
      using False by (simp add: gptp_servo_update_def Let_def case_prod_unfold gptp_uptime_ms_eq)
    have "gptp_ok (?g1, ?h1)"
      using ok servo_pi_bounds servo_lock_count [of "g_lock_sample_count g"]
      by (simp add: gptp_ok_def gptp_set_addend_full_def window_of_def)
    then show ?thesis unfolding eq by (rule same_core_ok [OF _ servo_window_core]) simp_all
  qed
qed

lemma median_push_ok: "gptp_ok (g, h) \<Longrightarrow> gptp_ok (median_push x g, h)"
proof -
  assume ok: "gptp_ok (g, h)"
  then obtain hist where "window_of g hist" by (auto simp: gptp_ok_def)
  then have "window_of (median_push x g) (hist @ [x])" using window_push by blast
  then show ?thesis using ok by (auto simp: gptp_ok_def median_push_def Let_def)
qed

lemma follow_up_ok: "gptp_ok (g, h) \<Longrightarrow> gptp_ok (process_follow_up ptp (g, h))"
proof -
  assume ok: "gptp_ok (g, h)"
  let ?g0 = "g\<lparr>g_sync_origin_ts := get_ptp_ts ptp 34\<rparr>"
  let ?g1 = "median_push (follow_up_offset ptp g) ?g0"
  have "gptp_ok (?g0, h)" by (rule same_core_ok [OF ok]) (simp_all add: same_core_def)
  then have "gptp_ok (?g1, h)" by (rule median_push_ok)
  then have "gptp_ok (?g1\<lparr>g_sync_received := 0, g_sync_count := g_sync_count ?g1 + 1\<rparr>, h)"
    by (rule same_core_ok) (simp_all add: same_core_def)
  then show ?thesis using ok by (simp add: process_follow_up_def Let_def servo_update_ok)
qed

lemmas handlers_ok = process_sync_ok follow_up_ok pdelay_req_ok pdelay_resp_ok pdelay_resp_fup_ok announce_ok

lemma process_rx_ok: "gptp_ok (g, h) \<Longrightarrow> gptp_ok (gptp_process_rx frame len (g, h))"
  unfolding gptp_process_rx_def Let_def prod.case
  by (auto intro!: handlers_ok elim!: same_core_ok simp: same_core_def)

lemma poll_ok: "gptp_ok (g, h) \<Longrightarrow> gptp_ok (gptp_poll (g, h))"
  unfolding gptp_poll_def gptp_send_pdelay_req_def gptp_uptime_ms_eq Let_def prod.case
  by (auto elim!: same_core_ok simp: same_core_def)

end
