(* ===== verification/GptpProps.thy ===== *)
theory GptpProps
  imports Gptp
begin

text \<open>
  What the clock synchronisation of theory \<open>Gptp\<close> achieves.  \<open>gptp_packet\<close> is the frame a
  node puts on the wire; \<open>gptp_rx_dispatch\<close> reduces the reception of a frame with a given
  message type to its handler.  On these rest the end-to-end theorems (peer delay between
  two nodes, Sync and Follow_Up, both stated on times as integers, \<open>ts_ns\<close>), the lock
  acquisition over runs of offsets, the coarse step, the state machine, and what is and
  is not read beyond the end of a frame.  \<open>ts_ok\<close> bounds times to 2^33 seconds, below
  which the nanosecond counts fit \<open>int64_t\<close>.
\<close>


section \<open>Frames on the wire\<close>

definition gptp_ids_ok :: "gptp_t \<Rightarrow> bool" where
  "gptp_ids_ok g \<longleftrightarrow> length (g_our_mac g) = 6 \<and> length (g_clock_id g) = 8"

definition gptp_packet :: "gptp_t \<Rightarrow> u8 \<Rightarrow> u16 \<Rightarrow> u8 list \<Rightarrow> u8 list" where
  "gptp_packet g msg_type seq body =
     build_eth_header (g_our_mac g)
       @ build_ptp_header msg_type (34 + 20) (g_clock_id g) (g_port_number g) seq 0 @ body"

lemma length_eth_header: "length mac = 6 \<Longrightarrow> length (build_eth_header mac) = 14"
  by (simp add: build_eth_header_def GPTP_MCAST_ADDR_def)

lemma length_ptp_header: "length cid = 8 \<Longrightarrow> length (build_ptp_header t l cid p s i) = 34"
  by (simp add: build_ptp_header_def Let_def)

lemma length_put_ptp_ts [simp]: "length (put_ptp_ts t) = 10"
  by (simp add: put_ptp_ts_def)

lemma gptp_frame_bytes:
  assumes "gptp_ids_ok g" and "length body = 20"
  shows "bytes (mputs m (gptp_frame g t seq body)) 0 68 = gptp_packet g t seq body"
proof -
  have "contig 0 (gptp_frame g t seq body)"
    using assms by (simp add: gptp_frame_def gptp_ids_ok_def length_eth_header length_ptp_header)
  from bytes_mputs_contig [OF this, of m] show ?thesis
    using assms by (simp add: gptp_frame_def gptp_packet_def gptp_ids_ok_def length_eth_header length_ptp_header)
qed

lemma gptp_packet_fields:
  assumes "gptp_ids_ok g" and "length body = 20"
  shows "get_be16 (mem_of (gptp_packet g t seq body)) 12 = PTP_ETHERTYPE"
    and "mem_of (gptp_packet g t seq body) 14 = 0x10 OR (t AND 0x0F)"
    and "mem_of (gptp_packet g t seq body) 18 = GPTP_DOMAIN"
    and "get_be16 (mem_of (gptp_packet g t seq body)) 44 = seq"
    and "bytes (mem_of (gptp_packet g t seq body)) 34 10 = g_clock_id g @ put_be16 (g_port_number g)"
    and "bytes (mem_of (gptp_packet g t seq body)) 48 20 = body"
    and "bytes (mem_of (gptp_packet g t seq body)) 22 8 = zeros 8"
proof -
  let ?p = "gptp_packet g t seq body"
  have l: "length (g_our_mac g) = 6" "length (g_clock_id g) = 8" using assms(1) by (simp_all add: gptp_ids_ok_def)
  have len: "length ?p = 68"
    using assms(2) by (simp add: gptp_packet_def length_eth_header length_ptp_header l)
  have sl: "bytes (mem_of ?p) off n = take n (drop off ?p)" if "off + n \<le> 68" for off n
    using that len by (intro bytes_mem_of_slice) simp
  note exp = gptp_packet_def build_eth_header_def build_ptp_header_def GPTP_MCAST_ADDR_def Let_def
  show "get_be16 (mem_of ?p) 12 = PTP_ETHERTYPE"
    by (rule get_put_be16, subst sl) (simp_all add: exp l)
  have "bytes (mem_of ?p) 14 1 = [0x10 OR (t AND 0x0F)]"
    by (subst sl) (simp_all add: exp l)
  then show "mem_of ?p 14 = 0x10 OR (t AND 0x0F)" by (simp add: bytes_def)
  have "bytes (mem_of ?p) 18 1 = [GPTP_DOMAIN]"
    by (subst sl) (simp_all add: exp l)
  then show "mem_of ?p 18 = GPTP_DOMAIN" by (simp add: bytes_def)
  show "get_be16 (mem_of ?p) 44 = seq"
    by (rule get_put_be16, subst sl) (simp_all add: exp l)
  show "bytes (mem_of ?p) 34 10 = g_clock_id g @ put_be16 (g_port_number g)"
    by (subst sl) (simp_all add: exp l)
  show "bytes (mem_of ?p) 22 8 = zeros 8"
    by (subst sl) (simp_all add: exp l zeros_def)
  show "bytes (mem_of ?p) 48 20 = body"
    using assms(2) by (subst sl) (simp_all add: exp l)
qed

lemma get_put_ptp_ts:
  assumes "bytes m o' 10 = put_ptp_ts t" and "seconds t < 2 ^ 48"
  shows "get_ptp_ts m o' = t"
proof -
  have "bytes m o' (6 + 4) = put_be48 (seconds t) @ put_be32 (nanoseconds t)"
    using assms(1) by (simp add: put_ptp_ts_def)
  then have "bytes m o' 6 = put_be48 (seconds t)" "bytes m (o' + 6) 4 = put_be32 (nanoseconds t)"
    unfolding bytes_add by simp_all
  then show ?thesis using assms(2) by (simp add: get_ptp_ts_def get_put_be48 get_put_be32)
qed

text \<open>A body of a time stamp and a port identity, as responders write it.\<close>

lemma body_fields:
  assumes "bytes m o' 20 = put_ptp_ts t @ cid @ put_be16 port" and "length cid = 8" and "seconds t < 2 ^ 48"
  shows "get_ptp_ts m o' = t" and "bytes m (o' + 10) 8 = cid"
proof -
  have "bytes m o' (10 + (8 + 2)) = put_ptp_ts t @ cid @ put_be16 port" using assms(1) by simp
  then have "bytes m o' 10 = put_ptp_ts t" "bytes m (o' + 10) 8 = cid"
    using assms(2) unfolding bytes_add by simp_all
  then show "get_ptp_ts m o' = t" "bytes m (o' + 10) 8 = cid"
    using assms(3) by (simp_all add: get_put_ptp_ts)
qed

section \<open>Dispatch\<close>

lemma shift_reads:
  "get_be16 (\<lambda>i. f (14 + i)) o' = get_be16 f (14 + o')"
  "bytes (\<lambda>i. f (14 + i)) o' n = bytes f (14 + o') n"
  "get_ptp_ts (\<lambda>i. f (14 + i)) o' = get_ptp_ts f (14 + o')"
  "get_be64_signed (\<lambda>i. f (14 + i)) o' = get_be64_signed f (14 + o')"
  by (simp_all add: get_be16_def get_be32_def get_be48_def get_be64_signed_def get_ptp_ts_def
      bytes_def add.assoc)

definition gptp_header :: "u8 \<Rightarrow> mem \<Rightarrow> bool" where
  "gptp_header t f \<longleftrightarrow> get_be16 f 12 = PTP_ETHERTYPE \<and> f 14 = 0x10 OR t \<and> f 18 = GPTP_DOMAIN"

lemma gptp_header_msg:
  assumes "gptp_header t f" and "t AND 0xF0 = 0"
  shows "drop_bit 4 (f 14) = 1" and "f 14 AND 0x0F = t"
proof -
  have b: "f 14 = 0x10 OR t" using assms(1) by (simp add: gptp_header_def)
  have t: "take_bit 4 t = t"
  proof (rule bit_word_eqI)
    fix n assume n: "n < LENGTH(8)"
    have "\<not> bit (t AND 0xF0) n" using assms(2) by simp
    moreover have "(0xF0 :: u8) = NOT (mask 4)" by (simp add: mask_eq_exp_minus_1)
    ultimately show "bit (take_bit 4 t) n = bit t n" using n by (auto simp: bit_simps)
  qed
  have "drop_bit 4 t = 0" by (subst t [symmetric]) (simp add: drop_bit_take_bit)
  then show "drop_bit 4 (f 14) = 1" by (simp add: b)
  have m: "(0x0F :: u8) = mask 4" by (simp add: mask_eq_exp_minus_1)
  have "(0x10 OR t) AND 0x0F = (0x10 AND 0x0F) OR (t AND (0x0F :: u8))" by (rule bit.conj_disj_distrib2)
  also have "\<dots> = t"
  proof -
    have "(0x10 :: u8) AND mask 4 = 0" by (simp add: mask_eq_exp_minus_1)
    then show ?thesis unfolding m using t by (simp add: take_bit_eq_mask)
  qed
  finally show "f 14 AND 0x0F = t" by (simp add: b)
qed

lemma gptp_rx_dispatch:
  assumes "gptp_header t f" and "t AND 0xF0 = 0" and "48 \<le> unat len"
  shows "gptp_process_rx f len (g, h) =
    (let ptp = (\<lambda>i. f (14 + i)); g1 = g\<lparr>g_rx_last_msg_type := t, g_rx_last_domain := GPTP_DOMAIN\<rparr>
     in if t = PTP_MSG_SYNC
        then process_sync ptp (g1\<lparr>g_rx_sync_count := g_rx_sync_count g1 + 1\<rparr>, h)
        else if t = PTP_MSG_FOLLOW_UP
        then process_follow_up ptp (g1\<lparr>g_rx_followup_count := g_rx_followup_count g1 + 1\<rparr>, h)
        else if t = PTP_MSG_PDELAY_REQ
        then process_pdelay_req ptp (g1\<lparr>g_rx_pdelay_req_count := g_rx_pdelay_req_count g1 + 1\<rparr>, h)
        else if t = PTP_MSG_PDELAY_RESP
        then process_pdelay_resp ptp (g1\<lparr>g_rx_pdelay_resp_count := g_rx_pdelay_resp_count g1 + 1\<rparr>, h)
        else if t = PTP_MSG_PDELAY_RESP_FUP
        then process_pdelay_resp_fup ptp
               (g1\<lparr>g_rx_pdelay_resp_fup_count := g_rx_pdelay_resp_fup_count g1 + 1\<rparr>, h)
        else if t = PTP_MSG_ANNOUNCE
        then (process_announce ptp (len - 14) (g1\<lparr>g_rx_announce_count := g_rx_announce_count g1 + 1\<rparr>), h)
        else (g1\<lparr>g_rx_other_count := g_rx_other_count g1 + 1\<rparr>, h))"
proof -
  have l: "\<not> len < 14 + 34" using assms(3) by (simp add: word_less_nat_alt)
  have e: "get_be16 f 12 = PTP_ETHERTYPE" "f 18 = GPTP_DOMAIN"
    using assms(1) by (simp_all add: gptp_header_def)
  show ?thesis
    using l e gptp_header_msg [OF assms(1,2)]
    by (simp add: gptp_process_rx_def Let_def)
qed

lemma gptp_packet_header:
  "gptp_ids_ok g \<Longrightarrow> length body = 20 \<Longrightarrow> t AND 0x0F = t \<Longrightarrow>
   gptp_header t (mem_of (gptp_packet g t seq body))"
  by (simp add: gptp_header_def gptp_packet_fields)


section \<open>Times as integers\<close>

definition ts_ns :: "ptp_timestamp \<Rightarrow> int" where
  "ts_ns t = uint (seconds t) * 1000000000 + uint (nanoseconds t)"

text \<open>Times before the year 2242: the nanosecond count fits \<open>int64_t\<close>.\<close>

definition ts_ok :: "ptp_timestamp \<Rightarrow> bool" where
  "ts_ok t \<longleftrightarrow> seconds t < 2 ^ 33"

lemma ts_ok_bounds: "ts_ok t \<Longrightarrow> 0 \<le> ts_ns t \<and> ts_ns t < 8600000000000000000"
proof -
  assume "ts_ok t"
  then have "uint (seconds t) < 8589934592" by (simp add: ts_ok_def word_less_def)
  moreover have "uint (nanoseconds t) < 4294967296" using uint_lt2p [of "nanoseconds t"] by simp
  moreover have "0 \<le> uint (seconds t)" "0 \<le> uint (nanoseconds t)" by simp_all
  ultimately show ?thesis unfolding ts_ns_def by linarith
qed

lemma ts_ok_48: "ts_ok t \<Longrightarrow> seconds t < 2 ^ 48"
  unfolding ts_ok_def by (erule order.strict_trans) simp

lemma ts_diff_ns:
  assumes "ts_ok t"
  shows "gptp_ts_diff_ns t ptp0 = ts_ns t"
proof -
  have s: "uint (seconds t) < 2 ^ 33" using assms by (simp add: ts_ok_def word_less_def)
  have n: "uint (nanoseconds t) < 2 ^ 32" using uint_lt2p [of "nanoseconds t"] by simp
  have si: "sint (seconds t) = uint (seconds t)"
  proof -
    have "- (2 ^ 63) \<le> uint (seconds t)" by (rule order_trans [OF _ uint_ge_0]) simp
    then show ?thesis unfolding sint_uint using s by (simp add: signed_take_bit_int_eq_self)
  qed
  define S N where "S = uint (seconds t)" and "N = uint (nanoseconds t)"
  have b: "0 \<le> S" "S < 8589934592" "0 \<le> N" "N < 4294967296"
    using s n by (simp_all add: S_def N_def)
  have "s64 S = S" "s64 N = N" "s64 (S * 1000000000) = S * 1000000000"
    "s64 (S * 1000000000 + N) = S * 1000000000 + N"
    using b by (simp_all add: s64_simps)
  then show ?thesis by (simp add: gptp_ts_diff_ns_def si ptp0_def ts_ns_def S_def N_def)
qed

lemma ts_diff_s64:
  assumes "ts_ok a" and "ts_ok b"
  shows "s64 (ts_ns a - ts_ns b) = ts_ns a - ts_ns b"
  using ts_ok_bounds [OF assms(1)] ts_ok_bounds [OF assms(2)] by (intro s64_id) auto

section \<open>The peer delay exchange\<close>

lemma send_pdelay_req_eq:
  assumes "gptp_ids_ok g"
  shows "let (g', h') = gptp_send_pdelay_req (g, h)
    in hw_sent h' = hw_sent h @ [gptp_packet g PTP_MSG_PDELAY_REQ (g_pdelay_seq_id g) (zeros 20)]
     \<and> (\<exists>now. g' = g\<lparr>g_pdelay_resp_received := 0, g_pdelay_fup_received := 0,
          g_pdelay_t1 := hw_tx_ts h (Suc (length (hw_sent h))), g_last_pdelay_time_ms := now,
          g_pdelay_count := g_pdelay_count g + 1\<rparr>)"
  by (simp add: gptp_send_pdelay_req_def Let_def gptp_uptime_ms_eq gptp_frame_bytes [OF assms]
      gptp_read_tx_timestamp_def) blast

lemma peer_answers:
  assumes "gptp_ids_ok a" and "gptp_ids_ok b"
  shows "hw_sent (snd (gptp_process_rx (mem_of (gptp_packet a PTP_MSG_PDELAY_REQ seq (zeros 20))) 68 (b, h)))
    = hw_sent h
       @ [gptp_packet b PTP_MSG_PDELAY_RESP seq (put_ptp_ts (hw_rx_ts h) @ g_clock_id a @ put_be16 (g_port_number a)),
          gptp_packet b PTP_MSG_PDELAY_RESP_FUP seq
            (put_ptp_ts (hw_tx_ts h (Suc (length (hw_sent h)))) @ g_clock_id a @ put_be16 (g_port_number a))]"
proof -
  let ?f = "mem_of (gptp_packet a PTP_MSG_PDELAY_REQ seq (zeros 20))"
  have z: "length (zeros 20) = 20" by simp
  note fields = gptp_packet_fields [OF assms(1) z, of PTP_MSG_PDELAY_REQ seq]
  have hdr: "gptp_header PTP_MSG_PDELAY_REQ ?f"
    by (rule gptp_packet_header [OF assms(1)]) (simp_all add: PTP_MSG_PDELAY_REQ_def)
  have ca: "length (g_clock_id a) = 8" using assms(1) by (simp add: gptp_ids_ok_def)
  define b1 where "b1 = b\<lparr>g_rx_last_msg_type := PTP_MSG_PDELAY_REQ, g_rx_last_domain := GPTP_DOMAIN,
      g_rx_pdelay_req_count := g_rx_pdelay_req_count b + 1\<rparr>"
  have rx: "gptp_process_rx ?f 68 (b, h) = process_pdelay_req (\<lambda>i. ?f (14 + i)) (b1, h)"
    by (subst gptp_rx_dispatch [OF hdr])
       (simp_all add: PTP_MSG_PDELAY_REQ_def PTP_MSG_SYNC_def PTP_MSG_FOLLOW_UP_def b1_def Let_def)
  have b1: "gptp_ids_ok b1" "g_our_mac b1 = g_our_mac b" "g_clock_id b1 = g_clock_id b"
    "g_port_number b1 = g_port_number b"
    using assms(2) by (simp_all add: b1_def gptp_ids_ok_def)
  have pk: "gptp_packet b1 t s body = gptp_packet b t s body" for t s body
    by (simp add: gptp_packet_def b1)
  show ?thesis
    unfolding rx
    by (simp add: process_pdelay_req_def gptp_send_pdelay_resp_def gptp_send_pdelay_resp_fup_def Let_def
        gptp_frame_bytes [OF b1(1)] shift_reads fields ca pk gptp_read_rx_timestamp_def
        gptp_read_tx_timestamp_def)
qed

lemma resp_taken:
  assumes "gptp_ids_ok a" and "gptp_ids_ok b" and "ts_ok t2" and "g_pdelay_seq_id a = seq"
  shows "gptp_process_rx (mem_of (gptp_packet b PTP_MSG_PDELAY_RESP seq
            (put_ptp_ts t2 @ g_clock_id a @ put_be16 (g_port_number a)))) 68 (a, h)
    = (a\<lparr>g_rx_last_msg_type := PTP_MSG_PDELAY_RESP, g_rx_last_domain := GPTP_DOMAIN,
         g_rx_pdelay_resp_count := g_rx_pdelay_resp_count a + 1,
         g_pdelay_t4 := hw_rx_ts h, g_pdelay_t2 := t2, g_pdelay_resp_received := 1\<rparr>, h)"
proof -
  let ?body = "put_ptp_ts t2 @ g_clock_id a @ put_be16 (g_port_number a)"
  let ?f = "mem_of (gptp_packet b PTP_MSG_PDELAY_RESP seq ?body)"
  have ca: "length (g_clock_id a) = 8" using assms(1) by (simp add: gptp_ids_ok_def)
  then have lb: "length ?body = 20" by simp
  note fields = gptp_packet_fields [OF assms(2) lb, of PTP_MSG_PDELAY_RESP seq]
  have hdr: "gptp_header PTP_MSG_PDELAY_RESP ?f"
    by (rule gptp_packet_header [OF assms(2) lb]) (simp add: PTP_MSG_PDELAY_RESP_def)
  note bf = body_fields [OF fields(6) ca ts_ok_48 [OF assms(3)]]
  show ?thesis
    using bf fields(4) assms(4)
    by (subst gptp_rx_dispatch [OF hdr])
       (simp_all add: PTP_MSG_PDELAY_RESP_def PTP_MSG_PDELAY_REQ_def PTP_MSG_SYNC_def PTP_MSG_FOLLOW_UP_def
         Let_def process_pdelay_resp_def shift_reads gptp_read_rx_timestamp_def)
qed

lemma fup_taken:
  assumes "gptp_ids_ok b" and "length cid = 8" and "ts_ok t3" and "g_pdelay_seq_id a = seq"
  shows "\<exists>ptp a1. gptp_process_rx (mem_of (gptp_packet b PTP_MSG_PDELAY_RESP_FUP seq
            (put_ptp_ts t3 @ cid @ put_be16 port))) 68 (a, h) = process_pdelay_resp_fup ptp (a1, h)
      \<and> get_be16 ptp 30 = seq \<and> get_ptp_ts ptp 34 = t3
      \<and> a1 = a\<lparr>g_rx_last_msg_type := PTP_MSG_PDELAY_RESP_FUP, g_rx_last_domain := GPTP_DOMAIN,
           g_rx_pdelay_resp_fup_count := g_rx_pdelay_resp_fup_count a + 1\<rparr>"
proof -
  let ?body = "put_ptp_ts t3 @ cid @ put_be16 port"
  let ?f = "mem_of (gptp_packet b PTP_MSG_PDELAY_RESP_FUP seq ?body)"
  have lb: "length ?body = 20" using assms(2) by simp
  note fields = gptp_packet_fields [OF assms(1) lb, of PTP_MSG_PDELAY_RESP_FUP seq]
  have hdr: "gptp_header PTP_MSG_PDELAY_RESP_FUP ?f"
    by (rule gptp_packet_header [OF assms(1) lb]) (simp add: PTP_MSG_PDELAY_RESP_FUP_def)
  have "get_be16 (\<lambda>i. ?f (14 + i)) 30 = seq" "get_ptp_ts (\<lambda>i. ?f (14 + i)) 34 = t3"
    using fields(4) body_fields(1) [OF fields(6) assms(2) ts_ok_48 [OF assms(3)]]
    by (simp_all add: shift_reads)
  moreover have "gptp_process_rx ?f 68 (a, h) = process_pdelay_resp_fup (\<lambda>i. ?f (14 + i))
      (a\<lparr>g_rx_last_msg_type := PTP_MSG_PDELAY_RESP_FUP, g_rx_last_domain := GPTP_DOMAIN,
         g_rx_pdelay_resp_fup_count := g_rx_pdelay_resp_fup_count a + 1\<rparr>, h)"
    by (subst gptp_rx_dispatch [OF hdr])
       (simp_all add: PTP_MSG_PDELAY_RESP_FUP_def PTP_MSG_PDELAY_RESP_def PTP_MSG_PDELAY_REQ_def
         PTP_MSG_SYNC_def PTP_MSG_FOLLOW_UP_def Let_def)
  ultimately show ?thesis by blast
qed

lemma nrr_same_rate: "nrr_update c 0 d d = 0"
  by (simp add: nrr_update_def s64_simps Let_def)

lemma delay_measured:
  assumes "ts_ok t1" "ts_ok t2" "ts_ok t3" "ts_ok t4"
    and "ts_ns t2 = ts_ns t1 + d + \<theta>" and "ts_ns t4 = ts_ns t3 + d - \<theta>"
    and "0 \<le> d" and "d < 20000"
  shows "pdelay_delay 0 (s64 (ts_ns t4 - ts_ns t1)) (s64 (ts_ns t3 - ts_ns t2)) = d"
proof -
  have e: "s64 (ts_ns t4 - ts_ns t1) = ts_ns t4 - ts_ns t1" "s64 (ts_ns t3 - ts_ns t2) = ts_ns t3 - ts_ns t2"
    by (rule ts_diff_s64 [OF assms(4,1)], rule ts_diff_s64 [OF assms(3,2)])
  have "(ts_ns t4 - ts_ns t1) - (ts_ns t3 - ts_ns t2) = 2 * d" using assms(5,6) by simp
  moreover have "s64 (2 * d) = 2 * d" using assms(7,8) by (simp add: s64_simps)
  moreover have "(2 * d) sdiv 2 = d" using assms(7) by (simp add: sdiv_nonneg)
  ultimately show ?thesis
    unfolding pdelay_delay_def Let_def e using ts_diff_s64 [OF assms(4,1)] by (simp add: s64_simps)
qed


lemma fup_measures:
  assumes "get_be16 ptp 30 = g_pdelay_seq_id g" and "g_pdelay_resp_received g \<noteq> 0"
    and "g_pdelay_t1 g = t1" "g_pdelay_t2 g = t2" "get_ptp_ts ptp 34 = t3" "g_pdelay_t4 g = t4"
    and ok: "ts_ok t1" "ts_ok t2" "ts_ok t3" "ts_ok t4"
    and link: "ts_ns t2 = ts_ns t1 + d + \<theta>" "ts_ns t4 = ts_ns t3 + d - \<theta>" "0 \<le> d" "d < 20000"
    and rate: "g_nrr_ppb g = 0"
      "g_pdelay_pair_count g = 0 \<or> s64 (ts_ns t3 - g_prev_t3_ns g) = s64 (ts_ns t4 - g_prev_t4_ns g)"
    and mean: "0 \<le> g_mean_path_delay_ns g" "g_mean_path_delay_ns g < 20000"
  shows "let g' = fst (process_pdelay_resp_fup ptp (g, h))
    in g_mean_path_delay_ns g' = (if g_mean_path_delay_ns g = 0 then d else (g_mean_path_delay_ns g * 7 + d) div 8)
     \<and> g_pdelay_fup_received g' = 1 \<and> g_pdelay_lost_count g' = 0 \<and> g_pdelay_seq_id g' = g_pdelay_seq_id g + 1"
proof -
  have nrr: "nrr_update (g_pdelay_pair_count g) 0 (s64 (ts_ns t3 - g_prev_t3_ns g)) (s64 (ts_ns t4 - g_prev_t4_ns g)) = 0"
    using rate(2) by (auto simp: nrr_same_rate) (simp add: nrr_update_def)
  have ew: "s64 (s64 (g_mean_path_delay_ns g * 7) + d) sdiv 8 = (g_mean_path_delay_ns g * 7 + d) div 8"
    using mean link(3,4) by (simp add: s64_simps sdiv_nonneg)
  have dl: "pdelay_delay 0 (s64 (ts_ns t4 - ts_ns t1)) (s64 (ts_ns t3 - ts_ns t2)) = d"
    by (rule delay_measured [OF ok link])
  show ?thesis
    by (simp add: process_pdelay_resp_fup_def Let_def assms(1-6) rate(1) ts_diff_ns ok nrr dl ew link(3,4))
qed

section \<open>The Sync exchange\<close>

lemma servo_update_offset:
  "g_offset_from_master_ns (fst (gptp_servo_update (g, h))) = g_offset_from_master_ns g"
  "window_of (fst (gptp_servo_update (g, h))) hist = window_of g hist"
proof -
  have w: "window_of (servo_window now off g') hist = window_of g' hist" for now off g'
    using servo_window_core [of g' now off] by (simp add: window_of_def same_core_def)
  show "g_offset_from_master_ns (fst (gptp_servo_update (g, h))) = g_offset_from_master_ns g"
    by (simp add: gptp_servo_update_def servo_coarse_step_def gptp_uptime_ms_eq Let_def
        case_prod_unfold servo_window_other)
  show "window_of (fst (gptp_servo_update (g, h))) hist = window_of g hist"
    by (simp add: gptp_servo_update_def servo_coarse_step_def gptp_uptime_ms_eq Let_def
        case_prod_unfold w) (simp add: window_of_def)
qed

lemma follow_up_window:
  assumes "g_sync_received g \<noteq> 0" and "get_be16 ptp 30 = g_sync_seq_id g" and "window_of g hist"
  shows "let g' = fst (process_follow_up ptp (g, h)); w = last5 (hist @ [follow_up_offset ptp g])
    in window_of g' (hist @ [follow_up_offset ptp g]) \<and> g_offset_from_master_ns g' = sort w ! (length w div 2)"
proof -
  let ?x = "follow_up_offset ptp g"
  let ?g0 = "g\<lparr>g_sync_origin_ts := get_ptp_ts ptp 34\<rparr>"
  have "window_of ?g0 hist" using assms(3) by (simp add: window_of_def)
  from window_push [OF this, of ?x]
  have "window_of (median_push ?x ?g0) (hist @ [?x])"
    "g_offset_from_master_ns (median_push ?x ?g0) = sort (last5 (hist @ [?x])) ! (length (last5 (hist @ [?x])) div 2)"
    by blast+
  then show ?thesis
    using assms(1,2) by (simp add: process_follow_up_def Let_def servo_update_offset) (simp add: window_of_def)
qed

lemma sync_taken:
  assumes "gptp_header PTP_MSG_SYNC f" and "48 \<le> unat len"
  shows "\<exists>now cid port corr. fst (gptp_process_rx f len (g, h)) =
    g\<lparr>g_rx_last_msg_type := PTP_MSG_SYNC, g_rx_last_domain := GPTP_DOMAIN,
      g_rx_sync_count := g_rx_sync_count g + 1,
      g_sync_seq_id := get_be16 f 44, g_sync_correction := corr, g_sync_rx_ts := hw_rx_ts h,
      g_sync_received := 1, g_master_clock_id := cid, g_master_port_number := port,
      g_last_sync_time_ms := now,
      g_state := (if g_state g = GPTP_STATE_LISTENING then GPTP_STATE_SLAVE else g_state g)\<rparr>"
  by (subst gptp_rx_dispatch [OF assms(1) _ assms(2)])
     (simp_all add: PTP_MSG_SYNC_def Let_def process_sync_def gptp_uptime_ms_eq shift_reads
       gptp_read_rx_timestamp_def, blast)

lemma be64_signed_range: "- (2 ^ 63) \<le> get_be64_signed p o' \<and> get_be64_signed p o' < 2 ^ 63"
proof -
  have "sint w = s64 (uint w)" for w :: u64 by (simp add: sint_uint s64_def)
  then show ?thesis unfolding get_be64_signed_def using s64_range by metis
qed

lemma follow_up_offset_eq:
  assumes "ts_ok (g_sync_rx_ts g)" and "ts_ok (get_ptp_ts ptp 34)"
    and "0 \<le> g_mean_path_delay_ns g" and "g_mean_path_delay_ns g < 20000"
  shows "follow_up_offset ptp g = ts_ns (g_sync_rx_ts g) - ts_ns (get_ptp_ts ptp 34)
     - drop_bit 16 (get_be64_signed ptp 8) - g_mean_path_delay_ns g"
proof -
  define c where "c = drop_bit 16 (get_be64_signed ptp 8)"
  have c: "- (2 ^ 47) \<le> c \<and> c < 2 ^ 47"
  proof -
    have "- (2 ^ 63) div 2 ^ 16 \<le> get_be64_signed ptp 8 div 2 ^ 16"
      "get_be64_signed ptp 8 div 2 ^ 16 \<le> (2 ^ 63 - 1) div 2 ^ 16"
      using be64_signed_range [of ptp 8] by (intro zdiv_mono1; simp)+
    then show ?thesis unfolding c_def drop_bit_int_def by simp
  qed
  have "s64 (ts_ns (g_sync_rx_ts g) - ts_ns (get_ptp_ts ptp 34)) = ts_ns (g_sync_rx_ts g) - ts_ns (get_ptp_ts ptp 34)"
    by (rule ts_diff_s64 [OF assms(1,2)])
  then show ?thesis
    using ts_ok_bounds [OF assms(1)] ts_ok_bounds [OF assms(2)] c assms(3,4)
    by (simp add: follow_up_offset_def Let_def ts_diff_ns assms(1,2) c_def [symmetric] s64_simps)
qed


section \<open>The lock\<close>

definition servo_feed :: "int \<Rightarrow> gptp_t \<times> hw \<Rightarrow> gptp_t \<times> hw" where
  "servo_feed off = (\<lambda>(g, h). gptp_servo_update (g\<lparr>g_offset_from_master_ns := off\<rparr>, h))"

definition trailing_good :: "int list \<Rightarrow> nat" where
  "trailing_good offs = length (takeWhile (\<lambda>x. \<bar>x\<bar> < 500) (rev offs))"

lemma trailing_good_snoc:
  "trailing_good (offs @ [x]) = (if \<bar>x\<bar> < 500 then Suc (trailing_good offs) else 0)"
  by (simp add: trailing_good_def)

lemma servo_feed_step:
  assumes "g_servo_step_count g \<noteq> 0" and "\<bar>off\<bar> \<le> 500000000"
  shows "let g' = fst (servo_feed off (g, h))
    in g_servo_step_count g' = g_servo_step_count g + 1
     \<and> (g_servo_locked g', g_lock_sample_count g')
         = servo_lock \<bar>off\<bar> (g_servo_locked g) (g_lock_sample_count g)"
proof -
  have a: "abs64 off = \<bar>off\<bar>" using assms(2) by (auto simp: abs64_def s64_simps)
  have c: "g_lock_sample_count (servo_window now x g') = g_lock_sample_count g'" for now x g'
    using servo_window_core [of g' now x] by (simp add: same_core_def)
  have n: "\<not> 500000000 < off" "\<not> off < - 500000000" using assms(2) by auto
  show ?thesis
    using assms(1) by (simp add: servo_feed_def gptp_servo_update_def Let_def case_prod_unfold
        gptp_uptime_ms_eq servo_window_other a c n)
qed

lemma servo_lock_unlocked:
  assumes "n < 9"
  shows "servo_lock a 0 (of_nat n) = (if a < 500 then if n = 8 then (1, 8) else (0, of_nat (n + 1)) else (0, 0))"
proof -
  have "n = 0 \<or> n = 1 \<or> n = 2 \<or> n = 3 \<or> n = 4 \<or> n = 5 \<or> n = 6 \<or> n = 7 \<or> n = 8"
    using assms by linarith
  then show ?thesis by (elim disjE) (simp_all add: servo_lock_def)
qed

lemma step_count_nonzero:
  "s \<noteq> 0 \<Longrightarrow> unat s + n < 2 ^ 32 \<Longrightarrow> s + of_nat n \<noteq> (0 :: u32)"
proof -
  assume s: "s \<noteq> 0" and n: "unat s + n < 2 ^ 32"
  have "unat (s + of_nat n) = unat s + n"
    using n by (simp add: unat_word_ariths unsigned_of_nat take_bit_nat_eq_self)
  moreover have "0 < unat s" using s by (simp add: unat_gt_0)
  ultimately show "s + of_nat n \<noteq> 0" by (metis add_is_0 less_numeral_extra(3) unat_0)
qed

lemma servo_unlocked_run:
  assumes "g_servo_step_count g \<noteq> 0" and "unat (g_servo_step_count g) + length offs < 2 ^ 32"
    and "g_servo_locked g = 0" and "g_lock_sample_count g = 0"
    and "\<forall>x \<in> set offs. \<bar>x\<bar> \<le> 500000000"
    and "\<forall>k \<le> length offs. trailing_good (take k offs) < 9"
  shows "let g' = fst (fold servo_feed offs (g, h))
    in g_servo_step_count g' = g_servo_step_count g + of_nat (length offs)
     \<and> g_servo_locked g' = 0 \<and> g_lock_sample_count g' = of_nat (trailing_good offs)"
  using assms(2,5,6)
proof (induction offs rule: rev_induct)
  case Nil
  then show ?case using assms by (simp add: trailing_good_def)
next
  case (snoc x offs)
  have pre: "\<forall>k \<le> length offs. trailing_good (take k offs) < 9"
  proof (intro allI impI)
    fix k assume "k \<le> length offs"
    then show "trailing_good (take k offs) < 9" using snoc.prems(3) [rule_format, of k] by simp
  qed
  obtain g1 h1 where r: "fold servo_feed offs (g, h) = (g1, h1)" by fastforce
  have I: "g_servo_step_count g1 = g_servo_step_count g + of_nat (length offs)"
    "g_servo_locked g1 = 0" "g_lock_sample_count g1 = of_nat (trailing_good offs)"
    using snoc.IH [OF _ _ pre] snoc.prems r by (simp_all add: Let_def)
  have t: "trailing_good offs < 9" "trailing_good (offs @ [x]) < 9"
    using pre [rule_format, of "length offs"] snoc.prems(3) [rule_format, of "length (offs @ [x])"] by simp_all
  have "g_servo_step_count g1 \<noteq> 0"
    unfolding I using snoc.prems(1) by (intro step_count_nonzero [OF assms(1)]) simp
  from servo_feed_step [OF this, of x h1] snoc.prems(2)
  have "g_servo_step_count (fst (servo_feed x (g1, h1))) = g_servo_step_count g1 + 1"
    "(g_servo_locked (fst (servo_feed x (g1, h1))), g_lock_sample_count (fst (servo_feed x (g1, h1))))
       = servo_lock \<bar>x\<bar> 0 (of_nat (trailing_good offs))"
    by (simp_all add: Let_def I)
  then show ?case
    using t unfolding servo_lock_unlocked [OF t(1)]
    by (auto simp: r I trailing_good_snoc Let_def split: if_splits)
qed

section \<open>The coarse step\<close>

lemma servo_step_target_ns:
  assumes "0 \<le> g_mean_path_delay_ns g" and "g_mean_path_delay_ns g < 20000"
    and "ts_ok (g_sync_origin_ts g)" and "nanoseconds (g_sync_origin_ts g) < 1000000000"
  shows "ts_ns (servo_step_target g) = ts_ns (g_sync_origin_ts g) + g_mean_path_delay_ns g
    \<and> nanoseconds (servo_step_target g) < 1000000000"
proof -
  let ?t = "g_sync_origin_ts g" and ?m = "g_mean_path_delay_ns g"
  define n where "n = uint (nanoseconds ?t)"
  define a :: u64 where "a = ucast (nanoseconds ?t) + word_of_int ?m"
  have n: "0 \<le> n" "n < 1000000000" using assms(4) by (simp_all add: n_def word_less_def)
  have s: "uint (seconds ?t) < 8589934592" using assms(3) by (simp add: ts_ok_def word_less_def)
  have un: "uint (ucast (nanoseconds ?t) :: u64) = n"
    using n by (simp add: n_def unsigned_ucast_eq take_bit_int_eq_self)
  have um: "uint (word_of_int ?m :: u64) = ?m"
    using assms(1,2) by (simp add: uint_word_of_int_eq take_bit_int_eq_self)
  have a: "uint a = n + ?m"
    using n assms(1,2) unfolding a_def by (simp add: uint_word_ariths un um)
  show ?thesis
  proof (cases "1000000000 \<le> a")
    case True
    then have g: "1000000000 \<le> n + ?m" by (simp add: word_le_def a)
    have "(n + ?m) mod 1000000000 = n + ?m - 1000000000"
      using minus_mod_self2 [of "n + ?m" 1000000000] g n assms(1,2)
        mod_pos_pos_trivial [of "n + ?m - 1000000000" 1000000000] by linarith
    then have q: "uint (a div 1000000000) = 1" "uint (a mod 1000000000) = n + ?m - 1000000000"
      using g n assms(1,2) by (simp_all add: uint_div_distrib uint_mod_distrib a)
    have "uint (seconds ?t + a div 1000000000) = uint (seconds ?t) + 1"
      using s by (simp add: uint_word_ariths q)
    moreover have "uint (ucast (a mod 1000000000) :: u32) = n + ?m - 1000000000"
      using g n assms(1,2) by (simp add: unsigned_ucast_eq q take_bit_int_eq_self)
    ultimately show ?thesis
      using True g n assms(1,2)
      by (simp add: servo_step_target_def Let_def a_def [symmetric] ts_ns_def n_def [symmetric] word_less_def)
  next
    case False
    then have g: "n + ?m < 1000000000" by (simp add: word_le_def a)
    have "uint (ucast a :: u32) = n + ?m"
      using g n assms(1,2) by (simp add: unsigned_ucast_eq a take_bit_int_eq_self)
    then show ?thesis
      using False g
      by (simp add: servo_step_target_def Let_def a_def [symmetric] ts_ns_def n_def [symmetric] word_less_def)
  qed
qed

section \<open>Frames long enough\<close>

lemma get_be64_signed_agree:
  "(\<And>i. a \<le> i \<Longrightarrow> i < a + 8 \<Longrightarrow> m i = m' i) \<Longrightarrow> get_be64_signed m a = get_be64_signed m' a"
  by (simp add: get_be64_signed_def)

lemma get_ptp_ts_agree:
  "(\<And>i. a \<le> i \<Longrightarrow> i < a + 10 \<Longrightarrow> m i = m' i) \<Longrightarrow> get_ptp_ts m a = get_ptp_ts m' a"
  unfolding get_ptp_ts_def by (simp add: get_be48_agree [of a m m'] get_be32_agree [of "a + 6" m m'])

lemma handlers_agree:
  assumes "\<And>i. i < 54 \<Longrightarrow> p i = q i"
  shows "process_sync p s = process_sync q s" "process_follow_up p s = process_follow_up q s"
    "process_pdelay_req p s = process_pdelay_req q s" "process_pdelay_resp p s = process_pdelay_resp q s"
    "process_pdelay_resp_fup p s = process_pdelay_resp_fup q s"
proof -
  have r: "get_be16 p 30 = get_be16 q 30" "get_be64_signed p 8 = get_be64_signed q 8"
    "bytes p 20 8 = bytes q 20 8" "get_be16 p 28 = get_be16 q 28" "get_ptp_ts p 34 = get_ptp_ts q 34"
    "bytes p 20 10 = bytes q 20 10" "bytes p 44 8 = bytes q 44 8"
    by (auto intro!: get_be16_agree get_be64_signed_agree bytes_cong get_ptp_ts_agree assms)
  show "process_sync p s = process_sync q s" "process_follow_up p s = process_follow_up q s"
    "process_pdelay_req p s = process_pdelay_req q s" "process_pdelay_resp p s = process_pdelay_resp q s"
    "process_pdelay_resp_fup p s = process_pdelay_resp_fup q s"
    by (simp_all add: process_sync_def process_follow_up_def follow_up_offset_def process_pdelay_req_def
        gptp_send_pdelay_resp_def gptp_send_pdelay_resp_fup_def process_pdelay_resp_def
        process_pdelay_resp_fup_def r cong: if_cong)
qed

lemma announce_agree:
  assumes "\<And>i. i < unat n \<Longrightarrow> p i = q i"
  shows "process_announce p n g = process_announce q n g"
proof (cases "34 + 30 \<le> n")
  case True
  then have "64 \<le> unat n" by (simp add: word_le_nat_alt)
  then have "get_be16 p 50 = get_be16 q 50" "bytes p 53 8 = bytes q 53 8" "p 47 = q 47" "p 48 = q 48"
    "p 49 = q 49" "p 52 = q 52"
    by (auto intro!: get_be16_agree bytes_cong assms)
  then show ?thesis by (simp add: process_announce_def)
next
  case False
  then show ?thesis by (simp add: process_announce_def)
qed

lemma process_rx_agree:
  assumes "68 \<le> unat len" and "\<And>i. i < unat len \<Longrightarrow> f i = f' i"
  shows "gptp_process_rx f len s = gptp_process_rx f' len s"
proof -
  have p: "f (14 + i) = f' (14 + i)" if "i < 54" for i using assms that by simp
  have "unat (len - 14) = unat len - 14" using assms(1) by (simp add: unat_sub word_le_nat_alt)
  then have q: "f (14 + i) = f' (14 + i)" if "i < unat (len - 14)" for i using assms that by simp
  have r: "get_be16 f 12 = get_be16 f' 12" "f 14 = f' 14" "f 18 = f' 18"
    using assms by (auto intro!: get_be16_agree)
  show ?thesis
    unfolding gptp_process_rx_def Let_def
    by (simp add: r handlers_agree [of "\<lambda>i. f (14 + i)" "\<lambda>i. f' (14 + i)", OF p]
        announce_agree [of "len - 14" "\<lambda>i. f (14 + i)" "\<lambda>i. f' (14 + i)", OF q] cong: if_cong)
qed


section \<open>The state machine\<close>

inductive gptp_step :: "gptp_t \<times> hw \<Rightarrow> gptp_t \<times> hw \<Rightarrow> bool" where
  rx: "gptp_step s (gptp_process_rx frame len s)"
| poll: "gptp_step s (gptp_poll s)"
| arrival: "gptp_step (g, h) (g, h\<lparr>hw_rx_ts := t\<rparr>)"

inductive_cases gptp_stepE: "gptp_step s s'"

lemma gptp_step_ok: "gptp_step s s' \<Longrightarrow> gptp_ok s \<Longrightarrow> gptp_ok s'"
proof (induction rule: gptp_step.induct)
  case (rx s frame len)
  then show ?case by (cases s) (simp add: process_rx_ok)
next
  case (poll s)
  then show ?case by (cases s) (simp add: poll_ok)
next
  case (arrival g h t)
  then show ?case by (simp add: gptp_ok_def)
qed

lemma gptp_init_ok: "gptp_ok (gptp_init mac h)"
  using gptp_base_addend_bounds
  by (auto simp: gptp_ok_def gptp_init_def gptp_zero_def gptp_set_addend_full_def window_of_def
      ring5_def SERVO_INTEGRAL_CLAMP_NS_def intro!: exI [of _ "[] :: int list"])

lemma servo_update_state: "g_state (fst (gptp_servo_update (g, h))) = g_state g"
proof -
  have "g_state (servo_window now off g') = g_state g'" for now off g'
    by (simp add: servo_window_def Let_def)
  then show ?thesis
    by (simp add: gptp_servo_update_def servo_coarse_step_def gptp_uptime_ms_eq Let_def case_prod_unfold)
qed

lemma handlers_state:
  "g_state (fst (process_follow_up p (g, h))) = g_state g"
  "g_state (fst (process_pdelay_req p (g, h))) = g_state g"
  "g_state (fst (process_pdelay_resp p (g, h))) = g_state g"
  "g_state (fst (process_pdelay_resp_fup p (g, h))) = g_state g"
  "g_state (process_announce p n g) = g_state g"
  "g_state (fst (process_sync p (g, h))) = (if g_state g = GPTP_STATE_LISTENING then GPTP_STATE_SLAVE else g_state g)"
  by (simp_all add: process_follow_up_def servo_update_state median_push_def process_pdelay_req_def
      process_pdelay_resp_def process_pdelay_resp_fup_def process_announce_def process_sync_def
      gptp_uptime_ms_eq Let_def)

section \<open>Properties\<close>

text \<open>
  C11.  Whatever frames arrive (malformed and short ones included), at whatever times the
  node is polled: the mean path delay stays in [0, 20000) ns, the neighbour rate ratio
  within 10000 ppb, the servo integral within its clamp, the addend in [1, 2^52) and equal
  to what the TSU registers hold, and the node never returns to the initial state.
\<close>

theorem gptp_invariant:
  assumes "gptp_step\<^sup>*\<^sup>* (gptp_init mac h0) (g, h)"
  shows "g_state g \<noteq> GPTP_STATE_INIT
    \<and> 0 \<le> g_mean_path_delay_ns g \<and> g_mean_path_delay_ns g < 20000
    \<and> \<bar>g_nrr_ppb g\<bar> < 10000 \<and> \<bar>g_freq_integral g\<bar> \<le> SERVO_INTEGRAL_CLAMP_NS
    \<and> 0 < g_current_addend_full g \<and> g_current_addend_full g < 2 ^ 52
    \<and> hw_addend h = ucast (drop_bit 20 (g_current_addend_full g))
    \<and> hw_addend_frac h = ucast (g_current_addend_full g AND 0xFFFFF)"
proof -
  have "gptp_ok s" if "gptp_step\<^sup>*\<^sup>* (gptp_init mac h0) s" for s
    using that by (induction rule: rtranclp_induct) (auto intro: gptp_init_ok gptp_step_ok)
  from this [OF assms] show ?thesis by (auto simp: gptp_ok_def)
qed

definition demo_mac :: "u8 list" where "demo_mac = [2, 0, 0, 0, 0, 1]"
definition demo_peer_mac :: "u8 list" where "demo_peer_mac = [2, 0, 0, 0, 0, 2]"

theorem gptp_invariant_witness:
  "g_mean_path_delay_ns (fst (gptp_poll (gptp_init demo_mac hw0))) < 20000"
  using gptp_invariant [of demo_mac hw0 "fst (gptp_poll (gptp_init demo_mac hw0))"
      "snd (gptp_poll (gptp_init demo_mac hw0))"] gptp_step.poll [of "gptp_init demo_mac hw0"]
  by (simp add: r_into_rtranclp)

text \<open>
  C4.  Peer delay, end to end between two nodes running this code: the initiator's request
  frame, the responder's two answers to it and their processing by the initiator measure
  the one-way delay \<open>d\<close> of a symmetric link exactly, whatever the offset \<open>\<theta>\<close> between the
  two clocks, and fold it into the running mean with weight 1/8.
\<close>

theorem pdelay_exchange_measures_delay:
  assumes ids: "gptp_ids_ok a" "gptp_ids_ok b"
    and req: "gptp_send_pdelay_req (a, ha) = (a1, ha1)"
    and ans: "gptp_process_rx (mem_of (last (hw_sent ha1))) 68 (b, hb\<lparr>hw_rx_ts := t2\<rparr>) = (b1, hb1)"
    and resp: "gptp_process_rx (mem_of (hw_sent hb1 ! length (hw_sent hb))) 68 (a1, ha1\<lparr>hw_rx_ts := t4\<rparr>) = (a2, ha2)"
    and fup: "gptp_process_rx (mem_of (hw_sent hb1 ! Suc (length (hw_sent hb)))) 68 (a2, ha2) = (a3, ha3)"
    and t1: "t1 = hw_tx_ts ha (Suc (length (hw_sent ha)))"
    and t3: "t3 = hw_tx_ts hb (Suc (length (hw_sent hb)))"
    and ok: "ts_ok t1" "ts_ok t2" "ts_ok t3" "ts_ok t4"
    and link: "ts_ns t2 = ts_ns t1 + d + \<theta>" "ts_ns t4 = ts_ns t3 + d - \<theta>" "0 \<le> d" "d < 20000"
    and rate: "g_nrr_ppb a = 0" "g_pdelay_pair_count a = 0 \<or> s64 (ts_ns t3 - g_prev_t3_ns a) = s64 (ts_ns t4 - g_prev_t4_ns a)"
    and mean: "0 \<le> g_mean_path_delay_ns a" "g_mean_path_delay_ns a < 20000"
  shows "g_mean_path_delay_ns a3 = (if g_mean_path_delay_ns a = 0 then d else (g_mean_path_delay_ns a * 7 + d) div 8)
    \<and> g_pdelay_fup_received a3 = 1 \<and> g_pdelay_lost_count a3 = 0
    \<and> g_pdelay_seq_id a3 = g_pdelay_seq_id a + 1"
proof -
  let ?seq = "g_pdelay_seq_id a"
  obtain now where sent: "hw_sent ha1 = hw_sent ha @ [gptp_packet a PTP_MSG_PDELAY_REQ ?seq (zeros 20)]"
    and a1: "a1 = a\<lparr>g_pdelay_resp_received := 0, g_pdelay_fup_received := 0, g_pdelay_t1 := t1,
      g_last_pdelay_time_ms := now, g_pdelay_count := g_pdelay_count a + 1\<rparr>"
    using send_pdelay_req_eq [OF ids(1), of ha] req t1 by (auto simp: Let_def)
  have cid: "g_clock_id a1 = g_clock_id a" "g_port_number a1 = g_port_number a" "gptp_ids_ok a1"
    "g_pdelay_seq_id a1 = ?seq" "length (g_clock_id a) = 8"
    using ids(1) by (simp_all add: a1 gptp_ids_ok_def)
  have bs: "hw_sent hb1 = hw_sent hb
       @ [gptp_packet b PTP_MSG_PDELAY_RESP ?seq (put_ptp_ts t2 @ g_clock_id a1 @ put_be16 (g_port_number a1)),
          gptp_packet b PTP_MSG_PDELAY_RESP_FUP ?seq (put_ptp_ts t3 @ g_clock_id a1 @ put_be16 (g_port_number a1))]"
    using peer_answers [OF ids, of ?seq "hb\<lparr>hw_rx_ts := t2\<rparr>"] ans by (simp add: sent t3 cid)
  have a2: "a2 = a1\<lparr>g_rx_last_msg_type := PTP_MSG_PDELAY_RESP, g_rx_last_domain := GPTP_DOMAIN,
         g_rx_pdelay_resp_count := g_rx_pdelay_resp_count a1 + 1,
         g_pdelay_t4 := t4, g_pdelay_t2 := t2, g_pdelay_resp_received := 1\<rparr>"
    using resp_taken [OF cid(3) ids(2) ok(2) cid(4), of "ha1\<lparr>hw_rx_ts := t4\<rparr>"] resp
    by (simp add: bs nth_append)
  have sid2: "g_pdelay_seq_id a2 = ?seq" by (simp add: a2 cid)
  have lc: "length (g_clock_id a1) = 8" using cid by simp
  from fup_taken [OF ids(2) lc ok(3) sid2, of "g_port_number a1" ha2]
  obtain ptp a2' where f: "process_pdelay_resp_fup ptp (a2', ha2) = (a3, ha3)"
    "get_be16 ptp 30 = ?seq" "get_ptp_ts ptp 34 = t3"
    "a2' = a2\<lparr>g_rx_last_msg_type := PTP_MSG_PDELAY_RESP_FUP, g_rx_last_domain := GPTP_DOMAIN,
           g_rx_pdelay_resp_fup_count := g_rx_pdelay_resp_fup_count a2 + 1\<rparr>"
    using fup by (auto simp: bs nth_append)
  have rr: "get_be16 ptp 30 = g_pdelay_seq_id a2'" "g_pdelay_resp_received a2' \<noteq> 0"
    "g_pdelay_t1 a2' = t1" "g_pdelay_t2 a2' = t2" "get_ptp_ts ptp 34 = t3" "g_pdelay_t4 a2' = t4"
    by (simp_all add: f a2 a1)
  have old: "g_nrr_ppb a2' = g_nrr_ppb a" "g_pdelay_pair_count a2' = g_pdelay_pair_count a"
    "g_prev_t3_ns a2' = g_prev_t3_ns a" "g_prev_t4_ns a2' = g_prev_t4_ns a"
    "g_mean_path_delay_ns a2' = g_mean_path_delay_ns a" "g_pdelay_seq_id a2' = g_pdelay_seq_id a"
    by (simp_all add: f(4) a2 a1)
  show ?thesis
    using fup_measures [OF rr ok link, unfolded old, OF rate mean, of ha2] by (simp add: f(1) Let_def)
qed

definition demo_a :: gptp_t where "demo_a = fst (gptp_init demo_mac hw0)"
definition demo_b :: gptp_t where "demo_b = fst (gptp_init demo_peer_mac hw0)"

lemma demo_ids: "gptp_ids_ok demo_a" "gptp_ids_ok demo_b"
  by (simp_all add: demo_a_def demo_b_def gptp_init_def gptp_ids_ok_def demo_mac_def demo_peer_mac_def)

definition demo_exchange :: "gptp_t \<times> hw" where
  "demo_exchange =
     (let ha = hw0\<lparr>hw_tx_ts := \<lambda>_. \<lparr>seconds = 100, nanoseconds = 0\<rparr>\<rparr>;
          hb = hw0\<lparr>hw_tx_ts := \<lambda>_. \<lparr>seconds = 200, nanoseconds = 5000\<rparr>\<rparr>;
          s1 = gptp_send_pdelay_req (demo_a, ha);
          r = gptp_process_rx (mem_of (last (hw_sent (snd s1)))) 68
                (demo_b, hb\<lparr>hw_rx_ts := \<lparr>seconds = 200, nanoseconds = 500\<rparr>\<rparr>);
          s2 = gptp_process_rx (mem_of (hw_sent (snd r) ! length (hw_sent hb))) 68
                (fst s1, (snd s1)\<lparr>hw_rx_ts := \<lparr>seconds = 100, nanoseconds = 5500\<rparr>\<rparr>)
      in gptp_process_rx (mem_of (hw_sent (snd r) ! Suc (length (hw_sent hb)))) 68 (fst s2, snd s2))"

theorem pdelay_exchange_measures_delay_witness:
  "g_mean_path_delay_ns (fst demo_exchange) = 500"
proof -
  have z: "g_nrr_ppb demo_a = 0" "g_pdelay_pair_count demo_a = 0" "g_mean_path_delay_ns demo_a = 0"
    by (simp_all add: demo_a_def gptp_init_def gptp_zero_def)
  show ?thesis
    unfolding demo_exchange_def Let_def
    using pdelay_exchange_measures_delay
        [where ha = "hw0\<lparr>hw_tx_ts := \<lambda>_. \<lparr>seconds = 100, nanoseconds = 0\<rparr>\<rparr>"
          and hb = "hw0\<lparr>hw_tx_ts := \<lambda>_. \<lparr>seconds = 200, nanoseconds = 5000\<rparr>\<rparr>"
          and ?t2.0 = "\<lparr>seconds = 200, nanoseconds = 500\<rparr>" and ?t4.0 = "\<lparr>seconds = 100, nanoseconds = 5500\<rparr>"
          and d = 500 and \<theta> = 100000000000,
         OF demo_ids prod.collapse [symmetric] prod.collapse [symmetric]
          prod.collapse [symmetric] prod.collapse [symmetric] refl refl]
    by (simp add: z ts_ok_def ts_ns_def)
qed

text \<open>
  C9.  Sync, end to end: a Sync frame and the Follow_Up that matches it, on a link whose
  path delay the node has measured and with the correction \<open>c\<close> accumulated by bridges,
  put exactly the offset \<open>\<theta>\<close> between the two clocks into the filter, and the servo is fed
  the median of the last five offsets.
\<close>

theorem sync_exchange_measures_offset:
  assumes f1: "gptp_header PTP_MSG_SYNC f1" "48 \<le> unat len1"
    and f2: "gptp_header PTP_MSG_FOLLOW_UP f2" "48 \<le> unat len2" "get_be16 f2 44 = get_be16 f1 44"
    and s1: "gptp_process_rx f1 len1 (g, h) = (g1, h1)"
    and s2: "gptp_process_rx f2 len2 (g1, h2) = (g2, h3)"
    and ok: "ts_ok (hw_rx_ts h)" "ts_ok (get_ptp_ts f2 48)"
    and mean: "0 \<le> g_mean_path_delay_ns g" "g_mean_path_delay_ns g < 20000"
    and link: "ts_ns (hw_rx_ts h) = ts_ns (get_ptp_ts f2 48) + drop_bit 16 (get_be64_signed f2 22)
        + g_mean_path_delay_ns g + \<theta>"
    and win: "window_of g hist"
  shows "window_of g2 (hist @ [\<theta>])
    \<and> g_offset_from_master_ns g2 = sort (last5 (hist @ [\<theta>])) ! (length (last5 (hist @ [\<theta>])) div 2)"
proof -
  obtain now cid port corr where g1: "g1 = g\<lparr>g_rx_last_msg_type := PTP_MSG_SYNC, g_rx_last_domain := GPTP_DOMAIN,
      g_rx_sync_count := g_rx_sync_count g + 1,
      g_sync_seq_id := get_be16 f1 44, g_sync_correction := corr, g_sync_rx_ts := hw_rx_ts h,
      g_sync_received := 1, g_master_clock_id := cid, g_master_port_number := port,
      g_last_sync_time_ms := now,
      g_state := (if g_state g = GPTP_STATE_LISTENING then GPTP_STATE_SLAVE else g_state g)\<rparr>"
    using sync_taken [OF f1, of g h] s1 by auto
  let ?p = "\<lambda>i. f2 (14 + i)"
  let ?g = "g1\<lparr>g_rx_last_msg_type := PTP_MSG_FOLLOW_UP, g_rx_last_domain := GPTP_DOMAIN,
      g_rx_followup_count := g_rx_followup_count g1 + 1\<rparr>"
  have g2: "g2 = fst (process_follow_up ?p (?g, h2))"
    using s2 by (subst (asm) gptp_rx_dispatch [OF f2(1) _ f2(2)])
      (simp_all add: PTP_MSG_FOLLOW_UP_def PTP_MSG_SYNC_def Let_def)
  have off: "follow_up_offset ?p ?g = \<theta>"
    using link by (subst follow_up_offset_eq) (simp_all add: g1 shift_reads ok mean)
  have w: "window_of ?g hist" using win by (simp add: g1 window_of_def)
  show ?thesis
    using follow_up_window [of ?g ?p hist h2, OF _ _ w] f2(3) unfolding g2 off
    by (simp add: g1 shift_reads Let_def)
qed


definition demo_sync :: mem where
  "demo_sync = mem_of (gptp_packet demo_b PTP_MSG_SYNC 7 (zeros 20))"

definition demo_follow_up :: mem where
  "demo_follow_up = mem_of (gptp_packet demo_b PTP_MSG_FOLLOW_UP 7
     (put_ptp_ts \<lparr>seconds = 300, nanoseconds = 0\<rparr> @ zeros 10))"

lemma demo_sync_facts:
  "gptp_header PTP_MSG_SYNC demo_sync" "gptp_header PTP_MSG_FOLLOW_UP demo_follow_up"
  "get_be16 demo_sync 44 = 7" "get_be16 demo_follow_up 44 = 7"
  "get_be64_signed demo_follow_up 22 = 0"
  "get_ptp_ts demo_follow_up 48 = \<lparr>seconds = 300, nanoseconds = 0\<rparr>"
proof -
  let ?b = "put_ptp_ts \<lparr>seconds = 300, nanoseconds = 0\<rparr> @ zeros 10"
  have l: "length (zeros 20) = 20" "length ?b = 20" by simp_all
  note f = gptp_packet_fields [OF demo_ids(2) l(2), of PTP_MSG_FOLLOW_UP 7]
  show "gptp_header PTP_MSG_SYNC demo_sync"
    unfolding demo_sync_def by (rule gptp_packet_header [OF demo_ids(2) l(1)]) (simp add: PTP_MSG_SYNC_def)
  show "gptp_header PTP_MSG_FOLLOW_UP demo_follow_up"
    unfolding demo_follow_up_def by (rule gptp_packet_header [OF demo_ids(2) l(2)]) (simp add: PTP_MSG_FOLLOW_UP_def)
  show "get_be16 demo_sync 44 = 7"
    unfolding demo_sync_def by (rule gptp_packet_fields(4) [OF demo_ids(2) l(1)])
  show "get_be16 demo_follow_up 44 = 7" unfolding demo_follow_up_def by (rule f(4))
  have "bytes demo_follow_up 22 8 ! k = 0" if "k < 8" for k
    using that unfolding demo_follow_up_def f(7) by (simp add: zeros_def)
  then have "demo_follow_up (22 + k) = 0" if "k < 8" for k using that by simp
  from this [of 0] this [of 1] this [of 2] this [of 3] this [of 4] this [of 5] this [of 6] this [of 7]
  show "get_be64_signed demo_follow_up 22 = 0" by (simp add: get_be64_signed_def)
  have "bytes demo_follow_up 48 (10 + 10) = ?b" using f(6) by (simp add: demo_follow_up_def)
  then have "bytes demo_follow_up 48 10 = put_ptp_ts \<lparr>seconds = 300, nanoseconds = 0\<rparr>"
    unfolding bytes_add by simp
  then show "get_ptp_ts demo_follow_up 48 = \<lparr>seconds = 300, nanoseconds = 0\<rparr>"
    by (rule get_put_ptp_ts) simp
qed

theorem sync_exchange_measures_offset_witness:
  "g_offset_from_master_ns (fst (gptp_process_rx demo_follow_up 68
     (fst (gptp_process_rx demo_sync 68 (demo_a, hw0\<lparr>hw_rx_ts := \<lparr>seconds = 300, nanoseconds = 42\<rparr>\<rparr>)), hw0))) = 42"
proof -
  have w: "window_of demo_a []"
    by (simp add: window_of_def ring5_def demo_a_def gptp_init_def gptp_zero_def)
  have z: "g_mean_path_delay_ns demo_a = 0" by (simp add: demo_a_def gptp_init_def gptp_zero_def)
  have e: "get_be16 demo_follow_up 44 = get_be16 demo_sync 44" by (simp add: demo_sync_facts)
  show ?thesis
    using sync_exchange_measures_offset [where ?len1.0 = 68 and ?len2.0 = 68
          and h = "hw0\<lparr>hw_rx_ts := \<lparr>seconds = 300, nanoseconds = 42\<rparr>\<rparr>" and ?h2.0 = hw0 and \<theta> = 42,
        OF demo_sync_facts(1) _ demo_sync_facts(2) _ e prod.collapse [symmetric]
          prod.collapse [symmetric] _ _ _ _ _ w]
    by (simp add: demo_sync_facts z ts_ok_def ts_ns_def last5_def)
qed

text \<open>
  The in-place sort of the filter is a sort: the element it picks is the median.
\<close>

theorem median_sort_correct: "insertion_sort xs = sort xs"
  by (rule insertion_sort_sort)

text \<open>
  C32.  Outlier rejection: once five offsets are in the filter, up to two of the last five
  may be arbitrary; the servo input stays in any interval that holds the other three.
\<close>

theorem median_rejects_outliers:
  assumes "g_sync_received g \<noteq> 0" and "get_be16 ptp 30 = g_sync_seq_id g"
    and "window_of g hist" and "4 \<le> length hist"
    and "3 \<le> length (filter (\<lambda>x. lo \<le> x \<and> x \<le> hi) (last5 (hist @ [follow_up_offset ptp g])))"
  shows "lo \<le> g_offset_from_master_ns (fst (process_follow_up ptp (g, h)))
    \<and> g_offset_from_master_ns (fst (process_follow_up ptp (g, h))) \<le> hi"
proof -
  have l: "length (last5 (hist @ [follow_up_offset ptp g])) = 5"
    using assms(4) by (simp add: last5_def)
  show ?thesis
    using follow_up_window [OF assms(1-3), of h] sort_middle [OF l assms(5)] by (simp add: Let_def l)
qed

theorem median_rejects_outliers_witness:
  "g_offset_from_master_ns (fst (process_follow_up (\<lambda>_. 0)
     (fold median_push [0, 0, 0, 0] (gptp_zero\<lparr>g_sync_received := 1,
        g_sync_rx_ts := \<lparr>seconds = 5, nanoseconds = 0\<rparr>\<rparr>), hw0))) = 0"
proof -
  let ?g = "gptp_zero\<lparr>g_sync_received := 1, g_sync_rx_ts := \<lparr>seconds = 5, nanoseconds = 0\<rparr>\<rparr>"
  have "window_of ?g []" by (simp add: window_of_def ring5_def gptp_zero_def)
  then have w: "window_of (fold median_push [0, 0, 0, 0] ?g) [0, 0, 0, 0]"
    using window_push by (simp, metis append_Cons append_Nil)
  have s: "g_sync_received (fold median_push [0, 0, 0, 0] ?g) \<noteq> 0"
    "get_be16 (\<lambda>_. 0) 30 = g_sync_seq_id (fold median_push [0, 0, 0, 0] ?g)"
    by (simp_all add: median_push_def Let_def gptp_zero_def get_be16_def)
  show ?thesis
    using median_rejects_outliers [OF s w, of 0 0 hw0] by (simp add: last5_def)
qed

text \<open>
  Lock acquisition: over any run of offsets within the step threshold, an unlocked
  servo stays unlocked as long as there are not nine in a row below 500 ns, and locks
  exactly at the ninth.
\<close>

theorem gptp_lock_after_nine:
  assumes "g_servo_step_count g \<noteq> 0" and "unat (g_servo_step_count g) + length offs < 2 ^ 32"
    and "g_servo_locked g = 0" and "g_lock_sample_count g = 0"
    and "\<forall>x \<in> set (offs @ [off]). \<bar>x\<bar> \<le> 500000000"
    and "\<forall>k \<le> length offs. trailing_good (take k offs) < 9"
  shows "g_servo_locked (fst (fold servo_feed offs (g, h))) = 0
    \<and> (g_servo_locked (fst (fold servo_feed (offs @ [off]) (g, h))) \<noteq> 0
         \<longleftrightarrow> trailing_good (offs @ [off]) = 9)"
proof -
  obtain g1 h1 where r: "fold servo_feed offs (g, h) = (g1, h1)" by fastforce
  have I: "g_servo_step_count g1 = g_servo_step_count g + of_nat (length offs)"
    "g_servo_locked g1 = 0" "g_lock_sample_count g1 = of_nat (trailing_good offs)"
    using servo_unlocked_run [OF assms(1-4) _ assms(6), of h] assms(5) r by (simp_all add: Let_def)
  have t: "trailing_good offs < 9" using assms(6) [rule_format, of "length offs"] by simp
  have "g_servo_step_count g1 \<noteq> 0" unfolding I by (rule step_count_nonzero [OF assms(1,2)])
  from servo_feed_step [OF this, of off h1] assms(5)
  have "(g_servo_locked (fst (servo_feed off (g1, h1))), g_lock_sample_count (fst (servo_feed off (g1, h1))))
       = servo_lock \<bar>off\<bar> 0 (of_nat (trailing_good offs))"
    by (simp add: Let_def I)
  then show ?thesis
    using t unfolding servo_lock_unlocked [OF t]
    by (auto simp: r I trailing_good_snoc split: if_splits)
qed

theorem gptp_lock_after_nine_witness:
  "g_servo_locked (fst (fold servo_feed (replicate 8 0 @ [100]) (gptp_zero\<lparr>g_servo_step_count := 1\<rparr>, hw0))) \<noteq> 0"
proof -
  have t: "trailing_good (replicate n 0) = n" for n
    by (simp add: trailing_good_def takeWhile_replicate)
  have "trailing_good (replicate 8 0 @ [100]) = 9" by (simp add: trailing_good_snoc t)
  moreover have "\<forall>k \<le> length (replicate 8 (0 :: int)). trailing_good (take k (replicate 8 0)) < 9"
    by (simp add: t min_def)
  ultimately show ?thesis
    using gptp_lock_after_nine [of "gptp_zero\<lparr>g_servo_step_count := 1\<rparr>" "replicate 8 0" 100 hw0]
    by (simp add: gptp_zero_def)
qed

text \<open>
  The coarse step: the first offset, and any beyond half a second, sets the TSU to the
  master's time plus the path delay (a normalised time stamp), puts the addend back to
  nominal, clears the integral and restarts both age stamps in the new time base.
\<close>

theorem gptp_coarse_step:
  assumes "g_servo_step_count g = 0 \<or> 500000000 < \<bar>g_offset_from_master_ns g\<bar>"
    and "0 \<le> g_mean_path_delay_ns g" and "g_mean_path_delay_ns g < 20000"
    and "ts_ok (g_sync_origin_ts g)" and "nanoseconds (g_sync_origin_ts g) < 1000000000"
    and "gptp_servo_update (g, h) = (g', h')"
  shows "\<exists>t. hw_steps h' = hw_steps h @ [t]
      \<and> ts_ns t = ts_ns (g_sync_origin_ts g) + g_mean_path_delay_ns g
      \<and> nanoseconds t < 1000000000
    \<and> g_freq_integral g' = 0 \<and> g_servo_step_count g' = 1
    \<and> g_current_addend_full g' = g_base_addend_full g
    \<and> g_last_sync_time_ms g' = ts_to_ms (peek_time h) \<and> g_last_pdelay_time_ms g' = ts_to_ms (peek_time h)"
proof -
  have c: "gptp_servo_update (g, h) = servo_coarse_step (g, h)"
    using assms(1) by (auto simp: gptp_servo_update_def Let_def)
  have s: "ts_ns (servo_step_target g) = ts_ns (g_sync_origin_ts g) + g_mean_path_delay_ns g
      \<and> nanoseconds (servo_step_target g) < 1000000000"
    by (rule servo_step_target_ns [OF assms(2-5)])
  have "g' = fst (servo_coarse_step (g, h))" "h' = snd (servo_coarse_step (g, h))"
    using assms(6) c by simp_all
  then show ?thesis
    using s by (simp add: servo_coarse_step_def gptp_uptime_ms_eq Let_def gptp_set_addend_full_def
        gptp_step_time_def)
qed

theorem gptp_coarse_step_witness:
  "\<exists>t. hw_steps (snd (gptp_servo_update (gptp_zero\<lparr>g_mean_path_delay_ns := 700\<rparr>, hw0))) = [t] \<and> ts_ns t = 700"
  using gptp_coarse_step [OF _ _ _ _ _ prod.collapse [symmetric], of "gptp_zero\<lparr>g_mean_path_delay_ns := 700\<rparr>" hw0]
  by (auto simp: gptp_zero_def ptp0_def ts_ok_def ts_ns_def hw0_def)

text \<open>
  C31.  The state machine: reception moves LISTENING to SLAVE exactly on a Sync of domain 0
  that is long enough, and changes the state in no other way; polling moves SLAVE to
  LISTENING (dropping the lock) exactly when the last Sync is more than 3000 ms old, and
  sends a delay request exactly when the interval has elapsed.
\<close>

theorem gptp_state_machine:
  "g_state (fst (gptp_process_rx f len (g, h))) =
     (if g_state g = GPTP_STATE_LISTENING \<and> \<not> len < 48 \<and> get_be16 f 12 = PTP_ETHERTYPE
         \<and> drop_bit 4 (f 14) = 1 \<and> f 14 AND 0x0F = PTP_MSG_SYNC \<and> f 18 = GPTP_DOMAIN
      then GPTP_STATE_SLAVE else g_state g)
   \<and> g_state (fst (gptp_poll (g, h))) =
     (if g_state g = GPTP_STATE_SLAVE \<and> peek_ms h - g_last_sync_time_ms g > 3000
      then GPTP_STATE_LISTENING else g_state g)
   \<and> g_servo_locked (fst (gptp_poll (g, h))) =
     (if g_state g = GPTP_STATE_SLAVE \<and> peek_ms h - g_last_sync_time_ms g > 3000
      then 0 else g_servo_locked g)
   \<and> length (hw_sent (snd (gptp_poll (g, h)))) = length (hw_sent h)
       + (if peek_ms h - g_last_pdelay_time_ms g \<ge> g_pdelay_interval_ms g then 1 else 0)"
proof (intro conjI)
  show "g_state (fst (gptp_process_rx f len (g, h))) =
     (if g_state g = GPTP_STATE_LISTENING \<and> \<not> len < 48 \<and> get_be16 f 12 = PTP_ETHERTYPE
         \<and> drop_bit 4 (f 14) = 1 \<and> f 14 AND 0x0F = PTP_MSG_SYNC \<and> f 18 = GPTP_DOMAIN
      then GPTP_STATE_SLAVE else g_state g)"
    by (simp add: gptp_process_rx_def Let_def handlers_state)
qed (auto simp: gptp_poll_def gptp_uptime_ms_eq gptp_send_pdelay_req_def Let_def)

text \<open>
  Frames of at least 68 bytes (a full delay request or response) are processed from
  their own bytes only: nothing past the frame in the receive slot matters.
\<close>

theorem gptp_rx_within_frame:
  assumes "68 \<le> unat len" and "\<And>i. i < unat len \<Longrightarrow> frame1 i = frame2 i"
  shows "gptp_process_rx frame1 len s = gptp_process_rx frame2 len s"
  using assms by (rule process_rx_agree)

theorem gptp_rx_within_frame_witness:
  "gptp_process_rx (\<lambda>_. 1) 68 (gptp_init demo_mac hw0)
     = gptp_process_rx (\<lambda>i. if i < 68 then 1 else 2) 68 (gptp_init demo_mac hw0)"
  by (rule gptp_rx_within_frame) simp_all

text \<open>
  C33.  The 48-byte check is not enough for a delay response: the time stamp stored from a
  frame cut after its header comes from whatever the receive slot held before.
\<close>

theorem gptp_short_response_reads_stale:
  assumes "gptp_header PTP_MSG_PDELAY_RESP f" and "get_be16 f 44 = g_pdelay_seq_id g"
    and "bytes f 58 8 = g_clock_id g"
  shows "g_pdelay_t2 (fst (gptp_process_rx f 48 (g, h))) = get_ptp_ts f 48"
  using assms(2,3)
  by (subst gptp_rx_dispatch [OF assms(1)])
     (simp_all add: PTP_MSG_PDELAY_RESP_def PTP_MSG_PDELAY_REQ_def PTP_MSG_SYNC_def PTP_MSG_FOLLOW_UP_def
       Let_def process_pdelay_resp_def shift_reads)

theorem gptp_short_response_reads_stale_witness:
  "g_pdelay_t2 (fst (gptp_process_rx
     (mem_of (gptp_packet demo_b PTP_MSG_PDELAY_RESP 0
        (put_ptp_ts \<lparr>seconds = 9, nanoseconds = 8\<rparr> @ g_clock_id demo_a @ put_be16 1))) 48
     (demo_a, hw0))) = \<lparr>seconds = 9, nanoseconds = 8\<rparr>"
proof -
  let ?t = "\<lparr>seconds = 9, nanoseconds = 8\<rparr>" and ?cid = "g_clock_id demo_a"
  have c: "length ?cid = 8" using demo_ids(1) by (simp add: gptp_ids_ok_def)
  then have l: "length (put_ptp_ts ?t @ ?cid @ put_be16 1) = 20" by simp
  note f = gptp_packet_fields [OF demo_ids(2) l, of PTP_MSG_PDELAY_RESP 0]
  note b = body_fields [OF f(6) c]
  have hd: "gptp_header PTP_MSG_PDELAY_RESP (mem_of (gptp_packet demo_b PTP_MSG_PDELAY_RESP 0
      (put_ptp_ts ?t @ ?cid @ put_be16 1)))"
    by (rule gptp_packet_header [OF demo_ids(2) l]) (simp add: PTP_MSG_PDELAY_RESP_def)
  have "g_pdelay_seq_id demo_a = 0" by (simp add: demo_a_def gptp_init_def gptp_zero_def)
  then show ?thesis
    using gptp_short_response_reads_stale [OF hd, of demo_a hw0] f(4) b by simp
qed

text \<open>
  The filter of absurd rate ratios is defeated by its 32-bit conversion: a ratio that
  is 4295 times the parts per billion the comment calls garbage wraps into the accepted
  window and moves the stored ratio.
\<close>

theorem nrr_absurd_ratio_accepted:
  assumes "0 < pairs" and "\<bar>nrr\<bar> < 10000" and "\<bar>r\<bar> < 10000"
  shows "nrr_update pairs nrr (1000000000 + 4294967296 + r) 1000000000 = (nrr * 7 + r) sdiv 8"
proof -
  have "s32 (4294967296 + r) = r"
  proof -
    have "take_bit (Suc 31) (4294967296 + r) = take_bit (Suc 31) r" by (simp add: take_bit_eq_mod)
    then have "s32 (4294967296 + r) = s32 r"
      unfolding s32_def by (rule signed_take_bit_eq_iff_take_bit_eq [THEN iffD2])
    then show ?thesis using assms(3) by (simp add: s64_simps)
  qed
  moreover have "s64 (s64 (1000000000 + 4294967296 + r - 1000000000) * 1000000000) = (4294967296 + r) * 1000000000"
    using assms(3) by (simp add: s64_simps)
  moreover have "((4294967296 + r) * 1000000000) sdiv 1000000000 = 4294967296 + r"
    using assms(3) by (simp add: sdiv_nonneg)
  moreover have "s32 (s32 (s32 (nrr * 7) + r)) = nrr * 7 + r" using assms(2,3) by (simp add: s64_simps)
  ultimately show ?thesis using assms(1,3) by (simp add: nrr_update_def Let_def abs_less_iff)
qed

theorem nrr_absurd_ratio_accepted_witness:
  "nrr_update 1 0 (5294967296 + 8000) 1000000000 = 1000"
proof -
  have "nrr_update 1 0 (1000000000 + 4294967296 + 8000) 1000000000 = (0 * 7 + 8000) sdiv 8"
    by (rule nrr_absurd_ratio_accepted) simp_all
  then show ?thesis by (simp add: sdiv_nonneg)
qed

end
