(* ===== verification/Srp.thy ===== *)
theory Srp
  imports Hw
begin

text \<open>
  Stream reservation (firmware/srp.c, srp.h): the periodic MSRP and MVRP declarations and
  the parser of received MSRP PDUs with its table of remote talkers.

  \<open>srp_state\<close> is \<open>srp_state_t\<close> (prefix \<open>s_\<close>) without its function pointer: the callback
  \<open>on_talker_advertise\<close> is the parameter \<open>cb\<close> of the parser (None for NULL).  It may change
  everything, this state included, so the parser threads a world \<open>(srp_state, hw, env)\<close>
  with an arbitrary rest \<open>env\<close>.  Pointers into a frame are offsets from its start.

  The caches that only rate-limit a \<open>printf\<close> are left out, but the clock reading made for
  one of them is kept, since readings are numbered.
\<close>

section \<open>Constants and state\<close>

definition MSRP_ETHERTYPE :: u16 where "MSRP_ETHERTYPE = 0x22EA"
definition MSRP_PROTO_VERSION :: u8 where "MSRP_PROTO_VERSION = 0x00"
definition MSRP_MCAST_ADDR :: "u8 list" where "MSRP_MCAST_ADDR = [0x01, 0x80, 0xC2, 0x00, 0x00, 0x0E]"
definition MVRP_ETHERTYPE :: u16 where "MVRP_ETHERTYPE = 0x88F5"
definition MVRP_MCAST :: "u8 list" where "MVRP_MCAST = [0x01, 0x80, 0xC2, 0x00, 0x00, 0x21]"
definition MSRP_ATTR_TALKER_ADV :: u8 where "MSRP_ATTR_TALKER_ADV = 1"
definition MSRP_ATTR_TALKER_FAIL :: u8 where "MSRP_ATTR_TALKER_FAIL = 2"
definition MSRP_ATTR_LISTENER :: u8 where "MSRP_ATTR_LISTENER = 3"
definition MSRP_ATTR_DOMAIN :: u8 where "MSRP_ATTR_DOMAIN = 4"
definition MSRP_LISTENER_ASKFAILED :: u8 where "MSRP_LISTENER_ASKFAILED = 1"
definition MSRP_LISTENER_READY :: u8 where "MSRP_LISTENER_READY = 2"
definition MRP_EVT_NEW :: u8 where "MRP_EVT_NEW = 0"
definition MRP_EVT_JOININ :: u8 where "MRP_EVT_JOININ = 1"
definition MRP_EVT_JOINMT :: u8 where "MRP_EVT_JOINMT = 3"
definition MRP_EVT_LV :: u8 where "MRP_EVT_LV = 5"
definition SR_CLASS_A :: u8 where "SR_CLASS_A = 6"
definition SR_CLASS_A_PRIO :: u8 where "SR_CLASS_A_PRIO = 3"
definition SR_CLASS_A_VID :: u16 where "SR_CLASS_A_VID = 2"
definition MRP_JOIN_PERIOD_MS :: u32 where "MRP_JOIN_PERIOD_MS = 1000"
definition MRP_LEAVEALL_PERIOD_MS :: u32 where "MRP_LEAVEALL_PERIOD_MS = 10000"
definition SRP_MAX_REMOTE_TALKERS :: nat where "SRP_MAX_REMOTE_TALKERS = 8"

definition MRP_3PACK :: "u8 \<Rightarrow> u8 \<Rightarrow> u8 \<Rightarrow> u8" where
  "MRP_3PACK a b c = (a * 6 + b) * 6 + c"

definition MRP_4PACK :: "u8 \<Rightarrow> u8 \<Rightarrow> u8 \<Rightarrow> u8 \<Rightarrow> u8" where
  "MRP_4PACK a b c d = a * 64 + b * 16 + c * 4 + d"

record srp_talker_attr =
  ta_stream_id :: "u8 list"
  ta_dest_addr :: "u8 list"
  ta_vlan_id :: u16
  ta_max_frame_size :: u16
  ta_max_interval_frames :: u16
  ta_priority_and_rank :: u8
  ta_accumulated_latency_ns :: u32

record srp_remote_talker =
  rt_valid :: u8
  rt_stream_id :: "u8 list"
  rt_dest_mac :: "u8 list"
  rt_vlan_id :: u16
  rt_max_frame_size :: u16
  rt_max_interval_frames :: u16
  rt_priority_and_rank :: u8
  rt_accumulated_latency_ns :: u32
  rt_last_seen_ms :: u32

record srp_state =
  s_src_mac :: "u8 list"
  s_talker_enabled :: u8
  s_talker :: srp_talker_attr
  s_listener_enabled :: u8
  s_listener_stream_id :: "u8 list"
  s_listener_substate :: u8
  s_last_join_ms :: u32
  s_last_leaveall_ms :: u32
  s_join_count :: u32
  s_domain_received :: u8
  s_rx_sr_class :: u8
  s_rx_sr_prio :: u8
  s_rx_sr_vid :: u16
  s_talker_registered :: u8
  s_rx_pdu_count :: u32
  s_talker_last_seen_ms :: u32
  s_listener_new_count :: u8
  s_mvrp_new_count :: u8
  s_talker_new_count :: u8
  s_domain_new_count :: u8
  s_rx_talker_adv_count :: u32
  s_rx_talker_failed_count :: u32
  s_rx_listener_count :: u32
  s_rx_domain_count :: u32
  s_rx_match_count :: u32
  s_remote_talkers :: "srp_remote_talker list"

definition talker_attr_zero :: srp_talker_attr where
  "talker_attr_zero = \<lparr>ta_stream_id = zeros 8, ta_dest_addr = zeros 6, ta_vlan_id = 0,
     ta_max_frame_size = 0, ta_max_interval_frames = 0, ta_priority_and_rank = 0,
     ta_accumulated_latency_ns = 0\<rparr>"

definition remote_talker_zero :: srp_remote_talker where
  "remote_talker_zero = \<lparr>rt_valid = 0, rt_stream_id = zeros 8, rt_dest_mac = zeros 6, rt_vlan_id = 0,
     rt_max_frame_size = 0, rt_max_interval_frames = 0, rt_priority_and_rank = 0,
     rt_accumulated_latency_ns = 0, rt_last_seen_ms = 0\<rparr>"

definition srp_zero :: srp_state where
  "srp_zero = \<lparr>s_src_mac = zeros 6, s_talker_enabled = 0, s_talker = talker_attr_zero,
     s_listener_enabled = 0, s_listener_stream_id = zeros 8, s_listener_substate = 0,
     s_last_join_ms = 0, s_last_leaveall_ms = 0, s_join_count = 0, s_domain_received = 0,
     s_rx_sr_class = 0, s_rx_sr_prio = 0, s_rx_sr_vid = 0, s_talker_registered = 0,
     s_rx_pdu_count = 0, s_talker_last_seen_ms = 0, s_listener_new_count = 0,
     s_mvrp_new_count = 0, s_talker_new_count = 0, s_domain_new_count = 0,
     s_rx_talker_adv_count = 0, s_rx_talker_failed_count = 0, s_rx_listener_count = 0,
     s_rx_domain_count = 0, s_rx_match_count = 0,
     s_remote_talkers = replicate SRP_MAX_REMOTE_TALKERS remote_talker_zero\<rparr>"

section \<open>Building PDUs\<close>

text \<open>\<open>memset(p, 0, 64 - len)\<close> and the length, for frames below the Ethernet minimum.\<close>

definition pad64 :: "u8 list \<Rightarrow> u8 list" where
  "pad64 fr = (if length fr < 64 then fr @ zeros (64 - length fr) else fr)"

definition srp_send :: "u8 list \<Rightarrow> hw \<Rightarrow> hw" where
  "srp_send fr h = send_frame TxSrp (mput (tx_buf TxSrp h) 0 (pad64 fr)) (of_nat (length (pad64 fr))) h"

definition mvrp_send_join_vid :: "srp_state \<Rightarrow> u16 \<Rightarrow> u8 \<Rightarrow> hw \<Rightarrow> hw" where
  "mvrp_send_join_vid s vid event h =
     srp_send (MVRP_MCAST @ s_src_mac s @ put_be16 MVRP_ETHERTYPE @ [0, 1, 2] @ put_be16 1
                 @ put_be16 vid @ [MRP_3PACK event 0 0] @ put_be16 0) h"

definition msrp_frame_begin :: "u8 list \<Rightarrow> u8 list" where
  "msrp_frame_begin src_mac = MSRP_MCAST_ADDR @ src_mac @ put_be16 MSRP_ETHERTYPE @ [MSRP_PROTO_VERSION]"

definition vec_hdr1 :: "bool \<Rightarrow> u16" where
  "vec_hdr1 leaveall = (if leaveall then 1 OR push_bit 13 1 else 1)"

definition msrp_emit_domain :: "u8 \<Rightarrow> u8 \<Rightarrow> u16 \<Rightarrow> bool \<Rightarrow> u8 \<Rightarrow> u8 list" where
  "msrp_emit_domain sr_class sr_prio sr_vid leaveall event =
     (let vec = put_be16 (vec_hdr1 leaveall) @ [sr_class, sr_prio] @ put_be16 sr_vid
                  @ [MRP_3PACK event 0 0] @ put_be16 0
      in [MSRP_ATTR_DOMAIN, 4] @ put_be16 (of_nat (length vec)) @ vec)"

definition talker_first_value :: "srp_talker_attr \<Rightarrow> u8 list" where
  "talker_first_value t =
     ta_stream_id t @ ta_dest_addr t @ put_be16 (ta_vlan_id t) @ put_be16 (ta_max_frame_size t)
       @ put_be16 (ta_max_interval_frames t) @ [ta_priority_and_rank t]
       @ put_be32 (ta_accumulated_latency_ns t)"

definition msrp_emit_talker_adv :: "srp_talker_attr \<Rightarrow> bool \<Rightarrow> u8 \<Rightarrow> u8 list" where
  "msrp_emit_talker_adv t leaveall event =
     (let vec = put_be16 (vec_hdr1 leaveall) @ talker_first_value t @ [MRP_3PACK event 0 0] @ put_be16 0
      in [MSRP_ATTR_TALKER_ADV, 25] @ put_be16 (of_nat (length vec)) @ vec)"

definition msrp_emit_listener :: "u8 list \<Rightarrow> u8 \<Rightarrow> bool \<Rightarrow> u8 \<Rightarrow> u8 list" where
  "msrp_emit_listener stream_id substate leaveall event =
     (let vec = put_be16 (vec_hdr1 leaveall) @ stream_id @ [MRP_3PACK event 0 0]
                  @ [MRP_4PACK substate 0 0 0] @ put_be16 0
      in [MSRP_ATTR_LISTENER, 8] @ put_be16 (of_nat (length vec)) @ vec)"

text \<open>NEW for the first two transmissions, JoinIn from then on.\<close>

definition mrp_event :: "u8 \<Rightarrow> u8" where
  "mrp_event new_count = (if new_count < 2 then MRP_EVT_NEW else MRP_EVT_JOININ)"

definition bump_new :: "u8 \<Rightarrow> u8" where
  "bump_new new_count = (if new_count < 2 then new_count + 1 else new_count)"

definition srp_send_declarations :: "bool \<Rightarrow> srp_state \<times> hw \<Rightarrow> srp_state \<times> hw" where
  "srp_send_declarations leaveall = (\<lambda>(s, h).
     let dom_class = (if s_domain_received s \<noteq> 0 then s_rx_sr_class s else SR_CLASS_A);
         dom_prio = (if s_domain_received s \<noteq> 0 then s_rx_sr_prio s else SR_CLASS_A_PRIO);
         dom_vid = (if s_domain_received s \<noteq> 0 then s_rx_sr_vid s else SR_CLASS_A_VID);
         dom = msrp_emit_domain dom_class dom_prio dom_vid leaveall (mrp_event (s_domain_new_count s));
         s1 = s\<lparr>s_domain_new_count := bump_new (s_domain_new_count s)\<rparr>;
         (tlk, s2) =
           (if s_talker_enabled s1 \<noteq> 0 then
              let t = (s_talker s1)\<lparr>ta_priority_and_rank := push_bit 5 dom_prio OR push_bit 4 1,
                                    ta_vlan_id := dom_vid\<rparr>
              in (msrp_emit_talker_adv t leaveall (mrp_event (s_talker_new_count s1)),
                  s1\<lparr>s_talker := t, s_talker_new_count := bump_new (s_talker_new_count s1)\<rparr>)
            else ([], s1));
         (lst, s3) =
           (if s_listener_enabled s2 \<noteq> 0 then
              (msrp_emit_listener (s_listener_stream_id s2) (s_listener_substate s2) leaveall
                 (mrp_event (s_listener_new_count s2)),
               s2\<lparr>s_listener_new_count := bump_new (s_listener_new_count s2)\<rparr>)
            else ([], s2))
     in (s3\<lparr>s_join_count := s_join_count s3 + 1\<rparr>,
         srp_send (msrp_frame_begin (s_src_mac s) @ dom @ tlk @ lst @ put_be16 0) h))"

section \<open>The table of remote talkers\<close>

text \<open>
  The scan of the upsert: the matching entry, else the first free one; and the entry with
  the least stamp, for eviction.
\<close>

fun srp_scan :: "u8 list \<Rightarrow> nat \<Rightarrow> srp_remote_talker list \<Rightarrow> nat option \<Rightarrow> nat \<Rightarrow> u32 \<Rightarrow> nat option \<times> nat" where
  "srp_scan sid i [] slot oldest oldest_t = (slot, oldest)"
| "srp_scan sid i (t # ts) slot oldest oldest_t =
     (if rt_valid t \<noteq> 0 then
        if rt_stream_id t = sid then (Some i, oldest)
        else if rt_last_seen_ms t < oldest_t then srp_scan sid (Suc i) ts slot i (rt_last_seen_ms t)
        else srp_scan sid (Suc i) ts slot oldest oldest_t
      else srp_scan sid (Suc i) ts (case slot of None \<Rightarrow> Some i | Some _ \<Rightarrow> slot) oldest oldest_t)"

definition srp_slot :: "u8 list \<Rightarrow> srp_remote_talker list \<Rightarrow> nat" where
  "srp_slot sid ts = (case srp_scan sid 0 ts None 0 0xFFFFFFFF of (Some i, _) \<Rightarrow> i | (None, oldest) \<Rightarrow> oldest)"

definition srp_upsert :: "srp_remote_talker \<Rightarrow> srp_remote_talker list \<Rightarrow> srp_remote_talker list" where
  "srp_upsert t ts = ts[srp_slot (rt_stream_id t) ts := t]"

definition srp_find_talker :: "srp_remote_talker list \<Rightarrow> u8 list \<Rightarrow> srp_remote_talker option" where
  "srp_find_talker ts sid = find (\<lambda>t. rt_valid t \<noteq> 0 \<and> rt_stream_id t = sid) ts"

definition read_talker :: "mem \<Rightarrow> nat \<Rightarrow> u32 \<Rightarrow> srp_remote_talker" where
  "read_talker m vp now =
     \<lparr>rt_valid = 1, rt_stream_id = bytes m vp 8, rt_dest_mac = bytes m (vp + 8) 6,
      rt_vlan_id = get_be16 m (vp + 14), rt_max_frame_size = get_be16 m (vp + 16),
      rt_max_interval_frames = get_be16 m (vp + 18), rt_priority_and_rank = m (vp + 20),
      rt_accumulated_latency_ns = get_be32 m (vp + 21), rt_last_seen_ms = now\<rparr>"

section \<open>Parsing PDUs\<close>

type_synonym 'e world = "srp_state \<times> hw \<times> 'e"
type_synonym 'e callback = "u8 list \<Rightarrow> u8 list \<Rightarrow> 'e world \<Rightarrow> 'e world"

definition srp_talker_adv :: "'e callback option \<Rightarrow> mem \<Rightarrow> nat \<Rightarrow> 'e world \<Rightarrow> 'e world" where
  "srp_talker_adv cb m vp = (\<lambda>(s, h, e).
     let (_, h1) = gptp_uptime_ms h;
         (now, h2) = gptp_uptime_ms h1;
         s1 = s\<lparr>s_rx_talker_adv_count := s_rx_talker_adv_count s + 1,
                s_remote_talkers := srp_upsert (read_talker m vp now) (s_remote_talkers s)\<rparr>;
         (s2, h3, e2) = (case cb of None \<Rightarrow> (s1, h2, e) | Some f \<Rightarrow> f (bytes m vp 8) (bytes m (vp + 8) 6) (s1, h2, e))
     in if s_listener_enabled s2 \<noteq> 0 \<and> bytes m vp 8 = s_listener_stream_id s2
        then let (seen, h4) = gptp_uptime_ms h3
             in (s2\<lparr>s_rx_match_count := s_rx_match_count s2 + 1, s_talker_registered := 1,
                    s_talker_last_seen_ms := seen, s_listener_substate := MSRP_LISTENER_READY\<rparr>, h4, e2)
        else (s2, h3, e2))"

definition srp_vector :: "'e callback option \<Rightarrow> u8 \<Rightarrow> u8 \<Rightarrow> mem \<Rightarrow> nat \<Rightarrow> 'e world \<Rightarrow> 'e world" where
  "srp_vector cb attr_type attr_len m vp = (\<lambda>(s, h, e).
     if attr_type = MSRP_ATTR_DOMAIN \<and> attr_len \<ge> 4
     then (s\<lparr>s_rx_domain_count := s_rx_domain_count s + 1, s_domain_received := 1,
             s_rx_sr_class := m vp, s_rx_sr_prio := m (vp + 1), s_rx_sr_vid := get_be16 m (vp + 2)\<rparr>, h, e)
     else if attr_type = MSRP_ATTR_TALKER_FAIL
     then (s\<lparr>s_rx_talker_failed_count := s_rx_talker_failed_count s + 1\<rparr>, h, e)
     else if attr_type = MSRP_ATTR_LISTENER
     then (s\<lparr>s_rx_listener_count := s_rx_listener_count s + 1\<rparr>, h, e)
     else if attr_type = MSRP_ATTR_TALKER_ADV \<and> attr_len \<ge> 25 then srp_talker_adv cb m vp (s, h, e)
     else (s, h, e))"

text \<open>The bytes after a FirstValue: three events a byte, and for listeners four substates a byte.\<close>

definition packed_len :: "u8 \<Rightarrow> u16 \<Rightarrow> nat" where
  "packed_len attr_type num_values =
     (unat num_values + 2) div 3 + (if attr_type = MSRP_ATTR_LISTENER then (unat num_values + 3) div 4 else 0)"

function srp_vectors :: "'e callback option \<Rightarrow> u8 \<Rightarrow> u8 \<Rightarrow> mem \<Rightarrow> nat \<Rightarrow> nat \<Rightarrow> 'e world \<Rightarrow> 'e world" where
  "srp_vectors cb attr_type attr_len m attr_end vp w =
     (if vp + 2 \<le> attr_end then
        let vec_hdr = get_be16 m vp
        in if vec_hdr = 0 then w
           else if vp + 2 + unat attr_len > attr_end then w
           else srp_vectors cb attr_type attr_len m attr_end
                  (vp + 2 + unat attr_len + packed_len attr_type (vec_hdr AND 0x1FFF))
                  (srp_vector cb attr_type attr_len m (vp + 2) w)
      else w)"
  by pat_completeness auto

termination
  by (relation "measure (\<lambda>(_, _, _, _, attr_end, vp, _). attr_end - vp)") auto

declare srp_vectors.simps [simp del]

function srp_messages :: "'e callback option \<Rightarrow> mem \<Rightarrow> nat \<Rightarrow> nat \<Rightarrow> 'e world \<Rightarrow> 'e world" where
  "srp_messages cb m end' p w =
     (if p + 4 \<le> end' then
        let attr_type = m p; attr_len = m (p + 1)
        in if attr_type = 0 \<and> attr_len = 0 then w
           else
             let attr_end = p + 4 + unat (get_be16 m (p + 2))
             in if attr_end > end' then w
                else srp_messages cb m end' attr_end
                       (srp_vectors cb attr_type attr_len m attr_end (p + 4) w)
      else w)"
  by pat_completeness auto

termination
  by (relation "measure (\<lambda>(_, _, end', p, _). end' - p)") auto

declare srp_messages.simps [simp del]

definition srp_process_rx :: "'e callback option \<Rightarrow> mem \<Rightarrow> u32 \<Rightarrow> 'e world \<Rightarrow> 'e world" where
  "srp_process_rx cb frame len = (\<lambda>(s, h, e).
     if len < 14 + 2 then (s, h, e)
     else if get_be16 frame 12 \<noteq> MSRP_ETHERTYPE then (s, h, e)
     else if frame 14 \<noteq> MSRP_PROTO_VERSION then (s, h, e)
     else srp_messages cb frame (unat len) 15 (s\<lparr>s_rx_pdu_count := s_rx_pdu_count s + 1\<rparr>, h, e))"

section \<open>Configuration and periodic work\<close>

definition srp_init :: "u8 list \<Rightarrow> hw \<Rightarrow> srp_state \<times> hw" where
  "srp_init mac_addr h =
     (srp_zero\<lparr>s_src_mac := mac_addr, s_listener_substate := MSRP_LISTENER_ASKFAILED\<rparr>,
      h\<lparr>hw_txslot := (hw_txslot h)(TxSrp := 0)\<rparr>)"

definition srp_talker_set :: "srp_state \<Rightarrow> u8 list \<Rightarrow> u8 list \<Rightarrow> u16 \<Rightarrow> srp_state" where
  "srp_talker_set s stream_id dest_mac max_frame_size =
     s\<lparr>s_talker := \<lparr>ta_stream_id = stream_id, ta_dest_addr = dest_mac, ta_vlan_id = SR_CLASS_A_VID,
          ta_max_frame_size = max_frame_size, ta_max_interval_frames = 1,
          ta_priority_and_rank = push_bit 5 SR_CLASS_A_PRIO OR push_bit 4 1,
          ta_accumulated_latency_ns = 250000\<rparr>\<rparr>"

definition srp_talker_enable :: "srp_state \<Rightarrow> u8 \<Rightarrow> srp_state" where
  "srp_talker_enable s enable =
     (if enable \<noteq> 0 then s\<lparr>s_talker_enabled := enable, s_talker_new_count := 0\<rparr>
      else s\<lparr>s_talker_enabled := enable\<rparr>)"

definition srp_listener_enable :: "u8 list \<Rightarrow> u8 \<Rightarrow> srp_state \<times> hw \<Rightarrow> srp_state \<times> hw" where
  "srp_listener_enable stream_id enable = (\<lambda>(s, h).
     if enable \<noteq> 0 then
       let (now, h1) = gptp_uptime_ms h
       in (s\<lparr>s_listener_enabled := enable, s_listener_stream_id := stream_id,
             s_listener_substate := MSRP_LISTENER_READY, s_talker_registered := 0,
             s_talker_last_seen_ms := now, s_listener_new_count := 0\<rparr>, h1)
     else (s\<lparr>s_listener_enabled := enable\<rparr>, h))"

definition age_entry :: "u32 \<Rightarrow> srp_remote_talker \<Rightarrow> srp_remote_talker" where
  "age_entry now t =
     (if rt_valid t \<noteq> 0 \<and> guarded_age now (rt_last_seen_ms t) 0 \<ge> 3 * MRP_LEAVEALL_PERIOD_MS
      then t\<lparr>rt_valid := 0\<rparr> else t)"

definition srp_poll :: "srp_state \<times> hw \<Rightarrow> srp_state \<times> hw" where
  "srp_poll = (\<lambda>(s, h).
     let (now, h1) = gptp_uptime_ms h;
         elapsed_join = guarded_age now (s_last_join_ms s) MRP_JOIN_PERIOD_MS;
         leaveall = (guarded_age now (s_last_leaveall_ms s) MRP_LEAVEALL_PERIOD_MS \<ge> MRP_LEAVEALL_PERIOD_MS);
         s1 = (if leaveall then s\<lparr>s_last_leaveall_ms := now\<rparr> else s);
         s2 = (if s_talker_registered s1 \<noteq> 0
                  \<and> guarded_age now (s_talker_last_seen_ms s1) 0 \<ge> 3 * MRP_LEAVEALL_PERIOD_MS
               then s1\<lparr>s_talker_registered := 0\<rparr> else s1);
         s3 = (if s_listener_enabled s2 \<noteq> 0 \<and> s_listener_substate s2 \<noteq> MSRP_LISTENER_READY
               then s2\<lparr>s_listener_substate := MSRP_LISTENER_READY, s_listener_new_count := 0\<rparr> else s2);
         s4 = s3\<lparr>s_remote_talkers := map (age_entry now) (s_remote_talkers s3)\<rparr>
     in if elapsed_join \<ge> MRP_JOIN_PERIOD_MS then
          let (s5, h2) = srp_send_declarations leaveall (s4, h1);
              h3 = mvrp_send_join_vid s5 SR_CLASS_A_VID (mrp_event (s_mvrp_new_count s5)) h2
          in (s5\<lparr>s_mvrp_new_count := bump_new (s_mvrp_new_count s5), s_last_join_ms := now\<rparr>, h3)
        else (s4, h1))"


section \<open>The contract of a keyed table\<close>

text \<open>
  What the AVDECC side relies on when it looks a stream up: the value inserted last under a
  key is found, and an insertion touches other keys only by evicting them.
\<close>

locale keyed_table =
  fixes inv :: "'s \<Rightarrow> bool" and ok :: "'v \<Rightarrow> bool" and key :: "'v \<Rightarrow> 'k"
    and lookup :: "'s \<Rightarrow> 'k \<Rightarrow> 'v option" and insert :: "'v \<Rightarrow> 's \<Rightarrow> 's"
  assumes inv_insert: "inv s \<Longrightarrow> ok v \<Longrightarrow> inv (insert v s)"
    and lookup_same: "inv s \<Longrightarrow> ok v \<Longrightarrow> lookup (insert v s) (key v) = Some v"
    and lookup_other: "inv s \<Longrightarrow> ok v \<Longrightarrow> k \<noteq> key v \<Longrightarrow>
          lookup (insert v s) k = lookup s k \<or> lookup (insert v s) k = None"
begin

lemma inv_inserts: "inv s \<Longrightarrow> list_all ok vs \<Longrightarrow> inv (fold insert vs s)"
  by (induction vs arbitrary: s) (auto intro: inv_insert)

text \<open>Whatever is found is the newest value of its key.\<close>

lemma lookup_newest:
  "inv s \<Longrightarrow> list_all ok vs \<Longrightarrow> lookup (fold insert vs s) k = Some v \<Longrightarrow>
   if k \<in> key ` set vs then \<exists>pre post. vs = pre @ v # post \<and> key v = k \<and> k \<notin> key ` set post
   else lookup s k = Some v"
proof (induction vs rule: rev_induct)
  case Nil
  then show ?case by simp
next
  case (snoc x xs)
  have okx: "ok x" and oks: "list_all ok xs" using snoc.prems by simp_all
  have inv: "inv (fold insert xs s)" using snoc.prems(1) oks by (rule inv_inserts)
  show ?case
  proof (cases "key x = k")
    case True
    then have "v = x" using lookup_same [OF inv okx] snoc.prems(3) by simp
    then have "\<exists>pre post. xs @ [x] = pre @ v # post \<and> key v = k \<and> k \<notin> key ` set post"
      using True by (intro exI [of _ xs] exI [of _ "[]"]) simp
    then show ?thesis using True by simp
  next
    case False
    then have "lookup (fold insert xs s) k = Some v"
      using lookup_other [OF inv okx, of k] snoc.prems(3) by auto
    note IH = snoc.IH [OF snoc.prems(1) oks this]
    show ?thesis
    proof (cases "k \<in> key ` set xs")
      case True
      then obtain pre post where "xs = pre @ v # post" "key v = k" "k \<notin> key ` set post"
        using IH by auto
      then have "\<exists>pre post. xs @ [x] = pre @ v # post \<and> key v = k \<and> k \<notin> key ` set post"
        using False by (intro exI [of _ pre] exI [of _ "post @ [x]"]) auto
      then show ?thesis using True by simp
    next
      case False
      then show ?thesis using IH \<open>key x \<noteq> k\<close> by auto
    qed
  qed
qed

end

section \<open>The scan\<close>

abbreviation rt_match :: "u8 list \<Rightarrow> srp_remote_talker \<Rightarrow> bool" where
  "rt_match sid t \<equiv> rt_valid t \<noteq> 0 \<and> rt_stream_id t = sid"

lemma scan_match:
  "\<exists>t \<in> set ts. rt_match sid t \<Longrightarrow>
   fst (srp_scan sid i ts slot o' ot) = Some (i + length (takeWhile (\<lambda>t. \<not> rt_match sid t) ts))"
proof (induction ts arbitrary: i slot o' ot)
  case Nil
  then show ?case by simp
next
  case (Cons t ts)
  show ?case
  proof (cases "rt_match sid t")
    case True
    then show ?thesis by simp
  next
    case False
    then have "\<exists>t \<in> set ts. rt_match sid t" using Cons.prems by auto
    note IH = Cons.IH [OF this]
    show ?thesis using False by (cases "rt_valid t = 0") (simp_all add: IH)
  qed
qed

lemma scan_no_match:
  "\<forall>t \<in> set ts. \<not> rt_match sid t \<Longrightarrow>
   fst (srp_scan sid i ts slot o' ot) =
     (case slot of Some x \<Rightarrow> Some x
      | None \<Rightarrow> if \<exists>t \<in> set ts. rt_valid t = 0
                then Some (i + length (takeWhile (\<lambda>t. rt_valid t \<noteq> 0) ts)) else None)"
  by (induction ts arbitrary: i slot o' ot) (auto split: option.split)

lemma scan_oldest_bound:
  "snd (srp_scan sid i ts slot o' ot) = o' \<or>
   (i \<le> snd (srp_scan sid i ts slot o' ot) \<and> snd (srp_scan sid i ts slot o' ot) < i + length ts)"
proof (induction ts arbitrary: i slot o' ot)
  case Nil
  then show ?case by simp
next
  case (Cons t ts)
  show ?case
    using Cons.IH [of "Suc i" slot i "rt_last_seen_ms t"] Cons.IH [of "Suc i" slot o' ot]
      Cons.IH [of "Suc i" "case slot of None \<Rightarrow> Some i | Some _ \<Rightarrow> slot" o' ot] by auto
qed

lemma scan_oldest:
  assumes "\<forall>t \<in> set ts. rt_valid t \<noteq> 0 \<and> rt_stream_id t \<noteq> sid"
  shows "(\<exists>k < length ts. snd (srp_scan sid i ts slot o' ot) = i + k \<and> rt_last_seen_ms (ts ! k) < ot
            \<and> (\<forall>t \<in> set ts. rt_last_seen_ms (ts ! k) \<le> rt_last_seen_ms t))
       \<or> (snd (srp_scan sid i ts slot o' ot) = o' \<and> (\<forall>t \<in> set ts. ot \<le> rt_last_seen_ms t))"
  using assms
proof (induction ts arbitrary: i slot o' ot)
  case Nil
  then show ?case by simp
next
  case (Cons t ts)
  have t: "rt_valid t \<noteq> 0" "rt_stream_id t \<noteq> sid"
    and ts: "\<forall>t \<in> set ts. rt_valid t \<noteq> 0 \<and> rt_stream_id t \<noteq> sid" using Cons.prems by auto
  define o1 ot1 where "o1 = (if rt_last_seen_ms t < ot then i else o')"
    and "ot1 = (if rt_last_seen_ms t < ot then rt_last_seen_ms t else ot)"
  have step: "srp_scan sid i (t # ts) slot o' ot = srp_scan sid (Suc i) ts slot o1 ot1"
    using t by (simp add: o1_def ot1_def)
  have le: "ot1 \<le> ot" "ot1 \<le> rt_last_seen_ms t" by (auto simp: ot1_def)
  from Cons.IH [OF ts, of "Suc i" slot o1 ot1] show ?case
  proof
    assume "\<exists>k < length ts. snd (srp_scan sid (Suc i) ts slot o1 ot1) = Suc i + k \<and> rt_last_seen_ms (ts ! k) < ot1
            \<and> (\<forall>t \<in> set ts. rt_last_seen_ms (ts ! k) \<le> rt_last_seen_ms t)"
    then obtain k where k: "k < length ts" "snd (srp_scan sid (Suc i) ts slot o1 ot1) = Suc i + k"
      "rt_last_seen_ms (ts ! k) < ot1" "\<forall>t \<in> set ts. rt_last_seen_ms (ts ! k) \<le> rt_last_seen_ms t" by blast
    then show ?case unfolding step
      using le by (intro disjI1 exI [of _ "Suc k"]) (auto intro: less_imp_le order.strict_trans2)
  next
    assume a: "snd (srp_scan sid (Suc i) ts slot o1 ot1) = o1 \<and> (\<forall>t \<in> set ts. ot1 \<le> rt_last_seen_ms t)"
    show ?case unfolding step
    proof (cases "rt_last_seen_ms t < ot")
      case True
      then show "(\<exists>k < length (t # ts). snd (srp_scan sid (Suc i) ts slot o1 ot1) = i + k
            \<and> rt_last_seen_ms ((t # ts) ! k) < ot
            \<and> (\<forall>t' \<in> set (t # ts). rt_last_seen_ms ((t # ts) ! k) \<le> rt_last_seen_ms t'))
        \<or> (snd (srp_scan sid (Suc i) ts slot o1 ot1) = o' \<and> (\<forall>t' \<in> set (t # ts). ot \<le> rt_last_seen_ms t'))"
        using a by (intro disjI1 exI [of _ 0]) (simp add: o1_def ot1_def)
    next
      case False
      have e: "o1 = o'" "ot1 = ot" using False by (simp_all add: o1_def ot1_def)
      show "(\<exists>k < length (t # ts). snd (srp_scan sid (Suc i) ts slot o1 ot1) = i + k
            \<and> rt_last_seen_ms ((t # ts) ! k) < ot
            \<and> (\<forall>t' \<in> set (t # ts). rt_last_seen_ms ((t # ts) ! k) \<le> rt_last_seen_ms t'))
        \<or> (snd (srp_scan sid (Suc i) ts slot o1 ot1) = o' \<and> (\<forall>t' \<in> set (t # ts). ot \<le> rt_last_seen_ms t'))"
        using a False unfolding e by (intro disjI2) (simp add: not_less)
    qed
  qed
qed

lemma takeWhile_short: "\<exists>x \<in> set xs. \<not> P x \<Longrightarrow> length (takeWhile P xs) < length xs"
  by (induction xs) auto

lemma slot_cases:
  assumes "ts \<noteq> []"
  shows "srp_slot sid ts < length ts"
    and "\<exists>t \<in> set ts. rt_match sid t \<Longrightarrow> rt_match sid (ts ! srp_slot sid ts)
           \<and> (\<forall>j < srp_slot sid ts. \<not> rt_match sid (ts ! j))"
    and "\<forall>t \<in> set ts. \<not> rt_match sid t \<Longrightarrow> \<exists>t \<in> set ts. rt_valid t = 0 \<Longrightarrow> rt_valid (ts ! srp_slot sid ts) = 0"
proof -
  let ?k = "length (takeWhile (\<lambda>t. \<not> rt_match sid t) ts)"
  let ?f = "length (takeWhile (\<lambda>t. rt_valid t \<noteq> 0) ts)"
  have m: "srp_slot sid ts = ?k \<and> ?k < length ts" if "\<exists>t \<in> set ts. rt_match sid t"
    using scan_match [OF that, of 0 None 0 "0xFFFFFFFF"] takeWhile_short [of ts "\<lambda>t. \<not> rt_match sid t"] that
    by (simp add: srp_slot_def case_prod_unfold)
  have f: "srp_slot sid ts = ?f \<and> ?f < length ts"
    if "\<forall>t \<in> set ts. \<not> rt_match sid t" "\<exists>t \<in> set ts. rt_valid t = 0"
    using scan_no_match [OF that(1), of 0 None 0 "0xFFFFFFFF"] takeWhile_short [of ts "\<lambda>t. rt_valid t \<noteq> 0"] that(2)
    by (simp add: srp_slot_def case_prod_unfold)
  show "rt_match sid (ts ! srp_slot sid ts) \<and> (\<forall>j < srp_slot sid ts. \<not> rt_match sid (ts ! j))"
    if "\<exists>t \<in> set ts. rt_match sid t"
  proof -
    have "\<not> rt_match sid (ts ! j)" if "j < ?k" for j
      using set_takeWhileD [OF nth_mem [OF that]] takeWhile_nth [OF that] by simp
    then show ?thesis
      using m [OF that] nth_length_takeWhile [of "\<lambda>t. \<not> rt_match sid t" ts] by auto
  qed
  show "rt_valid (ts ! srp_slot sid ts) = 0"
    if "\<forall>t \<in> set ts. \<not> rt_match sid t" "\<exists>t \<in> set ts. rt_valid t = 0"
    using f [OF that] nth_length_takeWhile [of "\<lambda>t. rt_valid t \<noteq> 0" ts] by auto
  have "srp_slot sid ts < length ts" if "\<forall>t \<in> set ts. \<not> rt_match sid t" "\<forall>t \<in> set ts. rt_valid t \<noteq> 0"
  proof -
    have "fst (srp_scan sid 0 ts None 0 0xFFFFFFFF) = None" using scan_no_match [OF that(1)] that(2) by auto
    moreover have "snd (srp_scan sid 0 ts None 0 0xFFFFFFFF) < length ts"
      using scan_oldest_bound [of sid 0 ts None 0 "0xFFFFFFFF"] assms by auto
    ultimately show ?thesis by (simp add: srp_slot_def case_prod_unfold)
  qed
  then show "srp_slot sid ts < length ts"
    using m f by (cases "\<exists>t \<in> set ts. rt_match sid t"; cases "\<exists>t \<in> set ts. rt_valid t = 0") auto
qed

text \<open>On a full table the evicted entry is one with the least stamp.\<close>

lemma slot_oldest:
  assumes "ts \<noteq> []" and "\<forall>t \<in> set ts. rt_valid t \<noteq> 0 \<and> rt_stream_id t \<noteq> sid" and "t \<in> set ts"
  shows "rt_last_seen_ms (ts ! srp_slot sid ts) \<le> rt_last_seen_ms t"
proof -
  have n: "fst (srp_scan sid 0 ts None 0 0xFFFFFFFF) = None"
    using scan_no_match [of ts sid 0 None 0 "0xFFFFFFFF"] assms(2) by auto
  have top: "x \<le> 0xFFFFFFFF" for x :: u32
  proof -
    have "unat x < 2 ^ LENGTH(32)" by (rule unsigned_less)
    then show ?thesis by (simp add: word_le_nat_alt)
  qed
  have same: "rt_last_seen_ms u = 0xFFFFFFFF" if "\<forall>t \<in> set ts. 0xFFFFFFFF \<le> rt_last_seen_ms t" "u \<in> set ts" for u
    using that top by (meson antisym)
  from scan_oldest [OF assms(2), of 0 None 0 "0xFFFFFFFF"] show ?thesis
  proof
    assume "\<exists>k < length ts. snd (srp_scan sid 0 ts None 0 0xFFFFFFFF) = 0 + k \<and> rt_last_seen_ms (ts ! k) < 0xFFFFFFFF
            \<and> (\<forall>t \<in> set ts. rt_last_seen_ms (ts ! k) \<le> rt_last_seen_ms t)"
    then show ?thesis using n assms(3) by (auto simp: srp_slot_def case_prod_unfold)
  next
    assume "snd (srp_scan sid 0 ts None 0 0xFFFFFFFF) = 0 \<and> (\<forall>t \<in> set ts. 0xFFFFFFFF \<le> rt_last_seen_ms t)"
    then have "\<forall>t \<in> set ts. 0xFFFFFFFF \<le> rt_last_seen_ms t" by blast
    from same [OF this assms(3)] show ?thesis using top by simp
  qed
qed

section \<open>The table meets the contract\<close>

definition talkers_ok :: "srp_remote_talker list \<Rightarrow> bool" where
  "talkers_ok ts \<longleftrightarrow> length ts = SRP_MAX_REMOTE_TALKERS
     \<and> (\<forall>i < length ts. \<forall>j < length ts. i \<noteq> j \<longrightarrow> rt_valid (ts ! i) \<noteq> 0 \<longrightarrow> rt_valid (ts ! j) \<noteq> 0
          \<longrightarrow> rt_stream_id (ts ! i) \<noteq> rt_stream_id (ts ! j))"

lemma talkers_ok_ne: "talkers_ok ts \<Longrightarrow> ts \<noteq> []"
  by (auto simp: talkers_ok_def SRP_MAX_REMOTE_TALKERS_def)

lemma upsert_ok:
  assumes "talkers_ok ts"
  shows "talkers_ok (srp_upsert t ts)"
proof -
  let ?sid = "rt_stream_id t" and ?k = "srp_slot (rt_stream_id t) ts"
  have k: "?k < length ts" by (rule slot_cases [OF talkers_ok_ne [OF assms]])
  have other: "rt_stream_id (ts ! i) \<noteq> ?sid" if i: "i < length ts" "i \<noteq> ?k" "rt_valid (ts ! i) \<noteq> 0" for i
  proof
    assume e: "rt_stream_id (ts ! i) = ?sid"
    have "\<exists>t \<in> set ts. rt_match ?sid t" using i e nth_mem by blast
    from slot_cases(2) [OF talkers_ok_ne [OF assms] this] have "rt_match ?sid (ts ! ?k)" by blast
    then show False using assms i e k unfolding talkers_ok_def by metis
  qed
  show ?thesis
    unfolding talkers_ok_def srp_upsert_def
  proof (intro conjI allI impI)
    show "length (ts[?k := t]) = SRP_MAX_REMOTE_TALKERS" using assms by (simp add: talkers_ok_def)
    fix i j assume ij: "i < length (ts[?k := t])" "j < length (ts[?k := t])" "i \<noteq> j"
      "rt_valid (ts[?k := t] ! i) \<noteq> 0" "rt_valid (ts[?k := t] ! j) \<noteq> 0"
    then show "rt_stream_id (ts[?k := t] ! i) \<noteq> rt_stream_id (ts[?k := t] ! j)"
      using assms k other [of i] other [of j] unfolding talkers_ok_def
      by (cases "i = ?k"; cases "j = ?k") auto
  qed
qed

lemma find_first: "k < length ts \<Longrightarrow> P (ts ! k) \<Longrightarrow> (\<forall>j < k. \<not> P (ts ! j)) \<Longrightarrow> find P ts = Some (ts ! k)"
  by (auto simp: find_Some_iff)

lemma find_unique:
  assumes "talkers_ok ts" and "k < length ts" and "rt_match sid (ts ! k)"
  shows "srp_find_talker ts sid = Some (ts ! k)"
  unfolding srp_find_talker_def
proof (rule find_first [where P = "rt_match sid", OF assms(2,3)], intro allI impI)
  fix j assume "j < k"
  then show "\<not> rt_match sid (ts ! j)" using assms by (auto simp: talkers_ok_def)
qed

lemma find_cases:
  assumes "srp_find_talker ts sid = Some t"
  shows "\<exists>k < length ts. ts ! k = t \<and> rt_match sid t"
  using assms by (auto simp: srp_find_talker_def find_Some_iff)

lemma find_upsert_same:
  assumes "talkers_ok ts" and "rt_valid t \<noteq> 0"
  shows "srp_find_talker (srp_upsert t ts) (rt_stream_id t) = Some t"
proof -
  let ?k = "srp_slot (rt_stream_id t) ts"
  have k: "?k < length ts" by (rule slot_cases [OF talkers_ok_ne [OF assms(1)]])
  then have "srp_upsert t ts ! ?k = t" by (simp add: srp_upsert_def)
  then show ?thesis
    using find_unique [OF upsert_ok [OF assms(1)], of ?k t "rt_stream_id t"] k assms(2)
    by (simp add: srp_upsert_def)
qed

lemma find_upsert_other:
  assumes "talkers_ok ts" and "sid \<noteq> rt_stream_id t"
  shows "srp_find_talker (srp_upsert t ts) sid = srp_find_talker ts sid
    \<or> srp_find_talker (srp_upsert t ts) sid = None"
proof (cases "srp_find_talker (srp_upsert t ts) sid")
  case None
  then show ?thesis by simp
next
  case (Some u)
  then obtain k where k: "k < length ts" "srp_upsert t ts ! k = u" "rt_match sid u"
    using find_cases [OF Some] by (auto simp: srp_upsert_def)
  have "k \<noteq> srp_slot (rt_stream_id t) ts" using k assms(2) by (auto simp: srp_upsert_def)
  then have "ts ! k = u" using k(2) by (simp add: srp_upsert_def)
  then show ?thesis using Some find_unique [OF assms(1), of k sid] k by simp
qed

interpretation registrar: keyed_table talkers_ok "\<lambda>t. rt_valid t \<noteq> 0" rt_stream_id srp_find_talker srp_upsert
  by unfold_locales (auto intro: upsert_ok find_upsert_same dest: find_upsert_other)

lemma age_ok: "talkers_ok ts \<Longrightarrow> talkers_ok (map (age_entry now) ts)"
proof -
  have "rt_valid (age_entry now t) \<noteq> 0 \<Longrightarrow> rt_valid t \<noteq> 0" "rt_stream_id (age_entry now t) = rt_stream_id t" for t
    by (auto simp: age_entry_def split: if_splits)
  then show "talkers_ok ts \<Longrightarrow> talkers_ok (map (age_entry now) ts)"
    unfolding talkers_ok_def by simp
qed

end
