(* ===== verification/SrpProps.thy ===== *)
theory SrpProps
  imports Srp
begin

text \<open>
  Properties of the stream reservation module: induction principles over a PDU (what every
  vector keeps, the parse keeps; only the bytes inside the frame matter), parsing as the
  inverse of the emitters, and the properties of declarations, reception and polling.
\<close>

section \<open>Induction over a PDU\<close>

lemma srp_vectors_step:
  "vp + 2 + unat al \<le> ae \<Longrightarrow> get_be16 m vp \<noteq> 0 \<Longrightarrow>
   srp_vectors cb ty al m ae vp w
     = srp_vectors cb ty al m ae (vp + 2 + unat al + packed_len ty (get_be16 m vp AND 0x1FFF))
         (srp_vector cb ty al m (vp + 2) w)"
  by (subst srp_vectors.simps) (simp add: Let_def)

lemma srp_vectors_stop:
  "\<not> (vp + 2 + unat al \<le> ae \<and> get_be16 m vp \<noteq> 0) \<Longrightarrow> srp_vectors cb ty al m ae vp w = w"
  by (subst srp_vectors.simps) (auto simp: Let_def)

abbreviation msg_end :: "mem \<Rightarrow> nat \<Rightarrow> nat" where
  "msg_end m p \<equiv> p + 4 + unat (get_be16 m (p + 2))"

lemma srp_messages_step:
  "msg_end m p \<le> end' \<Longrightarrow> \<not> (m p = 0 \<and> m (p + 1) = 0) \<Longrightarrow>
   srp_messages cb m end' p w
     = srp_messages cb m end' (msg_end m p) (srp_vectors cb (m p) (m (p + 1)) m (msg_end m p) (p + 4) w)"
  by (subst srp_messages.simps) (auto simp: Let_def)

lemma srp_messages_stop:
  "\<not> (p + 4 \<le> end' \<and> msg_end m p \<le> end' \<and> \<not> (m p = 0 \<and> m (p + 1) = 0)) \<Longrightarrow>
   srp_messages cb m end' p w = w"
  by (subst srp_messages.simps) (auto simp: Let_def)

text \<open>What every vector keeps, the whole parse keeps.\<close>

lemma srp_vectors_keeps:
  assumes "\<And>vp w. vp + unat al \<le> ae \<Longrightarrow> P w \<Longrightarrow> P (srp_vector cb ty al m vp w)"
  shows "P w \<Longrightarrow> P (srp_vectors cb ty al m ae vp w)"
proof (induction "ae - vp" arbitrary: vp w rule: less_induct)
  case less
  show ?case
  proof (cases "vp + 2 + unat al \<le> ae \<and> get_be16 m vp \<noteq> 0")
    case True
    have "P (srp_vector cb ty al m (vp + 2) w)" by (rule assms) (use True less.prems in auto)
    then have "P (srp_vectors cb ty al m ae (vp + 2 + unat al + packed_len ty (get_be16 m vp AND 0x1FFF))
        (srp_vector cb ty al m (vp + 2) w))"
      using True by (intro less.hyps) linarith
    then show ?thesis using srp_vectors_step [of vp al ae m cb ty w] True by simp
  next
    case False
    then show ?thesis using less.prems by (simp add: srp_vectors_stop)
  qed
qed

lemma srp_messages_keeps:
  assumes "\<And>ty al vp w. vp + unat al \<le> end' \<Longrightarrow> P w \<Longrightarrow> P (srp_vector cb ty al m vp w)"
  shows "P w \<Longrightarrow> P (srp_messages cb m end' p w)"
proof (induction "end' - p" arbitrary: p w rule: less_induct)
  case less
  show ?case
  proof (cases "p + 4 \<le> end' \<and> msg_end m p \<le> end' \<and> \<not> (m p = 0 \<and> m (p + 1) = 0)")
    case True
    have "P (srp_vectors cb (m p) (m (p + 1)) m (msg_end m p) (p + 4) w)"
      using less.prems by (rule srp_vectors_keeps [rotated]) (rule assms, use True in auto)
    then have "P (srp_messages cb m end' (msg_end m p) (srp_vectors cb (m p) (m (p + 1)) m (msg_end m p) (p + 4) w))"
      using True by (intro less.hyps) linarith
    then show ?thesis using srp_messages_step [of p m end' cb w] True by simp
  next
    case False
    then show ?thesis using less.prems by (simp only: srp_messages_stop [OF False])
  qed
qed

section \<open>Nothing past the frame is read\<close>

lemma read_talker_agree:
  assumes "\<And>i. i < vp + 25 \<Longrightarrow> f i = g i"
  shows "read_talker f vp now = read_talker g vp now"
proof -
  have "bytes f vp 8 = bytes g vp 8" "bytes f (vp + 8) 6 = bytes g (vp + 8) 6"
    "get_be16 f (vp + 14) = get_be16 g (vp + 14)" "get_be16 f (vp + 16) = get_be16 g (vp + 16)"
    "get_be16 f (vp + 18) = get_be16 g (vp + 18)" "get_be32 f (vp + 21) = get_be32 g (vp + 21)"
    "f (vp + 20) = g (vp + 20)"
    by (auto intro!: bytes_cong get_be16_agree get_be32_agree assms)
  then show ?thesis by (simp add: read_talker_def)
qed

lemma srp_vector_agree:
  assumes "\<And>i. i < vp + unat al \<Longrightarrow> f i = g i"
  shows "srp_vector cb ty al f vp w = srp_vector cb ty al g vp w"
proof -
  have d: "f vp = g vp \<and> f (vp + 1) = g (vp + 1) \<and> get_be16 f (vp + 2) = get_be16 g (vp + 2)" if "4 \<le> al"
  proof -
    have "4 \<le> unat al" using that by (simp add: word_le_nat_alt)
    then show ?thesis by (auto intro!: get_be16_agree assms)
  qed
  have t: "srp_talker_adv cb f vp w = srp_talker_adv cb g vp w" if "25 \<le> al"
  proof -
    have l: "25 \<le> unat al" using that by (simp add: word_le_nat_alt)
    have "bytes f vp 8 = bytes g vp 8" "bytes f (vp + 8) 6 = bytes g (vp + 8) 6"
      using l by (auto intro!: bytes_cong assms)
    moreover have "read_talker f vp = read_talker g vp"
      using l by (intro ext read_talker_agree assms) simp
    ultimately show ?thesis by (simp only: srp_talker_adv_def)
  qed
  obtain s h e where w: "w = (s, h, e)" by (cases w)
  have d1: "f vp = g vp" "f (vp + 1) = g (vp + 1)" "get_be16 f (vp + 2) = get_be16 g (vp + 2)" if "4 \<le> al"
    using d [OF that] by blast+
  show ?thesis
  proof (cases "ty = MSRP_ATTR_DOMAIN \<and> 4 \<le> al")
    case True
    then show ?thesis by (simp only: srp_vector_def w prod.case if_P d1)
  next
    case False
    note F = False
    show ?thesis
    proof (cases "25 \<le> al")
      case True
      then show ?thesis using t by (simp only: srp_vector_def w prod.case if_not_P [OF F] simp_thms if_False)
    next
      case False
      then show ?thesis using F by (simp only: srp_vector_def w prod.case if_not_P [OF F] simp_thms if_False)
    qed
  qed
qed

lemma srp_vectors_agree:
  assumes "\<And>i. i < ae \<Longrightarrow> f i = g i"
  shows "srp_vectors cb ty al f ae vp w = srp_vectors cb ty al g ae vp w"
proof (induction "ae - vp" arbitrary: vp w rule: less_induct)
  case less
  have h: "get_be16 f vp = get_be16 g vp" if "vp + 2 \<le> ae" using that by (intro get_be16_agree assms) simp
  show ?case
  proof (cases "vp + 2 + unat al \<le> ae \<and> get_be16 g vp \<noteq> 0")
    case True
    then have v: "srp_vector cb ty al f (vp + 2) w = srp_vector cb ty al g (vp + 2) w"
      by (intro srp_vector_agree assms) simp
    have e: "get_be16 f vp = get_be16 g vp" using True h by simp
    have "srp_vectors cb ty al f ae vp w
        = srp_vectors cb ty al f ae (vp + 2 + unat al + packed_len ty (get_be16 g vp AND 0x1FFF))
            (srp_vector cb ty al g (vp + 2) w)"
      using srp_vectors_step [of vp al ae f cb ty w] True unfolding e v by simp
    also have "\<dots> = srp_vectors cb ty al g ae (vp + 2 + unat al + packed_len ty (get_be16 g vp AND 0x1FFF))
            (srp_vector cb ty al g (vp + 2) w)"
      using True by (intro less.hyps) linarith
    also have "\<dots> = srp_vectors cb ty al g ae vp w"
      using srp_vectors_step [of vp al ae g cb ty w] True by simp
    finally show ?thesis .
  next
    case False
    then have "\<not> (vp + 2 + unat al \<le> ae \<and> get_be16 f vp \<noteq> 0)" using h by auto
    then show ?thesis using False by (simp add: srp_vectors_stop)
  qed
qed

lemma srp_messages_agree:
  assumes "\<And>i. i < end' \<Longrightarrow> f i = g i"
  shows "srp_messages cb f end' p w = srp_messages cb g end' p w"
proof (induction "end' - p" arbitrary: p w rule: less_induct)
  case less
  have h: "f p = g p \<and> f (p + 1) = g (p + 1) \<and> get_be16 f (p + 2) = get_be16 g (p + 2)" if "p + 4 \<le> end'"
    using that by (auto intro!: get_be16_agree assms)
  show ?case
  proof (cases "p + 4 \<le> end' \<and> msg_end g p \<le> end' \<and> \<not> (g p = 0 \<and> g (p + 1) = 0)")
    case True
    then have v: "srp_vectors cb (g p) (g (p + 1)) f (msg_end g p) (p + 4) w
        = srp_vectors cb (g p) (g (p + 1)) g (msg_end g p) (p + 4) w"
      by (intro srp_vectors_agree assms) simp
    have e: "f p = g p" "f (p + 1) = g (p + 1)" "get_be16 f (p + 2) = get_be16 g (p + 2)" using True h by auto
    let ?w = "srp_vectors cb (g p) (g (p + 1)) g (msg_end g p) (p + 4) w"
    have "srp_messages cb f end' p w = srp_messages cb f end' (msg_end g p) ?w"
      using srp_messages_step [of p f end' cb w] True unfolding e v by simp
    also have "\<dots> = srp_messages cb g end' (msg_end g p) ?w"
      using True by (intro less.hyps) linarith
    also have "\<dots> = srp_messages cb g end' p w"
      using srp_messages_step [of p g end' cb w] True by simp
    finally show ?thesis .
  next
    case False
    then have F: "\<not> (p + 4 \<le> end' \<and> msg_end f p \<le> end' \<and> \<not> (f p = 0 \<and> f (p + 1) = 0))" using h by auto
    show ?thesis by (simp only: srp_messages_stop [OF False] srp_messages_stop [OF F])
  qed
qed

section \<open>Parsing what was emitted\<close>

text \<open>A message of one vector with a single value, as the emitters build it.\<close>

definition one_value :: "u8 \<Rightarrow> bool \<Rightarrow> u8 list \<Rightarrow> u8 list \<Rightarrow> u8 list" where
  "one_value ty leaveall first events =
     (let vec = put_be16 (vec_hdr1 leaveall) @ first @ events @ put_be16 0
      in [ty, of_nat (length first)] @ put_be16 (of_nat (length vec)) @ vec)"

lemma length_one_value: "length (one_value ty l first events) = 8 + length first + length events"
  by (simp add: one_value_def Let_def)

lemma vec_hdr1_facts: "vec_hdr1 l \<noteq> 0" "vec_hdr1 l AND 0x1FFF = 1"
  by (simp_all add: vec_hdr1_def)

lemma parse_one_value:
  assumes st: "stored m p (one_value ty l first events)"
    and fits: "p + length (one_value ty l first events) \<le> end'"
    and "ty \<noteq> 0" and "length first < 200" and ev: "length events = packed_len ty 1"
  shows "srp_messages cb m end' p w
    = srp_messages cb m end' (p + length (one_value ty l first events))
        (srp_vector cb ty (of_nat (length first)) m (p + 6) w)"
    and "stored m (p + 6) first"
proof -
  let ?n = "length first" and ?e = "length events"
  have e: "?e \<le> 2" using ev by (simp add: packed_len_def)
  have b: "m p = ty" "m (p + 1) = of_nat ?n" "stored m (p + 2) (put_be16 (of_nat (4 + ?n + ?e)))"
      "stored m (p + 4) (put_be16 (vec_hdr1 l))" "stored m (p + 6) first"
      "stored m (p + 6 + ?n + ?e) (put_be16 0)"
    using st by (simp_all add: one_value_def Let_def numeral_eq_Suc add.commute add.left_commute)
  have u8: "unat (of_nat ?n :: u8) = ?n"
    using assms(4) by (simp add: unsigned_of_nat take_bit_nat_eq_self)
  have "unat (of_nat (4 + ?n + ?e) :: u16) = 4 + ?n + ?e"
    using assms(4) e by (simp add: unsigned_of_nat take_bit_nat_eq_self del: of_nat_add of_nat_numeral)
  then have me: "msg_end m p = p + length (one_value ty l first events)"
    unfolding stored_be16 [OF b(3)] by (simp add: length_one_value)
  have h: "get_be16 m (p + 4) = vec_hdr1 l" using b(4) by (rule stored_be16)
  have z: "get_be16 m (p + 6 + ?n + ?e) = 0" using b(6) by (rule stored_be16)
  let ?w = "srp_vector cb ty (of_nat ?n) m (p + 6) w"
  have "srp_vectors cb ty (of_nat ?n) m (msg_end m p) (p + 4) w
      = srp_vectors cb ty (of_nat ?n) m (msg_end m p)
          (p + 4 + 2 + ?n + packed_len ty (get_be16 m (p + 4) AND 0x1FFF))
          (srp_vector cb ty (of_nat ?n) m (p + 4 + 2) w)"
    using srp_vectors_step [of "p + 4" "of_nat ?n" "msg_end m p" m cb ty w] h
    by (simp only: u8 me length_one_value vec_hdr1_facts) simp
  also have "\<dots> = srp_vectors cb ty (of_nat ?n) m (msg_end m p) (p + 6 + ?n + ?e) ?w"
    by (simp only: h vec_hdr1_facts ev [symmetric]) (simp add: add.commute add.left_commute)
  also have "\<dots> = ?w" by (rule srp_vectors_stop) (simp add: z)
  finally have v: "srp_vectors cb ty (of_nat ?n) m (msg_end m p) (p + 4) w = ?w" .
  show "srp_messages cb m end' p w = srp_messages cb m end' (p + length (one_value ty l first events)) ?w"
    using srp_messages_step [of p m end' cb w] fits assms(3) unfolding b(1,2) v [unfolded me] me by simp
  show "stored m (p + 6) first" by (rule b(5))
qed

lemma emit_one_value:
  "msrp_emit_domain c p v l e = one_value MSRP_ATTR_DOMAIN l ([c, p] @ put_be16 v) [MRP_3PACK e 0 0]"
  "length (ta_stream_id t) = 8 \<Longrightarrow> length (ta_dest_addr t) = 6 \<Longrightarrow>
     msrp_emit_talker_adv t l e = one_value MSRP_ATTR_TALKER_ADV l (talker_first_value t) [MRP_3PACK e 0 0]"
  "length sid = 8 \<Longrightarrow>
     msrp_emit_listener sid sub l e = one_value MSRP_ATTR_LISTENER l sid [MRP_3PACK e 0 0, MRP_4PACK sub 0 0 0]"
  by (simp_all add: msrp_emit_domain_def msrp_emit_talker_adv_def msrp_emit_listener_def one_value_def
      talker_first_value_def Let_def)

lemma packed_lens [simp]:
  "packed_len MSRP_ATTR_DOMAIN 1 = 1" "packed_len MSRP_ATTR_TALKER_ADV 1 = 1" "packed_len MSRP_ATTR_LISTENER 1 = 2"
  by (simp_all add: packed_len_def MSRP_ATTR_LISTENER_def MSRP_ATTR_DOMAIN_def MSRP_ATTR_TALKER_ADV_def)

text \<open>The talker fields as the parser stores them.\<close>

lemma read_talker_first_value:
  assumes st: "stored m vp (talker_first_value t)"
    and l: "length (ta_stream_id t) = 8" "length (ta_dest_addr t) = 6"
  shows "read_talker m vp now = \<lparr>rt_valid = 1, rt_stream_id = ta_stream_id t, rt_dest_mac = ta_dest_addr t,
      rt_vlan_id = ta_vlan_id t, rt_max_frame_size = ta_max_frame_size t,
      rt_max_interval_frames = ta_max_interval_frames t, rt_priority_and_rank = ta_priority_and_rank t,
      rt_accumulated_latency_ns = ta_accumulated_latency_ns t, rt_last_seen_ms = now\<rparr>"
proof -
  have b: "stored m vp (ta_stream_id t)" "stored m (vp + 8) (ta_dest_addr t)"
    "stored m (vp + 14) (put_be16 (ta_vlan_id t))" "stored m (vp + 16) (put_be16 (ta_max_frame_size t))"
    "stored m (vp + 18) (put_be16 (ta_max_interval_frames t))" "m (vp + 20) = ta_priority_and_rank t"
    "stored m (vp + 21) (put_be32 (ta_accumulated_latency_ns t))"
    using st l by (simp_all add: talker_first_value_def add.commute add.left_commute)
  show ?thesis
    unfolding read_talker_def
    by (simp only: stored_bytes [OF b(1) l(1)] stored_bytes [OF b(2) l(2)] stored_be16 [OF b(3)]
        stored_be16 [OF b(4)] stored_be16 [OF b(5)] b(6) stored_be32 [OF b(7)])
qed

lemma parse_domain:
  assumes st: "stored m p (msrp_emit_domain c pr v l ev)" and fits: "p + 13 \<le> end'"
  shows "srp_messages cb m end' p (s, h, e) = srp_messages cb m end' (p + 13)
    (s\<lparr>s_rx_domain_count := s_rx_domain_count s + 1, s_domain_received := 1,
       s_rx_sr_class := c, s_rx_sr_prio := pr, s_rx_sr_vid := v\<rparr>, h, e)"
proof -
  let ?f = "[c, pr] @ put_be16 v"
  note st' = st [unfolded emit_one_value]
  have len: "length (one_value MSRP_ATTR_DOMAIN l ?f [MRP_3PACK ev 0 0]) = 13" by (simp add: length_one_value)
  have v: "stored m (p + 6) ?f"
    by (rule parse_one_value(2) [OF st', of end'])
      (use fits in \<open>simp_all add: length_one_value MSRP_ATTR_DOMAIN_def packed_len_def MSRP_ATTR_LISTENER_def\<close>)
  have m: "srp_messages cb m end' p (s, h, e) = srp_messages cb m end' (p + 13)
      (srp_vector cb MSRP_ATTR_DOMAIN (of_nat (length ?f)) m (p + 6) (s, h, e))"
    using parse_one_value(1) [OF st', of end' cb "(s, h, e)"] fits unfolding len
    by (simp add: MSRP_ATTR_DOMAIN_def packed_len_def MSRP_ATTR_LISTENER_def)
  have b: "m (p + 6) = c" "m (p + 7) = pr" "stored m (p + 8) (put_be16 v)"
    using v by (simp_all add: numeral_eq_Suc)
  have "srp_vector cb MSRP_ATTR_DOMAIN 4 m (p + 6) (s, h, e)
      = (s\<lparr>s_rx_domain_count := s_rx_domain_count s + 1, s_domain_received := 1,
       s_rx_sr_class := c, s_rx_sr_prio := pr, s_rx_sr_vid := v\<rparr>, h, e)"
    using b(1,2) stored_be16 [OF b(3)] by (simp add: srp_vector_def add.commute)
  then show ?thesis using m by simp
qed

lemma parse_talker:
  assumes st: "stored m p (msrp_emit_talker_adv t l ev)" and fits: "p + 34 \<le> end'"
    and lens: "length (ta_stream_id t) = 8" "length (ta_dest_addr t) = 6"
  shows "srp_messages cb m end' p w = srp_messages cb m end' (p + 34) (srp_talker_adv cb m (p + 6) w)"
    and "stored m (p + 6) (talker_first_value t)"
proof -
  let ?f = "talker_first_value t"
  note st' = st [unfolded emit_one_value(2) [OF lens]]
  have lf: "length ?f = 25" using lens by (simp add: talker_first_value_def)
  have len: "length (one_value MSRP_ATTR_TALKER_ADV l ?f [MRP_3PACK ev 0 0]) = 34" by (simp add: length_one_value lf)
  have m: "srp_messages cb m end' p w = srp_messages cb m end' (p + 34)
      (srp_vector cb MSRP_ATTR_TALKER_ADV 25 m (p + 6) w)"
    using parse_one_value(1) [OF st', of end' cb w] fits unfolding len lf
    by (simp add: MSRP_ATTR_TALKER_ADV_def packed_len_def MSRP_ATTR_LISTENER_def)
  show "stored m (p + 6) ?f"
    using parse_one_value(2) [OF st', of end'] fits unfolding len lf
    by (simp add: MSRP_ATTR_TALKER_ADV_def packed_len_def MSRP_ATTR_LISTENER_def)
  have "srp_vector cb MSRP_ATTR_TALKER_ADV 25 m (p + 6) w = srp_talker_adv cb m (p + 6) w"
    by (cases w) (simp add: srp_vector_def MSRP_ATTR_TALKER_ADV_def MSRP_ATTR_DOMAIN_def
        MSRP_ATTR_TALKER_FAIL_def MSRP_ATTR_LISTENER_def)
  then show "srp_messages cb m end' p w = srp_messages cb m end' (p + 34) (srp_talker_adv cb m (p + 6) w)"
    using m by simp
qed

lemma parse_listener:
  assumes st: "stored m p (msrp_emit_listener sid sub l ev)" and fits: "p + 18 \<le> end'" and len8: "length sid = 8"
  shows "srp_messages cb m end' p (s, h, e) = srp_messages cb m end' (p + 18)
    (s\<lparr>s_rx_listener_count := s_rx_listener_count s + 1\<rparr>, h, e)"
proof -
  note st' = st [unfolded emit_one_value(3) [OF len8]]
  have len: "length (one_value MSRP_ATTR_LISTENER l sid [MRP_3PACK ev 0 0, MRP_4PACK sub 0 0 0]) = 18"
    by (simp add: length_one_value len8)
  have "srp_messages cb m end' p (s, h, e) = srp_messages cb m end' (p + 18)
      (srp_vector cb MSRP_ATTR_LISTENER 8 m (p + 6) (s, h, e))"
    using parse_one_value(1) [OF st', of end' cb "(s, h, e)"] fits unfolding len len8
    by (simp add: MSRP_ATTR_LISTENER_def packed_len_def)
  also have "srp_vector cb MSRP_ATTR_LISTENER 8 m (p + 6) (s, h, e)
      = (s\<lparr>s_rx_listener_count := s_rx_listener_count s + 1\<rparr>, h, e)"
    by (simp add: srp_vector_def MSRP_ATTR_DOMAIN_def MSRP_ATTR_TALKER_FAIL_def MSRP_ATTR_LISTENER_def)
  finally show ?thesis .
qed

lemma parse_end: "stored m p (put_be16 0) \<Longrightarrow> srp_messages cb m end' p w = w"
  by (rule srp_messages_stop) (simp add: put_be16_def)

section \<open>The declarations frame\<close>

definition dom_class :: "srp_state \<Rightarrow> u8" where
  "dom_class s = (if s_domain_received s \<noteq> 0 then s_rx_sr_class s else SR_CLASS_A)"

definition dom_prio :: "srp_state \<Rightarrow> u8" where
  "dom_prio s = (if s_domain_received s \<noteq> 0 then s_rx_sr_prio s else SR_CLASS_A_PRIO)"

definition dom_vid :: "srp_state \<Rightarrow> u16" where
  "dom_vid s = (if s_domain_received s \<noteq> 0 then s_rx_sr_vid s else SR_CLASS_A_VID)"

definition declared_talker :: "srp_state \<Rightarrow> srp_talker_attr" where
  "declared_talker s = (s_talker s)\<lparr>ta_priority_and_rank := push_bit 5 (dom_prio s) OR push_bit 4 1,
                                    ta_vlan_id := dom_vid s\<rparr>"

definition decl_bytes :: "bool \<Rightarrow> srp_state \<Rightarrow> u8 list" where
  "decl_bytes l s = msrp_frame_begin (s_src_mac s)
     @ msrp_emit_domain (dom_class s) (dom_prio s) (dom_vid s) l (mrp_event (s_domain_new_count s))
     @ (if s_talker_enabled s \<noteq> 0
        then msrp_emit_talker_adv (declared_talker s) l (mrp_event (s_talker_new_count s)) else [])
     @ (if s_listener_enabled s \<noteq> 0
        then msrp_emit_listener (s_listener_stream_id s) (s_listener_substate s) l
               (mrp_event (s_listener_new_count s)) else [])
     @ put_be16 0"

definition decl_state :: "srp_state \<Rightarrow> srp_state" where
  "decl_state s = s\<lparr>s_domain_new_count := bump_new (s_domain_new_count s),
     s_talker := (if s_talker_enabled s \<noteq> 0 then declared_talker s else s_talker s),
     s_talker_new_count := (if s_talker_enabled s \<noteq> 0 then bump_new (s_talker_new_count s) else s_talker_new_count s),
     s_listener_new_count :=
       (if s_listener_enabled s \<noteq> 0 then bump_new (s_listener_new_count s) else s_listener_new_count s),
     s_join_count := s_join_count s + 1\<rparr>"

lemma send_declarations_eq: "srp_send_declarations l (s, h) = (decl_state s, srp_send (decl_bytes l s) h)"
  by (simp add: srp_send_declarations_def decl_state_def decl_bytes_def declared_talker_def
      dom_class_def dom_prio_def dom_vid_def Let_def)

lemma srp_send_sent:
  "length fr \<le> 1000 \<Longrightarrow> hw_sent (srp_send fr h) = hw_sent h @ [pad64 fr]"
proof -
  assume a: "length fr \<le> 1000"
  then have "length (pad64 fr) \<le> 1000" by (simp add: pad64_def)
  then have "unat (of_nat (length (pad64 fr)) :: u32) = length (pad64 fr)"
    by (simp add: unsigned_of_nat take_bit_nat_eq_self)
  then show ?thesis by (simp add: srp_send_def bytes_mput_same)
qed

definition srp_wf :: "srp_state \<Rightarrow> bool" where
  "srp_wf s \<longleftrightarrow> length (s_src_mac s) = 6 \<and> length (ta_stream_id (s_talker s)) = 8
     \<and> length (ta_dest_addr (s_talker s)) = 6 \<and> length (s_listener_stream_id s) = 8"

lemma decl_lengths:
  assumes "srp_wf s"
  shows "length (msrp_frame_begin (s_src_mac s)) = 15"
    and "length (msrp_emit_domain c p v l ev) = 13"
    and "length (msrp_emit_talker_adv (declared_talker s) l ev) = 34"
    and "length (msrp_emit_listener (s_listener_stream_id s) sub l ev) = 18"
  using assms by (simp_all add: srp_wf_def msrp_frame_begin_def MSRP_MCAST_ADDR_def msrp_emit_domain_def
      msrp_emit_talker_adv_def msrp_emit_listener_def talker_first_value_def declared_talker_def Let_def)

lemma decl_bytes_length: "srp_wf s \<Longrightarrow> length (decl_bytes l s) \<le> 82"
  by (simp add: decl_bytes_def decl_lengths)

text \<open>Where the parts of a declarations frame stand.\<close>

lemma decl_layout:
  assumes wf: "srp_wf s" and st: "stored m 0 (decl_bytes l s)" and len: "length (decl_bytes l s) \<le> n"
  defines "talker_end \<equiv> if s_talker_enabled s \<noteq> 0 then 62 else 28 :: nat"
  shows "get_be16 m 12 = MSRP_ETHERTYPE" "m 14 = MSRP_PROTO_VERSION"
    "stored m 15 (msrp_emit_domain (dom_class s) (dom_prio s) (dom_vid s) l (mrp_event (s_domain_new_count s)))"
    "s_talker_enabled s \<noteq> 0 \<Longrightarrow>
       stored m 28 (msrp_emit_talker_adv (declared_talker s) l (mrp_event (s_talker_new_count s)))"
    "s_listener_enabled s \<noteq> 0 \<Longrightarrow> stored m talker_end
       (msrp_emit_listener (s_listener_stream_id s) (s_listener_substate s) l (mrp_event (s_listener_new_count s)))"
    "stored m (talker_end + (if s_listener_enabled s \<noteq> 0 then 18 else 0)) (put_be16 0)"
    "talker_end + (if s_listener_enabled s \<noteq> 0 then 18 else 0) + 2 \<le> n"
proof -
  note dl = decl_lengths [OF wf]
  have b0: "stored m 0 (msrp_frame_begin (s_src_mac s))" using st by (simp add: decl_bytes_def)
  have "stored m 12 (put_be16 MSRP_ETHERTYPE)"
    using b0 wf by (simp add: msrp_frame_begin_def srp_wf_def MSRP_MCAST_ADDR_def)
  then show "get_be16 m 12 = MSRP_ETHERTYPE" by (rule stored_be16)
  show "m 14 = MSRP_PROTO_VERSION"
    using b0 wf by (simp add: msrp_frame_begin_def srp_wf_def MSRP_MCAST_ADDR_def)
  show "talker_end + (if s_listener_enabled s \<noteq> 0 then 18 else 0) + 2 \<le> n"
    using len by (auto simp: decl_bytes_def dl talker_end_def)
qed (use st in \<open>auto simp: decl_bytes_def decl_lengths [OF wf] talker_end_def\<close>)

text \<open>What a peer makes of a declarations frame: the domain, then the talker, then the listener.\<close>

definition domain_heard :: "srp_state \<Rightarrow> srp_state \<Rightarrow> srp_state" where
  "domain_heard s r = r\<lparr>s_rx_pdu_count := s_rx_pdu_count r + 1, s_rx_domain_count := s_rx_domain_count r + 1,
     s_domain_received := 1, s_rx_sr_class := dom_class s, s_rx_sr_prio := dom_prio s, s_rx_sr_vid := dom_vid s\<rparr>"

definition listener_heard :: "srp_state \<Rightarrow> srp_state \<times> hw \<times> 'e \<Rightarrow> srp_state \<times> hw \<times> 'e" where
  "listener_heard s = (\<lambda>(r, k, e). (if s_listener_enabled s \<noteq> 0
     then r\<lparr>s_rx_listener_count := s_rx_listener_count r + 1\<rparr> else r, k, e))"

lemma process_declarations:
  assumes wf: "srp_wf s" and st: "stored m 0 (decl_bytes l s)" and len: "length (decl_bytes l s) \<le> unat n"
  shows "srp_process_rx cb m n (r, k, e) = listener_heard s
      (if s_talker_enabled s \<noteq> 0 then srp_talker_adv cb m 34 (domain_heard s r, k, e) else (domain_heard s r, k, e))"
    and "s_talker_enabled s \<noteq> 0 \<Longrightarrow> stored m 34 (talker_first_value (declared_talker s))"
proof -
  let ?t = "s_talker_enabled s \<noteq> 0" and ?l = "s_listener_enabled s \<noteq> 0"
  note b = decl_layout [OF wf st len]
  have tl: "length (ta_stream_id (declared_talker s)) = 8" "length (ta_dest_addr (declared_talker s)) = 6"
    and ll: "length (s_listener_stream_id s) = 8" using wf by (simp_all add: declared_talker_def srp_wf_def)
  show "stored m 34 (talker_first_value (declared_talker s))" if ?t
    using parse_talker(2) [OF b(4) [OF that] _ tl, of "unat n"] b(7) that by (simp split: if_splits)
  let ?r1 = "r\<lparr>s_rx_pdu_count := s_rx_pdu_count r + 1\<rparr>"
  let ?w1 = "(domain_heard s r, k, e)"
  let ?w2 = "if ?t then srp_talker_adv cb m 34 ?w1 else ?w1"
  have "\<not> n < 14 + 2" using b(7) by (auto simp: word_less_nat_alt split: if_splits)
  then have "srp_process_rx cb m n (r, k, e) = srp_messages cb m (unat n) 15 (?r1, k, e)"
    by (simp add: srp_process_rx_def b(1,2))
  also have "\<dots> = srp_messages cb m (unat n) 28 ?w1"
    using parse_domain [OF b(3), of "unat n" cb ?r1 k e] b(7) by (simp add: domain_heard_def split: if_splits)
  also have "\<dots> = srp_messages cb m (unat n) (if ?t then 62 else 28) ?w2"
    using parse_talker(1) [OF b(4) _ tl, of "unat n" cb ?w1] b(7) by (simp split: if_splits)
  also have "\<dots> = listener_heard s ?w2"
  proof (cases ?l)
    case True
    have p: "(if ?t then 62 else 28) + 18 \<le> unat n" using b(7) True by simp
    obtain r2 k2 e2 where w2: "?w2 = (r2, k2, e2)" by (metis surj_pair)
    show ?thesis
      using True b(6) unfolding w2 parse_listener [OF b(5) [OF True] p ll] by (simp add: parse_end listener_heard_def)
  next
    case False
    then show ?thesis using b(6) by (simp add: parse_end listener_heard_def split: prod.split)
  qed
  finally show "srp_process_rx cb m n (r, k, e) = listener_heard s ?w2" .
qed


text \<open>A talker advertisement seen by a peer with no observer callback.\<close>

lemma talker_adv_none:
  assumes st: "stored m vp (talker_first_value t)"
    and lens: "length (ta_stream_id t) = 8" "length (ta_dest_addr t) = 6"
    and ok: "talkers_ok (s_remote_talkers r)"
    and run: "srp_talker_adv None m vp (r, k, e) = (r', k', e')"
  shows "srp_find_talker (s_remote_talkers r') (ta_stream_id t) = Some
      \<lparr>rt_valid = 1, rt_stream_id = ta_stream_id t, rt_dest_mac = ta_dest_addr t,
       rt_vlan_id = ta_vlan_id t, rt_max_frame_size = ta_max_frame_size t,
       rt_max_interval_frames = ta_max_interval_frames t, rt_priority_and_rank = ta_priority_and_rank t,
       rt_accumulated_latency_ns = ta_accumulated_latency_ns t, rt_last_seen_ms = peek_ms (tick_time k)\<rparr>"
    and "talkers_ok (s_remote_talkers r')"
    and "s_rx_talker_adv_count r' = s_rx_talker_adv_count r + 1"
    and "s_talker_registered r' = (if s_listener_enabled r \<noteq> 0 \<and> ta_stream_id t = s_listener_stream_id r
           then 1 else s_talker_registered r)"
    and "s_rx_pdu_count r' = s_rx_pdu_count r" "s_domain_received r' = s_domain_received r"
      "s_rx_sr_class r' = s_rx_sr_class r" "s_rx_sr_prio r' = s_rx_sr_prio r" "s_rx_sr_vid r' = s_rx_sr_vid r"
      "s_rx_listener_count r' = s_rx_listener_count r"
proof -
  let ?u = "read_talker m vp (peek_ms (tick_time k))"
  have sid: "bytes m vp 8 = ta_stream_id t"
    using st lens by (simp add: talker_first_value_def stored_bytes)
  have u: "rt_stream_id ?u = ta_stream_id t" "rt_valid ?u \<noteq> 0" by (simp_all add: read_talker_def sid)
  have tb: "s_remote_talkers r' = srp_upsert ?u (s_remote_talkers r)"
    using run by (auto simp: srp_talker_adv_def gptp_uptime_ms_eq Let_def split: if_splits)
  show "srp_find_talker (s_remote_talkers r') (ta_stream_id t) = Some
      \<lparr>rt_valid = 1, rt_stream_id = ta_stream_id t, rt_dest_mac = ta_dest_addr t,
       rt_vlan_id = ta_vlan_id t, rt_max_frame_size = ta_max_frame_size t,
       rt_max_interval_frames = ta_max_interval_frames t, rt_priority_and_rank = ta_priority_and_rank t,
       rt_accumulated_latency_ns = ta_accumulated_latency_ns t, rt_last_seen_ms = peek_ms (tick_time k)\<rparr>"
    using registrar.lookup_same [OF ok u(2)]
    unfolding tb u(1) by (simp only: read_talker_first_value [OF st lens])
  show "talkers_ok (s_remote_talkers r')" unfolding tb by (rule registrar.inv_insert [OF ok u(2)])
  show "s_rx_talker_adv_count r' = s_rx_talker_adv_count r + 1"
    "s_talker_registered r' = (if s_listener_enabled r \<noteq> 0 \<and> ta_stream_id t = s_listener_stream_id r
           then 1 else s_talker_registered r)"
    "s_rx_pdu_count r' = s_rx_pdu_count r" "s_domain_received r' = s_domain_received r"
      "s_rx_sr_class r' = s_rx_sr_class r" "s_rx_sr_prio r' = s_rx_sr_prio r" "s_rx_sr_vid r' = s_rx_sr_vid r"
      "s_rx_listener_count r' = s_rx_listener_count r"
    using run by (auto simp: srp_talker_adv_def gptp_uptime_ms_eq Let_def sid split: if_splits)
qed

text \<open>The declarations as they arrive: the frame sent holds them and is long enough.\<close>

lemma declarations_on_wire:
  assumes wf: "srp_wf s" and snd: "srp_send_declarations leaveall (s, h) = (s', h')"
  obtains fr where "hw_sent h' = hw_sent h @ [fr]" and "stored (mem_of fr) 0 (decl_bytes leaveall s)"
    and "length (decl_bytes leaveall s) \<le> unat (of_nat (length fr) :: u32)"
proof
  let ?fr = "pad64 (decl_bytes leaveall s)"
  have len: "length (decl_bytes leaveall s) \<le> 82" by (rule decl_bytes_length [OF wf])
  then show "hw_sent h' = hw_sent h @ [?fr]"
    using snd srp_send_sent [of "decl_bytes leaveall s" h] by (auto simp: send_declarations_eq)
  show "stored (mem_of ?fr) 0 (decl_bytes leaveall s)"
    using stored_mem_of [of ?fr] by (simp add: pad64_def split: if_splits)
  have "length ?fr \<le> 82" using len by (simp add: pad64_def)
  then have "unat (of_nat (length ?fr) :: u32) = length ?fr"
    by (simp add: unsigned_of_nat take_bit_nat_eq_self)
  then show "length (decl_bytes leaveall s) \<le> unat (of_nat (length ?fr) :: u32)" by (simp add: pad64_def)
qed

lemma declared_talker_fields:
  "ta_stream_id (declared_talker s) = ta_stream_id (s_talker s)" "ta_dest_addr (declared_talker s) = ta_dest_addr (s_talker s)"
  "ta_max_frame_size (declared_talker s) = ta_max_frame_size (s_talker s)"
  "ta_max_interval_frames (declared_talker s) = ta_max_interval_frames (s_talker s)"
  "ta_vlan_id (declared_talker s) = dom_vid s"
  "ta_priority_and_rank (declared_talker s) = push_bit 5 (dom_prio s) OR push_bit 4 1"
  "ta_accumulated_latency_ns (declared_talker s) = ta_accumulated_latency_ns (s_talker s)"
  by (simp_all add: declared_talker_def)

text \<open>
  C8.  A board's declarations are understood by a peer running the same parser.  The frame
  sent by \<open>srp_send_declarations\<close> carries the SR domain (the bridge's if one was heard, the
  802.1Q defaults otherwise); if the talker is enabled, the peer's registrar holds the talker
  under its stream id with exactly the declared fields and the time of arrival, and the peer
  marks its own talker as registered iff its listener asked for that stream; if the listener
  is enabled, the peer counts one listener declaration.
\<close>

theorem srp_declarations_understood:
  assumes wf: "srp_wf s" and ok: "talkers_ok (s_remote_talkers r)"
    and snd: "srp_send_declarations leaveall (s, h) = (s', h')"
    and rcv: "srp_process_rx None (mem_of (last (hw_sent h'))) (of_nat (length (last (hw_sent h')))) (r, k, e) = (r', k', e')"
  shows "length (hw_sent h') = length (hw_sent h) + 1
    \<and> s_rx_pdu_count r' = s_rx_pdu_count r + 1 \<and> s_domain_received r' = 1
    \<and> (s_rx_sr_class r', s_rx_sr_prio r', s_rx_sr_vid r')
       = (if s_domain_received s \<noteq> 0 then (s_rx_sr_class s, s_rx_sr_prio s, s_rx_sr_vid s)
          else (SR_CLASS_A, SR_CLASS_A_PRIO, SR_CLASS_A_VID))
    \<and> talkers_ok (s_remote_talkers r')
    \<and> s_rx_listener_count r' = s_rx_listener_count r + (if s_listener_enabled s \<noteq> 0 then 1 else 0)
    \<and> (if s_talker_enabled s = 0
       then s_remote_talkers r' = s_remote_talkers r \<and> s_rx_talker_adv_count r' = s_rx_talker_adv_count r
       else s_rx_talker_adv_count r' = s_rx_talker_adv_count r + 1
         \<and> s_talker_registered r' = (if s_listener_enabled r \<noteq> 0 \<and> ta_stream_id (s_talker s) = s_listener_stream_id r
              then 1 else s_talker_registered r)
         \<and> srp_find_talker (s_remote_talkers r') (ta_stream_id (s_talker s)) = Some
             \<lparr>rt_valid = 1, rt_stream_id = ta_stream_id (s_talker s), rt_dest_mac = ta_dest_addr (s_talker s),
              rt_vlan_id = s_rx_sr_vid r', rt_max_frame_size = ta_max_frame_size (s_talker s),
              rt_max_interval_frames = ta_max_interval_frames (s_talker s),
              rt_priority_and_rank = push_bit 5 (s_rx_sr_prio r') OR push_bit 4 1,
              rt_accumulated_latency_ns = ta_accumulated_latency_ns (s_talker s),
              rt_last_seen_ms = peek_ms (tick_time k)\<rparr>)"
proof -
  let ?t = "declared_talker s"
  obtain fr where h': "hw_sent h' = hw_sent h @ [fr]" and st: "stored (mem_of fr) 0 (decl_bytes leaveall s)"
    and le: "length (decl_bytes leaveall s) \<le> unat (of_nat (length fr) :: u32)"
    by (rule declarations_on_wire [OF wf snd])
  have fr: "last (hw_sent h') = fr" by (simp add: h')
  have tl: "length (ta_stream_id ?t) = 8" "length (ta_dest_addr ?t) = 6"
    using wf by (simp_all add: srp_wf_def declared_talker_def)
  obtain r2 k2 e2 where w2: "srp_talker_adv None (mem_of fr) 34 (domain_heard s r, k, e) = (r2, k2, e2)" by (metis surj_pair)
  note p = process_declarations(1) [OF wf st le, of None r k e]
  note dom = dom_class_def dom_prio_def dom_vid_def
  show ?thesis
  proof (cases "s_talker_enabled s = 0")
    case True
    then show ?thesis
      using rcv p ok unfolding fr by (auto simp: h' dom domain_heard_def listener_heard_def)
  next
    case False
    have r': "r' = (if s_listener_enabled s \<noteq> 0 then r2\<lparr>s_rx_listener_count := s_rx_listener_count r2 + 1\<rparr> else r2)"
      using rcv [unfolded fr] p [unfolded w2] False by (simp add: listener_heard_def)
    have f: "s_rx_pdu_count r' = s_rx_pdu_count r2" "s_domain_received r' = s_domain_received r2"
      "s_rx_sr_class r' = s_rx_sr_class r2" "s_rx_sr_prio r' = s_rx_sr_prio r2" "s_rx_sr_vid r' = s_rx_sr_vid r2"
      "s_remote_talkers r' = s_remote_talkers r2" "s_rx_talker_adv_count r' = s_rx_talker_adv_count r2"
      "s_talker_registered r' = s_talker_registered r2"
      "s_rx_listener_count r' = s_rx_listener_count r2 + (if s_listener_enabled s \<noteq> 0 then 1 else 0)"
      by (simp_all add: r')
    have ok1: "talkers_ok (s_remote_talkers (domain_heard s r))" using ok by (simp add: domain_heard_def)
    note a = talker_adv_none [OF process_declarations(2) [OF wf st le False] tl ok1 w2]
    have d: "(dom_class s, dom_prio s, dom_vid s) = (if s_domain_received s \<noteq> 0
          then (s_rx_sr_class s, s_rx_sr_prio s, s_rx_sr_vid s) else (SR_CLASS_A, SR_CLASS_A_PRIO, SR_CLASS_A_VID))"
      by (simp add: dom)
    have g: "s_rx_sr_class r' = dom_class s" "s_rx_sr_prio r' = dom_prio s" "s_rx_sr_vid r' = dom_vid s"
      using a(7,8,9) by (simp_all add: f domain_heard_def)
    show ?thesis
      unfolding g d using False a(1-6,10) by (simp add: h' declared_talker_fields f domain_heard_def)
  qed
qed

definition srp_demo :: srp_state where
  "srp_demo = srp_talker_enable (srp_talker_set (fst (srp_init [2, 0, 0, 0, 0, 1] hw0))
     [2, 0, 0, 0, 0, 1, 0, 0] [0x91, 0xE0, 0xF0, 0, 0x0E, 0x80] 224) 1"

lemma srp_demo_wf: "srp_wf srp_demo"
  by (simp add: srp_demo_def srp_wf_def srp_init_def srp_talker_enable_def srp_talker_set_def srp_zero_def)

lemma talkers_ok_zero: "talkers_ok (s_remote_talkers srp_zero)"
  by (simp add: talkers_ok_def srp_zero_def remote_talker_zero_def)

theorem srp_declarations_understood_witness:
  "case srp_send_declarations True (srp_demo, hw0) of (s', h') \<Rightarrow>
   case srp_process_rx None (mem_of (last (hw_sent h'))) (of_nat (length (last (hw_sent h')))) (srp_zero, hw0, ()) of
   (r', k', e') \<Rightarrow> \<exists>t. srp_find_talker (s_remote_talkers r') [2, 0, 0, 0, 0, 1, 0, 0] = Some t \<and> rt_dest_mac t = [0x91, 0xE0, 0xF0, 0, 0x0E, 0x80]
      \<and> rt_vlan_id t = 2 \<and> rt_max_frame_size t = 224 \<and> rt_priority_and_rank t = 0x70"
proof -
  obtain s' h' where 1: "srp_send_declarations True (srp_demo, hw0) = (s', h')" by fastforce
  obtain r' k' e' where 2: "srp_process_rx None (mem_of (last (hw_sent h'))) (of_nat (length (last (hw_sent h'))))
      (srp_zero, hw0, ()) = (r', k', e')" by (metis surj_pair)
  have f: "s_talker_enabled srp_demo = 1" "ta_stream_id (s_talker srp_demo) = [2, 0, 0, 0, 0, 1, 0, 0]"
    "ta_dest_addr (s_talker srp_demo) = [0x91, 0xE0, 0xF0, 0, 0x0E, 0x80]" "ta_max_frame_size (s_talker srp_demo) = 224"
    "s_domain_received srp_demo = 0"
    by (simp_all add: srp_demo_def srp_init_def srp_talker_enable_def srp_talker_set_def srp_zero_def)
  have "push_bit 5 SR_CLASS_A_PRIO OR push_bit 4 1 = (0x70 :: u8)" by (simp add: SR_CLASS_A_PRIO_def)
  then show ?thesis
    using srp_declarations_understood [OF srp_demo_wf talkers_ok_zero 1 2] f
    by (auto simp: 1 2 SR_CLASS_A_VID_def)
qed

section \<open>Reception\<close>

text \<open>
  Reception of an MSRP PDU depends on the bytes inside the frame alone: whatever the
  receive slot holds after the frame's length, the resulting state, the registrar and the
  calls made to the observer are the same.
\<close>

theorem srp_rx_within_frame:
  assumes "bytes f 0 (unat len) = bytes g 0 (unat len)"
  shows "srp_process_rx cb f len w = srp_process_rx cb g len w"
proof -
  have a: "f i = g i" if "i < unat len" for i
    using assms that nth_bytes [of i "unat len" f 0] nth_bytes [of i "unat len" g 0] by simp
  obtain s h e where w: "w = (s, h, e)" by (cases w)
  show ?thesis
  proof (cases "len < 14 + 2")
    case True
    then show ?thesis by (simp add: srp_process_rx_def w)
  next
    case False
    then have l: "16 \<le> unat len" by (simp add: word_less_nat_alt)
    then have "get_be16 f 12 = get_be16 g 12" "f 14 = g 14" by (auto intro!: get_be16_agree a)
    then show ?thesis
      using srp_messages_agree [of "unat len" f g cb 15] a by (simp add: srp_process_rx_def w)
  qed
qed

theorem srp_rx_within_frame_witness:
  "srp_process_rx (None :: unit callback option) (mem_of (zeros 20)) 16 (srp_zero, hw0, ())
     = srp_process_rx None (mem_of (zeros 16 @ [1, 2, 3])) 16 (srp_zero, hw0, ())"
  by (rule srp_rx_within_frame, rule bytes_cong) (simp add: mem_of_def nth_append zeros_def)

lemma srp_process_rx_keeps:
  assumes step: "\<And>ty al vp w. vp + unat al \<le> unat len \<Longrightarrow> P w \<Longrightarrow> P (srp_vector cb ty al m vp w)"
    and cnt: "\<And>s h e. P (s, h, e) \<Longrightarrow> P (s\<lparr>s_rx_pdu_count := s_rx_pdu_count s + 1\<rparr>, h, e)"
    and "P w"
  shows "P (srp_process_rx cb m len w)"
proof -
  obtain s h e where w: "w = (s, h, e)" by (cases w)
  have "P (srp_messages cb m (unat len) 15 (s\<lparr>s_rx_pdu_count := s_rx_pdu_count s + 1\<rparr>, h, e))"
    using cnt [OF assms(3) [unfolded w]] by (rule srp_messages_keeps [rotated]) (rule step)
  then show ?thesis using assms(3) by (simp add: srp_process_rx_def w)
qed

text \<open>
  C27.  The registrar stays a table.  For every frame, however malformed, and every observer
  that itself keeps the table well formed: after reception, and after a poll, the table has
  its eight entries and no stream id is registered twice.
\<close>

theorem srp_registrar_invariant:
  assumes ok: "talkers_ok (s_remote_talkers s)"
    and cb: "\<And>f sid mac w. cb = Some f \<Longrightarrow> talkers_ok (s_remote_talkers (fst w)) \<Longrightarrow>
               talkers_ok (s_remote_talkers (fst (f sid mac w)))"
  shows "talkers_ok (s_remote_talkers (fst (srp_process_rx cb m len (s, h, e))))
    \<and> talkers_ok (s_remote_talkers (fst (srp_poll (s, h))))"
proof
  let ?P = "\<lambda>w :: 'a world. talkers_ok (s_remote_talkers (fst w))"
  have adv: "?P (srp_talker_adv cb m vp w)" if "?P w" for vp w
  proof -
    obtain s h e where w: "w = (s, h, e)" by (cases w)
    let ?w = "(s\<lparr>s_rx_talker_adv_count := s_rx_talker_adv_count s + 1,
                s_remote_talkers := srp_upsert (read_talker m vp (peek_ms (tick_time h))) (s_remote_talkers s)\<rparr>,
                tick_time (tick_time h), e)"
    have p: "?P ?w" using that w by (simp add: upsert_ok)
    show ?thesis
    proof (cases cb)
      case None
      then show ?thesis using p by (simp add: srp_talker_adv_def w gptp_uptime_ms_eq Let_def)
    next
      case (Some f)
      obtain s2 h2 e2 where f: "f (bytes m vp 8) (bytes m (vp + 8) 6) ?w = (s2, h2, e2)" by (metis surj_pair)
      then have "talkers_ok (s_remote_talkers s2)" using cb [OF Some p, of "bytes m vp 8" "bytes m (vp + 8) 6"] by simp
      then show ?thesis using Some f by (simp add: srp_talker_adv_def w gptp_uptime_ms_eq Let_def)
    qed
  qed
  show "?P (srp_process_rx cb m len (s, h, e))"
  proof (rule srp_process_rx_keeps [where P = ?P])
    show "?P (srp_vector cb ty al m vp w)" if "?P w" for ty al vp w
      using that adv [OF that, of vp] by (cases w) (simp add: srp_vector_def)
  qed (use ok in simp_all)
  show "talkers_ok (s_remote_talkers (fst (srp_poll (s, h))))"
    using age_ok [OF ok] by (simp add: srp_poll_def gptp_uptime_ms_eq Let_def send_declarations_eq decl_state_def)
qed

definition join_seven :: "u8 list \<Rightarrow> u8 list \<Rightarrow> nat world \<Rightarrow> nat world" where
  "join_seven sid mac = (\<lambda>(s, h, n). (s\<lparr>s_join_count := 7\<rparr>, h, n + 1))"

theorem srp_registrar_invariant_witness:
  "talkers_ok (s_remote_talkers (fst (srp_process_rx (Some join_seven) (mem_of (zeros 90)) 90 (srp_zero, hw0, 0))))"
proof -
  have "talkers_ok (s_remote_talkers (fst (f sid mac w)))"
    if "Some join_seven = Some f" "talkers_ok (s_remote_talkers (fst w))" for f sid mac w
    using that by (cases w) (auto simp: join_seven_def)
  then show ?thesis
    using srp_registrar_invariant [of srp_zero "Some join_seven" "mem_of (zeros 90)" 90 hw0 0] talkers_ok_zero
    by blast
qed

text \<open>
  C26.  What the registrar answers.  After any sequence of advertisements, a lookup that
  finds a stream id that was advertised returns the fields of its last advertisement, and an
  id that was not advertised is answered as before; the last advertiser is always found.
  When the table is full of other streams, the one overwritten has the least stamp.
\<close>

theorem srp_registrar_newest:
  assumes ok: "talkers_ok ts" and valid: "\<forall>t \<in> set adverts. rt_valid t \<noteq> 0"
  shows "(srp_find_talker (fold srp_upsert adverts ts) sid = Some t \<longrightarrow>
            (if sid \<in> rt_stream_id ` set adverts
             then \<exists>pre post. adverts = pre @ t # post \<and> rt_stream_id t = sid \<and> sid \<notin> rt_stream_id ` set post
             else srp_find_talker ts sid = Some t))
    \<and> (adverts \<noteq> [] \<longrightarrow>
         srp_find_talker (fold srp_upsert adverts ts) (rt_stream_id (last adverts)) = Some (last adverts))
    \<and> ((\<forall>u \<in> set ts. rt_valid u \<noteq> 0 \<and> rt_stream_id u \<noteq> rt_stream_id a) \<longrightarrow>
         (\<exists>i < length ts. srp_upsert a ts = ts[i := a] \<and> (\<forall>u \<in> set ts. rt_last_seen_ms (ts ! i) \<le> rt_last_seen_ms u)))"
proof (intro conjI impI)
  have v: "list_all (\<lambda>t. rt_valid t \<noteq> 0) adverts" using valid by (simp add: list_all_iff)
  show "if sid \<in> rt_stream_id ` set adverts
        then \<exists>pre post. adverts = pre @ t # post \<and> rt_stream_id t = sid \<and> sid \<notin> rt_stream_id ` set post
        else srp_find_talker ts sid = Some t"
    if "srp_find_talker (fold srp_upsert adverts ts) sid = Some t"
    by (rule registrar.lookup_newest [OF ok v that])
  show "srp_find_talker (fold srp_upsert adverts ts) (rt_stream_id (last adverts)) = Some (last adverts)"
    if ne: "adverts \<noteq> []"
  proof -
    have e: "adverts = butlast adverts @ [last adverts]" using ne by simp
    have b: "list_all (\<lambda>t. rt_valid t \<noteq> 0) (butlast adverts)" "rt_valid (last adverts) \<noteq> 0"
      using v ne by (auto simp: list_all_iff dest: in_set_butlastD)
    have "fold srp_upsert adverts ts = srp_upsert (last adverts) (fold srp_upsert (butlast adverts) ts)"
      using e by (metis fold_append fold_simps comp_apply)
    then show ?thesis using registrar.lookup_same [OF registrar.inv_inserts [OF ok b(1)] b(2)] by simp
  qed
  show "\<exists>i < length ts. srp_upsert a ts = ts[i := a] \<and> (\<forall>u \<in> set ts. rt_last_seen_ms (ts ! i) \<le> rt_last_seen_ms u)"
    if "\<forall>u \<in> set ts. rt_valid u \<noteq> 0 \<and> rt_stream_id u \<noteq> rt_stream_id a"
    using slot_oldest [OF talkers_ok_ne [OF ok] that] slot_cases(1) [OF talkers_ok_ne [OF ok]]
    by (intro exI [of _ "srp_slot (rt_stream_id a) ts"]) (simp add: srp_upsert_def)
qed

theorem srp_registrar_newest_witness:
  "srp_find_talker (fold srp_upsert
      [remote_talker_zero\<lparr>rt_valid := 1, rt_vlan_id := 2\<rparr>, remote_talker_zero\<lparr>rt_valid := 1, rt_vlan_id := 5\<rparr>]
      (s_remote_talkers srp_zero)) (zeros 8) = Some (remote_talker_zero\<lparr>rt_valid := 1, rt_vlan_id := 5\<rparr>)"
  using srp_registrar_newest [OF talkers_ok_zero, of
      "[remote_talker_zero\<lparr>rt_valid := 1, rt_vlan_id := 2\<rparr>, remote_talker_zero\<lparr>rt_valid := 1, rt_vlan_id := 5\<rparr>]"]
  by (simp add: remote_talker_zero_def)

section \<open>The event sequence\<close>

lemma stored_nth: "stored (mem_of fr) 0 xs \<Longrightarrow> length xs \<le> length fr \<Longrightarrow> i < length xs \<Longrightarrow> fr ! i = mem_of fr i"
  by (simp add: mem_of_def)

lemma pad64_stored: "stored (mem_of (pad64 xs)) 0 xs"
  using stored_mem_of [of "pad64 xs"] by (simp add: pad64_def split: if_splits)

lemma decl_leaveall_byte: "srp_wf s \<Longrightarrow> pad64 (decl_bytes l s) ! 19 = (if l then 0x20 else 0)"
proof -
  assume wf: "srp_wf s"
  have "stored (mem_of (pad64 (decl_bytes l s))) 15
      (msrp_emit_domain (dom_class s) (dom_prio s) (dom_vid s) l (mrp_event (s_domain_new_count s)))"
    using pad64_stored [of "decl_bytes l s"] by (simp add: decl_bytes_def decl_lengths [OF wf])
  then have "stored (mem_of (pad64 (decl_bytes l s))) 19 (put_be16 (vec_hdr1 l))"
    by (simp add: msrp_emit_domain_def Let_def)
  then have "mem_of (pad64 (decl_bytes l s)) 19 = ucast (drop_bit 8 (vec_hdr1 l))"
    by (simp add: put_be16_def)
  also have "\<dots> = (if l then 0x20 else 0)" by (simp add: vec_hdr1_def)
  finally show ?thesis by (simp add: mem_of_def pad64_def split: if_splits)
qed

lemma decl_event_bytes:
  assumes wf: "srp_wf s" and t: "s_talker_enabled s \<noteq> 0" and l: "s_listener_enabled s \<noteq> 0"
  shows "pad64 (decl_bytes lv s) ! 59 = MRP_3PACK (mrp_event (s_talker_new_count s)) 0 0"
    and "pad64 (decl_bytes lv s) ! 76 = MRP_3PACK (mrp_event (s_listener_new_count s)) 0 0"
proof -
  let ?m = "mem_of (pad64 (decl_bytes lv s))"
  have len: "length (decl_bytes lv s) = 82" using wf t l by (simp add: decl_bytes_def decl_lengths)
  have st: "stored ?m 28 (msrp_emit_talker_adv (declared_talker s) lv (mrp_event (s_talker_new_count s)))"
    "stored ?m 62 (msrp_emit_listener (s_listener_stream_id s) (s_listener_substate s) lv
       (mrp_event (s_listener_new_count s)))"
    using pad64_stored [of "decl_bytes lv s"] t l by (simp_all add: decl_bytes_def decl_lengths [OF wf])
  have "length (talker_first_value (declared_talker s)) = 25" "length (s_listener_stream_id s) = 8"
    using wf by (simp_all add: talker_first_value_def declared_talker_def srp_wf_def)
  then have "?m 59 = MRP_3PACK (mrp_event (s_talker_new_count s)) 0 0"
    "?m 76 = MRP_3PACK (mrp_event (s_listener_new_count s)) 0 0"
    using st by (simp_all add: msrp_emit_talker_adv_def msrp_emit_listener_def Let_def)
  moreover have "?m i = pad64 (decl_bytes lv s) ! i" if "i < 82" for i
    using that len by (simp add: mem_of_def pad64_def)
  ultimately show "pad64 (decl_bytes lv s) ! 59 = MRP_3PACK (mrp_event (s_talker_new_count s)) 0 0"
    "pad64 (decl_bytes lv s) ! 76 = MRP_3PACK (mrp_event (s_listener_new_count s)) 0 0" by simp_all
qed

lemma decl_state_wf: "srp_wf s \<Longrightarrow> srp_wf (decl_state s)"
  by (simp add: srp_wf_def decl_state_def declared_talker_def)

text \<open>The state after \<open>n\<close> rounds: enabled attributes stay enabled, the counters stop at two.\<close>

lemma decl_state_iter:
  assumes "srp_wf s" and "s_talker_enabled s \<noteq> 0" and "s_listener_enabled s \<noteq> 0"
    and "s_talker_new_count s = 0" and "s_listener_new_count s = 0"
  shows "srp_wf ((decl_state ^^ n) s) \<and> s_talker_enabled ((decl_state ^^ n) s) \<noteq> 0
    \<and> s_listener_enabled ((decl_state ^^ n) s) \<noteq> 0
    \<and> s_talker_new_count ((decl_state ^^ n) s) = of_nat (min n 2)
    \<and> s_listener_new_count ((decl_state ^^ n) s) = of_nat (min n 2)"
proof (induction n)
  case 0
  then show ?case using assms by simp
next
  case (Suc n)
  have "bump_new (of_nat (min n 2)) = of_nat (min (Suc n) 2)"
  proof -
    consider "n = 0" | "n = 1" | "2 \<le> n" by linarith
    then show ?thesis by cases (simp_all add: bump_new_def)
  qed
  then show ?case using Suc.IH decl_state_wf by (simp add: decl_state_def srp_wf_def declared_talker_def)
qed

lemma fold_declarations:
  assumes "srp_wf s"
  shows "fst (fold srp_send_declarations ls (s, h)) = (decl_state ^^ length ls) s
    \<and> hw_sent (snd (fold srp_send_declarations ls (s, h)))
       = hw_sent h @ map (\<lambda>i. pad64 (decl_bytes (ls ! i) ((decl_state ^^ i) s))) [0..<length ls]"
proof (induction ls rule: rev_induct)
  case Nil
  then show ?case by simp
next
  case (snoc l ls)
  let ?w = "fold srp_send_declarations ls (s, h)"
  have wf: "srp_wf ((decl_state ^^ n) s)" for n by (induction n) (simp_all add: assms decl_state_wf)
  have f: "fold srp_send_declarations (ls @ [l]) (s, h) = srp_send_declarations l (fst ?w, snd ?w)" by simp
  have "length (decl_bytes l (fst ?w)) \<le> 1000"
    using decl_bytes_length [OF wf, of l "length ls"] snoc.IH by simp
  then show ?case
    using snoc.IH unfolding f send_declarations_eq by (simp add: srp_send_sent nth_append)
qed

text \<open>
  New, then JoinIn.  From the moment talker and listener are enabled, whatever LeaveAll
  flags the rounds carry, the first two declarations frames announce both attributes with the
  MRP event New and every later one with JoinIn, and the LeaveAll bit of every frame is the
  flag of its round.  Registrars that never see New do not allocate the reservation.
\<close>

theorem srp_new_then_join:
  assumes wf: "srp_wf s0" and sid: "length sid = 8"
    and en: "srp_listener_enable sid 1 (srp_talker_enable s0 1, h0) = (s, h)"
    and run: "fold srp_send_declarations ls (s, h) = (s', h')"
  shows "\<exists>frames. hw_sent h' = hw_sent h @ frames \<and> length frames = length ls
    \<and> (\<forall>i < length ls. frames ! i ! 59 = MRP_3PACK (if i < 2 then MRP_EVT_NEW else MRP_EVT_JOININ) 0 0
        \<and> frames ! i ! 76 = MRP_3PACK (if i < 2 then MRP_EVT_NEW else MRP_EVT_JOININ) 0 0
        \<and> frames ! i ! 19 = (if ls ! i then 0x20 else 0))"
proof -
  have s: "srp_wf s" "s_talker_enabled s \<noteq> 0" "s_listener_enabled s \<noteq> 0" "s_talker_new_count s = 0"
    "s_listener_new_count s = 0"
    using wf sid en by (auto simp: srp_listener_enable_def srp_talker_enable_def gptp_uptime_ms_eq srp_wf_def)
  let ?fr = "map (\<lambda>i. pad64 (decl_bytes (ls ! i) ((decl_state ^^ i) s))) [0..<length ls]"
  have "hw_sent h' = hw_sent h @ ?fr" using fold_declarations [OF s(1), of ls h] run by simp
  moreover have "?fr ! i ! 59 = MRP_3PACK (if i < 2 then MRP_EVT_NEW else MRP_EVT_JOININ) 0 0
        \<and> ?fr ! i ! 76 = MRP_3PACK (if i < 2 then MRP_EVT_NEW else MRP_EVT_JOININ) 0 0
        \<and> ?fr ! i ! 19 = (if ls ! i then 0x20 else 0)" if i: "i < length ls" for i
  proof -
    note it = decl_state_iter [OF s, of i]
    have ev: "mrp_event (of_nat (min i 2)) = (if i < 2 then MRP_EVT_NEW else MRP_EVT_JOININ)"
    proof -
      consider "i = 0" | "i = 1" | "2 \<le> i" by linarith
      then show ?thesis by cases (simp_all add: mrp_event_def)
    qed
    show ?thesis
      using it i decl_event_bytes [of "(decl_state ^^ i) s" "ls ! i"]
        decl_leaveall_byte [of "(decl_state ^^ i) s" "ls ! i"] ev by simp
  qed
  ultimately show ?thesis by (intro exI [of _ ?fr]) simp
qed

theorem srp_new_then_join_witness:
  "\<exists>s h s' h' frames. srp_listener_enable [1, 1, 1, 1, 1, 1, 0, 0] 1 (srp_talker_enable srp_demo 1, hw0) = (s, h)
    \<and> fold srp_send_declarations [True, False, False] (s, h) = (s', h') \<and> hw_sent h' = hw_sent h @ frames
    \<and> frames ! 1 ! 59 = 0 \<and> frames ! 2 ! 59 = 36 \<and> frames ! 0 ! 19 = 0x20"
proof -
  obtain s h where 1: "srp_listener_enable [1, 1, 1, 1, 1, 1, 0, 0] 1 (srp_talker_enable srp_demo 1, hw0) = (s, h)"
    by fastforce
  obtain s' h' where 2: "fold srp_send_declarations [True, False, False] (s, h) = (s', h')" by fastforce
  obtain frames where f: "hw_sent h' = hw_sent h @ frames"
    "\<forall>i < length [True, False, False]. frames ! i ! 59 = MRP_3PACK (if i < 2 then MRP_EVT_NEW else MRP_EVT_JOININ) 0 0
        \<and> frames ! i ! 76 = MRP_3PACK (if i < 2 then MRP_EVT_NEW else MRP_EVT_JOININ) 0 0
        \<and> frames ! i ! 19 = (if [True, False, False] ! i then 0x20 else 0)"
    using srp_new_then_join [OF srp_demo_wf _ 1 2] by auto
  have "frames ! 1 ! 59 = 0" using f(2) [rule_format, of 1] by (simp add: MRP_3PACK_def MRP_EVT_NEW_def)
  moreover have "frames ! 2 ! 59 = 36" using f(2) [rule_format, of 2] by (simp add: MRP_3PACK_def MRP_EVT_JOININ_def)
  moreover have "frames ! 0 ! 19 = 0x20" using f(2) [rule_format, of 0] by simp
  ultimately show ?thesis using 1 2 f(1) by blast
qed

section \<open>Polling\<close>

text \<open>The state a poll reaches before it decides whether to transmit.\<close>

definition poll_aged :: "u32 \<Rightarrow> srp_state \<Rightarrow> srp_state" where
  "poll_aged now s = s\<lparr>
     s_last_leaveall_ms := (if guarded_age now (s_last_leaveall_ms s) MRP_LEAVEALL_PERIOD_MS \<ge> MRP_LEAVEALL_PERIOD_MS
        then now else s_last_leaveall_ms s),
     s_talker_registered := (if s_talker_registered s \<noteq> 0
           \<and> guarded_age now (s_talker_last_seen_ms s) 0 \<ge> 3 * MRP_LEAVEALL_PERIOD_MS
        then 0 else s_talker_registered s),
     s_listener_substate := (if s_listener_enabled s \<noteq> 0 then MSRP_LISTENER_READY else s_listener_substate s),
     s_listener_new_count := (if s_listener_enabled s \<noteq> 0 \<and> s_listener_substate s \<noteq> MSRP_LISTENER_READY
        then 0 else s_listener_new_count s),
     s_remote_talkers := map (age_entry now) (s_remote_talkers s)\<rparr>"

definition mvrp_bytes :: "srp_state \<Rightarrow> u8 list" where
  "mvrp_bytes s = MVRP_MCAST @ s_src_mac s @ put_be16 MVRP_ETHERTYPE @ [0, 1, 2] @ put_be16 1
     @ put_be16 SR_CLASS_A_VID @ [MRP_3PACK (mrp_event (s_mvrp_new_count s)) 0 0] @ put_be16 0"

abbreviation join_due :: "u32 \<Rightarrow> srp_state \<Rightarrow> bool" where
  "join_due now s \<equiv> guarded_age now (s_last_join_ms s) MRP_JOIN_PERIOD_MS \<ge> MRP_JOIN_PERIOD_MS"

abbreviation leaveall_due :: "u32 \<Rightarrow> srp_state \<Rightarrow> bool" where
  "leaveall_due now s \<equiv> guarded_age now (s_last_leaveall_ms s) MRP_LEAVEALL_PERIOD_MS \<ge> MRP_LEAVEALL_PERIOD_MS"

lemma srp_poll_eq:
  "srp_poll (s, h) =
     (let now = peek_ms h; s4 = poll_aged now s
      in if join_due now s then
           ((decl_state s4)\<lparr>s_mvrp_new_count := bump_new (s_mvrp_new_count s), s_last_join_ms := now\<rparr>,
            srp_send (mvrp_bytes s) (srp_send (decl_bytes (leaveall_due now s) s4) (tick_time h)))
         else (s4, tick_time h))"
proof -
  define now where "now = peek_ms h"
  have a: "(let s1 = (if leaveall_due now s then s\<lparr>s_last_leaveall_ms := now\<rparr> else s);
         s2 = (if s_talker_registered s1 \<noteq> 0
                  \<and> guarded_age now (s_talker_last_seen_ms s1) 0 \<ge> 3 * MRP_LEAVEALL_PERIOD_MS
               then s1\<lparr>s_talker_registered := 0\<rparr> else s1);
         s3 = (if s_listener_enabled s2 \<noteq> 0 \<and> s_listener_substate s2 \<noteq> MSRP_LISTENER_READY
               then s2\<lparr>s_listener_substate := MSRP_LISTENER_READY, s_listener_new_count := 0\<rparr> else s2)
      in s3\<lparr>s_remote_talkers := map (age_entry now) (s_remote_talkers s3)\<rparr>) = poll_aged now s"
    unfolding poll_aged_def Let_def
    by (cases "leaveall_due now s";
        cases "s_talker_registered s \<noteq> 0 \<and> guarded_age now (s_talker_last_seen_ms s) 0 \<ge> 3 * MRP_LEAVEALL_PERIOD_MS";
        cases "s_listener_enabled s \<noteq> 0 \<and> s_listener_substate s \<noteq> MSRP_LISTENER_READY") auto
  have c: "s_mvrp_new_count (decl_state (poll_aged now s)) = s_mvrp_new_count s"
    by (simp add: decl_state_def poll_aged_def)
  have m: "mvrp_send_join_vid (decl_state (poll_aged now s)) SR_CLASS_A_VID (mrp_event (s_mvrp_new_count s)) k
      = srp_send (mvrp_bytes s) k" for k
    by (simp add: mvrp_send_join_vid_def mvrp_bytes_def decl_state_def poll_aged_def)
  have p: "srp_poll (s, h) = (let s4 = (let s1 = (if leaveall_due now s then s\<lparr>s_last_leaveall_ms := now\<rparr> else s);
         s2 = (if s_talker_registered s1 \<noteq> 0
                  \<and> guarded_age now (s_talker_last_seen_ms s1) 0 \<ge> 3 * MRP_LEAVEALL_PERIOD_MS
               then s1\<lparr>s_talker_registered := 0\<rparr> else s1);
         s3 = (if s_listener_enabled s2 \<noteq> 0 \<and> s_listener_substate s2 \<noteq> MSRP_LISTENER_READY
               then s2\<lparr>s_listener_substate := MSRP_LISTENER_READY, s_listener_new_count := 0\<rparr> else s2)
      in s3\<lparr>s_remote_talkers := map (age_entry now) (s_remote_talkers s3)\<rparr>)
      in if join_due now s then
          let (s5, h2) = srp_send_declarations (leaveall_due now s) (s4, tick_time h);
              h3 = mvrp_send_join_vid s5 SR_CLASS_A_VID (mrp_event (s_mvrp_new_count s5)) h2
          in (s5\<lparr>s_mvrp_new_count := bump_new (s_mvrp_new_count s5), s_last_join_ms := now\<rparr>, h3)
        else (s4, tick_time h))"
    by (simp only: srp_poll_def prod.case gptp_uptime_ms_eq now_def [symmetric] Let_def)
  show ?thesis
    unfolding p a now_def [symmetric] by (simp add: Let_def send_declarations_eq m c)
qed

lemma find_aged:
  assumes "talkers_ok ts"
  shows "srp_find_talker (map (age_entry now) ts) sid =
    (case srp_find_talker ts sid of None \<Rightarrow> None
     | Some t \<Rightarrow> if guarded_age now (rt_last_seen_ms t) 0 \<ge> 3 * MRP_LEAVEALL_PERIOD_MS then None else Some t)"
proof -
  have ok: "talkers_ok (map (age_entry now) ts)" by (rule age_ok [OF assms])
  have young: "age_entry now t = t" if "rt_valid (age_entry now t) \<noteq> 0" for t
    using that by (auto simp: age_entry_def split: if_splits)
  have dom: "\<exists>k < length ts. ts ! k = t \<and> rt_match sid t
      \<and> \<not> guarded_age now (rt_last_seen_ms t) 0 \<ge> 3 * MRP_LEAVEALL_PERIOD_MS"
    if "srp_find_talker (map (age_entry now) ts) sid = Some t" for t
    using find_cases [OF that] by (auto simp: age_entry_def split: if_splits)
  show ?thesis
  proof (cases "srp_find_talker (map (age_entry now) ts) sid")
    case (Some t)
    from dom [OF this] obtain k where k: "k < length ts" "ts ! k = t" "rt_match sid t"
      "\<not> guarded_age now (rt_last_seen_ms t) 0 \<ge> 3 * MRP_LEAVEALL_PERIOD_MS" by blast
    then have "srp_find_talker ts sid = Some t" using find_unique [OF assms k(1), of sid] by simp
    then show ?thesis using Some k(4) by simp
  next
    case None
    have "guarded_age now (rt_last_seen_ms t) 0 \<ge> 3 * MRP_LEAVEALL_PERIOD_MS" if f: "srp_find_talker ts sid = Some t" for t
    proof (rule ccontr)
      assume n: "\<not> guarded_age now (rt_last_seen_ms t) 0 \<ge> 3 * MRP_LEAVEALL_PERIOD_MS"
      from find_cases [OF f] obtain k where k: "k < length ts" "ts ! k = t" "rt_match sid t" by blast
      then have "age_entry now t = t" using n by (simp add: age_entry_def)
      then have "srp_find_talker (map (age_entry now) ts) sid = Some t"
        using find_unique [OF ok, of k sid] k by simp
      then show False using None by simp
    qed
    then show ?thesis using None by (cases "srp_find_talker ts sid") auto
  qed
qed

lemma mvrp_bytes_length: "srp_wf s \<Longrightarrow> length (mvrp_bytes s) = 24"
  by (simp add: mvrp_bytes_def srp_wf_def MVRP_MCAST_def)

lemma poll_aged_wf: "srp_wf s \<Longrightarrow> srp_wf (poll_aged now s)"
  by (simp add: srp_wf_def poll_aged_def)

lemma poll_sent:
  assumes "srp_wf s"
  shows "hw_sent (snd (srp_poll (s, h))) = hw_sent h @
    (if join_due (peek_ms h) s
     then [pad64 (decl_bytes (leaveall_due (peek_ms h) s) (poll_aged (peek_ms h) s)), pad64 (mvrp_bytes s)] else [])"
  using decl_bytes_length [OF poll_aged_wf [OF assms], of "leaveall_due (peek_ms h) s" "peek_ms h"]
    mvrp_bytes_length [OF assms]
  by (simp add: srp_poll_eq Let_def srp_send_sent)

text \<open>
  One poll.  It transmits exactly when a second has passed since the last declarations
  (or the clock has stepped behind them): one MSRP and one MVRP frame; the next poll within a
  second of such a poll is silent.  An enabled listener is declared Ready.  A registered
  talker whose last advertisement is 30 s old or more is forgotten, one with a stamp in the
  future is kept, and no other entry changes.
\<close>

theorem srp_poll_cycle:
  assumes wf: "srp_wf s" and ok: "talkers_ok (s_remote_talkers s)"
    and p: "srp_poll (s, h) = (s', h')"
  shows "length (hw_sent h') = length (hw_sent h) +
           (if guarded_age (peek_ms h) (s_last_join_ms s) 1000 \<ge> 1000 then 2 else 0)
    \<and> (s_listener_enabled s \<noteq> 0 \<longrightarrow> s_listener_substate s' = MSRP_LISTENER_READY)
    \<and> srp_find_talker (s_remote_talkers s') sid =
        (case srp_find_talker (s_remote_talkers s) sid of None \<Rightarrow> None
         | Some t \<Rightarrow> if guarded_age (peek_ms h) (rt_last_seen_ms t) 0 \<ge> 30000 then None else Some t)
    \<and> (guarded_age (peek_ms h) (s_last_join_ms s) 1000 \<ge> 1000 \<longrightarrow> peek_ms h \<le> peek_ms h' \<longrightarrow>
         peek_ms h' - peek_ms h < 1000 \<longrightarrow> hw_sent (snd (srp_poll (s', h'))) = hw_sent h')"
proof -
  have s': "s' = fst (srp_poll (s, h))" "h' = snd (srp_poll (s, h))" using p by simp_all
  have wf': "srp_wf s'"
    using wf unfolding s' by (simp add: srp_poll_eq Let_def srp_wf_def decl_state_def poll_aged_def declared_talker_def)
  have len: "length (hw_sent h') = length (hw_sent h) + (if join_due (peek_ms h) s then 2 else 0)"
    unfolding s' poll_sent [OF wf] by simp
  have thirty: "3 * MRP_LEAVEALL_PERIOD_MS = 30000" by (simp add: MRP_LEAVEALL_PERIOD_MS_def)
  have ready: "s_listener_substate s' = MSRP_LISTENER_READY" if "s_listener_enabled s \<noteq> 0"
    using that unfolding s' by (simp add: srp_poll_eq Let_def decl_state_def poll_aged_def)
  have "s_remote_talkers s' = map (age_entry (peek_ms h)) (s_remote_talkers s)"
    unfolding s' by (simp add: srp_poll_eq Let_def decl_state_def poll_aged_def)
  note tb = find_aged [OF ok, of "peek_ms h" sid, folded this]
  have quiet: "hw_sent (snd (srp_poll (s', h'))) = hw_sent h'"
    if due: "join_due (peek_ms h) s" and le: "peek_ms h \<le> peek_ms h'" and lt: "peek_ms h' - peek_ms h < 1000"
  proof -
    have j: "s_last_join_ms s' = peek_ms h" using due unfolding s' by (simp add: srp_poll_eq Let_def)
    have "peek_ms h' - peek_ms h \<le> 2000000000" using lt by (simp add: word_le_nat_alt word_less_nat_alt)
    then have "\<not> join_due (peek_ms h') s'"
      using guarded_age_past [OF le] lt unfolding j by (simp add: MRP_JOIN_PERIOD_MS_def not_le)
    then show ?thesis using poll_sent [OF wf', of h'] by simp
  qed
  show ?thesis
    using len ready tb quiet unfolding thirty by (simp add: MRP_JOIN_PERIOD_MS_def)
qed

lemma srp_demo_fields:
  "s_last_join_ms srp_demo = 0" "s_last_leaveall_ms srp_demo = 0" "s_remote_talkers srp_demo = s_remote_talkers srp_zero"
  by (simp_all add: srp_demo_def srp_init_def srp_talker_enable_def srp_talker_set_def srp_zero_def)

lemma demo_clock:
  "peek_ms (hw0\<lparr>hw_clock_k := 5000\<rparr>) = 5000" "peek_ms (hw0\<lparr>hw_clock_k := 5001\<rparr>) = 5001"
  "peek_ms (hw0\<lparr>hw_clock_k := 10000\<rparr>) = 10000" "peek_ms (hw0\<lparr>hw_clock_k := 10001\<rparr>) = 10001"
  by (simp_all add: hw0_def ts_to_ms_def)

theorem srp_poll_cycle_witness:
  "length (hw_sent (snd (srp_poll (srp_demo, hw0\<lparr>hw_clock_k := 5000\<rparr>)))) = 2"
  using srp_poll_cycle [OF srp_demo_wf _ surjective_pairing, of "hw0\<lparr>hw_clock_k := 5000\<rparr>"] talkers_ok_zero
  unfolding demo_clock srp_demo_fields by (simp add: guarded_age_def hw0_def)

text \<open>
  C35.  A LeaveAll can be lost.  When the 10 s LeaveAll timer expires at a poll at which the
  one-second join timer has not expired, the timer is restarted but nothing is sent; the poll
  that follows within ten seconds transmits its declarations, if it transmits, without the
  LeaveAll bit (byte 19 of the frame).
\<close>

theorem srp_leaveall_lost:
  assumes wf: "srp_wf s"
    and lva: "guarded_age (peek_ms h) (s_last_leaveall_ms s) 10000 \<ge> 10000"
    and nojoin: "guarded_age (peek_ms h) (s_last_join_ms s) 1000 < 1000"
    and p: "srp_poll (s, h) = (s1, h1)"
    and next': "peek_ms h \<le> peek_ms h1" "peek_ms h1 - peek_ms h < 10000"
  shows "hw_sent h1 = hw_sent h \<and> s_last_leaveall_ms s1 = peek_ms h
    \<and> (\<exists>frames. hw_sent (snd (srp_poll (s1, h1))) = hw_sent h1 @ frames \<and> (frames = [] \<or> frames ! 0 ! 19 = 0))"
proof -
  have s1: "s1 = poll_aged (peek_ms h) s" "h1 = tick_time h"
    using p nojoin by (simp_all add: srp_poll_eq Let_def MRP_JOIN_PERIOD_MS_def not_le [symmetric])
  have l1: "s_last_leaveall_ms s1 = peek_ms h"
    using lva unfolding s1 by (simp add: poll_aged_def MRP_LEAVEALL_PERIOD_MS_def)
  have "peek_ms h1 - peek_ms h \<le> 2000000000" using next'(2) by (simp add: word_le_nat_alt word_less_nat_alt)
  then have nl: "\<not> leaveall_due (peek_ms h1) s1"
    using guarded_age_past [OF next'(1)] next'(2) unfolding l1 by (simp add: MRP_LEAVEALL_PERIOD_MS_def not_le)
  have wf1: "srp_wf s1" unfolding s1 by (rule poll_aged_wf [OF wf])
  have "\<exists>frames. hw_sent (snd (srp_poll (s1, h1))) = hw_sent h1 @ frames \<and> (frames = [] \<or> frames ! 0 ! 19 = 0)"
    using poll_sent [OF wf1, of h1] nl decl_leaveall_byte [OF poll_aged_wf [OF wf1], of False "peek_ms h1"]
    by (cases "join_due (peek_ms h1) s1") auto
  then show ?thesis using l1 s1(2) by simp
qed

theorem srp_leaveall_lost_witness:
  "hw_sent (snd (srp_poll (srp_demo\<lparr>s_last_join_ms := 9500\<rparr>, hw0\<lparr>hw_clock_k := 10000\<rparr>))) = []
   \<and> s_last_leaveall_ms (fst (srp_poll (srp_demo\<lparr>s_last_join_ms := 9500\<rparr>, hw0\<lparr>hw_clock_k := 10000\<rparr>))) = 10000"
proof -
  let ?s = "srp_demo\<lparr>s_last_join_ms := 9500\<rparr>" and ?h = "hw0\<lparr>hw_clock_k := 10000\<rparr>"
  have wf: "srp_wf ?s" using srp_demo_wf by (simp add: srp_wf_def)
  have a: "guarded_age (peek_ms ?h) (s_last_join_ms ?s) 1000 < 1000"
    and b: "guarded_age (peek_ms ?h) (s_last_leaveall_ms ?s) 10000 \<ge> 10000"
    unfolding demo_clock by (simp_all add: guarded_age_def srp_demo_fields)
  have h1: "snd (srp_poll (?s, ?h)) = hw0\<lparr>hw_clock_k := 10001\<rparr>"
    using a by (simp add: srp_poll_eq Let_def MRP_JOIN_PERIOD_MS_def not_le [symmetric])
  have c: "peek_ms ?h \<le> peek_ms (snd (srp_poll (?s, ?h)))" "peek_ms (snd (srp_poll (?s, ?h))) - peek_ms ?h < 10000"
    unfolding h1 demo_clock by simp_all
  show ?thesis
    using srp_leaveall_lost [OF wf b a surjective_pairing c] unfolding demo_clock by (simp add: hw0_def)
qed

text \<open>
  A withdrawal registers.  The parser does not look at the packed events, so a peer's
  talker advertisement sent with the event Leave is entered in the registrar like any other.
\<close>

theorem srp_leave_registers:
  assumes lens: "length mac = 6" "length (ta_stream_id t) = 8" "length (ta_dest_addr t) = 6"
    and ok: "talkers_ok (s_remote_talkers r)"
    and run: "srp_process_rx None (mem_of (msrp_frame_begin mac @ msrp_emit_talker_adv t l MRP_EVT_LV @ put_be16 0)) 51
                (r, k, e) = (r', k', e')"
  shows "\<exists>u. srp_find_talker (s_remote_talkers r') (ta_stream_id t) = Some u \<and> rt_dest_mac u = ta_dest_addr t
    \<and> rt_last_seen_ms u = peek_ms (tick_time k)"
proof -
  let ?fr = "msrp_frame_begin mac @ msrp_emit_talker_adv t l MRP_EVT_LV @ put_be16 0" and ?m = "mem_of
    (msrp_frame_begin mac @ msrp_emit_talker_adv t l MRP_EVT_LV @ put_be16 0)"
  have b: "length (msrp_frame_begin mac) = 15" "length (msrp_emit_talker_adv t l MRP_EVT_LV) = 34"
    using lens by (simp_all add: msrp_frame_begin_def MSRP_MCAST_ADDR_def msrp_emit_talker_adv_def
        talker_first_value_def Let_def)
  have st: "stored ?m 0 (msrp_frame_begin mac)" "stored ?m 15 (msrp_emit_talker_adv t l MRP_EVT_LV)"
    "stored ?m 49 (put_be16 0)" using stored_mem_of [of ?fr] by (simp_all add: b)
  have hdr: "stored ?m 12 (put_be16 MSRP_ETHERTYPE)" "?m 14 = MSRP_PROTO_VERSION"
    using st(1) lens by (simp_all add: msrp_frame_begin_def MSRP_MCAST_ADDR_def)
  let ?r1 = "r\<lparr>s_rx_pdu_count := s_rx_pdu_count r + 1\<rparr>"
  obtain r2 k2 e2 where w: "srp_talker_adv None ?m 21 (?r1, k, e) = (r2, k2, e2)" by (metis surj_pair)
  have "srp_process_rx None ?m 51 (r, k, e) = srp_messages None ?m 51 15 (?r1, k, e)"
    by (simp add: srp_process_rx_def stored_be16 [OF hdr(1)] hdr(2))
  also have "\<dots> = srp_messages None ?m 51 49 (srp_talker_adv None ?m 21 (?r1, k, e))"
    using parse_talker(1) [OF st(2) _ lens(2,3), of 51 None "(?r1, k, e)"] by simp
  also have "\<dots> = (r2, k2, e2)" unfolding w by (rule parse_end [OF st(3)])
  finally have r': "r' = r2" using run by simp
  have fv: "stored ?m 21 (talker_first_value t)" using parse_talker(2) [OF st(2) _ lens(2,3), of 51] by simp
  have ok1: "talkers_ok (s_remote_talkers ?r1)" using ok by simp
  show ?thesis unfolding r' using talker_adv_none(1) [OF fv lens(2,3) ok1 w] by simp
qed

theorem srp_leave_registers_witness:
  "\<exists>r' k' e' u. srp_process_rx None (mem_of (msrp_frame_begin (zeros 6)
        @ msrp_emit_talker_adv talker_attr_zero False MRP_EVT_LV @ put_be16 0)) 51 (srp_zero, hw0, ()) = (r', k', e')
     \<and> srp_find_talker (s_remote_talkers r') (zeros 8) = Some u"
proof -
  obtain r' k' e' where 1: "srp_process_rx None (mem_of (msrp_frame_begin (zeros 6)
        @ msrp_emit_talker_adv talker_attr_zero False MRP_EVT_LV @ put_be16 0)) 51 (srp_zero, hw0, ()) = (r', k', e')"
    by (metis surj_pair)
  show ?thesis
    using srp_leave_registers [OF _ _ _ talkers_ok_zero 1] 1 by (auto simp: talker_attr_zero_def)
qed

end
