(* ===== verification/Avdecc.thy ===== *)
theory Avdecc
  imports Gptp Mcr
begin

text \<open>
  AVDECC discovery and connection management (firmware/avdecc.c, avdecc.h): the entity
  advertisements (ADP), the connection state of the talker and listener streams driven by
  ACMP, the slow-path resolution of a talker's stream, the CRF flow watchdog, and the
  unsolicited counter and stream-info notifications.

  \<open>avdecc_state\<close> is \<open>avdecc_state_t\<close> (prefix \<open>v_\<close>; \<open>vt_\<close>, \<open>vl_\<close>, \<open>vr_\<close> and \<open>vu_\<close> for the talker,
  listener, resolve and controller entries) without its function pointers: they are the
  record \<open>avdecc_callbacks\<close>, None for NULL.  A callback may change everything, this state
  included, so the handlers thread a world \<open>(avdecc_state, hw, env)\<close>.  The back pointers
  \<open>g_gptp\<close> and \<open>g_mcr\<close> are read only and are arguments of the operations that read them.
  The AECP handler (enumeration and control) is in the theory \<open>Aecp\<close>.
\<close>

section \<open>Constants\<close>

definition AVDECC_ETHERTYPE :: u16 where "AVDECC_ETHERTYPE = 0x22F0"
definition AVTP_SUBTYPE_ADP :: u8 where "AVTP_SUBTYPE_ADP = 0xFA"
definition AVTP_SUBTYPE_AECP :: u8 where "AVTP_SUBTYPE_AECP = 0xFB"
definition AVTP_SUBTYPE_ACMP :: u8 where "AVTP_SUBTYPE_ACMP = 0xFC"
definition AVDECC_MCAST_ADDR :: "u8 list" where "AVDECC_MCAST_ADDR = [0x91, 0xE0, 0xF0, 0x01, 0x00, 0x00]"
definition ADP_MSG_ENTITY_AVAILABLE :: u8 where "ADP_MSG_ENTITY_AVAILABLE = 0"
definition ADP_MSG_ENTITY_DEPARTING :: u8 where "ADP_MSG_ENTITY_DEPARTING = 1"
definition ADP_VALID_TIME :: u16 where "ADP_VALID_TIME = 10"
definition ADP_ADVERTISE_PERIOD_MS :: u32 where "ADP_ADVERTISE_PERIOD_MS = 10000"
definition ADP_CONTROL_DATA_LEN :: u16 where "ADP_CONTROL_DATA_LEN = 56"
definition ADP_CAPS :: u32 where "ADP_CAPS = 0x00000008 OR 0x00000080 OR 0x00000100 OR 0x00000400 OR 0x00008000"
definition ADP_TALKER_CAPS :: u16 where "ADP_TALKER_CAPS = push_bit 0 1 OR push_bit 14 1"
definition ADP_LISTENER_CAPS :: u16 where "ADP_LISTENER_CAPS = push_bit 0 1 OR push_bit 11 1 OR push_bit 14 1"
definition N_STREAM_INPUTS :: u16 where "N_STREAM_INPUTS = 2"
definition N_STREAM_OUTPUTS :: u16 where "N_STREAM_OUTPUTS = 1"
definition ENTITY_MODEL_ID :: "u8 list" where
  "ENTITY_MODEL_ID = [0x02, 0xFF, 0xEE, 0x4E, 0x53, 0x41, 0x56, 0x01]"

definition ACMP_MSG_CONNECT_TX_COMMAND :: u8 where "ACMP_MSG_CONNECT_TX_COMMAND = 0"
definition ACMP_MSG_CONNECT_TX_RESPONSE :: u8 where "ACMP_MSG_CONNECT_TX_RESPONSE = 1"
definition ACMP_MSG_DISCONNECT_TX_COMMAND :: u8 where "ACMP_MSG_DISCONNECT_TX_COMMAND = 2"
definition ACMP_MSG_DISCONNECT_TX_RESPONSE :: u8 where "ACMP_MSG_DISCONNECT_TX_RESPONSE = 3"
definition ACMP_MSG_GET_TX_STATE_COMMAND :: u8 where "ACMP_MSG_GET_TX_STATE_COMMAND = 4"
definition ACMP_MSG_GET_TX_STATE_RESPONSE :: u8 where "ACMP_MSG_GET_TX_STATE_RESPONSE = 5"
definition ACMP_MSG_CONNECT_RX_COMMAND :: u8 where "ACMP_MSG_CONNECT_RX_COMMAND = 6"
definition ACMP_MSG_CONNECT_RX_RESPONSE :: u8 where "ACMP_MSG_CONNECT_RX_RESPONSE = 7"
definition ACMP_MSG_DISCONNECT_RX_COMMAND :: u8 where "ACMP_MSG_DISCONNECT_RX_COMMAND = 8"
definition ACMP_MSG_DISCONNECT_RX_RESPONSE :: u8 where "ACMP_MSG_DISCONNECT_RX_RESPONSE = 9"
definition ACMP_MSG_GET_RX_STATE_COMMAND :: u8 where "ACMP_MSG_GET_RX_STATE_COMMAND = 10"
definition ACMP_MSG_GET_RX_STATE_RESPONSE :: u8 where "ACMP_MSG_GET_RX_STATE_RESPONSE = 11"
definition ACMP_STATUS_SUCCESS :: u8 where "ACMP_STATUS_SUCCESS = 0"
definition ACMP_STATUS_LISTENER_UNKNOWN_ID :: u8 where "ACMP_STATUS_LISTENER_UNKNOWN_ID = 1"
definition ACMP_STATUS_TALKER_UNKNOWN_ID :: u8 where "ACMP_STATUS_TALKER_UNKNOWN_ID = 2"
definition ACMP_STATUS_LISTENER_TALKER_TIMEOUT :: u8 where "ACMP_STATUS_LISTENER_TALKER_TIMEOUT = 7"
definition ACMP_CONTROL_DATA_LEN :: u16 where "ACMP_CONTROL_DATA_LEN = 44"
definition ACMPDU_LEN :: nat where "ACMPDU_LEN = 56"
definition ACMP_OFF_STREAM_ID :: nat where "ACMP_OFF_STREAM_ID = 4"
definition ACMP_OFF_CONTROLLER_ID :: nat where "ACMP_OFF_CONTROLLER_ID = 12"
definition ACMP_OFF_TALKER_ID :: nat where "ACMP_OFF_TALKER_ID = 20"
definition ACMP_OFF_LISTENER_ID :: nat where "ACMP_OFF_LISTENER_ID = 28"
definition ACMP_OFF_TALKER_UID :: nat where "ACMP_OFF_TALKER_UID = 36"
definition ACMP_OFF_LISTENER_UID :: nat where "ACMP_OFF_LISTENER_UID = 38"
definition ACMP_OFF_STREAM_DEST_MAC :: nat where "ACMP_OFF_STREAM_DEST_MAC = 40"
definition ACMP_OFF_CONN_COUNT :: nat where "ACMP_OFF_CONN_COUNT = 46"
definition ACMP_OFF_SEQ_ID :: nat where "ACMP_OFF_SEQ_ID = 48"
definition ACMP_OFF_FLAGS :: nat where "ACMP_OFF_FLAGS = 50"
definition ACMP_OFF_VLAN_ID :: nat where "ACMP_OFF_VLAN_ID = 52"
definition ACMP_FLAG_FAST_CONNECT :: u16 where "ACMP_FLAG_FAST_CONNECT = push_bit 1 1"
definition ACMP_FLAG_SAVED_STATE :: u16 where "ACMP_FLAG_SAVED_STATE = push_bit 2 1"
definition CRF_WD_STALL_MS :: u32 where "CRF_WD_STALL_MS = 3000"
definition CRF_WD_RETRY_MS :: u32 where "CRF_WD_RETRY_MS = 5000"

lemmas acmp_offs = ACMPDU_LEN_def ACMP_OFF_STREAM_ID_def ACMP_OFF_CONTROLLER_ID_def ACMP_OFF_TALKER_ID_def
  ACMP_OFF_LISTENER_ID_def ACMP_OFF_TALKER_UID_def ACMP_OFF_LISTENER_UID_def ACMP_OFF_STREAM_DEST_MAC_def
  ACMP_OFF_CONN_COUNT_def ACMP_OFF_SEQ_ID_def ACMP_OFF_FLAGS_def ACMP_OFF_VLAN_ID_def

definition AECP_MSG_AEM_RESPONSE :: u8 where "AECP_MSG_AEM_RESPONSE = 1"
definition AECP_STATUS_SUCCESS :: u8 where "AECP_STATUS_SUCCESS = 0"
definition AEM_CMD_GET_STREAM_INFO :: u16 where "AEM_CMD_GET_STREAM_INFO = 0x000F"
definition AEM_CMD_GET_COUNTERS :: u16 where "AEM_CMD_GET_COUNTERS = 0x0029"
definition AEM_DESC_STREAM_INPUT :: u16 where "AEM_DESC_STREAM_INPUT = 0x0005"
definition AEM_DESC_STREAM_OUTPUT :: u16 where "AEM_DESC_STREAM_OUTPUT = 0x0006"
definition AEM_DESC_CLOCK_DOMAIN :: u16 where "AEM_DESC_CLOCK_DOMAIN = 0x0024"
definition STREAM_FMT_CRF_48K :: "u8 list" where
  "STREAM_FMT_CRF_48K = [0x04, 0x10, 0x60, 0x01, 0x00, 0x00, 0xBB, 0x80]"
definition STREAM_FMT_AAF_8CH_48K :: "u8 list" where
  "STREAM_FMT_AAF_8CH_48K = [0x02, 0x05, 0x02, 0x20, 0x02, 0x00, 0x60, 0x00]"
definition STREAM_INFO_FLAG_STREAM_FORMAT_VALID :: u32 where "STREAM_INFO_FLAG_STREAM_FORMAT_VALID = 0x80000000"
definition STREAM_INFO_FLAG_STREAM_ID_VALID :: u32 where "STREAM_INFO_FLAG_STREAM_ID_VALID = 0x40000000"
definition STREAM_INFO_FLAG_MSRP_ACC_LATENCY_VALID :: u32 where "STREAM_INFO_FLAG_MSRP_ACC_LATENCY_VALID = 0x20000000"
definition STREAM_INFO_FLAG_STREAM_DEST_MAC_VALID :: u32 where "STREAM_INFO_FLAG_STREAM_DEST_MAC_VALID = 0x10000000"
definition STREAM_INFO_FLAG_STREAM_VLAN_ID_VALID :: u32 where "STREAM_INFO_FLAG_STREAM_VLAN_ID_VALID = 0x02000000"
definition STREAM_INFO_FLAG_CONNECTED :: u32 where "STREAM_INFO_FLAG_CONNECTED = 0x04000000"
definition STREAM_INFO_FLAG_SAVED_STATE :: u32 where "STREAM_INFO_FLAG_SAVED_STATE = 0x00000004"
definition STREAM_INFO_FLAG_FAST_CONNECT :: u32 where "STREAM_INFO_FLAG_FAST_CONNECT = 0x00000002"

section \<open>State\<close>

definition AVDECC_MAX_TALKERS :: u16 where "AVDECC_MAX_TALKERS = 1"
definition AVDECC_MAX_LISTENERS :: u16 where "AVDECC_MAX_LISTENERS = 2"
definition AVDECC_MAX_UNSOL_CTRL :: nat where "AVDECC_MAX_UNSOL_CTRL = 4"

record avdecc_talker_stream =
  vt_stream_id :: "u8 list"
  vt_dest_mac :: "u8 list"
  vt_listener_id :: "u8 list"
  vt_listener_uid :: u16
  vt_connected :: u8
  vt_connection_count :: u16

record avdecc_listener_stream =
  vl_talker_id :: "u8 list"
  vl_talker_uid :: u16
  vl_stream_id :: "u8 list"
  vl_dest_mac :: "u8 list"
  vl_connected :: u8
  vl_connection_count :: u16
  vl_msrp_accumulated_latency_ns :: u32
  vl_stream_vlan_id :: u16

record avdecc_resolve =
  vr_active :: u8
  vr_listener_uid :: u8
  vr_our_seq_id :: u16
  vr_ctrl_eid_orig :: "u8 list"
  vr_ctrl_seq_id_orig :: u16
  vr_talker_id :: "u8 list"
  vr_talker_uid :: u16
  vr_start_ms :: u32

record unsol_ctrl =
  vu_active :: u8
  vu_controller_eid :: "u8 list"
  vu_mac :: "u8 list"
  vu_unsol_seq_id :: u16

record avdecc_state =
  v_entity_id :: "u8 list"
  v_src_mac :: "u8 list"
  v_adp_available_index :: u32
  v_last_adp_ms :: u32
  v_boot_announce_done :: u8
  v_talkers :: "avdecc_talker_stream list"
  v_listeners :: "avdecc_listener_stream list"
  v_current_clock_source :: u16
  v_adp_tx_count :: u32
  v_acmp_rx_count :: u32
  v_acmp_tx_count :: u32
  v_aecp_rx_count :: u32
  v_aecp_tx_count :: u32
  v_clock_locked_count :: u32
  v_clock_unlocked_count :: u32
  v_clock_last_locked :: u8
  v_stream_media_locked :: "u32 list"
  v_stream_media_unlocked :: "u32 list"
  v_stream_frames_rx :: "u32 list"
  v_stream_last_locked :: "u8 list"
  v_resolves :: "avdecc_resolve list"
  v_next_acmp_seq :: u16
  v_crf_wd_rx_snapshot :: u32
  v_crf_wd_flow_ms :: u32
  v_crf_wd_last_retry_ms :: u32
  v_crf_wd_recovery :: u8
  v_crf_wd_init :: u8
  v_unsol_ctrl :: "unsol_ctrl list"

definition talker_stream_zero :: avdecc_talker_stream where
  "talker_stream_zero = \<lparr>vt_stream_id = zeros 8, vt_dest_mac = zeros 6, vt_listener_id = zeros 8,
     vt_listener_uid = 0, vt_connected = 0, vt_connection_count = 0\<rparr>"

definition listener_stream_zero :: avdecc_listener_stream where
  "listener_stream_zero = \<lparr>vl_talker_id = zeros 8, vl_talker_uid = 0, vl_stream_id = zeros 8, vl_dest_mac = zeros 6,
     vl_connected = 0, vl_connection_count = 0, vl_msrp_accumulated_latency_ns = 0, vl_stream_vlan_id = 0\<rparr>"

definition resolve_zero :: avdecc_resolve where
  "resolve_zero = \<lparr>vr_active = 0, vr_listener_uid = 0, vr_our_seq_id = 0, vr_ctrl_eid_orig = zeros 8,
     vr_ctrl_seq_id_orig = 0, vr_talker_id = zeros 8, vr_talker_uid = 0, vr_start_ms = 0\<rparr>"

definition unsol_zero :: unsol_ctrl where
  "unsol_zero = \<lparr>vu_active = 0, vu_controller_eid = zeros 8, vu_mac = zeros 6, vu_unsol_seq_id = 0\<rparr>"

definition avdecc_zero :: avdecc_state where
  "avdecc_zero = \<lparr>v_entity_id = zeros 8, v_src_mac = zeros 6, v_adp_available_index = 0, v_last_adp_ms = 0,
     v_boot_announce_done = 0, v_talkers = replicate (unat AVDECC_MAX_TALKERS) talker_stream_zero,
     v_listeners = replicate (unat AVDECC_MAX_LISTENERS) listener_stream_zero, v_current_clock_source = 0,
     v_adp_tx_count = 0, v_acmp_rx_count = 0, v_acmp_tx_count = 0, v_aecp_rx_count = 0, v_aecp_tx_count = 0,
     v_clock_locked_count = 0, v_clock_unlocked_count = 0, v_clock_last_locked = 0,
     v_stream_media_locked = replicate (unat AVDECC_MAX_LISTENERS) 0,
     v_stream_media_unlocked = replicate (unat AVDECC_MAX_LISTENERS) 0,
     v_stream_frames_rx = replicate (unat AVDECC_MAX_LISTENERS) 0,
     v_stream_last_locked = replicate (unat AVDECC_MAX_LISTENERS) 0,
     v_resolves = replicate (unat AVDECC_MAX_LISTENERS) resolve_zero, v_next_acmp_seq = 0,
     v_crf_wd_rx_snapshot = 0, v_crf_wd_flow_ms = 0, v_crf_wd_last_retry_ms = 0, v_crf_wd_recovery = 0,
     v_crf_wd_init = 0, v_unsol_ctrl = replicate AVDECC_MAX_UNSOL_CTRL unsol_zero\<rparr>"

type_synonym 'e vworld = "avdecc_state \<times> hw \<times> 'e"

record 'e avdecc_callbacks =
  cb_talker_connect :: "(u16 \<Rightarrow> u8 list \<Rightarrow> 'e vworld \<Rightarrow> 'e vworld) option"
  cb_talker_disconnect :: "(u16 \<Rightarrow> 'e vworld \<Rightarrow> 'e vworld) option"
  cb_listener_connect :: "(u16 \<Rightarrow> u8 list \<Rightarrow> u8 list \<Rightarrow> u8 list \<Rightarrow> 'e vworld \<Rightarrow> 'e vworld) option"
  cb_listener_disconnect :: "(u16 \<Rightarrow> 'e vworld \<Rightarrow> 'e vworld) option"
  cb_clock_source_change :: "(u16 \<Rightarrow> 'e vworld \<Rightarrow> 'e vworld) option"

text \<open>Lifting an operation on the state and the hardware to the world.\<close>

definition lift_w :: "(avdecc_state \<times> hw \<Rightarrow> avdecc_state \<times> hw) \<Rightarrow> 'e vworld \<Rightarrow> 'e vworld" where
  "lift_w f = (\<lambda>(s, h, e). let (s', h') = f (s, h) in (s', h', e))"

section \<open>Transmission\<close>

definition avdecc_send :: "u8 list \<Rightarrow> hw \<Rightarrow> hw" where
  "avdecc_send fr h = send_frame TxAvdecc (mput (tx_buf TxAvdecc h) 0 fr) (of_nat (length fr)) h"

definition avdecc_eth_hdr :: "u8 list \<Rightarrow> u8 list" where
  "avdecc_eth_hdr src_mac = AVDECC_MCAST_ADDR @ src_mac @ put_be16 AVDECC_ETHERTYPE"

section \<open>ADP\<close>

definition adp_send :: "gptp_t option \<Rightarrow> u8 \<Rightarrow> avdecc_state \<times> hw \<Rightarrow> avdecc_state \<times> hw" where
  "adp_send g_gptp msg_type = (\<lambda>(s, h).
     let gm = (case g_gptp of Some g \<Rightarrow> if g_gm_valid g \<noteq> 0 then g_gm_clock_id g else zeros 8 | None \<Rightarrow> zeros 8);
         fr = avdecc_eth_hdr (v_src_mac s)
                @ [AVTP_SUBTYPE_ADP, msg_type AND 0x0F]
                @ put_be16 (push_bit 11 ADP_VALID_TIME OR ADP_CONTROL_DATA_LEN)
                @ v_entity_id s @ ENTITY_MODEL_ID @ put_be32 ADP_CAPS
                @ put_be16 N_STREAM_OUTPUTS @ put_be16 ADP_TALKER_CAPS
                @ put_be16 N_STREAM_INPUTS @ put_be16 ADP_LISTENER_CAPS
                @ put_be32 0 @ put_be32 (v_adp_available_index s)
                @ gm @ [0, 0, 0, 0] @ put_be16 0xFFFF @ put_be16 0 @ zeros 8 @ zeros 4;
         s1 = (if msg_type = ADP_MSG_ENTITY_AVAILABLE
               then s\<lparr>v_adp_available_index := v_adp_available_index s + 1\<rparr> else s)
     in (s1\<lparr>v_adp_tx_count := v_adp_tx_count s1 + 1\<rparr>, avdecc_send fr h))"

section \<open>Notifications\<close>

definition status_cdl :: "u8 \<Rightarrow> u16 \<Rightarrow> u8 list" where
  "status_cdl status cdl = put_be16 (push_bit 11 (ucast (status AND 0x1F)) OR (cdl AND 0x7FF))"

definition unsol_header :: "avdecc_state \<Rightarrow> unsol_ctrl \<Rightarrow> u16 \<Rightarrow> u16 \<Rightarrow> u8 list" where
  "unsol_header s c cdl cmd =
     vu_mac c @ v_src_mac s @ put_be16 AVDECC_ETHERTYPE @ [AVTP_SUBTYPE_AECP, AECP_MSG_AEM_RESPONSE]
       @ status_cdl AECP_STATUS_SUCCESS cdl @ v_entity_id s @ vu_controller_eid c
       @ put_be16 (vu_unsol_seq_id c) @ put_be16 (0x8000 OR cmd)"

definition push_unsol :: "(avdecc_state \<Rightarrow> unsol_ctrl \<Rightarrow> u8 list) \<Rightarrow> avdecc_state \<times> hw \<Rightarrow> avdecc_state \<times> hw" where
  "push_unsol frame = fold (\<lambda>i (s, h).
     let c = v_unsol_ctrl s ! i
     in if vu_active c = 0 then (s, h)
        else (s\<lparr>v_unsol_ctrl := (v_unsol_ctrl s)[i := c\<lparr>vu_unsol_seq_id := vu_unsol_seq_id c + 1\<rparr>],
                v_aecp_tx_count := v_aecp_tx_count s + 1\<rparr>,
              avdecc_send (frame s c) h)) [0..<AVDECC_MAX_UNSOL_CTRL]"

definition push_unsol_counters :: "u16 \<Rightarrow> u16 \<Rightarrow> u32 \<Rightarrow> u32 list \<Rightarrow> avdecc_state \<times> hw \<Rightarrow> avdecc_state \<times> hw" where
  "push_unsol_counters dt di valid counters =
     push_unsol (\<lambda>s c. unsol_header s c 148 AEM_CMD_GET_COUNTERS @ put_be16 dt @ put_be16 di @ put_be32 valid
                    @ concat (map put_be32 counters))"

definition push_unsol_clock_counters :: "avdecc_state \<times> hw \<Rightarrow> avdecc_state \<times> hw" where
  "push_unsol_clock_counters w =
     push_unsol_counters AEM_DESC_CLOCK_DOMAIN 0 0x00000003
       ((replicate 32 0)[0 := v_clock_locked_count (fst w), 1 := v_clock_unlocked_count (fst w)]) w"

definition push_unsol_stream_counters :: "u16 \<Rightarrow> avdecc_state \<times> hw \<Rightarrow> avdecc_state \<times> hw" where
  "push_unsol_stream_counters uid w =
     (if uid \<ge> AVDECC_MAX_LISTENERS then w
      else push_unsol_counters AEM_DESC_STREAM_INPUT uid 0x00000FFF
             ((replicate 32 0)[0 := v_stream_media_locked (fst w) ! unat uid,
                               1 := v_stream_media_unlocked (fst w) ! unat uid,
                               11 := v_stream_frames_rx (fst w) ! unat uid]) w)"

definition build_stream_info_payload :: "avdecc_state \<Rightarrow> u16 \<Rightarrow> u16 \<Rightarrow> u8 list" where
  "build_stream_info_payload s dt di =
     (let (fmt, sid, dest, flags, probing, latency, vlan) =
        (if dt = AEM_DESC_STREAM_OUTPUT \<and> di < AVDECC_MAX_TALKERS then
           let t = v_talkers s ! unat di
           in (STREAM_FMT_AAF_8CH_48K, vt_stream_id t, vt_dest_mac t,
               STREAM_INFO_FLAG_STREAM_FORMAT_VALID OR STREAM_INFO_FLAG_STREAM_ID_VALID
                 OR STREAM_INFO_FLAG_STREAM_DEST_MAC_VALID OR STREAM_INFO_FLAG_MSRP_ACC_LATENCY_VALID
                 OR STREAM_INFO_FLAG_STREAM_VLAN_ID_VALID, 0 :: u8, 2000000 :: u32, 2 :: u16)
         else if dt = AEM_DESC_STREAM_INPUT \<and> di < AVDECC_MAX_LISTENERS then
           let l = v_listeners s ! unat di;
               fmt = (if di = 0 then STREAM_FMT_CRF_48K else STREAM_FMT_AAF_8CH_48K)
           in if vl_connected l \<noteq> 0 then
                (fmt, vl_stream_id l, vl_dest_mac l,
                 STREAM_INFO_FLAG_STREAM_FORMAT_VALID OR STREAM_INFO_FLAG_STREAM_ID_VALID
                   OR STREAM_INFO_FLAG_STREAM_DEST_MAC_VALID
                   OR (if vl_talker_id l \<noteq> zeros 8
                       then STREAM_INFO_FLAG_CONNECTED OR STREAM_INFO_FLAG_FAST_CONNECT
                              OR STREAM_INFO_FLAG_SAVED_STATE else 0),
                 3, (if vl_msrp_accumulated_latency_ns l \<noteq> 0 then vl_msrp_accumulated_latency_ns l else 2000000),
                 (if vl_stream_vlan_id l \<noteq> 0 then vl_stream_vlan_id l else 2))
              else (fmt, zeros 8, zeros 6, STREAM_INFO_FLAG_STREAM_FORMAT_VALID, 0, 2000000, 2)
         else (STREAM_FMT_AAF_8CH_48K, zeros 8, zeros 6, STREAM_INFO_FLAG_STREAM_FORMAT_VALID, 0, 2000000, 2))
      in put_be16 dt @ put_be16 di @ put_be32 flags @ fmt @ sid @ put_be32 latency @ dest @ zeros 10
           @ put_be16 vlan @ zeros 6 @ [push_bit 5 (probing AND 0x07), 0, 0, 0])"

definition push_unsol_stream_info :: "u16 \<Rightarrow> u16 \<Rightarrow> avdecc_state \<times> hw \<Rightarrow> avdecc_state \<times> hw" where
  "push_unsol_stream_info dt di =
     push_unsol (\<lambda>s c. unsol_header s c 68 AEM_CMD_GET_STREAM_INFO @ build_stream_info_payload s dt di)"

definition notify_listener_connected :: "u16 \<Rightarrow> avdecc_state \<times> hw \<Rightarrow> avdecc_state \<times> hw" where
  "notify_listener_connected uid = (\<lambda>(s, h).
     if uid \<ge> AVDECC_MAX_LISTENERS then (s, h)
     else
       let i = unat uid;
           s1 = (if v_stream_media_locked s ! i = v_stream_media_unlocked s ! i
                 then s\<lparr>v_stream_media_locked := (v_stream_media_locked s)[i := v_stream_media_locked s ! i + 1],
                        v_stream_last_locked := (v_stream_last_locked s)[i := 1]\<rparr>
                 else s)
       in push_unsol_stream_info AEM_DESC_STREAM_INPUT uid (push_unsol_stream_counters uid (s1, h)))"

definition notify_listener_disconnected :: "u16 \<Rightarrow> avdecc_state \<times> hw \<Rightarrow> avdecc_state \<times> hw" where
  "notify_listener_disconnected uid = (\<lambda>(s, h).
     if uid \<ge> AVDECC_MAX_LISTENERS then (s, h)
     else
       let i = unat uid;
           s1 = (if v_stream_media_unlocked s ! i < v_stream_media_locked s ! i
                 then s\<lparr>v_stream_media_unlocked := (v_stream_media_unlocked s)[i := v_stream_media_unlocked s ! i + 1],
                        v_stream_last_locked := (v_stream_last_locked s)[i := 0]\<rparr>
                 else s)
       in push_unsol_stream_info AEM_DESC_STREAM_INPUT uid (push_unsol_stream_counters uid (s1, h)))"

definition avdecc_listener_lock_changed :: "u16 \<Rightarrow> u8 \<Rightarrow> avdecc_state \<times> hw \<Rightarrow> avdecc_state \<times> hw" where
  "avdecc_listener_lock_changed uid locked = (\<lambda>(s, h).
     if uid \<ge> AVDECC_MAX_LISTENERS then (s, h)
     else if locked = v_stream_last_locked s ! unat uid then (s, h)
     else
       let i = unat uid;
           s1 = (if locked \<noteq> 0
                 then s\<lparr>v_stream_media_locked := (v_stream_media_locked s)[i := v_stream_media_locked s ! i + 1]\<rparr>
                 else s\<lparr>v_stream_media_unlocked := (v_stream_media_unlocked s)[i := v_stream_media_unlocked s ! i + 1]\<rparr>)
       in push_unsol_stream_counters uid
            (s1\<lparr>v_stream_last_locked := (v_stream_last_locked s1)[i := locked]\<rparr>, h))"

definition avdecc_listener_frame_rx :: "u16 \<Rightarrow> avdecc_state \<Rightarrow> avdecc_state" where
  "avdecc_listener_frame_rx uid s =
     (if uid \<ge> AVDECC_MAX_LISTENERS then s
      else s\<lparr>v_stream_frames_rx := (v_stream_frames_rx s)[unat uid := v_stream_frames_rx s ! unat uid + 1]\<rparr>)"

section \<open>ACMP\<close>

definition acmp_st_cdl :: "u8 \<Rightarrow> u8 list" where
  "acmp_st_cdl status = put_be16 (push_bit 11 (ucast (status AND 0x1F)) OR ACMP_CONTROL_DATA_LEN)"

text \<open>
  A response is the received PDU with fields overwritten in place; the two blocks of
  overwrites are taken from the talker and from the listener entry.
\<close>

definition acmp_talker_fields :: "avdecc_state \<Rightarrow> u8 \<Rightarrow> mem \<Rightarrow> mem" where
  "acmp_talker_fields s msg_type p =
     (if msg_type = ACMP_MSG_CONNECT_TX_RESPONSE \<or> msg_type = ACMP_MSG_GET_TX_STATE_RESPONSE
         \<or> msg_type = ACMP_MSG_DISCONNECT_TX_RESPONSE
      then
        let tuid = get_be16 p ACMP_OFF_TALKER_UID
        in if tuid < AVDECC_MAX_TALKERS then
             let t = v_talkers s ! unat tuid
             in mputs p [(ACMP_OFF_STREAM_ID, vt_stream_id t), (ACMP_OFF_STREAM_DEST_MAC, vt_dest_mac t),
                         (ACMP_OFF_CONN_COUNT, put_be16 (if msg_type = ACMP_MSG_GET_TX_STATE_RESPONSE
                                                         then 0 else vt_connection_count t))]
           else p
      else p)"

definition acmp_listener_fields :: "avdecc_state \<Rightarrow> u8 \<Rightarrow> mem \<Rightarrow> mem" where
  "acmp_listener_fields s msg_type p =
     (if msg_type = ACMP_MSG_CONNECT_RX_RESPONSE \<or> msg_type = ACMP_MSG_GET_RX_STATE_RESPONSE
         \<or> msg_type = ACMP_MSG_DISCONNECT_RX_RESPONSE
      then
        let luid = get_be16 p ACMP_OFF_LISTENER_UID
        in if luid < AVDECC_MAX_LISTENERS then
             let l = v_listeners s ! unat luid;
                 p1 = mput p ACMP_OFF_CONN_COUNT (put_be16 (vl_connection_count l))
             in if vl_connected l \<noteq> 0 then
                  mputs p1 [(ACMP_OFF_TALKER_ID, vl_talker_id l), (ACMP_OFF_TALKER_UID, put_be16 (vl_talker_uid l)),
                            (ACMP_OFF_STREAM_ID, vl_stream_id l), (ACMP_OFF_STREAM_DEST_MAC, vl_dest_mac l),
                            (ACMP_OFF_VLAN_ID, put_be16 (if vl_stream_vlan_id l \<noteq> 0 then vl_stream_vlan_id l else 2)),
                            (ACMP_OFF_FLAGS, put_be16 (ACMP_FLAG_FAST_CONNECT OR ACMP_FLAG_SAVED_STATE))]
                else p1
           else p
      else p)"

definition acmp_send_response :: "u8 \<Rightarrow> u8 \<Rightarrow> mem \<Rightarrow> avdecc_state \<times> hw \<Rightarrow> avdecc_state \<times> hw" where
  "acmp_send_response msg_type status rx_pdu = (\<lambda>(s, h).
     let p0 = mputs rx_pdu [(0, [AVTP_SUBTYPE_ACMP]), (1, [msg_type AND 0x0F]), (2, acmp_st_cdl status)];
         p = acmp_listener_fields s msg_type (acmp_talker_fields s msg_type p0)
     in (s\<lparr>v_acmp_tx_count := v_acmp_tx_count s + 1\<rparr>,
         avdecc_send (avdecc_eth_hdr (v_src_mac s) @ bytes p 0 ACMPDU_LEN) h))"

definition acmp_handle_connect_tx :: "'e avdecc_callbacks \<Rightarrow> mem \<Rightarrow> 'e vworld \<Rightarrow> 'e vworld" where
  "acmp_handle_connect_tx cbs pdu = (\<lambda>(s, h, e).
     let listener_id = bytes pdu ACMP_OFF_LISTENER_ID 8;
         tuid = get_be16 pdu ACMP_OFF_TALKER_UID;
         luid = get_be16 pdu ACMP_OFF_LISTENER_UID
     in if tuid \<ge> AVDECC_MAX_TALKERS
        then lift_w (acmp_send_response ACMP_MSG_CONNECT_TX_RESPONSE ACMP_STATUS_TALKER_UNKNOWN_ID pdu) (s, h, e)
        else
          let t = v_talkers s ! unat tuid;
              t1 = t\<lparr>vt_listener_id := listener_id, vt_listener_uid := luid, vt_connected := 1,
                     vt_connection_count := vt_connection_count t + 1\<rparr>;
              w = (s\<lparr>v_talkers := (v_talkers s)[unat tuid := t1]\<rparr>, h, e);
              w1 = (case cb_talker_connect cbs of None \<Rightarrow> w | Some f \<Rightarrow> f tuid listener_id w)
          in lift_w (acmp_send_response ACMP_MSG_CONNECT_TX_RESPONSE ACMP_STATUS_SUCCESS pdu) w1)"

definition acmp_handle_disconnect_tx :: "'e avdecc_callbacks \<Rightarrow> mem \<Rightarrow> 'e vworld \<Rightarrow> 'e vworld" where
  "acmp_handle_disconnect_tx cbs pdu = (\<lambda>(s, h, e).
     let tuid = get_be16 pdu ACMP_OFF_TALKER_UID;
         w1 = (if tuid < AVDECC_MAX_TALKERS then
                 let t = v_talkers s ! unat tuid;
                     t1 = t\<lparr>vt_connected := 0, vt_connection_count :=
                            (if vt_connection_count t > 0 then vt_connection_count t - 1 else vt_connection_count t)\<rparr>;
                     w = (s\<lparr>v_talkers := (v_talkers s)[unat tuid := t1]\<rparr>, h, e)
                 in (case cb_talker_disconnect cbs of None \<Rightarrow> w | Some f \<Rightarrow> f tuid w)
               else (s, h, e))
     in lift_w (acmp_send_response ACMP_MSG_DISCONNECT_TX_RESPONSE ACMP_STATUS_SUCCESS pdu) w1)"

definition acmp_handle_get_tx_state :: "mem \<Rightarrow> avdecc_state \<times> hw \<Rightarrow> avdecc_state \<times> hw" where
  "acmp_handle_get_tx_state pdu = acmp_send_response ACMP_MSG_GET_TX_STATE_RESPONSE ACMP_STATUS_SUCCESS pdu"

text \<open>
  The commands the listener sends to a talker: a zeroed PDU with the fields of \<open>r\<close>.
\<close>

definition acmp_command :: "u8 \<Rightarrow> avdecc_state \<Rightarrow> avdecc_resolve \<Rightarrow> u8 list \<Rightarrow> u8 list" where
  "acmp_command msg_type s r stream_id =
     avdecc_eth_hdr (v_src_mac s) @ [AVTP_SUBTYPE_ACMP, msg_type] @ put_be16 ACMP_CONTROL_DATA_LEN
       @ stream_id @ v_entity_id s @ vr_talker_id r @ v_entity_id s @ put_be16 (vr_talker_uid r)
       @ put_be16 (ucast (vr_listener_uid r)) @ zeros 6 @ zeros 2 @ put_be16 (vr_our_seq_id r) @ zeros 6"

definition send_connect_tx_command :: "avdecc_resolve \<Rightarrow> avdecc_state \<times> hw \<Rightarrow> avdecc_state \<times> hw" where
  "send_connect_tx_command r = (\<lambda>(s, h).
     (s\<lparr>v_acmp_tx_count := v_acmp_tx_count s + 1\<rparr>,
      avdecc_send (acmp_command ACMP_MSG_CONNECT_TX_COMMAND s r (zeros 8)) h))"

definition send_disconnect_tx_command :: "avdecc_resolve \<Rightarrow> u8 list \<Rightarrow> avdecc_state \<times> hw \<Rightarrow> avdecc_state \<times> hw" where
  "send_disconnect_tx_command r stream_id = (\<lambda>(s, h).
     (s\<lparr>v_acmp_tx_count := v_acmp_tx_count s + 1\<rparr>,
      avdecc_send (acmp_command ACMP_MSG_DISCONNECT_TX_COMMAND s r stream_id) h))"

definition avdecc_crf_flow_watchdog :: "u16 \<Rightarrow> u32 \<Rightarrow> u32 \<Rightarrow> avdecc_state \<times> hw \<Rightarrow> avdecc_state \<times> hw" where
  "avdecc_crf_flow_watchdog luid rx_count now_ms = (\<lambda>(s, h).
     if luid \<ge> AVDECC_MAX_LISTENERS then (s, h)
     else
       let l = v_listeners s ! unat luid
       in if vl_connected l = 0 then (s\<lparr>v_crf_wd_init := 0, v_crf_wd_recovery := 0\<rparr>, h)
          else if v_crf_wd_init s = 0 then
            (s\<lparr>v_crf_wd_init := 1, v_crf_wd_rx_snapshot := rx_count, v_crf_wd_flow_ms := now_ms,
               v_crf_wd_recovery := 0\<rparr>, h)
          else if rx_count \<noteq> v_crf_wd_rx_snapshot s then
            (s\<lparr>v_crf_wd_rx_snapshot := rx_count, v_crf_wd_flow_ms := now_ms, v_crf_wd_recovery := 0\<rparr>, h)
          else
            let stalled = now_ms - v_crf_wd_flow_ms s
            in if stalled > 2000000000 then (s\<lparr>v_crf_wd_flow_ms := now_ms\<rparr>, h)
               else if stalled < CRF_WD_STALL_MS then (s, h)
               else
                 let r = resolve_zero\<lparr>vr_listener_uid := ucast luid, vr_talker_id := vl_talker_id l,
                           vr_talker_uid := vl_talker_uid l, vr_our_seq_id := v_next_acmp_seq s\<rparr>;
                     s1 = s\<lparr>v_next_acmp_seq := v_next_acmp_seq s + 1\<rparr>
                 in if v_crf_wd_recovery s = 0 then
                      let (s2, h2) = send_disconnect_tx_command r (vl_stream_id l) (s1, h)
                      in (s2\<lparr>v_crf_wd_recovery := 1, v_crf_wd_last_retry_ms := now_ms\<rparr>, h2)
                    else if now_ms - v_crf_wd_last_retry_ms s1 \<ge> CRF_WD_RETRY_MS then
                      let (s2, h2) = send_connect_tx_command r (s1, h)
                      in (s2\<lparr>v_crf_wd_last_retry_ms := now_ms\<rparr>, h2)
                    else (s1, h))"

definition send_deferred_connect_rx_response ::
  "avdecc_resolve \<Rightarrow> u8 \<Rightarrow> u8 list \<Rightarrow> u8 list \<Rightarrow> u16 \<Rightarrow> avdecc_state \<times> hw \<Rightarrow> avdecc_state \<times> hw" where
  "send_deferred_connect_rx_response r status stream_id dest_mac vlan_id = (\<lambda>(s, h).
     (s\<lparr>v_acmp_tx_count := v_acmp_tx_count s + 1\<rparr>,
      avdecc_send
        (avdecc_eth_hdr (v_src_mac s) @ [AVTP_SUBTYPE_ACMP, ACMP_MSG_CONNECT_RX_RESPONSE] @ acmp_st_cdl status
           @ stream_id @ vr_ctrl_eid_orig r @ vr_talker_id r @ v_entity_id s @ put_be16 (vr_talker_uid r)
           @ put_be16 (ucast (vr_listener_uid r)) @ dest_mac
           @ put_be16 (vl_connection_count (v_listeners s ! unat (vr_listener_uid r)))
           @ put_be16 (vr_ctrl_seq_id_orig r) @ put_be16 0 @ put_be16 vlan_id @ zeros 2) h))"

text \<open>The loop of the response handler: the first active entry with the sequence number.\<close>

fun find_resolve :: "u16 \<Rightarrow> nat \<Rightarrow> avdecc_resolve list \<Rightarrow> nat option" where
  "find_resolve seq i [] = None"
| "find_resolve seq i (r # rs) =
     (if vr_active r = 0 \<or> vr_our_seq_id r \<noteq> seq then find_resolve seq (Suc i) rs else Some i)"

definition acmp_bind_resolved :: "'e avdecc_callbacks \<Rightarrow> mem \<Rightarrow> nat \<Rightarrow> 'e vworld \<Rightarrow> 'e vworld" where
  "acmp_bind_resolved cbs pdu i = (\<lambda>(s, h, e).
     let r = v_resolves s ! i;
         sid = bytes pdu ACMP_OFF_STREAM_ID 8;
         dst = bytes pdu ACMP_OFF_STREAM_DEST_MAC 6;
         k = unat (vr_listener_uid r);
         l = v_listeners s ! k;
         l1 = l\<lparr>vl_talker_id := vr_talker_id r, vl_talker_uid := vr_talker_uid r, vl_stream_id := sid,
                vl_dest_mac := dst, vl_connected := 1, vl_connection_count := vl_connection_count l + 1,
                vl_stream_vlan_id := get_be16 pdu ACMP_OFF_VLAN_ID\<rparr>;
         w = (s\<lparr>v_listeners := (v_listeners s)[k := l1]\<rparr>, h, e);
         w1 = (case cb_listener_connect cbs of None \<Rightarrow> w
               | Some f \<Rightarrow> f (ucast (vr_listener_uid r)) sid dst (vr_talker_id r) w)
     in lift_w (notify_listener_connected (ucast (vr_listener_uid (v_resolves (fst w1) ! i)))) w1)"

definition acmp_handle_connect_tx_response :: "'e avdecc_callbacks \<Rightarrow> mem \<Rightarrow> 'e vworld \<Rightarrow> 'e vworld" where
  "acmp_handle_connect_tx_response cbs pdu = (\<lambda>(s, h, e).
     if bytes pdu ACMP_OFF_LISTENER_ID 8 \<noteq> v_entity_id s then (s, h, e)
     else case find_resolve (get_be16 pdu ACMP_OFF_SEQ_ID) 0 (v_resolves s) of
       None \<Rightarrow> (s, h, e)
     | Some i \<Rightarrow>
         let status = drop_bit 3 (pdu 2) AND 0x1F;
             w1 = (if status = ACMP_STATUS_SUCCESS then acmp_bind_resolved cbs pdu i (s, h, e) else (s, h, e));
             (s2, h2, e2) = lift_w (send_deferred_connect_rx_response (v_resolves (fst w1) ! i) status
                 (bytes pdu ACMP_OFF_STREAM_ID 8) (bytes pdu ACMP_OFF_STREAM_DEST_MAC 6)
                 (get_be16 pdu ACMP_OFF_VLAN_ID)) w1
         in (s2\<lparr>v_resolves := (v_resolves s2)[i := (v_resolves s2 ! i)\<lparr>vr_active := 0\<rparr>]\<rparr>, h2, e2))"

definition acmp_handle_connect_rx :: "'e avdecc_callbacks \<Rightarrow> mem \<Rightarrow> 'e vworld \<Rightarrow> 'e vworld" where
  "acmp_handle_connect_rx cbs pdu = (\<lambda>(s, h, e).
     let talker_id = bytes pdu ACMP_OFF_TALKER_ID 8;
         stream_id = bytes pdu ACMP_OFF_STREAM_ID 8;
         dest_mac = bytes pdu ACMP_OFF_STREAM_DEST_MAC 6;
         tuid = get_be16 pdu ACMP_OFF_TALKER_UID;
         luid = get_be16 pdu ACMP_OFF_LISTENER_UID
     in if luid \<ge> AVDECC_MAX_LISTENERS
        then lift_w (acmp_send_response ACMP_MSG_CONNECT_RX_RESPONSE ACMP_STATUS_LISTENER_UNKNOWN_ID pdu) (s, h, e)
        else if stream_id = zeros 8 \<and> dest_mac = zeros 6 \<and> talker_id \<noteq> zeros 8 then
          let (now, h1) = gptp_uptime_ms h;
              r = (v_resolves s ! unat luid)\<lparr>vr_active := 1, vr_listener_uid := ucast luid,
                     vr_our_seq_id := v_next_acmp_seq s, vr_ctrl_eid_orig := bytes pdu ACMP_OFF_CONTROLLER_ID 8,
                     vr_ctrl_seq_id_orig := get_be16 pdu ACMP_OFF_SEQ_ID, vr_talker_id := talker_id,
                     vr_talker_uid := tuid, vr_start_ms := now\<rparr>
          in lift_w (send_connect_tx_command r)
               (s\<lparr>v_next_acmp_seq := v_next_acmp_seq s + 1, v_resolves := (v_resolves s)[unat luid := r]\<rparr>, h1, e)
        else if talker_id = zeros 8
        then lift_w (acmp_send_response ACMP_MSG_CONNECT_RX_RESPONSE ACMP_STATUS_TALKER_UNKNOWN_ID pdu) (s, h, e)
        else
          let l = v_listeners s ! unat luid;
              l1 = l\<lparr>vl_talker_id := talker_id, vl_talker_uid := tuid, vl_stream_id := stream_id,
                     vl_dest_mac := dest_mac, vl_connected := 1, vl_connection_count := vl_connection_count l + 1\<rparr>;
              w = (s\<lparr>v_listeners := (v_listeners s)[unat luid := l1]\<rparr>, h, e);
              w1 = (case cb_listener_connect cbs of None \<Rightarrow> w | Some f \<Rightarrow> f luid stream_id dest_mac talker_id w)
          in lift_w (acmp_send_response ACMP_MSG_CONNECT_RX_RESPONSE ACMP_STATUS_SUCCESS pdu)
               (lift_w (notify_listener_connected luid) w1))"

definition acmp_handle_disconnect_rx :: "'e avdecc_callbacks \<Rightarrow> mem \<Rightarrow> 'e vworld \<Rightarrow> 'e vworld" where
  "acmp_handle_disconnect_rx cbs pdu = (\<lambda>(s, h, e).
     let luid = get_be16 pdu ACMP_OFF_LISTENER_UID;
         w1 = (if luid < AVDECC_MAX_LISTENERS then
                 let l = v_listeners s ! unat luid;
                     l1 = l\<lparr>vl_connected := 0, vl_connection_count :=
                            (if vl_connection_count l > 0 then vl_connection_count l - 1 else vl_connection_count l)\<rparr>;
                     w = (s\<lparr>v_listeners := (v_listeners s)[unat luid := l1]\<rparr>, h, e);
                     w' = (case cb_listener_disconnect cbs of None \<Rightarrow> w | Some f \<Rightarrow> f luid w)
                 in lift_w (notify_listener_disconnected luid) w'
               else (s, h, e))
     in lift_w (acmp_send_response ACMP_MSG_DISCONNECT_RX_RESPONSE ACMP_STATUS_SUCCESS pdu) w1)"

definition acmp_handle_get_rx_state :: "mem \<Rightarrow> avdecc_state \<times> hw \<Rightarrow> avdecc_state \<times> hw" where
  "acmp_handle_get_rx_state pdu = acmp_send_response ACMP_MSG_GET_RX_STATE_RESPONSE ACMP_STATUS_SUCCESS pdu"

text \<open>
  The ACMP branch of \<open>avdecc_process_rx\<close> (the subtype and the first length check are the
  caller's).
\<close>

definition acmp_process_rx :: "'e avdecc_callbacks \<Rightarrow> mem \<Rightarrow> u32 \<Rightarrow> 'e vworld \<Rightarrow> 'e vworld" where
  "acmp_process_rx cbs frame len = (\<lambda>(s0, h, e).
     if len < 14 + of_nat ACMPDU_LEN then (s0, h, e)
     else
       let pdu = (\<lambda>i. frame (14 + i));
           msg_type = pdu 1 AND 0x0F;
           s = s0\<lparr>v_acmp_rx_count := v_acmp_rx_count s0 + 1\<rparr>;
           for_talker = (bytes pdu ACMP_OFF_TALKER_ID 8 = v_entity_id s);
           for_listener = (bytes pdu ACMP_OFF_LISTENER_ID 8 = v_entity_id s);
           w = (s, h, e)
       in if msg_type = ACMP_MSG_CONNECT_TX_COMMAND then
            (if for_talker then acmp_handle_connect_tx cbs pdu w else w)
          else if msg_type = ACMP_MSG_CONNECT_TX_RESPONSE then acmp_handle_connect_tx_response cbs pdu w
          else if msg_type = ACMP_MSG_DISCONNECT_TX_COMMAND then
            (if for_talker then acmp_handle_disconnect_tx cbs pdu w else w)
          else if msg_type = ACMP_MSG_GET_TX_STATE_COMMAND then
            (if for_talker then lift_w (acmp_handle_get_tx_state pdu) w else w)
          else if msg_type = ACMP_MSG_CONNECT_RX_COMMAND then
            (if for_listener then acmp_handle_connect_rx cbs pdu w else w)
          else if msg_type = ACMP_MSG_DISCONNECT_RX_COMMAND then
            (if for_listener then acmp_handle_disconnect_rx cbs pdu w else w)
          else if msg_type = ACMP_MSG_GET_RX_STATE_COMMAND then
            (if for_listener then lift_w (acmp_handle_get_rx_state pdu) w else w)
          else w)"

section \<open>Initialisation and polling\<close>

definition avdecc_init :: "u8 list \<Rightarrow> hw \<Rightarrow> avdecc_state \<times> hw" where
  "avdecc_init mac h =
     (avdecc_zero\<lparr>v_clock_last_locked := 0xFF, v_src_mac := mac,
        v_entity_id := [mac ! 0, mac ! 1, mac ! 2, 0xFF, 0xFE, mac ! 3, mac ! 4, mac ! 5]\<rparr>,
      h\<lparr>hw_txslot := (hw_txslot h)(TxAvdecc := 0)\<rparr>)"

definition avdecc_set_talker_stream :: "u16 \<Rightarrow> u8 list \<Rightarrow> u8 list \<Rightarrow> avdecc_state \<Rightarrow> avdecc_state" where
  "avdecc_set_talker_stream uid stream_id dest_mac s =
     (if uid \<ge> AVDECC_MAX_TALKERS then s
      else s\<lparr>v_talkers := (v_talkers s)[unat uid :=
               (v_talkers s ! unat uid)\<lparr>vt_stream_id := stream_id, vt_dest_mac := dest_mac\<rparr>]\<rparr>)"

definition avdecc_depart :: "gptp_t option \<Rightarrow> avdecc_state \<times> hw \<Rightarrow> avdecc_state \<times> hw" where
  "avdecc_depart g_gptp = adp_send g_gptp ADP_MSG_ENTITY_DEPARTING"

definition track_clock_lock :: "gptp_t option \<Rightarrow> mcr_state option \<Rightarrow> avdecc_state \<times> hw \<Rightarrow> avdecc_state \<times> hw" where
  "track_clock_lock g_gptp g_mcr = (\<lambda>(s, h).
     let cur = (if v_current_clock_source s = 1
                then (case g_mcr of Some m \<Rightarrow> if m_servo_locked m \<noteq> 0 then 1 else 0 | None \<Rightarrow> 0)
                else (case g_gptp of Some g \<Rightarrow> if g_servo_locked g \<noteq> 0 then 1 else 0 | None \<Rightarrow> 0)) :: u8
     in if v_clock_last_locked s = 0xFF then (s\<lparr>v_clock_last_locked := cur\<rparr>, h)
        else if cur \<noteq> v_clock_last_locked s then
          let s1 = (if cur \<noteq> 0 then s\<lparr>v_clock_locked_count := v_clock_locked_count s + 1\<rparr>
                    else s\<lparr>v_clock_unlocked_count := v_clock_unlocked_count s + 1\<rparr>)
          in push_unsol_clock_counters (s1\<lparr>v_clock_last_locked := cur\<rparr>, h)
        else (s, h))"

definition resolve_timeout :: "u32 \<Rightarrow> nat \<Rightarrow> avdecc_state \<times> hw \<Rightarrow> avdecc_state \<times> hw" where
  "resolve_timeout now i = (\<lambda>(s, h).
     let r = v_resolves s ! i
     in if vr_active r = 0 then (s, h)
        else if guarded_age now (vr_start_ms r) 0 \<ge> 1500 then
          let (s1, h1) = send_deferred_connect_rx_response r ACMP_STATUS_LISTENER_TALKER_TIMEOUT
                (zeros 8) (zeros 6) 0 (s, h)
          in (s1\<lparr>v_resolves := (v_resolves s1)[i := r\<lparr>vr_active := 0\<rparr>]\<rparr>, h1)
        else (s, h))"

definition avdecc_poll :: "gptp_t option \<Rightarrow> mcr_state option \<Rightarrow> avdecc_state \<times> hw \<Rightarrow> avdecc_state \<times> hw" where
  "avdecc_poll g_gptp g_mcr w =
     (let (s1, h1) = track_clock_lock g_gptp g_mcr w;
          (now1, h2) = gptp_uptime_ms h1;
          (s3, h3) = fold (resolve_timeout now1) [0..<unat AVDECC_MAX_LISTENERS] (s1, h2);
          (now, h4) = gptp_uptime_ms h3
      in if guarded_age now (v_last_adp_ms s3) ADP_ADVERTISE_PERIOD_MS \<ge> ADP_ADVERTISE_PERIOD_MS then
           let (s5, h5) = adp_send g_gptp ADP_MSG_ENTITY_AVAILABLE (s3, h4)
           in (s5\<lparr>v_last_adp_ms := now\<rparr>, h5)
         else (s3, h4))"

end
