(* ===== verification/AvdeccProps.thy ===== *)
theory AvdeccProps
  imports Avdecc
begin

text \<open>
  Lemmas of AVDECC connection management: the invariant of the connection state and its
  stream counters, preserved by every ACMP frame, poll, watchdog call and notification, and
  the reading of ACMP frames field by field.
\<close>

section \<open>Sending\<close>

lemma avdecc_send_sent: "length fr \<le> 1000 \<Longrightarrow> hw_sent (avdecc_send fr h) = hw_sent h @ [fr]"
proof -
  assume "length fr \<le> 1000"
  then have "unat (of_nat (length fr) :: u32) = length fr"
    by (simp add: unsigned_of_nat take_bit_nat_eq_self)
  then show ?thesis by (simp add: avdecc_send_def bytes_mput_same)
qed

text \<open>A notification changes the controllers' sequence numbers and the transmit count only.\<close>

definition notified :: "avdecc_state \<Rightarrow> avdecc_state \<Rightarrow> bool" where
  "notified s s' \<longleftrightarrow>
     (\<exists>u n. s' = s\<lparr>v_unsol_ctrl := u, v_aecp_tx_count := n\<rparr> \<and> length u = length (v_unsol_ctrl s))"

lemma notified_refl: "notified s s"
  unfolding notified_def by (intro exI [of _ "v_unsol_ctrl s"] exI [of _ "v_aecp_tx_count s"]) simp

lemma notified_trans: "notified s t \<Longrightarrow> notified t r \<Longrightarrow> notified s r"
  unfolding notified_def by force

lemma notified_push: "notified s (fst (push_unsol fr (s, h)))"
proof -
  define f where "f = (\<lambda>i (s, h).
     let c = v_unsol_ctrl s ! i
     in if vu_active c = 0 then (s, h)
        else (s\<lparr>v_unsol_ctrl := (v_unsol_ctrl s)[i := c\<lparr>vu_unsol_seq_id := vu_unsol_seq_id c + 1\<rparr>],
                v_aecp_tx_count := v_aecp_tx_count s + 1\<rparr>,
              avdecc_send (fr s c) h))"
  have step: "notified (fst w) (fst (f i w))" for i w
  proof (cases w)
    case (Pair t k)
    show ?thesis
    proof (cases "vu_active (v_unsol_ctrl t ! i) = 0")
      case True
      then show ?thesis by (simp add: f_def Pair notified_refl)
    next
      case False
      then show ?thesis unfolding notified_def
        by (intro exI [of _ "(v_unsol_ctrl t)[i := (v_unsol_ctrl t ! i)\<lparr>vu_unsol_seq_id :=
              vu_unsol_seq_id (v_unsol_ctrl t ! i) + 1\<rparr>]"] exI [of _ "v_aecp_tx_count t + 1"])
          (simp add: f_def Pair Let_def)
    qed
  qed
  have "notified (fst w) (fst (fold f is w))" for "is" w
  proof (induction "is" arbitrary: w)
    case Nil
    then show ?case by (simp add: notified_refl)
  next
    case (Cons i xs)
    show ?case using notified_trans [OF step [of w i] Cons.IH [of "f i w"]] by simp
  qed
  from this [of "(s, h)" "[0..<AVDECC_MAX_UNSOL_CTRL]"] show ?thesis
    unfolding push_unsol_def f_def by (simp only: fst_conv)
qed

lemma notified_stream_counters: "notified s (fst (push_unsol_stream_counters uid (s, h)))"
  unfolding push_unsol_stream_counters_def push_unsol_counters_def by (auto intro: notified_push notified_refl)

lemma notified_clock_counters: "notified s (fst (push_unsol_clock_counters (s, h)))"
  unfolding push_unsol_clock_counters_def push_unsol_counters_def by (auto intro: notified_push)

lemma notified_two: "notified s (fst (push_unsol_stream_info dt di (push_unsol_stream_counters uid (s, h))))"
proof -
  obtain s1 h1 where 1: "push_unsol_stream_counters uid (s, h) = (s1, h1)" by fastforce
  then have "notified s s1" using notified_stream_counters [of s uid h] by simp
  then show ?thesis unfolding 1 push_unsol_stream_info_def by (rule notified_trans [OF _ notified_push])
qed

lemma notified_fields:
  assumes "notified s s'"
  shows "v_entity_id s' = v_entity_id s" "v_src_mac s' = v_src_mac s" "v_talkers s' = v_talkers s"
    "v_listeners s' = v_listeners s" "v_resolves s' = v_resolves s" "v_next_acmp_seq s' = v_next_acmp_seq s"
    "v_stream_media_locked s' = v_stream_media_locked s" "v_stream_media_unlocked s' = v_stream_media_unlocked s"
    "v_stream_last_locked s' = v_stream_last_locked s" "v_stream_frames_rx s' = v_stream_frames_rx s"
    "length (v_unsol_ctrl s') = length (v_unsol_ctrl s)" "v_clock_last_locked s' = v_clock_last_locked s"
    "v_clock_locked_count s' = v_clock_locked_count s" "v_clock_unlocked_count s' = v_clock_unlocked_count s"
    "v_last_adp_ms s' = v_last_adp_ms s" "v_acmp_tx_count s' = v_acmp_tx_count s"
    "v_adp_available_index s' = v_adp_available_index s"
  using assms unfolding notified_def by auto

section \<open>The invariant of the connection state\<close>

text \<open>
  The arrays have their sizes; a pending resolve names its own listener; and for each stream
  input MEDIA_LOCKED exceeds MEDIA_UNLOCKED by exactly the last reported lock bit.
\<close>

definition avd_ok :: "avdecc_state \<Rightarrow> bool" where
  "avd_ok s \<longleftrightarrow> length (v_talkers s) = 1 \<and> length (v_listeners s) = 2 \<and> length (v_resolves s) = 2
     \<and> length (v_stream_media_locked s) = 2 \<and> length (v_stream_media_unlocked s) = 2
     \<and> length (v_stream_last_locked s) = 2 \<and> length (v_stream_frames_rx s) = 2
     \<and> length (v_unsol_ctrl s) = AVDECC_MAX_UNSOL_CTRL
     \<and> (\<forall>i < 2. vr_active (v_resolves s ! i) \<noteq> 0 \<longrightarrow> vr_listener_uid (v_resolves s ! i) = of_nat i)
     \<and> (\<forall>i < 2. v_stream_last_locked s ! i \<in> {0, 1}
          \<and> v_stream_media_locked s ! i = v_stream_media_unlocked s ! i + ucast (v_stream_last_locked s ! i))"

lemma avd_ok_notified: "notified s s' \<Longrightarrow> avd_ok s' = avd_ok s"
  by (simp add: avd_ok_def notified_fields)

lemma uid_cases: "(uid :: u16) < AVDECC_MAX_LISTENERS \<Longrightarrow> unat uid < 2"
  by (simp add: AVDECC_MAX_LISTENERS_def word_less_nat_alt)

lemma two_updates:
  assumes "\<forall>i < 2. P i (xs ! i) (ys ! i) (zs ! i)" and "k < 2" and "P k x y z"
    and "length xs = 2" "length ys = 2" "length zs = 2"
  shows "\<forall>i < 2. P i (xs[k := x] ! i) (ys[k := y] ! i) (zs[k := z] ! i)"
  using assms by (simp add: nth_list_update)

lemma notify_connected_ok: "avd_ok s \<Longrightarrow> avd_ok (fst (notify_listener_connected uid (s, h)))"
proof (cases "uid \<ge> AVDECC_MAX_LISTENERS")
  case True
  assume "avd_ok s"
  then show ?thesis using True by (simp add: notify_listener_connected_def)
next
  case False
  assume ok: "avd_ok s"
  have i: "unat uid < 2" using False uid_cases by (simp add: not_le)
  define s1 where "s1 = (if v_stream_media_locked s ! unat uid = v_stream_media_unlocked s ! unat uid
       then s\<lparr>v_stream_media_locked := (v_stream_media_locked s)[unat uid := v_stream_media_locked s ! unat uid + 1],
              v_stream_last_locked := (v_stream_last_locked s)[unat uid := 1]\<rparr> else s)"
  have "avd_ok s1" using ok i unfolding s1_def avd_ok_def by (auto simp: nth_list_update)
  moreover have "fst (notify_listener_connected uid (s, h))
      = fst (push_unsol_stream_info AEM_DESC_STREAM_INPUT uid (push_unsol_stream_counters uid (s1, h)))"
    using False by (simp add: notify_listener_connected_def s1_def Let_def)
  ultimately show ?thesis using avd_ok_notified [OF notified_two] by simp
qed

lemma notify_disconnected_ok: "avd_ok s \<Longrightarrow> avd_ok (fst (notify_listener_disconnected uid (s, h)))"
proof (cases "uid \<ge> AVDECC_MAX_LISTENERS")
  case True
  assume "avd_ok s"
  then show ?thesis using True by (simp add: notify_listener_disconnected_def)
next
  case False
  assume ok: "avd_ok s"
  have i: "unat uid < 2" using False uid_cases by (simp add: not_le)
  let ?L = "v_stream_media_locked s ! unat uid" and ?U = "v_stream_media_unlocked s ! unat uid"
  define s1 where "s1 = (if ?U < ?L
       then s\<lparr>v_stream_media_unlocked := (v_stream_media_unlocked s)[unat uid := ?U + 1],
              v_stream_last_locked := (v_stream_last_locked s)[unat uid := 0]\<rparr> else s)"
  have r: "v_stream_last_locked s ! unat uid \<in> {0, 1}" "?L = ?U + ucast (v_stream_last_locked s ! unat uid)"
    using ok i by (auto simp: avd_ok_def)
  have "?U < ?L \<Longrightarrow> ?L = ?U + 1" using r by auto
  then have "avd_ok s1" using ok i unfolding s1_def avd_ok_def by (auto simp: nth_list_update)
  moreover have "fst (notify_listener_disconnected uid (s, h))
      = fst (push_unsol_stream_info AEM_DESC_STREAM_INPUT uid (push_unsol_stream_counters uid (s1, h)))"
    using False by (simp add: notify_listener_disconnected_def s1_def Let_def)
  ultimately show ?thesis using avd_ok_notified [OF notified_two] by simp
qed

lemma lock_changed_ok:
  assumes ok: "avd_ok s" and b: "locked \<in> {0, 1}"
  shows "avd_ok (fst (avdecc_listener_lock_changed uid locked (s, h)))"
proof (cases "uid \<ge> AVDECC_MAX_LISTENERS \<or> locked = v_stream_last_locked s ! unat uid")
  case True
  then show ?thesis using ok by (auto simp: avdecc_listener_lock_changed_def)
next
  case False
  have i: "unat uid < 2" using False uid_cases by (simp add: not_le)
  define s1 where "s1 = (if locked \<noteq> 0
        then s\<lparr>v_stream_media_locked := (v_stream_media_locked s)[unat uid := v_stream_media_locked s ! unat uid + 1],
               v_stream_last_locked := (v_stream_last_locked s)[unat uid := locked]\<rparr>
        else s\<lparr>v_stream_media_unlocked := (v_stream_media_unlocked s)[unat uid := v_stream_media_unlocked s ! unat uid + 1],
               v_stream_last_locked := (v_stream_last_locked s)[unat uid := locked]\<rparr>)"
  have r: "v_stream_last_locked s ! unat uid \<in> {0, 1}"
    "v_stream_media_locked s ! unat uid = v_stream_media_unlocked s ! unat uid + ucast (v_stream_last_locked s ! unat uid)"
    using ok i by (auto simp: avd_ok_def)
  have "avd_ok s1" using ok i False b r unfolding s1_def avd_ok_def by (auto simp: nth_list_update)
  moreover have "fst (avdecc_listener_lock_changed uid locked (s, h)) = fst (push_unsol_stream_counters uid (s1, h))"
    using False by (simp add: avdecc_listener_lock_changed_def s1_def Let_def)
  ultimately show ?thesis using avd_ok_notified [OF notified_stream_counters] by simp
qed


text \<open>Sending a PDU bumps the transmit count; the invariant does not see it.\<close>

lemma avd_ok_more [simp]:
  "avd_ok (s\<lparr>v_acmp_tx_count := n\<rparr>) = avd_ok s" "avd_ok (s\<lparr>v_acmp_rx_count := n\<rparr>) = avd_ok s"
  "avd_ok (s\<lparr>v_next_acmp_seq := q\<rparr>) = avd_ok s" "avd_ok (s\<lparr>v_adp_tx_count := n\<rparr>) = avd_ok s"
  "avd_ok (s\<lparr>v_adp_available_index := n\<rparr>) = avd_ok s" "avd_ok (s\<lparr>v_last_adp_ms := n\<rparr>) = avd_ok s"
  "avd_ok (s\<lparr>v_crf_wd_init := b\<rparr>) = avd_ok s" "avd_ok (s\<lparr>v_crf_wd_recovery := b\<rparr>) = avd_ok s"
  "avd_ok (s\<lparr>v_crf_wd_rx_snapshot := n\<rparr>) = avd_ok s" "avd_ok (s\<lparr>v_crf_wd_flow_ms := n\<rparr>) = avd_ok s"
  "avd_ok (s\<lparr>v_crf_wd_last_retry_ms := n\<rparr>) = avd_ok s"
  "avd_ok (s\<lparr>v_clock_last_locked := b\<rparr>) = avd_ok s" "avd_ok (s\<lparr>v_clock_locked_count := n\<rparr>) = avd_ok s"
  "avd_ok (s\<lparr>v_clock_unlocked_count := n\<rparr>) = avd_ok s"
  "avd_ok (s\<lparr>v_listeners := (v_listeners s)[i := l]\<rparr>) = avd_ok s"
  "avd_ok (s\<lparr>v_talkers := (v_talkers s)[j := t]\<rparr>) = avd_ok s"
  by (simp_all add: avd_ok_def)

lemma lift_w_ok: "(\<And>s h. avd_ok s \<Longrightarrow> avd_ok (fst (f (s, h)))) \<Longrightarrow> avd_ok (fst w) \<Longrightarrow> avd_ok (fst (lift_w f w))"
  by (cases w) (auto simp: lift_w_def Let_def split: prod.splits dest: spec, metis fst_conv)

lemma response_ok: "avd_ok s \<Longrightarrow> avd_ok (fst (acmp_send_response mt st p (s, h)))"
  by (simp add: acmp_send_response_def Let_def)

lemma deferred_ok: "avd_ok s \<Longrightarrow> avd_ok (fst (send_deferred_connect_rx_response r st sid d v (s, h)))"
  by (simp add: send_deferred_connect_rx_response_def)

lemma command_ok: "avd_ok s \<Longrightarrow> avd_ok (fst (send_connect_tx_command r (s, h)))"
  "avd_ok s \<Longrightarrow> avd_ok (fst (send_disconnect_tx_command r sid (s, h)))"
  by (simp_all add: send_connect_tx_command_def send_disconnect_tx_command_def)

lemma resolve_clear_ok:
  "avd_ok s \<Longrightarrow> i < 2 \<Longrightarrow> vr_active r = 0 \<Longrightarrow> avd_ok (s\<lparr>v_resolves := (v_resolves s)[i := r]\<rparr>)"
  by (simp add: avd_ok_def nth_list_update)

lemma resolve_set_ok:
  "avd_ok s \<Longrightarrow> i < 2 \<Longrightarrow> vr_listener_uid r = of_nat i \<Longrightarrow> avd_ok (s\<lparr>v_resolves := (v_resolves s)[i := r]\<rparr>)"
  by (simp add: avd_ok_def nth_list_update)

lemma find_resolve_bound:
  "find_resolve seq i rs = Some k \<Longrightarrow> i \<le> k \<and> k < i + length rs \<and> vr_active (rs ! (k - i)) \<noteq> 0 \<and> vr_our_seq_id (rs ! (k - i)) = seq"
proof (induction rs arbitrary: i)
  case Nil
  then show ?case by simp
next
  case (Cons r rs)
  show ?case
  proof (cases "vr_active r = 0 \<or> vr_our_seq_id r \<noteq> seq")
    case True
    then have "find_resolve seq (Suc i) rs = Some k" using Cons.prems by simp
    from Cons.IH [OF this] show ?thesis by (auto simp: nth_Cons' Suc_diff_Suc)
  next
    case False
    then show ?thesis using Cons.prems by auto
  qed
qed

text \<open>Callbacks that respect the invariant, and the handlers run with them.\<close>

definition cbs_ok :: "'e avdecc_callbacks \<Rightarrow> bool" where
  "cbs_ok cbs \<longleftrightarrow>
     (\<forall>f u l w. cb_talker_connect cbs = Some f \<longrightarrow> avd_ok (fst w) \<longrightarrow> avd_ok (fst (f u l w)))
   \<and> (\<forall>f u w. cb_talker_disconnect cbs = Some f \<longrightarrow> avd_ok (fst w) \<longrightarrow> avd_ok (fst (f u w)))
   \<and> (\<forall>f u a b c w. cb_listener_connect cbs = Some f \<longrightarrow> avd_ok (fst w) \<longrightarrow> avd_ok (fst (f u a b c w)))
   \<and> (\<forall>f u w. cb_listener_disconnect cbs = Some f \<longrightarrow> avd_ok (fst w) \<longrightarrow> avd_ok (fst (f u w)))
   \<and> (\<forall>f u w. cb_clock_source_change cbs = Some f \<longrightarrow> avd_ok (fst w) \<longrightarrow> avd_ok (fst (f u w)))"

lemma cb_ok:
  assumes "cbs_ok cbs" and "avd_ok (fst w)"
  shows "avd_ok (fst (case cb_talker_connect cbs of None \<Rightarrow> w | Some f \<Rightarrow> f u l w))"
    and "avd_ok (fst (case cb_talker_disconnect cbs of None \<Rightarrow> w | Some f \<Rightarrow> f u w))"
    and "avd_ok (fst (case cb_listener_connect cbs of None \<Rightarrow> w | Some f \<Rightarrow> f u a b c w))"
    and "avd_ok (fst (case cb_listener_disconnect cbs of None \<Rightarrow> w | Some f \<Rightarrow> f u w))"
    and "avd_ok (fst (case cb_clock_source_change cbs of None \<Rightarrow> w | Some f \<Rightarrow> f u w))"
proof -
  show "avd_ok (fst (case cb_talker_connect cbs of None \<Rightarrow> w | Some f \<Rightarrow> f u l w))"
    using assms unfolding cbs_ok_def by (cases "cb_talker_connect cbs"; simp del: split_paired_All)
  show "avd_ok (fst (case cb_talker_disconnect cbs of None \<Rightarrow> w | Some f \<Rightarrow> f u w))"
    using assms unfolding cbs_ok_def by (cases "cb_talker_disconnect cbs"; simp del: split_paired_All)
  show "avd_ok (fst (case cb_listener_connect cbs of None \<Rightarrow> w | Some f \<Rightarrow> f u a b c w))"
    using assms unfolding cbs_ok_def by (cases "cb_listener_connect cbs"; simp del: split_paired_All)
  show "avd_ok (fst (case cb_listener_disconnect cbs of None \<Rightarrow> w | Some f \<Rightarrow> f u w))"
    using assms unfolding cbs_ok_def by (cases "cb_listener_disconnect cbs"; simp del: split_paired_All)
  show "avd_ok (fst (case cb_clock_source_change cbs of None \<Rightarrow> w | Some f \<Rightarrow> f u w))"
    using assms unfolding cbs_ok_def by (cases "cb_clock_source_change cbs"; simp del: split_paired_All)
qed

lemma connect_tx_ok: "cbs_ok cbs \<Longrightarrow> avd_ok s \<Longrightarrow> avd_ok (fst (acmp_handle_connect_tx cbs p (s, h, e)))"
  unfolding acmp_handle_connect_tx_def prod.case Let_def
  by (auto intro!: lift_w_ok response_ok cb_ok)

lemma disconnect_tx_ok: "cbs_ok cbs \<Longrightarrow> avd_ok s \<Longrightarrow> avd_ok (fst (acmp_handle_disconnect_tx cbs p (s, h, e)))"
  unfolding acmp_handle_disconnect_tx_def prod.case Let_def
  by (auto intro!: lift_w_ok response_ok cb_ok)

lemma disconnect_rx_ok: "cbs_ok cbs \<Longrightarrow> avd_ok s \<Longrightarrow> avd_ok (fst (acmp_handle_disconnect_rx cbs p (s, h, e)))"
  unfolding acmp_handle_disconnect_rx_def prod.case Let_def
  by (auto intro!: lift_w_ok response_ok cb_ok notify_disconnected_ok)

lemma uid_01: "(uid :: u16) < AVDECC_MAX_LISTENERS \<Longrightarrow> uid = 0 \<or> uid = 1"
proof -
  assume "uid < AVDECC_MAX_LISTENERS"
  then have "unat uid = 0 \<or> unat uid = 1" using uid_cases [of uid] by linarith
  then show ?thesis by (auto simp: word_unat_eq_iff)
qed

lemma u16_uid: "(luid :: u16) < AVDECC_MAX_LISTENERS \<Longrightarrow> (ucast luid :: u8) = of_nat (unat luid)"
  using uid_01 [of luid] by auto

lemma pending_set_ok:
  fixes luid :: u16
  assumes ok: "avd_ok s" and l: "luid < AVDECC_MAX_LISTENERS" and r: "vr_listener_uid r = ucast luid"
  shows "avd_ok (s\<lparr>v_next_acmp_seq := q, v_resolves := (v_resolves s)[unat luid := r]\<rparr>)"
proof -
  have "vr_listener_uid r = of_nat (unat luid)" unfolding r by (rule u16_uid [OF l])
  then have "avd_ok ((s\<lparr>v_next_acmp_seq := q\<rparr>)\<lparr>v_resolves := (v_resolves (s\<lparr>v_next_acmp_seq := q\<rparr>))[unat luid := r]\<rparr>)"
    by (intro resolve_set_ok uid_cases l) (simp add: ok)
  then show ?thesis by simp
qed

lemma connect_rx_ok:
  assumes cb: "cbs_ok cbs" and ok: "avd_ok s"
  shows "avd_ok (fst (acmp_handle_connect_rx cbs p (s, h, e)))"
proof -
  let ?luid = "get_be16 p ACMP_OFF_LISTENER_UID"
  show ?thesis
  proof (cases "?luid \<ge> AVDECC_MAX_LISTENERS")
    case True
    then show ?thesis
      unfolding acmp_handle_connect_rx_def prod.case Let_def if_P [OF True] by (intro lift_w_ok response_ok) (simp_all add: ok)
  next
    case luid: False
    note nl = luid [unfolded not_le]
    show ?thesis
    proof (cases "bytes p ACMP_OFF_STREAM_ID 8 = zeros 8 \<and> bytes p ACMP_OFF_STREAM_DEST_MAC 6 = zeros 6
        \<and> bytes p ACMP_OFF_TALKER_ID 8 \<noteq> zeros 8")
      case True
      show ?thesis
        unfolding acmp_handle_connect_rx_def prod.case Let_def gptp_uptime_ms_eq if_not_P [OF luid] if_P [OF True]
        by (intro lift_w_ok command_ok) (assumption, simp only: fst_conv, rule pending_set_ok [OF ok nl], simp)
    next
      case slow: False
      show ?thesis
      proof (cases "bytes p ACMP_OFF_TALKER_ID 8 = zeros 8")
        case True
        show ?thesis
          unfolding acmp_handle_connect_rx_def prod.case Let_def if_not_P [OF luid] if_not_P [OF slow] if_P [OF True]
          by (intro lift_w_ok response_ok) (simp_all add: ok)
      next
        case False
        show ?thesis
          unfolding acmp_handle_connect_rx_def prod.case Let_def if_not_P [OF luid] if_not_P [OF slow] if_not_P [OF False]
          by (intro lift_w_ok response_ok notify_connected_ok cb_ok cb) (simp_all add: ok)
      qed
    qed
  qed
qed


lemma bind_resolved_ok:
  assumes cb: "cbs_ok cbs" and ok: "avd_ok s"
  shows "avd_ok (fst (acmp_bind_resolved cbs p i (s, h, e)))"
  unfolding acmp_bind_resolved_def prod.case Let_def
  by (intro lift_w_ok notify_connected_ok cb_ok cb) (simp_all add: ok)

lemma connect_tx_response_ok:
  assumes cb: "cbs_ok cbs" and ok: "avd_ok s"
  shows "avd_ok (fst (acmp_handle_connect_tx_response cbs p (s, h, e)))"
proof (cases "bytes p ACMP_OFF_LISTENER_ID 8 \<noteq> v_entity_id s")
  case True
  then show ?thesis by (simp add: acmp_handle_connect_tx_response_def ok)
next
  case mine: False
  show ?thesis
  proof (cases "find_resolve (get_be16 p ACMP_OFF_SEQ_ID) 0 (v_resolves s)")
    case None
    then show ?thesis using mine by (simp add: acmp_handle_connect_tx_response_def ok)
  next
    case (Some i)
    have i: "i < 2" using find_resolve_bound [OF Some] ok by (simp add: avd_ok_def)
    let ?status = "drop_bit 3 (p 2) AND 0x1F"
    define w1 where "w1 = (if ?status = ACMP_STATUS_SUCCESS then acmp_bind_resolved cbs p i (s, h, e) else (s, h, e))"
    have w1: "avd_ok (fst w1)" unfolding w1_def using bind_resolved_ok [OF cb ok] ok by simp
    define w2 where "w2 = lift_w (send_deferred_connect_rx_response (v_resolves (fst w1) ! i) ?status
                 (bytes p ACMP_OFF_STREAM_ID 8) (bytes p ACMP_OFF_STREAM_DEST_MAC 6)
                 (get_be16 p ACMP_OFF_VLAN_ID)) w1"
    have w2: "avd_ok (fst w2)" unfolding w2_def by (rule lift_w_ok [OF _ w1]) (rule deferred_ok)
    have "acmp_handle_connect_tx_response cbs p (s, h, e) = (case w2 of (s2, h2, e2) \<Rightarrow>
        (s2\<lparr>v_resolves := (v_resolves s2)[i := (v_resolves s2 ! i)\<lparr>vr_active := 0\<rparr>]\<rparr>, h2, e2))"
      using mine Some unfolding acmp_handle_connect_tx_response_def Let_def prod.case w2_def w1_def by simp
    then show ?thesis using w2 i by (cases w2) (simp add: resolve_clear_ok)
  qed
qed

lemma acmp_process_rx_ok:
  assumes cb: "cbs_ok cbs" and ok: "avd_ok (fst w)"
  shows "avd_ok (fst (acmp_process_rx cbs frame len w))"
proof -
  obtain s h e where w: "w = (s, h, e)" by (cases w)
  let ?s = "s\<lparr>v_acmp_rx_count := v_acmp_rx_count s + 1\<rparr>"
  have s: "avd_ok ?s" "avd_ok s" using ok w by simp_all
  note hs = connect_tx_ok [OF cb s(1)] disconnect_tx_ok [OF cb s(1)] connect_rx_ok [OF cb s(1)]
    disconnect_rx_ok [OF cb s(1)] connect_tx_response_ok [OF cb s(1)]
  have lw: "avd_ok (fst (lift_w (acmp_handle_get_tx_state p) (?s, h, e)))"
    "avd_ok (fst (lift_w (acmp_handle_get_rx_state p) (?s, h, e)))" for p
    unfolding acmp_handle_get_tx_state_def acmp_handle_get_rx_state_def
    by (intro lift_w_ok response_ok; simp only: fst_conv s)+
  show ?thesis
    unfolding acmp_process_rx_def w prod.case Let_def
    using hs lw s by (simp only: fst_conv split: if_split) blast
qed

lemma watchdog_ok: "avd_ok s \<Longrightarrow> avd_ok (fst (avdecc_crf_flow_watchdog uid rx now (s, h)))"
  by (simp add: avdecc_crf_flow_watchdog_def send_connect_tx_command_def send_disconnect_tx_command_def Let_def)

lemma track_ok: "avd_ok s \<Longrightarrow> avd_ok (fst (track_clock_lock g m (s, h)))"
  by (simp add: track_clock_lock_def Let_def avd_ok_notified [OF notified_clock_counters])

lemma timeout_ok: "avd_ok s \<Longrightarrow> i < 2 \<Longrightarrow> avd_ok (fst (resolve_timeout now i (s, h)))"
  using resolve_clear_ok [of "s\<lparr>v_acmp_tx_count := v_acmp_tx_count s + 1\<rparr>" i "(v_resolves s ! i)\<lparr>vr_active := 0\<rparr>"]
  by (simp add: resolve_timeout_def send_deferred_connect_rx_response_def Let_def)

lemma timeouts_ok: "avd_ok (fst w) \<Longrightarrow> \<forall>i \<in> set is. i < 2 \<Longrightarrow> avd_ok (fst (fold (resolve_timeout now) is w))"
proof (induction "is" arbitrary: w)
  case Nil
  then show ?case by simp
next
  case (Cons i xs)
  have "avd_ok (fst (resolve_timeout now i w))" using Cons.prems timeout_ok by (cases w) simp
  then show ?case using Cons by simp
qed

lemma adp_ok: "avd_ok s \<Longrightarrow> avd_ok (fst (adp_send g mt (s, h)))"
  by (simp add: adp_send_def Let_def)

lemma avd_poll_ok: "avd_ok s \<Longrightarrow> avd_ok (fst (avdecc_poll g m (s, h)))"
proof -
  assume ok: "avd_ok s"
  obtain s1 h1 where 1: "track_clock_lock g m (s, h) = (s1, h1)" by fastforce
  then have s1: "avd_ok s1" using track_ok [OF ok, of g m h] by simp
  obtain s3 h3 where 3: "fold (resolve_timeout (peek_ms h1)) [0..<unat AVDECC_MAX_LISTENERS] (s1, tick_time h1) = (s3, h3)"
    by fastforce
  have "\<forall>i \<in> set [0..<unat AVDECC_MAX_LISTENERS]. i < 2" by (simp add: AVDECC_MAX_LISTENERS_def)
  then have s3: "avd_ok s3" using timeouts_ok [of "(s1, tick_time h1)"] s1 3 by (metis fst_conv)
  obtain s5 h5 where 5: "adp_send g ADP_MSG_ENTITY_AVAILABLE (s3, tick_time h3) = (s5, h5)" by fastforce
  then have "avd_ok s5" using adp_ok [OF s3, of g ADP_MSG_ENTITY_AVAILABLE "tick_time h3"] by simp
  then show ?thesis
    unfolding avdecc_poll_def 1 Let_def prod.case gptp_uptime_ms_eq 3 5 using s3 by simp
qed

lemma frame_rx_ok: "avd_ok s \<Longrightarrow> avd_ok (avdecc_listener_frame_rx uid s)"
  by (simp add: avdecc_listener_frame_rx_def avd_ok_def)

lemma avdecc_init_ok: "avd_ok (fst (avdecc_init mac h))"
  by (simp add: avdecc_init_def avdecc_zero_def avd_ok_def AVDECC_MAX_LISTENERS_def AVDECC_MAX_TALKERS_def
      resolve_zero_def less_2_cases_iff)

section \<open>No application\<close>

definition no_callbacks :: "'e avdecc_callbacks" where
  "no_callbacks = \<lparr>cb_talker_connect = None, cb_talker_disconnect = None, cb_listener_connect = None,
     cb_listener_disconnect = None, cb_clock_source_change = None\<rparr>"

lemma no_callbacks_ok: "cbs_ok no_callbacks"
  by (simp add: cbs_ok_def no_callbacks_def)

section \<open>Reading ACMP frames\<close>

lemma stored_shift: "stored (\<lambda>i. m (k + i)) off xs = stored m (k + off) xs"
  by (simp add: stored_def bytes_def add.assoc)

text \<open>An ACMP PDU field by field, in wire order.\<close>

definition acmp_pdu :: "u8 \<Rightarrow> u8 list \<Rightarrow> u8 list \<Rightarrow> u8 list \<Rightarrow> u8 list \<Rightarrow> u8 list \<Rightarrow> u16 \<Rightarrow> u16 \<Rightarrow> u8 list
    \<Rightarrow> u16 \<Rightarrow> u16 \<Rightarrow> u16 \<Rightarrow> u16 \<Rightarrow> u8 list" where
  "acmp_pdu mt st_cdl sid ceid teid leid tuid luid dmac cc seq flags vlan =
     [AVTP_SUBTYPE_ACMP, mt] @ st_cdl @ sid @ ceid @ teid @ leid @ put_be16 tuid @ put_be16 luid @ dmac
       @ put_be16 cc @ put_be16 seq @ put_be16 flags @ put_be16 vlan @ zeros 2"

lemma acmp_pdu_length:
  "length st_cdl = 2 \<Longrightarrow> length sid = 8 \<Longrightarrow> length ceid = 8 \<Longrightarrow> length teid = 8 \<Longrightarrow> length leid = 8 \<Longrightarrow> length dmac = 6 \<Longrightarrow>
   length (acmp_pdu mt st_cdl sid ceid teid leid tuid luid dmac cc seq flags vlan) = 56"
  by (simp add: acmp_pdu_def)

lemma acmp_pdu_fields:
  assumes st: "stored p 0 (acmp_pdu mt st_cdl sid ceid teid leid tuid luid dmac cc seq flags vlan)"
    and l: "length st_cdl = 2" "length sid = 8" "length ceid = 8" "length teid = 8" "length leid = 8" "length dmac = 6"
  shows "p 0 = AVTP_SUBTYPE_ACMP" "p 1 = mt" "bytes p 2 2 = st_cdl" "bytes p ACMP_OFF_STREAM_ID 8 = sid"
    "bytes p ACMP_OFF_CONTROLLER_ID 8 = ceid" "bytes p ACMP_OFF_TALKER_ID 8 = teid"
    "bytes p ACMP_OFF_LISTENER_ID 8 = leid" "get_be16 p ACMP_OFF_TALKER_UID = tuid"
    "get_be16 p ACMP_OFF_LISTENER_UID = luid" "bytes p ACMP_OFF_STREAM_DEST_MAC 6 = dmac"
    "get_be16 p ACMP_OFF_CONN_COUNT = cc" "get_be16 p ACMP_OFF_SEQ_ID = seq" "get_be16 p ACMP_OFF_FLAGS = flags"
    "get_be16 p ACMP_OFF_VLAN_ID = vlan"
proof -
  have four: "(4 :: nat) = Suc (Suc (Suc (Suc 0)))" by simp
  show "p 0 = AVTP_SUBTYPE_ACMP" "p 1 = mt" "bytes p 2 2 = st_cdl" "bytes p ACMP_OFF_STREAM_ID 8 = sid"
    "bytes p ACMP_OFF_CONTROLLER_ID 8 = ceid" "bytes p ACMP_OFF_TALKER_ID 8 = teid"
    "bytes p ACMP_OFF_LISTENER_ID 8 = leid" "get_be16 p ACMP_OFF_TALKER_UID = tuid"
    "get_be16 p ACMP_OFF_LISTENER_UID = luid" "bytes p ACMP_OFF_STREAM_DEST_MAC 6 = dmac"
    "get_be16 p ACMP_OFF_CONN_COUNT = cc" "get_be16 p ACMP_OFF_SEQ_ID = seq" "get_be16 p ACMP_OFF_FLAGS = flags"
    "get_be16 p ACMP_OFF_VLAN_ID = vlan"
    using st l unfolding acmp_pdu_def
    by (auto simp: acmp_offs numeral_2_eq_2 four intro!: stored_bytes stored_be16)
qed

lemma zeros_be16: "zeros 2 = put_be16 0" "zeros 6 = put_be16 0 @ put_be16 0 @ zeros 2"
  by (simp_all add: zeros_def put_be16_def numeral_eq_Suc)

lemma acmp_command_pdu:
  "acmp_command mt s r sid = avdecc_eth_hdr (v_src_mac s)
     @ acmp_pdu mt (acmp_st_cdl 0) sid (v_entity_id s) (vr_talker_id r) (v_entity_id s) (vr_talker_uid r)
         (ucast (vr_listener_uid r)) (zeros 6) 0 (vr_our_seq_id r) 0 0"
  by (simp add: acmp_command_def acmp_pdu_def acmp_st_cdl_def)
    (simp add: zeros_def put_be16_def numeral_eq_Suc)

lemma deferred_pdu:
  "send_deferred_connect_rx_response r status sid dmac vlan (s, h) =
     (s\<lparr>v_acmp_tx_count := v_acmp_tx_count s + 1\<rparr>,
      avdecc_send (avdecc_eth_hdr (v_src_mac s)
        @ acmp_pdu ACMP_MSG_CONNECT_RX_RESPONSE (acmp_st_cdl status) sid (vr_ctrl_eid_orig r) (vr_talker_id r)
            (v_entity_id s) (vr_talker_uid r) (ucast (vr_listener_uid r)) dmac
            (vl_connection_count (v_listeners s ! unat (vr_listener_uid r))) (vr_ctrl_seq_id_orig r) 0 vlan) h)"
  by (simp add: send_deferred_connect_rx_response_def acmp_pdu_def)

text \<open>The fields of a talker's response: its own stream, the rest echoed.\<close>

lemma connect_tx_response_fields:
  fixes rx :: mem
  defines "P \<equiv> \<lambda>s st. acmp_listener_fields s ACMP_MSG_CONNECT_TX_RESPONSE (acmp_talker_fields s ACMP_MSG_CONNECT_TX_RESPONSE
      (mputs rx [(0, [AVTP_SUBTYPE_ACMP]), (1, [ACMP_MSG_CONNECT_TX_RESPONSE AND 0x0F]), (2, acmp_st_cdl st)]))"
  assumes uid: "get_be16 rx ACMP_OFF_TALKER_UID = 0"
    and l: "length (vt_stream_id (v_talkers s ! 0)) = 8" "length (vt_dest_mac (v_talkers s ! 0)) = 6"
  shows "P s st 1 = ACMP_MSG_CONNECT_TX_RESPONSE" "bytes (P s st) 2 2 = acmp_st_cdl st"
    "bytes (P s st) ACMP_OFF_STREAM_ID 8 = vt_stream_id (v_talkers s ! 0)"
    "bytes (P s st) ACMP_OFF_LISTENER_ID 8 = bytes rx ACMP_OFF_LISTENER_ID 8"
    "bytes (P s st) ACMP_OFF_STREAM_DEST_MAC 6 = vt_dest_mac (v_talkers s ! 0)"
    "get_be16 (P s st) ACMP_OFF_SEQ_ID = get_be16 rx ACMP_OFF_SEQ_ID"
    "get_be16 (P s st) ACMP_OFF_VLAN_ID = get_be16 rx ACMP_OFF_VLAN_ID"
proof -
  let ?p0 = "mputs rx [(0, [AVTP_SUBTYPE_ACMP]), (1, [ACMP_MSG_CONNECT_TX_RESPONSE AND 0x0F]), (2, acmp_st_cdl st)]"
  have u: "get_be16 ?p0 ACMP_OFF_TALKER_UID = 0"
    using uid by (simp add: get_be16_def acmp_offs mput_outside acmp_st_cdl_def)
  have P: "P s st = mputs ?p0 [(ACMP_OFF_STREAM_ID, vt_stream_id (v_talkers s ! 0)),
      (ACMP_OFF_STREAM_DEST_MAC, vt_dest_mac (v_talkers s ! 0)),
      (ACMP_OFF_CONN_COUNT, put_be16 (vt_connection_count (v_talkers s ! 0)))]"
    using u unfolding P_def acmp_listener_fields_def acmp_talker_fields_def
    by (simp add: ACMP_MSG_CONNECT_TX_RESPONSE_def ACMP_MSG_GET_TX_STATE_RESPONSE_def ACMP_MSG_CONNECT_RX_RESPONSE_def
        ACMP_MSG_GET_RX_STATE_RESPONSE_def ACMP_MSG_DISCONNECT_RX_RESPONSE_def AVDECC_MAX_TALKERS_def Let_def)
  show "P s st 1 = ACMP_MSG_CONNECT_TX_RESPONSE"
    unfolding P by (simp add: wire acmp_offs l acmp_st_cdl_def ACMP_MSG_CONNECT_TX_RESPONSE_def)
  show "bytes (P s st) 2 2 = acmp_st_cdl st" "bytes (P s st) ACMP_OFF_STREAM_ID 8 = vt_stream_id (v_talkers s ! 0)"
    "bytes (P s st) ACMP_OFF_LISTENER_ID 8 = bytes rx ACMP_OFF_LISTENER_ID 8"
    "bytes (P s st) ACMP_OFF_STREAM_DEST_MAC 6 = vt_dest_mac (v_talkers s ! 0)"
    unfolding P by (simp_all add: bytes_mput_other bytes_mput_same acmp_offs l acmp_st_cdl_def)
  show "get_be16 (P s st) ACMP_OFF_SEQ_ID = get_be16 rx ACMP_OFF_SEQ_ID"
    "get_be16 (P s st) ACMP_OFF_VLAN_ID = get_be16 rx ACMP_OFF_VLAN_ID"
    unfolding P by (simp_all add: get_be16_def mput_outside acmp_offs l acmp_st_cdl_def)
qed

end
