(* ===== verification/AcmpProps.thy ===== *)
theory AcmpProps
  imports AvdeccProps
begin

text \<open>
  ACMP end to end: the contract of the connection callbacks as the locale
  \<open>connection_callbacks\<close>, the slow path by which a listener board learns a talker's stream
  (command, reply, binding, deferred answer to the controller), the time-out that answers a
  controller whose talker is silent, and the CRF watchdog.
\<close>


section \<open>The contract of the connection callbacks\<close>

text \<open>
  What ACMP relies on from the application: a callback may update the reservation data of the
  listener entries and the application's own state, but it changes no binding and sends no
  frame.
\<close>

definition same_binding :: "avdecc_listener_stream \<Rightarrow> avdecc_listener_stream \<Rightarrow> bool" where
  "same_binding l l' \<longleftrightarrow> (\<exists>n v. l' = l\<lparr>vl_msrp_accumulated_latency_ns := n, vl_stream_vlan_id := v\<rparr>)"

definition quiet :: "'e vworld \<Rightarrow> 'e vworld \<Rightarrow> bool" where
  "quiet w w' \<longleftrightarrow>
     (\<exists>ls. fst w' = (fst w)\<lparr>v_listeners := ls\<rparr> \<and> list_all2 same_binding (v_listeners (fst w)) ls)
   \<and> hw_sent (fst (snd w')) = hw_sent (fst (snd w))"

lemma same_binding_refl [simp]: "same_binding l l"
  unfolding same_binding_def
  by (intro exI [of _ "vl_msrp_accumulated_latency_ns l"] exI [of _ "vl_stream_vlan_id l"]) simp

lemma same_binding_fields:
  "same_binding l l' \<Longrightarrow> vl_talker_id l' = vl_talker_id l \<and> vl_talker_uid l' = vl_talker_uid l
     \<and> vl_stream_id l' = vl_stream_id l \<and> vl_dest_mac l' = vl_dest_mac l \<and> vl_connected l' = vl_connected l
     \<and> vl_connection_count l' = vl_connection_count l"
  by (auto simp: same_binding_def)

lemma quiet_refl [simp]: "quiet w w"
  unfolding quiet_def by (intro conjI exI [of _ "v_listeners (fst w)"]) (auto intro: list.rel_refl)

lemma quiet_fields:
  assumes "quiet (s, h, e) (s', h', e')"
  shows "v_entity_id s' = v_entity_id s" "v_src_mac s' = v_src_mac s" "v_talkers s' = v_talkers s"
    "v_resolves s' = v_resolves s" "v_next_acmp_seq s' = v_next_acmp_seq s" "hw_sent h' = hw_sent h"
    "length (v_listeners s') = length (v_listeners s)"
    "i < length (v_listeners s) \<Longrightarrow> same_binding (v_listeners s ! i) (v_listeners s' ! i)"
  using assms by (auto simp: quiet_def list_all2_lengthD list_all2_nthD)

lemma quiet_avd_ok: "quiet w w' \<Longrightarrow> avd_ok (fst w') = avd_ok (fst w)"
  by (auto simp: quiet_def avd_ok_def list_all2_lengthD)

locale connection_callbacks =
  fixes cbs :: "'e avdecc_callbacks"
  assumes quiet_talker_connect: "cb_talker_connect cbs = Some f \<Longrightarrow> quiet w (f uid eid w)"
    and quiet_talker_disconnect: "cb_talker_disconnect cbs = Some g \<Longrightarrow> quiet w (g uid w)"
    and quiet_listener_connect: "cb_listener_connect cbs = Some k \<Longrightarrow> quiet w (k uid sid dst tid w)"
    and quiet_listener_disconnect: "cb_listener_disconnect cbs = Some d \<Longrightarrow> quiet w (d uid w)"
    and quiet_clock_source_change: "cb_clock_source_change cbs = Some c \<Longrightarrow> quiet w (c src w)"
begin

lemma keeps_invariant: "cbs_ok cbs"
  unfolding cbs_ok_def
proof (intro conjI allI impI)
  fix f :: "u16 \<Rightarrow> u8 list \<Rightarrow> 'e vworld \<Rightarrow> 'e vworld" and u l and w :: "'e vworld"
  assume "cb_talker_connect cbs = Some f" "avd_ok (fst w)"
  then show "avd_ok (fst (f u l w))" using quiet_avd_ok [OF quiet_talker_connect] by blast
next
  fix f :: "u16 \<Rightarrow> 'e vworld \<Rightarrow> 'e vworld" and u and w :: "'e vworld"
  assume "cb_talker_disconnect cbs = Some f" "avd_ok (fst w)"
  then show "avd_ok (fst (f u w))" using quiet_avd_ok [OF quiet_talker_disconnect] by blast
next
  fix f :: "u16 \<Rightarrow> u8 list \<Rightarrow> u8 list \<Rightarrow> u8 list \<Rightarrow> 'e vworld \<Rightarrow> 'e vworld" and u a b c and w :: "'e vworld"
  assume "cb_listener_connect cbs = Some f" "avd_ok (fst w)"
  then show "avd_ok (fst (f u a b c w))" using quiet_avd_ok [OF quiet_listener_connect] by blast
next
  fix f :: "u16 \<Rightarrow> 'e vworld \<Rightarrow> 'e vworld" and u and w :: "'e vworld"
  assume "cb_listener_disconnect cbs = Some f" "avd_ok (fst w)"
  then show "avd_ok (fst (f u w))" using quiet_avd_ok [OF quiet_listener_disconnect] by blast
next
  fix f :: "u16 \<Rightarrow> 'e vworld \<Rightarrow> 'e vworld" and u and w :: "'e vworld"
  assume "cb_clock_source_change cbs = Some f" "avd_ok (fst w)"
  then show "avd_ok (fst (f u w))" using quiet_avd_ok [OF quiet_clock_source_change] by blast
qed

lemma talker_connect_quiet: "quiet w (case cb_talker_connect cbs of None \<Rightarrow> w | Some f \<Rightarrow> f uid eid w)"
  using quiet_talker_connect by (auto split: option.split)

lemma listener_connect_quiet:
  "quiet w (case cb_listener_connect cbs of None \<Rightarrow> w | Some f \<Rightarrow> f uid sid dst tid w)"
  using quiet_listener_connect by (auto split: option.split)

end

interpretation no_callbacks: connection_callbacks no_callbacks
  by unfold_locales (simp_all add: no_callbacks_def)

section \<open>One handler at a time\<close>

text \<open>The pending request a slow-path CONNECT_RX leaves behind.\<close>

definition pending_of :: "mem \<Rightarrow> avdecc_state \<Rightarrow> hw \<Rightarrow> avdecc_resolve" where
  "pending_of p s h = \<lparr>vr_active = 1, vr_listener_uid = ucast (get_be16 p ACMP_OFF_LISTENER_UID),
     vr_our_seq_id = v_next_acmp_seq s, vr_ctrl_eid_orig = bytes p ACMP_OFF_CONTROLLER_ID 8,
     vr_ctrl_seq_id_orig = get_be16 p ACMP_OFF_SEQ_ID, vr_talker_id = bytes p ACMP_OFF_TALKER_ID 8,
     vr_talker_uid = get_be16 p ACMP_OFF_TALKER_UID, vr_start_ms = peek_ms h\<rparr>"

definition slow_request :: "avdecc_state \<Rightarrow> mem \<Rightarrow> bool" where
  "slow_request s p \<longleftrightarrow> p 1 AND 0x0F = ACMP_MSG_CONNECT_RX_COMMAND \<and> bytes p ACMP_OFF_LISTENER_ID 8 = v_entity_id s
     \<and> get_be16 p ACMP_OFF_LISTENER_UID < AVDECC_MAX_LISTENERS
     \<and> bytes p ACMP_OFF_STREAM_ID 8 = zeros 8 \<and> bytes p ACMP_OFF_STREAM_DEST_MAC 6 = zeros 6
     \<and> bytes p ACMP_OFF_TALKER_ID 8 \<noteq> zeros 8"

lemma acmp_msg_codes:
  "ACMP_MSG_CONNECT_TX_COMMAND = 0" "ACMP_MSG_CONNECT_TX_RESPONSE = 1" "ACMP_MSG_DISCONNECT_TX_COMMAND = 2"
  "ACMP_MSG_GET_TX_STATE_COMMAND = 4" "ACMP_MSG_CONNECT_RX_COMMAND = 6" "ACMP_MSG_CONNECT_RX_RESPONSE = 7"
  "ACMP_MSG_DISCONNECT_RX_COMMAND = 8" "ACMP_MSG_GET_RX_STATE_COMMAND = 10"
  by (simp_all add: ACMP_MSG_CONNECT_TX_COMMAND_def ACMP_MSG_CONNECT_TX_RESPONSE_def ACMP_MSG_DISCONNECT_TX_COMMAND_def
      ACMP_MSG_GET_TX_STATE_COMMAND_def ACMP_MSG_CONNECT_RX_COMMAND_def ACMP_MSG_CONNECT_RX_RESPONSE_def
      ACMP_MSG_DISCONNECT_RX_COMMAND_def ACMP_MSG_GET_RX_STATE_COMMAND_def)

lemma slow_request_taken:
  assumes "slow_request s (\<lambda>i. fr (14 + i))" and "70 \<le> len"
  defines "p \<equiv> \<lambda>i. fr (14 + i)"
  shows "acmp_process_rx cbs fr len (s, h, e) =
     (s\<lparr>v_acmp_rx_count := v_acmp_rx_count s + 1, v_next_acmp_seq := v_next_acmp_seq s + 1,
        v_resolves := (v_resolves s)[unat (get_be16 p ACMP_OFF_LISTENER_UID) := pending_of p s h],
        v_acmp_tx_count := v_acmp_tx_count s + 1\<rparr>,
      avdecc_send (acmp_command ACMP_MSG_CONNECT_TX_COMMAND s (pending_of p s h) (zeros 8)) (tick_time h), e)"
proof -
  have r: "(r :: avdecc_resolve)\<lparr>vr_active := 1, vr_listener_uid := a, vr_our_seq_id := b, vr_ctrl_eid_orig := c,
      vr_ctrl_seq_id_orig := d, vr_talker_id := f, vr_talker_uid := g, vr_start_ms := k\<rparr>
    = \<lparr>vr_active = 1, vr_listener_uid = a, vr_our_seq_id = b, vr_ctrl_eid_orig = c,
      vr_ctrl_seq_id_orig = d, vr_talker_id = f, vr_talker_uid = g, vr_start_ms = k\<rparr>" for r a b c d f g k
    by (cases r) simp
  have len: "\<not> len < 14 + of_nat ACMPDU_LEN" using assms(2) by (simp add: ACMPDU_LEN_def)
  note req = assms(1) [folded p_def, unfolded slow_request_def]
  have hd: "acmp_process_rx cbs fr len (s, h, e) = acmp_handle_connect_rx cbs p (s\<lparr>v_acmp_rx_count := v_acmp_rx_count s + 1\<rparr>, h, e)"
    using req unfolding acmp_process_rx_def prod.case if_not_P [OF len] Let_def p_def [symmetric] acmp_msg_codes by simp
  have luid: "\<not> AVDECC_MAX_LISTENERS \<le> get_be16 p ACMP_OFF_LISTENER_UID" using req by (simp add: not_le)
  show ?thesis
    using req
    unfolding hd acmp_handle_connect_rx_def prod.case Let_def if_not_P [OF luid] gptp_uptime_ms_eq
    by (simp add: r lift_w_def send_connect_tx_command_def pending_of_def acmp_command_def)
qed


text \<open>The talker's side: the reply it builds on top of the command it received.\<close>

definition connect_tx_reply :: "avdecc_state \<Rightarrow> mem \<Rightarrow> mem" where
  "connect_tx_reply s p = acmp_listener_fields s ACMP_MSG_CONNECT_TX_RESPONSE
     (acmp_talker_fields s ACMP_MSG_CONNECT_TX_RESPONSE
       (mputs p [(0, [AVTP_SUBTYPE_ACMP]), (1, [ACMP_MSG_CONNECT_TX_RESPONSE AND 0x0F]),
                 (2, acmp_st_cdl ACMP_STATUS_SUCCESS)]))"

lemma acmp_talker_fields_cong: "v_talkers s = v_talkers s' \<Longrightarrow> acmp_talker_fields s = acmp_talker_fields s'"
  unfolding acmp_talker_fields_def by (simp only:)

lemma acmp_listener_fields_cong: "v_listeners s = v_listeners s' \<Longrightarrow> acmp_listener_fields s = acmp_listener_fields s'"
  unfolding acmp_listener_fields_def by (simp only:)

lemma connect_tx_reply_cong:
  "v_talkers s = v_talkers s' \<Longrightarrow> v_listeners s = v_listeners s' \<Longrightarrow> connect_tx_reply s p = connect_tx_reply s' p"
  unfolding connect_tx_reply_def by (simp only: acmp_talker_fields_cong [of s s'] acmp_listener_fields_cong [of s s'])

definition talker_bound :: "mem \<Rightarrow> avdecc_talker_stream \<Rightarrow> avdecc_talker_stream" where
  "talker_bound p t = t\<lparr>vt_listener_id := bytes p ACMP_OFF_LISTENER_ID 8,
     vt_listener_uid := get_be16 p ACMP_OFF_LISTENER_UID, vt_connected := 1,
     vt_connection_count := vt_connection_count t + 1\<rparr>"

lemma sent_one: "hw_sent (avdecc_send fr h) = hw_sent h @ [bytes (mput (tx_buf TxAvdecc h) 0 fr) 0 (unat (of_nat (length fr) :: u32))]"
  by (simp add: avdecc_send_def)

context connection_callbacks
begin

lemma talker_answers:
  assumes fr: "\<And>i. fr (14 + i) = p i" and len: "70 \<le> len"
    and p: "p 1 = ACMP_MSG_CONNECT_TX_COMMAND" "bytes p ACMP_OFF_TALKER_ID 8 = v_entity_id s"
      "get_be16 p ACMP_OFF_TALKER_UID = 0"
    and ok: "length (v_talkers s) = 1" "length (v_src_mac s) = 6"
  obtains s' h' e' where "acmp_process_rx cbs fr len (s, h, e) = (s', h', e')"
    "v_talkers s' = [talker_bound p (v_talkers s ! 0)]" "v_entity_id s' = v_entity_id s"
    "hw_sent h' = hw_sent h @ [avdecc_eth_hdr (v_src_mac s) @ bytes (connect_tx_reply s' p) 0 ACMPDU_LEN]"
proof -
  have len': "\<not> len < 14 + of_nat ACMPDU_LEN" using len by (simp add: ACMPDU_LEN_def)
  have pdu: "(\<lambda>i. fr (14 + i)) = p" using fr by auto
  let ?s = "s\<lparr>v_acmp_rx_count := v_acmp_rx_count s + 1\<rparr>"
  have hd: "acmp_process_rx cbs fr len (s, h, e) = acmp_handle_connect_tx cbs p (?s, h, e)"
    using p unfolding acmp_process_rx_def prod.case if_not_P [OF len'] Let_def pdu acmp_msg_codes by simp
  let ?t = "talker_bound p (v_talkers s ! 0)"
  define w where "w = (?s\<lparr>v_talkers := [?t]\<rparr>, h, e)"
  define w1 where "w1 = (case cb_talker_connect cbs of None \<Rightarrow> w | Some f \<Rightarrow> f 0 (bytes p ACMP_OFF_LISTENER_ID 8) w)"
  obtain s1 h1 e1 where w1e: "w1 = (s1, h1, e1)" by (cases w1)
  have q: "quiet w (s1, h1, e1)" unfolding w1e [symmetric] w1_def by (rule talker_connect_quiet)
  note qf = quiet_fields [OF q [unfolded w_def]]
  have upd: "(v_talkers s)[0 := x] = [x]" for x using ok(1) by (cases "v_talkers s") auto
  have res: "acmp_handle_connect_tx cbs p (?s, h, e)
      = lift_w (acmp_send_response ACMP_MSG_CONNECT_TX_RESPONSE ACMP_STATUS_SUCCESS p) (s1, h1, e1)"
    unfolding acmp_handle_connect_tx_def prod.case Let_def p(3) w1e [symmetric] w1_def w_def talker_bound_def
    by (cases "cb_talker_connect cbs") (simp_all add: AVDECC_MAX_TALKERS_def upd)
  define s' where "s' = s1\<lparr>v_acmp_tx_count := v_acmp_tx_count s1 + 1\<rparr>"
  have reply: "connect_tx_reply s1 p = connect_tx_reply s' p"
    by (rule connect_tx_reply_cong) (simp_all add: s'_def)
  show thesis
  proof (rule that [of s' _ e1])
    show "acmp_process_rx cbs fr len (s, h, e) = (s', avdecc_send (avdecc_eth_hdr (v_src_mac s)
        @ bytes (connect_tx_reply s' p) 0 ACMPDU_LEN) h1, e1)"
      unfolding hd res lift_w_def acmp_send_response_def reply [symmetric]
      using qf by (simp add: Let_def connect_tx_reply_def s'_def)
    show "v_talkers s' = [?t]" "v_entity_id s' = v_entity_id s" using qf by (simp_all add: s'_def)
    show "hw_sent (avdecc_send (avdecc_eth_hdr (v_src_mac s) @ bytes (connect_tx_reply s' p) 0 ACMPDU_LEN) h1)
        = hw_sent h @ [avdecc_eth_hdr (v_src_mac s) @ bytes (connect_tx_reply s' p) 0 ACMPDU_LEN]"
      using qf ok(2) by (subst avdecc_send_sent) (simp_all add: avdecc_eth_hdr_def ACMPDU_LEN_def AVDECC_MCAST_ADDR_def)
  qed
qed

end


text \<open>The listener's side: the answer is matched, the stream bound, the controller answered.\<close>

definition listener_bound :: "avdecc_resolve \<Rightarrow> mem \<Rightarrow> avdecc_listener_stream \<Rightarrow> avdecc_listener_stream" where
  "listener_bound r p l = l\<lparr>vl_talker_id := vr_talker_id r, vl_talker_uid := vr_talker_uid r,
     vl_stream_id := bytes p ACMP_OFF_STREAM_ID 8, vl_dest_mac := bytes p ACMP_OFF_STREAM_DEST_MAC 6,
     vl_connected := 1, vl_connection_count := vl_connection_count l + 1,
     vl_stream_vlan_id := get_be16 p ACMP_OFF_VLAN_ID\<rparr>"

definition deferred_frame :: "avdecc_state \<Rightarrow> avdecc_resolve \<Rightarrow> u16 \<Rightarrow> u8 \<Rightarrow> u8 list \<Rightarrow> u8 list \<Rightarrow> u16 \<Rightarrow> u8 list" where
  "deferred_frame s r cc status sid dmac vlan = avdecc_eth_hdr (v_src_mac s)
     @ acmp_pdu ACMP_MSG_CONNECT_RX_RESPONSE (acmp_st_cdl status) sid (vr_ctrl_eid_orig r) (vr_talker_id r)
         (v_entity_id s) (vr_talker_uid r) (ucast (vr_listener_uid r)) dmac cc (vr_ctrl_seq_id_orig r) 0 vlan"

text \<open>\<open>adds h h'\<close>: frames were sent and no clock was read.\<close>

definition adds :: "hw \<Rightarrow> hw \<Rightarrow> bool" where
  "adds h h' \<longleftrightarrow> hw_clock h' = hw_clock h \<and> hw_clock_k h' = hw_clock_k h \<and> (\<exists>fs. hw_sent h' = hw_sent h @ fs)"

lemma adds_refl [simp]: "adds h h"
  by (simp add: adds_def)

lemma adds_trans: "adds h k \<Longrightarrow> adds k l \<Longrightarrow> adds h l"
  by (auto simp: adds_def)

lemma adds_send [simp]: "adds h (avdecc_send fr h)"
  by (simp add: adds_def avdecc_send_def)

lemma adds_sent: "adds h h' \<Longrightarrow> \<exists>fs. hw_sent h' = hw_sent h @ fs"
  by (simp add: adds_def)

lemma push_unsol_adds: "adds (snd w) (snd (push_unsol fr w))"
proof -
  define f where "f = (\<lambda>i (s, h).
     let c = v_unsol_ctrl s ! i
     in if vu_active c = 0 then (s, h)
        else (s\<lparr>v_unsol_ctrl := (v_unsol_ctrl s)[i := c\<lparr>vu_unsol_seq_id := vu_unsol_seq_id c + 1\<rparr>],
                v_aecp_tx_count := v_aecp_tx_count s + 1\<rparr>,
              avdecc_send (fr s c) h))"
  have "adds (snd w) (snd (fold f is w))" for "is" w
  proof (induction "is" arbitrary: w)
    case (Cons i xs)
    have "adds (snd w) (snd (f i w))" by (cases w) (simp add: f_def Let_def)
    then show ?case using Cons.IH [of "f i w"] by (auto intro: adds_trans)
  qed simp
  from this [of w "[0..<AVDECC_MAX_UNSOL_CTRL]"] show ?thesis unfolding push_unsol_def f_def .
qed

lemma counters_adds: "adds (snd w) (snd (push_unsol_stream_counters uid w))"
  unfolding push_unsol_stream_counters_def push_unsol_counters_def by (simp add: push_unsol_adds)

lemma counters_info_adds: "adds (snd w) (snd (push_unsol_stream_info dt di (push_unsol_stream_counters uid w)))"
  using counters_adds push_unsol_adds unfolding push_unsol_stream_info_def by (rule adds_trans)

lemma notify_connected_adds: "adds h (snd (notify_listener_connected uid (s, h)))"
  unfolding notify_listener_connected_def prod.case Let_def
  using counters_info_adds [of "(t, h)" for t] by (auto simp only: snd_conv adds_refl split: if_split)

lemma notify_disconnected_adds: "adds h (snd (notify_listener_disconnected uid (s, h)))"
  unfolding notify_listener_disconnected_def prod.case Let_def
  using counters_info_adds [of "(t, h)" for t] by (auto simp only: snd_conv adds_refl split: if_split)

lemma notify_connected_fields:
  "v_entity_id (fst (notify_listener_connected uid (s, h))) = v_entity_id s"
  "v_src_mac (fst (notify_listener_connected uid (s, h))) = v_src_mac s"
  "v_listeners (fst (notify_listener_connected uid (s, h))) = v_listeners s"
  "v_resolves (fst (notify_listener_connected uid (s, h))) = v_resolves s"
  "v_talkers (fst (notify_listener_connected uid (s, h))) = v_talkers s"
  unfolding notify_listener_connected_def prod.case Let_def
  using notified_fields [OF notified_two] by simp_all

context connection_callbacks
begin

text \<open>Binding: the listener's entry is written, the callback runs, the controllers are notified.\<close>

lemma bind_resolved:
  assumes p: "v_resolves s ! i = r" "unat (vr_listener_uid r) < length (v_listeners s)"
  obtains s' h' e' fs l where
    "acmp_bind_resolved cbs p i (s, h, e) = (s', h', e')"
    "same_binding (listener_bound r p (v_listeners s ! unat (vr_listener_uid r))) l"
    "v_listeners s' ! unat (vr_listener_uid r) = l" "v_resolves s' = v_resolves s"
    "v_entity_id s' = v_entity_id s" "v_src_mac s' = v_src_mac s" "hw_sent h' = hw_sent h @ fs"
proof -
  let ?k = "unat (vr_listener_uid r)" and ?n = "notify_listener_connected (ucast (vr_listener_uid r))"
  let ?sid = "bytes p ACMP_OFF_STREAM_ID 8" and ?dst = "bytes p ACMP_OFF_STREAM_DEST_MAC 6"
  define w where "w = (s\<lparr>v_listeners := (v_listeners s)[?k := listener_bound r p (v_listeners s ! ?k)]\<rparr>, h, e)"
  define w1 where "w1 = (case cb_listener_connect cbs of None \<Rightarrow> w | Some f \<Rightarrow> f (ucast (vr_listener_uid r)) ?sid ?dst (vr_talker_id r) w)"
  obtain s1 h1 e1 where w1e: "w1 = (s1, h1, e1)" by (cases w1)
  have q: "quiet w (s1, h1, e1)" unfolding w1e [symmetric] w1_def by (rule listener_connect_quiet)
  note qf = quiet_fields [OF q [unfolded w_def]]
  have "acmp_bind_resolved cbs p i (s, h, e) = lift_w (notify_listener_connected (ucast (vr_listener_uid (v_resolves (fst w1) ! i)))) w1"
    unfolding acmp_bind_resolved_def prod.case Let_def w1_def w_def p(1) listener_bound_def
    by (cases "cb_listener_connect cbs") simp_all
  then have bind: "acmp_bind_resolved cbs p i (s, h, e) = lift_w ?n (s1, h1, e1)" using qf by (simp add: w1e p(1))
  obtain s2 h2 where n: "?n (s1, h1) = (s2, h2)" by fastforce
  note nf = notify_connected_fields [of "ucast (vr_listener_uid r)" s1 h1, unfolded n, simplified]
  obtain fs where fs: "hw_sent h2 = hw_sent h1 @ fs"
    using adds_sent [OF notify_connected_adds [of h1 "ucast (vr_listener_uid r)" s1]] n by auto
  show thesis
    by (rule that [of s2 h2 e1 "v_listeners s1 ! ?k" fs]) (use bind n nf fs qf qf(8) [of ?k] p(2) in \<open>simp_all add: lift_w_def\<close>)
qed

lemma answer_taken:
  assumes fr: "\<And>i. fr (14 + i) = p i" and len: "70 \<le> len"
    and p: "p 1 = ACMP_MSG_CONNECT_TX_RESPONSE" "bytes p ACMP_OFF_LISTENER_ID 8 = v_entity_id s"
      "find_resolve (get_be16 p ACMP_OFF_SEQ_ID) 0 (v_resolves s) = Some i"
      "drop_bit 3 (p 2) AND 0x1F = ACMP_STATUS_SUCCESS"
    and r: "r = v_resolves s ! i" "unat (vr_listener_uid r) < length (v_listeners s)"
    and ids: "length (v_src_mac s) = 6" "length (v_entity_id s) = 8" "length (vr_ctrl_eid_orig r) = 8"
      "length (vr_talker_id r) = 8"
  obtains s' h' e' fs l where "acmp_process_rx cbs fr len (s, h, e) = (s', h', e')"
    "same_binding (listener_bound r p (v_listeners s ! unat (vr_listener_uid r))) l"
    "v_listeners s' ! unat (vr_listener_uid r) = l"
    "v_resolves s' = (v_resolves s)[i := r\<lparr>vr_active := 0\<rparr>]"
    "v_entity_id s' = v_entity_id s"
    "hw_sent h' = hw_sent h @ fs @ [deferred_frame s r (vl_connection_count l) ACMP_STATUS_SUCCESS
        (bytes p ACMP_OFF_STREAM_ID 8) (bytes p ACMP_OFF_STREAM_DEST_MAC 6) (get_be16 p ACMP_OFF_VLAN_ID)]"
proof -
  have len': "\<not> len < 14 + of_nat ACMPDU_LEN" using len by (simp add: ACMPDU_LEN_def)
  have pdu: "(\<lambda>i. fr (14 + i)) = p" using fr by auto
  let ?s = "s\<lparr>v_acmp_rx_count := v_acmp_rx_count s + 1\<rparr>"
  have hd: "acmp_process_rx cbs fr len (s, h, e) = acmp_handle_connect_tx_response cbs p (?s, h, e)"
    using p unfolding acmp_process_rx_def prod.case if_not_P [OF len'] Let_def pdu acmp_msg_codes by simp
  obtain s2 h2 e2 fs l where bind: "acmp_bind_resolved cbs p i (?s, h, e) = (s2, h2, e2)"
    and l: "same_binding (listener_bound r p (v_listeners s ! unat (vr_listener_uid r))) l"
    and s2: "v_listeners s2 ! unat (vr_listener_uid r) = l" "v_resolves s2 = v_resolves s"
      "v_entity_id s2 = v_entity_id s" "v_src_mac s2 = v_src_mac s" and fs: "hw_sent h2 = hw_sent h @ fs"
    by (rule bind_resolved [where s = ?s and i = i and r = r and p = p and h = h and e = e]) (use r in simp_all)
  let ?f = "deferred_frame s r (vl_connection_count l) ACMP_STATUS_SUCCESS (bytes p ACMP_OFF_STREAM_ID 8)
      (bytes p ACMP_OFF_STREAM_DEST_MAC 6) (get_be16 p ACMP_OFF_VLAN_ID)"
  let ?s' = "s2\<lparr>v_acmp_tx_count := v_acmp_tx_count s2 + 1, v_resolves := (v_resolves s)[i := r\<lparr>vr_active := 0\<rparr>]\<rparr>"
  have res: "acmp_handle_connect_tx_response cbs p (?s, h, e) = (?s', avdecc_send ?f h2, e2)"
    using p(2,3) s2 unfolding acmp_handle_connect_tx_response_def prod.case Let_def
    by (simp add: p(4) bind lift_w_def deferred_pdu deferred_frame_def r(1) [symmetric])
  have len_f: "length ?f \<le> 1000"
    using ids by (simp add: deferred_frame_def avdecc_eth_hdr_def AVDECC_MCAST_ADDR_def acmp_pdu_length acmp_st_cdl_def)
  show thesis
    by (rule that [of ?s' "avdecc_send ?f h2" e2 l fs]) (use hd res l s2 fs avdecc_send_sent [OF len_f] in simp_all)
qed

end


section \<open>The slow path end to end\<close>

definition avd_ids :: "avdecc_state \<Rightarrow> bool" where
  "avd_ids s \<longleftrightarrow> length (v_entity_id s) = 8 \<and> length (v_src_mac s) = 6
     \<and> length (vt_stream_id (v_talkers s ! 0)) = 8 \<and> length (vt_dest_mac (v_talkers s ! 0)) = 6"

lemma find_resolve_update:
  "find_resolve q i rs = None \<Longrightarrow> k < length rs \<Longrightarrow> vr_active r \<noteq> 0 \<Longrightarrow> vr_our_seq_id r = q \<Longrightarrow>
   find_resolve q i (rs[k := r]) = Some (i + k)"
proof (induction rs arbitrary: i k)
  case (Cons x xs)
  show ?case
  proof (cases k)
    case 0
    then show ?thesis using Cons.prems by simp
  next
    case (Suc j)
    then show ?thesis using Cons.prems Cons.IH [of "Suc i" j] by (auto split: if_splits)
  qed
qed simp

text \<open>A sent frame read back by the receiver: past the Ethernet header comes the PDU.\<close>

lemma length_avdecc_eth_hdr [simp]: "length src = 6 \<Longrightarrow> length (avdecc_eth_hdr src) = 14"
  by (simp add: avdecc_eth_hdr_def AVDECC_MCAST_ADDR_def)

lemma sent_pdu_stored:
  assumes "length src = 6"
  shows "stored (\<lambda>i. mem_of (avdecc_eth_hdr src @ pdu) (14 + i)) 0 pdu"
  using stored_mem_of [of "avdecc_eth_hdr src @ pdu"] assms
    stored_shift [of "mem_of (avdecc_eth_hdr src @ pdu)" 14 0 pdu]
  by (simp add: length_avdecc_eth_hdr [OF assms])

lemma sent_pdu_agrees:
  assumes "length src = 6" and "i < n"
  shows "mem_of (avdecc_eth_hdr src @ bytes P 0 n) (14 + i) = P i"
  using assms by (simp add: mem_of_def avdecc_eth_hdr_def AVDECC_MCAST_ADDR_def nth_append)

lemma read_agrees:
  assumes "\<And>i. i < 56 \<Longrightarrow> q i = p i"
  shows "off + 8 \<le> 56 \<Longrightarrow> bytes q off 8 = bytes p off 8" "off + 6 \<le> 56 \<Longrightarrow> bytes q off 6 = bytes p off 6"
    "off + 2 \<le> 56 \<Longrightarrow> bytes q off 2 = bytes p off 2" "off + 2 \<le> 56 \<Longrightarrow> get_be16 q off = get_be16 p off"
  using assms by (auto intro!: bytes_cong get_be16_agree)

lemma status_of_success: "bytes p 2 2 = acmp_st_cdl ACMP_STATUS_SUCCESS \<Longrightarrow> drop_bit 3 (p 2) AND 0x1F = ACMP_STATUS_SUCCESS"
proof -
  assume "bytes p 2 2 = acmp_st_cdl ACMP_STATUS_SUCCESS"
  then have "p 2 = acmp_st_cdl ACMP_STATUS_SUCCESS ! 0" using nth_bytes [of 0 2 p 2] by simp
  then show ?thesis by (simp add: acmp_st_cdl_def ACMP_STATUS_SUCCESS_def put_be16_def ACMP_CONTROL_DATA_LEN_def)
qed

text \<open>What the command says, and what the reply to it says.\<close>

lemma command_fields:
  assumes ids: "avd_ids s" and r: "r = pending_of p s h"
  defines "q \<equiv> \<lambda>i. mem_of (acmp_command ACMP_MSG_CONNECT_TX_COMMAND s r (zeros 8)) (14 + i)"
  shows "q 1 = ACMP_MSG_CONNECT_TX_COMMAND" "bytes q ACMP_OFF_TALKER_ID 8 = bytes p ACMP_OFF_TALKER_ID 8"
    "bytes q ACMP_OFF_LISTENER_ID 8 = v_entity_id s" "get_be16 q ACMP_OFF_TALKER_UID = get_be16 p ACMP_OFF_TALKER_UID"
    "get_be16 q ACMP_OFF_LISTENER_UID = ucast (vr_listener_uid r)" "get_be16 q ACMP_OFF_SEQ_ID = v_next_acmp_seq s"
    "get_be16 q ACMP_OFF_VLAN_ID = 0"
proof -
  have "stored q 0 (acmp_pdu ACMP_MSG_CONNECT_TX_COMMAND (acmp_st_cdl 0) (zeros 8) (v_entity_id s) (vr_talker_id r)
      (v_entity_id s) (vr_talker_uid r) (ucast (vr_listener_uid r)) (zeros 6) 0 (vr_our_seq_id r) 0 0)"
    unfolding q_def acmp_command_pdu by (rule sent_pdu_stored) (use ids in \<open>simp add: avd_ids_def\<close>)
  from acmp_pdu_fields [OF this] ids r
  show "q 1 = ACMP_MSG_CONNECT_TX_COMMAND" "bytes q ACMP_OFF_TALKER_ID 8 = bytes p ACMP_OFF_TALKER_ID 8"
    "bytes q ACMP_OFF_LISTENER_ID 8 = v_entity_id s" "get_be16 q ACMP_OFF_TALKER_UID = get_be16 p ACMP_OFF_TALKER_UID"
    "get_be16 q ACMP_OFF_LISTENER_UID = ucast (vr_listener_uid r)" "get_be16 q ACMP_OFF_SEQ_ID = v_next_acmp_seq s"
    "get_be16 q ACMP_OFF_VLAN_ID = 0"
    by (simp_all add: avd_ids_def acmp_st_cdl_def pending_of_def)
qed

lemma fields_above_header:
  "i < 4 \<Longrightarrow> acmp_talker_fields s mt p i = p i" "i < 4 \<Longrightarrow> acmp_listener_fields s mt p i = p i"
  by (simp_all add: acmp_talker_fields_def acmp_listener_fields_def Let_def mput_outside acmp_offs)

lemma connect_tx_reply_subtype: "connect_tx_reply s p 0 = AVTP_SUBTYPE_ACMP"
  by (simp add: connect_tx_reply_def fields_above_header mput_def acmp_st_cdl_def)

lemma reply_fields:
  assumes src: "length src = 6" and uid: "get_be16 p ACMP_OFF_TALKER_UID = 0"
    and l: "length (vt_stream_id (v_talkers s ! 0)) = 8" "length (vt_dest_mac (v_talkers s ! 0)) = 6"
  defines "q \<equiv> \<lambda>i. mem_of (avdecc_eth_hdr src @ bytes (connect_tx_reply s p) 0 ACMPDU_LEN) (14 + i)"
  shows "q 1 = ACMP_MSG_CONNECT_TX_RESPONSE" "drop_bit 3 (q 2) AND 0x1F = ACMP_STATUS_SUCCESS"
    "bytes q ACMP_OFF_STREAM_ID 8 = vt_stream_id (v_talkers s ! 0)"
    "bytes q ACMP_OFF_LISTENER_ID 8 = bytes p ACMP_OFF_LISTENER_ID 8"
    "bytes q ACMP_OFF_STREAM_DEST_MAC 6 = vt_dest_mac (v_talkers s ! 0)"
    "get_be16 q ACMP_OFF_SEQ_ID = get_be16 p ACMP_OFF_SEQ_ID"
    "get_be16 q ACMP_OFF_VLAN_ID = get_be16 p ACMP_OFF_VLAN_ID"
    "q 0 = AVTP_SUBTYPE_ACMP"
proof -
  have agree: "q i = connect_tx_reply s p i" if "i < 56" for i
    unfolding q_def using src that by (simp add: sent_pdu_agrees ACMPDU_LEN_def)
  note f = connect_tx_response_fields [OF uid l, of ACMP_STATUS_SUCCESS, folded connect_tx_reply_def]
  show "q 1 = ACMP_MSG_CONNECT_TX_RESPONSE" using f(1) agree [of 1] by simp
  show "q 0 = AVTP_SUBTYPE_ACMP" using agree [of 0] by (simp add: connect_tx_reply_subtype)
  show "drop_bit 3 (q 2) AND 0x1F = ACMP_STATUS_SUCCESS"
    by (rule status_of_success) (use f(2) read_agrees(3) [of q "connect_tx_reply s p" 2, OF agree] in simp)
  show "bytes q ACMP_OFF_STREAM_ID 8 = vt_stream_id (v_talkers s ! 0)"
    "bytes q ACMP_OFF_LISTENER_ID 8 = bytes p ACMP_OFF_LISTENER_ID 8"
    "bytes q ACMP_OFF_STREAM_DEST_MAC 6 = vt_dest_mac (v_talkers s ! 0)"
    "get_be16 q ACMP_OFF_SEQ_ID = get_be16 p ACMP_OFF_SEQ_ID"
    "get_be16 q ACMP_OFF_VLAN_ID = get_be16 p ACMP_OFF_VLAN_ID"
    using f(3-) read_agrees [of q "connect_tx_reply s p", OF agree] by (simp_all add: acmp_offs)
qed

text \<open>The answer of the talker \<open>sT\<close> to the request that \<open>sL\<close> sent it.\<close>

definition answer_pdu :: "mem \<Rightarrow> avdecc_state \<Rightarrow> avdecc_state \<Rightarrow> bool" where
  "answer_pdu q sL sT \<longleftrightarrow> q 0 = AVTP_SUBTYPE_ACMP \<and> q 1 = ACMP_MSG_CONNECT_TX_RESPONSE \<and> drop_bit 3 (q 2) AND 0x1F = ACMP_STATUS_SUCCESS
     \<and> bytes q ACMP_OFF_STREAM_ID 8 = vt_stream_id (v_talkers sT ! 0) \<and> bytes q ACMP_OFF_LISTENER_ID 8 = v_entity_id sL
     \<and> bytes q ACMP_OFF_STREAM_DEST_MAC 6 = vt_dest_mac (v_talkers sT ! 0)
     \<and> get_be16 q ACMP_OFF_SEQ_ID = v_next_acmp_seq sL \<and> get_be16 q ACMP_OFF_VLAN_ID = 0"

context connection_callbacks
begin

lemma talker_leg:
  fixes p :: mem and sL sT :: avdecc_state
  assumes r: "r = pending_of p sL hL" and req: "slow_request sL p"
    and dest: "bytes p ACMP_OFF_TALKER_ID 8 = v_entity_id sT" "get_be16 p ACMP_OFF_TALKER_UID = 0"
    and ok: "avd_ids sL" "avd_ok sT" "avd_ids sT"
  defines "f1 \<equiv> acmp_command ACMP_MSG_CONNECT_TX_COMMAND sL r (zeros 8)"
  obtains t1 k1 d1 f2 where "acmp_process_rx cbs (mem_of f1) 70 (sT, hT, eT) = (t1, k1, d1)"
    "v_talkers t1 = [talker_bound p (v_talkers sT ! 0)]" "hw_sent k1 = hw_sent hT @ [f2]" "length f2 = 70"
    "answer_pdu (\<lambda>i. mem_of f2 (14 + i)) sL sT" "stored (mem_of f2) 0 (avdecc_eth_hdr (v_src_mac sT))"
proof -
  define q1 where "q1 = (\<lambda>i. mem_of f1 (14 + i))"
  have uc: "ucast (vr_listener_uid r) = get_be16 p ACMP_OFF_LISTENER_UID"
    using r req uid_01 [of "get_be16 p ACMP_OFF_LISTENER_UID"] by (auto simp: pending_of_def slow_request_def)
  note F1 = command_fields [OF ok(1) r, folded f1_def, folded q1_def]
  obtain t1 k1 d1 where TT: "acmp_process_rx cbs (mem_of f1) 70 (sT, hT, eT) = (t1, k1, d1)"
    "v_talkers t1 = [talker_bound q1 (v_talkers sT ! 0)]"
    "hw_sent k1 = hw_sent hT @ [avdecc_eth_hdr (v_src_mac sT) @ bytes (connect_tx_reply t1 q1) 0 ACMPDU_LEN]"
    by (rule talker_answers [of "mem_of f1" q1 70 sT hT eT]) (use F1 dest ok in \<open>auto simp: q1_def avd_ok_def avd_ids_def\<close>)
  let ?f2 = "avdecc_eth_hdr (v_src_mac sT) @ bytes (connect_tx_reply t1 q1) 0 ACMPDU_LEN"
  have tids: "length (vt_stream_id (v_talkers t1 ! 0)) = 8" "length (vt_dest_mac (v_talkers t1 ! 0)) = 6"
    "vt_stream_id (v_talkers t1 ! 0) = vt_stream_id (v_talkers sT ! 0)" "vt_dest_mac (v_talkers t1 ! 0) = vt_dest_mac (v_talkers sT ! 0)"
    using TT(2) ok by (simp_all add: talker_bound_def avd_ids_def)
  have src: "length (v_src_mac sT) = 6" using ok by (simp add: avd_ids_def)
  have "get_be16 q1 ACMP_OFF_TALKER_UID = 0" using F1 dest by simp
  from reply_fields [OF src this tids(1,2)] have "answer_pdu (\<lambda>i. mem_of ?f2 (14 + i)) sL sT"
    using F1 tids unfolding answer_pdu_def by simp
  moreover have "talker_bound q1 (v_talkers sT ! 0) = talker_bound p (v_talkers sT ! 0)"
    using F1 uc req by (simp add: talker_bound_def slow_request_def)
  moreover have "stored (mem_of ?f2) 0 (avdecc_eth_hdr (v_src_mac sT))" using stored_mem_of [of ?f2] by simp
  ultimately show thesis using TT src by (intro that [of t1 k1 d1 ?f2]) (simp_all add: ACMPDU_LEN_def)
qed

lemma slow_path_connects:
  fixes req :: mem and sL sT :: avdecc_state
  defines "p \<equiv> \<lambda>i. req (14 + i)"
  defines "luid \<equiv> get_be16 p ACMP_OFF_LISTENER_UID"
  assumes req: "slow_request sL p" "70 \<le> len"
    and dest: "bytes p ACMP_OFF_TALKER_ID 8 = v_entity_id sT" "get_be16 p ACMP_OFF_TALKER_UID = 0"
    and ok: "avd_ok sL" "avd_ids sL" "avd_ok sT" "avd_ids sT"
    and fresh: "find_resolve (v_next_acmp_seq sL) 0 (v_resolves sL) = None"
    and s1: "acmp_process_rx cbs req len (sL, hL, eL) = (s1, h1, e1)"
    and t1: "acmp_process_rx cbs (mem_of (last (hw_sent h1))) (of_nat (length (last (hw_sent h1)))) (sT, hT, eT) = (t1, k1, d1)"
    and s2: "acmp_process_rx cbs (mem_of (last (hw_sent k1))) (of_nat (length (last (hw_sent k1)))) (s1, h1, e1) = (s2, h2, e2)"
  shows "\<exists>l. v_listeners s2 ! unat luid = l \<and> vl_connected l = 1 \<and> vl_talker_id l = v_entity_id sT \<and> vl_talker_uid l = 0
      \<and> vl_stream_id l = vt_stream_id (v_talkers sT ! 0) \<and> vl_dest_mac l = vt_dest_mac (v_talkers sT ! 0)
      \<and> vl_connection_count l = vl_connection_count (v_listeners sL ! unat luid) + 1
      \<and> last (hw_sent h2) = avdecc_eth_hdr (v_src_mac sL)
          @ acmp_pdu ACMP_MSG_CONNECT_RX_RESPONSE (acmp_st_cdl ACMP_STATUS_SUCCESS) (vl_stream_id l)
              (bytes p ACMP_OFF_CONTROLLER_ID 8) (v_entity_id sT) (v_entity_id sL) 0 luid (vl_dest_mac l)
              (vl_connection_count l) (get_be16 p ACMP_OFF_SEQ_ID) 0 0"
    and "vr_active (v_resolves s2 ! unat luid) = 0"
    and "v_talkers t1 = [talker_bound p (v_talkers sT ! 0)]"
proof -
  define r where "r = pending_of p sL hL"
  define f1 where "f1 = acmp_command ACMP_MSG_CONNECT_TX_COMMAND sL r (zeros 8)"
  have luid: "luid < AVDECC_MAX_LISTENERS" "unat luid < 2" and uc: "ucast (ucast luid :: u8) = luid" "unat (ucast luid :: u8) = unat luid"
    using req uid_cases [of luid] uid_01 [of luid] by (auto simp: slow_request_def luid_def)
  have r: "vr_listener_uid r = ucast luid" "vr_our_seq_id r = v_next_acmp_seq sL" "vr_active r = 1"
    "vr_talker_id r = v_entity_id sT" "vr_talker_uid r = 0" "vr_ctrl_eid_orig r = bytes p ACMP_OFF_CONTROLLER_ID 8"
    "vr_ctrl_seq_id_orig r = get_be16 p ACMP_OFF_SEQ_ID"
    using dest by (simp_all add: r_def pending_of_def luid_def)
  have len1: "length f1 = 70"
    using ok r by (simp add: f1_def acmp_command_pdu acmp_pdu_length acmp_st_cdl_def avd_ids_def)
  note T1 = slow_request_taken [OF req(1) [unfolded p_def] req(2), of cbs hL eL, folded p_def luid_def, folded r_def, folded f1_def]
  have h1: "hw_sent h1 = hw_sent hL @ [f1]" using T1 s1 len1 avdecc_send_sent [of f1] by auto
  have s1f: "v_resolves s1 = (v_resolves sL)[unat luid := r]" "v_entity_id s1 = v_entity_id sL" "v_src_mac s1 = v_src_mac sL"
    "v_listeners s1 = v_listeners sL"
    using T1 s1 by auto
  obtain t1' k1' d1' f2 where TT: "acmp_process_rx cbs (mem_of f1) 70 (sT, hT, eT) = (t1', k1', d1')"
    "v_talkers t1' = [talker_bound p (v_talkers sT ! 0)]" "hw_sent k1' = hw_sent hT @ [f2]" "length f2 = 70"
    "answer_pdu (\<lambda>i. mem_of f2 (14 + i)) sL sT"
    by (rule talker_leg [OF r_def req(1) dest ok(2-4), of hT eT, folded f1_def])
  have t1e: "t1' = t1" "k1' = k1" using TT(1) t1 h1 len1 by simp_all
  define q2 where "q2 = (\<lambda>i. mem_of f2 (14 + i))"
  note F2 = TT(5) [folded q2_def, unfolded answer_pdu_def]
  have find: "find_resolve (get_be16 q2 ACMP_OFF_SEQ_ID) 0 (v_resolves s1) = Some (unat luid)"
    using F2 find_resolve_update [OF fresh, of "unat luid" r] luid ok r s1f by (simp add: avd_ok_def)
  have at: "v_resolves s1 ! unat luid = r" using s1f luid ok by (simp add: avd_ok_def)
  obtain s2' h2' e2' fs l where LL: "acmp_process_rx cbs (mem_of f2) 70 (s1, h1, e1) = (s2', h2', e2')"
    "same_binding (listener_bound r q2 (v_listeners s1 ! unat (vr_listener_uid r))) l"
    "v_listeners s2' ! unat (vr_listener_uid r) = l" "v_resolves s2' = (v_resolves s1)[unat luid := r\<lparr>vr_active := 0\<rparr>]"
    "hw_sent h2' = hw_sent h1 @ fs @ [deferred_frame s1 r (vl_connection_count l) ACMP_STATUS_SUCCESS
        (bytes q2 ACMP_OFF_STREAM_ID 8) (bytes q2 ACMP_OFF_STREAM_DEST_MAC 6) (get_be16 q2 ACMP_OFF_VLAN_ID)]"
    by (rule answer_taken [of "mem_of f2" q2 70 s1 "unat luid" r h1 e1])
      (use F2 find at luid ok r s1f in \<open>auto simp: q2_def avd_ok_def avd_ids_def uc\<close>)
  have s2e: "s2' = s2" "h2' = h2" using LL(1) s2 TT(3,4) by (simp_all add: t1e)
  note same = same_binding_fields [OF LL(2)]
  show "\<exists>l. v_listeners s2 ! unat luid = l \<and> vl_connected l = 1 \<and> vl_talker_id l = v_entity_id sT \<and> vl_talker_uid l = 0
      \<and> vl_stream_id l = vt_stream_id (v_talkers sT ! 0) \<and> vl_dest_mac l = vt_dest_mac (v_talkers sT ! 0)
      \<and> vl_connection_count l = vl_connection_count (v_listeners sL ! unat luid) + 1
      \<and> last (hw_sent h2) = avdecc_eth_hdr (v_src_mac sL)
          @ acmp_pdu ACMP_MSG_CONNECT_RX_RESPONSE (acmp_st_cdl ACMP_STATUS_SUCCESS) (vl_stream_id l)
              (bytes p ACMP_OFF_CONTROLLER_ID 8) (v_entity_id sT) (v_entity_id sL) 0 luid (vl_dest_mac l)
              (vl_connection_count l) (get_be16 p ACMP_OFF_SEQ_ID) 0 0"
    using same LL(3,5) r uc s1f F2
    by (intro exI [of _ l]) (simp add: s2e listener_bound_def deferred_frame_def)
  show "vr_active (v_resolves s2 ! unat luid) = 0" using LL(4) luid ok s1f by (simp add: s2e avd_ok_def)
  show "v_talkers t1 = [talker_bound p (v_talkers sT ! 0)]" using TT(2) by (simp add: t1e)
qed

end


section \<open>Requests that are never answered\<close>

text \<open>The answer given to the controller when the talker stays silent.\<close>

definition timeout_frame :: "avdecc_state \<Rightarrow> avdecc_resolve \<Rightarrow> u8 list" where
  "timeout_frame s r = deferred_frame s r (vl_connection_count (v_listeners s ! unat (vr_listener_uid r)))
     ACMP_STATUS_LISTENER_TALKER_TIMEOUT (zeros 8) (zeros 6) 0"

definition same_acmp :: "avdecc_state \<Rightarrow> avdecc_state \<Rightarrow> bool" where
  "same_acmp s s' \<longleftrightarrow> v_entity_id s' = v_entity_id s \<and> v_src_mac s' = v_src_mac s \<and> v_listeners s' = v_listeners s
     \<and> length (v_resolves s') = length (v_resolves s)"

lemma same_acmp_trans: "same_acmp s t \<Longrightarrow> same_acmp t u \<Longrightarrow> same_acmp s u"
  by (simp add: same_acmp_def)

definition resolve_ok :: "avdecc_resolve \<Rightarrow> bool" where
  "resolve_ok r \<longleftrightarrow> length (vr_ctrl_eid_orig r) = 8 \<and> length (vr_talker_id r) = 8"

definition pending_ok :: "avdecc_state \<Rightarrow> bool" where
  "pending_ok s \<longleftrightarrow> length (v_entity_id s) = 8 \<and> length (v_src_mac s) = 6 \<and> (\<forall>r \<in> set (v_resolves s). resolve_ok r)"

lemma resolve_timeout_step:
  assumes "resolve_timeout now j (s, h) = (s', h')" and "pending_ok s" and "j < length (v_resolves s)"
  defines "r \<equiv> v_resolves s ! j"
  shows "same_acmp s s' \<and> pending_ok s' \<and> (\<forall>i. i \<noteq> j \<longrightarrow> v_resolves s' ! i = v_resolves s ! i)
    \<and> hw_clock h' = hw_clock h \<and> hw_clock_k h' = hw_clock_k h
    \<and> (if vr_active r \<noteq> 0 \<and> 1500 \<le> guarded_age now (vr_start_ms r) 0
       then v_resolves s' ! j = r\<lparr>vr_active := 0\<rparr> \<and> hw_sent h' = hw_sent h @ [timeout_frame s r]
       else v_resolves s' ! j = r \<and> hw_sent h' = hw_sent h)"
proof (cases "vr_active r \<noteq> 0 \<and> 1500 \<le> guarded_age now (vr_start_ms r) 0")
  case True
  have rok: "resolve_ok r" using assms(2,3) by (simp add: pending_ok_def r_def)
  have len: "length (timeout_frame s r) \<le> 1000"
    using rok assms(2)
    by (simp add: timeout_frame_def deferred_frame_def acmp_pdu_length acmp_st_cdl_def pending_ok_def resolve_ok_def)
  have "s' = s\<lparr>v_acmp_tx_count := v_acmp_tx_count s + 1, v_resolves := (v_resolves s)[j := r\<lparr>vr_active := 0\<rparr>]\<rparr>"
    "h' = avdecc_send (timeout_frame s r) h"
    using assms(1) True unfolding resolve_timeout_def prod.case Let_def r_def [symmetric] timeout_frame_def deferred_frame_def
    by (auto simp: deferred_pdu)
  moreover have "hw_clock (avdecc_send f h) = hw_clock h" "hw_clock_k (avdecc_send f h) = hw_clock_k h" for f
    by (simp_all add: avdecc_send_def)
  ultimately show ?thesis
    using True assms(2,3) rok avdecc_send_sent [OF len] set_update_subset_insert [of "v_resolves s" j "r\<lparr>vr_active := 0\<rparr>"]
    by (auto simp: same_acmp_def pending_ok_def resolve_ok_def)
next
  case False
  then have "s' = s" "h' = h"
    using assms(1) unfolding resolve_timeout_def prod.case Let_def r_def [symmetric] by (auto split: if_splits)
  then show ?thesis using False assms(2) by (auto simp: same_acmp_def r_def)
qed


lemma track_step:
  assumes "track_clock_lock g m (s, h) = (s', h')"
  shows "same_acmp s s'" "v_resolves s' = v_resolves s" "pending_ok s' = pending_ok s" "adds h h'"
proof -
  define cur :: u8 where "cur = (if v_current_clock_source s = 1
      then (case m of Some m \<Rightarrow> if m_servo_locked m \<noteq> 0 then 1 else 0 | None \<Rightarrow> 0)
      else (case g of Some g \<Rightarrow> if g_servo_locked g \<noteq> 0 then 1 else 0 | None \<Rightarrow> 0))"
  define t where "t = (if v_clock_last_locked s = 0xFF then s\<lparr>v_clock_last_locked := cur\<rparr>
      else if cur \<noteq> v_clock_last_locked s then
        (if cur \<noteq> 0 then s\<lparr>v_clock_locked_count := v_clock_locked_count s + 1\<rparr>
         else s\<lparr>v_clock_unlocked_count := v_clock_unlocked_count s + 1\<rparr>)\<lparr>v_clock_last_locked := cur\<rparr>
      else s)"
  have t: "v_entity_id t = v_entity_id s" "v_src_mac t = v_src_mac s" "v_listeners t = v_listeners s"
      "v_resolves t = v_resolves s"
    by (simp_all add: t_def)
  have r: "(s', h') = (t, h) \<or> (s', h') = push_unsol_clock_counters (t, h)"
    unfolding assms [symmetric] track_clock_lock_def prod.case cur_def [symmetric] Let_def t_def
    by (simp only: refl split: if_split) blast
  have n: "notified t (fst (push_unsol_clock_counters (t, h)))" by (rule notified_clock_counters)
  have a: "adds h (snd (push_unsol_clock_counters (t, h)))"
    using push_unsol_adds [of "(t, h)"] by (simp add: push_unsol_clock_counters_def push_unsol_counters_def)
  have "v_entity_id s' = v_entity_id s \<and> v_src_mac s' = v_src_mac s \<and> v_listeners s' = v_listeners s
      \<and> v_resolves s' = v_resolves s \<and> adds h h'"
    using r
  proof
    assume "(s', h') = (t, h)"
    then show ?thesis using t by simp
  next
    assume "(s', h') = push_unsol_clock_counters (t, h)"
    then have "s' = fst (push_unsol_clock_counters (t, h))" "h' = snd (push_unsol_clock_counters (t, h))"
      by (metis fst_conv, metis snd_conv)
    then show ?thesis using t a notified_fields [OF n] by simp
  qed
  then show "same_acmp s s'" "v_resolves s' = v_resolves s" "pending_ok s' = pending_ok s" "adds h h'"
    by (auto simp: same_acmp_def pending_ok_def)
qed

lemma adp_step:
  assumes "adp_send g mt (s, h) = (s', h')"
  shows "same_acmp s s' \<and> v_resolves s' = v_resolves s \<and> (pending_ok s' \<longleftrightarrow> pending_ok s)" "adds h h'"
  using assms by (cases "mt = ADP_MSG_ENTITY_AVAILABLE"; auto simp: adp_send_def Let_def same_acmp_def pending_ok_def)+

text \<open>The scan over the requests in a poll: each is answered when it is old enough and kept otherwise.\<close>

lemma resolve_scan:
  assumes run: "fold (resolve_timeout t) [0..<unat AVDECC_MAX_LISTENERS] (s, h) = (s', h')"
    and ok: "pending_ok s" and n: "length (v_resolves s) = 2" and i: "i < 2"
  defines "r \<equiv> v_resolves s ! i"
  shows "same_acmp s s' \<and> pending_ok s' \<and> hw_clock h' = hw_clock h \<and> hw_clock_k h' = hw_clock_k h
    \<and> (\<exists>fs. hw_sent h' = hw_sent h @ fs
        \<and> (if vr_active r \<noteq> 0 \<and> 1500 \<le> guarded_age t (vr_start_ms r) 0
           then v_resolves s' ! i = r\<lparr>vr_active := 0\<rparr> \<and> timeout_frame s r \<in> set fs
           else v_resolves s' ! i = r))"
proof -
  obtain s2 h2 where 2: "resolve_timeout t 0 (s, h) = (s2, h2)" by fastforce
  have "0 < length (v_resolves s)" using n by simp
  note r0 = resolve_timeout_step [OF 2 ok this]
  have 3: "resolve_timeout t 1 (s2, h2) = (s', h')" using run 2 by (simp add: AVDECC_MAX_LISTENERS_def upt_rec)
  have "1 < length (v_resolves s2)" "pending_ok s2" using r0 n by (simp_all add: same_acmp_def)
  note r1 = resolve_timeout_step [OF 3 this(2,1)]
  have tf: "timeout_frame s2 = timeout_frame s"
    using r0 by (simp add: fun_eq_iff timeout_frame_def deferred_frame_def same_acmp_def)
  have "i = 0 \<or> i = 1" using i by auto
  then show ?thesis using r0 r1 same_acmp_trans [of s s2 s'] unfolding tf r_def by (auto split: if_splits)
qed

text \<open>One poll: the request is answered when it is old enough and kept otherwise.\<close>

lemma poll_pending:
  assumes p: "avdecc_poll g m (s, h) = (s', h')" and ok: "pending_ok s" and n: "length (v_resolves s) = 2" and i: "i < 2"
  defines "r \<equiv> v_resolves s ! i"
  shows "same_acmp s s' \<and> pending_ok s' \<and> hw_clock h' = hw_clock h \<and> hw_clock_k h' = hw_clock_k h + 2
    \<and> (\<exists>fs. hw_sent h' = hw_sent h @ fs
        \<and> (if vr_active r \<noteq> 0 \<and> 1500 \<le> guarded_age (peek_ms h) (vr_start_ms r) 0
           then v_resolves s' ! i = r\<lparr>vr_active := 0\<rparr> \<and> timeout_frame s r \<in> set fs
           else v_resolves s' ! i = r))"
proof -
  obtain s1 h1 where 1: "track_clock_lock g m (s, h) = (s1, h1)" by fastforce
  note t = track_step [OF 1]
  obtain f1 where f1: "hw_sent h1 = hw_sent h @ f1" "hw_clock h1 = hw_clock h" "hw_clock_k h1 = hw_clock_k h"
    using t(4) by (auto simp: adds_def)
  obtain s3 h3 where fold: "fold (resolve_timeout (peek_ms h1)) [0..<unat AVDECC_MAX_LISTENERS] (s1, tick_time h1) = (s3, h3)" by fastforce
  have "pending_ok s1" "length (v_resolves s1) = 2" using t n ok by simp_all
  note r1 = resolve_scan [OF fold this i]
  have same: "same_acmp s s3" using t(1) r1 same_acmp_trans by blast
  have tf: "timeout_frame s1 = timeout_frame s" using t(1) by (simp add: fun_eq_iff timeout_frame_def deferred_frame_def same_acmp_def)
  have peek: "peek_ms h1 = peek_ms h" using f1 by simp
  have after: "\<exists>fs. hw_sent h3 = hw_sent h @ fs
        \<and> (if vr_active r \<noteq> 0 \<and> 1500 \<le> guarded_age (peek_ms h) (vr_start_ms r) 0
           then v_resolves s3 ! i = r\<lparr>vr_active := 0\<rparr> \<and> timeout_frame s r \<in> set fs
           else v_resolves s3 ! i = r)"
    using r1 t(2) f1(1) unfolding tf peek r_def by (auto split: if_splits)
  have clk: "hw_clock h3 = hw_clock h \<and> hw_clock_k h3 = hw_clock_k h + 1" using r1 f1 by simp
  obtain s5 h5 where 5: "adp_send g ADP_MSG_ENTITY_AVAILABLE (s3, tick_time h3) = (s5, h5)" by fastforce
  note a5 = adp_step [OF 5]
  obtain f5 where f5: "hw_sent h5 = hw_sent h3 @ f5" "hw_clock h5 = hw_clock h3" "hw_clock_k h5 = hw_clock_k h3 + 1"
    using a5(2) by (auto simp: adds_def)
  have "(s', h') = (s5\<lparr>v_last_adp_ms := peek_ms h3\<rparr>, h5) \<or> (s', h') = (s3, tick_time h3)"
    using p unfolding avdecc_poll_def 1 Let_def prod.case gptp_uptime_ms_eq fold 5 by (auto split: if_split_asm)
  then show ?thesis
  proof
    assume s': "(s', h') = (s5\<lparr>v_last_adp_ms := peek_ms h3\<rparr>, h5)"
    then have "same_acmp s s' \<and> v_resolves s' = v_resolves s3 \<and> pending_ok s'"
      using same a5(1) r1 by (auto simp: same_acmp_def pending_ok_def)
    moreover obtain fs where "hw_sent h3 = hw_sent h @ fs"
        "if vr_active r \<noteq> 0 \<and> 1500 \<le> guarded_age (peek_ms h) (vr_start_ms r) 0
           then v_resolves s3 ! i = r\<lparr>vr_active := 0\<rparr> \<and> timeout_frame s r \<in> set fs
           else v_resolves s3 ! i = r" using after by blast
    ultimately show ?thesis using s' f5 clk by (intro conjI exI [of _ "fs @ f5"]) (auto split: if_splits)
  next
    assume "(s', h') = (s3, tick_time h3)"
    then show ?thesis using same r1 after clk by auto
  qed
qed


text \<open>
  A run of polls, each with the gPTP and MCR state it finds; every poll reads the clock twice,
  and the age of the requests is taken at the first reading.
\<close>

fun polls :: "(gptp_t option \<times> mcr_state option) list \<Rightarrow> avdecc_state \<times> hw \<Rightarrow> avdecc_state \<times> hw" where
  "polls [] w = w"
| "polls ((g, m) # ps) w = polls ps (avdecc_poll g m w)"

definition age_at_poll :: "hw \<Rightarrow> avdecc_resolve \<Rightarrow> nat \<Rightarrow> u32" where
  "age_at_poll h r j = guarded_age (ts_to_ms (hw_clock h (hw_clock_k h + 2 * j))) (vr_start_ms r) 0"

lemma polls_keep:
  assumes "polls ps (s, h) = (s', h')" and "pending_ok s" and "length (v_resolves s) = 2" and "i < 2"
    and "vr_active (v_resolves s ! i) = 0"
  shows "v_resolves s' ! i = v_resolves s ! i \<and> (\<exists>fs. hw_sent h' = hw_sent h @ fs)"
  using assms
proof (induction ps arbitrary: s h)
  case (Cons gm ps)
  obtain g m where gm: "gm = (g, m)" by fastforce
  obtain s1 h1 where 1: "avdecc_poll g m (s, h) = (s1, h1)" by fastforce
  note p = poll_pending [OF 1 Cons.prems(2,3,4)]
  obtain f1 where f1: "hw_sent h1 = hw_sent h @ f1" "v_resolves s1 ! i = v_resolves s ! i"
    using p Cons.prems(5) by (auto split: if_splits)
  have "v_resolves s' ! i = v_resolves s1 ! i \<and> (\<exists>fs. hw_sent h' = hw_sent h1 @ fs)"
    using Cons.prems p f1 by (intro Cons.IH) (auto simp: gm 1 same_acmp_def)
  then show ?case using f1 by auto
qed simp

lemma polls_pending:
  assumes "polls ps (s, h) = (s', h')" and "pending_ok s" and "length (v_resolves s) = 2" and "i < 2"
    and "r = v_resolves s ! i" and "vr_active r \<noteq> 0"
  shows "if \<exists>j < length ps. 1500 \<le> age_at_poll h r j
    then v_resolves s' ! i = r\<lparr>vr_active := 0\<rparr> \<and> (\<exists>fs. hw_sent h' = hw_sent h @ fs \<and> timeout_frame s r \<in> set fs)
    else v_resolves s' ! i = r"
  using assms
proof (induction ps arbitrary: s h)
  case (Cons gm ps)
  obtain g m where gm: "gm = (g, m)" by fastforce
  obtain s1 h1 where 1: "avdecc_poll g m (s, h) = (s1, h1)" by fastforce
  have rest: "polls ps (s1, h1) = (s', h')" using Cons.prems(1) by (simp add: gm 1)
  note p = poll_pending [OF 1 Cons.prems(2,3,4), folded Cons.prems(5)]
  have s1: "pending_ok s1" "length (v_resolves s1) = 2" "timeout_frame s1 r = timeout_frame s r"
    using p Cons.prems(3) by (simp_all add: same_acmp_def timeout_frame_def deferred_frame_def)
  have age0: "age_at_poll h r 0 = guarded_age (peek_ms h) (vr_start_ms r) 0"
    by (simp add: age_at_poll_def)
  have ageS: "age_at_poll h1 r j = age_at_poll h r (Suc j)" for j
    using p by (simp add: age_at_poll_def)
  show ?case
  proof (cases "1500 \<le> age_at_poll h r 0")
    case True
    then obtain f1 where f1: "hw_sent h1 = hw_sent h @ f1" "v_resolves s1 ! i = r\<lparr>vr_active := 0\<rparr>"
        "timeout_frame s r \<in> set f1" using p Cons.prems(6) by (auto simp: age0)
    with polls_keep [OF rest s1(1,2) Cons.prems(4)]
    have "v_resolves s' ! i = r\<lparr>vr_active := 0\<rparr> \<and> (\<exists>fs. hw_sent h' = hw_sent h @ fs \<and> timeout_frame s r \<in> set fs)"
      by auto
    then show ?thesis using True by auto
  next
    case False
    then obtain f1 where f1: "hw_sent h1 = hw_sent h @ f1" "v_resolves s1 ! i = r" using p by (auto simp: age0 split: if_splits)
    have ex: "(\<exists>j < length (gm # ps). 1500 \<le> age_at_poll h r j) \<longleftrightarrow> (\<exists>j < length ps. 1500 \<le> age_at_poll h1 r j)"
      unfolding ageS using False by (auto simp: less_Suc_eq_0_disj)
    show ?thesis unfolding ex using Cons.IH [OF rest s1(1,2) Cons.prems(4) f1(2) [symmetric] Cons.prems(6)] f1(1) s1(3)
      by (auto split: if_splits)
  qed
qed simp

section \<open>The CRF watchdog\<close>

text \<open>The three answers of a watchdog call on a connected listener whose baseline is taken.\<close>

definition wd_request :: "u16 \<Rightarrow> avdecc_state \<Rightarrow> avdecc_resolve" where
  "wd_request luid s = resolve_zero\<lparr>vr_listener_uid := ucast luid, vr_talker_id := vl_talker_id (v_listeners s ! unat luid),
     vr_talker_uid := vl_talker_uid (v_listeners s ! unat luid), vr_our_seq_id := v_next_acmp_seq s\<rparr>"

definition wd_ready :: "u16 \<Rightarrow> u32 \<Rightarrow> avdecc_state \<Rightarrow> bool" where
  "wd_ready luid rx s \<longleftrightarrow> luid < AVDECC_MAX_LISTENERS \<and> length (v_listeners s) = 2
     \<and> vl_connected (v_listeners s ! unat luid) \<noteq> 0 \<and> v_crf_wd_init s \<noteq> 0 \<and> v_crf_wd_rx_snapshot s = rx
     \<and> length (v_src_mac s) = 6 \<and> length (v_entity_id s) = 8 \<and> length (vl_talker_id (v_listeners s ! unat luid)) = 8
     \<and> length (vl_stream_id (v_listeners s ! unat luid)) = 8"

definition wd_dead :: "u32 \<Rightarrow> avdecc_state \<Rightarrow> bool" where
  "wd_dead now s \<longleftrightarrow> 3000 \<le> now - v_crf_wd_flow_ms s \<and> now - v_crf_wd_flow_ms s \<le> 2000000000"

lemma wd_quiet:
  assumes "wd_ready luid rx s" and "now - v_crf_wd_flow_ms s < 3000"
  shows "avdecc_crf_flow_watchdog luid rx now (s, h) = (s, h)"
proof -
  have "\<not> 2000000000 < now - v_crf_wd_flow_ms s" using assms(2) by (simp add: word_less_nat_alt)
  then show ?thesis
    using assms by (simp add: wd_ready_def avdecc_crf_flow_watchdog_def Let_def CRF_WD_STALL_MS_def not_le)
qed

lemma wd_unfold:
  assumes "wd_ready luid rx s" and "wd_dead now s"
  shows "avdecc_crf_flow_watchdog luid rx now (s, h) =
    (let s1 = s\<lparr>v_next_acmp_seq := v_next_acmp_seq s + 1\<rparr>; r = wd_request luid s
     in if v_crf_wd_recovery s = 0 then
          let (s2, h2) = send_disconnect_tx_command r (vl_stream_id (v_listeners s ! unat luid)) (s1, h)
          in (s2\<lparr>v_crf_wd_recovery := 1, v_crf_wd_last_retry_ms := now\<rparr>, h2)
        else if now - v_crf_wd_last_retry_ms s \<ge> 5000 then
          let (s2, h2) = send_connect_tx_command r (s1, h) in (s2\<lparr>v_crf_wd_last_retry_ms := now\<rparr>, h2)
        else (s1, h))"
proof -
  have c: "\<not> AVDECC_MAX_LISTENERS \<le> luid" "vl_connected (v_listeners s ! unat luid) \<noteq> 0" "v_crf_wd_init s \<noteq> 0"
    "\<not> rx \<noteq> v_crf_wd_rx_snapshot s" "\<not> 2000000000 < now - v_crf_wd_flow_ms s" "\<not> now - v_crf_wd_flow_ms s < CRF_WD_STALL_MS"
    using assms unfolding wd_ready_def wd_dead_def CRF_WD_STALL_MS_def by (simp_all only: not_le not_less simp_thms)
  show ?thesis
    unfolding avdecc_crf_flow_watchdog_def prod.case Let_def if_not_P [OF c(1)] if_not_P [OF c(2)] if_not_P [OF c(3)]
      if_not_P [OF c(4)] if_not_P [OF c(5)] if_not_P [OF c(6)] wd_request_def CRF_WD_RETRY_MS_def
    by simp
qed

text \<open>One disconnect, silence while the talker settles, then a reconnect.\<close>

lemma wd_first:
  assumes r: "wd_ready luid rx s" and d: "wd_dead now s" and z: "v_crf_wd_recovery s = 0"
    and w: "avdecc_crf_flow_watchdog luid rx now (s, h) = (s', h')"
  shows "hw_sent h' = hw_sent h @ [acmp_command ACMP_MSG_DISCONNECT_TX_COMMAND s (wd_request luid s)
      (vl_stream_id (v_listeners s ! unat luid))]"
    "wd_ready luid rx s' \<and> v_crf_wd_recovery s' = 1 \<and> v_crf_wd_last_retry_ms s' = now
     \<and> v_crf_wd_flow_ms s' = v_crf_wd_flow_ms s \<and> v_next_acmp_seq s' = v_next_acmp_seq s + 1
     \<and> v_listeners s' = v_listeners s \<and> v_entity_id s' = v_entity_id s \<and> v_src_mac s' = v_src_mac s"
proof -
  let ?f = "acmp_command ACMP_MSG_DISCONNECT_TX_COMMAND s (wd_request luid s) (vl_stream_id (v_listeners s ! unat luid))"
  have len: "length ?f \<le> 1000"
    using r by (simp add: acmp_command_pdu acmp_pdu_length acmp_st_cdl_def wd_ready_def wd_request_def)
  have e: "s' = s\<lparr>v_next_acmp_seq := v_next_acmp_seq s + 1, v_acmp_tx_count := v_acmp_tx_count s + 1,
      v_crf_wd_recovery := 1, v_crf_wd_last_retry_ms := now\<rparr>" "h' = avdecc_send ?f h"
    using w z unfolding wd_unfold [OF r d] Let_def
    by (auto simp: send_disconnect_tx_command_def acmp_command_def)
  show "hw_sent h' = hw_sent h @ [?f]" unfolding e by (rule avdecc_send_sent [OF len])
  show "wd_ready luid rx s' \<and> v_crf_wd_recovery s' = 1 \<and> v_crf_wd_last_retry_ms s' = now
     \<and> v_crf_wd_flow_ms s' = v_crf_wd_flow_ms s \<and> v_next_acmp_seq s' = v_next_acmp_seq s + 1
     \<and> v_listeners s' = v_listeners s \<and> v_entity_id s' = v_entity_id s \<and> v_src_mac s' = v_src_mac s"
    using r by (simp add: e wd_ready_def)
qed

lemma wd_waiting:
  assumes r: "wd_ready luid rx s" and d: "wd_dead now s" and z: "v_crf_wd_recovery s \<noteq> 0"
    and early: "now - v_crf_wd_last_retry_ms s < 5000"
  shows "avdecc_crf_flow_watchdog luid rx now (s, h) = (s\<lparr>v_next_acmp_seq := v_next_acmp_seq s + 1\<rparr>, h)"
  unfolding wd_unfold [OF r d] Let_def using z early [unfolded not_le [symmetric]] by simp

lemma wd_waits:
  assumes "wd_ready luid rx s" and "\<forall>now \<in> set ts. wd_dead now s \<and> now - v_crf_wd_last_retry_ms s < 5000"
    and "v_crf_wd_recovery s \<noteq> 0"
  shows "fold (avdecc_crf_flow_watchdog luid rx) ts (s, h)
    = (s\<lparr>v_next_acmp_seq := v_next_acmp_seq s + of_nat (length ts)\<rparr>, h)"
  using assms
proof (induction ts arbitrary: s)
  case (Cons now ts)
  have "wd_ready luid rx (s\<lparr>v_next_acmp_seq := v_next_acmp_seq s + 1\<rparr>)"
    "\<forall>now \<in> set ts. wd_dead now (s\<lparr>v_next_acmp_seq := v_next_acmp_seq s + 1\<rparr>)"
    using Cons.prems by (simp_all add: wd_ready_def wd_dead_def)
  then show ?case using Cons.prems wd_waiting [of luid rx s now h] by (simp add: Cons.IH add.assoc)
qed simp

lemma wd_retry:
  assumes r: "wd_ready luid rx s" and d: "wd_dead now s" and z: "v_crf_wd_recovery s \<noteq> 0"
    and late: "5000 \<le> now - v_crf_wd_last_retry_ms s"
    and w: "avdecc_crf_flow_watchdog luid rx now (s, h) = (s', h')"
  shows "hw_sent h' = hw_sent h @ [acmp_command ACMP_MSG_CONNECT_TX_COMMAND s (wd_request luid s) (zeros 8)]
    \<and> v_crf_wd_last_retry_ms s' = now \<and> v_crf_wd_recovery s' = v_crf_wd_recovery s"
proof -
  let ?f = "acmp_command ACMP_MSG_CONNECT_TX_COMMAND s (wd_request luid s) (zeros 8)"
  have len: "length ?f \<le> 1000"
    using r by (simp add: acmp_command_pdu acmp_pdu_length acmp_st_cdl_def wd_ready_def wd_request_def)
  have "s' = s\<lparr>v_next_acmp_seq := v_next_acmp_seq s + 1, v_acmp_tx_count := v_acmp_tx_count s + 1,
      v_crf_wd_last_retry_ms := now\<rparr>" "h' = avdecc_send ?f h"
    using w z late unfolding wd_unfold [OF r d] Let_def
    by (auto simp: send_connect_tx_command_def acmp_command_def)
  then show ?thesis using avdecc_send_sent [OF len] by simp
qed


section \<open>Properties\<close>

text \<open>
  C20.  Every slow-path request is answered, by the talker or by the clock.  Over any run of
  polls, a pending request whose age reaches 1500 ms at one of them is closed and its
  controller gets the deferred CONNECT_RX_RESPONSE with status LISTENER_TALKER_TIMEOUT, the
  controller's own entity id and sequence number in it; as long as no poll finds it that old,
  it stays pending unchanged.  A clock that was stepped back counts as age 0.
\<close>

theorem acmp_resolve_answered:
  assumes "polls ps (s, h) = (s', h')" and "pending_ok s" and "length (v_resolves s) = 2" and "i < 2"
    and "r = v_resolves s ! i" and "vr_active r \<noteq> 0"
  shows "((\<exists>j < length ps. 1500 \<le> age_at_poll h r j) \<longrightarrow> vr_active (v_resolves s' ! i) = 0
      \<and> (\<exists>fs. hw_sent h' = hw_sent h @ fs
        \<and> avdecc_eth_hdr (v_src_mac s) @ acmp_pdu ACMP_MSG_CONNECT_RX_RESPONSE
            (acmp_st_cdl ACMP_STATUS_LISTENER_TALKER_TIMEOUT) (zeros 8) (vr_ctrl_eid_orig r) (vr_talker_id r)
            (v_entity_id s) (vr_talker_uid r) (ucast (vr_listener_uid r)) (zeros 6)
            (vl_connection_count (v_listeners s ! unat (vr_listener_uid r))) (vr_ctrl_seq_id_orig r) 0 0 \<in> set fs))
    \<and> ((\<forall>j < length ps. age_at_poll h r j < 1500) \<longrightarrow> v_resolves s' ! i = r)"
proof (cases "\<exists>j < length ps. 1500 \<le> age_at_poll h r j")
  case True
  then show ?thesis using polls_pending [OF assms] by (auto simp: timeout_frame_def deferred_frame_def)
next
  case False
  then show ?thesis using polls_pending [OF assms] by auto
qed

definition demo_pending :: avdecc_state where
  "demo_pending = (fst (avdecc_init [2, 0, 0, 0, 0, 1] hw0))\<lparr>v_resolves :=
     [resolve_zero\<lparr>vr_active := 1, vr_ctrl_seq_id_orig := 7\<rparr>, resolve_zero]\<rparr>"

lemma demo_pending_facts:
  "pending_ok demo_pending" "length (v_resolves demo_pending) = 2" "v_resolves demo_pending ! 0 = resolve_zero\<lparr>vr_active := 1, vr_ctrl_seq_id_orig := 7\<rparr>"
  by (simp_all add: demo_pending_def avdecc_init_def avdecc_zero_def pending_ok_def resolve_ok_def resolve_zero_def)

theorem acmp_resolve_answered_witness:
  "vr_active (v_resolves (fst (polls [(None, None)] (demo_pending, hw0\<lparr>hw_clock_k := 1500\<rparr>))) ! 0) = 0"
proof -
  obtain s' h' where p: "polls [(None, None)] (demo_pending, hw0\<lparr>hw_clock_k := 1500\<rparr>) = (s', h')" by fastforce
  have "1500 \<le> age_at_poll (hw0\<lparr>hw_clock_k := 1500\<rparr>) (v_resolves demo_pending ! 0) 0"
    by (simp add: age_at_poll_def guarded_age_def ts_to_ms_def hw0_def demo_pending_facts resolve_zero_def)
  then show ?thesis
    using acmp_resolve_answered [OF p demo_pending_facts(1,2) _ refl, of 0] unfolding p by (simp add: demo_pending_facts)
qed

text \<open>
  C25.  The CRF watchdog re-bootstraps a stalled talker.  On a connected listener whose frame
  count stands still, calls less than 3000 ms after the last advance do nothing; the first
  call later than that sends DISCONNECT_TX for the bound stream; calls within the next
  5000 ms send nothing; the first one after them sends CONNECT_TX to the same talker and
  restarts the 5000 ms pace.  Each call on a stalled stream uses up a sequence number even when
  it sends nothing, so the CONNECT_TX carries the number of the DISCONNECT_TX plus one plus
  the number of silent calls.
\<close>

theorem crf_watchdog_recovers:
  assumes ready: "wd_ready luid rx s" and idle: "v_crf_wd_recovery s = 0"
    and first: "wd_dead now0 s" and silent: "\<forall>t \<in> set ts. wd_dead t s \<and> t - now0 < 5000"
    and last: "wd_dead now1 s" "5000 \<le> now1 - now0"
    and run: "fold (avdecc_crf_flow_watchdog luid rx) (now0 # ts @ [now1]) (s, h) = (s', h')"
  defines "l \<equiv> v_listeners s ! unat luid"
  defines "command \<equiv> \<lambda>mt sid seq. avdecc_eth_hdr (v_src_mac s)
     @ acmp_pdu mt (acmp_st_cdl ACMP_STATUS_SUCCESS) sid (v_entity_id s) (vl_talker_id l) (v_entity_id s)
         (vl_talker_uid l) luid (zeros 6) 0 seq 0 0"
  shows "hw_sent h' = hw_sent h
      @ [command ACMP_MSG_DISCONNECT_TX_COMMAND (vl_stream_id l) (v_next_acmp_seq s),
         command ACMP_MSG_CONNECT_TX_COMMAND (zeros 8) (v_next_acmp_seq s + 1 + of_nat (length ts))]
    \<and> v_crf_wd_last_retry_ms s' = now1
    \<and> (\<forall>t. t - v_crf_wd_flow_ms s < 3000 \<longrightarrow> avdecc_crf_flow_watchdog luid rx t (s, h) = (s, h))"
proof -
  obtain s1 h1 where 1: "avdecc_crf_flow_watchdog luid rx now0 (s, h) = (s1, h1)" by fastforce
  note f = wd_first [OF ready first idle 1]
  have s1: "wd_ready luid rx s1" "v_crf_wd_recovery s1 \<noteq> 0" "v_crf_wd_last_retry_ms s1 = now0"
    "v_next_acmp_seq s1 = v_next_acmp_seq s + 1" "v_listeners s1 = v_listeners s" "v_src_mac s1 = v_src_mac s"
    "v_entity_id s1 = v_entity_id s"
    using f(2) by simp_all
  have dead: "wd_dead t s1 = wd_dead t s" for t using f(2) by (simp add: wd_dead_def)
  have w: "fold (avdecc_crf_flow_watchdog luid rx) ts (s1, h1) = (s1\<lparr>v_next_acmp_seq := v_next_acmp_seq s1 + of_nat (length ts)\<rparr>, h1)"
    using silent by (intro wd_waits s1) (simp add: dead s1)
  let ?s2 = "s1\<lparr>v_next_acmp_seq := v_next_acmp_seq s1 + of_nat (length ts)\<rparr>"
  have 2: "avdecc_crf_flow_watchdog luid rx now1 (?s2, h1) = (s', h')" using run 1 w by simp
  have s2: "wd_ready luid rx ?s2" "wd_dead now1 ?s2" "v_crf_wd_recovery ?s2 \<noteq> 0" "5000 \<le> now1 - v_crf_wd_last_retry_ms ?s2"
    using s1 last dead by (simp_all add: wd_ready_def wd_dead_def)
  have u: "ucast (ucast luid :: u8) = luid" using ready uid_01 [of luid] by (auto simp: wd_ready_def)
  have "command ACMP_MSG_DISCONNECT_TX_COMMAND (vl_stream_id l) (v_next_acmp_seq s)
      = acmp_command ACMP_MSG_DISCONNECT_TX_COMMAND s (wd_request luid s) (vl_stream_id (v_listeners s ! unat luid))"
    "command ACMP_MSG_CONNECT_TX_COMMAND (zeros 8) (v_next_acmp_seq s + 1 + of_nat (length ts))
      = acmp_command ACMP_MSG_CONNECT_TX_COMMAND ?s2 (wd_request luid ?s2) (zeros 8)"
    using s1 u by (simp_all add: command_def l_def acmp_command_pdu wd_request_def ACMP_STATUS_SUCCESS_def)
  then show ?thesis using wd_retry [OF s2 2] f(1) wd_quiet [OF ready] by simp
qed

definition demo_stalled :: avdecc_state where
  "demo_stalled = (fst (avdecc_init [2, 0, 0, 0, 0, 1] hw0))\<lparr>v_crf_wd_init := 1,
     v_listeners := [listener_stream_zero\<lparr>vl_connected := 1, vl_talker_id := replicate 8 9\<rparr>, listener_stream_zero]\<rparr>"

lemma demo_stalled_ready: "wd_ready 0 0 demo_stalled" "v_crf_wd_recovery demo_stalled = 0" "v_crf_wd_flow_ms demo_stalled = 0"
  by (simp_all add: demo_stalled_def avdecc_init_def avdecc_zero_def wd_ready_def listener_stream_zero_def AVDECC_MAX_LISTENERS_def)

theorem crf_watchdog_recovers_witness:
  "length (hw_sent (snd (fold (avdecc_crf_flow_watchdog 0 0) [3000, 4000, 7999, 8000] (demo_stalled, hw0)))) = 2"
proof -
  obtain s' h' where run: "fold (avdecc_crf_flow_watchdog 0 0) (3000 # [4000, 7999] @ [8000]) (demo_stalled, hw0) = (s', h')" by fastforce
  show ?thesis
    using crf_watchdog_recovers [OF demo_stalled_ready(1,2) _ _ _ _ run] run
    by (simp add: wd_dead_def demo_stalled_ready(3) hw0_def)
qed

end
