(* ===== verification/Aecp.thy ===== *)
theory Aecp
  imports Avdecc Srp
begin

text \<open>
  AVDECC enumeration and control (the AECP part of firmware/avdecc.c): the AEM descriptors, the
  AEM commands of \<open>aecp_handle\<close>, the Milan vendor-unique commands of \<open>mvu_handle\<close>, and
  \<open>avdecc_process_rx\<close>, which dispatches ADP, ACMP and AECP frames.

  A response is a list of stores (offset from the start of the Ethernet frame, bytes) into the
  transmit slot, in the order of the code, followed by the length handed to the MAC.  Where
  the code sends more bytes than it wrote, the rest is what the slot held before.  Descriptor
  builders return the descriptor's bytes; the empty list stands for their return value 0
  (nothing is written then).
\<close>

section \<open>Constants\<close>

definition AECP_OFF_TARGET_ID :: nat where "AECP_OFF_TARGET_ID = 4"
definition AECP_OFF_CONTROLLER_ID :: nat where "AECP_OFF_CONTROLLER_ID = 12"
definition AECP_OFF_CMD_TYPE :: nat where "AECP_OFF_CMD_TYPE = 22"
definition AECP_MSG_AEM_COMMAND :: u8 where "AECP_MSG_AEM_COMMAND = 0"
definition AECP_MSG_VENDOR_UNIQUE_COMMAND :: u8 where "AECP_MSG_VENDOR_UNIQUE_COMMAND = 6"
definition AECP_MSG_VENDOR_UNIQUE_RESPONSE :: u8 where "AECP_MSG_VENDOR_UNIQUE_RESPONSE = 7"
definition MVU_PROTOCOL_ID :: "u8 list" where "MVU_PROTOCOL_ID = [0x00, 0x1B, 0xC5, 0x0A, 0xC1, 0x00]"
definition MVU_CMD_GET_MILAN_INFO :: u16 where "MVU_CMD_GET_MILAN_INFO = 0x0000"
definition MVU_CMD_GET_STREAM_INPUT_INFO_EX :: u16 where "MVU_CMD_GET_STREAM_INPUT_INFO_EX = 0x0007"
definition AECP_STATUS_NOT_IMPLEMENTED :: u8 where "AECP_STATUS_NOT_IMPLEMENTED = 1"
definition AECP_STATUS_NO_SUCH_DESCRIPTOR :: u8 where "AECP_STATUS_NO_SUCH_DESCRIPTOR = 2"
definition AECP_STATUS_BAD_ARGUMENTS :: u8 where "AECP_STATUS_BAD_ARGUMENTS = 7"
definition AEM_CMD_ACQUIRE_ENTITY :: u16 where "AEM_CMD_ACQUIRE_ENTITY = 0x0000"
definition AEM_CMD_LOCK_ENTITY :: u16 where "AEM_CMD_LOCK_ENTITY = 0x0001"
definition AEM_CMD_READ_DESCRIPTOR :: u16 where "AEM_CMD_READ_DESCRIPTOR = 0x0004"
definition AEM_CMD_SET_STREAM_FORMAT :: u16 where "AEM_CMD_SET_STREAM_FORMAT = 0x0008"
definition AEM_CMD_GET_STREAM_FORMAT :: u16 where "AEM_CMD_GET_STREAM_FORMAT = 0x0009"
definition AEM_CMD_GET_NAME :: u16 where "AEM_CMD_GET_NAME = 0x0019"
definition AEM_CMD_SET_CLOCK_SOURCE :: u16 where "AEM_CMD_SET_CLOCK_SOURCE = 0x0016"
definition AEM_CMD_GET_CLOCK_SOURCE :: u16 where "AEM_CMD_GET_CLOCK_SOURCE = 0x0017"
definition AEM_CMD_REGISTER_UNSOLICITED :: u16 where "AEM_CMD_REGISTER_UNSOLICITED = 0x0024"
definition AEM_CMD_DEREGISTER_UNSOLICITED :: u16 where "AEM_CMD_DEREGISTER_UNSOLICITED = 0x0025"
definition AEM_CMD_GET_AVB_INFO :: u16 where "AEM_CMD_GET_AVB_INFO = 0x0027"
definition AEM_CMD_GET_AS_PATH :: u16 where "AEM_CMD_GET_AS_PATH = 0x0028"
definition AEM_CMD_GET_AUDIO_MAP :: u16 where "AEM_CMD_GET_AUDIO_MAP = 0x002B"
definition AEM_CMD_GET_MAX_TRANSIT_TIME :: u16 where "AEM_CMD_GET_MAX_TRANSIT_TIME = 0x004D"
definition AEM_DESC_ENTITY :: u16 where "AEM_DESC_ENTITY = 0x0000"
definition AEM_DESC_CONFIGURATION :: u16 where "AEM_DESC_CONFIGURATION = 0x0001"
definition AEM_DESC_AUDIO_UNIT :: u16 where "AEM_DESC_AUDIO_UNIT = 0x0002"
definition AEM_DESC_AVB_INTERFACE :: u16 where "AEM_DESC_AVB_INTERFACE = 0x0009"
definition AEM_DESC_CLOCK_SOURCE :: u16 where "AEM_DESC_CLOCK_SOURCE = 0x000A"
definition AEM_DESC_LOCALE :: u16 where "AEM_DESC_LOCALE = 0x000C"
definition AEM_DESC_STRINGS :: u16 where "AEM_DESC_STRINGS = 0x000D"
definition AEM_DESC_STREAM_PORT_INPUT :: u16 where "AEM_DESC_STREAM_PORT_INPUT = 0x000E"
definition AEM_DESC_STREAM_PORT_OUTPUT :: u16 where "AEM_DESC_STREAM_PORT_OUTPUT = 0x000F"
definition AVB_INTERFACE_FLAG_GPTP_SUPPORTED :: u16 where "AVB_INTERFACE_FLAG_GPTP_SUPPORTED = push_bit 1 1"
definition AVB_INTERFACE_FLAG_SRP_SUPPORTED :: u16 where "AVB_INTERFACE_FLAG_SRP_SUPPORTED = push_bit 2 1"
definition STREAM_FLAG_CLOCK_SYNC_SOURCE :: u16 where "STREAM_FLAG_CLOCK_SYNC_SOURCE = push_bit 0 1"
definition STREAM_FLAG_CLASS_A :: u16 where "STREAM_FLAG_CLASS_A = push_bit 1 1"
definition STREAM_PORT_FLAG_CLOCK_SYNC_SOURCE :: u16 where "STREAM_PORT_FLAG_CLOCK_SYNC_SOURCE = push_bit 0 1"
definition CLOCK_SOURCE_TYPE_INTERNAL :: u16 where "CLOCK_SOURCE_TYPE_INTERNAL = 0x0000"
definition CLOCK_SOURCE_TYPE_INPUT_STREAM :: u16 where "CLOCK_SOURCE_TYPE_INPUT_STREAM = 0x0002"
definition N_CLOCK_SOURCES :: u16 where "N_CLOCK_SOURCES = 2"
definition LISTENER_CRF_INDEX :: u16 where "LISTENER_CRF_INDEX = 0"
definition LISTENER_AAF_INDEX :: u16 where "LISTENER_AAF_INDEX = 1"
definition TALKER_AAF_INDEX :: u16 where "TALKER_AAF_INDEX = 0"
definition CLK_SRC_INTERNAL :: u16 where "CLK_SRC_INTERNAL = 0"
definition LOG_SYNC_INTERVAL :: u8 where "LOG_SYNC_INTERVAL = -3"
definition LOG_ANNOUNCE_INTERVAL :: u8 where "LOG_ANNOUNCE_INTERVAL = 0"
definition LOG_PDELAY_REQ_INTERVAL :: u8 where "LOG_PDELAY_REQ_INTERVAL = 0"

lemmas aem_desc_codes = AEM_DESC_ENTITY_def AEM_DESC_CONFIGURATION_def AEM_DESC_AUDIO_UNIT_def
  AEM_DESC_STREAM_INPUT_def AEM_DESC_STREAM_OUTPUT_def AEM_DESC_AVB_INTERFACE_def AEM_DESC_CLOCK_SOURCE_def
  AEM_DESC_LOCALE_def AEM_DESC_STRINGS_def AEM_DESC_STREAM_PORT_INPUT_def AEM_DESC_STREAM_PORT_OUTPUT_def
  AEM_DESC_CLOCK_DOMAIN_def

lemmas aem_sizes = N_STREAM_INPUTS_def N_STREAM_OUTPUTS_def N_CLOCK_SOURCES_def LISTENER_CRF_INDEX_def
  LISTENER_AAF_INDEX_def TALKER_AAF_INDEX_def CLK_SRC_INTERNAL_def AVDECC_MAX_LISTENERS_def AVDECC_MAX_TALKERS_def

section \<open>Names\<close>

definition ascii :: "string \<Rightarrow> u8 list" where
  "ascii s = map of_char s"

definition write_name64 :: "u8 list \<Rightarrow> u8 list" where
  "write_name64 s = (let t = take 63 (takeWhile (\<lambda>c. c \<noteq> 0) s) in t @ zeros (64 - length t))"

definition hex_digit :: "u8 \<Rightarrow> u8" where
  "hex_digit d = ascii ''0123456789ABCDEF'' ! unat (d AND 0xF)"

definition serial_number :: "u8 list \<Rightarrow> u8 list" where
  "serial_number mac = ascii ''NS-''
     @ [hex_digit (drop_bit 4 (mac ! 3)), hex_digit (mac ! 3), hex_digit (drop_bit 4 (mac ! 4)), hex_digit (mac ! 4),
        hex_digit (drop_bit 4 (mac ! 5)), hex_digit (mac ! 5)]"

section \<open>Descriptors\<close>

definition build_desc_entity :: "u16 \<Rightarrow> avdecc_state \<Rightarrow> u8 list" where
  "build_desc_entity idx s =
     (if idx \<noteq> 0 then []
      else put_be16 AEM_DESC_ENTITY @ put_be16 0 @ v_entity_id s @ ENTITY_MODEL_ID @ put_be32 ADP_CAPS
        @ put_be16 N_STREAM_OUTPUTS @ put_be16 ADP_TALKER_CAPS @ put_be16 N_STREAM_INPUTS @ put_be16 ADP_LISTENER_CAPS
        @ zeros 4 @ put_be32 (v_adp_available_index s) @ zeros 8 @ write_name64 (ascii ''AVB-AES3 Endpoint'')
        @ put_be16 0x0000 @ put_be16 0x0001 @ write_name64 (ascii ''1.0.0'') @ zeros 64
        @ write_name64 (serial_number (v_src_mac s)) @ put_be16 1 @ put_be16 0)"

definition build_desc_configuration :: "u16 \<Rightarrow> u8 list" where
  "build_desc_configuration idx =
     (if idx \<noteq> 0 then []
      else put_be16 AEM_DESC_CONFIGURATION @ put_be16 0 @ write_name64 (ascii ''Default'') @ put_be16 0xFFFF
        @ put_be16 7 @ put_be16 74
        @ put_be16 AEM_DESC_AUDIO_UNIT @ put_be16 1
        @ put_be16 AEM_DESC_STREAM_INPUT @ put_be16 N_STREAM_INPUTS
        @ put_be16 AEM_DESC_STREAM_OUTPUT @ put_be16 N_STREAM_OUTPUTS
        @ put_be16 AEM_DESC_AVB_INTERFACE @ put_be16 1
        @ put_be16 AEM_DESC_CLOCK_SOURCE @ put_be16 N_CLOCK_SOURCES
        @ put_be16 AEM_DESC_LOCALE @ put_be16 1
        @ put_be16 AEM_DESC_CLOCK_DOMAIN @ put_be16 1)"

definition build_desc_audio_unit :: "u16 \<Rightarrow> u8 list" where
  "build_desc_audio_unit idx =
     (if idx \<noteq> 0 then []
      else put_be16 AEM_DESC_AUDIO_UNIT @ put_be16 0 @ write_name64 (ascii ''Audio Unit'') @ put_be16 0xFFFF
        @ put_be16 0 @ put_be16 1 @ put_be16 0 @ put_be16 1 @ put_be16 0 @ zeros 56
        @ put_be32 48000 @ put_be16 144 @ put_be16 1 @ put_be32 48000)"

definition build_desc_stream_input :: "u16 \<Rightarrow> u8 list" where
  "build_desc_stream_input idx =
     (if idx \<ge> N_STREAM_INPUTS then []
      else
        let (fmt, name, flags) =
              (if idx = LISTENER_CRF_INDEX
               then (STREAM_FMT_CRF_48K, ''Media Clock Input'', STREAM_FLAG_CLOCK_SYNC_SOURCE OR STREAM_FLAG_CLASS_A)
               else (STREAM_FMT_AAF_8CH_48K, ''Audio Input'', STREAM_FLAG_CLASS_A))
        in put_be16 AEM_DESC_STREAM_INPUT @ put_be16 idx @ write_name64 (ascii name) @ put_be16 0xFFFF @ put_be16 0
             @ put_be16 flags @ fmt @ put_be16 132 @ put_be16 1 @ zeros 18 @ put_be16 0 @ put_be32 2000000
             @ zeros 22 @ fmt)"

definition build_desc_stream_output :: "u16 \<Rightarrow> u8 list" where
  "build_desc_stream_output idx =
     (if idx \<ge> N_STREAM_OUTPUTS then []
      else put_be16 AEM_DESC_STREAM_OUTPUT @ put_be16 idx @ write_name64 (ascii ''Audio Output'') @ put_be16 0xFFFF
        @ put_be16 0 @ put_be16 STREAM_FLAG_CLASS_A @ STREAM_FMT_AAF_8CH_48K @ put_be16 132 @ put_be16 1 @ zeros 18
        @ put_be16 0 @ put_be32 2000000 @ zeros 22 @ STREAM_FMT_AAF_8CH_48K)"

definition build_desc_avb_interface :: "gptp_t option \<Rightarrow> u16 \<Rightarrow> avdecc_state \<Rightarrow> u8 list" where
  "build_desc_avb_interface g_gptp idx s =
     (if idx \<noteq> 0 then []
      else put_be16 AEM_DESC_AVB_INTERFACE @ put_be16 0 @ write_name64 (ascii ''Ethernet'') @ put_be16 0xFFFF
        @ v_src_mac s @ put_be16 (AVB_INTERFACE_FLAG_GPTP_SUPPORTED OR AVB_INTERFACE_FLAG_SRP_SUPPORTED)
        @ (case g_gptp of Some g \<Rightarrow> g_clock_id g | None \<Rightarrow> v_entity_id s)
        @ (case g_gptp of
             Some g \<Rightarrow> if g_gm_valid g \<noteq> 0
                      then [g_gm_priority1 g, g_gm_clock_class g] @ put_be16 (g_gm_offset_scaled_log_variance g)
                             @ [g_gm_clock_accuracy g, g_gm_priority2 g]
                      else [248, 248] @ put_be16 0x4E5D @ [0xFE, 248]
           | None \<Rightarrow> [248, 248] @ put_be16 0x4E5D @ [0xFE, 248])
        @ [0, LOG_SYNC_INTERVAL, LOG_ANNOUNCE_INTERVAL, LOG_PDELAY_REQ_INTERVAL] @ put_be16 1)"

definition build_desc_clock_source :: "u16 \<Rightarrow> avdecc_state \<Rightarrow> u8 list" where
  "build_desc_clock_source idx s =
     (if idx \<ge> N_CLOCK_SOURCES then []
      else if idx = CLK_SRC_INTERNAL then
        put_be16 AEM_DESC_CLOCK_SOURCE @ put_be16 idx @ write_name64 (ascii ''Internal'') @ put_be16 0xFFFF
          @ put_be16 0 @ put_be16 CLOCK_SOURCE_TYPE_INTERNAL @ v_entity_id s @ put_be16 AEM_DESC_AUDIO_UNIT @ put_be16 0
      else
        put_be16 AEM_DESC_CLOCK_SOURCE @ put_be16 idx @ write_name64 (ascii ''Media Clock'') @ put_be16 0xFFFF
          @ put_be16 0 @ put_be16 CLOCK_SOURCE_TYPE_INPUT_STREAM @ v_entity_id s @ put_be16 AEM_DESC_STREAM_INPUT
          @ put_be16 LISTENER_CRF_INDEX)"

definition build_desc_clock_domain :: "u16 \<Rightarrow> avdecc_state \<Rightarrow> u8 list" where
  "build_desc_clock_domain idx s =
     (if idx \<noteq> 0 then []
      else
        let cs = (if v_current_clock_source s \<ge> N_CLOCK_SOURCES then 0 else v_current_clock_source s)
        in put_be16 AEM_DESC_CLOCK_DOMAIN @ put_be16 0 @ write_name64 (ascii ''Clock Domain'') @ put_be16 0xFFFF
             @ put_be16 cs @ put_be16 76 @ put_be16 N_CLOCK_SOURCES
             @ concat (map (\<lambda>i. put_be16 (of_nat i)) [0..<unat N_CLOCK_SOURCES]))"

definition build_desc_locale :: "u16 \<Rightarrow> u8 list" where
  "build_desc_locale idx =
     (if idx \<noteq> 0 then []
      else put_be16 AEM_DESC_LOCALE @ put_be16 0 @ ascii ''en-US'' @ zeros 59 @ put_be16 1 @ put_be16 0)"

definition build_desc_strings :: "u16 \<Rightarrow> u8 list" where
  "build_desc_strings idx =
     (if idx \<noteq> 0 then []
      else put_be16 AEM_DESC_STRINGS @ put_be16 0
        @ concat (map (\<lambda>s. write_name64 (ascii s))
            [''N-Series'', ''AVB-AES3 Endpoint'', ''Audio Unit'', ''Media Clock Input'', ''Audio Input'',
             ''Audio Output'', ''Clock Domain'']))"

definition build_desc_stream_port :: "u16 \<Rightarrow> u16 \<Rightarrow> u8 list" where
  "build_desc_stream_port desc_type idx =
     (if idx \<noteq> 0 then []
      else put_be16 desc_type @ put_be16 0 @ put_be16 0 @ put_be16 STREAM_PORT_FLAG_CLOCK_SYNC_SOURCE @ put_be16 0
        @ put_be16 0 @ put_be16 0 @ put_be16 0 @ put_be16 0 @ put_be16 0)"

definition build_desc :: "gptp_t option \<Rightarrow> avdecc_state \<Rightarrow> u16 \<Rightarrow> u16 \<Rightarrow> u8 list" where
  "build_desc g_gptp s dt di =
     (if dt = AEM_DESC_ENTITY then build_desc_entity di s
      else if dt = AEM_DESC_CONFIGURATION then build_desc_configuration di
      else if dt = AEM_DESC_AUDIO_UNIT then build_desc_audio_unit di
      else if dt = AEM_DESC_STREAM_INPUT then build_desc_stream_input di
      else if dt = AEM_DESC_STREAM_OUTPUT then build_desc_stream_output di
      else if dt = AEM_DESC_AVB_INTERFACE then build_desc_avb_interface g_gptp di s
      else if dt = AEM_DESC_CLOCK_SOURCE then build_desc_clock_source di s
      else if dt = AEM_DESC_CLOCK_DOMAIN then build_desc_clock_domain di s
      else if dt = AEM_DESC_LOCALE then build_desc_locale di
      else if dt = AEM_DESC_STRINGS then build_desc_strings di
      else if dt = AEM_DESC_STREAM_PORT_INPUT \<or> dt = AEM_DESC_STREAM_PORT_OUTPUT then build_desc_stream_port dt di
      else [])"

section \<open>Responses\<close>

definition aecp_begin_response :: "u8 list \<Rightarrow> mem \<Rightarrow> mem \<Rightarrow> (nat \<times> u8 list) list" where
  "aecp_begin_response src_mac rx_frame rx_pdu =
     [(0, bytes rx_frame 6 6), (6, src_mac), (12, put_be16 AVDECC_ETHERTYPE),
      (14, [AVTP_SUBTYPE_AECP]), (15, [AECP_MSG_AEM_RESPONSE]), (18, bytes rx_pdu 4 20)]"

text \<open>Stores at offsets of the PDU.\<close>

definition at_pdu :: "(nat \<times> u8 list) list \<Rightarrow> (nat \<times> u8 list) list" where
  "at_pdu = map (\<lambda>(off, bs). (14 + off, bs))"

definition aecp_transmit :: "(nat \<times> u8 list) list \<Rightarrow> u32 \<Rightarrow> avdecc_state \<times> hw \<Rightarrow> avdecc_state \<times> hw" where
  "aecp_transmit stores len = (\<lambda>(s, h).
     (s\<lparr>v_aecp_tx_count := v_aecp_tx_count s + 1\<rparr>,
      send_frame TxAvdecc (mputs (tx_buf TxAvdecc h) stores) len h))"

text \<open>The common shape of the AEM responses: header, body, status, transmission.\<close>

definition aecp_respond ::
  "mem \<Rightarrow> mem \<Rightarrow> (nat \<times> u8 list) list \<Rightarrow> u8 \<Rightarrow> u16 \<Rightarrow> u32 \<Rightarrow> avdecc_state \<times> hw \<Rightarrow> avdecc_state \<times> hw" where
  "aecp_respond frame pdu body status cdl len = (\<lambda>(s, h).
     aecp_transmit (aecp_begin_response (v_src_mac s) frame pdu @ at_pdu (body @ [(2, status_cdl status cdl)])) len (s, h))"

section \<open>AEM commands\<close>

definition aecp_read_descriptor :: "gptp_t option \<Rightarrow> mem \<Rightarrow> mem \<Rightarrow> u32 \<Rightarrow> avdecc_state \<times> hw \<Rightarrow> avdecc_state \<times> hw" where
  "aecp_read_descriptor g_gptp frame pdu pdu_len = (\<lambda>(s, h).
     if pdu_len < 32 then (s, h)
     else
       let desc = build_desc g_gptp s (get_be16 pdu 28) (get_be16 pdu 30);
           body = [(24, put_be16 (get_be16 pdu 24)), (26, put_be16 0), (28, desc)];
           desc_len = of_nat (length desc) :: u32
       in if desc_len = 0 then aecp_respond frame pdu body AECP_STATUS_NOT_IMPLEMENTED 16 (14 + 28) (s, h)
          else aecp_respond frame pdu body AECP_STATUS_SUCCESS (ucast (16 + desc_len))
                 (if 14 + 28 + desc_len < 64 then 64 else 14 + 28 + desc_len) (s, h))"

definition aecp_acquire_lock :: "u16 \<Rightarrow> mem \<Rightarrow> mem \<Rightarrow> u32 \<Rightarrow> avdecc_state \<times> hw \<Rightarrow> avdecc_state \<times> hw" where
  "aecp_acquire_lock cmd_type frame pdu pdu_len = (\<lambda>(s, h).
     if pdu_len < 40 then (s, h)
     else
       let flags = get_be32 pdu 24;
           is_release = (if cmd_type = AEM_CMD_ACQUIRE_ENTITY then flags AND 0x80000000 \<noteq> 0
                         else flags AND 0x00000001 \<noteq> 0)
       in aecp_respond frame pdu
            [(24, bytes pdu 24 16), (28, if is_release then zeros 8 else bytes pdu AECP_OFF_CONTROLLER_ID 8)]
            AECP_STATUS_SUCCESS 28 64 (s, h))"

definition stream_format_of :: "u16 \<Rightarrow> u16 \<Rightarrow> u8 list option" where
  "stream_format_of dt di =
     (if dt = AEM_DESC_STREAM_INPUT then
        (if di = LISTENER_CRF_INDEX then Some STREAM_FMT_CRF_48K
         else if di = LISTENER_AAF_INDEX then Some STREAM_FMT_AAF_8CH_48K else None)
      else if dt = AEM_DESC_STREAM_OUTPUT \<and> di = TALKER_AAF_INDEX then Some STREAM_FMT_AAF_8CH_48K
      else None)"

definition aecp_get_stream_format :: "mem \<Rightarrow> mem \<Rightarrow> u32 \<Rightarrow> avdecc_state \<times> hw \<Rightarrow> avdecc_state \<times> hw" where
  "aecp_get_stream_format frame pdu pdu_len = (\<lambda>(s, h).
     if pdu_len < 28 then (s, h)
     else
       case stream_format_of (get_be16 pdu 24) (get_be16 pdu 26) of
         Some fmt \<Rightarrow> aecp_respond frame pdu [(24, bytes pdu 24 4), (28, fmt)] AECP_STATUS_SUCCESS 24 64 (s, h)
       | None \<Rightarrow> aecp_respond frame pdu [(24, bytes pdu 24 4), (28, zeros 8)] AECP_STATUS_NO_SUCH_DESCRIPTOR 24 64 (s, h))"

definition aecp_set_stream_format :: "mem \<Rightarrow> mem \<Rightarrow> u32 \<Rightarrow> avdecc_state \<times> hw \<Rightarrow> avdecc_state \<times> hw" where
  "aecp_set_stream_format frame pdu pdu_len = (\<lambda>(s, h).
     if pdu_len < 36 then (s, h)
     else
       let dt = get_be16 pdu 24;
           st = (case stream_format_of dt (get_be16 pdu 26) of
                   None \<Rightarrow> AECP_STATUS_NO_SUCH_DESCRIPTOR
                 | Some expect \<Rightarrow>
                     if dt = AEM_DESC_STREAM_INPUT then AECP_STATUS_SUCCESS
                     else if bytes pdu 28 8 \<noteq> expect then AECP_STATUS_BAD_ARGUMENTS else AECP_STATUS_SUCCESS)
       in aecp_respond frame pdu [(24, bytes pdu 24 12)] st 24 64 (s, h))"

definition aecp_get_clock_source :: "mem \<Rightarrow> mem \<Rightarrow> u32 \<Rightarrow> avdecc_state \<times> hw \<Rightarrow> avdecc_state \<times> hw" where
  "aecp_get_clock_source frame pdu pdu_len = (\<lambda>(s, h).
     if pdu_len < 28 then (s, h)
     else
       let st = (if get_be16 pdu 24 = AEM_DESC_CLOCK_DOMAIN \<and> get_be16 pdu 26 = 0
                 then AECP_STATUS_SUCCESS else AECP_STATUS_NO_SUCH_DESCRIPTOR)
       in aecp_respond frame pdu
            [(24, bytes pdu 24 4), (28, put_be16 (v_current_clock_source s)), (30, put_be16 0)] st 20 64 (s, h))"

definition gm_clock_id_of :: "gptp_t option \<Rightarrow> u8 list" where
  "gm_clock_id_of g_gptp = (case g_gptp of Some g \<Rightarrow> if g_gm_valid g \<noteq> 0 then g_gm_clock_id g else zeros 8 | None \<Rightarrow> zeros 8)"

definition aecp_get_as_path :: "gptp_t option \<Rightarrow> mem \<Rightarrow> mem \<Rightarrow> u32 \<Rightarrow> avdecc_state \<times> hw \<Rightarrow> avdecc_state \<times> hw" where
  "aecp_get_as_path g_gptp frame pdu pdu_len = (\<lambda>(s, h).
     if pdu_len < 26 then (s, h)
     else aecp_respond frame pdu
            [(24, put_be16 (get_be16 pdu 24)), (26, put_be16 1), (28, gm_clock_id_of g_gptp)] AECP_STATUS_SUCCESS 24 64 (s, h))"

definition aecp_get_avb_info ::
  "gptp_t option \<Rightarrow> srp_state option \<Rightarrow> mem \<Rightarrow> mem \<Rightarrow> u32 \<Rightarrow> avdecc_state \<times> hw \<Rightarrow> avdecc_state \<times> hw" where
  "aecp_get_avb_info g_gptp g_srp frame pdu pdu_len = (\<lambda>(s, h).
     if pdu_len < 28 then (s, h)
     else
       let dt = get_be16 pdu 24;
           di = get_be16 pdu 26;
           st = (if dt = AEM_DESC_AVB_INTERFACE \<and> di = 0 then AECP_STATUS_SUCCESS else AECP_STATUS_NO_SUCH_DESCRIPTOR);
           prop_delay = (case g_gptp of
                           Some g \<Rightarrow> (let pd = g_mean_path_delay_ns g
                                     in if pd < 0 then 0 else if pd > 0xFFFFFFFF then 0xFFFFFFFF else of_int pd)
                         | None \<Rightarrow> 0) :: u32;
           flags = (case g_gptp of
                      Some g \<Rightarrow> if g_mean_path_delay_ns g > 0 \<and> g_mean_path_delay_ns g < 100000
                               then 0x06 OR 0x01 else 0x06
                    | None \<Rightarrow> 0x06) :: u8;
           (map_class, map_prio, map_vid) = (case g_srp of
                      Some r \<Rightarrow> if s_domain_received r \<noteq> 0
                               then (s_rx_sr_class r, s_rx_sr_prio r, s_rx_sr_vid r) else (6, 3, 2)
                    | None \<Rightarrow> (6, 3, 2))
       in aecp_respond frame pdu
            [(24, put_be16 dt), (26, put_be16 di), (28, gm_clock_id_of g_gptp), (36, put_be32 prop_delay), (40, [0]),
             (41, [flags]), (42, put_be16 1), (44, [map_class]), (45, [map_prio]), (46, put_be16 map_vid)]
            st 36 68 (s, h))"

definition counters_of :: "avdecc_state \<Rightarrow> u16 \<Rightarrow> u16 \<Rightarrow> u32 \<times> u32 list" where
  "counters_of s dt di =
     (let none = replicate 32 0
      in if dt = AEM_DESC_AVB_INTERFACE then (if di = 0 then (0x00000023, none[0 := 1, 1 := 0, 5 := 0]) else (0, none))
         else if dt = AEM_DESC_CLOCK_DOMAIN then
           (if di = 0 then (0x00000003, none[0 := v_clock_locked_count s, 1 := v_clock_unlocked_count s]) else (0, none))
         else if dt = AEM_DESC_STREAM_INPUT then
           (if di < N_STREAM_INPUTS \<and> di < AVDECC_MAX_LISTENERS
            then (0x00000FFF, none[0 := v_stream_media_locked s ! unat di, 1 := v_stream_media_unlocked s ! unat di,
                                   11 := v_stream_frames_rx s ! unat di])
            else (0, none))
         else if dt = AEM_DESC_STREAM_OUTPUT then (if di < N_STREAM_OUTPUTS then 0x0000001F else 0, none)
         else (0, none))"

definition aecp_get_counters :: "mem \<Rightarrow> mem \<Rightarrow> u32 \<Rightarrow> avdecc_state \<times> hw \<Rightarrow> avdecc_state \<times> hw" where
  "aecp_get_counters frame pdu pdu_len = (\<lambda>(s, h).
     if pdu_len < 28 then (s, h)
     else
       let dt = get_be16 pdu 24;
           di = get_be16 pdu 26;
           (valid, counters) = counters_of s dt di
       in aecp_respond frame pdu
            [(24, put_be16 dt), (26, put_be16 di), (28, put_be32 valid), (32, concat (map put_be32 counters))]
            AECP_STATUS_SUCCESS 148 (14 + 24 + 136) (s, h))"

definition aecp_get_audio_map :: "mem \<Rightarrow> mem \<Rightarrow> u32 \<Rightarrow> avdecc_state \<times> hw \<Rightarrow> avdecc_state \<times> hw" where
  "aecp_get_audio_map frame pdu pdu_len = (\<lambda>(s, h).
     if pdu_len < 30 then (s, h)
     else aecp_respond frame pdu
            [(24, put_be16 (get_be16 pdu 24)), (26, put_be16 (get_be16 pdu 26)), (28, put_be16 (get_be16 pdu 28)),
             (30, put_be16 0), (32, put_be16 0), (34, put_be16 0)]
            AECP_STATUS_SUCCESS 24 64 (s, h))"

text \<open>
  The registration loop: the entry of the controller, and the first free entry met before it.
\<close>

fun unsol_scan :: "u8 list \<Rightarrow> nat \<Rightarrow> unsol_ctrl list \<Rightarrow> nat option \<Rightarrow> nat option \<times> nat option" where
  "unsol_scan eid i [] free_slot = (None, free_slot)"
| "unsol_scan eid i (c # cs) free_slot =
     (if vu_active c \<noteq> 0 then
        if vu_controller_eid c = eid then (Some i, free_slot) else unsol_scan eid (Suc i) cs free_slot
      else unsol_scan eid (Suc i) cs (case free_slot of None \<Rightarrow> Some i | Some f \<Rightarrow> Some f))"

definition unsol_register :: "u8 list \<Rightarrow> u8 list \<Rightarrow> unsol_ctrl list \<Rightarrow> unsol_ctrl list" where
  "unsol_register ctrl_eid ctrl_mac cs =
     (let (slot, free_slot) = unsol_scan ctrl_eid 0 cs None;
          use = (case slot of Some i \<Rightarrow> Some i | None \<Rightarrow> free_slot)
      in case use of
           None \<Rightarrow> cs
         | Some u \<Rightarrow> cs[u := (cs ! u)\<lparr>vu_unsol_seq_id := (if use = free_slot then 0 else vu_unsol_seq_id (cs ! u)),
                                    vu_active := 1, vu_controller_eid := ctrl_eid, vu_mac := ctrl_mac\<rparr>])"

definition unsol_deregister :: "u8 list \<Rightarrow> unsol_ctrl list \<Rightarrow> unsol_ctrl list" where
  "unsol_deregister ctrl_eid cs =
     (case fst (unsol_scan ctrl_eid 0 cs None) of
        None \<Rightarrow> cs
      | Some i \<Rightarrow> cs[i := (cs ! i)\<lparr>vu_active := 0\<rparr>])"

definition aecp_register_unsolicited :: "u16 \<Rightarrow> mem \<Rightarrow> mem \<Rightarrow> avdecc_state \<times> hw \<Rightarrow> avdecc_state \<times> hw" where
  "aecp_register_unsolicited cmd_type frame pdu = (\<lambda>(s, h).
     let ctrl_eid = bytes pdu AECP_OFF_CONTROLLER_ID 8;
         ctrl_mac = bytes frame 6 6;
         s1 = s\<lparr>v_unsol_ctrl := (if cmd_type = AEM_CMD_REGISTER_UNSOLICITED
                               then unsol_register ctrl_eid ctrl_mac (v_unsol_ctrl s)
                               else unsol_deregister ctrl_eid (v_unsol_ctrl s))\<rparr>
     in aecp_respond frame pdu [] AECP_STATUS_SUCCESS 12 64 (s1, h))"

definition aecp_get_max_transit_time :: "mem \<Rightarrow> mem \<Rightarrow> u32 \<Rightarrow> avdecc_state \<times> hw \<Rightarrow> avdecc_state \<times> hw" where
  "aecp_get_max_transit_time frame pdu pdu_len = (\<lambda>(s, h).
     if pdu_len < 28 then (s, h)
     else
       let dt = get_be16 pdu 24;
           di = get_be16 pdu 26;
           st = (if \<not> (dt = AEM_DESC_STREAM_OUTPUT \<and> di < N_STREAM_OUTPUTS
                       \<or> dt = AEM_DESC_STREAM_INPUT \<and> di < N_STREAM_INPUTS)
                 then AECP_STATUS_NO_SUCH_DESCRIPTOR else AECP_STATUS_SUCCESS)
       in aecp_respond frame pdu
            [(24, put_be16 dt), (26, put_be16 di), (28, put_be32 0), (32, put_be32 2000000)] st 24 64 (s, h))"

text \<open>The 56 bytes of a GET_STREAM_INFO response; None for an unknown descriptor.\<close>

definition stream_info_payload :: "avdecc_state \<Rightarrow> u16 \<Rightarrow> u16 \<Rightarrow> u8 list option" where
  "stream_info_payload s dt di =
     (let info = (if dt = AEM_DESC_STREAM_OUTPUT \<and> di < AVDECC_MAX_TALKERS then
            let t = v_talkers s ! unat di
            in Some (STREAM_FMT_AAF_8CH_48K, vt_stream_id t, vt_dest_mac t,
                 STREAM_INFO_FLAG_STREAM_FORMAT_VALID OR STREAM_INFO_FLAG_STREAM_ID_VALID
                   OR STREAM_INFO_FLAG_STREAM_DEST_MAC_VALID OR STREAM_INFO_FLAG_MSRP_ACC_LATENCY_VALID
                   OR STREAM_INFO_FLAG_STREAM_VLAN_ID_VALID)
          else if dt = AEM_DESC_STREAM_INPUT \<and> di < AVDECC_MAX_LISTENERS then
            let l = v_listeners s ! unat di;
                fmt = (if di = LISTENER_CRF_INDEX then STREAM_FMT_CRF_48K else STREAM_FMT_AAF_8CH_48K)
            in if vl_connected l \<noteq> 0 then
                 Some (fmt, vl_stream_id l, vl_dest_mac l,
                   STREAM_INFO_FLAG_STREAM_FORMAT_VALID OR STREAM_INFO_FLAG_STREAM_ID_VALID
                     OR STREAM_INFO_FLAG_STREAM_DEST_MAC_VALID
                     OR (if vl_talker_id l \<noteq> zeros 8
                         then STREAM_INFO_FLAG_CONNECTED OR STREAM_INFO_FLAG_FAST_CONNECT
                                OR STREAM_INFO_FLAG_SAVED_STATE else 0))
               else Some (fmt, zeros 8, zeros 6, STREAM_INFO_FLAG_STREAM_FORMAT_VALID)
          else None);
          probing = (if dt = AEM_DESC_STREAM_INPUT \<and> di < AVDECC_MAX_LISTENERS
                        \<and> vl_connected (v_listeners s ! unat di) \<noteq> 0 then 3 else 0) :: u8;
          (msrp_latency, vlan_id) =
            (if dt = AEM_DESC_STREAM_INPUT \<and> di < AVDECC_MAX_LISTENERS then
               let l = v_listeners s ! unat di
               in (if vl_msrp_accumulated_latency_ns l \<noteq> 0 then vl_msrp_accumulated_latency_ns l else 2000000,
                   if vl_stream_vlan_id l \<noteq> 0 then vl_stream_vlan_id l else 2)
             else (2000000, 2))
      in case info of
           None \<Rightarrow> None
         | Some (fmt, sid, dest, info_flags) \<Rightarrow>
             Some (put_be16 dt @ put_be16 di @ put_be32 info_flags @ fmt @ sid @ put_be32 msrp_latency @ dest
               @ [0, 0] @ zeros 8 @ put_be16 vlan_id @ put_be16 0 @ put_be32 0
               @ [push_bit 5 (probing AND 0x07) OR (0 AND 0x1F), 0] @ put_be16 0))"

definition aecp_get_stream_info :: "mem \<Rightarrow> mem \<Rightarrow> u32 \<Rightarrow> avdecc_state \<times> hw \<Rightarrow> avdecc_state \<times> hw" where
  "aecp_get_stream_info frame pdu pdu_len = (\<lambda>(s, h).
     if pdu_len < 28 then (s, h)
     else
       case stream_info_payload s (get_be16 pdu 24) (get_be16 pdu 26) of
         None \<Rightarrow> aecp_respond frame pdu [(24, bytes pdu 24 4), (28, zeros 52)] AECP_STATUS_NO_SUCH_DESCRIPTOR 68
                   (14 + 24 + 56) (s, h)
       | Some payload \<Rightarrow> aecp_respond frame pdu [(24, payload)] AECP_STATUS_SUCCESS 68 (14 + 24 + 56) (s, h))"

definition aecp_set_clock_source :: "'e avdecc_callbacks \<Rightarrow> mem \<Rightarrow> mem \<Rightarrow> u32 \<Rightarrow> 'e vworld \<Rightarrow> 'e vworld" where
  "aecp_set_clock_source cbs frame pdu pdu_len = (\<lambda>(s, h, e).
     if pdu_len < 32 then (s, h, e)
     else
       let dt = get_be16 pdu 24;
           di = get_be16 pdu 26;
           src = get_be16 pdu 28;
           (st, w1) =
             (if dt \<noteq> AEM_DESC_CLOCK_DOMAIN \<or> di \<noteq> 0 then (AECP_STATUS_NO_SUCH_DESCRIPTOR, (s, h, e))
              else if src \<ge> N_CLOCK_SOURCES then (AECP_STATUS_BAD_ARGUMENTS, (s, h, e))
              else (AECP_STATUS_SUCCESS,
                    let w = (s\<lparr>v_current_clock_source := src\<rparr>, h, e)
                    in case cb_clock_source_change cbs of None \<Rightarrow> w | Some f \<Rightarrow> f src w))
       in lift_w (\<lambda>(s, h). aecp_respond frame pdu
            [(24, bytes pdu 24 4), (28, put_be16 (v_current_clock_source s)), (30, put_be16 0)] st 20 64 (s, h)) w1)"

definition object_name :: "u16 \<Rightarrow> u16 \<Rightarrow> u16 \<Rightarrow> string option" where
  "object_name dt di ni =
     (if dt = AEM_DESC_ENTITY then
        (if di = 0 \<and> ni = 0 then Some ''AVB-AES3 Endpoint'' else if di = 0 \<and> ni = 1 then Some [] else None)
      else if dt = AEM_DESC_CONFIGURATION then (if di = 0 \<and> ni = 0 then Some ''Default'' else None)
      else if dt = AEM_DESC_AUDIO_UNIT then (if di = 0 \<and> ni = 0 then Some ''Audio Unit'' else None)
      else if dt = AEM_DESC_STREAM_INPUT then
        (if di < N_STREAM_INPUTS \<and> ni = 0 then Some (if di = 0 then ''Media Clock Input'' else ''Audio Input'') else None)
      else if dt = AEM_DESC_STREAM_OUTPUT then (if di < N_STREAM_OUTPUTS \<and> ni = 0 then Some ''Audio Output'' else None)
      else if dt = AEM_DESC_AVB_INTERFACE then (if di = 0 \<and> ni = 0 then Some ''Ethernet'' else None)
      else if dt = AEM_DESC_CLOCK_SOURCE then
        (if di < N_CLOCK_SOURCES \<and> ni = 0 then Some (if di = 0 then ''Internal'' else ''Media Clock'') else None)
      else if dt = AEM_DESC_CLOCK_DOMAIN then (if di = 0 \<and> ni = 0 then Some ''Clock Domain'' else None)
      else None)"

definition aecp_get_name :: "mem \<Rightarrow> mem \<Rightarrow> u32 \<Rightarrow> avdecc_state \<times> hw \<Rightarrow> avdecc_state \<times> hw" where
  "aecp_get_name frame pdu pdu_len = (\<lambda>(s, h).
     if pdu_len < 32 then (s, h)
     else
       let dt = get_be16 pdu 24;
           di = get_be16 pdu 26;
           ni = get_be16 pdu 28;
           ci = get_be16 pdu 30;
           (st, name) = (case object_name dt di ni of
                           Some n \<Rightarrow> (AECP_STATUS_SUCCESS, n)
                         | None \<Rightarrow> (AECP_STATUS_NO_SUCH_DESCRIPTOR, []))
       in aecp_respond frame pdu
            [(24, put_be16 dt), (26, put_be16 di), (28, put_be16 ni), (30, put_be16 ci), (32, write_name64 (ascii name))]
            st 84 110 (s, h))"

text \<open>An unknown command is echoed as far as its length field says, up to 500 bytes.\<close>

definition aecp_unknown :: "mem \<Rightarrow> mem \<Rightarrow> avdecc_state \<times> hw \<Rightarrow> avdecc_state \<times> hw" where
  "aecp_unknown frame pdu = (\<lambda>(s, h).
     let orig_cdl = get_be16 pdu 2 AND 0x7FF;
         copy0 = 12 + ucast orig_cdl :: u32;
         copy_len = (if copy0 > 500 then 500 else copy0);
         flen = (if 14 + copy_len < 64 then 64 else 14 + copy_len)
     in aecp_transmit ([(0, bytes frame 6 6), (6, v_src_mac s), (12, put_be16 AVDECC_ETHERTYPE)]
          @ at_pdu [(0, bytes pdu 0 (unat copy_len)), (0, [AVTP_SUBTYPE_AECP]), (1, [AECP_MSG_AEM_RESPONSE]),
                    (2, status_cdl AECP_STATUS_NOT_IMPLEMENTED orig_cdl)]) flen (s, h))"

section \<open>Milan vendor-unique commands\<close>

definition mvu_handle :: "mem \<Rightarrow> mem \<Rightarrow> u32 \<Rightarrow> avdecc_state \<times> hw \<Rightarrow> avdecc_state \<times> hw" where
  "mvu_handle frame pdu pdu_len = (\<lambda>(s0, h).
     if pdu_len < 30 then (s0, h)
     else if bytes pdu AECP_OFF_TARGET_ID 8 \<noteq> v_entity_id s0 then (s0, h)
     else if bytes pdu 22 6 \<noteq> MVU_PROTOCOL_ID then (s0, h)
     else
       let s = s0\<lparr>v_aecp_rx_count := v_aecp_rx_count s0 + 1\<rparr>;
           cmd_type = get_be16 pdu 28 AND 0x7FFF;
           pre = [(0, bytes frame 6 6), (6, v_src_mac s), (12, put_be16 AVDECC_ETHERTYPE)]
                 @ at_pdu [(0, bytes pdu 0 30), (1, [AECP_MSG_VENDOR_UNIQUE_RESPONSE]), (28, put_be16 cmd_type)]
       in if cmd_type = MVU_CMD_GET_MILAN_INFO then
            aecp_transmit (pre @ at_pdu [(30, put_be16 0), (32, put_be32 1), (36, put_be32 0), (40, put_be32 0x01020000),
                                         (2, status_cdl AECP_STATUS_SUCCESS 32)]) 64 (s, h)
          else if cmd_type = MVU_CMD_GET_STREAM_INPUT_INFO_EX then
            if pdu_len < 34 then (s, tx_store TxAvdecc (mputs (tx_buf TxAvdecc h) pre) h)
            else
              let dt = get_be16 pdu 30;
                  di = get_be16 pdu 32;
                  (talker_id, talker_uid, probing) =
                    (if dt = AEM_DESC_STREAM_INPUT \<and> di < AVDECC_MAX_LISTENERS then
                       let l = v_listeners s ! unat di
                       in if vl_connected l \<noteq> 0 then (vl_talker_id l, vl_talker_uid l, 3) else (zeros 8, 0, 0)
                     else (zeros 8, 0, 0)) :: u8 list \<times> u16 \<times> u8
              in aecp_transmit (pre @ at_pdu [(30, put_be16 0), (32, put_be16 dt), (34, put_be16 di), (36, talker_id),
                     (44, put_be16 talker_uid), (46, [push_bit 5 (probing AND 0x07) OR (0 AND 0x1F)]), (47, [0]),
                     (2, status_cdl AECP_STATUS_SUCCESS 36)]) 64 (s, h)
          else
            let orig_cdl = get_be16 pdu 2 AND 0x7FF;
                len0 = 12 + ucast orig_cdl :: u32;
                len1 = (if len0 > 500 then 500 else len0);
                aecpdu_len = (if len1 > pdu_len then pdu_len else len1);
                flen = (if 14 + aecpdu_len < 64 then 64 else 14 + aecpdu_len)
            in aecp_transmit (pre @ at_pdu [(0, bytes pdu 0 (unat aecpdu_len)), (1, [AECP_MSG_VENDOR_UNIQUE_RESPONSE]),
                   (2, status_cdl AECP_STATUS_NOT_IMPLEMENTED orig_cdl)]) flen (s, h))"

section \<open>Dispatch\<close>

definition aecp_handle ::
  "'e avdecc_callbacks \<Rightarrow> gptp_t option \<Rightarrow> srp_state option \<Rightarrow> mem \<Rightarrow> mem \<Rightarrow> u32 \<Rightarrow> 'e vworld \<Rightarrow> 'e vworld" where
  "aecp_handle cbs g_gptp g_srp frame pdu pdu_len = (\<lambda>(s0, h, e).
     let msg_type = pdu 1 AND 0x0F
     in if msg_type = AECP_MSG_VENDOR_UNIQUE_COMMAND then lift_w (mvu_handle frame pdu pdu_len) (s0, h, e)
        else if msg_type \<noteq> AECP_MSG_AEM_COMMAND then (s0, h, e)
        else if bytes pdu AECP_OFF_TARGET_ID 8 \<noteq> v_entity_id s0 then (s0, h, e)
        else
          let w = (s0\<lparr>v_aecp_rx_count := v_aecp_rx_count s0 + 1\<rparr>, h, e);
              cmd_type = get_be16 pdu AECP_OFF_CMD_TYPE AND 0x7FFF
          in if cmd_type = AEM_CMD_READ_DESCRIPTOR then lift_w (aecp_read_descriptor g_gptp frame pdu pdu_len) w
             else if cmd_type = AEM_CMD_ACQUIRE_ENTITY \<or> cmd_type = AEM_CMD_LOCK_ENTITY
             then lift_w (aecp_acquire_lock cmd_type frame pdu pdu_len) w
             else if cmd_type = AEM_CMD_GET_STREAM_FORMAT then lift_w (aecp_get_stream_format frame pdu pdu_len) w
             else if cmd_type = AEM_CMD_SET_STREAM_FORMAT then lift_w (aecp_set_stream_format frame pdu pdu_len) w
             else if cmd_type = AEM_CMD_GET_CLOCK_SOURCE then lift_w (aecp_get_clock_source frame pdu pdu_len) w
             else if cmd_type = AEM_CMD_GET_AS_PATH then lift_w (aecp_get_as_path g_gptp frame pdu pdu_len) w
             else if cmd_type = AEM_CMD_GET_AVB_INFO then lift_w (aecp_get_avb_info g_gptp g_srp frame pdu pdu_len) w
             else if cmd_type = AEM_CMD_GET_COUNTERS then lift_w (aecp_get_counters frame pdu pdu_len) w
             else if cmd_type = AEM_CMD_GET_AUDIO_MAP then lift_w (aecp_get_audio_map frame pdu pdu_len) w
             else if cmd_type = AEM_CMD_REGISTER_UNSOLICITED \<or> cmd_type = AEM_CMD_DEREGISTER_UNSOLICITED
             then lift_w (aecp_register_unsolicited cmd_type frame pdu) w
             else if cmd_type = AEM_CMD_GET_MAX_TRANSIT_TIME then lift_w (aecp_get_max_transit_time frame pdu pdu_len) w
             else if cmd_type = AEM_CMD_GET_STREAM_INFO then lift_w (aecp_get_stream_info frame pdu pdu_len) w
             else if cmd_type = AEM_CMD_SET_CLOCK_SOURCE then aecp_set_clock_source cbs frame pdu pdu_len w
             else if cmd_type = AEM_CMD_GET_NAME then lift_w (aecp_get_name frame pdu pdu_len) w
             else lift_w (aecp_unknown frame pdu) w)"

definition avdecc_process_rx ::
  "'e avdecc_callbacks \<Rightarrow> gptp_t option \<Rightarrow> srp_state option \<Rightarrow> mem \<Rightarrow> u32 \<Rightarrow> 'e vworld \<Rightarrow> 'e vworld" where
  "avdecc_process_rx cbs g_gptp g_srp frame len w =
     (if len < 14 + 4 then w
      else
        let pdu = (\<lambda>i. frame (14 + i));
            subtype = pdu 0
        in if subtype = AVTP_SUBTYPE_ADP then w
           else if subtype = AVTP_SUBTYPE_ACMP then acmp_process_rx cbs frame len w
           else if subtype = AVTP_SUBTYPE_AECP then aecp_handle cbs g_gptp g_srp frame pdu (len - 14) w
           else w)"

end
