(* ===== verification/AecpProps.thy ===== *)
theory AecpProps
  imports AcmpProps Aecp
begin

text \<open>
  Properties of AVDECC enumeration and control: the counters invariant over every kind of
  AVDECC frame, the agreement of solicited and unsolicited stream information, and the table
  of registered controllers as a finite map.
\<close>


section \<open>What the AECP handlers may change\<close>

definition aecp_only :: "avdecc_state \<Rightarrow> avdecc_state \<Rightarrow> bool" where
  "aecp_only s s' \<longleftrightarrow> (\<exists>n m u c. s' = s\<lparr>v_aecp_rx_count := n, v_aecp_tx_count := m, v_unsol_ctrl := u,
      v_current_clock_source := c\<rparr> \<and> length u = length (v_unsol_ctrl s))"

lemma aecp_only_refl [simp]: "aecp_only s s"
  unfolding aecp_only_def
  by (intro exI [of _ "v_aecp_rx_count s"] exI [of _ "v_aecp_tx_count s"] exI [of _ "v_unsol_ctrl s"]
      exI [of _ "v_current_clock_source s"]) simp

lemma aecp_only_trans: "aecp_only s t \<Longrightarrow> aecp_only t u \<Longrightarrow> aecp_only s u"
  unfolding aecp_only_def by (elim exE conjE) (simp, blast)

lemma aecp_only_updates [simp]:
  "aecp_only s (s\<lparr>v_aecp_rx_count := n\<rparr>)" "aecp_only s (s\<lparr>v_aecp_tx_count := m\<rparr>)"
  "length u = length (v_unsol_ctrl s) \<Longrightarrow> aecp_only s (s\<lparr>v_unsol_ctrl := u\<rparr>)"
  "aecp_only s (s\<lparr>v_current_clock_source := c\<rparr>)"
proof -
  have id: "s = s\<lparr>v_aecp_rx_count := v_aecp_rx_count s, v_aecp_tx_count := v_aecp_tx_count s, v_unsol_ctrl := v_unsol_ctrl s,
      v_current_clock_source := v_current_clock_source s\<rparr>" by simp
  show "aecp_only s (s\<lparr>v_aecp_rx_count := n\<rparr>)" unfolding aecp_only_def
    by (intro exI [of _ n] exI [of _ "v_aecp_tx_count s"] exI [of _ "v_unsol_ctrl s"] exI [of _ "v_current_clock_source s"]) simp
  show "aecp_only s (s\<lparr>v_aecp_tx_count := m\<rparr>)" unfolding aecp_only_def
    by (intro exI [of _ "v_aecp_rx_count s"] exI [of _ m] exI [of _ "v_unsol_ctrl s"] exI [of _ "v_current_clock_source s"]) simp
  show "aecp_only s (s\<lparr>v_current_clock_source := c\<rparr>)" unfolding aecp_only_def
    by (intro exI [of _ "v_aecp_rx_count s"] exI [of _ "v_aecp_tx_count s"] exI [of _ "v_unsol_ctrl s"] exI [of _ c]) simp
  assume "length u = length (v_unsol_ctrl s)"
  then show "aecp_only s (s\<lparr>v_unsol_ctrl := u\<rparr>)" unfolding aecp_only_def
    by (intro exI [of _ "v_aecp_rx_count s"] exI [of _ "v_aecp_tx_count s"] exI [of _ u] exI [of _ "v_current_clock_source s"]) simp
qed

lemma aecp_only_ok: "aecp_only s s' \<Longrightarrow> avd_ok s' = avd_ok s" "aecp_only s s' \<Longrightarrow> pending_ok s' = pending_ok s"
  by (auto simp: aecp_only_def avd_ok_def pending_ok_def)

lemma aecp_transmit_only: "aecp_only s (fst (aecp_transmit st len (s, h)))"
  by (simp add: aecp_transmit_def)

lemma aecp_respond_only: "aecp_only s (fst (aecp_respond fr pdu body st cdl len (s, h)))"
  by (simp add: aecp_respond_def aecp_transmit_only)

lemma length_unsol_register [simp]: "length (unsol_register e m cs) = length cs"
  by (simp add: unsol_register_def Let_def split: prod.split option.split)

lemma length_unsol_deregister [simp]: "length (unsol_deregister e cs) = length cs"
  by (simp add: unsol_deregister_def split: option.split)

lemma aecp_handlers_only:
  "aecp_only s (fst (aecp_read_descriptor g fr pdu len (s, h)))"
  "aecp_only s (fst (aecp_acquire_lock cmd fr pdu len (s, h)))"
  "aecp_only s (fst (aecp_get_stream_format fr pdu len (s, h)))"
  "aecp_only s (fst (aecp_set_stream_format fr pdu len (s, h)))"
  "aecp_only s (fst (aecp_get_clock_source fr pdu len (s, h)))"
  "aecp_only s (fst (aecp_get_as_path g fr pdu len (s, h)))"
  "aecp_only s (fst (aecp_get_avb_info g r fr pdu len (s, h)))"
  "aecp_only s (fst (aecp_get_counters fr pdu len (s, h)))"
  "aecp_only s (fst (aecp_get_audio_map fr pdu len (s, h)))"
  "aecp_only s (fst (aecp_get_max_transit_time fr pdu len (s, h)))"
  "aecp_only s (fst (aecp_get_stream_info fr pdu len (s, h)))"
  "aecp_only s (fst (aecp_get_name fr pdu len (s, h)))"
  "aecp_only s (fst (aecp_unknown fr pdu (s, h)))"
  unfolding aecp_read_descriptor_def aecp_acquire_lock_def aecp_get_stream_format_def aecp_set_stream_format_def
    aecp_get_clock_source_def aecp_get_as_path_def aecp_get_avb_info_def aecp_get_counters_def aecp_get_audio_map_def
    aecp_get_max_transit_time_def aecp_get_stream_info_def aecp_get_name_def aecp_unknown_def prod.case Let_def
  by (simp_all add: aecp_respond_only aecp_transmit_only split: option.split prod.split if_split)

lemma aecp_register_only: "aecp_only s (fst (aecp_register_unsolicited cmd fr pdu (s, h)))"
proof -
  let ?u = "if cmd = AEM_CMD_REGISTER_UNSOLICITED
       then unsol_register (bytes pdu AECP_OFF_CONTROLLER_ID 8) (bytes fr 6 6) (v_unsol_ctrl s)
       else unsol_deregister (bytes pdu AECP_OFF_CONTROLLER_ID 8) (v_unsol_ctrl s)"
  have "aecp_only s (s\<lparr>v_unsol_ctrl := ?u\<rparr>)" by simp
  then show ?thesis
    using aecp_only_trans [OF _ aecp_respond_only] unfolding aecp_register_unsolicited_def prod.case Let_def by blast
qed

lemma mvu_only: "aecp_only s (fst (mvu_handle fr pdu len (s, h)))"
proof -
  let ?s = "s\<lparr>v_aecp_rx_count := v_aecp_rx_count s + 1\<rparr>"
  have "aecp_only s (fst (aecp_transmit st n (?s, h)))" for st n
    by (rule aecp_only_trans [OF _ aecp_transmit_only]) simp
  then show ?thesis
    unfolding mvu_handle_def prod.case Let_def by (simp split: prod.split if_split)
qed

lemma lift_w_only: "(\<And>s h. aecp_only s (fst (f (s, h)))) \<Longrightarrow> aecp_only (fst w) (fst (lift_w f w))"
  by (cases w) (auto simp: lift_w_def split: prod.split, metis fst_conv)

lemma avd_ok_if: "avd_ok (fst a) \<Longrightarrow> avd_ok (fst b) \<Longrightarrow> avd_ok (fst (if c then a else b))"
  by simp

lemma set_clock_source_ok:
  fixes w :: "'e vworld"
  assumes cb: "cbs_ok cbs" and w: "avd_ok (fst w)"
  shows "avd_ok (fst (aecp_set_clock_source cbs fr pdu len w))"
proof -
  obtain s h e where w3: "w = (s, h, e)" by (cases w)
  have resp: "avd_ok (fst (lift_w (\<lambda>(s, h). aecp_respond fr pdu (body s) st cdl n (s, h)) v))"
    if "avd_ok (fst v)" for body st cdl n and v :: "'e vworld"
    using aecp_only_ok(1) [OF lift_w_only, of "\<lambda>(s, h). aecp_respond fr pdu (body s) st cdl n (s, h)" v] that
    by (simp add: aecp_respond_only)
  let ?bad = "get_be16 pdu 24 \<noteq> AEM_DESC_CLOCK_DOMAIN \<or> get_be16 pdu 26 \<noteq> 0"
  let ?v = "(s\<lparr>v_current_clock_source := get_be16 pdu 28\<rparr>, h, e)"
  have v: "avd_ok (fst ?v)" using w [unfolded w3] aecp_only_ok(1) [OF aecp_only_updates(4)] by simp
  consider "len < 32" | "\<not> len < 32" ?bad | "\<not> len < 32" "\<not> ?bad" "get_be16 pdu 28 \<ge> N_CLOCK_SOURCES"
    | "\<not> len < 32" "\<not> ?bad" "\<not> get_be16 pdu 28 \<ge> N_CLOCK_SOURCES" by blast
  then show ?thesis
  proof cases
    case 1
    then show ?thesis using w by (simp add: aecp_set_clock_source_def w3)
  next
    case 2
    show ?thesis
      unfolding w3 aecp_set_clock_source_def Let_def prod.case if_not_P [OF 2(1)] if_P [OF 2(2)] by (rule resp [OF w [unfolded w3]])
  next
    case 3
    show ?thesis
      unfolding w3 aecp_set_clock_source_def Let_def prod.case if_not_P [OF 3(1)] if_not_P [OF 3(2)] if_P [OF 3(3)]
      by (rule resp [OF w [unfolded w3]])
  next
    case 4
    show ?thesis
      unfolding w3 aecp_set_clock_source_def Let_def prod.case if_not_P [OF 4(1)] if_not_P [OF 4(2)] if_not_P [OF 4(3)]
      by (rule resp) (rule cb_ok(5) [OF cb], use v in simp)
  qed
qed

lemma aecp_handle_ok:
  assumes cb: "cbs_ok cbs" and ok: "avd_ok s"
  shows "avd_ok (fst (aecp_handle cbs g r fr pdu len (s, h, e)))"
proof -
  let ?w = "(s\<lparr>v_aecp_rx_count := v_aecp_rx_count s + 1\<rparr>, h, e)"
  have w: "avd_ok (fst ?w)" using ok aecp_only_ok(1) [of s "fst ?w"] by simp
  have lw: "avd_ok (fst (lift_w f ?w))" if "\<And>s h. aecp_only s (fst (f (s, h)))" for f
    using aecp_only_ok(1) [OF lift_w_only [OF that]] w by blast
  have mvu: "avd_ok (fst (lift_w (mvu_handle fr pdu len) (s, h, e)))"
    using aecp_only_ok(1) [OF lift_w_only [of "mvu_handle fr pdu len" "(s, h, e)", OF mvu_only]] ok by simp
  have src: "avd_ok (fst (aecp_set_clock_source cbs fr pdu len ?w))" by (rule set_clock_source_ok [OF cb w])
  have eq: "avd_ok (fst (s, h, e))" using ok by simp
  show ?thesis
    unfolding aecp_handle_def prod.case Let_def
    by (intro avd_ok_if w mvu src eq lw [OF aecp_handlers_only(1)] lw [OF aecp_handlers_only(2)] lw [OF aecp_handlers_only(3)]
      lw [OF aecp_handlers_only(4)] lw [OF aecp_handlers_only(5)] lw [OF aecp_handlers_only(6)] lw [OF aecp_handlers_only(7)]
      lw [OF aecp_handlers_only(8)] lw [OF aecp_handlers_only(9)] lw [OF aecp_handlers_only(10)]
      lw [OF aecp_handlers_only(11)] lw [OF aecp_handlers_only(12)] lw [OF aecp_handlers_only(13)] lw [OF aecp_register_only])
qed

lemma avdecc_process_rx_ok:
  assumes "cbs_ok cbs" and "avd_ok (fst w)"
  shows "avd_ok (fst (avdecc_process_rx cbs g r fr len w))"
proof -
  obtain s h e where w: "w = (s, h, e)" by (cases w)
  have "avd_ok (fst (aecp_handle cbs g r fr pdu n w))" for pdu n
    using aecp_handle_ok [OF assms(1)] assms(2) by (simp add: w)
  then show ?thesis
    unfolding avdecc_process_rx_def Let_def using acmp_process_rx_ok [OF assms] assms(2) by simp
qed

section \<open>Reachable connection states\<close>

text \<open>
  What can happen to the AVDECC state: an AVDECC frame of any content, a lock report from the
  data path, a counted frame, the watchdog, a poll; in between, the rest of the firmware does
  as it likes with the hardware and its own state.
\<close>

inductive avd_step :: "'e avdecc_callbacks \<Rightarrow> 'e vworld \<Rightarrow> 'e vworld \<Rightarrow> bool" for cbs where
  frame: "avd_step cbs w (avdecc_process_rx cbs g_gptp g_srp fr len w)"
| lock: "locked = 0 \<or> locked = 1 \<Longrightarrow> avd_step cbs w (lift_w (avdecc_listener_lock_changed uid locked) w)"
| count: "avd_step cbs (s, h, e) (avdecc_listener_frame_rx uid s, h, e)"
| watchdog: "avd_step cbs w (lift_w (avdecc_crf_flow_watchdog uid rx now) w)"
| poll: "avd_step cbs w (lift_w (avdecc_poll g m) w)"
| rest: "avd_step cbs (s, h, e) (s, h', e')"

inductive_cases avd_stepE: "avd_step cbs w w'"

lemma avd_step_ok:
  assumes "avd_step cbs w w'" and "cbs_ok cbs" and "avd_ok (fst w)"
  shows "avd_ok (fst w')"
  using assms(1)
proof (cases rule: avd_step.cases)
  case (frame g r fr len)
  show ?thesis unfolding frame by (rule avdecc_process_rx_ok [OF assms(2,3)])
next
  case (lock locked uid)
  have b: "locked \<in> {0, 1}" using lock(2) by auto
  show ?thesis unfolding lock(1) by (rule lift_w_ok [OF _ assms(3)]) (rule lock_changed_ok [OF _ b])
next
  case (count s h e uid)
  then show ?thesis using assms(3) by (simp add: frame_rx_ok)
next
  case (watchdog uid rx now)
  show ?thesis unfolding watchdog by (rule lift_w_ok [OF _ assms(3)]) (rule watchdog_ok)
next
  case (poll g m)
  show ?thesis unfolding poll by (rule lift_w_ok [OF _ assms(3)]) (rule avd_poll_ok)
next
  case (rest s h e h' e')
  then show ?thesis using assms(3) by simp
qed

lemma avd_steps_ok:
  assumes "(avd_step cbs)\<^sup>*\<^sup>* w w'" and "cbs_ok cbs" and "avd_ok (fst w)"
  shows "avd_ok (fst w')"
  using assms by (induction rule: rtranclp_induct) (auto intro: avd_step_ok)

text \<open>
  C24.  The stream-input counters stay Milan-conformant.  From power-on, through any sequence
  of AVDECC frames, lock reports, watchdog calls and polls, for each stream input MEDIA_LOCKED
  minus MEDIA_UNLOCKED is 0 or 1 and is exactly the last lock state reported, so no transition
  is ever counted twice; and a pending slow-path request always names its own listener, so
  the response handler stays inside its arrays.
\<close>

theorem avdecc_counters_invariant:
  assumes run: "(avd_step cbs)\<^sup>*\<^sup>* (fst (avdecc_init mac h0), h, e) (s, h', e')"
    and cbs: "cbs_ok cbs" and i: "i < 2"
  shows "v_stream_media_locked s ! i - v_stream_media_unlocked s ! i = ucast (v_stream_last_locked s ! i)
    \<and> (v_stream_last_locked s ! i = 0 \<or> v_stream_last_locked s ! i = 1)
    \<and> (vr_active (v_resolves s ! i) \<noteq> 0 \<longrightarrow> unat (vr_listener_uid (v_resolves s ! i)) = i)
    \<and> length (v_listeners s) = 2 \<and> length (v_resolves s) = 2 \<and> length (v_talkers s) = 1"
proof -
  have "avd_ok s" using avd_steps_ok [OF run cbs] avdecc_init_ok by simp
  then show ?thesis using i by (auto simp: avd_ok_def less_2_cases_iff)
qed

theorem avdecc_counters_invariant_witness:
  "\<exists>s h'. (avd_step no_callbacks)\<^sup>*\<^sup>* (fst (avdecc_init [2, 0, 0, 0, 0, 1] hw0), hw0, ()) (s, h', ())
    \<and> v_stream_media_locked s ! 1 - v_stream_media_unlocked s ! 1 = ucast (v_stream_last_locked s ! 1)"
proof -
  let ?w = "(fst (avdecc_init [2, 0, 0, 0, 0, 1] hw0), hw0, ())"
  obtain s h' where w: "lift_w (avdecc_listener_lock_changed 1 1) ?w = (s, h', ())"
    by (cases "lift_w (avdecc_listener_lock_changed 1 1) ?w") auto
  have "(avd_step no_callbacks)\<^sup>*\<^sup>* ?w (s, h', ())"
    using avd_step.lock [of 1 no_callbacks ?w 1] unfolding w by auto
  then show ?thesis using avdecc_counters_invariant [OF _ no_callbacks_ok, of "[2, 0, 0, 0, 0, 1]" hw0 hw0 "()" s h' "()" 1]
    by auto
qed


section \<open>Solicited and unsolicited stream information\<close>

lemma put_be32_inject [simp]: "put_be32 a = put_be32 b \<longleftrightarrow> a = b"
proof
  assume "put_be32 a = put_be32 b"
  then have "get_be32 (mem_of (put_be32 a)) 0 = b"
    by (intro stored_be32) (simp add: stored_mem_of)
  moreover have "get_be32 (mem_of (put_be32 a)) 0 = a" by (intro stored_be32 stored_mem_of)
  ultimately show "a = b" by simp
qed simp

lemma put_be16_inject [simp]: "put_be16 a = put_be16 b \<longleftrightarrow> a = b"
proof
  assume "put_be16 a = put_be16 b"
  then have "get_be16 (mem_of (put_be16 a)) 0 = b"
    by (intro stored_be16) (simp add: stored_mem_of)
  moreover have "get_be16 (mem_of (put_be16 a)) 0 = a" by (intro stored_be16 stored_mem_of)
  ultimately show "a = b" by simp
qed simp

lemma zero_runs: "zeros 10 = [0, 0] @ zeros 8" "zeros 6 = put_be16 0 @ put_be32 0"
  by (simp_all add: zeros_def put_be16_def put_be32_def numeral_eq_Suc)

lemma be16_0: "put_be16 0 = [0, 0]"
  by (simp add: put_be16_def)

text \<open>
  C36.  GET_STREAM_INFO and the unsolicited notification describe a stream with the same bytes,
  for every stream output and every connected stream input.  For a stream input that is not
  connected they agree exactly when no latency and VLAN of an earlier connection are left in
  its entry: the response still reports them, the notification reports the defaults.
\<close>

theorem stream_info_agree:
  fixes s :: avdecc_state
  assumes "dt = AEM_DESC_STREAM_OUTPUT \<and> di < AVDECC_MAX_TALKERS \<or> dt = AEM_DESC_STREAM_INPUT \<and> di < AVDECC_MAX_LISTENERS"
  defines "l \<equiv> v_listeners s ! unat di"
  shows "stream_info_payload s dt di = Some (build_stream_info_payload s dt di)
    \<longleftrightarrow> (dt = AEM_DESC_STREAM_OUTPUT \<or> vl_connected l \<noteq> 0
         \<or> vl_msrp_accumulated_latency_ns l \<in> {0, 2000000} \<and> vl_stream_vlan_id l \<in> {0, 2})"
proof -
  have diff: "AEM_DESC_STREAM_OUTPUT \<noteq> AEM_DESC_STREAM_INPUT"
    by (simp add: AEM_DESC_STREAM_OUTPUT_def AEM_DESC_STREAM_INPUT_def)
  have crf: "(di = LISTENER_CRF_INDEX) = (di = 0)" by (simp add: LISTENER_CRF_INDEX_def)
  show ?thesis
  proof (cases "dt = AEM_DESC_STREAM_OUTPUT")
    case True
    then show ?thesis using assms(1) diff
      by (simp add: stream_info_payload_def build_stream_info_payload_def Let_def zero_runs be16_0)
  next
    case False
    then have di: "dt = AEM_DESC_STREAM_INPUT" "di < AVDECC_MAX_LISTENERS" using assms(1) by auto
    show ?thesis
    proof (cases "vl_connected l = 0")
      case True
      then show ?thesis using di diff [symmetric] unfolding l_def
        by (auto simp: stream_info_payload_def build_stream_info_payload_def Let_def zero_runs be16_0 crf)
    next
      case False
      then show ?thesis using di diff [symmetric] unfolding l_def
        by (simp add: stream_info_payload_def build_stream_info_payload_def Let_def zero_runs be16_0 crf)
    qed
  qed
qed

theorem stream_info_agree_witness:
  "stream_info_payload (avdecc_zero\<lparr>v_listeners := [listener_stream_zero\<lparr>vl_stream_vlan_id := 5\<rparr>, listener_stream_zero]\<rparr>)
     AEM_DESC_STREAM_INPUT 0
   \<noteq> Some (build_stream_info_payload (avdecc_zero\<lparr>v_listeners := [listener_stream_zero\<lparr>vl_stream_vlan_id := 5\<rparr>, listener_stream_zero]\<rparr>)
     AEM_DESC_STREAM_INPUT 0)"
  using stream_info_agree [of AEM_DESC_STREAM_INPUT 0 "avdecc_zero\<lparr>v_listeners := [listener_stream_zero\<lparr>vl_stream_vlan_id := 5\<rparr>, listener_stream_zero]\<rparr>"]
  by (simp add: AEM_DESC_STREAM_OUTPUT_def AEM_DESC_STREAM_INPUT_def AVDECC_MAX_LISTENERS_def listener_stream_zero_def)

section \<open>The table of registered controllers\<close>

text \<open>
  A bounded table of clients under keys: registering a key that is there updates it, a new key
  enters while there is room, deregistering removes it.  \<open>upd\<close> says what registration stores,
  given what was stored.
\<close>

datatype ('k, 'a) registry_op = Register 'k 'a | Deregister 'k

fun op_key :: "('k, 'a) registry_op \<Rightarrow> 'k" where
  "op_key (Register k a) = k"
| "op_key (Deregister k) = k"

fun spec_op :: "nat \<Rightarrow> ('a \<Rightarrow> 'v option \<Rightarrow> 'v) \<Rightarrow> ('k, 'a) registry_op \<Rightarrow> ('k \<Rightarrow> 'v option) \<Rightarrow> ('k \<Rightarrow> 'v option)" where
  "spec_op cap upd (Register k a) m = (if k \<in> dom m \<or> card (dom m) < cap then m(k \<mapsto> upd a (m k)) else m)"
| "spec_op cap upd (Deregister k) m = m(k := None)"

locale bounded_registry =
  fixes view :: "'t \<Rightarrow> 'k \<Rightarrow> 'v option" and inv :: "'t \<Rightarrow> bool" and cap :: nat
    and upd :: "'a \<Rightarrow> 'v option \<Rightarrow> 'v" and register :: "'k \<Rightarrow> 'a \<Rightarrow> 't \<Rightarrow> 't" and deregister :: "'k \<Rightarrow> 't \<Rightarrow> 't"
  assumes inv_register: "inv t \<Longrightarrow> inv (register k a t)" and inv_deregister: "inv t \<Longrightarrow> inv (deregister k t)"
    and view_register: "inv t \<Longrightarrow> view (register k a t) = spec_op cap upd (Register k a) (view t)"
    and view_deregister: "inv t \<Longrightarrow> view (deregister k t) = (view t)(k := None)"
begin

fun run_op :: "('k, 'a) registry_op \<Rightarrow> 't \<Rightarrow> 't" where
  "run_op (Register k a) t = register k a t"
| "run_op (Deregister k) t = deregister k t"

lemma inv_run: "inv t \<Longrightarrow> inv (fold run_op ops t)"
proof (induction ops arbitrary: t)
  case (Cons x xs)
  then show ?case by (cases x) (simp_all add: inv_register inv_deregister)
qed simp

lemma view_run: "inv t \<Longrightarrow> view (fold run_op ops t) = fold (spec_op cap upd) ops (view t)"
proof (induction ops arbitrary: t)
  case (Cons x xs)
  then show ?case by (cases x) (simp_all add: inv_register inv_deregister view_register view_deregister del: fun_upd_apply)
qed simp

text \<open>A client is untouched by what the others do.\<close>

lemma spec_other: "op_key x \<noteq> k \<Longrightarrow> spec_op cap upd x m k = m k"
  by (cases x) auto

lemma view_others:
  assumes "inv t" and "\<forall>x \<in> set ops. op_key x \<noteq> k"
  shows "view (fold run_op ops t) k = view t k"
proof -
  have "fold (spec_op cap upd) ops m k = m k" for m
    using assms(2)
  proof (induction ops arbitrary: m)
    case (Cons x xs)
    have "fold (spec_op cap upd) xs (spec_op cap upd x m) k = spec_op cap upd x m k" using Cons by auto
    then show ?case using spec_other [of x k m] Cons.prems by simp
  qed simp
  then show ?thesis using view_run [OF assms(1)] by simp
qed

end

text \<open>The firmware's table, seen as a map from controller ids to (MAC, next sequence number).\<close>

definition unsol_view :: "unsol_ctrl list \<Rightarrow> u8 list \<Rightarrow> (u8 list \<times> u16) option" where
  "unsol_view cs e = map_option (\<lambda>c. (vu_mac c, vu_unsol_seq_id c)) (find (\<lambda>c. vu_active c \<noteq> 0 \<and> vu_controller_eid c = e) cs)"

definition unsol_ok :: "unsol_ctrl list \<Rightarrow> bool" where
  "unsol_ok cs \<longleftrightarrow> length cs = AVDECC_MAX_UNSOL_CTRL
     \<and> (\<forall>i < length cs. \<forall>j < length cs. vu_active (cs ! i) \<noteq> 0 \<and> vu_active (cs ! j) \<noteq> 0
          \<and> vu_controller_eid (cs ! i) = vu_controller_eid (cs ! j) \<longrightarrow> i = j)"

definition unsol_upd :: "u8 list \<Rightarrow> (u8 list \<times> u16) option \<Rightarrow> u8 list \<times> u16" where
  "unsol_upd mac old = (mac, case old of None \<Rightarrow> 0 | Some (_, q) \<Rightarrow> q)"

lemma unsol_view_at:
  assumes "unsol_ok cs" and "j < length cs" and "vu_active (cs ! j) \<noteq> 0"
  shows "unsol_view cs (vu_controller_eid (cs ! j)) = Some (vu_mac (cs ! j), vu_unsol_seq_id (cs ! j))"
proof -
  let ?P = "\<lambda>c. vu_active c \<noteq> 0 \<and> vu_controller_eid c = vu_controller_eid (cs ! j)"
  have first: "\<not> ?P (cs ! i)" if "i < j" for i
  proof
    assume "?P (cs ! i)"
    then have "i = j" using assms that unfolding unsol_ok_def by (metis less_trans)
    then show False using that by simp
  qed
  have "find ?P cs = Some (cs ! j)"
    unfolding find_Some_iff using assms(2,3) first by (intro exI [of _ j]) simp
  then show ?thesis by (simp add: unsol_view_def)
qed

lemma unsol_view_none:
  "unsol_view cs e = None \<longleftrightarrow> (\<forall>j < length cs. vu_active (cs ! j) \<noteq> 0 \<longrightarrow> vu_controller_eid (cs ! j) \<noteq> e)"
  by (auto simp: unsol_view_def find_None_iff in_set_conv_nth)

lemma unsol_view_eqI:
  assumes ok: "unsol_ok cs"
    and some: "\<And>j. j < length cs \<Longrightarrow> vu_active (cs ! j) \<noteq> 0 \<Longrightarrow> m (vu_controller_eid (cs ! j)) = Some (vu_mac (cs ! j), vu_unsol_seq_id (cs ! j))"
    and none: "\<And>e. \<forall>j < length cs. vu_active (cs ! j) \<noteq> 0 \<longrightarrow> vu_controller_eid (cs ! j) \<noteq> e \<Longrightarrow> m e = None"
  shows "unsol_view cs = m"
proof
  fix e
  show "unsol_view cs e = m e"
  proof (cases "unsol_view cs e")
    case None
    then show ?thesis using none [of e] by (auto simp: unsol_view_none)
  next
    case (Some v)
    then obtain j where "j < length cs" "vu_active (cs ! j) \<noteq> 0" "vu_controller_eid (cs ! j) = e"
      using unsol_view_none [of cs e] by auto
    then show ?thesis using some [of j] unsol_view_at [OF ok, of j] by auto
  qed
qed

lemma unsol_dom: "dom (unsol_view cs) = {vu_controller_eid (cs ! j) | j. j < length cs \<and> vu_active (cs ! j) \<noteq> 0}"
proof (rule set_eqI)
  fix e
  have "e \<in> dom (unsol_view cs) \<longleftrightarrow> unsol_view cs e \<noteq> None" by (simp add: domIff)
  then show "e \<in> dom (unsol_view cs) \<longleftrightarrow> e \<in> {vu_controller_eid (cs ! j) | j. j < length cs \<and> vu_active (cs ! j) \<noteq> 0}"
    unfolding unsol_view_none by auto
qed

lemma unsol_card: "unsol_ok cs \<Longrightarrow> card (dom (unsol_view cs)) = card {j. j < length cs \<and> vu_active (cs ! j) \<noteq> 0}"
proof -
  assume ok: "unsol_ok cs"
  have "dom (unsol_view cs) = (\<lambda>j. vu_controller_eid (cs ! j)) ` {j. j < length cs \<and> vu_active (cs ! j) \<noteq> 0}"
    unfolding unsol_dom by auto
  moreover have "inj_on (\<lambda>j. vu_controller_eid (cs ! j)) {j. j < length cs \<and> vu_active (cs ! j) \<noteq> 0}"
    using ok by (auto simp: inj_on_def unsol_ok_def)
  ultimately show ?thesis by (simp add: card_image)
qed

lemma unsol_full: "unsol_ok cs \<Longrightarrow> card (dom (unsol_view cs)) < AVDECC_MAX_UNSOL_CTRL \<longleftrightarrow> (\<exists>j < length cs. vu_active (cs ! j) = 0)"
proof -
  assume ok: "unsol_ok cs"
  let ?A = "{j. j < length cs \<and> vu_active (cs ! j) \<noteq> 0}"
  have len: "length cs = AVDECC_MAX_UNSOL_CTRL" using ok by (simp add: unsol_ok_def)
  have sub: "?A \<subseteq> {..<length cs}" by auto
  have "card ?A < card {..<length cs} \<longleftrightarrow> ?A \<noteq> {..<length cs}"
  proof (cases "?A = {..<length cs}")
    case False
    then have "?A \<subset> {..<length cs}" using sub by blast
    then show ?thesis using False psubset_card_mono [of "{..<length cs}" ?A] by simp
  qed simp
  also have "\<dots> \<longleftrightarrow> (\<exists>j < length cs. vu_active (cs ! j) = 0)" by auto
  finally show ?thesis by (simp add: unsol_card [OF ok] len)
qed

lemma scan_cases:
  assumes "unsol_scan e i cs f = (slot, free)" and "\<forall>k. f = Some k \<longrightarrow> k < i"
  shows "case slot of
      Some j \<Rightarrow> i \<le> j \<and> j < i + length cs \<and> vu_active (cs ! (j - i)) \<noteq> 0 \<and> vu_controller_eid (cs ! (j - i)) = e \<and> free \<noteq> Some j
    | None \<Rightarrow> (\<forall>c \<in> set cs. vu_active c \<noteq> 0 \<longrightarrow> vu_controller_eid c \<noteq> e)
        \<and> (case f of Some k \<Rightarrow> free = Some k
           | None \<Rightarrow> (case free of None \<Rightarrow> \<forall>c \<in> set cs. vu_active c \<noteq> 0
                     | Some k \<Rightarrow> i \<le> k \<and> k < i + length cs \<and> vu_active (cs ! (k - i)) = 0))"
  using assms
proof (induction e i cs f rule: unsol_scan.induct)
  case (1 eid i f)
  then show ?case by (auto split: option.splits)
next
  case (2 eid i c cs f)
  show ?case
  proof (cases "vu_active c \<noteq> 0")
    case True
    show ?thesis
    proof (cases "vu_controller_eid c = eid")
      case True
      then show ?thesis using 2(3,4) \<open>vu_active c \<noteq> 0\<close> by auto
    next
      case False
      have "unsol_scan eid (Suc i) cs f = (slot, free)" "\<forall>k. f = Some k \<longrightarrow> k < Suc i" using 2(3,4) True False by auto
      from 2(1) [OF True False this] show ?thesis using True False
        by (auto split: option.splits simp: nth_Cons' Suc_diff_Suc)
    qed
  next
    case False
    have s: "unsol_scan eid (Suc i) cs (case f of None \<Rightarrow> Some i | Some f \<Rightarrow> Some f) = (slot, free)"
      "\<forall>k. (case f of None \<Rightarrow> Some i | Some f \<Rightarrow> Some f) = Some k \<longrightarrow> k < Suc i"
      using 2(3,4) False by (auto split: option.splits)
    from 2(2) [OF False s] show ?thesis using False
      by (auto split: option.splits simp: nth_Cons' Suc_diff_Suc)
  qed
qed


lemma unsol_update_ok:
  assumes "unsol_ok cs" and "u < length cs" and "\<forall>j < length cs. j \<noteq> u \<longrightarrow> vu_active (cs ! j) \<noteq> 0 \<longrightarrow> vu_controller_eid (cs ! j) \<noteq> e"
    and "vu_controller_eid c = e"
  shows "unsol_ok (cs[u := c])"
  using assms by (auto simp: unsol_ok_def nth_list_update)

text \<open>Writing the entry of a key, or a free one for a new key, updates the map.\<close>

lemma unsol_view_write:
  assumes ok: "unsol_ok cs" and u: "u < length cs"
    and others: "\<forall>j < length cs. j \<noteq> u \<longrightarrow> vu_active (cs ! j) \<noteq> 0 \<longrightarrow> vu_controller_eid (cs ! j) \<noteq> e"
    and c: "vu_controller_eid c = e" "vu_active c \<noteq> 0" and own: "vu_active (cs ! u) \<noteq> 0 \<Longrightarrow> vu_controller_eid (cs ! u) = e"
  shows "unsol_view (cs[u := c]) = (unsol_view cs)(e \<mapsto> (vu_mac c, vu_unsol_seq_id c))"
proof (rule unsol_view_eqI [OF unsol_update_ok [OF ok u others c(1)]])
  fix i assume i: "i < length (cs[u := c])" "vu_active (cs[u := c] ! i) \<noteq> 0"
  show "((unsol_view cs)(e \<mapsto> (vu_mac c, vu_unsol_seq_id c))) (vu_controller_eid (cs[u := c] ! i))
      = Some (vu_mac (cs[u := c] ! i), vu_unsol_seq_id (cs[u := c] ! i))"
    using i others unsol_view_at [OF ok] u c by (cases "i = u") auto
next
  fix e' assume a: "\<forall>i < length (cs[u := c]). vu_active (cs[u := c] ! i) \<noteq> 0 \<longrightarrow> vu_controller_eid (cs[u := c] ! i) \<noteq> e'"
  from a u c have e': "e' \<noteq> e" by auto
  have "unsol_view cs e' = None" unfolding unsol_view_none
  proof (intro allI impI)
    fix i assume "i < length cs" "vu_active (cs ! i) \<noteq> 0"
    then show "vu_controller_eid (cs ! i) \<noteq> e'" using a [rule_format, of i] u own e' by (cases "i = u") auto
  qed
  then show "((unsol_view cs)(e \<mapsto> (vu_mac c, vu_unsol_seq_id c))) e' = None" using e' by simp
qed

lemma unsol_register_ok:
  assumes ok: "unsol_ok cs"
  shows "unsol_ok (unsol_register e m cs) \<and> unsol_view (unsol_register e m cs) = spec_op AVDECC_MAX_UNSOL_CTRL unsol_upd (Register e m) (unsol_view cs)"
proof -
  obtain slot free where sc: "unsol_scan e 0 cs None = (slot, free)" by fastforce
  note c = scan_cases [OF sc, simplified]
  show ?thesis
  proof (cases slot)
    case (Some j)
    with c have j: "j < length cs" "vu_active (cs ! j) \<noteq> 0" "vu_controller_eid (cs ! j) = e" "free \<noteq> Some j" by auto
    let ?c = "(cs ! j)\<lparr>vu_unsol_seq_id := vu_unsol_seq_id (cs ! j), vu_active := 1, vu_controller_eid := e, vu_mac := m\<rparr>"
    have r: "unsol_register e m cs = cs[j := ?c]"
      using j(4) unfolding unsol_register_def sc Some by (auto simp: Let_def)
    have others: "\<forall>i < length cs. i \<noteq> j \<longrightarrow> vu_active (cs ! i) \<noteq> 0 \<longrightarrow> vu_controller_eid (cs ! i) \<noteq> e"
      using ok j unfolding unsol_ok_def by blast
    have "unsol_view cs e = Some (vu_mac (cs ! j), vu_unsol_seq_id (cs ! j))" using unsol_view_at [OF ok j(1,2)] j(3) by simp
    then show ?thesis
      using unsol_update_ok [OF ok j(1) others, of ?c] unsol_view_write [OF ok j(1) others, of ?c] j(3)
      by (simp add: r unsol_upd_def domIff)
  next
    case None
    with c have none: "\<forall>c \<in> set cs. vu_active c \<noteq> 0 \<longrightarrow> vu_controller_eid c \<noteq> e" by auto
    then have v: "unsol_view cs e = None" by (auto simp: unsol_view_none)
    show ?thesis
    proof (cases free)
      case N: None
      with c None have "\<forall>c \<in> set cs. vu_active c \<noteq> 0" by auto
      then have "\<not> card (dom (unsol_view cs)) < AVDECC_MAX_UNSOL_CTRL" by (simp add: unsol_full [OF ok])
      then show ?thesis using ok v by (simp add: unsol_register_def sc None N domIff)
    next
      case S: (Some k)
      with c None have k: "k < length cs" "vu_active (cs ! k) = 0" by auto
      let ?c = "(cs ! k)\<lparr>vu_unsol_seq_id := 0, vu_active := 1, vu_controller_eid := e, vu_mac := m\<rparr>"
      have r: "unsol_register e m cs = cs[k := ?c]" by (simp add: unsol_register_def sc None S)
      have others: "\<forall>i < length cs. i \<noteq> k \<longrightarrow> vu_active (cs ! i) \<noteq> 0 \<longrightarrow> vu_controller_eid (cs ! i) \<noteq> e" using none by auto
      have "card (dom (unsol_view cs)) < AVDECC_MAX_UNSOL_CTRL" using k unsol_full [OF ok] by blast
      then show ?thesis
        using unsol_update_ok [OF ok k(1) others, of ?c] unsol_view_write [OF ok k(1) others, of ?c] k(2)
        by (simp add: r v unsol_upd_def)
    qed
  qed
qed

lemma unsol_deregister_ok:
  assumes ok: "unsol_ok cs"
  shows "unsol_ok (unsol_deregister e cs) \<and> unsol_view (unsol_deregister e cs) = (unsol_view cs)(e := None)"
proof -
  obtain slot free where sc: "unsol_scan e 0 cs None = (slot, free)" by fastforce
  note c = scan_cases [OF sc, simplified]
  show ?thesis
  proof (cases slot)
    case None
    with c have "\<forall>c \<in> set cs. vu_active c \<noteq> 0 \<longrightarrow> vu_controller_eid c \<noteq> e" by auto
    then have "unsol_view cs e = None" by (auto simp: unsol_view_none)
    then show ?thesis using ok by (simp add: unsol_deregister_def sc None fun_upd_idem)
  next
    case (Some j)
    with c have j: "j < length cs" "vu_active (cs ! j) \<noteq> 0" "vu_controller_eid (cs ! j) = e" by auto
    let ?c = "(cs ! j)\<lparr>vu_active := 0\<rparr>"
    have r: "unsol_deregister e cs = cs[j := ?c]" by (simp add: unsol_deregister_def sc Some)
    have others: "\<forall>i < length cs. i \<noteq> j \<longrightarrow> vu_active (cs ! i) \<noteq> 0 \<longrightarrow> vu_controller_eid (cs ! i) \<noteq> e"
      using ok j unfolding unsol_ok_def by blast
    have ok': "unsol_ok (cs[j := ?c])" by (rule unsol_update_ok [OF ok j(1) others]) (simp add: j)
    have "unsol_view (cs[j := ?c]) = (unsol_view cs)(e := None)"
    proof (rule unsol_view_eqI [OF ok'])
      fix i assume i: "i < length (cs[j := ?c])" "vu_active (cs[j := ?c] ! i) \<noteq> 0"
      then have "i \<noteq> j" using j by auto
      then show "((unsol_view cs)(e := None)) (vu_controller_eid (cs[j := ?c] ! i))
          = Some (vu_mac (cs[j := ?c] ! i), vu_unsol_seq_id (cs[j := ?c] ! i))"
        using i others unsol_view_at [OF ok] by auto
    next
      fix e' assume a: "\<forall>i < length (cs[j := ?c]). vu_active (cs[j := ?c] ! i) \<noteq> 0 \<longrightarrow> vu_controller_eid (cs[j := ?c] ! i) \<noteq> e'"
      show "((unsol_view cs)(e := None)) e' = None"
      proof (cases "e' = e")
        case False
        have "unsol_view cs e' = None" unfolding unsol_view_none
        proof (intro allI impI)
          fix i assume "i < length cs" "vu_active (cs ! i) \<noteq> 0"
          then show "vu_controller_eid (cs ! i) \<noteq> e'" using a [rule_format, of i] j False by (cases "i = j") auto
        qed
        then show ?thesis by simp
      qed simp
    qed
    then show ?thesis using ok' by (simp add: r)
  qed
qed

interpretation unsol: bounded_registry unsol_view unsol_ok AVDECC_MAX_UNSOL_CTRL unsol_upd unsol_register unsol_deregister
  by unfold_locales (simp_all add: unsol_register_ok unsol_deregister_ok del: spec_op.simps)

subsection \<open>Notifications reach every registered controller\<close>

definition next_seq :: "unsol_ctrl \<Rightarrow> unsol_ctrl" where
  "next_seq c = (if vu_active c = 0 then c else c\<lparr>vu_unsol_seq_id := vu_unsol_seq_id c + 1\<rparr>)"

definition push_entry :: "(avdecc_state \<Rightarrow> unsol_ctrl \<Rightarrow> u8 list) \<Rightarrow> nat \<Rightarrow> avdecc_state \<times> hw \<Rightarrow> avdecc_state \<times> hw" where
  "push_entry frame = (\<lambda>i (s, h).
     let c = v_unsol_ctrl s ! i
     in if vu_active c = 0 then (s, h)
        else (s\<lparr>v_unsol_ctrl := (v_unsol_ctrl s)[i := next_seq c], v_aecp_tx_count := v_aecp_tx_count s + 1\<rparr>,
              avdecc_send (frame s c) h))"

lemma push_unsol_fold: "push_unsol frame = fold (push_entry frame) [0..<AVDECC_MAX_UNSOL_CTRL]"
  by (simp add: push_unsol_def push_entry_def next_seq_def Let_def cong: if_cong)

lemma push_entry_split:
  assumes "length xs = i" and "\<And>us n c. frame (s\<lparr>v_unsol_ctrl := us, v_aecp_tx_count := n\<rparr>) c = frame s c"
    and "length (frame s c) \<le> 1000"
  shows "\<exists>n' h'. push_entry frame i (s\<lparr>v_unsol_ctrl := xs @ c # ys, v_aecp_tx_count := n\<rparr>, h)
      = (s\<lparr>v_unsol_ctrl := xs @ next_seq c # ys, v_aecp_tx_count := n'\<rparr>, h')
    \<and> hw_sent h' = hw_sent h @ (if vu_active c = 0 then [] else [frame s c])"
proof (cases "vu_active c = 0")
  case True
  then show ?thesis using assms(1) by (auto simp: push_entry_def next_seq_def nth_append)
next
  case False
  have "push_entry frame i (s\<lparr>v_unsol_ctrl := xs @ c # ys, v_aecp_tx_count := n\<rparr>, h)
      = (s\<lparr>v_unsol_ctrl := xs @ next_seq c # ys, v_aecp_tx_count := n + 1\<rparr>, avdecc_send (frame s c) h)"
    using False assms(1) by (simp add: push_entry_def assms(2) nth_append list_update_append)
  then show ?thesis using False avdecc_send_sent [OF assms(3), of h] by (simp only: if_False) blast
qed

lemma push_entries:
  assumes "\<And>us n c. frame (s\<lparr>v_unsol_ctrl := us, v_aecp_tx_count := n\<rparr>) c = frame s c"
    and "\<And>c. c \<in> set ys \<Longrightarrow> length (frame s c) \<le> 1000"
  shows "\<exists>n' h'. fold (push_entry frame) [length xs..<length xs + length ys] (s\<lparr>v_unsol_ctrl := xs @ ys, v_aecp_tx_count := n\<rparr>, h)
      = (s\<lparr>v_unsol_ctrl := xs @ map next_seq ys, v_aecp_tx_count := n'\<rparr>, h')
    \<and> hw_sent h' = hw_sent h @ map (frame s) (filter (\<lambda>c. vu_active c \<noteq> 0) ys)"
  using assms(2)
proof (induction ys arbitrary: xs n h)
  case Nil
  then show ?case by auto
next
  case (Cons y ys)
  have len: "length (frame s y) \<le> 1000" using Cons.prems by simp
  obtain n1 h1 where one: "push_entry frame (length xs) (s\<lparr>v_unsol_ctrl := xs @ y # ys, v_aecp_tx_count := n\<rparr>, h)
      = (s\<lparr>v_unsol_ctrl := xs @ next_seq y # ys, v_aecp_tx_count := n1\<rparr>, h1)"
    and h1: "hw_sent h1 = hw_sent h @ (if vu_active y = 0 then [] else [frame s y])"
    using push_entry_split [where frame = frame and s = s and c = y and xs = xs and ys = ys and n = n and h = h, OF refl assms(1) len] by blast
  obtain n2 h2 where rest: "fold (push_entry frame) [length (xs @ [next_seq y])..<length (xs @ [next_seq y]) + length ys]
      (s\<lparr>v_unsol_ctrl := (xs @ [next_seq y]) @ ys, v_aecp_tx_count := n1\<rparr>, h1)
      = (s\<lparr>v_unsol_ctrl := (xs @ [next_seq y]) @ map next_seq ys, v_aecp_tx_count := n2\<rparr>, h2)"
    and h2: "hw_sent h2 = hw_sent h1 @ map (frame s) (filter (\<lambda>c. vu_active c \<noteq> 0) ys)"
    using Cons.IH [of "xs @ [next_seq y]" n1 h1] Cons.prems by (meson list.set_intros(2))
  have "[length xs..<length xs + length (y # ys)] = length xs # [length (xs @ [next_seq y])..<length (xs @ [next_seq y]) + length ys]"
    by (simp add: upt_rec)
  then have "fold (push_entry frame) [length xs..<length xs + length (y # ys)] (s\<lparr>v_unsol_ctrl := xs @ y # ys, v_aecp_tx_count := n\<rparr>, h)
      = (s\<lparr>v_unsol_ctrl := xs @ map next_seq (y # ys), v_aecp_tx_count := n2\<rparr>, h2)"
    using one rest by simp
  moreover have "hw_sent h2 = hw_sent h @ map (frame s) (filter (\<lambda>c. vu_active c \<noteq> 0) (y # ys))" using h1 h2 by simp
  ultimately show ?case by blast
qed

lemma push_unsol_all:
  assumes "\<And>us n c. frame (s\<lparr>v_unsol_ctrl := us, v_aecp_tx_count := n\<rparr>) c = frame s c"
    and "\<And>c. c \<in> set (v_unsol_ctrl s) \<Longrightarrow> length (frame s c) \<le> 1000" and "length (v_unsol_ctrl s) = AVDECC_MAX_UNSOL_CTRL"
  shows "v_unsol_ctrl (fst (push_unsol frame (s, h))) = map next_seq (v_unsol_ctrl s)
    \<and> hw_sent (snd (push_unsol frame (s, h))) = hw_sent h @ map (frame s) (filter (\<lambda>c. vu_active c \<noteq> 0) (v_unsol_ctrl s))"
  using push_entries [of frame s "v_unsol_ctrl s" "[]" "v_aecp_tx_count s" h, OF assms(1,2)] assms(3)
  by (auto simp: push_unsol_fold)

lemma unsol_view_pushed:
  "unsol_view (map next_seq cs) = (\<lambda>e. map_option (\<lambda>(m, q). (m, q + 1)) (unsol_view cs e))"
  by (induction cs) (auto simp: unsol_view_def next_seq_def fun_eq_iff)

text \<open>What a registration command asks of the table.\<close>

definition registration :: "u16 \<times> mem \<times> mem \<Rightarrow> (u8 list, u8 list) registry_op" where
  "registration = (\<lambda>(cmd, frame, pdu).
     if cmd = AEM_CMD_REGISTER_UNSOLICITED then Register (bytes pdu AECP_OFF_CONTROLLER_ID 8) (bytes frame 6 6)
     else Deregister (bytes pdu AECP_OFF_CONTROLLER_ID 8))"

definition counters_frame :: "u16 \<Rightarrow> avdecc_state \<Rightarrow> unsol_ctrl \<Rightarrow> u8 list" where
  "counters_frame uid s c = unsol_header s c 148 AEM_CMD_GET_COUNTERS
     @ put_be16 AEM_DESC_STREAM_INPUT @ put_be16 uid @ put_be32 0xFFF
     @ concat (map put_be32 ((replicate 32 0)[0 := v_stream_media_locked s ! unat uid,
         1 := v_stream_media_unlocked s ! unat uid, 11 := v_stream_frames_rx s ! unat uid]))"

lemma registration_run:
  "v_unsol_ctrl (fst (fold (\<lambda>(cmd, frame, pdu). aecp_register_unsolicited cmd frame pdu) cmds (s, h)))
     = fold unsol.run_op (map registration cmds) (v_unsol_ctrl s)"
proof (induction cmds arbitrary: s h)
  case (Cons x xs)
  obtain cmd frame pdu where x: "x = (cmd, frame, pdu)" by (cases x)
  obtain s' h' where e: "aecp_register_unsolicited cmd frame pdu (s, h) = (s', h')" by fastforce
  have "v_unsol_ctrl s' = unsol.run_op (registration x) (v_unsol_ctrl s)"
    using e by (auto simp: aecp_register_unsolicited_def aecp_respond_def aecp_transmit_def registration_def x Let_def)
  then show ?case using Cons.IH [of s' h'] e by (simp add: x)
qed simp

text \<open>
  C13.  The table of controllers registered for unsolicited notifications, sixteen slots of
  memory scanned linearly, implements a bounded map from controller ids to (MAC address, next
  sequence number).  Any series of REGISTER and DEREGISTER commands acts on the map as
  specified: a new controller enters with number 0 if there is room, a known one keeps its
  number and gets its new address, a removed one is gone.  A notification sends one frame to
  each controller in the map, carrying its number, and increments exactly those numbers.
\<close>

theorem unsol_table_refines:
  assumes "unsol_ok (v_unsol_ctrl s)" and "uid < 2"
    and "length (v_src_mac s) = 6" and "length (v_entity_id s) = 8"
    and "\<forall>c \<in> set (v_unsol_ctrl s). length (vu_mac c) = 6 \<and> length (vu_controller_eid c) = 8"
  shows "unsol_view (v_unsol_ctrl (fst (fold (\<lambda>(cmd, frame, pdu). aecp_register_unsolicited cmd frame pdu) cmds (s, h))))
      = fold (spec_op AVDECC_MAX_UNSOL_CTRL unsol_upd) (map registration cmds) (unsol_view (v_unsol_ctrl s))
    \<and> unsol_view (v_unsol_ctrl (fst (push_unsol_stream_counters uid (s, h))))
      = (\<lambda>e. map_option (\<lambda>(m, q). (m, q + 1)) (unsol_view (v_unsol_ctrl s) e))
    \<and> hw_sent (snd (push_unsol_stream_counters uid (s, h)))
      = hw_sent h @ map (counters_frame uid s) (filter (\<lambda>c. vu_active c \<noteq> 0) (v_unsol_ctrl s))"
proof -
  let ?f = "(\<lambda>t c. unsol_header t c 148 AEM_CMD_GET_COUNTERS @ put_be16 AEM_DESC_STREAM_INPUT @ put_be16 uid @ put_be32 0xFFF
         @ concat (map put_be32 ((replicate 32 0)[0 := v_stream_media_locked s ! unat uid,
         1 := v_stream_media_unlocked s ! unat uid, 11 := v_stream_frames_rx s ! unat uid])))"
  have view: "unsol_view (v_unsol_ctrl (fst (fold (\<lambda>(cmd, frame, pdu). aecp_register_unsolicited cmd frame pdu) cmds (s, h))))
      = fold (spec_op AVDECC_MAX_UNSOL_CTRL unsol_upd) (map registration cmds) (unsol_view (v_unsol_ctrl s))"
    using unsol.view_run [OF assms(1)] by (simp add: registration_run)
  have e: "push_unsol_stream_counters uid (s, h) = push_unsol ?f (s, h)"
    using assms(2) by (simp add: push_unsol_stream_counters_def push_unsol_counters_def AVDECC_MAX_LISTENERS_def linorder_not_le [symmetric])
  have "length (concat (map put_be32 xs)) = 4 * length xs" for xs by (induction xs) (simp_all add: put_be32_def)
  then have l: "length (?f s c) \<le> 1000" if "c \<in> set (v_unsol_ctrl s)" for c
    using assms(3,4) assms(5) that by (simp add: unsol_header_def status_cdl_def put_be16_def put_be32_def)
  have "v_unsol_ctrl (fst (push_unsol ?f (s, h))) = map next_seq (v_unsol_ctrl s)
    \<and> hw_sent (snd (push_unsol ?f (s, h))) = hw_sent h @ map (?f s) (filter (\<lambda>c. vu_active c \<noteq> 0) (v_unsol_ctrl s))"
    by (rule push_unsol_all) (use l assms(1) in \<open>simp_all add: unsol_header_def unsol_ok_def\<close>)
  moreover have "?f s = counters_frame uid s" by (simp add: fun_eq_iff counters_frame_def)
  ultimately show ?thesis using view by (simp only: e unsol_view_pushed simp_thms)
qed

theorem unsol_table_refines_witness:
  "unsol_view (v_unsol_ctrl (fst (aecp_register_unsolicited AEM_CMD_REGISTER_UNSOLICITED (\<lambda>_. 7) (\<lambda>_. 9) (avdecc_zero, hw0)))) (replicate 8 9)
     = Some (replicate 6 7, 0)"
proof -
  have "unsol_view (v_unsol_ctrl avdecc_zero) = Map.empty"
    by (auto simp: unsol_view_none avdecc_zero_def unsol_zero_def fun_eq_iff)
  moreover have "bytes (\<lambda>_. x) k n = replicate n x" for x :: u8 and k n by (rule nth_equalityI) (simp_all add: bytes_def)
  ultimately show ?thesis
    using unsol_table_refines [of avdecc_zero 0 "[(AEM_CMD_REGISTER_UNSOLICITED, \<lambda>_. 7, \<lambda>_. 9)]" hw0]
    by (simp add: registration_def unsol_upd_def unsol_ok_def avdecc_zero_def unsol_zero_def AVDECC_MAX_UNSOL_CTRL_def)
qed

end
