(* ===== verification/AemProps.thy ===== *)
theory AemProps
  imports AecpProps
begin

text \<open>
  What a controller sees of the entity (firmware/avdecc.c, \<open>aecp_handle\<close> and the descriptor
  builders): every command is answered exactly once, by a frame that repeats the command's
  header, and the answers of READ_DESCRIPTOR, GET_NAME and GET_STREAM_FORMAT agree with each
  other and with the counts of the CONFIGURATION descriptor.
\<close>

section \<open>Every command is answered\<close>

text \<open>Bytes no store touches keep their value.\<close>

lemma mputs_untouched: "\<forall>(p, bs) \<in> set ps. i < p \<or> p + length bs \<le> i \<Longrightarrow> mputs m ps i = m i"
  by (induction m ps rule: mputs.induct) (auto simp: mput_outside)

text \<open>
  \<open>answers s frame pdu r\<close>: the frame \<open>r\<close> is addressed to the sender of \<open>frame\<close>, comes from this
  board, is an AEM response, and repeats target, controller, sequence number and command of the
  command \<open>pdu\<close>.
\<close>

definition answers :: "avdecc_state \<Rightarrow> mem \<Rightarrow> mem \<Rightarrow> u8 list \<Rightarrow> bool" where
  "answers s frame pdu r \<longleftrightarrow> 42 \<le> length r
     \<and> take 16 r = bytes frame 6 6 @ v_src_mac s @ put_be16 AVDECC_ETHERTYPE @ [AVTP_SUBTYPE_AECP, AECP_MSG_AEM_RESPONSE]
     \<and> take 20 (drop 18 r) = bytes pdu 4 20"

lemma take_bytes: "k \<le> n \<Longrightarrow> take k (bytes m off n) = bytes m off k"
  by (rule nth_equalityI) auto

lemma drop_bytes: "k \<le> n \<Longrightarrow> drop k (bytes m off n) = bytes m (off + k) (n - k)"
  by (rule nth_equalityI) (auto simp: add.assoc)

lemma answers_bytes:
  assumes "42 \<le> n" and "stored m 0 (bytes frame 6 6 @ v_src_mac s @ put_be16 AVDECC_ETHERTYPE @ [AVTP_SUBTYPE_AECP, AECP_MSG_AEM_RESPONSE])"
    and "stored m 18 (bytes pdu 4 20)" and "length (v_src_mac s) = 6"
  shows "answers s frame pdu (bytes m 0 n)"
  using assms unfolding answers_def by (simp add: take_bytes drop_bytes stored_def)

lemma stored_untouched:
  "stored m p xs \<Longrightarrow> \<forall>(q, bs) \<in> set ps. p + length xs \<le> q \<or> q + length bs \<le> p \<Longrightarrow> stored (mputs m ps) p xs"
  unfolding stored_def
  by (subst bytes_cong [where m' = m]) (auto intro!: mputs_untouched)

lemma begin_response_stored:
  assumes "length mac = 6"
  shows "stored (mputs m (aecp_begin_response mac frame pdu)) 0
      (bytes frame 6 6 @ mac @ put_be16 AVDECC_ETHERTYPE @ [AVTP_SUBTYPE_AECP, AECP_MSG_AEM_RESPONSE])"
    and "stored (mputs m (aecp_begin_response mac frame pdu)) 18 (bytes pdu 4 20)"
  using assms by (simp_all add: aecp_begin_response_def stored_def [of _ _ "bytes _ _ _"] stored_def [of _ _ mac]
      stored_def [of _ _ "put_be16 _"] wire)

lemma respond_answers:
  assumes mac: "length (v_src_mac s) = 6" and body: "\<forall>(p, bs) \<in> set body. 24 \<le> p" and len: "42 \<le> len"
  shows "\<exists>a. hw_sent (snd (aecp_respond frame pdu body st cdl len (s, h))) = hw_sent h @ [a] \<and> answers s frame pdu a"
    and "v_aecp_tx_count (fst (aecp_respond frame pdu body st cdl len (s, h))) = v_aecp_tx_count s + 1"
proof -
  let ?rest = "at_pdu (body @ [(2, status_cdl st cdl)])"
  let ?m = "mputs (mputs (tx_buf TxAvdecc h) (aecp_begin_response (v_src_mac s) frame pdu)) ?rest"
  have rest: "\<forall>(q, bs) \<in> set ?rest. (16 \<le> q \<or> q + length bs \<le> 0) \<and> (38 \<le> q \<or> q + length bs \<le> 18)"
    using body by (auto simp: at_pdu_def status_cdl_def)
  have "stored ?m 0 (bytes frame 6 6 @ v_src_mac s @ put_be16 AVDECC_ETHERTYPE @ [AVTP_SUBTYPE_AECP, AECP_MSG_AEM_RESPONSE])"
    by (rule stored_untouched [OF begin_response_stored(1) [OF mac]]) (use rest mac in fastforce)
  moreover have "stored ?m 18 (bytes pdu 4 20)"
    by (rule stored_untouched [OF begin_response_stored(2) [OF mac]]) (use rest in fastforce)
  moreover have "42 \<le> unat len" using len by (simp add: word_le_nat_alt)
  ultimately have "answers s frame pdu (bytes ?m 0 (unat len))" using mac by (intro answers_bytes)
  then show "\<exists>a. hw_sent (snd (aecp_respond frame pdu body st cdl len (s, h))) = hw_sent h @ [a] \<and> answers s frame pdu a"
    by (simp add: aecp_respond_def aecp_transmit_def mputs_append)
  show "v_aecp_tx_count (fst (aecp_respond frame pdu body st cdl len (s, h))) = v_aecp_tx_count s + 1"
    by (simp add: aecp_respond_def aecp_transmit_def)
qed

text \<open>An answer was sent and counted.\<close>

definition answered :: "avdecc_state \<Rightarrow> mem \<Rightarrow> mem \<Rightarrow> avdecc_state \<times> hw \<Rightarrow> avdecc_state \<times> hw \<Rightarrow> bool" where
  "answered s frame pdu w w' \<longleftrightarrow> (\<exists>a. hw_sent (snd w') = hw_sent (snd w) @ [a] \<and> answers s frame pdu a)
     \<and> v_aecp_tx_count (fst w') = v_aecp_tx_count (fst w) + 1 \<and> v_aecp_rx_count (fst w') = v_aecp_rx_count (fst w)"

lemma respond_answered:
  assumes "v_src_mac s = mac" and "length mac = 6" and "\<forall>(p, bs) \<in> set body. 24 \<le> p" and "42 \<le> len"
    and "v_src_mac s0 = mac" and "v_aecp_tx_count s = v_aecp_tx_count s0" and "v_aecp_rx_count s = v_aecp_rx_count s0"
    and "hw_sent h = hw_sent h0"
  shows "answered s0 frame pdu (s0, h0) (aecp_respond frame pdu body st cdl len (s, h))"
  using assms respond_answers [of s body len frame pdu st cdl h]
  by (simp add: answered_def answers_def aecp_respond_def aecp_transmit_def)


lemma aecp_handlers_answer:
  assumes mac: "length (v_src_mac s) = 6"
  shows "len \<ge> 32 \<Longrightarrow> answered s fr pdu (s, h) (aecp_read_descriptor g fr pdu len (s, h))"
    and "len \<ge> 40 \<Longrightarrow> answered s fr pdu (s, h) (aecp_acquire_lock cmd fr pdu len (s, h))"
    and "len \<ge> 28 \<Longrightarrow> answered s fr pdu (s, h) (aecp_get_stream_format fr pdu len (s, h))"
    and "len \<ge> 36 \<Longrightarrow> answered s fr pdu (s, h) (aecp_set_stream_format fr pdu len (s, h))"
    and "len \<ge> 28 \<Longrightarrow> answered s fr pdu (s, h) (aecp_get_clock_source fr pdu len (s, h))"
    and "len \<ge> 26 \<Longrightarrow> answered s fr pdu (s, h) (aecp_get_as_path g fr pdu len (s, h))"
    and "len \<ge> 28 \<Longrightarrow> answered s fr pdu (s, h) (aecp_get_avb_info g r fr pdu len (s, h))"
    and "len \<ge> 28 \<Longrightarrow> answered s fr pdu (s, h) (aecp_get_counters fr pdu len (s, h))"
    and "len \<ge> 30 \<Longrightarrow> answered s fr pdu (s, h) (aecp_get_audio_map fr pdu len (s, h))"
    and "answered s fr pdu (s, h) (aecp_register_unsolicited cmd fr pdu (s, h))"
    and "len \<ge> 28 \<Longrightarrow> answered s fr pdu (s, h) (aecp_get_max_transit_time fr pdu len (s, h))"
    and "len \<ge> 28 \<Longrightarrow> answered s fr pdu (s, h) (aecp_get_stream_info fr pdu len (s, h))"
    and "len \<ge> 32 \<Longrightarrow> answered s fr pdu (s, h) (aecp_get_name fr pdu len (s, h))"
proof -
  note resp = respond_answered [OF refl mac _ _ refl refl refl refl]
  have nl: "len \<ge> k \<Longrightarrow> (len < k) = False" for k :: u32 by simp
  have w64: "64 \<le> x \<Longrightarrow> 42 \<le> x" for x :: u32 by (rule order_trans [of _ 64]) simp_all
  show "len \<ge> 32 \<Longrightarrow> answered s fr pdu (s, h) (aecp_read_descriptor g fr pdu len (s, h))"
    unfolding aecp_read_descriptor_def Let_def prod.case nl if_False
    by (auto intro!: resp simp: not_less dest: w64)
  show "len \<ge> 40 \<Longrightarrow> answered s fr pdu (s, h) (aecp_acquire_lock cmd fr pdu len (s, h))"
    unfolding aecp_acquire_lock_def Let_def prod.case nl if_False by (auto intro!: resp)
  show "len \<ge> 28 \<Longrightarrow> answered s fr pdu (s, h) (aecp_get_stream_format fr pdu len (s, h))"
    unfolding aecp_get_stream_format_def Let_def prod.case nl if_False by (auto intro!: resp split: option.split)
  show "len \<ge> 36 \<Longrightarrow> answered s fr pdu (s, h) (aecp_set_stream_format fr pdu len (s, h))"
    unfolding aecp_set_stream_format_def Let_def prod.case nl if_False by (auto intro!: resp)
  show "len \<ge> 28 \<Longrightarrow> answered s fr pdu (s, h) (aecp_get_clock_source fr pdu len (s, h))"
    unfolding aecp_get_clock_source_def Let_def prod.case nl if_False by (auto intro!: resp)
  show "len \<ge> 26 \<Longrightarrow> answered s fr pdu (s, h) (aecp_get_as_path g fr pdu len (s, h))"
    unfolding aecp_get_as_path_def Let_def prod.case nl if_False by (auto intro!: resp)
  show "len \<ge> 28 \<Longrightarrow> answered s fr pdu (s, h) (aecp_get_avb_info g r fr pdu len (s, h))"
    unfolding aecp_get_avb_info_def Let_def prod.case nl if_False by (auto intro!: resp split: prod.split)
  show "len \<ge> 28 \<Longrightarrow> answered s fr pdu (s, h) (aecp_get_counters fr pdu len (s, h))"
    unfolding aecp_get_counters_def Let_def prod.case nl if_False by (auto intro!: resp split: prod.split)
  show "len \<ge> 30 \<Longrightarrow> answered s fr pdu (s, h) (aecp_get_audio_map fr pdu len (s, h))"
    unfolding aecp_get_audio_map_def Let_def prod.case nl if_False by (auto intro!: resp)
  show "answered s fr pdu (s, h) (aecp_register_unsolicited cmd fr pdu (s, h))"
    unfolding aecp_register_unsolicited_def Let_def prod.case
    by (intro respond_answered [OF _ mac]) simp_all
  show "len \<ge> 28 \<Longrightarrow> answered s fr pdu (s, h) (aecp_get_max_transit_time fr pdu len (s, h))"
    unfolding aecp_get_max_transit_time_def Let_def prod.case nl if_False by (auto intro!: resp)
  show "len \<ge> 28 \<Longrightarrow> answered s fr pdu (s, h) (aecp_get_stream_info fr pdu len (s, h))"
    unfolding aecp_get_stream_info_def Let_def prod.case nl if_False by (auto intro!: resp split: option.split)
  show "len \<ge> 32 \<Longrightarrow> answered s fr pdu (s, h) (aecp_get_name fr pdu len (s, h))"
    unfolding aecp_get_name_def Let_def prod.case nl if_False by (auto intro!: resp split: prod.split)
qed

lemma set_clock_source_answered:
  assumes mac: "length (v_src_mac s) = 6" and cb: "cb_clock_source_change cbs = None" and len: "len \<ge> 32"
  shows "\<exists>w'. aecp_set_clock_source cbs fr pdu len (s, h, e) = (fst w', snd w', e) \<and> answered s fr pdu (s, h) w'"
proof -
  have nl: "(len < 32) = False" using len by simp
  have ans: "answered s fr pdu (s, h) (aecp_respond fr pdu [(24, bytes pdu 24 4), (28, put_be16 (v_current_clock_source t)), (30, put_be16 0)] st 20 64 (t, h))"
    if "t = s \<or> t = s\<lparr>v_current_clock_source := get_be16 pdu 28\<rparr>" for t st
    using that by (intro respond_answered [OF _ mac]) auto
  show ?thesis
    unfolding aecp_set_clock_source_def Let_def prod.case nl if_False cb
    using ans [of s] ans [of "s\<lparr>v_current_clock_source := get_be16 pdu 28\<rparr>"]
    by (auto simp: lift_w_def split_beta)
qed

lemma unknown_answered:
  assumes mac: "length (v_src_mac s) = 6" and cdl: "12 \<le> get_be16 pdu 2 AND 0x7FF"
  shows "answered s fr pdu (s, h) (aecp_unknown fr pdu (s, h))"
proof -
  let ?cdl = "get_be16 pdu 2 AND 0x7FF"
  define copy0 where "copy0 = (12 + ucast ?cdl :: u32)"
  define n where "n = (if copy0 > 500 then 500 else copy0)"
  define flen where "flen = (if 14 + n < 64 then 64 else 14 + n)"
  have "unat ?cdl < 65536" by (rule unat_lt2p16)
  then have "unat (ucast ?cdl + 12 :: u32) = unat ?cdl + 12"
    by (subst unat_add_lem [THEN iffD1]) (simp_all add: unat_ucast_16_32)
  moreover have "12 \<le> unat ?cdl" using cdl by (simp add: word_le_nat_alt)
  ultimately have c: "24 \<le> unat copy0" by (simp add: copy0_def add.commute)
  have u: "unat (500 :: u32) = 500" by simp
  have n: "24 \<le> unat n" "unat n \<le> 500"
    using c by (cases "copy0 > 500"; simp add: n_def u not_less word_le_nat_alt del: unsigned_numeral)+
  have flen: "42 \<le> unat flen" by (auto simp: flen_def word_less_nat_alt not_less)
  let ?st = "[(0, bytes fr 6 6), (6, v_src_mac s), (12, put_be16 AVDECC_ETHERTYPE)]
          @ at_pdu [(0, bytes pdu 0 (unat n)), (0, [AVTP_SUBTYPE_AECP]), (1, [AECP_MSG_AEM_RESPONSE]),
                    (2, status_cdl AECP_STATUS_NOT_IMPLEMENTED ?cdl)]"
  let ?m = "mputs (tx_buf TxAvdecc h) ?st"
  have "stored ?m 0 (bytes fr 6 6 @ v_src_mac s @ put_be16 AVDECC_ETHERTYPE @ [AVTP_SUBTYPE_AECP, AECP_MSG_AEM_RESPONSE])"
    using mac n by (simp add: at_pdu_def status_cdl_def stored_def [of _ _ "bytes _ _ _"] stored_def [of _ _ "v_src_mac s"]
      stored_def [of _ _ "put_be16 _"] wire)
  moreover have "stored ?m 18 (bytes pdu 4 20)"
  proof -
    have "?m (18 + i) = pdu (4 + i)" if "i < 20" for i
      using that n by (simp add: at_pdu_def status_cdl_def mput_def)
    then show ?thesis by (simp add: stored_def bytes_def)
  qed
  ultimately have "answers s fr pdu (bytes ?m 0 (unat flen))"
    using mac flen by (intro answers_bytes)
  moreover have "aecp_unknown fr pdu (s, h) = aecp_transmit ?st flen (s, h)"
    by (simp add: aecp_unknown_def Let_def flen_def n_def copy0_def)
  ultimately show ?thesis by (simp add: answered_def aecp_transmit_def)
qed

text \<open>The least length of the PDU with which a command is answered.\<close>

definition aecp_min_len :: "u16 \<Rightarrow> u32" where
  "aecp_min_len cmd =
     (if cmd \<in> {AEM_CMD_ACQUIRE_ENTITY, AEM_CMD_LOCK_ENTITY} then 40
      else if cmd = AEM_CMD_SET_STREAM_FORMAT then 36
      else if cmd \<in> {AEM_CMD_READ_DESCRIPTOR, AEM_CMD_SET_CLOCK_SOURCE, AEM_CMD_GET_NAME} then 32
      else if cmd = AEM_CMD_GET_AUDIO_MAP then 30
      else if cmd \<in> {AEM_CMD_GET_STREAM_FORMAT, AEM_CMD_GET_CLOCK_SOURCE, AEM_CMD_GET_AVB_INFO, AEM_CMD_GET_COUNTERS,
                    AEM_CMD_GET_MAX_TRANSIT_TIME, AEM_CMD_GET_STREAM_INFO} then 28
      else if cmd = AEM_CMD_GET_AS_PATH then 26 else 0)"


definition reacts :: "bool \<Rightarrow> avdecc_state \<Rightarrow> mem \<Rightarrow> mem \<Rightarrow> avdecc_state \<times> hw \<Rightarrow> avdecc_state \<times> hw \<Rightarrow> bool" where
  "reacts short s frame pdu w w' \<longleftrightarrow> (if short then w' = w else answered s frame pdu w w')"

lemma aecp_handlers_react:
  assumes mac: "length (v_src_mac s) = 6"
  shows "reacts (len < 32) s fr pdu (s, h) (aecp_read_descriptor g fr pdu len (s, h))"
    and "reacts (len < 40) s fr pdu (s, h) (aecp_acquire_lock cmd fr pdu len (s, h))"
    and "reacts (len < 28) s fr pdu (s, h) (aecp_get_stream_format fr pdu len (s, h))"
    and "reacts (len < 36) s fr pdu (s, h) (aecp_set_stream_format fr pdu len (s, h))"
    and "reacts (len < 28) s fr pdu (s, h) (aecp_get_clock_source fr pdu len (s, h))"
    and "reacts (len < 26) s fr pdu (s, h) (aecp_get_as_path g fr pdu len (s, h))"
    and "reacts (len < 28) s fr pdu (s, h) (aecp_get_avb_info g r fr pdu len (s, h))"
    and "reacts (len < 28) s fr pdu (s, h) (aecp_get_counters fr pdu len (s, h))"
    and "reacts (len < 30) s fr pdu (s, h) (aecp_get_audio_map fr pdu len (s, h))"
    and "reacts False s fr pdu (s, h) (aecp_register_unsolicited cmd fr pdu (s, h))"
    and "reacts (len < 28) s fr pdu (s, h) (aecp_get_max_transit_time fr pdu len (s, h))"
    and "reacts (len < 28) s fr pdu (s, h) (aecp_get_stream_info fr pdu len (s, h))"
    and "reacts (len < 32) s fr pdu (s, h) (aecp_get_name fr pdu len (s, h))"
proof -
  note a = aecp_handlers_answer [OF mac]
  show "reacts (len < 32) s fr pdu (s, h) (aecp_read_descriptor g fr pdu len (s, h))"
    by (simp add: reacts_def a not_less) (simp add: aecp_read_descriptor_def)
  show "reacts (len < 40) s fr pdu (s, h) (aecp_acquire_lock cmd fr pdu len (s, h))"
    by (simp add: reacts_def a not_less) (simp add: aecp_acquire_lock_def)
  show "reacts (len < 28) s fr pdu (s, h) (aecp_get_stream_format fr pdu len (s, h))"
    by (simp add: reacts_def a not_less) (simp add: aecp_get_stream_format_def)
  show "reacts (len < 36) s fr pdu (s, h) (aecp_set_stream_format fr pdu len (s, h))"
    by (simp add: reacts_def a not_less) (simp add: aecp_set_stream_format_def)
  show "reacts (len < 28) s fr pdu (s, h) (aecp_get_clock_source fr pdu len (s, h))"
    by (simp add: reacts_def a not_less) (simp add: aecp_get_clock_source_def)
  show "reacts (len < 26) s fr pdu (s, h) (aecp_get_as_path g fr pdu len (s, h))"
    by (simp add: reacts_def a not_less) (simp add: aecp_get_as_path_def)
  show "reacts (len < 28) s fr pdu (s, h) (aecp_get_avb_info g r fr pdu len (s, h))"
    by (simp add: reacts_def a not_less) (simp add: aecp_get_avb_info_def)
  show "reacts (len < 28) s fr pdu (s, h) (aecp_get_counters fr pdu len (s, h))"
    by (simp add: reacts_def a not_less) (simp add: aecp_get_counters_def)
  show "reacts (len < 30) s fr pdu (s, h) (aecp_get_audio_map fr pdu len (s, h))"
    by (simp add: reacts_def a not_less) (simp add: aecp_get_audio_map_def)
  show "reacts False s fr pdu (s, h) (aecp_register_unsolicited cmd fr pdu (s, h))"
    by (simp add: reacts_def a)
  show "reacts (len < 28) s fr pdu (s, h) (aecp_get_max_transit_time fr pdu len (s, h))"
    by (simp add: reacts_def a not_less) (simp add: aecp_get_max_transit_time_def)
  show "reacts (len < 28) s fr pdu (s, h) (aecp_get_stream_info fr pdu len (s, h))"
    by (simp add: reacts_def a not_less) (simp add: aecp_get_stream_info_def)
  show "reacts (len < 32) s fr pdu (s, h) (aecp_get_name fr pdu len (s, h))"
    by (simp add: reacts_def a not_less) (simp add: aecp_get_name_def)
qed

lemmas aem_commands = AEM_CMD_ACQUIRE_ENTITY_def AEM_CMD_LOCK_ENTITY_def AEM_CMD_READ_DESCRIPTOR_def
  AEM_CMD_SET_STREAM_FORMAT_def AEM_CMD_GET_STREAM_FORMAT_def AEM_CMD_GET_STREAM_INFO_def AEM_CMD_GET_NAME_def
  AEM_CMD_SET_CLOCK_SOURCE_def AEM_CMD_GET_CLOCK_SOURCE_def AEM_CMD_REGISTER_UNSOLICITED_def
  AEM_CMD_DEREGISTER_UNSOLICITED_def AEM_CMD_GET_AVB_INFO_def AEM_CMD_GET_AS_PATH_def AEM_CMD_GET_COUNTERS_def
  AEM_CMD_GET_AUDIO_MAP_def AEM_CMD_GET_MAX_TRANSIT_TIME_def

lemma aecp_handle_reacts:
  assumes mac: "length (v_src_mac s) = 6" and cb: "cb_clock_source_change cbs = None"
    and msg: "pdu 1 AND 0x0F = AECP_MSG_AEM_COMMAND" and target: "bytes pdu AECP_OFF_TARGET_ID 8 = v_entity_id s"
    and cdl: "12 \<le> get_be16 pdu 2 AND 0x7FF"
  shows "\<exists>w'. aecp_handle cbs g r fr pdu len (s, h, e) = (fst w', snd w', e)
    \<and> reacts (len < aecp_min_len (get_be16 pdu AECP_OFF_CMD_TYPE AND 0x7FFF)) s fr pdu
        (s\<lparr>v_aecp_rx_count := v_aecp_rx_count s + 1\<rparr>, h) w'"
proof -
  let ?s = "s\<lparr>v_aecp_rx_count := v_aecp_rx_count s + 1\<rparr>" and ?cmd = "get_be16 pdu AECP_OFF_CMD_TYPE AND 0x7FFF"
  define Q where "Q k v \<longleftrightarrow> (\<exists>w'. v = (fst w', snd w', e) \<and> reacts (len < k) s fr pdu (?s, h) w')" for k :: u32 and v
  have mac': "length (v_src_mac ?s) = 6" using mac by simp
  have s: "reacts b ?s fr pdu = reacts b s fr pdu" for b by (intro ext) (simp add: reacts_def answered_def answers_def)
  have Q: "Q k (lift_w f (?s, h, e))" if "reacts (len < k) ?s fr pdu (?s, h) (f (?s, h))" for k f
    using that unfolding s by (auto simp: Q_def lift_w_def split_beta intro!: exI [of _ "f (?s, h)"])
  have z: "(len < 0) = False" by simp
  note react = aecp_handlers_react [OF mac']
  have src: "Q 32 (aecp_set_clock_source cbs fr pdu len (?s, h, e))"
  proof (cases "len < 32")
    case True
    then show ?thesis by (auto simp: Q_def reacts_def aecp_set_clock_source_def intro!: exI [of _ "(?s, h)"])
  next
    case False
    then obtain w' where "aecp_set_clock_source cbs fr pdu len (?s, h, e) = (fst w', snd w', e)" "answered ?s fr pdu (?s, h) w'"
      using set_clock_source_answered [OF mac' cb, of len fr pdu h e] by (auto simp: not_less)
    then show ?thesis using False unfolding Q_def s [symmetric] by (intro exI [of _ w']) (simp add: reacts_def)
  qed
  have unk: "Q 0 (lift_w (aecp_unknown fr pdu) (?s, h, e))"
    using unknown_answered [OF mac' cdl, of fr h] by (intro Q) (simp add: reacts_def)
  have reg: "Q 0 (lift_w (aecp_register_unsolicited c fr pdu) (?s, h, e))" for c
    using react(10) by (intro Q) (simp add: z)
  have mvu: "AECP_MSG_AEM_COMMAND \<noteq> AECP_MSG_VENDOR_UNIQUE_COMMAND"
    by (simp add: AECP_MSG_AEM_COMMAND_def AECP_MSG_VENDOR_UNIQUE_COMMAND_def)
  have IF: "(c \<Longrightarrow> Q k a) \<Longrightarrow> (\<not> c \<Longrightarrow> Q k b) \<Longrightarrow> Q k (if c then a else b)" for c k a b by simp
  have "Q (aecp_min_len ?cmd) (aecp_handle cbs g r fr pdu len (s, h, e))"
    unfolding aecp_handle_def Let_def prod.case
    by (simp only: msg target mvu refl simp_thms if_False if_True)
      (intro IF; (elim disjE)?; simp add: aecp_min_len_def aem_commands src unk reg Q react)
  then show ?thesis by (simp add: Q_def)
qed


text \<open>
  C22. Every AEM command addressed to this entity is answered, and exactly once.  A command whose
  PDU has the length its handler asks for -- and whose own length field covers the command header
  -- is answered with one frame to its sender that repeats target, controller, sequence number and
  command type, whatever the command, known or not, and whatever its arguments; a shorter one is
  ignored.  Both cases count the command, the first one the answer too.
\<close>

theorem aecp_answers_every_command:
  assumes "length (v_src_mac s) = 6" and "cb_clock_source_change cbs = None"
    and "pdu 1 AND 0x0F = AECP_MSG_AEM_COMMAND" and "bytes pdu AECP_OFF_TARGET_ID 8 = v_entity_id s"
    and "12 \<le> get_be16 pdu 2 AND 0x7FF"
    and "aecp_handle cbs g r fr pdu len (s, h, e) = (s', h', e')"
  shows "e' = e \<and> v_aecp_rx_count s' = v_aecp_rx_count s + 1
    \<and> (if len < aecp_min_len (get_be16 pdu AECP_OFF_CMD_TYPE AND 0x7FFF)
       then h' = h \<and> v_aecp_tx_count s' = v_aecp_tx_count s
       else (\<exists>a. hw_sent h' = hw_sent h @ [a] \<and> answers s fr pdu a) \<and> v_aecp_tx_count s' = v_aecp_tx_count s + 1)"
  using aecp_handle_reacts [of s cbs pdu g r fr len h e] assms
  by (auto simp: reacts_def answered_def split: if_splits)

definition demo_read_entity :: mem where
  "demo_read_entity = mem_of ([0xFB, 0x00, 0x00, 0x14, 2, 0, 0, 0xFF, 0xFE, 0, 0, 1] @ zeros 8 @ [0, 7, 0, 4] @ zeros 16)"

definition demo_entity :: avdecc_state where
  "demo_entity = avdecc_zero\<lparr>v_src_mac := [2, 0, 0, 0, 0, 1], v_entity_id := [2, 0, 0, 0xFF, 0xFE, 0, 0, 1]\<rparr>"

theorem aecp_answers_every_command_witness:
  "\<exists>a s' h'. aecp_handle no_callbacks None None (mem_of (zeros 6 @ [2, 0, 0, 0, 0, 9])) demo_read_entity 40 (demo_entity, hw0, ())
        = (s', h', ())
      \<and> hw_sent h' = [a] \<and> take 6 a = [2, 0, 0, 0, 0, 9]"
proof -
  let ?fr = "mem_of (zeros 6 @ [2, 0, 0, 0, 0, 9])"
  obtain s' h' where p: "aecp_handle no_callbacks None None ?fr demo_read_entity 40 (demo_entity, hw0, ()) = (s', h', ())"
    by (metis prod_cases3 unit.exhaust)
  have "length (v_src_mac demo_entity) = 6" "cb_clock_source_change no_callbacks = None"
    "bytes demo_read_entity AECP_OFF_TARGET_ID 8 = v_entity_id demo_entity"
    by (simp_all add: demo_entity_def no_callbacks_def demo_read_entity_def AECP_OFF_TARGET_ID_def bytes_mem_of_slice zeros_def)
  moreover have "demo_read_entity 1 AND 0x0F = AECP_MSG_AEM_COMMAND" "12 \<le> get_be16 demo_read_entity 2 AND 0x7FF"
    "get_be16 demo_read_entity AECP_OFF_CMD_TYPE AND 0x7FFF = 4"
    by (simp_all add: demo_read_entity_def mem_of_def zeros_def get_be16_def AECP_MSG_AEM_COMMAND_def AECP_OFF_CMD_TYPE_def nth_append)
  ultimately obtain a where a: "hw_sent h' = hw_sent hw0 @ [a]" "answers demo_entity ?fr demo_read_entity a"
    using aecp_answers_every_command [OF _ _ _ _ _ p] by (auto simp: aecp_min_len_def aem_commands)
  have "bytes ?fr 6 6 = [2, 0, 0, 0, 0, 9]" by (simp add: bytes_mem_of_slice zeros_def)
  then have "take 6 (take 16 a) = [2, 0, 0, 0, 0, 9]" using a(2) by (simp add: answers_def)
  then show ?thesis using p a(1) by (auto simp: hw0_def)
qed

section \<open>Vendor-unique commands\<close>

lemma stored_frame: "p + length xs \<le> n \<Longrightarrow> stored (mem_of (bytes m 0 n)) p xs = stored m p xs"
  unfolding stored_def by (subst bytes_cong [where m' = m]) (auto simp: mem_of_def)

lemma mem_of_frame: "i < n \<Longrightarrow> mem_of (bytes m 0 n) i = m i"
  by (simp add: mem_of_def)

lemma command_word_bytes: "put_be16 (get_be16 m p AND 0x7FFF) = [m p AND 0x7F, m (Suc p)]"
proof -
  have m: "(0x7FFF :: u16) = mask 15" "(0x7F :: u8) = mask 7" by (simp_all add: mask_eq_exp_minus_1)
  have "ucast (drop_bit 8 (get_be16 m p AND mask 15)) = m p AND mask 7"
    by (rule bit_word_eqI) (auto simp: get_be16_def bit_simps dest: bit_imp_le_length)
  moreover have "ucast (get_be16 m p AND mask 15) = m (Suc p)"
    by (rule bit_word_eqI) (auto simp: get_be16_def bit_simps dest: bit_imp_le_length)
  ultimately show ?thesis unfolding m by (simp add: put_be16_def)
qed

text \<open>
  \<open>mvu_answers s frame pdu st a\<close>: the frame \<open>a\<close> goes to the sender of \<open>frame\<close> with the status
  and length word \<open>st\<close>, and repeats target, controller, sequence number, protocol and command
  of the vendor-unique command \<open>pdu\<close>.
\<close>

definition mvu_answers :: "avdecc_state \<Rightarrow> mem \<Rightarrow> mem \<Rightarrow> u8 list \<Rightarrow> u8 list \<Rightarrow> bool" where
  "mvu_answers s frame pdu st a \<longleftrightarrow> 64 \<le> length a
     \<and> stored (mem_of a) 0 (bytes frame 6 6 @ v_src_mac s @ put_be16 AVDECC_ETHERTYPE)
     \<and> mem_of a 15 = AECP_MSG_VENDOR_UNIQUE_RESPONSE \<and> stored (mem_of a) 16 st \<and> stored (mem_of a) 18 (bytes pdu 4 24)
     \<and> get_be16 (mem_of a) 42 AND 0x7FFF = get_be16 pdu 28 AND 0x7FFF"

text \<open>What GET_STREAM_INPUT_INFO_EX tells of a stream input: the talker it is bound to.\<close>

definition mvu_binding :: "avdecc_state \<Rightarrow> u16 \<Rightarrow> u16 \<Rightarrow> u8 list" where
  "mvu_binding s dt di =
     (let l = v_listeners s ! unat di
      in if dt = AEM_DESC_STREAM_INPUT \<and> di < AVDECC_MAX_LISTENERS \<and> vl_connected l \<noteq> 0
         then vl_talker_id l @ put_be16 (vl_talker_uid l) @ [0x60, 0] else zeros 12)"

definition mvu_pre :: "avdecc_state \<Rightarrow> mem \<Rightarrow> mem \<Rightarrow> (nat \<times> u8 list) list" where
  "mvu_pre s frame pdu = [(0, bytes frame 6 6), (6, v_src_mac s), (12, put_be16 AVDECC_ETHERTYPE)]
     @ at_pdu [(0, bytes pdu 0 30), (1, [AECP_MSG_VENDOR_UNIQUE_RESPONSE]), (28, put_be16 (get_be16 pdu 28 AND 0x7FFF))]"

definition milan_info_body :: "(nat \<times> u8 list) list" where
  "milan_info_body = [(30, put_be16 0), (32, put_be32 1), (36, put_be32 0), (40, put_be32 0x01020000)]"

definition input_info_body :: "avdecc_state \<Rightarrow> mem \<Rightarrow> (nat \<times> u8 list) list" where
  "input_info_body s pdu =
     (let l = v_listeners s ! unat (get_be16 pdu 32);
          on = get_be16 pdu 30 = AEM_DESC_STREAM_INPUT \<and> get_be16 pdu 32 < AVDECC_MAX_LISTENERS \<and> vl_connected l \<noteq> 0
      in [(30, put_be16 0), (32, put_be16 (get_be16 pdu 30)), (34, put_be16 (get_be16 pdu 32)),
          (36, if on then vl_talker_id l else zeros 8), (44, put_be16 (if on then vl_talker_uid l else 0)),
          (46, [if on then 0x60 else 0]), (47, [0])])"

lemma mvu_handle_cases:
  assumes len: "\<not> len < 30" and target: "bytes pdu AECP_OFF_TARGET_ID 8 = v_entity_id s" and proto: "bytes pdu 22 6 = MVU_PROTOCOL_ID"
  defines "cmd \<equiv> get_be16 pdu 28 AND 0x7FFF" and "s1 \<equiv> s\<lparr>v_aecp_rx_count := v_aecp_rx_count s + 1\<rparr>"
    and "cdl \<equiv> get_be16 pdu 2 AND 0x7FF"
  defines "n \<equiv> (let n = (if 12 + ucast cdl > (500 :: u32) then 500 else 12 + ucast cdl) in if n > len then len else n)"
  shows "mvu_handle fr pdu len (s, h) =
    (if cmd = MVU_CMD_GET_MILAN_INFO
     then aecp_transmit (mvu_pre s fr pdu @ at_pdu (milan_info_body @ [(2, status_cdl AECP_STATUS_SUCCESS 32)])) 64 (s1, h)
     else if cmd = MVU_CMD_GET_STREAM_INPUT_INFO_EX
     then if len < 34 then (s1, tx_store TxAvdecc (mputs (tx_buf TxAvdecc h) (mvu_pre s fr pdu)) h)
          else aecp_transmit (mvu_pre s fr pdu @ at_pdu (input_info_body s pdu @ [(2, status_cdl AECP_STATUS_SUCCESS 36)])) 64 (s1, h)
     else aecp_transmit (mvu_pre s fr pdu @ at_pdu [(0, bytes pdu 0 (unat n)), (1, [AECP_MSG_VENDOR_UNIQUE_RESPONSE]),
            (2, status_cdl AECP_STATUS_NOT_IMPLEMENTED cdl)]) (if 14 + n < 64 then 64 else 14 + n) (s1, h))"
  unfolding mvu_handle_def prod.case if_not_P [OF len] target proto simp_thms if_False Let_def n_def cdl_def cmd_def s1_def
    milan_info_body_def input_info_body_def mvu_pre_def
  by (intro if_cong refl; (simp; fail)?)

text \<open>The header is in the frame before the body is written, and the body does not touch it.\<close>

lemma mvu_pre_stored:
  fixes m0 fr pdu :: mem
  assumes "length (v_src_mac s) = 6"
  defines "m \<equiv> mputs m0 (mvu_pre s fr pdu)"
  shows "stored m 0 (bytes fr 6 6 @ v_src_mac s @ put_be16 AVDECC_ETHERTYPE)" "stored m 15 [AECP_MSG_VENDOR_UNIQUE_RESPONSE]"
    "stored m 18 (bytes pdu 4 24)" "stored m 42 (put_be16 (get_be16 pdu 28 AND 0x7FFF))"
proof -
  have "m (18 + i) = pdu (4 + i)" if "i < 24" for i using that by (simp add: m_def mvu_pre_def at_pdu_def mput_def)
  then show "stored m 18 (bytes pdu 4 24)" by (simp add: stored_def bytes_def)
qed (use assms(1) in \<open>simp_all add: m_def mvu_pre_def at_pdu_def stored_def [of _ _ "bytes _ _ _"] stored_def [of _ _ "v_src_mac s"]
      stored_def [of _ _ "put_be16 _"] wire\<close>)

lemma mvu_known:
  fixes m0 fr pdu :: mem
  assumes mac: "length (v_src_mac s) = 6" and c: "contig 30 body" and st: "length st = 2" and n: "length (concat (map snd body)) \<le> 20"
  defines "a \<equiv> bytes (mputs m0 (mvu_pre s fr pdu @ at_pdu (body @ [(2, st)]))) 0 64"
  shows "mvu_answers s fr pdu st a" "stored (mem_of a) 44 (concat (map snd body))"
proof -
  let ?tail = "at_pdu (body @ [(2, st)])"
  define m where "m = mputs m0 (mvu_pre s fr pdu @ ?tail)"
  have low: "contig off ps \<Longrightarrow> \<forall>(p, bs) \<in> set ps. off \<le> p" for off ps
    by (induction ps arbitrary: off) force+
  have tail: "\<forall>(q, bs) \<in> set ?tail. 44 \<le> q \<or> q = 16 \<and> length bs = 2"
    using low [OF c] st by (force simp: at_pdu_def)
  note pre = mvu_pre_stored [OF mac, of m0 fr pdu]
  have keep: "stored m p xs" if "stored (mputs m0 (mvu_pre s fr pdu)) p xs" "p + length xs \<le> 16 \<or> 18 \<le> p \<and> p + length xs \<le> 44" for p xs
    unfolding m_def mputs_append by (rule stored_untouched [OF that(1)]) (use tail that(2) in fastforce)
  have shift: "contig off ps \<Longrightarrow> contig (14 + off) (at_pdu ps)" for off ps
    by (induction ps arbitrary: off) (auto simp: at_pdu_def add.assoc)
  have cc: "concat (map snd (at_pdu body)) = concat (map snd body)" by (simp add: at_pdu_def comp_def split_def)
  have m: "m = mput (mputs (mputs m0 (mvu_pre s fr pdu)) (at_pdu body)) 16 st"
    by (simp add: m_def mputs_append at_pdu_def)
  have "stored (mputs (mputs m0 (mvu_pre s fr pdu)) (at_pdu body)) 44 (concat (map snd body))"
    using bytes_mputs_contig [OF shift [OF c]] cc by (simp add: stored_def)
  then have body: "stored m 44 (concat (map snd body))" using st unfolding m stored_def by (simp add: wire)
  have status: "stored m 16 st" using st by (simp add: m stored_def wire)
  have "stored m 0 (bytes fr 6 6 @ v_src_mac s @ put_be16 AVDECC_ETHERTYPE)" "stored m 15 [AECP_MSG_VENDOR_UNIQUE_RESPONSE]"
    "stored m 18 (bytes pdu 4 24)" "stored m 42 (put_be16 (get_be16 pdu 28 AND 0x7FFF))"
    using pre mac by (intro keep; simp)+
  with body status show "mvu_answers s fr pdu st a" "stored (mem_of a) 44 (concat (map snd body))"
    using mac st n unfolding mvu_answers_def a_def m_def [symmetric]
    by (simp_all add: stored_frame stored_be16 mem_of_frame)
qed

lemma mvu_unknown:
  fixes m0 fr pdu :: mem and st :: u8 and cdl :: u16
  assumes mac: "length (v_src_mac s) = 6" and n: "12 \<le> n" and len: "14 + n \<le> len" "64 \<le> len"
  defines "a \<equiv> bytes (mputs m0 (mvu_pre s fr pdu @ at_pdu [(0, bytes pdu 0 n), (1, [AECP_MSG_VENDOR_UNIQUE_RESPONSE]),
      (2, status_cdl st cdl)])) 0 len"
  shows "mvu_answers s fr pdu (status_cdl st cdl) a" "stored (mem_of a) 18 (bytes pdu 4 (n - 4))"
proof -
  let ?tail = "at_pdu [(0, bytes pdu 0 n), (1, [AECP_MSG_VENDOR_UNIQUE_RESPONSE]), (2, status_cdl st cdl)]"
  define m where "m = mputs m0 (mvu_pre s fr pdu @ ?tail)"
  have st2: "length (status_cdl st cdl) = 2" by (simp add: status_cdl_def)
  note pre = mvu_pre_stored [OF mac, of m0 fr pdu]
  have m: "m i = (if i = 15 then AECP_MSG_VENDOR_UNIQUE_RESPONSE else if 16 \<le> i \<and> i < 18 then status_cdl st cdl ! (i - 16)
      else if 14 \<le> i \<and> i < 14 + n then pdu (i - 14) else mputs m0 (mvu_pre s fr pdu) i)" for i
    by (auto simp: m_def mputs_append at_pdu_def mput_def st2)
  have "stored m 0 (bytes fr 6 6 @ v_src_mac s @ put_be16 AVDECC_ETHERTYPE)"
    unfolding m_def mputs_append by (rule stored_untouched [OF pre(1)]) (use mac in \<open>auto simp: at_pdu_def\<close>)
  moreover have "stored m 18 (bytes pdu 4 24)"
  proof -
    have "mputs m0 (mvu_pre s fr pdu) (18 + i) = pdu (4 + i)" if "i < 24" for i
      using that by (simp add: mvu_pre_def at_pdu_def mput_def)
    then show ?thesis by (simp add: stored_def bytes_def m)
  qed
  moreover have "get_be16 m 42 AND 0x7FFF = get_be16 pdu 28 AND 0x7FFF"
  proof -
    have "mputs m0 (mvu_pre s fr pdu) 42 = pdu 28 AND 0x7F" "mputs m0 (mvu_pre s fr pdu) 43 = pdu 29"
      using pre(4) by (simp_all add: command_word_bytes)
    then have "put_be16 (get_be16 m 42 AND 0x7FFF) = put_be16 (get_be16 pdu 28 AND 0x7FFF)"
      unfolding command_word_bytes by (auto simp: m)
    then show ?thesis by simp
  qed
  moreover have "m 15 = AECP_MSG_VENDOR_UNIQUE_RESPONSE" "stored m 16 (status_cdl st cdl)"
    by (simp add: m) (simp add: m stored_def st2 list_eq_iff_nth_eq)
  moreover have "stored m 18 (bytes pdu 4 (n - 4))" by (auto simp: stored_def bytes_def m)
  ultimately show "mvu_answers s fr pdu (status_cdl st cdl) a" "stored (mem_of a) 18 (bytes pdu 4 (n - 4))"
    using mac st2 n len unfolding mvu_answers_def a_def m_def [symmetric]
    by (simp_all add: stored_frame mem_of_frame get_be16_def)
qed


lemma transmit_sent:
  assumes "aecp_transmit stores len (s, h) = (s', h')"
  shows "hw_sent h' = hw_sent h @ [bytes (mputs (tx_buf TxAvdecc h) stores) 0 (unat len)]"
    "v_aecp_tx_count s' = v_aecp_tx_count s + 1" "v_aecp_rx_count s' = v_aecp_rx_count s"
  using assms by (auto simp: aecp_transmit_def)

lemma unat_12_plus: "unat (12 + ucast (c :: u16) :: u32) = 12 + unat c"
proof -
  have "unat c < 65536" by (rule unat_lt2p16)
  then show ?thesis by (subst unat_add_lem [THEN iffD1]) (simp_all add: unat_ucast_16_32)
qed

lemma known_transmitted:
  assumes "length (v_src_mac s) = 6" and "contig 30 body" and "length st = 2" and "length (concat (map snd body)) \<le> 20"
    and run: "aecp_transmit (mvu_pre s fr pdu @ at_pdu (body @ [(2, st)])) 64 (s1, h) = (s', h')"
  shows "\<exists>a. hw_sent h' = hw_sent h @ [a] \<and> mvu_answers s fr pdu st a \<and> length a = 64 \<and> stored (mem_of a) 44 (concat (map snd body))"
  using transmit_sent(1) [OF run] mvu_known [OF assms(1-4), where ?m0.0 = "tx_buf TxAvdecc h" and fr = fr and pdu = pdu] by simp

text \<open>How much of an unknown vendor-unique command is echoed: its declared length, at most 500 bytes, and no more than arrived.\<close>

definition mvu_echoed :: "mem \<Rightarrow> u32 \<Rightarrow> nat" where
  "mvu_echoed pdu len = min (min (12 + unat (get_be16 pdu 2 AND 0x7FF)) 500) (unat len)"

lemma unknown_transmitted:
  fixes pdu :: mem and len :: u32
  defines "cdl \<equiv> get_be16 pdu 2 AND 0x7FF"
  defines "n \<equiv> (let n = (if 12 + ucast cdl > (500 :: u32) then 500 else 12 + ucast cdl) in if n > len then len else n)"
  assumes mac: "length (v_src_mac s) = 6" and len: "\<not> len < 30"
    and run: "aecp_transmit (mvu_pre s fr pdu @ at_pdu [(0, bytes pdu 0 (unat n)), (1, [AECP_MSG_VENDOR_UNIQUE_RESPONSE]),
        (2, status_cdl st cdl)]) (if 14 + n < 64 then 64 else 14 + n) (s1, h) = (s', h')"
  shows "\<exists>a. hw_sent h' = hw_sent h @ [a] \<and> mvu_answers s fr pdu (status_cdl st cdl) a
    \<and> length a = max 64 (14 + mvu_echoed pdu len) \<and> stored (mem_of a) 18 (bytes pdu 4 (mvu_echoed pdu len - 4))"
proof -
  have n: "12 \<le> unat n" "unat n \<le> 500"
    using len unat_12_plus [of cdl] by (auto simp: n_def Let_def word_less_nat_alt)
  have e: "unat n = mvu_echoed pdu len"
    unfolding n_def mvu_echoed_def Let_def cdl_def [symmetric] min_def
    using unat_12_plus [of cdl] by (auto simp: word_less_nat_alt)
  have l: "unat (if 14 + n < 64 then 64 else 14 + n) = max 64 (14 + unat n)"
    using n by (auto simp: word_less_nat_alt unat_word_ariths max_def)
  then have "14 + unat n \<le> unat (if 14 + n < 64 then 64 else 14 + n)" "64 \<le> unat (if 14 + n < 64 then 64 else 14 + n)"
    by simp_all
  note a = mvu_unknown [OF mac n(1) this, where ?m0.0 = "tx_buf TxAvdecc h" and fr = fr and pdu = pdu and st = st and cdl = cdl]
  show ?thesis unfolding transmit_sent(1) [OF run] e [symmetric]
    using a by (intro exI conjI refl) (simp_all add: l)
qed

lemma mvu_codes: "MVU_CMD_GET_STREAM_INPUT_INFO_EX \<noteq> MVU_CMD_GET_MILAN_INFO"
  by (simp add: MVU_CMD_GET_STREAM_INPUT_INFO_EX_def MVU_CMD_GET_MILAN_INFO_def)

lemma milan_info_bytes:
  "contig 30 milan_info_body" "length (concat (map snd milan_info_body)) \<le> 20"
  "concat (map snd milan_info_body) = put_be16 0 @ put_be32 1 @ put_be32 0 @ put_be32 0x01020000"
  by (simp_all add: milan_info_body_def)

lemma input_info_bytes:
  assumes "\<forall>l \<in> set (v_listeners s). length (vl_talker_id l) = 8" "length (v_listeners s) = 2"
  shows "contig 30 (input_info_body s pdu)" "length (concat (map snd (input_info_body s pdu))) \<le> 20"
    "concat (map snd (input_info_body s pdu)) = put_be16 0 @ bytes pdu 30 4 @ mvu_binding s (get_be16 pdu 30) (get_be16 pdu 32)"
proof -
  let ?l = "v_listeners s ! unat (get_be16 pdu 32)"
  have l: "get_be16 pdu 32 < AVDECC_MAX_LISTENERS \<Longrightarrow> length (vl_talker_id ?l) = 8"
    using assms uid_cases [of "get_be16 pdu 32"] by simp
  then show "contig 30 (input_info_body s pdu)" "length (concat (map snd (input_info_body s pdu))) \<le> 20"
    by (auto simp: input_info_body_def Let_def)
  have b: "bytes pdu 30 4 = put_be16 (get_be16 pdu 30) @ put_be16 (get_be16 pdu 32)"
    by (simp add: put_get_be16_bytes bytes_def upt_rec)
  have z: "zeros 12 = zeros 8 @ put_be16 0 @ [0, 0]" by (simp add: zeros_def put_be16_def numeral_eq_Suc)
  show "concat (map snd (input_info_body s pdu)) = put_be16 0 @ bytes pdu 30 4 @ mvu_binding s (get_be16 pdu 30) (get_be16 pdu 32)"
    by (auto simp: input_info_body_def mvu_binding_def Let_def b z)
qed

text \<open>
  C23.  A Milan vendor-unique command of at least 30 bytes, addressed to this entity, is answered
  by one frame to the sender that repeats target, controller, sequence number, protocol and
  command: GET_MILAN_INFO with the fixed capabilities, GET_STREAM_INPUT_INFO_EX with the
  descriptor asked for and the talker that input is bound to (all zero for anything else), both
  in 64 bytes; every other command with NOT_IMPLEMENTED, the length word of the command, and
  everything of the command behind that word -- its payload included -- echoed byte by byte up to
  the declared length (at most 500 bytes, and no more than arrived), in a frame of that length.
  Shorter commands are not answered: less than 30 bytes are not even counted, a
  GET_STREAM_INPUT_INFO_EX of less than 34 is counted only.
\<close>

theorem mvu_answers_every_command:
  fixes cbs :: "'e avdecc_callbacks"
  assumes mac: "length (v_src_mac s) = 6" and msg: "pdu 1 AND 0x0F = AECP_MSG_VENDOR_UNIQUE_COMMAND"
    and target: "bytes pdu AECP_OFF_TARGET_ID 8 = v_entity_id s" and proto: "bytes pdu 22 6 = MVU_PROTOCOL_ID"
    and ids: "\<forall>l \<in> set (v_listeners s). length (vl_talker_id l) = 8" "length (v_listeners s) = 2"
    and run: "aecp_handle cbs g r fr pdu len (s, h, e) = (s', h', e')"
  defines "cmd \<equiv> get_be16 pdu 28 AND 0x7FFF"
  shows "e' = e \<and> (if len < 30 then s' = s \<and> h' = h else v_aecp_rx_count s' = v_aecp_rx_count s + 1
     \<and> (if cmd = MVU_CMD_GET_STREAM_INPUT_INFO_EX \<and> len < 34
        then hw_sent h' = hw_sent h \<and> v_aecp_tx_count s' = v_aecp_tx_count s
        else v_aecp_tx_count s' = v_aecp_tx_count s + 1 \<and> (\<exists>a. hw_sent h' = hw_sent h @ [a]
          \<and> (if cmd = MVU_CMD_GET_MILAN_INFO
             then mvu_answers s fr pdu (status_cdl AECP_STATUS_SUCCESS 32) a
               \<and> stored (mem_of a) 44 (put_be16 0 @ put_be32 1 @ put_be32 0 @ put_be32 0x01020000) \<and> length a = 64
             else if cmd = MVU_CMD_GET_STREAM_INPUT_INFO_EX
             then mvu_answers s fr pdu (status_cdl AECP_STATUS_SUCCESS 36) a
               \<and> stored (mem_of a) 44 (put_be16 0 @ bytes pdu 30 4 @ mvu_binding s (get_be16 pdu 30) (get_be16 pdu 32)) \<and> length a = 64
             else mvu_answers s fr pdu (status_cdl AECP_STATUS_NOT_IMPLEMENTED (get_be16 pdu 2 AND 0x7FF)) a
               \<and> stored (mem_of a) 18 (bytes pdu 4 (mvu_echoed pdu len - 4))
               \<and> length a = max 64 (14 + mvu_echoed pdu len)))))"
proof -
  have h: "e' = e" "mvu_handle fr pdu len (s, h) = (s', h')"
    using run [unfolded aecp_handle_def prod.case Let_def msg refl if_True] by (simp_all add: lift_w_def case_prod_unfold Let_def prod_eq_iff)
  show ?thesis
  proof (cases "len < 30")
    case True
    then show ?thesis using h by (simp add: mvu_handle_def)
  next
    case False
    note c = h(2) [unfolded mvu_handle_cases [OF False target proto], folded cmd_def]
    consider (milan) "cmd = MVU_CMD_GET_MILAN_INFO" | (info) "cmd = MVU_CMD_GET_STREAM_INPUT_INFO_EX"
      | (other) "cmd \<noteq> MVU_CMD_GET_MILAN_INFO" "cmd \<noteq> MVU_CMD_GET_STREAM_INPUT_INFO_EX" by blast
    then show ?thesis
    proof cases
      case milan
      note run = c [unfolded if_P [OF milan]]
      show ?thesis using False milan mvu_codes h(1) transmit_sent [OF run] milan_info_bytes known_transmitted [OF mac _ _ _ run]
        by (simp add: status_cdl_def)
    next
      case info
      have nm: "cmd \<noteq> MVU_CMD_GET_MILAN_INFO" using info mvu_codes by simp
      note c' = c [unfolded if_not_P [OF nm] if_P [OF info]] and b = input_info_bytes [OF ids, of pdu]
      show ?thesis
      proof (cases "len < 34")
        case True
        then show ?thesis using c' False info mvu_codes h(1) by (auto simp: tx_store_def)
      next
        case long: False
        note run = c' [unfolded if_not_P [OF long]]
        show ?thesis using False long info nm h(1) transmit_sent [OF run] b known_transmitted [OF mac b(1) _ b(2) run]
          by (simp add: status_cdl_def)
      qed
    next
      case other
      note run = c [unfolded if_not_P [OF other(1)] if_not_P [OF other(2)]]
      obtain a where "hw_sent h' = hw_sent h @ [a]"
        "mvu_answers s fr pdu (status_cdl AECP_STATUS_NOT_IMPLEMENTED (get_be16 pdu 2 AND 0x7FF)) a"
        "length a = max 64 (14 + mvu_echoed pdu len)" "stored (mem_of a) 18 (bytes pdu 4 (mvu_echoed pdu len - 4))"
        using unknown_transmitted [OF mac False run] by blast
      then show ?thesis using False other h(1) transmit_sent(2,3) [OF run] by simp
    qed
  qed
qed

definition demo_milan_info :: mem where
  "demo_milan_info = mem_of ([0xFB, 0x06, 0x00, 0x12, 2, 0, 0, 0xFF, 0xFE, 0, 0, 1] @ zeros 8 @ [0, 7] @ MVU_PROTOCOL_ID @ [0, 0] @ zeros 4)"

theorem mvu_answers_every_command_witness:
  "\<exists>a s' h'. aecp_handle no_callbacks None None (mem_of (zeros 6 @ [2, 0, 0, 0, 0, 9])) demo_milan_info 34 (demo_entity, hw0, ())
        = (s', h', ())
      \<and> hw_sent h' = [a] \<and> stored (mem_of a) 50 (put_be32 0 @ put_be32 0x01020000)"
proof -
  let ?fr = "mem_of (zeros 6 @ [2, 0, 0, 0, 0, 9])"
  obtain s' h' where p: "aecp_handle no_callbacks None None ?fr demo_milan_info 34 (demo_entity, hw0, ()) = (s', h', ())"
    by (metis prod_cases3 unit.exhaust)
  have "length (v_src_mac demo_entity) = 6" "bytes demo_milan_info AECP_OFF_TARGET_ID 8 = v_entity_id demo_entity"
    "\<forall>l \<in> set (v_listeners demo_entity). length (vl_talker_id l) = 8" "length (v_listeners demo_entity) = 2"
    by (simp_all add: demo_entity_def demo_milan_info_def AECP_OFF_TARGET_ID_def bytes_mem_of_slice zeros_def
        avdecc_zero_def listener_stream_zero_def AVDECC_MAX_LISTENERS_def MVU_PROTOCOL_ID_def)
  moreover have "demo_milan_info 1 AND 0x0F = AECP_MSG_VENDOR_UNIQUE_COMMAND" "get_be16 demo_milan_info 28 AND 0x7FFF = MVU_CMD_GET_MILAN_INFO"
    "bytes demo_milan_info 22 6 = MVU_PROTOCOL_ID" by code_simp+
  ultimately obtain a where "hw_sent h' = hw_sent hw0 @ [a]"
    "stored (mem_of a) 44 (put_be16 0 @ put_be32 1 @ put_be32 0 @ put_be32 0x01020000)"
    using mvu_answers_every_command [OF _ _ _ _ _ _ p] by auto
  then show ?thesis using p by (auto simp: hw0_def)
qed

section \<open>The entity model agrees with itself\<close>

text \<open>The descriptor counts a CONFIGURATION descriptor lists: pairs of type and count.\<close>

definition config_listing :: "u8 list \<Rightarrow> (u16 \<times> u16) list" where
  "config_listing d = map (\<lambda>k. (get_be16 (mem_of d) (74 + 4 * k), get_be16 (mem_of d) (76 + 4 * k)))
     [0..<unat (get_be16 (mem_of d) 70)]"

lemma length_write_name64 [simp]: "length (write_name64 xs) = 64"
  by (simp add: write_name64_def Let_def)

lemma config_listing_eq:
  "config_listing (build_desc_configuration 0) =
     [(AEM_DESC_AUDIO_UNIT, 1), (AEM_DESC_STREAM_INPUT, N_STREAM_INPUTS), (AEM_DESC_STREAM_OUTPUT, N_STREAM_OUTPUTS),
      (AEM_DESC_AVB_INTERFACE, 1), (AEM_DESC_CLOCK_SOURCE, N_CLOCK_SOURCES), (AEM_DESC_LOCALE, 1), (AEM_DESC_CLOCK_DOMAIN, 1)]"
proof -
  let ?m = "mem_of (build_desc_configuration 0)"
  have st: "stored ?m 0 (build_desc_configuration 0)" by (rule stored_mem_of)
  then have "stored ?m 70 (put_be16 7)"
    "stored ?m 74 (put_be16 AEM_DESC_AUDIO_UNIT)" "stored ?m 76 (put_be16 1)"
    "stored ?m 78 (put_be16 AEM_DESC_STREAM_INPUT)" "stored ?m 80 (put_be16 N_STREAM_INPUTS)"
    "stored ?m 82 (put_be16 AEM_DESC_STREAM_OUTPUT)" "stored ?m 84 (put_be16 N_STREAM_OUTPUTS)"
    "stored ?m 86 (put_be16 AEM_DESC_AVB_INTERFACE)" "stored ?m 88 (put_be16 1)"
    "stored ?m 90 (put_be16 AEM_DESC_CLOCK_SOURCE)" "stored ?m 92 (put_be16 N_CLOCK_SOURCES)"
    "stored ?m 94 (put_be16 AEM_DESC_LOCALE)" "stored ?m 96 (put_be16 1)"
    "stored ?m 98 (put_be16 AEM_DESC_CLOCK_DOMAIN)" "stored ?m 100 (put_be16 1)"
    unfolding build_desc_configuration_def by (simp_all only: refl simp_thms if_False if_True stored_append length_append length_put_be length_write_name64) simp_all
  then have "get_be16 ?m 70 = 7" "get_be16 ?m 74 = AEM_DESC_AUDIO_UNIT" "get_be16 ?m 76 = 1"
    "get_be16 ?m 78 = AEM_DESC_STREAM_INPUT" "get_be16 ?m 80 = N_STREAM_INPUTS"
    "get_be16 ?m 82 = AEM_DESC_STREAM_OUTPUT" "get_be16 ?m 84 = N_STREAM_OUTPUTS"
    "get_be16 ?m 86 = AEM_DESC_AVB_INTERFACE" "get_be16 ?m 88 = 1"
    "get_be16 ?m 90 = AEM_DESC_CLOCK_SOURCE" "get_be16 ?m 92 = N_CLOCK_SOURCES"
    "get_be16 ?m 94 = AEM_DESC_LOCALE" "get_be16 ?m 96 = 1"
    "get_be16 ?m 98 = AEM_DESC_CLOCK_DOMAIN" "get_be16 ?m 100 = 1"
    by (simp_all only: stored_be16)
  then show ?thesis by (simp add: config_listing_def upt_conv_Cons del: upt_Suc)
qed

lemma one_word: "(i :: u16) < 1 \<longleftrightarrow> i = 0"
  by (simp add: word_less_nat_alt unat_eq_zero)

lemma one_le_word: "1 \<le> (i :: u16) \<longleftrightarrow> i \<noteq> 0"
  by (simp add: not_less [symmetric] one_word)

lemma take4: "take 4 (put_be16 a @ put_be16 b @ r) = put_be16 a @ put_be16 b"
  by simp

lemma builder_headers:
  "build_desc_entity i s = [] \<or> take 4 (build_desc_entity i s) = put_be16 AEM_DESC_ENTITY @ put_be16 i"
  "build_desc_configuration i = [] \<or> take 4 (build_desc_configuration i) = put_be16 AEM_DESC_CONFIGURATION @ put_be16 i"
  "build_desc_audio_unit i = [] \<or> take 4 (build_desc_audio_unit i) = put_be16 AEM_DESC_AUDIO_UNIT @ put_be16 i"
  "build_desc_stream_input i = [] \<or> take 4 (build_desc_stream_input i) = put_be16 AEM_DESC_STREAM_INPUT @ put_be16 i"
  "build_desc_stream_output i = [] \<or> take 4 (build_desc_stream_output i) = put_be16 AEM_DESC_STREAM_OUTPUT @ put_be16 i"
  "build_desc_avb_interface g i s = [] \<or> take 4 (build_desc_avb_interface g i s) = put_be16 AEM_DESC_AVB_INTERFACE @ put_be16 i"
  "build_desc_clock_source i s = [] \<or> take 4 (build_desc_clock_source i s) = put_be16 AEM_DESC_CLOCK_SOURCE @ put_be16 i"
  "build_desc_clock_domain i s = [] \<or> take 4 (build_desc_clock_domain i s) = put_be16 AEM_DESC_CLOCK_DOMAIN @ put_be16 i"
  "build_desc_locale i = [] \<or> take 4 (build_desc_locale i) = put_be16 AEM_DESC_LOCALE @ put_be16 i"
  "build_desc_strings i = [] \<or> take 4 (build_desc_strings i) = put_be16 AEM_DESC_STRINGS @ put_be16 i"
  "build_desc_stream_port t i = [] \<or> take 4 (build_desc_stream_port t i) = put_be16 t @ put_be16 i"
  unfolding build_desc_entity_def build_desc_configuration_def build_desc_audio_unit_def
      build_desc_stream_input_def build_desc_stream_output_def build_desc_avb_interface_def build_desc_clock_source_def
      build_desc_clock_domain_def build_desc_locale_def build_desc_strings_def build_desc_stream_port_def Let_def
  by (simp_all only: take4 split: if_split prod.split) auto

lemma desc_header: "build_desc g s dt i = [] \<or> take 4 (build_desc g s dt i) = put_be16 dt @ put_be16 i"
  unfolding build_desc_def by (simp add: builder_headers split: if_split)

lemma desc_served: "(t, n) \<in> set (config_listing (build_desc_configuration 0)) \<Longrightarrow> build_desc g s t i \<noteq> [] \<longleftrightarrow> i < n"
  unfolding config_listing_eq
  by (auto simp: build_desc_def aem_desc_codes aem_sizes one_word one_le_word build_desc_audio_unit_def
      build_desc_stream_input_def build_desc_stream_output_def build_desc_avb_interface_def build_desc_clock_source_def
      build_desc_clock_domain_def build_desc_locale_def Let_def put_be16_def not_less split: prod.split)

text \<open>Where a descriptor keeps its name, and a stream descriptor its format.\<close>

definition desc_name :: "u16 \<Rightarrow> u8 list \<Rightarrow> u8 list" where
  "desc_name dt d = take 64 (drop (if dt = AEM_DESC_ENTITY then 48 else 4) d)"

definition desc_format :: "u8 list \<Rightarrow> u8 list" where
  "desc_format d = take 8 (drop 74 d)"

text \<open>The builder of each type that has a name.\<close>

lemma build_desc_of:
  "build_desc g s AEM_DESC_ENTITY i = build_desc_entity i s"
  "build_desc g s AEM_DESC_CONFIGURATION i = build_desc_configuration i"
  "build_desc g s AEM_DESC_AUDIO_UNIT i = build_desc_audio_unit i"
  "build_desc g s AEM_DESC_STREAM_INPUT i = build_desc_stream_input i"
  "build_desc g s AEM_DESC_STREAM_OUTPUT i = build_desc_stream_output i"
  "build_desc g s AEM_DESC_AVB_INTERFACE i = build_desc_avb_interface g i s"
  "build_desc g s AEM_DESC_CLOCK_SOURCE i = build_desc_clock_source i s"
  "build_desc g s AEM_DESC_CLOCK_DOMAIN i = build_desc_clock_domain i s"
  by (simp_all add: build_desc_def aem_desc_codes)

lemma desc_names:
  assumes "length (v_entity_id s) = 8" and "object_name dt i 0 = Some n"
  shows "desc_name dt (build_desc g s dt i) = write_name64 (ascii n)"
proof -
  have m: "length ENTITY_MODEL_ID = 8" by (simp add: ENTITY_MODEL_ID_def)
  have e: "dt \<noteq> AEM_DESC_ENTITY \<Longrightarrow> desc_name dt (put_be16 a @ put_be16 b @ write_name64 c @ r) = write_name64 c" for a b c r
    by (simp add: desc_name_def)
  have ne: "AEM_DESC_ENTITY \<noteq> AEM_DESC_CONFIGURATION" "AEM_DESC_ENTITY \<noteq> AEM_DESC_AUDIO_UNIT" "AEM_DESC_ENTITY \<noteq> AEM_DESC_STREAM_INPUT"
    "AEM_DESC_ENTITY \<noteq> AEM_DESC_STREAM_OUTPUT" "AEM_DESC_ENTITY \<noteq> AEM_DESC_AVB_INTERFACE" "AEM_DESC_ENTITY \<noteq> AEM_DESC_CLOCK_SOURCE"
    "AEM_DESC_ENTITY \<noteq> AEM_DESC_CLOCK_DOMAIN" by (simp_all add: aem_desc_codes)
  consider "dt = AEM_DESC_ENTITY" "i = 0" "n = ''AVB-AES3 Endpoint''" | "dt = AEM_DESC_CONFIGURATION" "i = 0" "n = ''Default''"
    | "dt = AEM_DESC_AUDIO_UNIT" "i = 0" "n = ''Audio Unit''"
    | "dt = AEM_DESC_STREAM_INPUT" "i < N_STREAM_INPUTS" "n = (if i = 0 then ''Media Clock Input'' else ''Audio Input'')"
    | "dt = AEM_DESC_STREAM_OUTPUT" "i < N_STREAM_OUTPUTS" "n = ''Audio Output''" | "dt = AEM_DESC_AVB_INTERFACE" "i = 0" "n = ''Ethernet''"
    | "dt = AEM_DESC_CLOCK_SOURCE" "i < N_CLOCK_SOURCES" "n = (if i = 0 then ''Internal'' else ''Media Clock'')"
    | "dt = AEM_DESC_CLOCK_DOMAIN" "i = 0" "n = ''Clock Domain''"
    using assms(2) unfolding object_name_def by (simp split: if_splits)
  then show ?thesis
  proof cases
    case 1
    then show ?thesis using assms(1) m by (simp add: build_desc_of build_desc_entity_def desc_name_def)
  next
    case 2
    then show ?thesis using e ne by (simp add: build_desc_of build_desc_configuration_def)
  next
    case 3
    then show ?thesis using e ne by (simp add: build_desc_of build_desc_audio_unit_def)
  next
    case 4
    then show ?thesis using e ne unfolding 4(1) build_desc_of build_desc_stream_input_def
      by (simp add: LISTENER_CRF_INDEX_def not_le [symmetric])
  next
    case 5
    then show ?thesis using e ne by (simp add: build_desc_of build_desc_stream_output_def not_le [symmetric])
  next
    case 6
    then show ?thesis using e ne by (simp add: build_desc_of build_desc_avb_interface_def)
  next
    case 7
    then show ?thesis using e ne unfolding 7(1) build_desc_of build_desc_clock_source_def
      by (simp add: CLK_SRC_INTERNAL_def not_le [symmetric])
  next
    case 8
    then show ?thesis using e ne by (simp add: build_desc_of build_desc_clock_domain_def)
  qed
qed

lemma desc_formats:
  assumes "stream_format_of dt i = Some f"
  shows "desc_format (build_desc g s dt i) = f"
proof -
  have l: "length STREAM_FMT_CRF_48K = 8" "length STREAM_FMT_AAF_8CH_48K = 8"
    by (simp_all add: STREAM_FMT_CRF_48K_def STREAM_FMT_AAF_8CH_48K_def)
  have f: "desc_format (a @ b @ c @ d @ e @ x @ fmt @ r) = fmt"
    if "length a = 2" "length b = 2" "length c = 64" "length d = 2" "length e = 2" "length x = 2" "length fmt = 8" for a b c d e x fmt r
    using that by (simp add: desc_format_def)
  consider "dt = AEM_DESC_STREAM_INPUT" "i = LISTENER_CRF_INDEX" "f = STREAM_FMT_CRF_48K"
    | "dt = AEM_DESC_STREAM_INPUT" "i = LISTENER_AAF_INDEX" "f = STREAM_FMT_AAF_8CH_48K"
    | "dt = AEM_DESC_STREAM_OUTPUT" "i = TALKER_AAF_INDEX" "f = STREAM_FMT_AAF_8CH_48K"
    using assms by (auto simp: stream_format_of_def split: if_splits)
  then show ?thesis
  proof cases
    case 1
    then have "build_desc g s dt i = build_desc_stream_input LISTENER_CRF_INDEX"
      by (simp add: build_desc_def aem_desc_codes)
    then show ?thesis using 1(3) by (simp add: build_desc_stream_input_def aem_sizes f l)
  next
    case 2
    then have "build_desc g s dt i = build_desc_stream_input LISTENER_AAF_INDEX"
      by (simp add: build_desc_def aem_desc_codes)
    moreover have "\<not> (2 :: u16) \<le> 1" by (simp add: word_le_nat_alt)
    ultimately show ?thesis using 2(3) by (simp add: build_desc_stream_input_def aem_sizes f l)
  next
    case 3
    then have "build_desc g s dt i = build_desc_stream_output TALKER_AAF_INDEX"
      by (simp add: build_desc_def aem_desc_codes)
    then show ?thesis using 3(3) by (simp add: build_desc_stream_output_def aem_sizes f l)
  qed
qed

text \<open>
  C30. The entity model a controller enumerates is consistent.  Every descriptor that the
  CONFIGURATION counts is served and none beyond the count; a served descriptor carries the type
  and index it was asked for; GET_NAME answers the name the descriptor shows, and
  GET_STREAM_FORMAT the format the stream descriptor shows.
\<close>

theorem aem_model_consistent:
  assumes "length (v_entity_id s) = 8"
  shows "list_all (\<lambda>(t, n). build_desc g s t i \<noteq> [] \<longleftrightarrow> i < n) (config_listing (build_desc g s AEM_DESC_CONFIGURATION 0))
    \<and> map fst (config_listing (build_desc g s AEM_DESC_CONFIGURATION 0))
        = [AEM_DESC_AUDIO_UNIT, AEM_DESC_STREAM_INPUT, AEM_DESC_STREAM_OUTPUT, AEM_DESC_AVB_INTERFACE,
           AEM_DESC_CLOCK_SOURCE, AEM_DESC_LOCALE, AEM_DESC_CLOCK_DOMAIN]
    \<and> (build_desc g s dt i = [] \<or> take 4 (build_desc g s dt i) = put_be16 dt @ put_be16 i)
    \<and> (case object_name dt i 0 of None \<Rightarrow> True
       | Some n \<Rightarrow> desc_name dt (build_desc g s dt i) = write_name64 (ascii n))
    \<and> (case stream_format_of dt i of None \<Rightarrow> True
       | Some f \<Rightarrow> desc_format (build_desc g s dt i) = f)"
proof -
  have c: "build_desc g s AEM_DESC_CONFIGURATION 0 = build_desc_configuration 0"
    by (simp add: build_desc_def aem_desc_codes)
  have "list_all (\<lambda>(t, n). build_desc g s t i \<noteq> [] \<longleftrightarrow> i < n) (config_listing (build_desc_configuration 0))"
    unfolding list_all_iff using desc_served by blast
  moreover have "map fst (config_listing (build_desc_configuration 0))
        = [AEM_DESC_AUDIO_UNIT, AEM_DESC_STREAM_INPUT, AEM_DESC_STREAM_OUTPUT, AEM_DESC_AVB_INTERFACE,
           AEM_DESC_CLOCK_SOURCE, AEM_DESC_LOCALE, AEM_DESC_CLOCK_DOMAIN]"
    unfolding config_listing_eq by simp
  ultimately show ?thesis
    unfolding c using desc_header [of g s dt i] desc_names [OF assms, of dt i] desc_formats [of dt i]
    by (auto split: option.split)
qed

theorem aem_model_consistent_witness:
  "desc_name AEM_DESC_CLOCK_SOURCE (build_desc None (avdecc_zero\<lparr>v_entity_id := [2, 0, 0, 0xFF, 0xFE, 0, 0, 1]\<rparr>) AEM_DESC_CLOCK_SOURCE 1)
    = write_name64 (ascii ''Media Clock'')"
  using aem_model_consistent [of "avdecc_zero\<lparr>v_entity_id := [2, 0, 0, 0xFF, 0xFE, 0, 0, 1]\<rparr>" None 1 AEM_DESC_CLOCK_SOURCE]
  by (simp add: object_name_def aem_desc_codes N_CLOCK_SOURCES_def)

end
