(* ===== verification/Board.thy ===== *)
theory Board
  imports Aaf AecpProps
begin

text \<open>
  The main program (firmware/main.c): the protocol modules wired together.  \<open>board\<close> collects
  the static variables of main.c, the function-local statics included, and the registers and
  queues that only main.c touches; a \<open>machine\<close> adds the hardware record of the modules.

  \<^item> \<open>dispatch_rx\<close> takes frames from the queue of received slots and hands them to the module
    their EtherType and AVTP subtype name.
  \<^item> The callbacks \<open>on_talker_advertise\<close>, \<open>on_talker_connect\<close> and so on couple SRP and AVDECC
    with the stream engines, the hardware stream filter (\<open>b_slot0\<close>) and the gateware
    packetizer (\<open>b_pkt\<close>).  \<open>srp_callback\<close> and \<open>board_callbacks\<close> give them the types the
    modules call: a module's own state is taken out of the board while it runs.
  \<^item> \<open>usb_aaf_drain\<close>, \<open>dac_writer\<close>, \<open>track_listener_locks\<close>, \<open>sync_vlan\<close> and the UART commands
    are the other parts of the main loop, \<open>main_iteration\<close> one pass of it and \<open>main_init\<close>
    the code before it.

  Queues are what the hardware holds when they are read: received slots, USB samples, the
  extractor's channel FIFOs and UART characters.  The free-running counters that only the
  benchmark reads are arbitrary functions of the number of the reading.
\<close>

section \<open>Constants\<close>

definition mac_addr :: "u8 list" where "mac_addr = [0x02, 0x00, 0x00, 0x00, 0x00, 0x42]"
definition LISTENER_UID_CRF :: u16 where "LISTENER_UID_CRF = 0"
definition LISTENER_UID_AAF :: u16 where "LISTENER_UID_AAF = 1"
definition TALKER_UID_AAF :: u16 where "TALKER_UID_AAF = 0"
definition AVTP_FILTER_SLOT_CRF :: int where "AVTP_FILTER_SLOT_CRF = -1"
definition AVTP_FILTER_SLOT_AAF :: int where "AVTP_FILTER_SLOT_AAF = 0"
definition N_PENDING :: nat where "N_PENDING = 2"
definition AAF_CHANNELS :: nat where "AAF_CHANNELS = 8"

lemmas board_uids = LISTENER_UID_CRF_def LISTENER_UID_AAF_def TALKER_UID_AAF_def
  AVTP_FILTER_SLOT_CRF_def AVTP_FILTER_SLOT_AAF_def N_PENDING_def

section \<open>State\<close>

record pending_bind =
  pb_active :: u8
  pb_uid :: u8
  pb_dest_mac :: "u8 list"
  pb_talker_entity_id :: "u8 list"
  pb_talker_uid :: u16

text \<open>Slot 0 of the hardware stream filter, and the registers of the gateware packetizer.\<close>

record filter_slot =
  fs_sid_hi :: u32
  fs_sid_lo :: u32
  fs_mac_hi :: u32
  fs_mac_lo :: u32
  fs_enabled :: u32

record aaf_pkt =
  pk_src_hi :: u32
  pk_src_lo :: u32
  pk_dst_hi :: u32
  pk_dst_lo :: u32
  pk_sid_hi :: u32
  pk_sid_lo :: u32
  pk_vlan_tci :: u32
  pk_enable :: u32

record bench_t =
  window_start_ms :: u32
  s_writer_errors :: u32
  s_rx_avtp_aaf :: u32
  s_rx_avtp_crf :: u32
  s_dac_samples :: u32
  s_dac_underruns :: u32
  s_aecp_rx :: u32
  s_aecp_tx :: u32
  s_sync_rx :: u32
  s_pdresp_rx :: u32
  last_iter_ns :: u32
  max_iter_ns :: u32
  sum_iter_ns :: u64
  iter_count :: u32
  r_writer_errors :: u32
  r_aaf :: u32
  r_crf :: u32
  r_dac_samples :: u32
  r_dac_underruns :: u32
  r_aecp_rx :: u32
  r_aecp_tx :: u32
  r_sync_rx :: u32
  r_pdresp_rx :: u32
  r_iter_per_sec :: u32
  r_iter_avg_ns :: u32
  r_iter_max_ns :: u32

text \<open>A received slot: the time stamp in the ring, the memory of the slot, the length.\<close>

record rx_slot =
  rx_ts :: ptp_timestamp
  rx_mem :: mem
  rx_len :: u32

record board =
  b_gptp :: gptp_t
  b_srp :: srp_state
  b_avdecc :: avdecc_state
  b_mcr :: mcr_state
  b_aaf :: aaf_state
  b_pending :: "pending_bind list"
  b_aaf_gw_enabled :: u8
  b_dac_sample_count :: u32
  b_dac_underrun_count :: u32
  b_dac_last_sample_tick :: u32
  b_rx_total :: u32
  b_rx_ptp :: u32
  b_rx_avtp :: u32
  b_rx_msrp :: u32
  b_rx_other :: u32
  b_rx_last_ethertype :: u16
  b_rx_last_dst :: "u8 list"
  b_rx_last_src :: "u8 list"
  b_rx_avb_stream_mcast :: u32
  b_rx_avtp_crf :: u32
  b_rx_avtp_aaf :: u32
  b_rx_crf_last_sid :: "u8 list"
  b_usb_to_aaf_frames :: u32
  b_bench :: bench_t
  b_scratch :: mem
  b_prev_aaf_locked :: u8
  b_last_prio :: u8
  b_last_vid :: u16
  b_usb_block :: "u32 list"
  b_usb_have :: u8
  b_utap :: u8
  b_slot0 :: filter_slot
  b_pkt :: aaf_pkt
  b_rx :: "rx_slot list"
  b_usb_fifo :: "u32 list"
  b_ch_select :: u32
  b_ch_fifo :: "u32 \<Rightarrow> u32 list"
  b_i2s :: "(u32 \<times> u32) list"
  b_uart :: string
  b_ulpi_tap :: u32
  b_reset :: u32
  b_tsu_ns :: "nat \<Rightarrow> u32"
  b_tsu_ns_k :: nat
  b_writer_errors :: "nat \<Rightarrow> u32"
  b_writer_errors_k :: nat

type_synonym machine = "board \<times> hw"

section \<open>Stream filter and packetizer registers\<close>

definition be32_at :: "u8 list \<Rightarrow> nat \<Rightarrow> u32" where
  "be32_at xs k = get_be32 (mem_of xs) k"

definition be16_at :: "u8 list \<Rightarrow> nat \<Rightarrow> u32" where
  "be16_at xs k = push_bit 8 (ucast (xs ! k)) OR ucast (xs ! (k + 1))"

definition avtp_filter_set_slot :: "int \<Rightarrow> u8 list \<Rightarrow> u8 list \<Rightarrow> board \<Rightarrow> board" where
  "avtp_filter_set_slot slot stream_id dest_mac b =
     (if slot \<noteq> AVTP_FILTER_SLOT_AAF then b
      else b\<lparr>b_slot0 := \<lparr>fs_sid_hi = be32_at stream_id 0, fs_sid_lo = be32_at stream_id 4,
                          fs_mac_hi = be16_at dest_mac 0, fs_mac_lo = be32_at dest_mac 2, fs_enabled = 1\<rparr>\<rparr>)"

definition avtp_filter_clear_slot :: "int \<Rightarrow> board \<Rightarrow> board" where
  "avtp_filter_clear_slot slot b =
     (if slot \<noteq> AVTP_FILTER_SLOT_AAF then b else b\<lparr>b_slot0 := (b_slot0 b)\<lparr>fs_enabled := 0\<rparr>\<rparr>)"

definition aaf_gw_push_binding :: "board \<Rightarrow> board" where
  "aaf_gw_push_binding b =
     (let a = b_aaf b
      in b\<lparr>b_pkt := (b_pkt b)\<lparr>pk_src_hi := be16_at (a_src_mac a) 0, pk_src_lo := be32_at (a_src_mac a) 2,
             pk_dst_hi := be16_at (a_dest_mac a) 0, pk_dst_lo := be32_at (a_dest_mac a) 2,
             pk_sid_hi := be32_at (a_stream_id a) 0, pk_sid_lo := be32_at (a_stream_id a) 4,
             pk_vlan_tci := push_bit 13 (ucast (a_tx_pcp a AND 0x07)) OR ucast (a_tx_vid a AND 0x0FFF)\<rparr>\<rparr>)"

definition aaf_gw_set :: "u8 \<Rightarrow> board \<Rightarrow> board" where
  "aaf_gw_set on b =
     (let b1 = (if on \<noteq> 0 then let b' = aaf_gw_push_binding b in b'\<lparr>b_pkt := (b_pkt b')\<lparr>pk_enable := 1\<rparr>\<rparr>
                else b\<lparr>b_pkt := (b_pkt b)\<lparr>pk_enable := 0\<rparr>\<rparr>)
      in b1\<lparr>b_aaf_gw_enabled := on\<rparr>)"

section \<open>Running a module on its part of the board\<close>

definition on_gptp :: "(gptp_t \<times> hw \<Rightarrow> gptp_t \<times> hw) \<Rightarrow> machine \<Rightarrow> machine" where
  "on_gptp f = (\<lambda>(b, h). let (g, h') = f (b_gptp b, h) in (b\<lparr>b_gptp := g\<rparr>, h'))"

definition on_srp :: "(srp_state \<times> hw \<Rightarrow> srp_state \<times> hw) \<Rightarrow> machine \<Rightarrow> machine" where
  "on_srp f = (\<lambda>(b, h). let (s, h') = f (b_srp b, h) in (b\<lparr>b_srp := s\<rparr>, h'))"

definition on_avdecc :: "(avdecc_state \<times> hw \<Rightarrow> avdecc_state \<times> hw) \<Rightarrow> machine \<Rightarrow> machine" where
  "on_avdecc f = (\<lambda>(b, h). let (v, h') = f (b_avdecc b, h) in (b\<lparr>b_avdecc := v\<rparr>, h'))"

definition on_mcr :: "(mcr_state \<times> hw \<Rightarrow> mcr_state \<times> hw) \<Rightarrow> machine \<Rightarrow> machine" where
  "on_mcr f = (\<lambda>(b, h). let (m, h') = f (b_mcr b, h) in (b\<lparr>b_mcr := m\<rparr>, h'))"

definition on_aaf :: "(aaf_state \<times> hw \<Rightarrow> aaf_state \<times> hw) \<Rightarrow> machine \<Rightarrow> machine" where
  "on_aaf f = (\<lambda>(b, h). let (a, h') = f (b_aaf b, h) in (b\<lparr>b_aaf := a\<rparr>, h'))"

section \<open>Callbacks\<close>

definition stream_id_is_zero :: "u8 list \<Rightarrow> bool" where
  "stream_id_is_zero sid \<longleftrightarrow> foldl (OR) 0 sid = 0"

definition mac_eq :: "u8 list \<Rightarrow> u8 list \<Rightarrow> bool" where
  "mac_eq a b \<longleftrightarrow> foldl (OR) 0 (map2 (XOR) a b) = 0"

definition dest_or_eid_match :: "pending_bind \<Rightarrow> u8 list \<Rightarrow> u8 list \<Rightarrow> bool" where
  "dest_or_eid_match p adv_sid adv_dest =
     (let dest_zero = list_all (\<lambda>x. x = 0) (pb_dest_mac p);
          e = pb_talker_entity_id p;
          eid_zero = list_all (\<lambda>x. x = 0) e
      in if \<not> dest_zero \<and> mac_eq (pb_dest_mac p) adv_dest then True
         else if \<not> eid_zero \<and> e ! 0 = adv_sid ! 0 \<and> e ! 1 = adv_sid ! 1 \<and> e ! 2 = adv_sid ! 2 then
           (e ! 3 = 0xFF \<and> e ! 4 = 0xFE)
           \<or> (e ! 3 = adv_sid ! 3 \<and> e ! 4 = adv_sid ! 4 \<and> e ! 5 = adv_sid ! 5)
         else False)"

text \<open>What the registrar knows of a stream, copied into a listener entry.\<close>

definition copy_msrp :: "srp_state \<Rightarrow> u8 list \<Rightarrow> avdecc_listener_stream \<Rightarrow> avdecc_listener_stream" where
  "copy_msrp s sid l =
     (case srp_find_talker (s_remote_talkers s) sid of
        None \<Rightarrow> l
      | Some t \<Rightarrow> l\<lparr>vl_msrp_accumulated_latency_ns := rt_accumulated_latency_ns t, vl_stream_vlan_id := rt_vlan_id t\<rparr>)"

definition set_listener :: "nat \<Rightarrow> (avdecc_listener_stream \<Rightarrow> avdecc_listener_stream) \<Rightarrow> board \<Rightarrow> board" where
  "set_listener i f b =
     b\<lparr>b_avdecc := (b_avdecc b)\<lparr>v_listeners := (v_listeners (b_avdecc b))[i := f (v_listeners (b_avdecc b) ! i)]\<rparr>\<rparr>"

text \<open>Binding the engine of a listener and its hardware filter slot.\<close>

definition bind_engine :: "u16 \<Rightarrow> u8 list \<Rightarrow> u8 list \<Rightarrow> machine \<Rightarrow> machine" where
  "bind_engine uid stream_id dest_mac = (\<lambda>(b, h).
     if uid = LISTENER_UID_CRF then
       let (b1, h1) = on_mcr (mcr_bind stream_id) (b, h)
       in (avtp_filter_set_slot AVTP_FILTER_SLOT_CRF stream_id dest_mac b1, h1)
     else if uid = LISTENER_UID_AAF then
       (avtp_filter_set_slot AVTP_FILTER_SLOT_AAF stream_id dest_mac (b\<lparr>b_aaf := aaf_bind (b_aaf b) stream_id\<rparr>), h)
     else (b, h))"

definition learn_binding :: "u8 list \<Rightarrow> u8 list \<Rightarrow> nat \<Rightarrow> machine \<Rightarrow> machine" where
  "learn_binding stream_id dest_mac i = (\<lambda>(b, h).
     let p = b_pending b ! i
     in if pb_active p = 0 then (b, h)
        else if \<not> dest_or_eid_match p stream_id dest_mac then (b, h)
        else
          let b1 = (if ucast (pb_uid p) < AVDECC_MAX_LISTENERS
                    then set_listener (unat (pb_uid p))
                           (\<lambda>l. copy_msrp (b_srp b) stream_id (l\<lparr>vl_stream_id := stream_id, vl_dest_mac := dest_mac\<rparr>)) b
                    else b);
              (b2, h2) = on_srp (srp_listener_enable stream_id 1) (b1, h);
              (b3, h3) = bind_engine (ucast (pb_uid p)) stream_id (pb_dest_mac p) (b2, h2)
          in (b3\<lparr>b_pending := (b_pending b3)[i := p\<lparr>pb_active := 0\<rparr>]\<rparr>, h3))"

definition on_talker_advertise :: "u8 list \<Rightarrow> u8 list \<Rightarrow> machine \<Rightarrow> machine" where
  "on_talker_advertise stream_id dest_mac = fold (learn_binding stream_id dest_mac) [0..<N_PENDING]"

definition on_talker_connect :: "u16 \<Rightarrow> machine \<Rightarrow> machine" where
  "on_talker_connect uid = (\<lambda>w.
     if uid \<noteq> TALKER_UID_AAF then w
     else
       let (b1, h1) = on_aaf (\<lambda>(a, h). aaf_tx_enable a 1 h) w
       in (aaf_gw_set 1 (b1\<lparr>b_srp := srp_talker_enable (b_srp b1) 1\<rparr>), h1))"

definition on_talker_disconnect :: "u16 \<Rightarrow> machine \<Rightarrow> machine" where
  "on_talker_disconnect uid = (\<lambda>(b, h).
     if uid \<noteq> TALKER_UID_AAF then (b, h)
     else
       let (b1, h1) = on_aaf (\<lambda>(a, h). aaf_tx_enable a 0 h) (aaf_gw_set 0 b, h)
       in (b1\<lparr>b_srp := srp_talker_enable (b_srp b1) 0\<rparr>, h1))"

definition on_listener_connect :: "u16 \<Rightarrow> u8 list \<Rightarrow> u8 list \<Rightarrow> u8 list \<Rightarrow> machine \<Rightarrow> machine" where
  "on_listener_connect uid stream_id dest_mac talker_entity_id = (\<lambda>(b, h).
     if uid \<ge> of_nat N_PENDING then (b, h)
     else if stream_id_is_zero stream_id then
       (b\<lparr>b_pending := (b_pending b)[unat uid := \<lparr>pb_active = 1, pb_uid = ucast uid, pb_dest_mac = dest_mac,
                                       pb_talker_entity_id = talker_entity_id, pb_talker_uid = 0\<rparr>]\<rparr>, h)
     else
       let b1 = b\<lparr>b_pending := (b_pending b)[unat uid := (b_pending b ! unat uid)\<lparr>pb_active := 0\<rparr>]\<rparr>;
           b2 = set_listener (unat uid) (copy_msrp (b_srp b1) stream_id) b1
       in bind_engine uid stream_id dest_mac (on_srp (srp_listener_enable stream_id 1) (b2, h)))"

text \<open>Unbinding an engine, with the withdrawal of the declaration of its stream.\<close>

definition withdraw :: "u8 list \<Rightarrow> machine \<Rightarrow> machine" where
  "withdraw sid = on_srp (srp_listener_enable sid 0)"

definition on_listener_disconnect :: "u16 \<Rightarrow> machine \<Rightarrow> machine" where
  "on_listener_disconnect uid = (\<lambda>(b, h).
     let b1 = (if uid < of_nat N_PENDING
               then b\<lparr>b_pending := (b_pending b)[unat uid := (b_pending b ! unat uid)\<lparr>pb_active := 0\<rparr>]\<rparr>
               else b)
     in if uid = LISTENER_UID_CRF then
          let w = (if m_bound (b_mcr b1) \<noteq> 0 then withdraw (m_stream_id (b_mcr b1)) (b1, h) else (b1, h));
              (b2, h2) = on_mcr mcr_unbind w
          in (avtp_filter_clear_slot AVTP_FILTER_SLOT_CRF b2, h2)
        else if uid = LISTENER_UID_AAF then
          let (b2, h2) = (if a_bound (b_aaf b1) \<noteq> 0 then withdraw (a_stream_id (b_aaf b1)) (b1, h) else (b1, h))
          in (avtp_filter_clear_slot AVTP_FILTER_SLOT_AAF
                (b2\<lparr>b_aaf := (aaf_unbind (b_aaf b2))\<lparr>a_rx_audio_capture := 0\<rparr>\<rparr>), h2)
        else (b1, h))"

text \<open>The types the modules call: the state of the calling module travels beside the board.\<close>

definition from_srp :: "(machine \<Rightarrow> machine) \<Rightarrow> board world \<Rightarrow> board world" where
  "from_srp f = (\<lambda>(s, h, b). let (b', h') = f (b\<lparr>b_srp := s\<rparr>, h) in (b_srp b', h', b'))"

definition from_avdecc :: "(machine \<Rightarrow> machine) \<Rightarrow> board vworld \<Rightarrow> board vworld" where
  "from_avdecc f = (\<lambda>(v, h, b). let (b', h') = f (b\<lparr>b_avdecc := v\<rparr>, h) in (b_avdecc b', h', b'))"

definition srp_callback :: "board callback option" where
  "srp_callback = Some (\<lambda>sid dest. from_srp (on_talker_advertise sid dest))"

definition board_callbacks :: "board avdecc_callbacks" where
  "board_callbacks =
     \<lparr>cb_talker_connect = Some (\<lambda>uid _. from_avdecc (on_talker_connect uid)),
      cb_talker_disconnect = Some (\<lambda>uid. from_avdecc (on_talker_disconnect uid)),
      cb_listener_connect = Some (\<lambda>uid sid dest tid. from_avdecc (on_listener_connect uid sid dest tid)),
      cb_listener_disconnect = Some (\<lambda>uid. from_avdecc (on_listener_disconnect uid)),
      cb_clock_source_change = None\<rparr>"

section \<open>Reception\<close>

definition board_avdecc_rx :: "mem \<Rightarrow> u32 \<Rightarrow> machine \<Rightarrow> machine" where
  "board_avdecc_rx frame len = (\<lambda>(b, h).
     let (v, h', b') = avdecc_process_rx board_callbacks (Some (b_gptp b)) (Some (b_srp b)) frame len (b_avdecc b, h, b)
     in (b'\<lparr>b_avdecc := v\<rparr>, h'))"

definition board_srp_rx :: "mem \<Rightarrow> u32 \<Rightarrow> machine \<Rightarrow> machine" where
  "board_srp_rx frame len = (\<lambda>(b, h).
     let (s, h', b') = srp_process_rx srp_callback frame len (b_srp b, h, b)
     in (b'\<lparr>b_srp := s\<rparr>, h'))"

text \<open>
  Where a handler finds the frame: stream data in the slot itself, past a VLAN tag; everything
  else in the scratch buffer with the tag cut out.
\<close>

definition vlan_shift :: "mem \<Rightarrow> u32 \<Rightarrow> u32" where
  "vlan_shift m len = (if len \<ge> 18 \<and> get_be16 m 12 = 0x8100 then 4 else 0)"

definition is_avtp_data :: "mem \<Rightarrow> u32 \<Rightarrow> bool" where
  "is_avtp_data m len =
     (let v = vlan_shift m len;
          et = (if len \<ge> 14 + v then get_be16 m (12 + unat v) else 0);
          st = (if et = AVTP_ETHERTYPE \<and> len \<ge> 15 + v then m (14 + unat v) else 0xFF)
      in st = AVTP_SUBTYPE_AAF \<or> st = AVTP_SUBTYPE_CRF)"

definition scratch_copy :: "mem \<Rightarrow> u32 \<Rightarrow> u32 \<Rightarrow> mem \<Rightarrow> mem" where
  "scratch_copy slot len v scratch =
     (let m1 = (\<lambda>i. if i < unat len then slot i else scratch i)
      in if v \<noteq> 0 then (\<lambda>i. if 12 \<le> i \<and> i < 12 + (unat len - 16) then m1 (i + 4) else m1 i) else m1)"

text \<open>The demultiplexer: \<open>frame\<close> is what the handlers see, \<open>slot\<close> the received slot itself.\<close>

definition demux :: "mem \<Rightarrow> mem \<Rightarrow> u32 \<Rightarrow> machine \<Rightarrow> machine" where
  "demux slot frame len = (\<lambda>(b, h).
     let ethertype = get_be16 frame 12;
         b1 = b\<lparr>b_rx_total := b_rx_total b + 1, b_rx_last_ethertype := ethertype,
                b_rx_last_dst := bytes slot 0 6, b_rx_last_src := bytes slot 6 6,
                b_rx_avb_stream_mcast := (if slot 0 = 0x91 \<and> slot 1 = 0xe0 \<and> slot 2 = 0xf0 \<and> slot 3 = 0
                                          then b_rx_avb_stream_mcast b + 1 else b_rx_avb_stream_mcast b)\<rparr>
     in if ethertype = PTP_ETHERTYPE then on_gptp (gptp_process_rx frame len) (b1\<lparr>b_rx_ptp := b_rx_ptp b1 + 1\<rparr>, h)
        else if ethertype = AVTP_ETHERTYPE then
          let b2 = b1\<lparr>b_rx_avtp := b_rx_avtp b1 + 1\<rparr>;
              subtype = frame 14
          in if len < 15 then (b2, h)
             else if subtype = AVTP_SUBTYPE_ADP \<or> subtype = AVTP_SUBTYPE_AECP \<or> subtype = AVTP_SUBTYPE_ACMP
             then board_avdecc_rx frame len (b2, h)
             else if subtype = AVTP_SUBTYPE_CRF then
               on_mcr (mcr_process_rx frame len)
                 (b2\<lparr>b_rx_avtp_crf := b_rx_avtp_crf b2 + 1,
                     b_rx_crf_last_sid := (if len \<ge> 14 + 12 then bytes frame 18 8 else b_rx_crf_last_sid b2)\<rparr>, h)
             else if subtype = AVTP_SUBTYPE_AAF then
               (b2\<lparr>b_rx_avtp_aaf := b_rx_avtp_aaf b2 + 1, b_aaf := aaf_process_rx (b_aaf b2) frame len\<rparr>, h)
             else (b2, h)
        else if ethertype = MSRP_ETHERTYPE then board_srp_rx frame len (b1\<lparr>b_rx_msrp := b_rx_msrp b1 + 1\<rparr>, h)
        else (b1\<lparr>b_rx_other := b_rx_other b1 + 1\<rparr>, h))"

definition dispatch_frame :: "rx_slot \<Rightarrow> machine \<Rightarrow> machine" where
  "dispatch_frame r = (\<lambda>(b, h0).
     let slot = rx_mem r;
         h = h0\<lparr>hw_rx_ts := rx_ts r\<rparr>;
         v = vlan_shift slot (rx_len r)
     in if is_avtp_data slot (rx_len r) then
          let frame = (\<lambda>i. slot (i + unat v));
              len = rx_len r - v
          in if len \<ge> 14 then demux slot frame len (b, h) else (b, h)
        else
          let len0 = (if rx_len r > 1600 then 1600 else rx_len r);
              frame = scratch_copy slot len0 v (b_scratch b);
              len = (if v \<noteq> 0 then len0 - 4 else len0)
          in if len \<ge> 14 then demux slot frame len (b\<lparr>b_scratch := frame\<rparr>, h) else (b\<lparr>b_scratch := frame\<rparr>, h))"

text \<open>The drain loop; \<open>budget\<close> is \<open>drain_budget\<close>.\<close>

fun dispatch_loop :: "nat \<Rightarrow> machine \<Rightarrow> machine" where
  "dispatch_loop 0 w = w"
| "dispatch_loop (Suc budget) (b, h) =
     (case b_rx b of
        [] \<Rightarrow> (b, h)
      | r # rs \<Rightarrow> dispatch_loop budget (dispatch_frame r (b\<lparr>b_rx := rs\<rparr>, h)))"

definition dispatch_rx :: "machine \<Rightarrow> machine" where
  "dispatch_rx = dispatch_loop 64"

section \<open>The benchmark window\<close>

definition tsu_nanoseconds_read :: "board \<Rightarrow> u32 \<times> board" where
  "tsu_nanoseconds_read b = (b_tsu_ns b (b_tsu_ns_k b), b\<lparr>b_tsu_ns_k := b_tsu_ns_k b + 1\<rparr>)"

definition writer_errors_read :: "board \<Rightarrow> u32 \<times> board" where
  "writer_errors_read b = (b_writer_errors b (b_writer_errors_k b), b\<lparr>b_writer_errors_k := b_writer_errors_k b + 1\<rparr>)"

definition bench_iteration :: "u32 \<Rightarrow> bench_t \<Rightarrow> bench_t" where
  "bench_iteration now_ns n =
     (let n1 = (if last_iter_ns n \<noteq> 0 then
                  let dt0 = now_ns - last_iter_ns n;
                      dt = (if sint dt0 < 0 then dt0 + 1000000000 else dt0)
                  in n\<lparr>max_iter_ns := (if dt > max_iter_ns n then dt else max_iter_ns n),
                       sum_iter_ns := sum_iter_ns n + ucast dt, iter_count := iter_count n + 1\<rparr>
                else n)
      in n1\<lparr>last_iter_ns := now_ns\<rparr>)"

definition bench_tick :: "machine \<Rightarrow> machine" where
  "bench_tick = (\<lambda>(b0, h0).
     let (now_ns, b1) = tsu_nanoseconds_read b0;
         n = bench_iteration now_ns (b_bench b1);
         b2 = b1\<lparr>b_bench := n\<rparr>;
         (now_ms, h) = gptp_uptime_ms h0;
         elapsed = guarded_age now_ms (window_start_ms n) 0
     in if elapsed < 1000 then (b2, h)
        else
          let (we, b3) = writer_errors_read b2;
              (we', b4) = writer_errors_read b3;
              v = b_avdecc b4; g = b_gptp b4
          in (b4\<lparr>b_bench := n\<lparr>r_writer_errors := we - s_writer_errors n,
                r_aaf := b_rx_avtp_aaf b4 - s_rx_avtp_aaf n, r_crf := b_rx_avtp_crf b4 - s_rx_avtp_crf n,
                r_dac_samples := b_dac_sample_count b4 - s_dac_samples n,
                r_dac_underruns := b_dac_underrun_count b4 - s_dac_underruns n,
                r_aecp_rx := v_aecp_rx_count v - s_aecp_rx n, r_aecp_tx := v_aecp_tx_count v - s_aecp_tx n,
                r_sync_rx := g_rx_sync_count g - s_sync_rx n, r_pdresp_rx := g_rx_pdelay_resp_count g - s_pdresp_rx n,
                r_iter_per_sec := iter_count n, r_iter_max_ns := max_iter_ns n,
                r_iter_avg_ns := (if iter_count n \<noteq> 0 then ucast (sum_iter_ns n div ucast (iter_count n)) else 0),
                s_writer_errors := we', s_rx_avtp_aaf := b_rx_avtp_aaf b4, s_rx_avtp_crf := b_rx_avtp_crf b4,
                s_dac_samples := b_dac_sample_count b4, s_dac_underruns := b_dac_underrun_count b4,
                s_aecp_rx := v_aecp_rx_count v, s_aecp_tx := v_aecp_tx_count v, s_sync_rx := g_rx_sync_count g,
                s_pdresp_rx := g_rx_pdelay_resp_count g, window_start_ms := now_ms, iter_count := 0,
                sum_iter_ns := 0, max_iter_ns := 0\<rparr>\<rparr>, h))"

section \<open>UART commands\<close>

definition dummy_dest :: "u8 list" where "dummy_dest = [0x91, 0xe0, 0xf0, 0x00, 0xfe, 0x42]"

definition cmd_force_talker :: "machine \<Rightarrow> machine" where
  "cmd_force_talker = (\<lambda>(b, h).
     let dummy_sid = mac_addr @ [0x00, 0x01];
         (b1, h1) = on_aaf (\<lambda>(a, h). aaf_tx_enable a 1 h)
                      (b\<lparr>b_aaf := (aaf_bind (b_aaf b) dummy_sid)\<lparr>a_dest_mac := dummy_dest\<rparr>\<rparr>, h);
         b2 = b1\<lparr>b_srp := srp_talker_enable (srp_talker_set (b_srp b1) dummy_sid dummy_dest 230) 1\<rparr>
     in (aaf_gw_set 1 b2, h1))"

definition cmd_stop_talker :: "machine \<Rightarrow> machine" where
  "cmd_stop_talker = (\<lambda>(b, h).
     let (b1, h1) = on_aaf (\<lambda>(a, h). aaf_tx_enable a 0 h) (aaf_gw_set 0 b, h)
     in (b1\<lparr>b_srp := srp_talker_enable (b_srp b1) 0\<rparr>, h1))"

definition cmd_clear_listeners :: "machine \<Rightarrow> machine" where
  "cmd_clear_listeners = (\<lambda>(b, h).
     let w1 = (if m_bound (b_mcr b) \<noteq> 0 then on_mcr mcr_unbind (withdraw (m_stream_id (b_mcr b)) (b, h)) else (b, h));
         (b2, h2) = (case w1 of (b1, h1) \<Rightarrow>
           if a_bound (b_aaf b1) \<noteq> 0 then
             let (b', h') = withdraw (a_stream_id (b_aaf b1)) (b1, h1) in (b'\<lparr>b_aaf := aaf_unbind (b_aaf b')\<rparr>, h')
           else (b1, h1))
     in (b2\<lparr>b_avdecc := (b_avdecc b2)\<lparr>v_listeners := (v_listeners (b_avdecc b2))
                 [unat LISTENER_UID_CRF := listener_stream_zero, unat LISTENER_UID_AAF := listener_stream_zero]\<rparr>,
            b_pending := map (\<lambda>p. p\<lparr>pb_active := 0\<rparr>) (b_pending b2)\<rparr>, h2))"

definition cmd_step_tap :: "board \<Rightarrow> board" where
  "cmd_step_tap b = (let t = (b_utap b + 1) AND 0x1F in b\<lparr>b_utap := t, b_ulpi_tap := ucast t\<rparr>)"

definition uart_cmd :: "char \<Rightarrow> machine \<Rightarrow> machine" where
  "uart_cmd c = (\<lambda>(b, h).
     if c = CHR ''s'' then (b, snd (gptp_read_time h))
     else if c = CHR ''u'' then (cmd_step_tap b, h)
     else if c = CHR ''r'' then (b\<lparr>b_reset := 1\<rparr>, h)
     else if c = CHR ''m'' then
       (b\<lparr>b_mcr := (b_mcr b)\<lparr>m_delta_max_abs := 0, m_delta_sum_abs := 0, m_delta_window_count := 0\<rparr>\<rparr>,
        snd (mcr_sample_count_read h))
     else if c = CHR ''t'' then cmd_force_talker (b, h)
     else if c = CHR ''T'' then cmd_stop_talker (b, h)
     else if c = CHR ''D'' then cmd_clear_listeners (b, h)
     else (b, h))"

definition check_uart_cmd :: "machine \<Rightarrow> machine" where
  "check_uart_cmd = (\<lambda>(b, h). case b_uart b of [] \<Rightarrow> (b, h) | c # cs \<Rightarrow> uart_cmd c (b\<lparr>b_uart := cs\<rparr>, h))"

section \<open>USB playback into the talker\<close>

definition usb_sample_data_read :: "board \<Rightarrow> u32" where
  "usb_sample_data_read b = (case b_usb_fifo b of [] \<Rightarrow> 0 | v # _ \<Rightarrow> v)"

definition usb_sample :: "u32 \<Rightarrow> board \<Rightarrow> board" where
  "usb_sample v b =
     (let ch = unat (v AND 0x7);
          first = drop_bit 3 v AND 1;
          s = v AND 0xFFFFFF00;
          b1 = (if first \<noteq> 0 \<and> b_usb_have b \<noteq> 0 then
                  b\<lparr>b_aaf := (if a_tx_enabled (b_aaf b) \<noteq> 0 then aaf_tx_push (b_aaf b) (b_usb_block b) else b_aaf b),
                    b_usb_block := replicate AAF_CHANNELS 0,
                    b_usb_to_aaf_frames := b_usb_to_aaf_frames b + 1\<rparr>
                else b)
      in b1\<lparr>b_usb_block := (if ch < AAF_CHANNELS then (b_usb_block b1)[ch := s] else b_usb_block b1), b_usb_have := 1\<rparr>)"

fun usb_drain_loop :: "nat \<Rightarrow> board \<Rightarrow> board" where
  "usb_drain_loop 0 b = b"
| "usb_drain_loop (Suc guard) b =
     (let v = usb_sample_data_read b
      in if v AND 0x10 = 0 then b
         else usb_drain_loop guard (usb_sample v (b\<lparr>b_usb_fifo := tl (b_usb_fifo b)\<rparr>)))"

definition usb_aaf_drain :: "board \<Rightarrow> board" where
  "usb_aaf_drain = usb_drain_loop 1024"

section \<open>DAC writer\<close>

definition ext_level_read :: "board \<Rightarrow> u32" where
  "ext_level_read b = of_nat (length (b_ch_fifo b (b_ch_select b)))"

definition ext_data_read :: "board \<Rightarrow> u32" where
  "ext_data_read b = (case b_ch_fifo b (b_ch_select b) of [] \<Rightarrow> 0 | v # _ \<Rightarrow> v)"

definition ext_pop :: "board \<Rightarrow> board" where
  "ext_pop b = b\<lparr>b_ch_fifo := (b_ch_fifo b)(b_ch_select b := tl (b_ch_fifo b (b_ch_select b)))\<rparr>"

definition dac_sample :: "board \<Rightarrow> board" where
  "dac_sample b0 =
     (let b1 = b0\<lparr>b_ch_select := 0\<rparr>;
          lvl_l = ext_level_read b1;
          b2 = b1\<lparr>b_ch_select := 1\<rparr>;
          lvl_r = ext_level_read b2;
          (sl, sr, b5) =
            (if lvl_l > 0 \<and> lvl_r > 0 then
               let sr = signed_drop_bit 8 (ext_data_read b2);
                   b3 = (ext_pop b2)\<lparr>b_ch_select := 0\<rparr>;
                   sl = signed_drop_bit 8 (ext_data_read b3);
                   b4 = ext_pop b3
               in (sl, sr, b4\<lparr>b_dac_sample_count := b_dac_sample_count b4 + 1\<rparr>)
             else (0, 0, b2\<lparr>b_dac_underrun_count := b_dac_underrun_count b2 + 1\<rparr>))
      in b5\<lparr>b_i2s := b_i2s b5 @ [(sl AND 0xFFFFFF, sr AND 0xFFFFFF)]\<rparr>)"

definition dac_writer :: "machine \<Rightarrow> machine" where
  "dac_writer = (\<lambda>(b, h).
     let (tick, h1) = mcr_sample_count_read h;
         due = tick - b_dac_last_sample_tick b;
         processed = (if due > 32 then 32 else due);
         b1 = (dac_sample ^^ unat processed) b
     in (b1\<lparr>b_dac_last_sample_tick := b_dac_last_sample_tick b1 + processed\<rparr>, h1))"

section \<open>The main loop\<close>

definition track_listener_locks :: "machine \<Rightarrow> machine" where
  "track_listener_locks = (\<lambda>(b, h).
     let aaf_now = (if a_bound (b_aaf b) \<noteq> 0 \<and> a_rx_count (b_aaf b) > 0 then 1 else 0);
         (b1, h1) = (if aaf_now \<noteq> b_prev_aaf_locked b then
                       let (b', h') = on_avdecc (avdecc_listener_lock_changed LISTENER_UID_AAF aaf_now) (b, h)
                       in (b'\<lparr>b_prev_aaf_locked := aaf_now\<rparr>, h')
                     else (b, h));
         (b2, h2) = on_avdecc (avdecc_listener_lock_changed LISTENER_UID_CRF
                                 (if m_servo_locked (b_mcr b1) \<noteq> 0 then 1 else 0)) (b1, h1)
     in (b2\<lparr>b_avdecc := (b_avdecc b2)\<lparr>v_stream_frames_rx := (v_stream_frames_rx (b_avdecc b2))
                [unat LISTENER_UID_CRF := m_rx_count (b_mcr b2), unat LISTENER_UID_AAF := a_rx_count (b_aaf b2)]\<rparr>\<rparr>, h2))"

definition sync_vlan :: "board \<Rightarrow> board" where
  "sync_vlan b =
     (let s = b_srp b
      in if s_domain_received s \<noteq> 0 \<and> (s_rx_sr_prio s \<noteq> b_last_prio b \<or> s_rx_sr_vid s \<noteq> b_last_vid b) then
           let b1 = b\<lparr>b_aaf := aaf_set_vlan (b_aaf b) (s_rx_sr_prio s) (s_rx_sr_vid s)\<rparr>;
               b2 = (if b_aaf_gw_enabled b1 \<noteq> 0 then aaf_gw_push_binding b1 else b1)
           in b2\<lparr>b_last_prio := s_rx_sr_prio s, b_last_vid := s_rx_sr_vid s\<rparr>
         else b)"

definition servo_pass :: "machine \<Rightarrow> machine" where
  "servo_pass w =
     (let (b1, h1) = on_mcr mcr_servo_update (on_mcr mcr_pump_hw w);
          (now, h2) = gptp_uptime_ms h1;
          (b3, h3) = on_mcr (mcr_watchdog_tick now) (b1, h2);
          (now', h4) = gptp_uptime_ms h3
      in on_avdecc (avdecc_crf_flow_watchdog LISTENER_UID_CRF (m_rx_count (b_mcr b3)) now') (b3, h4))"

definition software_talker :: "machine \<Rightarrow> machine" where
  "software_talker = (\<lambda>(b, h).
     if b_aaf_gw_enabled b = 0 then on_aaf aaf_tx_poll (usb_aaf_drain b, h) else (b, h))"

definition avdecc_pass :: "machine \<Rightarrow> machine" where
  "avdecc_pass = (\<lambda>(b, h). on_avdecc (avdecc_poll (Some (b_gptp b)) (Some (b_mcr b))) (b, h))"

definition main_iteration :: "machine \<Rightarrow> machine" where
  "main_iteration w =
     (let w1 = track_listener_locks (on_srp srp_poll (on_gptp gptp_poll (dispatch_rx (bench_tick w))));
          w2 = (sync_vlan (fst w1), snd w1)
      in check_uart_cmd (software_talker (dac_writer (servo_pass (avdecc_pass w2)))))"

section \<open>Initialisation\<close>

definition pending_zero :: pending_bind where
  "pending_zero = \<lparr>pb_active = 0, pb_uid = 0, pb_dest_mac = zeros 6, pb_talker_entity_id = zeros 8, pb_talker_uid = 0\<rparr>"

definition main_init :: "u32 \<Rightarrow> machine \<Rightarrow> machine" where
  "main_init sys_clk = (\<lambda>(b, h).
     let (g, h1) = gptp_init mac_addr h;
         (s, h2) = srp_init mac_addr h1;
         (m, h3) = mcr_init sys_clk 48000 h2;
         (a, h4) = aaf_init mac_addr (mac_addr @ [0x00, 0x01]) [0x91, 0xE0, 0xF0, 0x00, 0xFE, mac_addr ! 5] h3;
         s' = srp_talker_set s (a_stream_id a) (a_dest_mac a) 230;
         (v, h5) = avdecc_init mac_addr h4;
         v' = avdecc_set_talker_stream TALKER_UID_AAF (a_stream_id a) (a_dest_mac a) v
     in (b\<lparr>b_gptp := g, b_srp := s', b_avdecc := v', b_mcr := m, b_aaf := a\<rparr>, h5))"

end
