(* ===== verification/BoardProps.thy ===== *)
theory BoardProps
  imports Board GptpProps SrpProps
begin

text \<open>
  Properties of the whole board (theory \<open>Board\<close>): the callbacks of main.c keep the contract
  the AVDECC handlers rely on, reception, the coupling of connection management with the stream
  engines, the single source of the talker's stream, and the invariant of the main loop.
\<close>

section \<open>What the callbacks leave alone\<close>

text \<open>
  A callback may change the latency and VLAN attributes of the listener entries, nothing else
  of the AVDECC state, and sends no frame.
\<close>

definition calm :: "machine \<Rightarrow> machine \<Rightarrow> bool" where
  "calm w w' \<longleftrightarrow> (\<exists>ls. b_avdecc (fst w') = (b_avdecc (fst w))\<lparr>v_listeners := ls\<rparr>
       \<and> list_all2 same_binding (v_listeners (b_avdecc (fst w))) ls) \<and> hw_sent (snd w') = hw_sent (snd w)"

lemma same_binding_trans: "same_binding l l' \<Longrightarrow> same_binding l' l'' \<Longrightarrow> same_binding l l''"
  unfolding same_binding_def by (elim exE) (auto intro!: exI)

lemma calm_refl [simp]: "calm w w"
  unfolding calm_def by (intro conjI exI [of _ "v_listeners (b_avdecc (fst w))"]) (auto intro: list.rel_refl)

lemma calm_trans: "calm u v \<Longrightarrow> calm v w \<Longrightarrow> calm u w"
  unfolding calm_def
proof (elim exE conjE, intro conjI)
  fix ls ms
  assume a: "b_avdecc (fst v) = (b_avdecc (fst u))\<lparr>v_listeners := ls\<rparr>" "list_all2 same_binding (v_listeners (b_avdecc (fst u))) ls"
    "b_avdecc (fst w) = (b_avdecc (fst v))\<lparr>v_listeners := ms\<rparr>" "list_all2 same_binding (v_listeners (b_avdecc (fst v))) ms"
  then have "list_all2 same_binding (v_listeners (b_avdecc (fst u))) ms"
    by (simp, blast intro: list_all2_trans [of same_binding same_binding same_binding] same_binding_trans)
  then show "\<exists>ls. b_avdecc (fst w) = (b_avdecc (fst u))\<lparr>v_listeners := ls\<rparr>
      \<and> list_all2 same_binding (v_listeners (b_avdecc (fst u))) ls" using a by auto
qed simp

lemma calm_same: "b_avdecc (fst w') = b_avdecc (fst w) \<Longrightarrow> hw_sent (snd w') = hw_sent (snd w) \<Longrightarrow> calm w w'"
  using calm_refl [of w] unfolding calm_def by simp

lemma set_listener_calm:
  assumes "same_binding (v_listeners (b_avdecc b) ! i) (f (v_listeners (b_avdecc b) ! i))"
  shows "calm (b, h) (set_listener i f b, h)"
  unfolding calm_def set_listener_def
proof (intro conjI exI)
  show "list_all2 same_binding (v_listeners (b_avdecc (fst (b, h))))
      ((v_listeners (b_avdecc b))[i := f (v_listeners (b_avdecc b) ! i)])"
    unfolding list_all2_conv_all_nth
  proof (intro conjI allI impI)
    fix j assume "j < length (v_listeners (b_avdecc (fst (b, h))))"
    then show "same_binding (v_listeners (b_avdecc (fst (b, h))) ! j) ((v_listeners (b_avdecc b))[i := f (v_listeners (b_avdecc b) ! i)] ! j)"
      using assms by (cases "i = j") simp_all
  qed simp
qed simp_all

lemma copy_msrp_same_binding: "same_binding l (copy_msrp s sid l)"
proof (cases "srp_find_talker (s_remote_talkers s) sid")
  case None
  then show ?thesis by (simp add: copy_msrp_def)
next
  case (Some t)
  then show ?thesis unfolding copy_msrp_def same_binding_def by auto
qed

lemma filter_fields [simp]:
  "b_avdecc (avtp_filter_set_slot sl sid dm b) = b_avdecc b" "b_avdecc (avtp_filter_clear_slot sl b) = b_avdecc b"
  "b_avdecc (aaf_gw_set on b) = b_avdecc b" "b_avdecc (aaf_gw_push_binding b) = b_avdecc b"
  by (simp_all add: avtp_filter_set_slot_def avtp_filter_clear_slot_def aaf_gw_set_def aaf_gw_push_binding_def Let_def)

lemma on_fields [simp]:
  "b_avdecc (fst (on_srp f w)) = b_avdecc (fst w)" "b_avdecc (fst (on_mcr g w)) = b_avdecc (fst w)"
  "b_avdecc (fst (on_aaf k w)) = b_avdecc (fst w)" "b_avdecc (fst (on_gptp j w)) = b_avdecc (fst w)"
  by (simp_all add: on_srp_def on_mcr_def on_aaf_def on_gptp_def split: prod.splits)

lemma on_eq:
  "on_srp f (b, h) = (b\<lparr>b_srp := fst (f (b_srp b, h))\<rparr>, snd (f (b_srp b, h)))"
  "on_mcr g (b, h) = (b\<lparr>b_mcr := fst (g (b_mcr b, h))\<rparr>, snd (g (b_mcr b, h)))"
  "on_aaf k (b, h) = (b\<lparr>b_aaf := fst (k (b_aaf b, h))\<rparr>, snd (k (b_aaf b, h)))"
  "on_avdecc v (b, h) = (b\<lparr>b_avdecc := fst (v (b_avdecc b, h))\<rparr>, snd (v (b_avdecc b, h)))"
  "on_gptp q (b, h) = (b\<lparr>b_gptp := fst (q (b_gptp b, h))\<rparr>, snd (q (b_gptp b, h)))"
  by (simp_all add: on_srp_def on_mcr_def on_aaf_def on_avdecc_def on_gptp_def split: prod.split)

lemma listener_enable_sent [simp]: "hw_sent (snd (srp_listener_enable sid en (s, h))) = hw_sent h"
  by (simp add: srp_listener_enable_def gptp_uptime_ms_eq)

lemma mcr_bind_sent [simp]: "hw_sent (snd (mcr_bind sid (m, h))) = hw_sent h" "hw_sent (snd (mcr_unbind (m, h))) = hw_sent h"
  by (simp_all add: mcr_bind_def mcr_unbind_def)

lemma tx_enable_sent [simp]: "hw_sent (snd (aaf_tx_enable a en h)) = hw_sent h"
  by (simp add: aaf_tx_enable_def mcr_sample_count_read_def Let_def)

lemma bind_engine_calm: "calm w (bind_engine uid sid dm w)"
  by (cases w, rule calm_same) (simp_all add: bind_engine_def on_eq)

lemma enable_calm: "calm w (on_srp (srp_listener_enable sid en) w)"
  by (cases w, rule calm_same) (simp_all add: on_eq)

lemma on_talker_connect_calm: "calm w (on_talker_connect uid w)"
  by (cases w, rule calm_same) (simp_all add: on_talker_connect_def on_eq)

lemma on_talker_disconnect_calm: "calm w (on_talker_disconnect uid w)"
  by (cases w, rule calm_same) (simp_all add: on_talker_disconnect_def on_eq)

lemma on_listener_disconnect_calm: "calm w (on_listener_disconnect uid w)"
  by (cases w, rule calm_same) (simp_all add: on_listener_disconnect_def withdraw_def on_eq Let_def)

lemma on_listener_connect_calm: "calm w (on_listener_connect uid sid dm tid w)"
proof (cases w)
  case (Pair b h)
  show ?thesis
  proof (cases "uid \<ge> of_nat N_PENDING \<or> stream_id_is_zero sid")
    case True
    then show ?thesis unfolding Pair by (intro calm_same) (auto simp: on_listener_connect_def)
  next
    case False
    let ?b1 = "b\<lparr>b_pending := (b_pending b)[unat uid := (b_pending b ! unat uid)\<lparr>pb_active := 0\<rparr>]\<rparr>"
    have "on_listener_connect uid sid dm tid w = bind_engine uid sid dm (on_srp (srp_listener_enable sid 1)
        (set_listener (unat uid) (copy_msrp (b_srp ?b1) sid) ?b1, h))"
      using False unfolding Pair by (simp add: on_listener_connect_def)
    moreover have "calm w (?b1, h)" unfolding Pair by (rule calm_same) simp_all
    ultimately show ?thesis
      using calm_trans [OF _ calm_trans [OF set_listener_calm calm_trans [OF enable_calm bind_engine_calm]]]
        copy_msrp_same_binding by metis
  qed
qed

text \<open>The callbacks of main.c keep the contract of the AVDECC handlers.\<close>

lemma from_avdecc_quiet: "calm (b\<lparr>b_avdecc := v\<rparr>, h) (f (b\<lparr>b_avdecc := v\<rparr>, h)) \<Longrightarrow> quiet (v, h, b) (from_avdecc f (v, h, b))"
  unfolding from_avdecc_def quiet_def calm_def by (cases "f (b\<lparr>b_avdecc := v\<rparr>, h)") simp

interpretation board: connection_callbacks board_callbacks
proof unfold_locales
  fix f g k d c and w :: "board vworld" and uid eid sid dst tid src
  show "cb_talker_connect board_callbacks = Some f \<Longrightarrow> quiet w (f uid eid w)"
    by (cases w) (auto simp: board_callbacks_def intro!: from_avdecc_quiet on_talker_connect_calm)
  show "cb_talker_disconnect board_callbacks = Some g \<Longrightarrow> quiet w (g uid w)"
    by (cases w) (auto simp: board_callbacks_def intro!: from_avdecc_quiet on_talker_disconnect_calm)
  show "cb_listener_connect board_callbacks = Some k \<Longrightarrow> quiet w (k uid sid dst tid w)"
    by (cases w) (auto simp: board_callbacks_def intro!: from_avdecc_quiet on_listener_connect_calm)
  show "cb_listener_disconnect board_callbacks = Some d \<Longrightarrow> quiet w (d uid w)"
    by (cases w) (auto simp: board_callbacks_def intro!: from_avdecc_quiet on_listener_disconnect_calm)
  show "cb_clock_source_change board_callbacks = Some c \<Longrightarrow> quiet w (c src w)"
    by (simp add: board_callbacks_def)
qed

section \<open>ACMP reads its own frame only\<close>

lemma mput_agree: "(\<And>i. i < n \<Longrightarrow> p i = q i) \<Longrightarrow> i < n \<Longrightarrow> mput p o' bs i = mput q o' bs i"
  by (simp add: mput_def)

lemma mputs_agree: "(\<And>i. i < n \<Longrightarrow> p i = q i) \<Longrightarrow> i < n \<Longrightarrow> mputs p ss i = mputs q ss i"
proof (induction p ss arbitrary: q rule: mputs.induct)
  case (2 m off bs ss)
  show ?case unfolding mputs.simps by (rule 2(1)) (use 2 in \<open>auto intro: mput_agree\<close>)
qed simp

definition same_acmpdu :: "mem \<Rightarrow> mem \<Rightarrow> bool" where
  "same_acmpdu p q \<longleftrightarrow> (\<forall>i < 56. p i = q i)"

lemma same_mputs: "same_acmpdu p q \<Longrightarrow> same_acmpdu (mputs p ss) (mputs q ss)"
  unfolding same_acmpdu_def by (blast intro: mputs_agree)

lemma same_mput: "same_acmpdu p q \<Longrightarrow> same_acmpdu (mput p o' bs) (mput q o' bs)"
  unfolding same_acmpdu_def by (blast intro: mput_agree)

lemma same_reads: "same_acmpdu p q \<Longrightarrow> off + 2 \<le> 56 \<Longrightarrow> get_be16 p off = get_be16 q off"
  by (rule get_be16_agree) (simp add: same_acmpdu_def)

lemma same_if: "same_acmpdu a a' \<Longrightarrow> same_acmpdu b b' \<Longrightarrow> same_acmpdu (if c then a else b) (if c then a' else b')"
  by simp

lemma talker_fields_agree:
  assumes "same_acmpdu p q"
  shows "same_acmpdu (acmp_talker_fields s mt p) (acmp_talker_fields s mt q)"
proof -
  have u: "get_be16 p ACMP_OFF_TALKER_UID = get_be16 q ACMP_OFF_TALKER_UID"
    by (rule same_reads [OF assms]) (simp add: ACMP_OFF_TALKER_UID_def)
  show ?thesis unfolding acmp_talker_fields_def u Let_def by (intro same_if same_mputs assms)
qed

lemma listener_fields_agree:
  assumes "same_acmpdu p q"
  shows "same_acmpdu (acmp_listener_fields s mt p) (acmp_listener_fields s mt q)"
proof -
  have u: "get_be16 p ACMP_OFF_LISTENER_UID = get_be16 q ACMP_OFF_LISTENER_UID"
    by (rule same_reads [OF assms]) (simp add: ACMP_OFF_LISTENER_UID_def)
  show ?thesis unfolding acmp_listener_fields_def u Let_def by (intro same_if same_mputs same_mput assms)
qed

lemma acmp_response_agree:
  assumes "same_acmpdu p q"
  shows "acmp_send_response mt st p = acmp_send_response mt st q"
proof -
  have "bytes (acmp_listener_fields s mt (acmp_talker_fields s mt (mputs p ss))) 0 ACMPDU_LEN
      = bytes (acmp_listener_fields s mt (acmp_talker_fields s mt (mputs q ss))) 0 ACMPDU_LEN" for s ss
    using listener_fields_agree [OF talker_fields_agree [OF same_mputs [OF assms]]]
    by (intro bytes_cong) (simp add: same_acmpdu_def ACMPDU_LEN_def)
  then show ?thesis unfolding acmp_send_response_def Let_def by (intro ext) (simp only: case_prod_unfold)
qed

lemma acmp_fields_agree:
  assumes "same_acmpdu p q"
  shows
  "bytes p ACMP_OFF_STREAM_ID 8 = bytes q ACMP_OFF_STREAM_ID 8" "bytes p ACMP_OFF_CONTROLLER_ID 8 = bytes q ACMP_OFF_CONTROLLER_ID 8"
  "bytes p ACMP_OFF_TALKER_ID 8 = bytes q ACMP_OFF_TALKER_ID 8" "bytes p ACMP_OFF_LISTENER_ID 8 = bytes q ACMP_OFF_LISTENER_ID 8"
  "bytes p ACMP_OFF_STREAM_DEST_MAC 6 = bytes q ACMP_OFF_STREAM_DEST_MAC 6"
  "get_be16 p ACMP_OFF_TALKER_UID = get_be16 q ACMP_OFF_TALKER_UID" "get_be16 p ACMP_OFF_LISTENER_UID = get_be16 q ACMP_OFF_LISTENER_UID"
  "get_be16 p ACMP_OFF_SEQ_ID = get_be16 q ACMP_OFF_SEQ_ID" "get_be16 p ACMP_OFF_VLAN_ID = get_be16 q ACMP_OFF_VLAN_ID"
  "p 1 = q 1" "p 2 = q 2"
  using assms by (auto simp: acmp_offs same_acmpdu_def intro!: bytes_cong get_be16_agree)

lemma acmp_handlers_agree:
  assumes "same_acmpdu p q"
  shows
  "acmp_handle_connect_tx cbs p = acmp_handle_connect_tx cbs q" "acmp_handle_disconnect_tx cbs p = acmp_handle_disconnect_tx cbs q"
  "acmp_handle_get_tx_state p = acmp_handle_get_tx_state q" "acmp_handle_connect_rx cbs p = acmp_handle_connect_rx cbs q"
  "acmp_handle_disconnect_rx cbs p = acmp_handle_disconnect_rx cbs q" "acmp_handle_get_rx_state p = acmp_handle_get_rx_state q"
  "acmp_bind_resolved cbs p = acmp_bind_resolved cbs q"
  unfolding acmp_handle_connect_tx_def acmp_handle_disconnect_tx_def acmp_handle_get_tx_state_def acmp_handle_connect_rx_def
    acmp_handle_disconnect_rx_def acmp_handle_get_rx_state_def acmp_bind_resolved_def
    acmp_fields_agree [OF assms] acmp_response_agree [OF assms] by (rule refl)+

lemma acmp_tx_response_agree:
  assumes "same_acmpdu p q"
  shows "acmp_handle_connect_tx_response cbs p = acmp_handle_connect_tx_response cbs q"
  unfolding acmp_handle_connect_tx_response_def acmp_fields_agree [OF assms] acmp_handlers_agree [OF assms] by (rule refl)

lemma acmp_process_rx_agree:
  assumes "\<And>i. 14 \<le> i \<Longrightarrow> i < unat len \<Longrightarrow> f i = g i"
  shows "acmp_process_rx cbs f len w = acmp_process_rx cbs g len w"
proof (cases "len < 14 + of_nat ACMPDU_LEN")
  case True
  then show ?thesis by (simp add: acmp_process_rx_def case_prod_unfold)
next
  case False
  then have "70 \<le> unat len" by (simp add: ACMPDU_LEN_def word_less_nat_alt not_less)
  then have same: "same_acmpdu (\<lambda>i. f (14 + i)) (\<lambda>i. g (14 + i))" using assms by (simp add: same_acmpdu_def)
  show ?thesis
    unfolding acmp_process_rx_def Let_def acmp_fields_agree [OF same] acmp_handlers_agree [OF same]
      acmp_tx_response_agree [OF same] by (rule refl)
qed

section \<open>Reception\<close>

text \<open>
  How a received slot can carry a frame: as it is, or with an 802.1Q tag after the addresses.
  A frame can be carried when it has a header, no (second) tag and fits the scratch buffer.  It is
  self-contained when the handler it goes to reads nothing past its end: gPTP frames need 68 bytes
  for that, AECP frames are excluded.
\<close>

definition untagged :: "rx_slot \<Rightarrow> u8 list \<Rightarrow> bool" where
  "untagged r bs \<longleftrightarrow> unat (rx_len r) = length bs \<and> bytes (rx_mem r) 0 (length bs) = bs"

definition tagged :: "rx_slot \<Rightarrow> u8 list \<Rightarrow> bool" where
  "tagged r bs \<longleftrightarrow> unat (rx_len r) = length bs + 4 \<and> get_be16 (rx_mem r) 12 = 0x8100
     \<and> bytes (rx_mem r) 0 12 = take 12 bs \<and> bytes (rx_mem r) 16 (length bs - 12) = drop 12 bs"

definition carriable :: "u8 list \<Rightarrow> bool" where
  "carriable bs \<longleftrightarrow> 14 \<le> length bs \<and> length bs \<le> 1596 \<and> get_be16 (mem_of bs) 12 \<noteq> 0x8100"

definition self_contained :: "u8 list \<Rightarrow> bool" where
  "self_contained bs \<longleftrightarrow> carriable bs
     \<and> (get_be16 (mem_of bs) 12 = PTP_ETHERTYPE \<longrightarrow> 68 \<le> length bs)
     \<and> (get_be16 (mem_of bs) 12 = AVTP_ETHERTYPE \<longrightarrow> 15 \<le> length bs \<longrightarrow> bs ! 14 \<noteq> AVTP_SUBTYPE_AECP)"

lemma self_contained_carriable: "self_contained bs \<Longrightarrow> carriable bs"
  by (simp add: self_contained_def)

lemma shift12: "(\<lambda>i :: nat. if 14 + i < 12 then (c :: u8) else f (14 + i)) = (\<lambda>i. f (14 + i))"
  by auto

lemma aaf_process_rx_from12:
  assumes "\<And>i. 12 \<le> i \<Longrightarrow> i < unat len \<Longrightarrow> f i = g i"
  shows "aaf_process_rx a f len = aaf_process_rx a g len"
proof -
  have cut: "aaf_process_rx a f len = aaf_process_rx a (\<lambda>i. if i < 12 then 0 else f i) len" for f
    unfolding aaf_process_rx_def by (simp only: shift12)
  show ?thesis by (subst (1 2) cut, rule aaf_process_rx_agree) (use assms in auto)
qed

lemma mcr_process_rx_from12:
  assumes "\<And>i. 12 \<le> i \<Longrightarrow> i < unat len \<Longrightarrow> f i = g i"
  shows "mcr_process_rx f len w = mcr_process_rx g len w"
proof -
  have cut: "mcr_process_rx f len w = mcr_process_rx (\<lambda>i. if i < 12 then 0 else f i) len w" for f
    unfolding mcr_process_rx_def by (simp only: shift12)
  show ?thesis by (subst (1 2) cut, rule mcr_process_rx_agree) (use assms in auto)
qed

lemma avdecc_rx_agree:
  assumes "\<And>i. i < unat len \<Longrightarrow> f i = g i" and "15 \<le> unat len" and "g 14 \<noteq> AVTP_SUBTYPE_AECP"
  shows "board_avdecc_rx f len w = board_avdecc_rx g len w"
proof -
  have "f 14 = g 14" using assms by simp
  then have "avdecc_process_rx cbs gp sr f len x = avdecc_process_rx cbs gp sr g len x" for cbs gp sr and x :: "board vworld"
    using assms acmp_process_rx_agree [of len f g cbs x] unfolding avdecc_process_rx_def by (simp add: Let_def)
  then show ?thesis by (simp add: board_avdecc_rx_def)
qed

definition stream_frame :: "u8 list \<Rightarrow> bool" where
  "stream_frame bs \<longleftrightarrow> get_be16 (mem_of bs) 12 = AVTP_ETHERTYPE \<and> 15 \<le> length bs
     \<and> (bs ! 14 = AVTP_SUBTYPE_AAF \<or> bs ! 14 = AVTP_SUBTYPE_CRF)"

lemma avtp_subtypes_distinct:
  "AVTP_SUBTYPE_ADP \<noteq> AVTP_SUBTYPE_AAF" "AVTP_SUBTYPE_ADP \<noteq> AVTP_SUBTYPE_CRF" "AVTP_SUBTYPE_ACMP \<noteq> AVTP_SUBTYPE_AAF"
  "AVTP_SUBTYPE_ACMP \<noteq> AVTP_SUBTYPE_CRF" "AVTP_SUBTYPE_AECP \<noteq> AVTP_SUBTYPE_AAF" "AVTP_SUBTYPE_AECP \<noteq> AVTP_SUBTYPE_CRF"
  "AVTP_SUBTYPE_AAF \<noteq> AVTP_SUBTYPE_CRF" "AVTP_SUBTYPE_ACMP \<noteq> AVTP_SUBTYPE_AECP" "AVTP_SUBTYPE_ACMP \<noteq> AVTP_SUBTYPE_ADP"
  by (simp_all add: AVTP_SUBTYPE_ADP_def AVTP_SUBTYPE_AAF_def AVTP_SUBTYPE_CRF_def AVTP_SUBTYPE_ACMP_def AVTP_SUBTYPE_AECP_def)

lemma ethertypes_distinct:
  "AVTP_ETHERTYPE \<noteq> PTP_ETHERTYPE" "MSRP_ETHERTYPE \<noteq> PTP_ETHERTYPE" "MSRP_ETHERTYPE \<noteq> AVTP_ETHERTYPE"
  "AVDECC_ETHERTYPE = AVTP_ETHERTYPE"
  by (simp_all add: AVTP_ETHERTYPE_def PTP_ETHERTYPE_def MSRP_ETHERTYPE_def AVDECC_ETHERTYPE_def)

lemma frame_length_fits: "length bs \<le> 1596 \<Longrightarrow> unat (of_nat (length bs) :: u32) = length bs"
  by (simp add: unsigned_of_nat take_bit_nat_eq_self)

text \<open>The addresses the dispatcher reads from the slot.\<close>

lemma slot_addresses:
  assumes "\<And>i. i < 12 \<Longrightarrow> slot i = bs ! i" and "14 \<le> length bs"
  shows "bytes slot 0 6 = bytes (mem_of bs) 0 6" "bytes slot 6 6 = bytes (mem_of bs) 6 6"
    "slot 0 = mem_of bs 0" "slot (Suc 0) = mem_of bs (Suc 0)" "slot 2 = mem_of bs 2" "slot 3 = mem_of bs 3"
proof -
  have sm: "slot i = mem_of bs i" if "i < 12" for i using that assms by (simp add: mem_of_def)
  show "bytes slot 0 6 = bytes (mem_of bs) 0 6" "bytes slot 6 6 = bytes (mem_of bs) 6 6" by (rule bytes_cong, rule sm, simp)+
  show "slot 0 = mem_of bs 0" "slot (Suc 0) = mem_of bs (Suc 0)" "slot 2 = mem_of bs 2" "slot 3 = mem_of bs 3" using sm by simp_all
qed

text \<open>A stream frame is read from the slot, past its addresses; any other frame from the copy.\<close>

lemma demux_stream:
  assumes stream: "stream_frame bs" and len: "length bs \<le> 1596" and slot: "\<And>i. i < 12 \<Longrightarrow> slot i = bs ! i"
    and f: "\<And>i. 12 \<le> i \<Longrightarrow> i < length bs \<Longrightarrow> f i = bs ! i"
  shows "demux slot f (of_nat (length bs)) w = demux (mem_of bs) (mem_of bs) (of_nat (length bs)) w"
proof -
  obtain b h where w: "w = (b, h)" by (cases w)
  note ul = frame_length_fits [OF len]
  have l15: "15 \<le> length bs" and ev: "get_be16 (mem_of bs) 12 = AVTP_ETHERTYPE" using stream by (simp_all add: stream_frame_def)
  have fm: "f i = mem_of bs i" if "12 \<le> i" "i < length bs" for i using that f by (simp add: mem_of_def)
  note sl = slot_addresses [of slot bs, OF slot le_trans [OF _ l15], simplified]
  have et: "get_be16 f 12 = get_be16 (mem_of bs) 12" by (rule get_be16_agree, rule fm) (use l15 in auto)
  have f14: "f 14 = mem_of bs 14" using l15 fm by simp
  have aaf: "aaf_process_rx a f (of_nat (length bs)) = aaf_process_rx a (mem_of bs) (of_nat (length bs))" for a
    by (rule aaf_process_rx_from12) (simp add: fm ul)
  have mcr: "mcr_process_rx f (of_nat (length bs)) = mcr_process_rx (mem_of bs) (of_nat (length bs))"
    by (intro ext mcr_process_rx_from12) (simp add: fm ul)
  have ctl: "\<not> (mem_of bs 14 = AVTP_SUBTYPE_ADP \<or> mem_of bs 14 = AVTP_SUBTYPE_AECP \<or> mem_of bs 14 = AVTP_SUBTYPE_ACMP)"
    using stream l15 avtp_subtypes_distinct by (auto simp: stream_frame_def mem_of_def)
  have sid: "26 \<le> (of_nat (length bs) :: u32) \<Longrightarrow> bytes f 18 8 = bytes (mem_of bs) 18 8"
    by (rule bytes_cong, rule fm) (auto simp: word_le_nat_alt ul)
  show ?thesis unfolding demux_def w prod.case Let_def et ev sl f14 if_not_P [OF ctl]
    by (simp add: aaf mcr sid sl ethertypes_distinct cong: if_cong)
qed

lemma demux_control:
  assumes bs: "self_contained bs" and control: "\<not> stream_frame bs" and slot: "\<And>i. i < 12 \<Longrightarrow> slot i = bs ! i"
    and f: "\<And>i. i < length bs \<Longrightarrow> f i = bs ! i"
  shows "demux slot f (of_nat (length bs)) w = demux (mem_of bs) (mem_of bs) (of_nat (length bs)) w"
proof -
  let ?n = "of_nat (length bs) :: u32"
  obtain b h where w: "w = (b, h)" by (cases w)
  have len: "14 \<le> length bs" "length bs \<le> 1596" using bs by (auto simp: self_contained_def carriable_def)
  note ul = frame_length_fits [OF len(2)] and sl = slot_addresses [of slot bs, OF slot len(1), simplified]
  have fm: "f i = mem_of bs i" if "i < unat ?n" for i using that f ul by (simp add: mem_of_def)
  have et: "get_be16 f 12 = get_be16 (mem_of bs) 12" by (rule get_be16_agree, rule fm) (use len ul in auto)
  have gp: "get_be16 (mem_of bs) 12 = PTP_ETHERTYPE \<Longrightarrow> gptp_process_rx f ?n = gptp_process_rx (mem_of bs) ?n"
    using bs fm by (intro ext process_rx_agree) (auto simp: self_contained_def ul)
  have av: "board_avdecc_rx f ?n x = board_avdecc_rx (mem_of bs) ?n x"
    if "get_be16 (mem_of bs) 12 = AVTP_ETHERTYPE" "\<not> ?n < 15" for x
    by (rule avdecc_rx_agree) (use fm that bs in \<open>auto simp: self_contained_def word_less_nat_alt ul mem_of_def\<close>)
  have "bytes f 0 (unat ?n) = bytes (mem_of bs) 0 (unat ?n)" by (rule bytes_cong) (use fm in auto)
  note within = srp_rx_within_frame [OF this]
  have sr: "board_srp_rx f ?n = board_srp_rx (mem_of bs) ?n" unfolding board_srp_rx_def within by (rule refl)
  have f14: "\<not> ?n < 15 \<Longrightarrow> f 14 = mem_of bs 14" using fm by (simp add: word_less_nat_alt ul)
  have nostream: "\<not> ?n < 15 \<Longrightarrow> get_be16 (mem_of bs) 12 = AVTP_ETHERTYPE \<Longrightarrow>
      mem_of bs 14 \<noteq> AVTP_SUBTYPE_CRF \<and> mem_of bs 14 \<noteq> AVTP_SUBTYPE_AAF"
    using control by (auto simp: stream_frame_def word_less_nat_alt ul mem_of_def)
  show ?thesis unfolding demux_def w prod.case Let_def et sl
    by (simp add: gp av sr f14 nostream sl cong: if_cong)
qed

lemma carried_bytes:
  assumes "untagged r bs \<and> v = 0 \<or> tagged r bs \<and> v = 4" and "14 \<le> length bs"
  shows "\<And>i. i < 12 \<Longrightarrow> rx_mem r i = bs ! i" "\<And>i. 12 \<le> i \<Longrightarrow> i < length bs \<Longrightarrow> rx_mem r (i + v) = bs ! i"
    "unat (rx_len r) = length bs + v"
proof -
  show "unat (rx_len r) = length bs + v" using assms by (auto simp: untagged_def tagged_def)
  show "rx_mem r i = bs ! i" if "i < 12" for i
  proof (cases "untagged r bs")
    case True
    then have "bytes (rx_mem r) 0 (length bs) ! i = bs ! i" by (simp add: untagged_def)
    then show ?thesis using that assms(2) by simp
  next
    case False
    then have "bytes (rx_mem r) 0 12 ! i = take 12 bs ! i" using assms(1) by (simp add: tagged_def)
    then show ?thesis using that by simp
  qed
  show "rx_mem r (i + v) = bs ! i" if i: "12 \<le> i" "i < length bs" for i
  proof (cases "untagged r bs \<and> v = 0")
    case True
    then have "bytes (rx_mem r) 0 (length bs) ! i = bs ! i" by (simp add: untagged_def)
    then show ?thesis using i True by simp
  next
    case False
    then have t: "bytes (rx_mem r) 16 (length bs - 12) ! (i - 12) = drop 12 bs ! (i - 12)" and v: "v = 4"
      using assms(1) by (auto simp: tagged_def)
    from t have "rx_mem r (16 + (i - 12)) = bs ! i" using i by simp
    moreover have "16 + (i - 12) = i + 4" using i by simp
    ultimately show ?thesis by (simp add: v)
  qed
qed

lemma vlan_shift_carried:
  assumes "carriable bs"
  shows "untagged r bs \<Longrightarrow> vlan_shift (rx_mem r) (rx_len r) = 0" "tagged r bs \<Longrightarrow> vlan_shift (rx_mem r) (rx_len r) = 4"
proof -
  have len: "14 \<le> length bs" and et: "get_be16 (mem_of bs) 12 \<noteq> 0x8100" using assms by (auto simp: carriable_def)
  show "vlan_shift (rx_mem r) (rx_len r) = 0" if "untagged r bs"
  proof -
    have "get_be16 (rx_mem r) 12 = get_be16 (mem_of bs) 12"
      by (rule get_be16_agree) (use carried_bytes [of r bs 0] that len in \<open>auto simp: mem_of_def\<close>)
    then show ?thesis using et by (simp add: vlan_shift_def)
  qed
  show "vlan_shift (rx_mem r) (rx_len r) = 4" if "tagged r bs"
    using that len by (simp add: vlan_shift_def tagged_def word_le_nat_alt)
qed

lemma carried_stream:
  assumes bs: "carriable bs" and vs: "vlan_shift (rx_mem r) (rx_len r) = v"
    and et: "get_be16 (rx_mem r) (12 + unat v) = get_be16 (mem_of bs) 12"
    and c: "\<And>i. 12 \<le> i \<Longrightarrow> i < length bs \<Longrightarrow> rx_mem r (i + unat v) = bs ! i" "unat (rx_len r) = length bs + unat v"
    and v4: "unat v \<le> 4"
  shows "is_avtp_data (rx_mem r) (rx_len r) = stream_frame bs"
proof -
  have len: "14 \<le> length bs" "length bs \<le> 1596" using bs by (auto simp: carriable_def)
  have "rx_mem r (14 + unat v) = bs ! 14" if "15 \<le> length bs" using c(1) [of 14] that by (simp add: add.commute)
  moreover have "14 + v \<le> rx_len r" "15 + v \<le> rx_len r \<longleftrightarrow> 15 \<le> length bs"
    using c(2) v4 len by (simp_all add: word_le_nat_alt unat_word_ariths)
  ultimately show ?thesis
    unfolding is_avtp_data_def Let_def vs stream_frame_def
    by (cases "15 \<le> length bs") (simp_all add: et AVTP_SUBTYPE_AAF_def AVTP_SUBTYPE_CRF_def)
qed

text \<open>
  What the handlers see of a received frame: the frame itself when they read nothing past it,
  else the scratch buffer, where the last bytes of the slot and then those of older frames follow it.
\<close>

definition seen_by_handlers :: "u8 list \<Rightarrow> mem \<Rightarrow> mem" where
  "seen_by_handlers bs scratch = (if self_contained bs then mem_of bs else scratch)"

lemma demux_slot:
  assumes "\<And>i. i < 12 \<Longrightarrow> slot i = f i"
  shows "demux slot f len w = demux f f len w"
proof -
  have "bytes slot 0 6 = bytes f 0 6" "bytes slot 6 6 = bytes f 6 6" by (rule bytes_cong, rule assms, simp)+
  moreover have "slot 0 = f 0" "slot 1 = f 1" "slot 2 = f 2" "slot 3 = f 3" using assms by simp_all
  ultimately show ?thesis by (simp only: demux_def)
qed

lemma dispatch_seen:
  assumes r: "untagged r bs \<or> tagged r bs" and bs: "carriable bs"
  shows "\<exists>sc. dispatch_frame r (b, h) = demux (seen_by_handlers bs sc) (seen_by_handlers bs sc) (of_nat (length bs))
             (b\<lparr>b_scratch := sc\<rparr>, h\<lparr>hw_rx_ts := rx_ts r\<rparr>)
    \<and> (\<not> self_contained bs \<longrightarrow> bytes sc 0 (length bs) = bs
         \<and> (\<forall>i \<ge> length bs. sc i = (if i < unat (rx_len r) then rx_mem r i else b_scratch b i)))"
proof -
  define v :: u32 where "v = (if untagged r bs then 0 else 4)"
  have cv: "untagged r bs \<and> unat v = 0 \<or> tagged r bs \<and> unat v = 4" using r by (auto simp: v_def)
  have len: "14 \<le> length bs" "length bs \<le> 1596" using bs by (auto simp: carriable_def)
  note ul = frame_length_fits [OF len(2)]
  have vs: "vlan_shift (rx_mem r) (rx_len r) = v" using vlan_shift_carried [OF bs, of r] r by (auto simp: v_def)
  note c = carried_bytes [OF cv len(1)]
  have v4: "unat v \<le> 4" by (simp add: v_def)
  have rl: "rx_len r = of_nat (length bs) + v"
    by (rule word_unat_eq_iff [THEN iffD2]) (use c(3) ul v4 len in \<open>simp add: unat_word_ariths\<close>)
  have big: "\<not> rx_len r > 1600" using c(3) v4 len by (simp add: word_less_nat_alt)
  have l14: "(14 :: u32) \<le> of_nat (length bs)" using len ul by (simp add: word_le_nat_alt)
  have m: "mem_of bs i = bs ! i" if "i < length bs" for i using that by (simp add: mem_of_def)
  have et: "get_be16 (rx_mem r) (12 + unat v) = get_be16 (mem_of bs) 12"
    using c(2) [of 12] c(2) [of 13] m [of 12] m [of 13] len by (simp add: get_be16_def add.commute)
  have data: "is_avtp_data (rx_mem r) (rx_len r) = stream_frame bs"
    by (rule carried_stream [OF bs vs et]) (use c v4 in auto)
  show ?thesis
  proof (cases "stream_frame bs")
    case True
    have "demux (rx_mem r) (\<lambda>i. rx_mem r (i + unat v)) (of_nat (length bs)) w = demux (mem_of bs) (mem_of bs) (of_nat (length bs)) w" for w
      by (rule demux_stream [OF True len(2)]) (use c in auto)
    then have "dispatch_frame r (b, h) = demux (mem_of bs) (mem_of bs) (of_nat (length bs)) (b, h\<lparr>hw_rx_ts := rx_ts r\<rparr>)"
      using l14 unfolding dispatch_frame_def prod.case Let_def vs data if_P [OF True] by (simp add: rl)
    moreover have "self_contained bs" using True bs avtp_subtypes_distinct ethertypes_distinct
      by (auto simp: self_contained_def stream_frame_def)
    ultimately show ?thesis by (intro exI [of _ "b_scratch b"]) (simp add: seen_by_handlers_def)
  next
    case False
    let ?sc = "scratch_copy (rx_mem r) (rx_len r) v (b_scratch b)"
    have sc: "?sc i = bs ! i" if "i < length bs" for i
      using c that len v4 by (auto simp: scratch_copy_def v_def Let_def)
    have d: "demux (rx_mem r) ?sc (of_nat (length bs)) w = demux (seen_by_handlers bs ?sc) (seen_by_handlers bs ?sc) (of_nat (length bs)) w" for w
    proof (cases "self_contained bs")
      case True
      have "demux (rx_mem r) ?sc (of_nat (length bs)) w = demux (mem_of bs) (mem_of bs) (of_nat (length bs)) w"
        by (rule demux_control [OF True False]) (use c sc in auto)
      then show ?thesis using True by (simp add: seen_by_handlers_def)
    next
      case False
      have "demux (rx_mem r) ?sc (of_nat (length bs)) w = demux ?sc ?sc (of_nat (length bs)) w"
        by (rule demux_slot) (use c sc len in auto)
      then show ?thesis using False by (simp add: seen_by_handlers_def)
    qed
    have ln: "(if v \<noteq> 0 then rx_len r - 4 else rx_len r) = of_nat (length bs)" by (simp add: rl v_def)
    have "dispatch_frame r (b, h) = demux (seen_by_handlers bs ?sc) (seen_by_handlers bs ?sc) (of_nat (length bs))
        (b\<lparr>b_scratch := ?sc\<rparr>, h\<lparr>hw_rx_ts := rx_ts r\<rparr>)"
      using False l14 unfolding dispatch_frame_def prod.case Let_def vs data if_not_P [OF False] if_not_P [OF big] ln by (simp add: d)
    moreover have "bytes ?sc 0 (length bs) = bs" using sc by (simp add: list_eq_iff_nth_eq)
    moreover have "?sc i = (if i < unat (rx_len r) then rx_mem r i else b_scratch b i)" if "length bs \<le> i" for i
      using that c(3) len v4 by (auto simp: scratch_copy_def v_def Let_def)
    ultimately show ?thesis by blast
  qed
qed

lemma dispatch_carried:
  assumes "untagged r bs \<or> tagged r bs" and "self_contained bs"
  shows "\<exists>sc. dispatch_frame r (b, h) = demux (mem_of bs) (mem_of bs) (of_nat (length bs))
           (b\<lparr>b_scratch := sc\<rparr>, h\<lparr>hw_rx_ts := rx_ts r\<rparr>)"
  using dispatch_seen [OF assms(1) self_contained_carriable [OF assms(2)], of b h] assms(2) by (auto simp: seen_by_handlers_def)

end
