(* ===== verification/BoardInv.thy ===== *)
theory BoardInv
  imports BoardProps
begin

text \<open>
  The invariant of the main loop (theory \<open>Board\<close>): every callback, every received frame, every
  UART command and every pass of the loop keeps the invariants of the modules together with
  \<open>one_source\<close>, which couples the three places that switch the talker's stream.
\<close>

section \<open>Registers of the servos\<close>

text \<open>
  The registers the clock servos own.  Every operation of the other modules leaves them alone,
  so what is stable under a change of the rest of the hardware survives those operations.
\<close>

definition tsu_regs :: "hw \<Rightarrow> u32 \<times> u32" where
  "tsu_regs h = (hw_addend h, hw_addend_frac h)"

definition nco_regs :: "hw \<Rightarrow> u32 \<times> u32" where
  "nco_regs h = (hw_nco h, hw_crf_enabled h)"

definition regs :: "hw \<Rightarrow> (u32 \<times> u32) \<times> (u32 \<times> u32)" where
  "regs h = (tsu_regs h, nco_regs h)"

lemma send_frame_addend [simp]: "hw_addend (send_frame u m n h) = hw_addend h" "hw_addend_frac (send_frame u m n h) = hw_addend_frac h"
  by (simp_all add: send_frame_def eth_send_def tx_store_def)

lemma regs_simps [simp]:
  "regs (send_frame u m n h) = regs h" "regs (avdecc_send fr h) = regs h" "regs (srp_send fr h) = regs h"
  "regs (tx_store u m h) = regs h"
  "regs (h\<lparr>hw_clock_k := ck\<rparr>) = regs h" "regs (h\<lparr>hw_samples_k := sk\<rparr>) = regs h" "regs (h\<lparr>hw_rx_ts := t\<rparr>) = regs h"
  by (simp_all add: regs_def tsu_regs_def nco_regs_def avdecc_send_def srp_send_def tx_store_def)

lemma push_unsol_regs [simp]: "regs (snd (push_unsol fr w)) = regs (snd w)"
proof -
  define f where "f = (\<lambda>i (s, h).
     let c = v_unsol_ctrl s ! i
     in if vu_active c = 0 then (s, h)
        else (s\<lparr>v_unsol_ctrl := (v_unsol_ctrl s)[i := c\<lparr>vu_unsol_seq_id := vu_unsol_seq_id c + 1\<rparr>],
                v_aecp_tx_count := v_aecp_tx_count s + 1\<rparr>,
              avdecc_send (fr s c) h))"
  have step: "regs (snd (f i w)) = regs (snd w)" for i w by (cases w) (simp add: f_def Let_def)
  have "regs (snd (fold f is w)) = regs (snd w)" for "is" w
    by (induction "is" arbitrary: w) (simp_all add: step)
  from this [of "[0..<AVDECC_MAX_UNSOL_CTRL]" w] show ?thesis unfolding push_unsol_def f_def .
qed

lemma notify_regs [simp]:
  "regs (snd (push_unsol_stream_counters uid w)) = regs (snd w)" "regs (snd (push_unsol_clock_counters w)) = regs (snd w)"
  "regs (snd (push_unsol_stream_info dt di w)) = regs (snd w)"
  "regs (snd (notify_listener_connected uid w)) = regs (snd w)" "regs (snd (notify_listener_disconnected uid w)) = regs (snd w)"
  "regs (snd (avdecc_listener_lock_changed uid b w)) = regs (snd w)"
  by (cases w, simp_all add: push_unsol_stream_counters_def push_unsol_clock_counters_def push_unsol_stream_info_def
      push_unsol_counters_def notify_listener_connected_def notify_listener_disconnected_def avdecc_listener_lock_changed_def Let_def)+

lemma acmp_regs [simp]:
  "regs (snd (acmp_send_response mt st p w)) = regs (snd w)" "regs (snd (send_connect_tx_command r w)) = regs (snd w)"
  "regs (snd (send_disconnect_tx_command r sid w)) = regs (snd w)"
  "regs (snd (send_deferred_connect_rx_response r st sid d vl w)) = regs (snd w)"
  "regs (snd (acmp_handle_get_tx_state p w)) = regs (snd w)" "regs (snd (acmp_handle_get_rx_state p w)) = regs (snd w)"
  by (cases w, simp add: acmp_send_response_def send_connect_tx_command_def send_disconnect_tx_command_def
      send_deferred_connect_rx_response_def acmp_handle_get_tx_state_def acmp_handle_get_rx_state_def Let_def)+

lemma watchdog_regs [simp]: "regs (snd (avdecc_crf_flow_watchdog uid rx now w)) = regs (snd w)"
  by (cases w) (simp add: avdecc_crf_flow_watchdog_def send_connect_tx_command_def send_disconnect_tx_command_def Let_def)

lemma adp_regs [simp]: "regs (snd (adp_send g mt w)) = regs (snd w)"
  by (cases w) (simp add: adp_send_def Let_def)

lemma resolve_timeout_regs [simp]: "regs (snd (resolve_timeout now i w)) = regs (snd w)"
  by (cases w) (simp add: resolve_timeout_def send_deferred_connect_rx_response_def Let_def)

lemma track_regs [simp]: "regs (snd (track_clock_lock g m w)) = regs (snd w)"
  by (cases w) (simp add: track_clock_lock_def Let_def)

lemma fold_timeout_regs [simp]: "regs (snd (fold (resolve_timeout now) is w)) = regs (snd w)"
  by (induction "is" arbitrary: w) simp_all

lemma avdecc_poll_regs [simp]: "regs (snd (avdecc_poll g m w)) = regs (snd w)"
proof -
  have t: "regs h1 = regs (snd w)" if "track_clock_lock g m w = (s1, h1)" for s1 h1
    using track_regs [of g m w] that by simp
  have f: "regs h1 = regs h" if "fold (resolve_timeout now) is (s, h) = (s1, h1)" for s h s1 h1 now "is"
    using fold_timeout_regs [of now "is" "(s, h)"] that by simp
  have a: "regs h1 = regs h" if "adp_send g k (s, h) = (s1, h1)" for s h s1 h1 k
    using adp_regs [of g k "(s, h)"] that by simp
  show ?thesis unfolding avdecc_poll_def Let_def gptp_uptime_ms_eq
    by (auto split: prod.split dest!: t f a)
qed

lemma aecp_regs [simp]:
  "regs (snd (aecp_transmit st n w)) = regs (snd w)" "regs (snd (aecp_respond fr p body status cdl n w)) = regs (snd w)"
  by (cases w, simp add: aecp_transmit_def aecp_respond_def)+

lemma aecp_handlers_regs [simp]:
  "regs (snd (aecp_read_descriptor g fr p n w)) = regs (snd w)" "regs (snd (aecp_acquire_lock c fr p n w)) = regs (snd w)"
  "regs (snd (aecp_get_stream_format fr p n w)) = regs (snd w)" "regs (snd (aecp_set_stream_format fr p n w)) = regs (snd w)"
  "regs (snd (aecp_get_clock_source fr p n w)) = regs (snd w)" "regs (snd (aecp_get_as_path g fr p n w)) = regs (snd w)"
  "regs (snd (aecp_get_avb_info g r fr p n w)) = regs (snd w)" "regs (snd (aecp_get_counters fr p n w)) = regs (snd w)"
  "regs (snd (aecp_get_audio_map fr p n w)) = regs (snd w)" "regs (snd (aecp_register_unsolicited c fr p w)) = regs (snd w)"
  "regs (snd (aecp_get_max_transit_time fr p n w)) = regs (snd w)" "regs (snd (aecp_get_stream_info fr p n w)) = regs (snd w)"
  "regs (snd (aecp_get_name fr p n w)) = regs (snd w)" "regs (snd (aecp_unknown fr p w)) = regs (snd w)"
  "regs (snd (mvu_handle fr p n w)) = regs (snd w)"
  by (cases w, simp add: aecp_read_descriptor_def aecp_acquire_lock_def aecp_get_stream_format_def aecp_set_stream_format_def
      aecp_get_clock_source_def aecp_get_as_path_def aecp_get_avb_info_def aecp_get_counters_def aecp_get_audio_map_def
      aecp_register_unsolicited_def aecp_get_max_transit_time_def aecp_get_stream_info_def aecp_get_name_def aecp_unknown_def
      mvu_handle_def Let_def split: option.split prod.split)+

section \<open>What the callbacks keep, reception keeps\<close>

definition env_holds :: "(hw \<Rightarrow> 'e \<Rightarrow> bool) \<Rightarrow> 'e vworld \<Rightarrow> bool" where
  "env_holds Q w \<longleftrightarrow> Q (fst (snd w)) (snd (snd w))"

lemma env_state: "env_holds Q (s, h, e) = Q h e"
  by (simp add: env_holds_def)

lemma env_if: "(c \<Longrightarrow> env_holds Q a) \<Longrightarrow> (\<not> c \<Longrightarrow> env_holds Q b) \<Longrightarrow> env_holds Q (if c then a else b)"
  by simp

locale environment_contract =
  fixes cbs :: "'e avdecc_callbacks" and Q :: "hw \<Rightarrow> 'e \<Rightarrow> bool"
  assumes stable: "regs h' = regs h \<Longrightarrow> Q h e \<Longrightarrow> Q h' e"
    and keeps_talker_connect: "cb_talker_connect cbs = Some f \<Longrightarrow> env_holds Q w \<Longrightarrow> env_holds Q (f uid eid w)"
    and keeps_talker_disconnect: "cb_talker_disconnect cbs = Some g \<Longrightarrow> env_holds Q w \<Longrightarrow> env_holds Q (g uid w)"
    and keeps_listener_connect: "cb_listener_connect cbs = Some k \<Longrightarrow> length sid = 8 \<Longrightarrow> length dst = 6 \<Longrightarrow> env_holds Q w \<Longrightarrow> env_holds Q (k uid sid dst tid w)"
    and keeps_listener_disconnect: "cb_listener_disconnect cbs = Some d \<Longrightarrow> env_holds Q w \<Longrightarrow> env_holds Q (d uid w)"
    and keeps_clock_source: "cb_clock_source_change cbs = Some c \<Longrightarrow> env_holds Q w \<Longrightarrow> env_holds Q (c src w)"
begin

lemma env_lift:
  assumes "env_holds Q w" and "\<And>s h. regs (snd (f (s, h))) = regs h"
  shows "env_holds Q (lift_w f w)"
proof (cases w)
  case (fields s h e)
  have "regs (snd (f (s, h))) = regs h" by (rule assms(2))
  then show ?thesis using assms(1) stable [of "snd (f (s, h))" h e] unfolding fields lift_w_def env_holds_def
    by (cases "f (s, h)") auto
qed

lemma env_cbs:
  assumes "env_holds Q w"
  shows "env_holds Q (case cb_talker_connect cbs of None \<Rightarrow> w | Some f \<Rightarrow> f uid l w)"
    "env_holds Q (case cb_talker_disconnect cbs of None \<Rightarrow> w | Some f \<Rightarrow> f uid w)"
    "length a = 8 \<Longrightarrow> length b = 6 \<Longrightarrow> env_holds Q (case cb_listener_connect cbs of None \<Rightarrow> w | Some f \<Rightarrow> f uid a b c w)"
    "env_holds Q (case cb_listener_disconnect cbs of None \<Rightarrow> w | Some f \<Rightarrow> f uid w)"
    "env_holds Q (case cb_clock_source_change cbs of None \<Rightarrow> w | Some f \<Rightarrow> f uid w)"
  using assms keeps_talker_connect keeps_talker_disconnect keeps_listener_connect keeps_listener_disconnect
    keeps_clock_source by (simp_all split: option.split)

lemma acmp_env:
  assumes w: "env_holds Q (s, h, e)"
  shows "env_holds Q (acmp_handle_connect_tx cbs p (s, h, e))" "env_holds Q (acmp_handle_disconnect_tx cbs p (s, h, e))"
    "env_holds Q (acmp_handle_connect_rx cbs p (s, h, e))" "env_holds Q (acmp_handle_disconnect_rx cbs p (s, h, e))"
    "env_holds Q (acmp_bind_resolved cbs p i (s, h, e))" "env_holds Q (acmp_handle_connect_tx_response cbs p (s, h, e))"
proof -
  have w': "env_holds Q (s', h, e)" "env_holds Q (s', tick_time h, e)" for s'
    using w stable [of "tick_time h" h e] unfolding env_state by auto
  show "env_holds Q (acmp_handle_connect_tx cbs p (s, h, e))"
    unfolding acmp_handle_connect_tx_def prod.case Let_def by (intro env_if env_lift env_cbs w') simp_all
  show "env_holds Q (acmp_handle_disconnect_tx cbs p (s, h, e))"
    unfolding acmp_handle_disconnect_tx_def prod.case Let_def by (intro env_if env_lift env_cbs w') simp_all
  show "env_holds Q (acmp_handle_connect_rx cbs p (s, h, e))"
    unfolding acmp_handle_connect_rx_def prod.case Let_def gptp_uptime_ms_eq by (intro env_if env_lift env_cbs w') simp_all
  show "env_holds Q (acmp_handle_disconnect_rx cbs p (s, h, e))"
    unfolding acmp_handle_disconnect_rx_def prod.case Let_def by (intro env_if env_lift env_cbs w') simp_all
  show b: "env_holds Q (acmp_bind_resolved cbs p i (s, h, e))" for i
    unfolding acmp_bind_resolved_def prod.case Let_def by (intro env_lift env_cbs w') simp_all
  show "env_holds Q (acmp_handle_connect_tx_response cbs p (s, h, e))"
  proof -
    have fin: "env_holds Q (case lift_w f x of (s2, h2, e2) \<Rightarrow> (g s2, h2, e2))"
      if "env_holds Q x" "\<And>s h. regs (snd (f (s, h))) = regs h" for f x and g :: "avdecc_state \<Rightarrow> avdecc_state"
      using env_lift [OF that] by (cases "lift_w f x") (simp add: env_holds_def)
    show ?thesis
    proof (cases "find_resolve (get_be16 p ACMP_OFF_SEQ_ID) 0 (v_resolves s)")
      case None
      then show ?thesis using w by (simp add: acmp_handle_connect_tx_response_def)
    next
      case (Some i)
      show ?thesis unfolding acmp_handle_connect_tx_response_def prod.case Let_def Some option.case
        by (intro env_if w' fin b) simp_all
    qed
  qed
qed

lemma acmp_process_rx_env: "env_holds Q w \<Longrightarrow> env_holds Q (acmp_process_rx cbs fr len w)"
proof (cases w)
  case (fields s h e)
  assume "env_holds Q w"
  then have w': "env_holds Q (s', h, e)" for s' unfolding fields env_state .
  show ?thesis unfolding fields acmp_process_rx_def prod.case Let_def
    by (intro env_if acmp_env env_lift w') simp_all
qed

lemma aecp_handle_env: "env_holds Q w \<Longrightarrow> env_holds Q (aecp_handle cbs g r fr p n w)"
proof (cases w)
  case (fields s h e)
  assume "env_holds Q w"
  then have w': "env_holds Q (s', h, e)" for s' unfolding fields env_state .
  have src: "env_holds Q (aecp_set_clock_source cbs fr p n (s', h, e))" for s'
    unfolding aecp_set_clock_source_def prod.case Let_def
    by (intro env_if w') (auto intro!: env_lift env_cbs w')
  show ?thesis unfolding fields aecp_handle_def prod.case Let_def
    by (intro env_if env_lift src w') simp_all
qed

lemma avdecc_process_rx_env: "env_holds Q w \<Longrightarrow> env_holds Q (avdecc_process_rx cbs g r fr len w)"
  unfolding avdecc_process_rx_def Let_def
  by (intro env_if acmp_process_rx_env aecp_handle_env)

end

section \<open>The registers each module leaves alone\<close>

lemma gptp_nco [simp]:
  "nco_regs (snd (gptp_servo_update w)) = nco_regs (snd w)" "nco_regs (snd (process_sync p w)) = nco_regs (snd w)"
  "nco_regs (snd (process_pdelay_req p w)) = nco_regs (snd w)" "nco_regs (snd (process_pdelay_resp p w)) = nco_regs (snd w)"
  "nco_regs (snd (process_pdelay_resp_fup p w)) = nco_regs (snd w)"
  by (cases w, simp add: gptp_servo_update_def process_sync_def process_pdelay_req_def process_pdelay_resp_def
      process_pdelay_resp_fup_def servo_coarse_step_def gptp_set_addend_full_def gptp_step_time_def gptp_uptime_ms_eq
      gptp_send_pdelay_resp_def gptp_send_pdelay_resp_fup_def nco_regs_def Let_def case_prod_unfold)+

lemma follow_up_nco [simp]: "nco_regs (snd (process_follow_up p w)) = nco_regs (snd w)"
  by (cases w) (simp add: process_follow_up_def Let_def)

lemma gptp_rx_nco [simp]: "nco_regs (snd (gptp_process_rx f len w)) = nco_regs (snd w)"
  by (cases w) (simp add: gptp_process_rx_def Let_def)

lemma gptp_poll_nco [simp]: "nco_regs (snd (gptp_poll w)) = nco_regs (snd w)"
  by (cases w) (simp add: gptp_poll_def gptp_send_pdelay_req_def gptp_uptime_ms_eq nco_regs_def Let_def case_prod_unfold)

lemma mcr_tsu [simp]:
  "tsu_regs (snd (mcr_servo_update w)) = tsu_regs (snd w)" "tsu_regs (snd (mcr_bind sid w)) = tsu_regs (snd w)"
  "tsu_regs (snd (mcr_unbind w)) = tsu_regs (snd w)" "tsu_regs (snd (mcr_watchdog_tick now w)) = tsu_regs (snd w)"
  "tsu_regs (snd (mcr_process_rx f len w)) = tsu_regs (snd w)"
  by (cases w, simp add: mcr_servo_update_def mcr_bind_def mcr_unbind_def mcr_watchdog_tick_def mcr_process_rx_other
      tsu_regs_def Let_def case_prod_unfold)+

lemma mcr_pump_loop_tsu [simp]: "tsu_regs (snd (mcr_pump_loop n w)) = tsu_regs (snd w)"
proof (induction n w rule: mcr_pump_loop.induct)
  case (2 n m h)
  have t: "tsu_regs (h\<lparr>hw_crf_fifo := q\<rparr>) = tsu_regs h" for q by (simp add: tsu_regs_def)
  show ?case using 2 by (cases "hw_crf_fifo h") (simp_all add: t)
qed simp

lemma mcr_pump_tsu [simp]: "tsu_regs (snd (mcr_pump_hw w)) = tsu_regs (snd w)"
  by (cases w) (simp add: mcr_pump_hw_def)

lemma srp_regs [simp]: "regs (snd (srp_listener_enable sid en w)) = regs (snd w)" "regs (snd (srp_poll w)) = regs (snd w)"
  by (cases w, simp add: srp_listener_enable_def gptp_uptime_ms_eq) (cases w, simp add: srp_poll_def gptp_uptime_ms_eq srp_send_declarations_def mvrp_send_join_vid_def Let_def case_prod_unfold)

lemma aaf_regs [simp]: "regs (snd (aaf_tx_poll w)) = regs (snd w)" "regs (snd (aaf_tx_enable a en h)) = regs h"
  by (cases w, simp add: aaf_tx_poll_def aaf_send_packet_def mcr_sample_count_read_def gptp_read_time_eq Let_def case_prod_unfold)
    (simp add: aaf_tx_enable_def mcr_sample_count_read_def Let_def)

section \<open>The invariant\<close>

text \<open>
  \<open>one_source\<close>: the software talker, the gateware packetizer and the SRP talker declaration
  are switched together.  \<open>pending_wf\<close>: a pending fast connect is stored under its own uid.
  \<open>board_core\<close> says all that holds of the board apart from the AVDECC state, whose invariant
  is \<open>avd_ok\<close>.
\<close>

definition one_source :: "board \<Rightarrow> bool" where
  "one_source b \<longleftrightarrow> (a_tx_enabled (b_aaf b) \<noteq> 0 \<longleftrightarrow> b_aaf_gw_enabled b \<noteq> 0)
     \<and> (s_talker_enabled (b_srp b) \<noteq> 0 \<longleftrightarrow> b_aaf_gw_enabled b \<noteq> 0)
     \<and> pk_enable (b_pkt b) = (if b_aaf_gw_enabled b \<noteq> 0 then 1 else 0)"

definition pending_wf :: "pending_bind list \<Rightarrow> bool" where
  "pending_wf ps \<longleftrightarrow> length ps = N_PENDING \<and> (\<forall>i < N_PENDING. pb_active (ps ! i) \<noteq> 0 \<longrightarrow> pb_uid (ps ! i) = of_nat i)"

definition board_core :: "u32 \<Rightarrow> hw \<Rightarrow> board \<Rightarrow> bool" where
  "board_core base h b \<longleftrightarrow> gptp_ok (b_gptp b, h) \<and> mcr_ok base (b_mcr b, h) \<and> talkers_ok (s_remote_talkers (b_srp b))
     \<and> aaf_ids_ok (b_aaf b) \<and> one_source b \<and> pending_wf (b_pending b) \<and> length (b_usb_block b) = AAF_CHANNELS"

definition board_ok :: "u32 \<Rightarrow> machine \<Rightarrow> bool" where
  "board_ok base w \<longleftrightarrow> board_core base (snd w) (fst w) \<and> avd_ok (b_avdecc (fst w))"

lemma gptp_ok_regs: "gptp_ok (g, h) \<Longrightarrow> tsu_regs h' = tsu_regs h \<Longrightarrow> gptp_ok (g, h')"
  by (simp add: gptp_ok_def tsu_regs_def)

lemma mcr_ok_regs: "mcr_ok base (m, h) \<Longrightarrow> nco_regs h' = nco_regs h \<Longrightarrow> mcr_ok base (m, h')"
  by (simp add: mcr_ok_def nco_regs_def)

lemma core_regs: "board_core base h b \<Longrightarrow> regs h' = regs h \<Longrightarrow> board_core base h' b"
  using gptp_ok_regs mcr_ok_regs by (auto simp: board_core_def regs_def)

lemma core_gptp: "board_core base h b \<Longrightarrow> gptp_ok w \<Longrightarrow> nco_regs (snd w) = nco_regs h \<Longrightarrow> board_core base (snd w) (b\<lparr>b_gptp := fst w\<rparr>)"
  using mcr_ok_regs by (auto simp: board_core_def one_source_def)

lemma core_mcr: "board_core base h b \<Longrightarrow> mcr_ok base w \<Longrightarrow> tsu_regs (snd w) = tsu_regs h \<Longrightarrow> board_core base (snd w) (b\<lparr>b_mcr := fst w\<rparr>)"
  using gptp_ok_regs by (auto simp: board_core_def one_source_def)

lemma core_parts:
  assumes "board_core base h b"
  shows "gptp_ok (b_gptp b, h)" "mcr_ok base (b_mcr b, h)" "talkers_ok (s_remote_talkers (b_srp b))" "aaf_ids_ok (b_aaf b)"
    "one_source b" "pending_wf (b_pending b)" "length (b_usb_block b) = AAF_CHANNELS"
  using assms by (simp_all add: board_core_def)

text \<open>Fields the invariant does not speak of.\<close>

lemma core_other [simp]:
  "board_core base h (b\<lparr>b_avdecc := v\<rparr>) = board_core base h b" "board_core base h (b\<lparr>b_slot0 := fs\<rparr>) = board_core base h b"
  "board_core base h (b\<lparr>b_rx := q\<rparr>) = board_core base h b" "board_core base h (b\<lparr>b_scratch := sc\<rparr>) = board_core base h b"
  "board_core base h (b\<lparr>b_rx_total := c1\<rparr>) = board_core base h b" "board_core base h (b\<lparr>b_rx_ptp := c2\<rparr>) = board_core base h b"
  "board_core base h (b\<lparr>b_rx_avtp := c3\<rparr>) = board_core base h b" "board_core base h (b\<lparr>b_rx_msrp := c4\<rparr>) = board_core base h b"
  "board_core base h (b\<lparr>b_rx_other := c5\<rparr>) = board_core base h b" "board_core base h (b\<lparr>b_rx_last_ethertype := c6\<rparr>) = board_core base h b"
  "board_core base h (b\<lparr>b_rx_last_dst := xs\<rparr>) = board_core base h b" "board_core base h (b\<lparr>b_rx_last_src := ys\<rparr>) = board_core base h b"
  "board_core base h (b\<lparr>b_rx_avb_stream_mcast := c7\<rparr>) = board_core base h b" "board_core base h (b\<lparr>b_rx_avtp_crf := c8\<rparr>) = board_core base h b"
  "board_core base h (b\<lparr>b_rx_avtp_aaf := c9\<rparr>) = board_core base h b" "board_core base h (b\<lparr>b_rx_crf_last_sid := zs\<rparr>) = board_core base h b"
  "board_core base h (b\<lparr>b_prev_aaf_locked := p1\<rparr>) = board_core base h b" "board_core base h (b\<lparr>b_last_prio := p2\<rparr>) = board_core base h b"
  "board_core base h (b\<lparr>b_last_vid := p3\<rparr>) = board_core base h b" "board_core base h (b\<lparr>b_uart := u\<rparr>) = board_core base h b"
  "board_core base h (b\<lparr>b_bench := n\<rparr>) = board_core base h b" "board_core base h (b\<lparr>b_tsu_ns_k := k1\<rparr>) = board_core base h b"
  "board_core base h (b\<lparr>b_writer_errors_k := k2\<rparr>) = board_core base h b" "board_core base h (b\<lparr>b_dac_last_sample_tick := k3\<rparr>) = board_core base h b"
  "board_core base h (b\<lparr>b_dac_sample_count := k4\<rparr>) = board_core base h b" "board_core base h (b\<lparr>b_dac_underrun_count := k5\<rparr>) = board_core base h b"
  "board_core base h (b\<lparr>b_ch_select := k6\<rparr>) = board_core base h b" "board_core base h (b\<lparr>b_ch_fifo := ff\<rparr>) = board_core base h b"
  "board_core base h (b\<lparr>b_i2s := ii\<rparr>) = board_core base h b" "board_core base h (b\<lparr>b_reset := rr\<rparr>) = board_core base h b"
  "board_core base h (b\<lparr>b_utap := t1\<rparr>) = board_core base h b" "board_core base h (b\<lparr>b_ulpi_tap := t2\<rparr>) = board_core base h b"
  "board_core base h (b\<lparr>b_usb_fifo := uf\<rparr>) = board_core base h b"
  by (simp_all add: board_core_def one_source_def)

section \<open>Every part of the main loop keeps the invariant\<close>

abbreviation core :: "u32 \<Rightarrow> machine \<Rightarrow> bool" where
  "core base w \<equiv> board_core base (snd w) (fst w)"

lemma core_on_mcr:
  assumes "core base w" and "\<And>x. mcr_ok base x \<Longrightarrow> mcr_ok base (f x)" and "\<And>x. tsu_regs (snd (f x)) = tsu_regs (snd x)"
  shows "core base (on_mcr f w)"
proof (cases w)
  case (Pair b h)
  then show ?thesis using assms core_mcr [of base h b "f (b_mcr b, h)"] core_parts(2) [of base h b] by (simp add: on_eq)
qed

lemma core_on_gptp:
  assumes "core base w" and "\<And>x. gptp_ok x \<Longrightarrow> gptp_ok (f x)" and "\<And>x. nco_regs (snd (f x)) = nco_regs (snd x)"
  shows "core base (on_gptp f w)"
proof (cases w)
  case (Pair b h)
  then show ?thesis using assms core_gptp [of base h b "f (b_gptp b, h)"] core_parts(1) [of base h b] by (simp add: on_eq)
qed

lemma core_on_avdecc:
  assumes "core base w" and "\<And>x. regs (snd (f x)) = regs (snd x)"
  shows "core base (on_avdecc f w)"
proof (cases w)
  case (Pair b h)
  then show ?thesis using assms core_regs [of base h b "snd (f (b_avdecc b, h))"] by (simp add: on_eq)
qed

lemma core_srp:
  assumes "board_core base h b" and "regs h' = regs h" and "talkers_ok (s_remote_talkers s)"
    and "s_talker_enabled s = s_talker_enabled (b_srp b)"
  shows "board_core base h' (b\<lparr>b_srp := s\<rparr>)"
  using core_regs [OF assms(1,2)] assms(3,4) by (simp add: board_core_def one_source_def)

lemma core_aaf:
  assumes "board_core base h b" and "aaf_ids_ok a" and "a_tx_enabled a = a_tx_enabled (b_aaf b)"
  shows "board_core base h (b\<lparr>b_aaf := a\<rparr>)"
  using assms by (simp add: board_core_def one_source_def)

lemma enable_fields:
  "s_remote_talkers (fst (srp_listener_enable sid en w)) = s_remote_talkers (fst w)"
  "s_talker_enabled (fst (srp_listener_enable sid en w)) = s_talker_enabled (fst w)"
  by (cases w, simp add: srp_listener_enable_def gptp_uptime_ms_eq)+

lemma core_enable: "core base w \<Longrightarrow> core base (on_srp (srp_listener_enable sid en) w)"
  by (cases w) (auto simp: on_eq enable_fields intro!: core_srp core_parts(3))

lemma mcr_bind_ok: "mcr_ok base x \<Longrightarrow> mcr_ok base (mcr_bind sid x)"
  by (cases x) (auto simp: mcr_ok_def mcr_bind_def MCR_INTEGRAL_CLAMP_def)

lemma mcr_unbind_ok: "0 < base \<Longrightarrow> mcr_ok base x \<Longrightarrow> mcr_ok base (mcr_unbind x)"
  by (cases x) (auto simp: mcr_ok_def mcr_unbind_def MCR_INCREMENT_MAX_DELTA_def)

lemma filter_core [simp]:
  "board_core base h (avtp_filter_set_slot sl sid dm b) = board_core base h b"
  "board_core base h (avtp_filter_clear_slot sl b) = board_core base h b"
  by (simp_all add: avtp_filter_set_slot_def avtp_filter_clear_slot_def)

lemma bind_engine_core: "core base w \<Longrightarrow> length sid = 8 \<Longrightarrow> core base (bind_engine uid sid dm w)"
proof (cases w)
  case (Pair b h)
  assume c: "core base w" and l: "length sid = 8"
  have m: "core base (on_mcr (mcr_bind sid) (b, h))" using c by (intro core_on_mcr mcr_bind_ok) (simp_all add: Pair)
  have a: "board_core base h (b\<lparr>b_aaf := aaf_bind (b_aaf b) sid\<rparr>)"
    using c core_parts(4) [of base h b] l by (intro core_aaf) (simp_all add: Pair aaf_bind_def aaf_ids_ok_def)
  show ?thesis using c m a by (cases "on_mcr (mcr_bind sid) (b, h)") (simp add: bind_engine_def Pair)
qed

lemma set_listener_core [simp]: "board_core base h (set_listener i f b) = board_core base h b"
  by (simp add: set_listener_def)

lemma core_pending: "board_core base h b \<Longrightarrow> pending_wf ps \<Longrightarrow> board_core base h (b\<lparr>b_pending := ps\<rparr>)"
  by (simp add: board_core_def one_source_def)

lemma pending_clear: "pending_wf ps \<Longrightarrow> pending_wf (ps[i := p\<lparr>pb_active := 0\<rparr>])"
  unfolding pending_wf_def
proof (intro conjI allI impI)
  assume w: "length ps = N_PENDING \<and> (\<forall>i < N_PENDING. pb_active (ps ! i) \<noteq> 0 \<longrightarrow> pb_uid (ps ! i) = of_nat i)"
  fix j assume "j < N_PENDING" "pb_active (ps[i := p\<lparr>pb_active := 0\<rparr>] ! j) \<noteq> 0"
  then show "pb_uid (ps[i := p\<lparr>pb_active := 0\<rparr>] ! j) = of_nat j" using w by (cases "i = j") auto
qed simp

lemma aaf_ids_frame: "aaf_ids_ok (a\<lparr>a_tx_enabled := x\<rparr>) = aaf_ids_ok a"
  by (simp add: aaf_ids_ok_def)

lemma learn_core: "core base w \<Longrightarrow> length sid = 8 \<Longrightarrow> core base (learn_binding sid dm i w)"
proof (cases w)
  case (Pair b h)
  assume c: "core base w" and l: "length sid = 8"
  define f where "f = (\<lambda>l. copy_msrp (b_srp b) sid (l\<lparr>vl_stream_id := sid, vl_dest_mac := dm\<rparr>))"
  define b1 where "b1 = (if ucast (pb_uid (b_pending b ! i)) < AVDECC_MAX_LISTENERS
      then set_listener (unat (pb_uid (b_pending b ! i))) f b else b)"
  obtain b2 h2 where e: "on_srp (srp_listener_enable sid 1) (b1, h) = (b2, h2)" by fastforce
  obtain b3 h3 where g: "bind_engine (ucast (pb_uid (b_pending b ! i))) sid (pb_dest_mac (b_pending b ! i)) (b2, h2) = (b3, h3)"
    by fastforce
  have "core base (b1, h)" using c by (simp add: Pair b1_def)
  then have "core base (b2, h2)" using core_enable [of base "(b1, h)" sid 1] e by simp
  then have "core base (b3, h3)" using bind_engine_core [OF _ l, of base "(b2, h2)"] g by metis
  then have "core base (b3\<lparr>b_pending := (b_pending b3)[i := (b_pending b ! i)\<lparr>pb_active := 0\<rparr>]\<rparr>, h3)"
    by (simp add: core_pending pending_clear core_parts(6))
  then show ?thesis using c unfolding Pair learn_binding_def prod.case Let_def f_def [symmetric] b1_def [symmetric] e g by simp
qed

lemma on_talker_advertise_core:
  assumes "core base w" and "length sid = 8"
  shows "core base (on_talker_advertise sid dm w)"
proof -
  have "core base (fold (learn_binding sid dm) is w)" for "is"
    using assms(1) by (induction "is" arbitrary: w) (simp_all add: learn_core assms(2))
  then show ?thesis by (simp add: on_talker_advertise_def)
qed

lemma talker_switch:
  assumes "board_core base h b" and "regs h' = regs h" and "aaf_ids_ok a" and "(a_tx_enabled a \<noteq> 0) = (on \<noteq> 0)"
    and "s_remote_talkers s = s_remote_talkers (b_srp b)" and "(s_talker_enabled s \<noteq> 0) = (on \<noteq> 0)"
  shows "board_core base h' (aaf_gw_set on (b\<lparr>b_aaf := a, b_srp := s\<rparr>))"
  using core_regs [OF assms(1,2)] assms(3-6)
  by (simp add: board_core_def one_source_def aaf_gw_set_def aaf_gw_push_binding_def Let_def)

lemma tx_enable_fields:
  "aaf_ids_ok (fst (aaf_tx_enable a en h)) = aaf_ids_ok a" "(a_tx_enabled (fst (aaf_tx_enable a en h)) \<noteq> 0) = (en \<noteq> 0)"
  by (simp_all add: aaf_tx_enable_def mcr_sample_count_read_def aaf_ids_ok_def Let_def)

lemma talker_enable_fields:
  "s_remote_talkers (srp_talker_enable s en) = s_remote_talkers s" "s_talker_enabled (srp_talker_enable s en) = en"
  by (simp_all add: srp_talker_enable_def)

lemma gw_set_late:
  "(aaf_gw_set 0 b)\<lparr>b_aaf := a, b_srp := s\<rparr> = aaf_gw_set 0 (b\<lparr>b_aaf := a, b_srp := s\<rparr>)"
  "b_aaf (aaf_gw_set on b) = b_aaf b" "b_srp (aaf_gw_set on b) = b_srp b"
  by (simp_all add: aaf_gw_set_def aaf_gw_push_binding_def Let_def)

lemma on_talker_connect_core: "core base w \<Longrightarrow> core base (on_talker_connect uid w)"
proof (cases w)
  case (Pair b h)
  assume "core base w"
  then have "core base (aaf_gw_set 1 (b\<lparr>b_aaf := fst (aaf_tx_enable (b_aaf b) 1 h), b_srp := srp_talker_enable (b_srp b) 1\<rparr>),
      snd (aaf_tx_enable (b_aaf b) 1 h))"
    unfolding fst_conv snd_conv
    by (intro talker_switch [where h = h]) (simp_all add: Pair tx_enable_fields talker_enable_fields core_parts(4))
  then show ?thesis using \<open>core base w\<close> by (simp add: on_talker_connect_def Pair on_eq)
qed

lemma on_talker_disconnect_core: "core base w \<Longrightarrow> core base (on_talker_disconnect uid w)"
proof (cases w)
  case (Pair b h)
  assume "core base w"
  then have "core base (aaf_gw_set 0 (b\<lparr>b_aaf := fst (aaf_tx_enable (b_aaf b) 0 h), b_srp := srp_talker_enable (b_srp b) 0\<rparr>),
      snd (aaf_tx_enable (b_aaf b) 0 h))"
    unfolding fst_conv snd_conv
    by (intro talker_switch [where h = h]) (simp_all add: Pair tx_enable_fields talker_enable_fields core_parts(4))
  then show ?thesis using \<open>core base w\<close> by (simp add: on_talker_disconnect_def Pair on_eq gw_set_late)
qed

lemma pending_set: "pending_wf ps \<Longrightarrow> uid < of_nat N_PENDING \<Longrightarrow> pending_wf (ps[unat (uid :: u16) := \<lparr>pb_active = 1,
    pb_uid = ucast uid, pb_dest_mac = dm, pb_talker_entity_id = tid, pb_talker_uid = 0\<rparr>])"
  unfolding pending_wf_def
proof (intro conjI allI impI)
  assume w: "length ps = N_PENDING \<and> (\<forall>i < N_PENDING. pb_active (ps ! i) \<noteq> 0 \<longrightarrow> pb_uid (ps ! i) = of_nat i)"
    and u: "uid < of_nat N_PENDING"
  fix j assume j: "j < N_PENDING" "pb_active (ps[unat uid := \<lparr>pb_active = 1, pb_uid = ucast uid, pb_dest_mac = dm,
      pb_talker_entity_id = tid, pb_talker_uid = 0\<rparr>] ! j) \<noteq> 0"
  have "ucast uid = (of_nat (unat uid) :: u8)" by (simp add: of_nat_unat)
  then show "pb_uid (ps[unat uid := \<lparr>pb_active = 1, pb_uid = ucast uid, pb_dest_mac = dm,
      pb_talker_entity_id = tid, pb_talker_uid = 0\<rparr>] ! j) = of_nat j" using w j by (cases "unat uid = j") auto
qed simp

lemma on_listener_connect_core:
  assumes "core base w" and "length sid = 8"
  shows "core base (on_listener_connect uid sid dm tid w)"
proof (cases w)
  case (Pair b h)
  have c: "board_core base h b" using assms(1) by (simp add: Pair)
  note p = core_parts(6) [OF c]
  show ?thesis unfolding Pair on_listener_connect_def prod.case Let_def
    using c p by (auto simp: core_pending pending_set pending_clear not_le intro!: bind_engine_core core_enable assms(2))
qed

lemma on_listener_disconnect_core:
  assumes "core base w" and "0 < base"
  shows "core base (on_listener_disconnect uid w)"
proof (cases w)
  case (Pair b h)
  define b1 where "b1 = (if uid < of_nat N_PENDING
      then b\<lparr>b_pending := (b_pending b)[unat uid := (b_pending b ! unat uid)\<lparr>pb_active := 0\<rparr>]\<rparr> else b)"
  have c: "core base (b1, h)" using assms(1) core_parts(6) [of base h b]
    by (simp add: Pair b1_def core_pending pending_clear)
  have m: "core base (on_mcr mcr_unbind w')" if "core base w'" for w'
    using that by (intro core_on_mcr mcr_unbind_ok assms(2)) simp_all
  have wd: "core base (withdraw sid (b1, h))" for sid unfolding withdraw_def by (rule core_enable [OF c])
  have a: "board_core base h2 (b2\<lparr>b_aaf := (aaf_unbind (b_aaf b2))\<lparr>a_rx_audio_capture := 0\<rparr>\<rparr>)"
    if "core base (b2, h2)" for b2 h2
    using that core_parts(4) [of base h2 b2] by (intro core_aaf) (simp_all add: aaf_unbind_def aaf_ids_ok_def)
  obtain b2 h2 where w2: "withdraw (a_stream_id (b_aaf b1)) (b1, h) = (b2, h2)" by fastforce
  obtain b3 h3 where w3: "on_mcr mcr_unbind (withdraw (m_stream_id (b_mcr b1)) (b1, h)) = (b3, h3)" by fastforce
  obtain b4 h4 where w4: "on_mcr mcr_unbind (b1, h) = (b4, h4)" by fastforce
  have "core base (b2, h2)" "core base (b3, h3)" "core base (b4, h4)"
    using wd [of "a_stream_id (b_aaf b1)"] m [OF wd [of "m_stream_id (b_mcr b1)"]] m [OF c] w2 w3 w4 by simp_all
  then show ?thesis using c a [of b2 h2] a [of b1 h]
    unfolding Pair on_listener_disconnect_def prod.case Let_def b1_def [symmetric]
    by (simp add: w2 w3 w4)
qed

lemma from_avdecc_env:
  assumes "\<And>w. core base w \<Longrightarrow> 0 < base \<Longrightarrow> core base (f w)" and "env_holds (\<lambda>h b. 0 < base \<and> board_core base h b) w"
  shows "env_holds (\<lambda>h b. 0 < base \<and> board_core base h b) (from_avdecc f w)"
proof (cases w)
  case (fields v h b)
  have "core base (f (b\<lparr>b_avdecc := v\<rparr>, h))" using assms by (intro assms(1)) (simp_all add: fields env_holds_def)
  then show ?thesis using assms(2) by (cases "f (b\<lparr>b_avdecc := v\<rparr>, h)") (simp add: fields from_avdecc_def env_holds_def)
qed

interpretation board_env: environment_contract board_callbacks "\<lambda>h b. 0 < base \<and> board_core base h b" for base
proof unfold_locales
  let ?Q = "\<lambda>h b. 0 < base \<and> board_core base h b"
  fix h h' b f g k d c uid eid sid dst tid src and w :: "board vworld"
  show "regs h' = regs h \<Longrightarrow> 0 < base \<and> board_core base h b \<Longrightarrow> 0 < base \<and> board_core base h' b"
    using core_regs by blast
  show "cb_talker_connect board_callbacks = Some f \<Longrightarrow> env_holds ?Q w \<Longrightarrow> env_holds ?Q (f uid eid w)"
    by (auto simp: board_callbacks_def intro!: from_avdecc_env on_talker_connect_core)
  show "cb_talker_disconnect board_callbacks = Some g \<Longrightarrow> env_holds ?Q w \<Longrightarrow> env_holds ?Q (g uid w)"
    by (auto simp: board_callbacks_def intro!: from_avdecc_env on_talker_disconnect_core)
  show "cb_listener_connect board_callbacks = Some k \<Longrightarrow> length sid = 8 \<Longrightarrow> length dst = 6 \<Longrightarrow> env_holds ?Q w \<Longrightarrow>
      env_holds ?Q (k uid sid dst tid w)"
    by (auto simp: board_callbacks_def intro!: from_avdecc_env on_listener_connect_core)
  show "cb_listener_disconnect board_callbacks = Some d \<Longrightarrow> env_holds ?Q w \<Longrightarrow> env_holds ?Q (d uid w)"
    by (auto simp: board_callbacks_def intro!: from_avdecc_env on_listener_disconnect_core)
  show "cb_clock_source_change board_callbacks = Some c \<Longrightarrow> env_holds ?Q w \<Longrightarrow> env_holds ?Q (c src w)"
    by (simp add: board_callbacks_def)
qed

lemma board_ok_parts: "board_ok base w \<longleftrightarrow> core base w \<and> avd_ok (b_avdecc (fst w))"
  by (simp add: board_ok_def)

lemma board_avdecc_rx_ok:
  assumes "0 < base" and "board_ok base w"
  shows "board_ok base (board_avdecc_rx fr len w)"
proof (cases w)
  case (Pair b h)
  let ?w = "(b_avdecc b, h, b)"
  let ?r = "avdecc_process_rx board_callbacks (Some (b_gptp b)) (Some (b_srp b)) fr len ?w"
  have "env_holds (\<lambda>h b. 0 < base \<and> board_core base h b) ?r"
    by (rule board_env.avdecc_process_rx_env) (use assms in \<open>simp add: Pair env_holds_def board_ok_def\<close>)
  moreover have "avd_ok (fst ?r)"
    by (rule avdecc_process_rx_ok [OF board.keeps_invariant]) (use assms in \<open>simp add: Pair board_ok_def\<close>)
  ultimately show ?thesis by (cases ?r) (simp add: Pair board_avdecc_rx_def board_ok_def env_holds_def)
qed

lemma copy_listener_ok:
  "avd_ok (b_avdecc (set_listener i f b)) = avd_ok (b_avdecc b)"
  by (simp add: set_listener_def avd_ok_def)

lemma learn_avd: "avd_ok (b_avdecc (fst (learn_binding sid dm i w))) = avd_ok (b_avdecc (fst w))"
proof (cases w)
  case (Pair b h)
  have be: "b_avdecc (fst (bind_engine uid sid dm x)) = b_avdecc (fst x)" for uid dm x
    by (cases x) (simp add: bind_engine_def on_eq)
  have "b_avdecc b3 = b_avdecc b1"
    if "bind_engine uid sid dm' (on_srp f (b1, h)) = (b3, h3)" for uid dm' f b1 h3 b3
    using be [of uid dm' "on_srp f (b1, h)"] that by simp
  then show ?thesis unfolding Pair learn_binding_def prod.case Let_def
    by (auto split: prod.split simp: copy_listener_ok on_eq)
qed

lemma on_talker_advertise_avd: "avd_ok (b_avdecc (fst (on_talker_advertise sid dm w))) = avd_ok (b_avdecc (fst w))"
proof -
  have "avd_ok (b_avdecc (fst (fold (learn_binding sid dm) is w))) = avd_ok (b_avdecc (fst w))" for "is"
    by (induction "is" arbitrary: w) (simp_all add: learn_avd)
  then show ?thesis by (simp add: on_talker_advertise_def)
qed

definition srp_world_ok :: "u32 \<Rightarrow> board world \<Rightarrow> bool" where
  "srp_world_ok base w = (case w of (s, h, b) \<Rightarrow> board_ok base (b\<lparr>b_srp := s\<rparr>, h))"

lemma srp_world_update:
  assumes "srp_world_ok base (s, h, b)" and "s_talker_enabled s' = s_talker_enabled s" and "talkers_ok (s_remote_talkers s')"
    and "regs h' = regs h"
  shows "srp_world_ok base (s', h', b)"
  using assms core_srp [of base h "b\<lparr>b_srp := s\<rparr>" h' s'] by (simp add: srp_world_ok_def board_ok_def)

lemma srp_world_talkers: "srp_world_ok base (s, h, b) \<Longrightarrow> talkers_ok (s_remote_talkers s)"
  by (auto simp: srp_world_ok_def board_ok_def board_core_def)

lemma srp_callback_ok:
  assumes "srp_world_ok base (s, h, b)" and "length sid = 8"
  shows "srp_world_ok base (from_srp (on_talker_advertise sid dm) (s, h, b))"
proof -
  let ?r = "on_talker_advertise sid dm (b\<lparr>b_srp := s\<rparr>, h)"
  have "board_ok base ?r"
    using assms on_talker_advertise_core [OF _ assms(2), of base "(b\<lparr>b_srp := s\<rparr>, h)" dm] on_talker_advertise_avd [of sid dm "(b\<lparr>b_srp := s\<rparr>, h)"]
    by (simp add: srp_world_ok_def board_ok_def)
  then show ?thesis by (cases ?r) (simp add: srp_world_ok_def from_srp_def)
qed

lemma srp_talker_adv_ok:
  assumes "srp_world_ok base (s, h, b)"
  shows "srp_world_ok base (srp_talker_adv srp_callback m vp (s, h, b))"
proof -
  let ?s1 = "s\<lparr>s_rx_talker_adv_count := s_rx_talker_adv_count s + 1,
                s_remote_talkers := srp_upsert (read_talker m vp (peek_ms (tick_time h))) (s_remote_talkers s)\<rparr>"
  have s1: "srp_world_ok base (?s1, tick_time (tick_time h), b)"
    by (rule srp_world_update [OF assms]) (simp_all add: upsert_ok srp_world_talkers [OF assms])
  obtain s2 h2 b2 where r: "from_srp (on_talker_advertise (bytes m vp 8) (bytes m (vp + 8) 6)) (?s1, tick_time (tick_time h), b) = (s2, h2, b2)"
    by (metis surj_pair)
  have s2: "srp_world_ok base (s2, h2, b2)"
    using srp_callback_ok [OF s1, of "bytes m vp 8" "bytes m (vp + 8) 6"] r by simp
  have "srp_world_ok base (s2\<lparr>s_rx_match_count := c, s_talker_registered := r1, s_talker_last_seen_ms := t, s_listener_substate := ls\<rparr>, tick_time h2, b2)"
    for c r1 t ls
    by (rule srp_world_update [OF s2]) (simp_all add: srp_world_talkers [OF s2])
  then show ?thesis using s2 r by (simp add: srp_talker_adv_def srp_callback_def gptp_uptime_ms_eq Let_def)
qed

lemma srp_vector_ok:
  assumes "srp_world_ok base w"
  shows "srp_world_ok base (srp_vector srp_callback ty al m vp w)"
proof (cases w)
  case (fields s h b)
  have ok: "srp_world_ok base (s, h, b)" using assms by (simp add: fields)
  note t = srp_world_talkers [OF ok]
  show ?thesis unfolding fields srp_vector_def prod.case
    using srp_talker_adv_ok [OF ok] ok by (auto intro!: srp_world_update [OF ok] t)
qed

lemma board_srp_rx_ok:
  assumes "board_ok base w"
  shows "board_ok base (board_srp_rx fr len w)"
proof (cases w)
  case (Pair b h)
  have "srp_world_ok base (srp_process_rx srp_callback fr len (b_srp b, h, b))"
  proof (rule srp_process_rx_keeps [where P = "srp_world_ok base"])
    show "srp_world_ok base (s\<lparr>s_rx_pdu_count := s_rx_pdu_count s + 1\<rparr>, h, e)" if "srp_world_ok base (s, h, e)" for s h e
      by (rule srp_world_update [OF that]) (simp_all add: srp_world_talkers [OF that])
    show "srp_world_ok base (b_srp b, h, b)" using assms by (simp add: srp_world_ok_def Pair)
  qed (rule srp_vector_ok)
  then show ?thesis by (auto simp: Pair board_srp_rx_def srp_world_ok_def split: prod.split)
qed

lemma board_ok_module:
  "board_ok base w \<Longrightarrow> (\<And>x. gptp_ok x \<Longrightarrow> gptp_ok (f x)) \<Longrightarrow> (\<And>x. nco_regs (snd (f x)) = nco_regs (snd x)) \<Longrightarrow> board_ok base (on_gptp f w)"
  "board_ok base w \<Longrightarrow> (\<And>x. mcr_ok base x \<Longrightarrow> mcr_ok base (g x)) \<Longrightarrow> (\<And>x. tsu_regs (snd (g x)) = tsu_regs (snd x)) \<Longrightarrow> board_ok base (on_mcr g w)"
  by (simp_all add: board_ok_def core_on_gptp core_on_mcr)

lemma board_ok_avdecc:
  assumes "board_ok base w" and "\<And>s h. avd_ok s \<Longrightarrow> avd_ok (fst (f (s, h)))" and "\<And>x. regs (snd (f x)) = regs (snd x)"
  shows "board_ok base (on_avdecc f w)"
  using assms core_on_avdecc [of base w f] by (cases w) (simp add: board_ok_def on_eq)

lemma aaf_process_rx_frame:
  "a_src_mac (aaf_process_rx a fr len) = a_src_mac a" "a_dest_mac (aaf_process_rx a fr len) = a_dest_mac a"
  "a_stream_id (aaf_process_rx a fr len) = a_stream_id a" "a_tx_enabled (aaf_process_rx a fr len) = a_tx_enabled a"
  by (simp_all add: aaf_process_rx_def aaf_rx_audio_def Let_def case_prod_unfold)

lemma demux_ok:
  assumes "0 < base" and "board_ok base w"
  shows "board_ok base (demux slot fr len w)"
proof (cases w)
  case (Pair b h)
  have c: "board_core base h b" "avd_ok (b_avdecc b)" using assms(2) by (simp_all add: Pair board_ok_def)
  have g: "board_ok base (on_gptp (gptp_process_rx fr len) v)" if "board_ok base v" for v
    using that by (rule board_ok_module) (auto intro: process_rx_ok)
  have m: "board_ok base (on_mcr (mcr_process_rx fr len) v)" if "board_ok base v" for v
    using that by (rule board_ok_module) (auto intro: mcr_process_rx_ok)
  have a: "board_ok base (b'\<lparr>b_aaf := aaf_process_rx x fr len\<rparr>, h')" if "board_ok base (b', h')" "x = b_aaf b'" for b' h' x
    using that core_parts(4) [of base h' b'] by (auto simp: board_ok_def aaf_ids_ok_def aaf_process_rx_frame intro!: core_aaf)
  have br: "board_ok base x \<Longrightarrow> board_ok base y \<Longrightarrow> board_ok base (if q then x else y)" for x y q by simp
  show ?thesis unfolding Pair demux_def prod.case Let_def
    by (intro br g m a board_avdecc_rx_ok [OF assms(1)] board_srp_rx_ok) (simp_all add: board_ok_def c)
qed

lemma dispatch_frame_ok:
  assumes "0 < base" and "board_ok base w"
  shows "board_ok base (dispatch_frame r w)"
proof (cases w)
  case (Pair b h)
  have "board_ok base (b, h\<lparr>hw_rx_ts := t\<rparr>)" "board_ok base (b\<lparr>b_scratch := sc\<rparr>, h\<lparr>hw_rx_ts := t\<rparr>)" for sc t
    using assms(2) core_regs [of base h b "h\<lparr>hw_rx_ts := t\<rparr>"] by (simp_all add: Pair board_ok_def)
  then show ?thesis unfolding Pair dispatch_frame_def prod.case Let_def by (simp add: demux_ok [OF assms(1)])
qed

lemma dispatch_loop_ok: "0 < base \<Longrightarrow> board_ok base w \<Longrightarrow> board_ok base (dispatch_loop n w)"
proof (induction n w rule: dispatch_loop.induct)
  case (2 n b h)
  show ?case
  proof (cases "b_rx b")
    case (Cons r rs)
    have "board_ok base (dispatch_frame r (b\<lparr>b_rx := rs\<rparr>, h))"
      by (rule dispatch_frame_ok) (use 2 in \<open>simp_all add: board_ok_def\<close>)
    then show ?thesis using 2 Cons by simp
  qed (use 2 in simp)
qed simp

section \<open>The passes of the loop\<close>

lemma bench_tick_ok: "board_ok base w \<Longrightarrow> board_ok base (bench_tick w)"
  using core_regs [of base "snd w" "fst w" "tick_time (snd w)"]
  by (cases w) (simp add: bench_tick_def tsu_nanoseconds_read_def writer_errors_read_def gptp_uptime_ms_eq board_ok_def Let_def)

lemma srp_poll_fields:
  "talkers_ok (s_remote_talkers s) \<Longrightarrow> talkers_ok (s_remote_talkers (fst (srp_poll (s, h))))"
  "s_talker_enabled (fst (srp_poll (s, h))) = s_talker_enabled s"
  using age_ok by (auto simp: srp_poll_def send_declarations_eq decl_state_def gptp_uptime_ms_eq Let_def)

lemma srp_poll_ok: "board_ok base w \<Longrightarrow> board_ok base (on_srp srp_poll w)"
proof (cases w)
  case (Pair b h)
  assume "board_ok base w"
  then have c: "board_core base h b" "avd_ok (b_avdecc b)" by (simp_all add: Pair board_ok_def)
  have "board_core base (snd (srp_poll (b_srp b, h))) (b\<lparr>b_srp := fst (srp_poll (b_srp b, h))\<rparr>)"
    by (rule core_srp [OF c(1) _ srp_poll_fields(1) [OF core_parts(3) [OF c(1)]]]) (simp_all add: srp_poll_fields(2))
  then show ?thesis using c(2) by (simp add: Pair on_eq board_ok_def)
qed

lemma lock_report_ok:
  assumes "board_ok base w" and "l \<in> {0, 1}"
  shows "board_ok base (on_avdecc (avdecc_listener_lock_changed uid l) w)"
  using assms by (intro board_ok_avdecc lock_changed_ok) simp_all

lemma track_listener_locks_ok:
  assumes "board_ok base w"
  shows "board_ok base (track_listener_locks w)"
proof (cases w)
  case (Pair b h)
  define now :: u8 where "now = (if a_bound (b_aaf b) \<noteq> 0 \<and> a_rx_count (b_aaf b) > 0 then 1 else 0)"
  obtain b' h' where r: "on_avdecc (avdecc_listener_lock_changed LISTENER_UID_AAF now) (b, h) = (b', h')" by fastforce
  obtain b1 h1 where w1: "(if now \<noteq> b_prev_aaf_locked b then (b'\<lparr>b_prev_aaf_locked := now\<rparr>, h') else (b, h)) = (b1, h1)" by fastforce
  have "board_ok base (b', h')" using lock_report_ok [OF assms, of now LISTENER_UID_AAF] r by (simp add: Pair now_def)
  then have "board_ok base (b1, h1)" using assms w1 by (auto simp: Pair board_ok_def split: if_splits)
  note c = lock_report_ok [OF this, of "if m_servo_locked (b_mcr b1) \<noteq> 0 then 1 else 0" LISTENER_UID_CRF]
  obtain b2 h2 where r2: "on_avdecc (avdecc_listener_lock_changed LISTENER_UID_CRF (if m_servo_locked (b_mcr b1) \<noteq> 0 then 1 else 0)) (b1, h1)
      = (b2, h2)" by fastforce
  have "board_ok base (b2, h2)" using c r2 by simp
  then have "board_ok base (b2\<lparr>b_avdecc := (b_avdecc b2)\<lparr>v_stream_frames_rx := xs\<rparr>\<rparr>, h2)" if "length xs = length (v_stream_frames_rx (b_avdecc b2))" for xs
    using that by (simp add: board_ok_def avd_ok_def)
  then show ?thesis unfolding Pair track_listener_locks_def prod.case Let_def now_def [symmetric] r w1 r2 by simp
qed

lemma push_binding_core: "board_core base h b \<Longrightarrow> board_core base h (aaf_gw_push_binding b)"
  by (simp add: aaf_gw_push_binding_def board_core_def one_source_def Let_def)

lemma sync_vlan_ok: "board_ok base (b, h) \<Longrightarrow> board_ok base (sync_vlan b, h)"
proof -
  assume ok: "board_ok base (b, h)"
  have "board_core base h (b\<lparr>b_aaf := aaf_set_vlan (b_aaf b) p v\<rparr>)" for p v
    using ok core_parts(4) [of base h b] by (intro core_aaf) (simp_all add: board_ok_def aaf_set_vlan_def aaf_ids_ok_def)
  then show ?thesis using ok by (simp add: sync_vlan_def board_ok_def push_binding_core Let_def)
qed

lemma avdecc_pass_ok: "board_ok base w \<Longrightarrow> board_ok base (avdecc_pass w)"
  by (cases w) (auto simp: avdecc_pass_def intro!: board_ok_avdecc avd_poll_ok)

lemma board_ok_tick: "board_ok base (b, h) \<Longrightarrow> board_ok base (b, tick_time h)"
  using core_regs [of base h b "tick_time h"] by (simp add: board_ok_def)

lemma mcr_pump_ok: "0 < base \<Longrightarrow> mcr_ok base x \<Longrightarrow> mcr_ok base (mcr_pump_hw x)"
  by (cases x) (simp add: mcr_pump_hw_def mcr_pump_loop_ok)

lemma servo_pass_ok:
  assumes "0 < base" and "board_ok base w"
  shows "board_ok base (servo_pass w)"
proof -
  let ?w1 = "on_mcr mcr_servo_update (on_mcr mcr_pump_hw w)"
  have w1: "board_ok base ?w1"
    by (intro board_ok_module(2) assms(2) mcr_servo_ok [OF assms(1)] mcr_pump_ok [OF assms(1)]) simp_all
  obtain b1 h1 where e1: "?w1 = (b1, h1)" by fastforce
  obtain b3 h3 where e3: "on_mcr (mcr_watchdog_tick (peek_ms h1)) (b1, tick_time h1) = (b3, h3)" by fastforce
  have "board_ok base (on_mcr (mcr_watchdog_tick (peek_ms h1)) (b1, tick_time h1))"
    by (intro board_ok_module(2) mcr_tick_ok [OF assms(1)] board_ok_tick) (use w1 e1 in simp_all)
  then have "board_ok base (b3, tick_time h3)" using e3 board_ok_tick by simp
  then show ?thesis unfolding servo_pass_def Let_def e1 prod.case gptp_uptime_ms_eq e3
    by (intro board_ok_avdecc watchdog_ok) simp_all
qed

lemma dac_sample_ok: "board_ok base (b, h) \<Longrightarrow> board_ok base (dac_sample b, h)"
  by (simp add: dac_sample_def ext_pop_def board_ok_def Let_def)

lemma dac_writer_ok: "board_ok base w \<Longrightarrow> board_ok base (dac_writer w)"
proof (cases w)
  case (Pair b h)
  assume ok: "board_ok base w"
  have "board_ok base ((dac_sample ^^ n) b, h)" for n
    using ok by (induction n) (simp_all add: Pair dac_sample_ok)
  then have "board_ok base ((dac_sample ^^ n) b, h\<lparr>hw_samples_k := k\<rparr>)" for n k
    using core_regs [of base h "(dac_sample ^^ n) b" "h\<lparr>hw_samples_k := k\<rparr>"] by (simp add: board_ok_def)
  then show ?thesis by (simp add: Pair dac_writer_def mcr_sample_count_read_def board_ok_def Let_def)
qed

lemma usb_sample_ok: "board_ok base (b, h) \<Longrightarrow> board_ok base (usb_sample v b, h)"
  by (auto simp: usb_sample_def board_ok_def board_core_def one_source_def aaf_tx_push_def aaf_ids_ok_def AAF_CHANNELS_def Let_def)

lemma usb_drain_ok: "board_ok base (b, h) \<Longrightarrow> board_ok base (usb_drain_loop n b, h)"
proof (induction n b rule: usb_drain_loop.induct)
  case (2 n b)
  have "board_ok base (usb_sample v (b\<lparr>b_usb_fifo := q\<rparr>), h)" for v q
    by (rule usb_sample_ok) (use 2(2) in \<open>simp add: board_ok_def\<close>)
  then show ?case using 2 by (simp add: Let_def)
qed simp

lemma tx_poll_fields:
  "aaf_ids_ok a \<Longrightarrow> aaf_ids_ok (fst (aaf_tx_poll (a, h)))" "a_tx_enabled (fst (aaf_tx_poll (a, h))) = a_tx_enabled a"
proof -
  have p: "a_src_mac (snd (aaf_pack n a)) = a_src_mac a \<and> a_dest_mac (snd (aaf_pack n a)) = a_dest_mac a
      \<and> a_stream_id (snd (aaf_pack n a)) = a_stream_id a \<and> a_tx_enabled (snd (aaf_pack n a)) = a_tx_enabled a" for n a
    by (induction n arbitrary: a) (auto simp: aaf_tx_take_def Let_def case_prod_unfold)
  show "aaf_ids_ok a \<Longrightarrow> aaf_ids_ok (fst (aaf_tx_poll (a, h)))" "a_tx_enabled (fst (aaf_tx_poll (a, h))) = a_tx_enabled a"
    by (simp_all add: aaf_tx_poll_def aaf_send_packet_def mcr_sample_count_read_def gptp_read_time_eq aaf_ids_ok_def p Let_def case_prod_unfold)
qed

lemma software_talker_ok:
  assumes "board_ok base w"
  shows "board_ok base (software_talker w)"
proof (cases w)
  case (Pair b h)
  let ?b = "usb_aaf_drain b"
  have ok: "board_core base h ?b" "avd_ok (b_avdecc ?b)"
    using usb_drain_ok [of base b h 1024] assms by (simp_all add: Pair usb_aaf_drain_def board_ok_def)
  have "board_core base (snd (aaf_tx_poll (b_aaf ?b, h))) (?b\<lparr>b_aaf := fst (aaf_tx_poll (b_aaf ?b, h))\<rparr>)"
    by (rule core_aaf) (use ok core_regs [OF ok(1)] core_parts(4) [OF ok(1)] in \<open>simp_all add: tx_poll_fields\<close>)
  then show ?thesis using assms ok by (simp add: Pair software_talker_def on_eq board_ok_def)
qed

lemma force_talker_ok: "board_ok base w \<Longrightarrow> board_ok base (cmd_force_talker w)"
proof (cases w)
  case (Pair b h)
  assume ok: "board_ok base w"
  let ?a = "(aaf_bind (b_aaf b) (mac_addr @ [0, 1]))\<lparr>a_dest_mac := dummy_dest\<rparr>"
  have a: "aaf_ids_ok ?a" using ok core_parts(4) [of base h b]
    by (simp add: Pair board_ok_def aaf_ids_ok_def aaf_bind_def mac_addr_def dummy_dest_def)
  have "board_core base (snd (aaf_tx_enable ?a 1 h)) (aaf_gw_set 1 (b\<lparr>b_aaf := fst (aaf_tx_enable ?a 1 h),
      b_srp := srp_talker_enable (srp_talker_set (b_srp b) (mac_addr @ [0, 1]) dummy_dest 230) 1\<rparr>))"
    by (rule talker_switch [where h = h]) (use ok a in \<open>simp_all add: Pair board_ok_def tx_enable_fields talker_enable_fields srp_talker_set_def\<close>)
  then show ?thesis using ok by (simp add: Pair cmd_force_talker_def on_eq board_ok_def Let_def)
qed

lemma stop_talker_ok: "board_ok base w \<Longrightarrow> board_ok base (cmd_stop_talker w)"
proof (cases w)
  case (Pair b h)
  assume ok: "board_ok base w"
  have "board_core base (snd (aaf_tx_enable (b_aaf b) 0 h)) (aaf_gw_set 0 (b\<lparr>b_aaf := fst (aaf_tx_enable (b_aaf b) 0 h),
      b_srp := srp_talker_enable (b_srp b) 0\<rparr>))"
    by (rule talker_switch [where h = h])
      (use ok core_parts(4) [of base h b] in \<open>simp_all add: Pair board_ok_def tx_enable_fields talker_enable_fields\<close>)
  then show ?thesis using ok by (simp add: Pair cmd_stop_talker_def on_eq gw_set_late board_ok_def)
qed

lemma clear_listeners_ok:
  assumes "0 < base" and "board_ok base w"
  shows "board_ok base (cmd_clear_listeners w)"
proof (cases w)
  case (Pair b h)
  have wd: "board_ok base (withdraw sid x)" if "board_ok base x" for sid x
    using that core_enable [of base x sid 0] by (cases x) (simp add: withdraw_def board_ok_def on_eq)
  define w1 where "w1 = (if m_bound (b_mcr b) \<noteq> 0 then on_mcr mcr_unbind (withdraw (m_stream_id (b_mcr b)) (b, h)) else (b, h))"
  have "board_ok base (on_mcr mcr_unbind (withdraw (m_stream_id (b_mcr b)) (b, h)))"
    by (intro board_ok_module(2) wd mcr_unbind_ok [OF assms(1)]) (use assms(2) in \<open>simp_all add: Pair\<close>)
  then have w1: "board_ok base w1" using assms(2) by (simp add: w1_def Pair)
  obtain b1 h1 where e1: "w1 = (b1, h1)" by fastforce
  obtain b' h' where e': "withdraw (a_stream_id (b_aaf b1)) (b1, h1) = (b', h')" by fastforce
  have o': "board_ok base (b', h')" using wd [OF w1, of "a_stream_id (b_aaf b1)"] e1 e' by simp
  have "board_ok base (b'\<lparr>b_aaf := aaf_unbind (b_aaf b')\<rparr>, h')"
    using o' core_parts(4) [of base h' b'] by (auto simp: board_ok_def aaf_unbind_def aaf_ids_ok_def intro!: core_aaf)
  moreover obtain b2 h2 where e2: "(if a_bound (b_aaf b1) \<noteq> 0 then (b'\<lparr>b_aaf := aaf_unbind (b_aaf b')\<rparr>, h') else (b1, h1)) = (b2, h2)" by fastforce
  ultimately have o2: "board_ok base (b2, h2)" using w1 e1 by (auto split: if_splits)
  have p: "pending_wf (map (\<lambda>p. p\<lparr>pb_active := 0\<rparr>) (b_pending b2))"
    using o2 core_parts(6) [of base h2 b2] by (simp add: board_ok_def pending_wf_def)
  have "board_core base h2 (b2\<lparr>b_avdecc := v, b_pending := map (\<lambda>p. p\<lparr>pb_active := 0\<rparr>) (b_pending b2)\<rparr>)" for v
    using o2 by (intro core_pending p) (simp add: board_ok_def)
  then show ?thesis unfolding Pair cmd_clear_listeners_def prod.case Let_def w1_def [symmetric] e1 e' e2
    using o2 by (simp add: board_ok_def avd_ok_def)
qed

lemma uart_cmd_ok:
  assumes "0 < base" and "board_ok base (b, h)"
  shows "board_ok base (uart_cmd c (b, h))"
proof -
  have r: "board_ok base (b, h')" if "regs h' = regs h" for h'
    using assms(2) core_regs [OF _ that] by (simp add: board_ok_def)
  have m: "board_ok base (b\<lparr>b_mcr := (b_mcr b)\<lparr>m_delta_max_abs := 0, m_delta_sum_abs := 0, m_delta_window_count := 0\<rparr>\<rparr>, h')"
    if "regs h' = regs h" for h'
    using r [OF that] by (simp add: board_ok_def board_core_def mcr_ok_def one_source_def)
  have u: "board_ok base (cmd_step_tap b, h)" "board_ok base (b\<lparr>b_reset := 1\<rparr>, h)"
    using assms(2) by (simp_all add: cmd_step_tap_def board_ok_def Let_def)
  have br: "board_ok base x \<Longrightarrow> board_ok base y \<Longrightarrow> board_ok base (if q then x else y)" for x y q by simp
  show ?thesis unfolding uart_cmd_def prod.case gptp_read_time_eq mcr_sample_count_read_def snd_conv
    by (intro br r m u force_talker_ok stop_talker_ok clear_listeners_ok assms) simp_all
qed

lemma check_uart_ok: "0 < base \<Longrightarrow> board_ok base w \<Longrightarrow> board_ok base (check_uart_cmd w)"
  by (cases w) (auto simp: check_uart_cmd_def board_ok_def split: list.split intro!: uart_cmd_ok [unfolded board_ok_def fst_conv snd_conv, THEN conjunct1]
      uart_cmd_ok [unfolded board_ok_def fst_conv snd_conv, THEN conjunct2])

lemma main_iteration_ok:
  assumes "0 < base" and "board_ok base w"
  shows "board_ok base (main_iteration w)"
proof -
  let ?w1 = "track_listener_locks (on_srp srp_poll (on_gptp gptp_poll (dispatch_rx (bench_tick w))))"
  have "board_ok base ?w1" unfolding dispatch_rx_def
    by (intro track_listener_locks_ok srp_poll_ok board_ok_module(1) dispatch_loop_ok bench_tick_ok assms)
      (auto intro: Gptp.poll_ok)
  then have "board_ok base (sync_vlan (fst ?w1), snd ?w1)" by (intro sync_vlan_ok) simp
  then show ?thesis unfolding main_iteration_def Let_def
    by (intro check_uart_ok software_talker_ok dac_writer_ok servo_pass_ok avdecc_pass_ok assms(1))
qed

end
