(* ===== verification/BoardRun.thy ===== *)
theory BoardRun
  imports BoardInv
begin

text \<open>
  The machine from power-on: the states it can reach, the invariants that hold in all of them,
  and the behaviour of whole receptions and commands.
\<close>

section \<open>Reachable states\<close>

text \<open>
  The static variables before \<open>main\<close> runs: zero, as the C runtime leaves them, the three with
  an initialiser apart.  \<open>tns\<close> and \<open>we\<close> are the readings of the free-running counters.
\<close>

definition bench_zero :: bench_t where
  "bench_zero = \<lparr>window_start_ms = 0, s_writer_errors = 0, s_rx_avtp_aaf = 0, s_rx_avtp_crf = 0, s_dac_samples = 0,
     s_dac_underruns = 0, s_aecp_rx = 0, s_aecp_tx = 0, s_sync_rx = 0, s_pdresp_rx = 0, last_iter_ns = 0, max_iter_ns = 0,
     sum_iter_ns = 0, iter_count = 0, r_writer_errors = 0, r_aaf = 0, r_crf = 0, r_dac_samples = 0, r_dac_underruns = 0,
     r_aecp_rx = 0, r_aecp_tx = 0, r_sync_rx = 0, r_pdresp_rx = 0, r_iter_per_sec = 0, r_iter_avg_ns = 0, r_iter_max_ns = 0\<rparr>"

definition filter_slot_zero :: filter_slot where
  "filter_slot_zero = \<lparr>fs_sid_hi = 0, fs_sid_lo = 0, fs_mac_hi = 0, fs_mac_lo = 0, fs_enabled = 0\<rparr>"

definition aaf_pkt_zero :: aaf_pkt where
  "aaf_pkt_zero = \<lparr>pk_src_hi = 0, pk_src_lo = 0, pk_dst_hi = 0, pk_dst_lo = 0, pk_sid_hi = 0, pk_sid_lo = 0,
     pk_vlan_tci = 0, pk_enable = 0\<rparr>"

definition board_zero :: "(nat \<Rightarrow> u32) \<Rightarrow> (nat \<Rightarrow> u32) \<Rightarrow> board" where
  "board_zero tns we = \<lparr>b_gptp = gptp_zero, b_srp = srp_zero, b_avdecc = avdecc_zero, b_mcr = mcr_zero, b_aaf = aaf_zero,
     b_pending = replicate N_PENDING pending_zero, b_aaf_gw_enabled = 0, b_dac_sample_count = 0, b_dac_underrun_count = 0,
     b_dac_last_sample_tick = 0, b_rx_total = 0, b_rx_ptp = 0, b_rx_avtp = 0, b_rx_msrp = 0, b_rx_other = 0,
     b_rx_last_ethertype = 0, b_rx_last_dst = zeros 6, b_rx_last_src = zeros 6, b_rx_avb_stream_mcast = 0,
     b_rx_avtp_crf = 0, b_rx_avtp_aaf = 0, b_rx_crf_last_sid = zeros 8, b_usb_to_aaf_frames = 0, b_bench = bench_zero,
     b_scratch = (\<lambda>_. 0), b_prev_aaf_locked = 0, b_last_prio = 0xFF, b_last_vid = 0xFFFF,
     b_usb_block = replicate AAF_CHANNELS 0, b_usb_have = 0, b_utap = 8, b_slot0 = filter_slot_zero, b_pkt = aaf_pkt_zero,
     b_rx = [], b_usb_fifo = [], b_ch_select = 0, b_ch_fifo = (\<lambda>_. []), b_i2s = [], b_uart = [], b_ulpi_tap = 0,
     b_reset = 0, b_tsu_ns = tns, b_tsu_ns_k = 0, b_writer_errors = we, b_writer_errors_k = 0\<rparr>"

text \<open>
  One step of the machine: a pass of the loop, or the outside world changing what the queues
  hold -- received frames, USB and extracted samples, CRF timestamps and characters typed at
  the console.
\<close>

inductive board_step :: "machine \<Rightarrow> machine \<Rightarrow> bool" where
  pass: "board_step w (main_iteration w)"
| outside: "board_step (b, h)
    (b\<lparr>b_rx := rx, b_usb_fifo := usb, b_ch_fifo := chs, b_uart := cmds\<rparr>, h\<lparr>hw_crf_fifo := crf\<rparr>)"

inductive_cases board_stepE: "board_step w w'"
inductive_simps board_step_from: "board_step (b, h) w'"

lemma board_step_ok:
  assumes "board_step w w'" and "0 < base" and "board_ok base w"
  shows "board_ok base w'"
  using assms(1)
proof (cases rule: board_step.cases)
  case pass
  then show ?thesis using main_iteration_ok assms by blast
next
  case (outside b h cmds chs usb rx crf)
  then show ?thesis using assms(3) core_regs [of base h b "h\<lparr>hw_crf_fifo := crf\<rparr>"]
    by (simp add: board_ok_def regs_def tsu_regs_def nco_regs_def)
qed

lemma talker_set_fields:
  "s_remote_talkers (srp_talker_set s sid d n) = s_remote_talkers s"
  "s_talker_enabled (srp_talker_set s sid d n) = s_talker_enabled s"
  by (simp_all add: srp_talker_set_def)

lemma main_init_ok:
  assumes "mcr_base_increment clk 48000 = base" and "0 < base" and "hw_crf_enabled h = 0"
  shows "board_ok base (main_init clk (board_zero tns we, h))"
proof -
  have e: "main_init clk (b, h) = (fst (main_init clk (b, h)), snd (main_init clk (b, h)))" for b by simp
  have h: "regs (snd (aaf_init a b d x)) = regs x" "regs (snd (avdecc_init a x)) = regs x" "regs (snd (srp_init a x)) = regs x"
    "tsu_regs (snd (mcr_init clk fs x)) = tsu_regs x" "nco_regs (snd (gptp_init a x)) = nco_regs x"
    for a b d x fs
    by (simp_all add: aaf_init_def avdecc_init_def srp_init_def mcr_init_def gptp_init_def gptp_set_addend_full_def
        regs_def tsu_regs_def nco_regs_def Let_def)
  let ?g = "gptp_init mac_addr h"
  let ?h2 = "snd (srp_init mac_addr (snd ?g))"
  let ?m = "mcr_init clk 48000 ?h2"
  let ?sid = "mac_addr @ [0, 1]" and ?mc = "[0x91, 0xE0, 0xF0, 0, 0xFE, mac_addr ! 5]"
  let ?h5 = "snd (avdecc_init mac_addr (snd (aaf_init mac_addr ?sid ?mc (snd ?m))))"
  have r: "regs ?h5 = regs (snd ?m)" by (simp add: h)
  have "gptp_ok (fst ?g, ?h5)"
    using gptp_ok_regs [of "fst ?g" "snd ?g" ?h5] gptp_init_ok [of mac_addr h] r h by (simp add: regs_def)
  moreover have "mcr_ok base (fst ?m, ?h5)"
    using mcr_ok_regs [of base "fst ?m" "snd ?m" ?h5] mcr_init_ok [OF assms(1,2), of ?h2] r assms(3) h
    by (simp add: regs_def srp_init_def gptp_init_def gptp_set_addend_full_def)
  moreover have "talkers_ok (s_remote_talkers srp_zero)" by (rule talkers_ok_zero)
  moreover have "avd_ok (avdecc_set_talker_stream TALKER_UID_AAF sid d (fst (avdecc_init mac_addr x)))" for sid d x
    using avdecc_init_ok [of mac_addr x] by (simp add: avdecc_set_talker_stream_def avd_ok_def)
  ultimately show ?thesis
    by (simp add: main_init_def Let_def case_prod_unfold board_ok_def board_core_def board_zero_def one_source_def
        pending_wf_def N_PENDING_def AAF_CHANNELS_def aaf_pkt_zero_def pending_zero_def srp_init_def srp_talker_set_def
        aaf_init_def aaf_zero_def srp_zero_def aaf_ids_ok_def mac_addr_def less_2_cases_iff)
qed

definition board_reachable :: "u32 \<Rightarrow> (nat \<Rightarrow> u32) \<Rightarrow> (nat \<Rightarrow> u32) \<Rightarrow> hw \<Rightarrow> machine \<Rightarrow> bool" where
  "board_reachable clk tns we h0 w \<longleftrightarrow> board_step\<^sup>*\<^sup>* (main_init clk (board_zero tns we, h0)) w"

lemma reachable_ok:
  assumes "board_reachable clk tns we h0 w" and "0 < mcr_base_increment clk 48000" and "hw_crf_enabled h0 = 0"
  shows "board_ok (mcr_base_increment clk 48000) w"
  using assms(1) unfolding board_reachable_def
  by (induction rule: rtranclp_induct) (auto intro: main_init_ok [OF refl assms(2,3)] board_step_ok [OF _ assms(2)])
section \<open>One source of the audio stream\<close>

lemma usb_drain_idle: "a_tx_enabled (b_aaf b) = 0 \<Longrightarrow> b_aaf (usb_drain_loop n b) = b_aaf b"
  by (induction n b rule: usb_drain_loop.induct) (simp_all add: usb_sample_def Let_def)

lemma software_talker_idle:
  assumes "one_source b"
  shows "b_aaf (fst (software_talker (b, h))) = b_aaf b \<and> snd (software_talker (b, h)) = h"
  using assms usb_drain_idle [of b 1024] 
  by (auto simp: software_talker_def one_source_def usb_aaf_drain_def on_eq aaf_tx_poll_def)

text \<open>
  C14.  The audio stream has one source.  In every state the machine can reach -- whatever
  frames arrived, whichever callbacks and console commands ran -- the software talker, the
  gateware packetizer and the SRP talker declaration are on together or off together.  The
  loop runs the software path only while the packetizer is off, so that path never pushes a
  block and never sends a frame.
\<close>

theorem single_source:
  assumes "board_reachable clk tns we h0 (b, h)"
    and "0 < mcr_base_increment clk 48000" and "hw_crf_enabled h0 = 0"
  shows "(a_tx_enabled (b_aaf b) \<noteq> 0 \<longleftrightarrow> b_aaf_gw_enabled b \<noteq> 0)
    \<and> (s_talker_enabled (b_srp b) \<noteq> 0 \<longleftrightarrow> b_aaf_gw_enabled b \<noteq> 0)
    \<and> pk_enable (b_pkt b) = (if b_aaf_gw_enabled b \<noteq> 0 then 1 else 0)
    \<and> b_aaf (fst (software_talker (b, h))) = b_aaf b
    \<and> hw_sent (snd (software_talker (b, h))) = hw_sent h"
proof -
  have "one_source b" using reachable_ok [OF assms] by (simp add: board_ok_def board_core_def)
  then show ?thesis using software_talker_idle [of b h] by (auto simp: one_source_def)
qed

text \<open>
  C5.  The registers and tables of the whole machine, under every interleaving of frames,
  callbacks, console commands and passes: the oscillator register holds the increment the
  media clock servo computed, within 2^24 of the nominal one; the TSU addend registers hold
  what the gPTP servo computed; the extractor is enabled exactly while the CRF engine is bound;
  the AVDECC tables keep their sizes, an active resolve and a pending fast connect belong to the
  listener of their slot, and no two registrar entries in use carry the same stream.
\<close>

theorem board_invariant:
  assumes "board_reachable clk tns we h0 (b, h)"
    and "0 < mcr_base_increment clk 48000" and "hw_crf_enabled h0 = 0"
  shows "hw_nco h = m_current_increment (b_mcr b)
    \<and> \<bar>uint (hw_nco h) - uint (mcr_base_increment clk 48000)\<bar> \<le> MCR_INCREMENT_MAX_DELTA
    \<and> (hw_crf_enabled h = 1 \<longleftrightarrow> m_bound (b_mcr b) \<noteq> 0)
    \<and> hw_addend h = ucast (drop_bit 20 (g_current_addend_full (b_gptp b)))
    \<and> hw_addend_frac h = ucast (g_current_addend_full (b_gptp b) AND 0xFFFFF)
    \<and> 0 \<le> g_mean_path_delay_ns (b_gptp b) \<and> g_mean_path_delay_ns (b_gptp b) < 20000
    \<and> length (v_listeners (b_avdecc b)) = 2 \<and> length (v_talkers (b_avdecc b)) = 1
    \<and> length (b_pending b) = 2 \<and> length (b_usb_block b) = 8
    \<and> (\<forall>i < 2. (vr_active (v_resolves (b_avdecc b) ! i) = 0 \<or> unat (vr_listener_uid (v_resolves (b_avdecc b) ! i)) = i)
         \<and> (pb_active (b_pending b ! i) = 0 \<or> unat (pb_uid (b_pending b ! i)) = i))
    \<and> talkers_ok (s_remote_talkers (b_srp b))"
proof -
  have ok: "board_ok (mcr_base_increment clk 48000) (b, h)" using reachable_ok [OF assms] .
  then have c: "board_core (mcr_base_increment clk 48000) h b" "avd_ok (b_avdecc b)" by (simp_all add: board_ok_def)
  note p = core_parts [OF c(1)]
  have g: "hw_addend h = ucast (drop_bit 20 (g_current_addend_full (b_gptp b)))
    \<and> hw_addend_frac h = ucast (g_current_addend_full (b_gptp b) AND 0xFFFFF)
    \<and> 0 \<le> g_mean_path_delay_ns (b_gptp b) \<and> g_mean_path_delay_ns (b_gptp b) < 20000"
    using p(1) by (simp add: gptp_ok_def)
  have m: "hw_nco h = m_current_increment (b_mcr b)
    \<and> \<bar>uint (hw_nco h) - uint (mcr_base_increment clk 48000)\<bar> \<le> MCR_INCREMENT_MAX_DELTA
    \<and> (hw_crf_enabled h = 1 \<longleftrightarrow> m_bound (b_mcr b) \<noteq> 0)"
    using p(2) by (auto simp: mcr_ok_def)
  have v: "length (v_listeners (b_avdecc b)) = 2 \<and> length (v_talkers (b_avdecc b)) = 1
    \<and> (\<forall>i < 2. vr_active (v_resolves (b_avdecc b) ! i) = 0 \<or> unat (vr_listener_uid (v_resolves (b_avdecc b) ! i)) = i)"
    using c(2) by (auto simp: avd_ok_def less_2_cases_iff)
  have q: "length (b_pending b) = 2 \<and> (\<forall>i < 2. pb_active (b_pending b ! i) = 0 \<or> unat (pb_uid (b_pending b ! i)) = i)"
    using p(6) by (auto simp: pending_wf_def N_PENDING_def less_2_cases_iff)
  show ?thesis using g m v q p(3) p(7) by (auto simp: AAF_CHANNELS_def)
qed

definition demo_run :: machine where
  "demo_run = (case main_init 50000000 (board_zero (\<lambda>_. 0) (\<lambda>_. 0), hw0) of
     (b, h) \<Rightarrow> main_iteration (b\<lparr>b_rx := [], b_usb_fifo := [], b_ch_fifo := (\<lambda>_. []), b_uart := ''t''\<rparr>, h\<lparr>hw_crf_fifo := []\<rparr>))"

lemma demo_run_reachable: "board_reachable 50000000 (\<lambda>_. 0) (\<lambda>_. 0) hw0 demo_run"
  unfolding board_reachable_def demo_run_def
  by (cases "main_init 50000000 (board_zero (\<lambda>_. 0) (\<lambda>_. 0), hw0)")
    (auto intro: rtranclp.rtrancl_into_rtrancl [OF r_into_rtranclp [of board_step]] board_step.outside board_step.pass)

lemma demo_increment: "mcr_base_increment 50000000 48000 = 4123169"
  by (simp add: mcr_base_increment_def Let_def)

theorem single_source_witness:
  "pk_enable (b_pkt (fst demo_run)) = (if s_talker_enabled (b_srp (fst demo_run)) \<noteq> 0 then 1 else 0)
    \<and> hw_sent (snd (software_talker demo_run)) = hw_sent (snd demo_run)"
  using single_source [of 50000000 "\<lambda>_. 0" "\<lambda>_. 0" hw0 "fst demo_run" "snd demo_run"] demo_run_reachable
  by (simp add: demo_increment hw0_def)

theorem board_invariant_witness:
  "hw_nco (snd demo_run) = m_current_increment (b_mcr (fst demo_run)) \<and> g_mean_path_delay_ns (b_gptp (fst demo_run)) < 20000"
  using board_invariant [of 50000000 "\<lambda>_. 0" "\<lambda>_. 0" hw0 "fst demo_run" "snd demo_run"] demo_run_reachable
  by (simp add: demo_increment hw0_def)

section \<open>Audio output\<close>

text \<open>
  What the I2S port is given for the next \<open>n\<close> samples when the extractor holds the left and
  right channels \<open>ls\<close> and \<open>rs\<close>: the upper 24 bits of both, and silence once either is empty.
\<close>

definition dac_pairs :: "u32 list \<Rightarrow> u32 list \<Rightarrow> nat \<Rightarrow> (u32 \<times> u32) list" where
  "dac_pairs ls rs n = map (\<lambda>k. if k < length ls \<and> k < length rs then (drop_bit 8 (ls ! k), drop_bit 8 (rs ! k)) else (0, 0)) [0..<n]"

definition played :: "u32 list \<Rightarrow> u32 list \<Rightarrow> nat \<Rightarrow> nat" where
  "played ls rs n = min n (min (length ls) (length rs))"

lemma asr_mask: "signed_drop_bit 8 (x :: u32) AND 0xFFFFFF = drop_bit 8 x"
proof -
  have "signed_drop_bit 8 x AND mask 24 = drop_bit 8 x"
    by (rule bit_eqI) (auto simp: bit_simps dest: bit_imp_le_length)
  then show ?thesis by (simp add: mask_eq_exp_minus_1)
qed

definition dac_state :: "board \<Rightarrow> nat \<Rightarrow> board \<Rightarrow> bool" where
  "dac_state b n b' \<longleftrightarrow> (let ls = b_ch_fifo b 0; rs = b_ch_fifo b 1; m = played ls rs n
     in b_i2s b' = b_i2s b @ dac_pairs ls rs n \<and> b_ch_fifo b' 0 = drop m ls \<and> b_ch_fifo b' 1 = drop m rs
        \<and> b_dac_sample_count b' = b_dac_sample_count b + of_nat m
        \<and> b_dac_underrun_count b' = b_dac_underrun_count b + of_nat (n - m))"

lemma of_nat_pos: "n < 2 ^ 32 \<Longrightarrow> (0 < (of_nat n :: u32)) = (0 < n)"
  by (simp add: word_less_nat_alt unsigned_of_nat take_bit_nat_eq_self)

lemma dac_sample_state:
  assumes "dac_state b n b'" and "length (b_ch_fifo b 0) < 2 ^ 32" and "length (b_ch_fifo b 1) < 2 ^ 32"
  shows "dac_state b (Suc n) (dac_sample b')" and "b_dac_last_sample_tick (dac_sample b') = b_dac_last_sample_tick b'"
proof -
  let ?ls = "b_ch_fifo b 0" and ?rs = "b_ch_fifo b 1"
  have st: "b_i2s b' = b_i2s b @ dac_pairs ?ls ?rs n" "b_ch_fifo b' 0 = drop (played ?ls ?rs n) ?ls"
    "b_ch_fifo b' 1 = drop (played ?ls ?rs n) ?rs"
    "b_dac_sample_count b' = b_dac_sample_count b + of_nat (played ?ls ?rs n)"
    "b_dac_underrun_count b' = b_dac_underrun_count b + of_nat (n - played ?ls ?rs n)"
    using assms(1) by (simp_all add: dac_state_def Let_def)
  have pairs: "dac_pairs ?ls ?rs (Suc n) = dac_pairs ?ls ?rs n
      @ [if n < length ?ls \<and> n < length ?rs then (drop_bit 8 (?ls ! n), drop_bit 8 (?rs ! n)) else (0, 0)]"
    by (simp add: dac_pairs_def)
  show "b_dac_last_sample_tick (dac_sample b') = b_dac_last_sample_tick b'"
    by (simp add: dac_sample_def ext_pop_def Let_def)
  show "dac_state b (Suc n) (dac_sample b')"
  proof (cases "n < length ?ls \<and> n < length ?rs")
    case True
    then have p: "played ?ls ?rs n = n" "played ?ls ?rs (Suc n) = Suc n" by (auto simp: played_def)
    have l: "b_ch_fifo b' 0 = ?ls ! n # drop (Suc n) ?ls" "b_ch_fifo b' 1 = ?rs ! n # drop (Suc n) ?rs"
      using st True p by (simp_all add: Cons_nth_drop_Suc)
    have pos: "0 < (of_nat (length (b_ch_fifo b' 0)) :: u32)" "0 < (of_nat (length (b_ch_fifo b' 1)) :: u32)"
      using True assms(2,3) st(2,3) p by (simp_all add: of_nat_pos del: of_nat_diff length_drop add: length_drop [of n, unfolded p]) 
    have d: "dac_sample b' = b'\<lparr>b_ch_select := 0, b_ch_fifo := (b_ch_fifo b')(1 := drop (Suc n) ?rs, 0 := drop (Suc n) ?ls),
        b_dac_sample_count := b_dac_sample_count b' + 1,
        b_i2s := b_i2s b' @ [(drop_bit 8 (?ls ! n), drop_bit 8 (?rs ! n))]\<rparr>"
      using pos l by (simp add: dac_sample_def ext_level_read_def ext_data_read_def ext_pop_def asr_mask Let_def)
    show ?thesis using st True p by (simp add: dac_state_def d pairs)
  next
    case False
    then have p: "played ?ls ?rs (Suc n) = played ?ls ?rs n" "played ?ls ?rs n \<le> n"
      "drop (played ?ls ?rs n) ?ls = [] \<or> drop (played ?ls ?rs n) ?rs = []"
      by (auto simp: played_def)
    have d: "dac_sample b' = b'\<lparr>b_ch_select := 1, b_dac_underrun_count := b_dac_underrun_count b' + 1,
        b_i2s := b_i2s b' @ [(0, 0)]\<rparr>"
      using p(3) st by (auto simp: dac_sample_def ext_level_read_def Let_def)
    show ?thesis using st False p(1,2) by (auto simp: dac_state_def d pairs Suc_diff_le Let_def)
  qed
qed

lemma dac_samples:
  assumes "dac_state b n b'" and "length (b_ch_fifo b 0) < 2 ^ 32" and "length (b_ch_fifo b 1) < 2 ^ 32"
  shows "dac_state b (n + k) ((dac_sample ^^ k) b') \<and> b_dac_last_sample_tick ((dac_sample ^^ k) b') = b_dac_last_sample_tick b'"
  using assms(1) by (induction k) (auto simp: dac_sample_state [OF _ assms(2,3)])

text \<open>One pass of the writer while the counter shows \<open>t\<close>, and the backlog after \<open>d\<close> samples.\<close>

lemma dac_writer_pass:
  assumes tick: "hw_samples g (hw_samples_k g) = t" and st: "dac_state b d c"
    and len: "length (b_ch_fifo b 0) < 2 ^ 32" "length (b_ch_fifo b 1) < 2 ^ 32"
  defines "k \<equiv> min (unat (t - b_dac_last_sample_tick c)) 32"
  shows "dac_writer (c, g) = (((dac_sample ^^ k) c)\<lparr>b_dac_last_sample_tick := b_dac_last_sample_tick c + of_nat k\<rparr>,
      g\<lparr>hw_samples_k := hw_samples_k g + 1\<rparr>)"
    and "dac_state b (d + k) ((dac_sample ^^ k) c)"
proof -
  let ?p = "if t - b_dac_last_sample_tick c > 32 then 32 else t - b_dac_last_sample_tick c"
  have pr: "unat ?p = k" by (auto simp: k_def word_less_nat_alt)
  then have e: "?p = of_nat k" unfolding pr [symmetric] by simp
  have uk: "unat (of_nat k :: u32) = k" unfolding e [symmetric] by (rule pr)
  have last: "b_dac_last_sample_tick ((dac_sample ^^ k) c) = b_dac_last_sample_tick c"
    and "dac_state b (d + k) ((dac_sample ^^ k) c)"
    using dac_samples [OF st len, of k] by simp_all
  then show "dac_state b (d + k) ((dac_sample ^^ k) c)" by simp
  show "dac_writer (c, g) = (((dac_sample ^^ k) c)\<lparr>b_dac_last_sample_tick := b_dac_last_sample_tick c + of_nat k\<rparr>,
      g\<lparr>hw_samples_k := hw_samples_k g + 1\<rparr>)"
    unfolding dac_writer_def prod.case mcr_sample_count_read_def Let_def tick e uk last ..
qed

lemma backlog_left:
  fixes t x :: u32
  assumes "d \<le> unat (t - x)"
  shows "unat (t - (x + of_nat d)) = unat (t - x) - d"
proof -
  have "d < 2 ^ 32" 
    by (rule le_less_trans [OF assms]) (use unsigned_less [of "t - x", where 'a = nat] in simp)
  then have "unat (of_nat d :: u32) = d" by (simp add: unsigned_of_nat take_bit_nat_eq_self)
  moreover from this have "of_nat d \<le> t - x" using assms by (simp add: word_le_nat_alt)
  moreover have "t - (x + of_nat d) = (t - x) - of_nat d" by simp
  ultimately show ?thesis by (simp only: unat_sub)
qed

text \<open>
  C21.  Audio output keeps pace with the sample counter and loses nothing.  While the counter
  shows the tick \<open>t\<close>, \<open>n\<close> passes of the loop write exactly the samples that are due, at most
  32 a pass: the channels leave the extractor in step and in order, as 24-bit values, silence
  takes their place when either channel has run dry, each written sample is counted as played
  or as an underrun, and the writer's tick moves by what it wrote -- so that it has caught up
  with \<open>t\<close> as soon as \<open>32 n\<close> reaches the backlog.
\<close>

theorem dac_paces_and_catches_up:
  fixes b :: board and h :: hw and t :: u32
  defines "ls \<equiv> b_ch_fifo b 0" and "rs \<equiv> b_ch_fifo b 1" and "due \<equiv> unat (t - b_dac_last_sample_tick b)"
  assumes clock: "\<forall>k \<ge> hw_samples_k h. hw_samples h k = t" and "length ls < 2 ^ 32" and "length rs < 2 ^ 32"
    and run: "(dac_writer ^^ n) (b, h) = (b', h')"
  shows "b_i2s b' = b_i2s b @ dac_pairs ls rs (min due (32 * n))
    \<and> b_ch_fifo b' 0 = drop (played ls rs (min due (32 * n))) ls
    \<and> b_ch_fifo b' 1 = drop (played ls rs (min due (32 * n))) rs
    \<and> b_dac_sample_count b' - b_dac_sample_count b + (b_dac_underrun_count b' - b_dac_underrun_count b) = of_nat (min due (32 * n))
    \<and> b_dac_last_sample_tick b' = b_dac_last_sample_tick b + of_nat (min due (32 * n))
    \<and> (due \<le> 32 * n \<longrightarrow> b_dac_last_sample_tick b' = t)"
proof -
  have "dac_state b (min due (32 * n)) b' \<and> b_dac_last_sample_tick b' = b_dac_last_sample_tick b + of_nat (min due (32 * n))
      \<and> (\<forall>k \<ge> hw_samples_k h'. hw_samples h' k = t)"
    using run
  proof (induction n arbitrary: b' h')
    case 0
    then show ?case using clock by (simp add: dac_state_def dac_pairs_def played_def)
  next
    case (Suc n)
    obtain c g where cg: "(dac_writer ^^ n) (b, h) = (c, g)" by fastforce
    note ih = Suc.IH [OF cg]
    let ?d = "min due (32 * n)"
    let ?k = "min (due - ?d) 32"
    have "?d \<le> due" by simp
    then have u: "unat (t - b_dac_last_sample_tick c) = due - ?d"
      using backlog_left [of ?d t "b_dac_last_sample_tick b"] ih by (simp only: due_def)
    have tick: "hw_samples g (hw_samples_k g) = t" and st: "dac_state b ?d c" using ih by simp_all
    note w = dac_writer_pass [OF tick st assms(5,6) [unfolded ls_def rs_def], unfolded u]
    have s: "?d + ?k = min due (32 * Suc n)" by auto
    have e: "(dac_writer ^^ Suc n) (b, h) = dac_writer (c, g)" using cg by simp
    have "dac_state b (?d + ?k) b'" using Suc.prems w(2) unfolding e w(1) by (auto simp: dac_state_def Let_def)
    moreover have "b_dac_last_sample_tick b' = b_dac_last_sample_tick b + of_nat (?d + ?k)"
      using Suc.prems ih unfolding e w(1) by (auto simp: add.assoc)
    moreover have "\<forall>k \<ge> hw_samples_k h'. hw_samples h' k = t" using Suc.prems ih unfolding e w(1) by auto
    ultimately show ?case unfolding s by blast
  qed
  moreover have "of_nat due = t - b_dac_last_sample_tick b" by (simp add: due_def)
  moreover have "played ls rs m \<le> m" for m by (simp add: played_def)
  ultimately show ?thesis
    by (auto simp: dac_state_def Let_def ls_def rs_def min_def of_nat_diff)
qed

theorem dac_paces_and_catches_up_witness:
  "\<exists>b' h'. (dac_writer ^^ 1) ((board_zero (\<lambda>_. 0) (\<lambda>_. 0))\<lparr>b_ch_fifo := \<lambda>_. [0x100, 0x200]\<rparr>, hw0\<lparr>hw_samples := \<lambda>_. 3\<rparr>) = (b', h')
     \<and> b_i2s b' = [(1, 1), (2, 2), (0, 0)] \<and> b_dac_last_sample_tick b' = 3"
proof -
  let ?b = "(board_zero (\<lambda>_. 0) (\<lambda>_. 0))\<lparr>b_ch_fifo := \<lambda>_. [0x100, 0x200]\<rparr>"
  let ?h = "hw0\<lparr>hw_samples := \<lambda>_. 3\<rparr>"
  obtain b' h' where r: "(dac_writer ^^ 1) (?b, ?h) = (b', h')" by fastforce
  have p: "dac_pairs [0x100, 0x200] [0x100, 0x200] 3 = [(1, 1), (2, 2), (0, 0)]"
    by (simp add: dac_pairs_def upt_conv_Cons)
  show ?thesis
    using dac_paces_and_catches_up [of ?h 3 ?b 1 b' h'] r p by (simp add: board_zero_def)
qed

end
