(* ===== verification/BoardConn.thy ===== *)
theory BoardConn
  imports BoardRun
begin

text \<open>
  What single receptions, callbacks and commands do to the whole board: reception itself, the
  answer to a slow-path connection request, its race with a disconnection, the reservation the
  two listeners share, fast connects, and the samples of the USB side.
\<close>

section \<open>Reception\<close>

text \<open>
  C6.  Where a frame lies does not matter.  A received slot that carries the bytes \<open>bs\<close> --
  as they are, or with a VLAN tag after the addresses -- is handled as a frame at offset 0 that
  starts with exactly those bytes: the tag, the fast path that hands stream data to the engines in
  place and the copy through the scratch buffer make no difference.  What lies behind the frame
  has no effect either, with two exceptions, whose handlers read past the end of the frame: gPTP
  frames of less than 68 bytes, and AECP commands, whose unknown types are echoed at their
  declared length.  For these the frame is followed by what follows it in the slot up to the
  received length (a tagged frame's last four bytes a second time), and then by what the scratch
  buffer held before.
\<close>

theorem reception_sees_the_frame:
  assumes "untagged r bs \<or> tagged r bs" and "carriable bs"
  shows "\<exists>sc. dispatch_frame r (b, h) = demux (seen_by_handlers bs sc) (seen_by_handlers bs sc) (of_nat (length bs))
             (b\<lparr>b_scratch := sc\<rparr>, h\<lparr>hw_rx_ts := rx_ts r\<rparr>)
    \<and> (\<not> self_contained bs \<longrightarrow> bytes sc 0 (length bs) = bs
         \<and> (\<forall>i \<ge> length bs. sc i = (if i < unat (rx_len r) then rx_mem r i else b_scratch b i)))"
  by (rule dispatch_seen [OF assms])

definition demo_frame :: "u8 list" where
  "demo_frame = [1, 2, 3, 4, 5, 6, 7, 8, 9, 10, 11, 12, 0x22, 0xEA] @ zeros 46"

definition demo_slot :: rx_slot where
  "demo_slot = \<lparr>rx_ts = \<lparr>seconds = 1, nanoseconds = 2\<rparr>,
     rx_mem = mem_of (take 12 demo_frame @ [0x81, 0x00, 0x60, 0x02] @ drop 12 demo_frame), rx_len = 64\<rparr>"

text \<open>A gPTP frame that stops after its header: behind it the handlers see the old scratch buffer.\<close>

definition demo_short_frame :: "u8 list" where
  "demo_short_frame = take 12 demo_frame @ [0x88, 0xF7]"

definition demo_short_slot :: rx_slot where
  "demo_short_slot = \<lparr>rx_ts = \<lparr>seconds = 1, nanoseconds = 2\<rparr>, rx_mem = mem_of demo_short_frame, rx_len = 14\<rparr>"

theorem reception_sees_the_frame_witness:
  "(\<exists>sc. dispatch_frame demo_slot (board_zero (\<lambda>_. 0) (\<lambda>_. 0), hw0) = demux (mem_of demo_frame) (mem_of demo_frame) 60
     ((board_zero (\<lambda>_. 0) (\<lambda>_. 0))\<lparr>b_scratch := sc\<rparr>, hw0\<lparr>hw_rx_ts := \<lparr>seconds = 1, nanoseconds = 2\<rparr>\<rparr>))
   \<and> (\<exists>sc. dispatch_frame demo_short_slot ((board_zero (\<lambda>_. 0) (\<lambda>_. 0))\<lparr>b_scratch := (\<lambda>_. 7)\<rparr>, hw0) = demux sc sc 14
     ((board_zero (\<lambda>_. 0) (\<lambda>_. 0))\<lparr>b_scratch := sc\<rparr>, hw0\<lparr>hw_rx_ts := \<lparr>seconds = 1, nanoseconds = 2\<rparr>\<rparr>)
     \<and> bytes sc 0 14 = demo_short_frame \<and> (\<forall>i \<ge> 14. sc i = 7))"
proof
  have len: "length demo_frame = 60" by (simp add: demo_frame_def zeros_def)
  have et: "get_be16 (mem_of demo_frame) 12 = 0x22EA" by code_simp
  have "tagged demo_slot demo_frame" unfolding tagged_def by (intro conjI; code_simp)
  moreover have "self_contained demo_frame"
    unfolding self_contained_def carriable_def by (simp add: len et PTP_ETHERTYPE_def AVTP_ETHERTYPE_def)
  ultimately show "\<exists>sc. dispatch_frame demo_slot (board_zero (\<lambda>_. 0) (\<lambda>_. 0), hw0) = demux (mem_of demo_frame) (mem_of demo_frame) 60
     ((board_zero (\<lambda>_. 0) (\<lambda>_. 0))\<lparr>b_scratch := sc\<rparr>, hw0\<lparr>hw_rx_ts := \<lparr>seconds = 1, nanoseconds = 2\<rparr>\<rparr>)"
    using reception_sees_the_frame [of demo_slot demo_frame "board_zero (\<lambda>_. 0) (\<lambda>_. 0)" hw0] len self_contained_carriable [of demo_frame]
    by (auto simp: demo_slot_def seen_by_handlers_def)
next
  let ?b = "(board_zero (\<lambda>_. 0) (\<lambda>_. 0))\<lparr>b_scratch := (\<lambda>_. 7)\<rparr>"
  have l: "length demo_short_frame = 14" by (simp add: demo_short_frame_def demo_frame_def zeros_def)
  have et: "get_be16 (mem_of demo_short_frame) 12 = 0x88F7" by code_simp
  have u: "untagged demo_short_slot demo_short_frame" using l bytes_mem_of [of demo_short_frame] by (simp add: untagged_def demo_short_slot_def)
  have c: "carriable demo_short_frame" "\<not> self_contained demo_short_frame"
    by (simp_all add: self_contained_def carriable_def l et PTP_ETHERTYPE_def)
  have s: "seen_by_handlers demo_short_frame sc = sc" for sc using c(2) by (simp add: seen_by_handlers_def)
  show "\<exists>sc. dispatch_frame demo_short_slot (?b, hw0) = demux sc sc 14
     ((board_zero (\<lambda>_. 0) (\<lambda>_. 0))\<lparr>b_scratch := sc\<rparr>, hw0\<lparr>hw_rx_ts := \<lparr>seconds = 1, nanoseconds = 2\<rparr>\<rparr>)
     \<and> bytes sc 0 14 = demo_short_frame \<and> (\<forall>i \<ge> 14. sc i = 7)"
    using reception_sees_the_frame [OF disjI1 [OF u] c(1), of ?b hw0] c(2) unfolding s by (simp add: l demo_short_slot_def)
qed

section \<open>What connecting and disconnecting do to the board\<close>

lemma connect_effect:
  assumes "on_listener_connect uid sid dst tid (b, h) = (b', h')" and "uid < 2" and "\<not> stream_id_is_zero sid"
  shows "b_pending b' = (b_pending b)[unat uid := (b_pending b ! unat uid)\<lparr>pb_active := 0\<rparr>]"
    and "s_listener_enabled (b_srp b') = 1" and "s_listener_stream_id (b_srp b') = sid"
    and "s_listener_substate (b_srp b') = MSRP_LISTENER_READY"
    and "uid = 0 \<Longrightarrow> m_bound (b_mcr b') = 1 \<and> m_stream_id (b_mcr b') = sid \<and> b_aaf b' = b_aaf b \<and> b_slot0 b' = b_slot0 b"
    and "uid = 1 \<Longrightarrow> b_aaf b' = aaf_bind (b_aaf b) sid \<and> b_mcr b' = b_mcr b
      \<and> b_slot0 b' = \<lparr>fs_sid_hi = be32_at sid 0, fs_sid_lo = be32_at sid 4, fs_mac_hi = be16_at dst 0,
          fs_mac_lo = be32_at dst 2, fs_enabled = 1\<rparr>"
  using assms
  by (auto simp: on_listener_connect_def bind_engine_def on_eq srp_listener_enable_def gptp_uptime_ms_eq set_listener_def
      avtp_filter_set_slot_def board_uids mcr_bind_def word_le_nat_alt word_less_nat_alt Let_def split: if_splits)

lemma from_avdecc_eq: "from_avdecc f (v, h, b) = (b_avdecc (fst (f (b\<lparr>b_avdecc := v\<rparr>, h))), snd (f (b\<lparr>b_avdecc := v\<rparr>, h)), fst (f (b\<lparr>b_avdecc := v\<rparr>, h)))"
  by (simp add: from_avdecc_def case_prod_unfold Let_def)

lemma lift_env [simp]: "snd (snd (lift_w f w)) = snd (snd w)"
  by (simp add: lift_w_def case_prod_unfold Let_def)

lemma answer_env:
  assumes "bytes p ACMP_OFF_LISTENER_ID 8 = v_entity_id s" and "find_resolve (get_be16 p ACMP_OFF_SEQ_ID) 0 (v_resolves s) = Some i"
    and "drop_bit 3 (p 2) AND 0x1F = ACMP_STATUS_SUCCESS"
  shows "\<exists>v. snd (snd (acmp_handle_connect_tx_response board_callbacks p (s, h, b)))
      = fst (on_listener_connect (ucast (vr_listener_uid (v_resolves s ! i))) (bytes p ACMP_OFF_STREAM_ID 8)
          (bytes p ACMP_OFF_STREAM_DEST_MAC 6) (vr_talker_id (v_resolves s ! i)) (b\<lparr>b_avdecc := v\<rparr>, h))"
  using assms
  by (cases "v_listeners s") (simp_all add: acmp_handle_connect_tx_response_def acmp_bind_resolved_def board_callbacks_def from_avdecc_eq Let_def case_prod_unfold, blast+)

text \<open>The frame is the talker's answer to the pending request \<open>i\<close>, and carries a stream id.\<close>

definition answers_request :: "mem \<Rightarrow> u32 \<Rightarrow> avdecc_state \<Rightarrow> nat \<Rightarrow> bool" where
  "answers_request frame len s i \<longleftrightarrow> (let p = (\<lambda>j. frame (14 + j)) in
     70 \<le> len \<and> p 0 = AVTP_SUBTYPE_ACMP \<and> p 1 = ACMP_MSG_CONNECT_TX_RESPONSE \<and> bytes p ACMP_OFF_LISTENER_ID 8 = v_entity_id s
     \<and> drop_bit 3 (p 2) AND 0x1F = ACMP_STATUS_SUCCESS
     \<and> find_resolve (get_be16 p ACMP_OFF_SEQ_ID) 0 (v_resolves s) = Some i
     \<and> \<not> stream_id_is_zero (bytes p ACMP_OFF_STREAM_ID 8))"

definition answered_stream :: "mem \<Rightarrow> u8 list" where
  "answered_stream frame = bytes (\<lambda>j. frame (14 + j)) ACMP_OFF_STREAM_ID 8"

definition answered_dest :: "mem \<Rightarrow> u8 list" where
  "answered_dest frame = bytes (\<lambda>j. frame (14 + j)) ACMP_OFF_STREAM_DEST_MAC 6"

text \<open>Everything the board has to do to receive a stream as listener \<open>i\<close>.\<close>

definition listens :: "nat \<Rightarrow> u8 list \<Rightarrow> u8 list \<Rightarrow> machine \<Rightarrow> bool" where
  "listens i sid dst = (\<lambda>(b, h).
     vl_connected (v_listeners (b_avdecc b) ! i) = 1 \<and> vl_stream_id (v_listeners (b_avdecc b) ! i) = sid
     \<and> vl_dest_mac (v_listeners (b_avdecc b) ! i) = dst
     \<and> s_listener_enabled (b_srp b) = 1 \<and> s_listener_stream_id (b_srp b) = sid \<and> s_listener_substate (b_srp b) = MSRP_LISTENER_READY
     \<and> (i = 0 \<longrightarrow> m_bound (b_mcr b) = 1 \<and> m_stream_id (b_mcr b) = sid \<and> hw_crf_enabled h = 1)
     \<and> (i = 1 \<longrightarrow> a_bound (b_aaf b) = 1 \<and> a_rx_enabled (b_aaf b) = 1 \<and> a_stream_id (b_aaf b) = sid
          \<and> b_slot0 b = \<lparr>fs_sid_hi = be32_at sid 0, fs_sid_lo = be32_at sid 4, fs_mac_hi = be16_at dst 0,
               fs_mac_lo = be32_at dst 2, fs_enabled = 1\<rparr>))"

lemma answer_callback:
  assumes avd: "avd_ok (b_avdecc b)" and answer: "answers_request frame len (b_avdecc b) i" and run: "board_avdecc_rx frame len (b, h) = (b', h')"
  obtains v c w g where "acmp_process_rx board_callbacks frame len (b_avdecc b, h, b) = (v, h', c)" "b' = c\<lparr>b_avdecc := v\<rparr>"
    "on_listener_connect (of_nat i) (answered_stream frame) (answered_dest frame) (vr_talker_id (v_resolves (b_avdecc b) ! i)) (b\<lparr>b_avdecc := w\<rparr>, h) = (c, g)"
proof -
  define p where "p = (\<lambda>i. frame (14 + i))"
  let ?s = "(b_avdecc b)\<lparr>v_acmp_rx_count := v_acmp_rx_count (b_avdecc b) + 1\<rparr>"
  have pdu: "p 0 = AVTP_SUBTYPE_ACMP" "p 1 = ACMP_MSG_CONNECT_TX_RESPONSE" "70 \<le> len"
      "bytes p ACMP_OFF_LISTENER_ID 8 = v_entity_id (b_avdecc b)" "drop_bit 3 (p 2) AND 0x1F = ACMP_STATUS_SUCCESS"
    and open_request: "find_resolve (get_be16 p ACMP_OFF_SEQ_ID) 0 (v_resolves (b_avdecc b)) = Some i"
    using answer by (simp_all add: answers_request_def p_def Let_def)
  obtain v k c where a: "acmp_process_rx board_callbacks frame len (b_avdecc b, h, b) = (v, k, c)" by (metis prod_cases3)
  have len: "\<not> len < 14 + 4" "\<not> len < 14 + of_nat ACMPDU_LEN" using pdu(3) by (auto simp: word_less_nat_alt word_le_nat_alt ACMPDU_LEN_def)
  have e: "b' = c\<lparr>b_avdecc := v\<rparr>" "h' = k"
    using run a pdu(1) len(1) by (simp_all add: board_avdecc_rx_def avdecc_process_rx_def p_def AVTP_SUBTYPE_ACMP_def AVTP_SUBTYPE_ADP_def)
  have ac: "acmp_handle_connect_tx_response board_callbacks p (?s, h, b) = (v, k, c)"
    using pdu len(2) a by (simp add: acmp_process_rx_def acmp_msg_codes p_def [symmetric] Let_def)
  have st: "answered_stream frame = bytes p ACMP_OFF_STREAM_ID 8" "answered_dest frame = bytes p ACMP_OFF_STREAM_DEST_MAC 6"
    by (simp_all add: answered_stream_def answered_dest_def p_def)
  obtain w where c: "c = fst (on_listener_connect (ucast (vr_listener_uid (v_resolves (b_avdecc b) ! i))) (answered_stream frame)
      (answered_dest frame) (vr_talker_id (v_resolves (b_avdecc b) ! i)) (b\<lparr>b_avdecc := w\<rparr>, h))"
    using answer_env [of p ?s i h b] pdu open_request unfolding ac st by auto
  have i2: "i < 2" "vr_active (v_resolves (b_avdecc b) ! i) \<noteq> 0" using avd find_resolve_bound [OF open_request] by (simp_all add: avd_ok_def)
  then have "vr_listener_uid (v_resolves (b_avdecc b) ! i) = of_nat i" using avd by (simp add: avd_ok_def)
  then have "ucast (vr_listener_uid (v_resolves (b_avdecc b) ! i)) = (of_nat i :: u16)" using i2 by (auto simp: less_2_cases_iff)
  with a e c that show thesis by (metis prod.collapse)
qed

lemma answer_binds:
  assumes ok: "board_ok base (b, h)" "0 < base"
    and ids: "length (v_src_mac (b_avdecc b)) = 6" "length (v_entity_id (b_avdecc b)) = 8" "resolve_ok (v_resolves (b_avdecc b) ! i)"
    and answer: "answers_request frame len (b_avdecc b) i" and run: "board_avdecc_rx frame len (b, h) = (b', h')"
  shows "listens i (answered_stream frame) (answered_dest frame) (b', h')
    \<and> vl_talker_id (v_listeners (b_avdecc b') ! i) = vr_talker_id (v_resolves (b_avdecc b) ! i)
    \<and> vr_active (v_resolves (b_avdecc b') ! i) = 0 \<and> pb_active (b_pending b' ! i) = 0
    \<and> (\<exists>fs n v. hw_sent h' = hw_sent h @ fs @ [deferred_frame (b_avdecc b) (v_resolves (b_avdecc b) ! i) n ACMP_STATUS_SUCCESS
         (answered_stream frame) (answered_dest frame) v])
    \<and> v_entity_id (b_avdecc b') = v_entity_id (b_avdecc b)"
proof -
  define p where "p = (\<lambda>i. frame (14 + i))"
  define s where "s = b_avdecc b"
  define r where "r = v_resolves s ! i"
  define sid where "sid = bytes p ACMP_OFF_STREAM_ID 8"
  define dst where "dst = bytes p ACMP_OFF_STREAM_DEST_MAC 6"
  have pdu: "p 0 = AVTP_SUBTYPE_ACMP" "p 1 = ACMP_MSG_CONNECT_TX_RESPONSE" "70 \<le> len"
      "bytes p ACMP_OFF_LISTENER_ID 8 = v_entity_id s" "drop_bit 3 (p 2) AND 0x1F = ACMP_STATUS_SUCCESS"
    and open_request: "find_resolve (get_be16 p ACMP_OFF_SEQ_ID) 0 (v_resolves s) = Some i" and sid: "\<not> stream_id_is_zero sid"
    using answer by (simp_all add: answers_request_def p_def s_def sid_def Let_def)
  have ids: "length (v_src_mac s) = 6" "length (v_entity_id s) = 8" "length (vr_ctrl_eid_orig r) = 8" "length (vr_talker_id r) = 8"
    using ids by (simp_all add: s_def r_def resolve_ok_def)
  have avd: "avd_ok s" and core: "board_core base h b" using ok(1) by (simp_all add: board_ok_def s_def)
  have ri: "r = v_resolves s ! i" by (rule r_def)
  have i2: "i < 2" and act: "vr_active r \<noteq> 0"
    using find_resolve_bound [OF open_request] avd by (auto simp: avd_ok_def ri)
  have uid: "vr_listener_uid r = of_nat i" "unat (vr_listener_uid r) = i"
    using avd i2 act by (auto simp: avd_ok_def ri less_2_cases_iff)
  have lens: "length (v_listeners s) = 2" "length (v_resolves s) = 2" using avd by (simp_all add: avd_ok_def)
  have fr: "frame (14 + j) = p j" for j by (simp add: p_def)
  have bound: "unat (vr_listener_uid r) < length (v_listeners s)" using i2 lens by (simp add: uid(2))
  obtain v k b1 fs l where ans: "acmp_process_rx board_callbacks frame len (s, h, b) = (v, k, b1)"
    "same_binding (listener_bound r p (v_listeners s ! i)) l" "v_listeners v ! i = l"
    "v_resolves v = (v_resolves s)[i := r\<lparr>vr_active := 0\<rparr>]"
    "v_entity_id v = v_entity_id s"
    "hw_sent k = hw_sent h @ fs @ [deferred_frame s r (vl_connection_count l) ACMP_STATUS_SUCCESS sid dst (get_be16 p ACMP_OFF_VLAN_ID)]"
    by (rule board.answer_taken [OF fr pdu(3,2,4) open_request pdu(5) ri bound ids, where h = h and e = b, unfolded uid(2)])
      (rule that [unfolded sid_def dst_def]; assumption)
  obtain v' c w g where "acmp_process_rx board_callbacks frame len (s, h, b) = (v', h', c)" "b' = c\<lparr>b_avdecc := v'\<rparr>"
    "on_listener_connect (of_nat i) sid dst (vr_talker_id r) (b\<lparr>b_avdecc := w\<rparr>, h) = (c, g)"
    by (rule answer_callback [OF _ answer run, folded s_def, folded r_def, OF avd])
      (auto simp: sid_def dst_def p_def answered_stream_def answered_dest_def)
  then have e1: "b' = b1\<lparr>b_avdecc := v\<rparr>" "h' = k"
    and c: "on_listener_connect (of_nat i) sid dst (vr_talker_id r) (b\<lparr>b_avdecc := w\<rparr>, h) = (b1, g)" using ans(1) by simp_all
  have u: "(of_nat i :: u16) < 2" "unat (of_nat i :: u16) = i" using i2 by (auto simp: less_2_cases_iff)
  note eff = connect_effect [OF c u(1) sid]
  have ok': "board_ok base (b', h')" using board_avdecc_rx_ok [OF ok(2,1), of frame len] run by simp
  have crf: "hw_crf_enabled h' = 1 \<longleftrightarrow> m_bound (b_mcr b') \<noteq> 0" using ok' by (auto simp: board_ok_def board_core_def mcr_ok_def)
  have pl: "length (b_pending b) = 2" using core by (simp add: board_core_def pending_wf_def N_PENDING_def)
  note sb = same_binding_fields [OF ans(2)]
  show ?thesis
    using sb ans(3-6) eff crf i2 lens pl u unfolding e1
    by (auto simp: listens_def listener_bound_def answered_stream_def answered_dest_def sid_def dst_def p_def r_def s_def aaf_bind_def)
qed

text \<open>
  C7.  An answered request starts the stream.  When the talker's CONNECT_TX_RESPONSE with
  status SUCCESS answers the pending request of a listener, then after the reception of that
  one frame: the listener's entry is connected and carries the talker's stream id and address;
  the request is closed and its controller answered; the stream reservation declares that
  stream ready; and the listener's engine is bound to it -- the CRF engine with the gateware
  extractor switched on, or the audio engine with the hardware filter programmed with exactly
  that stream id and address.  A pending fast connect of the listener is dropped.
\<close>

theorem answer_starts_listening:
  assumes ok: "board_ok base (b, h)" "0 < base"
    and ids: "length (v_src_mac (b_avdecc b)) = 6" "length (v_entity_id (b_avdecc b)) = 8" "resolve_ok (v_resolves (b_avdecc b) ! i)"
    and answer: "answers_request frame len (b_avdecc b) i" and run: "board_avdecc_rx frame len (b, h) = (b', h')"
  shows "listens i (answered_stream frame) (answered_dest frame) (b', h')
    \<and> vl_talker_id (v_listeners (b_avdecc b') ! i) = vr_talker_id (v_resolves (b_avdecc b) ! i)
    \<and> vr_active (v_resolves (b_avdecc b') ! i) = 0 \<and> pb_active (b_pending b' ! i) = 0
    \<and> (\<exists>fs n v. hw_sent h' = hw_sent h @ fs @ [deferred_frame (b_avdecc b) (v_resolves (b_avdecc b) ! i) n ACMP_STATUS_SUCCESS
         (answered_stream frame) (answered_dest frame) v])"
  using answer_binds [OF ok ids answer run] by simp

definition demo_boot :: machine where
  "demo_boot = main_init 50000000 (board_zero (\<lambda>_. 0) (\<lambda>_. 0), hw0)"

definition demo_waiting :: board where
  "demo_waiting = (fst demo_boot)\<lparr>b_avdecc := (b_avdecc (fst demo_boot))\<lparr>v_resolves :=
     [resolve_zero, resolve_zero\<lparr>vr_active := 1, vr_listener_uid := 1, vr_our_seq_id := 5\<rparr>]\<rparr>\<rparr>"

definition demo_answer :: "u8 list" where
  "demo_answer = zeros 14 @ [0xFC, 1, 0, 44] @ [1, 2, 3, 4, 5, 6, 7, 8] @ zeros 16
     @ [2, 0, 0, 0xFF, 0xFE, 0, 0, 0x42] @ zeros 4 @ [0x91, 0xE0, 0xF0, 0, 1, 2] @ zeros 2 @ [0, 5] @ zeros 6"

lemma demo_boot_ok: "board_ok 4123169 demo_boot"
  unfolding demo_boot_def by (rule main_init_ok) (simp_all add: demo_increment hw0_def)

lemma demo_boot_ids:
  "v_src_mac (b_avdecc (fst demo_boot)) = mac_addr" "v_entity_id (b_avdecc (fst demo_boot)) = [2, 0, 0, 0xFF, 0xFE, 0, 0, 0x42]"
  by (simp_all add: demo_boot_def main_init_def avdecc_init_def avdecc_set_talker_stream_def mac_addr_def Let_def case_prod_unfold)

lemma demo_waiting_ok: "board_ok 4123169 (demo_waiting, snd demo_boot)"
  using demo_boot_ok by (auto simp: demo_waiting_def board_ok_def avd_ok_def less_2_cases_iff resolve_zero_def)

lemma demo_answer_reads:
  "mem_of demo_answer 14 = 0xFC" "mem_of demo_answer 15 = 1" "mem_of demo_answer 16 = 0"
  "bytes (\<lambda>j. mem_of demo_answer (14 + j)) ACMP_OFF_LISTENER_ID 8 = [2, 0, 0, 0xFF, 0xFE, 0, 0, 0x42]"
  "get_be16 (\<lambda>j. mem_of demo_answer (14 + j)) ACMP_OFF_SEQ_ID = 5"
  "answered_stream (mem_of demo_answer) = [1, 2, 3, 4, 5, 6, 7, 8]"
  by code_simp+

lemma demo_answers: "answers_request (mem_of demo_answer) 70 (b_avdecc demo_waiting) 1"
proof -
  have "\<not> stream_id_is_zero [1, 2, 3, 4, 5, 6, 7, 8]" by code_simp
  then show ?thesis
    using demo_answer_reads(6)
    by (simp add: answers_request_def demo_answer_reads demo_waiting_def demo_boot_ids Let_def resolve_zero_def answered_stream_def
        AVTP_SUBTYPE_ACMP_def ACMP_MSG_CONNECT_TX_RESPONSE_def ACMP_STATUS_SUCCESS_def)
qed

theorem answer_starts_listening_witness:
  "a_bound (b_aaf (fst (board_avdecc_rx (mem_of demo_answer) 70 (demo_waiting, snd demo_boot)))) = 1
    \<and> a_stream_id (b_aaf (fst (board_avdecc_rx (mem_of demo_answer) 70 (demo_waiting, snd demo_boot)))) = [1, 2, 3, 4, 5, 6, 7, 8]"
proof -
  obtain b' h' where r: "board_avdecc_rx (mem_of demo_answer) 70 (demo_waiting, snd demo_boot) = (b', h')" by fastforce
  have ids: "length (v_src_mac (b_avdecc demo_waiting)) = 6" "length (v_entity_id (b_avdecc demo_waiting)) = 8"
    "resolve_ok (v_resolves (b_avdecc demo_waiting) ! 1)"
    by (simp_all add: demo_waiting_def demo_boot_ids mac_addr_def resolve_ok_def resolve_zero_def)
  show ?thesis
    using answer_starts_listening [OF demo_waiting_ok _ ids demo_answers r] unfolding r
    by (simp add: listens_def demo_answer_reads)
qed

section \<open>Disconnecting while a request is pending\<close>

lemma disconnect_rx_keeps:
  assumes "p 1 = ACMP_MSG_DISCONNECT_RX_COMMAND" and "bytes p ACMP_OFF_LISTENER_ID 8 = v_entity_id s" and "70 \<le> len"
    and "get_be16 p ACMP_OFF_LISTENER_UID = of_nat i" and "i < 2" and "length (v_listeners s) = 2" and "\<And>j. frame (14 + j) = p j"
    and run: "acmp_process_rx board_callbacks frame len (s, h, b) = (s', h', b')"
  shows "v_resolves s' = v_resolves s" and "vl_connected (v_listeners s' ! i) = 0"
    and "v_src_mac s' = v_src_mac s" and "v_entity_id s' = v_entity_id s"
    and "\<exists>v. b' = fst (on_listener_disconnect (of_nat i) (b\<lparr>b_avdecc := v\<rparr>, h))"
proof -
  let ?s = "s\<lparr>v_acmp_rx_count := v_acmp_rx_count s + 1\<rparr>"
  let ?l = "(v_listeners s ! i)\<lparr>vl_connected := 0, vl_connection_count :=
      (if vl_connection_count (v_listeners s ! i) > 0 then vl_connection_count (v_listeners s ! i) - 1 else vl_connection_count (v_listeners s ! i))\<rparr>"
  let ?w = "(?s\<lparr>v_listeners := (v_listeners s)[i := ?l]\<rparr>, h, b)"
  have u: "unat (of_nat i :: u16) = i" "(of_nat i :: u16) < AVDECC_MAX_LISTENERS"
    using assms(5) by (auto simp: less_2_cases_iff AVDECC_MAX_LISTENERS_def)
  have len': "\<not> len < 14 + of_nat ACMPDU_LEN" using assms(3) by (simp add: ACMPDU_LEN_def)
  have pdu: "(\<lambda>j. frame (14 + j)) = p" using assms(7) by auto
  obtain v k c where d: "from_avdecc (on_listener_disconnect (of_nat i)) ?w = (v, k, c)" by (metis prod_cases3)
  have q: "quiet ?w (v, k, c)"
    using board.quiet_listener_disconnect [of "\<lambda>uid. from_avdecc (on_listener_disconnect uid)" ?w "of_nat i"] d
    by (simp add: board_callbacks_def)
  note qf = quiet_fields [OF q]
  have r: "acmp_process_rx board_callbacks frame len (s, h, b)
      = lift_w (acmp_send_response ACMP_MSG_DISCONNECT_RX_RESPONSE ACMP_STATUS_SUCCESS p) (lift_w (notify_listener_disconnected (of_nat i)) (v, k, c))"
    using assms(1,2,4) d u unfolding acmp_process_rx_def prod.case if_not_P [OF len'] Let_def pdu acmp_msg_codes acmp_handle_disconnect_rx_def
    by (simp add: board_callbacks_def split del: if_split cong: if_cong)
  have n: "v_resolves (fst (notify_listener_disconnected (of_nat i) (v, k))) = v_resolves v
      \<and> v_listeners (fst (notify_listener_disconnected (of_nat i) (v, k))) = v_listeners v
      \<and> v_src_mac (fst (notify_listener_disconnected (of_nat i) (v, k))) = v_src_mac v
      \<and> v_entity_id (fst (notify_listener_disconnected (of_nat i) (v, k))) = v_entity_id v"
    unfolding notify_listener_disconnected_def prod.case Let_def using notified_fields [OF notified_two] by simp
  have s': "s' = (fst (notify_listener_disconnected (of_nat i) (v, k)))\<lparr>v_acmp_tx_count := v_acmp_tx_count (fst (notify_listener_disconnected (of_nat i) (v, k))) + 1\<rparr>"
    and b': "b' = c"
    using run unfolding r by (simp_all add: lift_w_def acmp_send_response_def Let_def case_prod_unfold)
  show "v_resolves s' = v_resolves s" "v_src_mac s' = v_src_mac s" "v_entity_id s' = v_entity_id s" using qf n by (simp_all add: s')
  have "same_binding ?l (v_listeners v ! i)" using qf(8) [of i] assms(5,6) by simp
  then show "vl_connected (v_listeners s' ! i) = 0" using n by (auto simp: s' dest: same_binding_fields)
  show "\<exists>v. b' = fst (on_listener_disconnect (of_nat i) (b\<lparr>b_avdecc := v\<rparr>, h))"
    using d unfolding from_avdecc_eq b' by (auto intro: exI [of _ "fst ?w"])
qed

lemma disconnect_effect:
  assumes "on_listener_disconnect (of_nat i) (b, h) = (b', h')" and "i < 2"
  shows "i = 0 \<Longrightarrow> m_bound (b_mcr b') = 0" and "i = 1 \<Longrightarrow> a_bound (b_aaf b') = 0 \<and> fs_enabled (b_slot0 b') = 0"
  using assms
  by (auto simp: on_listener_disconnect_def withdraw_def on_eq board_uids mcr_unbind_def aaf_unbind_def avtp_filter_clear_slot_def Let_def
      split: if_splits)

text \<open>
  C37.  A disconnection does not cancel a pending request.  DISCONNECT_RX clears the listener
  entry and unbinds the engine but leaves the request of that listener open, so the talker's
  answer arriving afterwards connects the listener again: the entry is marked connected, the
  engine bound and the stream declared although the controller's last command was to
  disconnect.
\<close>

theorem disconnect_races_answer:
  assumes ok: "board_ok base (b, h)" "0 < base"
    and ids: "length (v_src_mac (b_avdecc b)) = 6" "length (v_entity_id (b_avdecc b)) = 8" "resolve_ok (v_resolves (b_avdecc b) ! i)"
    and bye: "70 \<le> len0" "bye 14 = AVTP_SUBTYPE_ACMP" "bye 15 = ACMP_MSG_DISCONNECT_RX_COMMAND"
      "bytes (\<lambda>j. bye (14 + j)) ACMP_OFF_LISTENER_ID 8 = v_entity_id (b_avdecc b)"
      "get_be16 (\<lambda>j. bye (14 + j)) ACMP_OFF_LISTENER_UID = of_nat i" "i < 2"
    and answer: "answers_request frame len (b_avdecc b) i"
    and run: "board_avdecc_rx bye len0 (b, h) = (b1, h1)" "board_avdecc_rx frame len (b1, h1) = (b2, h2)"
  shows "vl_connected (v_listeners (b_avdecc b1) ! i) = 0 \<and> (i = 0 \<longrightarrow> m_bound (b_mcr b1) = 0) \<and> (i = 1 \<longrightarrow> a_bound (b_aaf b1) = 0)
    \<and> v_resolves (b_avdecc b1) = v_resolves (b_avdecc b)
    \<and> listens i (answered_stream frame) (answered_dest frame) (b2, h2)"
proof -
  obtain v k c where r: "acmp_process_rx board_callbacks bye len0 (b_avdecc b, h, b) = (v, k, c)" by (metis prod_cases3)
  have l: "length (v_listeners (b_avdecc b)) = 2" using ok(1) by (simp add: board_ok_def avd_ok_def)
  have "\<not> len0 < 14 + 4" using bye(1) by (auto simp: word_less_nat_alt word_le_nat_alt)
  then have e: "b1 = c\<lparr>b_avdecc := v\<rparr>" "h1 = k"
    using run(1) r bye(2) by (simp_all add: board_avdecc_rx_def avdecc_process_rx_def AVTP_SUBTYPE_ACMP_def AVTP_SUBTYPE_ADP_def)
  have p1: "(\<lambda>j. bye (14 + j)) 1 = ACMP_MSG_DISCONNECT_RX_COMMAND" using bye(3) by simp
  note d = disconnect_rx_keeps [OF p1 bye(4,1,5,6) l refl r]
  have ok1: "board_ok base (b1, h1)" using board_avdecc_rx_ok [OF ok(2,1), of bye len0] run(1) by simp
  have s1: "v_resolves (b_avdecc b1) = v_resolves (b_avdecc b)" "v_src_mac (b_avdecc b1) = v_src_mac (b_avdecc b)"
    "v_entity_id (b_avdecc b1) = v_entity_id (b_avdecc b)" using d by (simp_all add: e)
  have "answers_request frame len (b_avdecc b1) i" using answer by (simp add: answers_request_def s1)
  then have "listens i (answered_stream frame) (answered_dest frame) (b2, h2)"
    using answer_binds [OF ok1 ok(2) _ _ _ _ run(2)] ids by (simp add: s1)
  moreover obtain x where "c = fst (on_listener_disconnect (of_nat i) (b\<lparr>b_avdecc := x\<rparr>, h))" using d(5) by blast
  then obtain y where "on_listener_disconnect (of_nat i) (b\<lparr>b_avdecc := x\<rparr>, h) = (c, y)" by (metis fst_conv surj_pair)
  note eff = disconnect_effect [OF this bye(6)]
  ultimately show ?thesis using d(2) s1(1) eff by (auto simp: e)
qed

definition demo_bye :: "u8 list" where
  "demo_bye = zeros 14 @ [0xFC, 8, 0, 44] @ zeros 24 @ [2, 0, 0, 0xFF, 0xFE, 0, 0, 0x42] @ [0, 0, 0, 1] @ zeros 16"

lemma demo_bye_reads:
  "mem_of demo_bye 14 = AVTP_SUBTYPE_ACMP" "mem_of demo_bye 15 = ACMP_MSG_DISCONNECT_RX_COMMAND"
  "bytes (\<lambda>j. mem_of demo_bye (14 + j)) ACMP_OFF_LISTENER_ID 8 = [2, 0, 0, 0xFF, 0xFE, 0, 0, 0x42]"
  "get_be16 (\<lambda>j. mem_of demo_bye (14 + j)) ACMP_OFF_LISTENER_UID = 1"
  by code_simp+

theorem disconnect_races_answer_witness:
  "\<exists>b1 h1 b2 h2. board_avdecc_rx (mem_of demo_bye) 70 (demo_waiting, snd demo_boot) = (b1, h1)
    \<and> board_avdecc_rx (mem_of demo_answer) 70 (b1, h1) = (b2, h2)
    \<and> a_bound (b_aaf b1) = 0 \<and> a_bound (b_aaf b2) = 1 \<and> vl_connected (v_listeners (b_avdecc b2) ! 1) = 1"
proof -
  obtain b1 h1 where r1: "board_avdecc_rx (mem_of demo_bye) 70 (demo_waiting, snd demo_boot) = (b1, h1)" by fastforce
  obtain b2 h2 where r2: "board_avdecc_rx (mem_of demo_answer) 70 (b1, h1) = (b2, h2)" by fastforce
  have ids: "length (v_src_mac (b_avdecc demo_waiting)) = 6" "length (v_entity_id (b_avdecc demo_waiting)) = 8"
    "resolve_ok (v_resolves (b_avdecc demo_waiting) ! 1)" "v_entity_id (b_avdecc demo_waiting) = [2, 0, 0, 0xFF, 0xFE, 0, 0, 0x42]"
    by (simp_all add: demo_waiting_def demo_boot_ids mac_addr_def resolve_ok_def resolve_zero_def)
  have "listens 1 (answered_stream (mem_of demo_answer)) (answered_dest (mem_of demo_answer)) (b2, h2) \<and> a_bound (b_aaf b1) = 0"
    using disconnect_races_answer [OF demo_waiting_ok _ ids(1-3) _ demo_bye_reads(1,2) _ _ _ demo_answers r1 r2]
    by (simp add: demo_bye_reads ids)
  then show ?thesis using r1 r2 by (auto simp: listens_def)
qed

section \<open>One reservation slot for two listeners\<close>

lemma srp_withdrawn: "s_listener_enabled (fst (srp_listener_enable sid 0 (s, h))) = 0"
  by (simp add: srp_listener_enable_def)

text \<open>
  C38.  The two listeners share the one listener declaration of the stream reservation.
  Connecting the CRF listener to one stream and the audio listener to another leaves only the
  second declared, and disconnecting the CRF listener then withdraws the declaration of the
  audio stream: the audio engine is still bound and its filter still open, but the board no
  longer declares itself a listener of any stream.
\<close>

theorem listeners_share_one_declaration:
  assumes "\<not> stream_id_is_zero crf" and "\<not> stream_id_is_zero aaf"
    and "on_listener_connect LISTENER_UID_CRF crf d0 t0 (b, h) = (b1, h1)"
    and "on_listener_connect LISTENER_UID_AAF aaf d1 t1 (b1, h1) = (b2, h2)"
    and "on_listener_disconnect LISTENER_UID_CRF (b2, h2) = (b3, h3)"
  shows "s_listener_stream_id (b_srp b1) = crf \<and> s_listener_enabled (b_srp b1) = 1
    \<and> s_listener_stream_id (b_srp b2) = aaf \<and> s_listener_enabled (b_srp b2) = 1 \<and> m_bound (b_mcr b2) = 1
    \<and> s_listener_enabled (b_srp b3) = 0
    \<and> a_bound (b_aaf b3) = 1 \<and> a_stream_id (b_aaf b3) = aaf \<and> fs_enabled (b_slot0 b3) = 1"
proof -
  have c: "on_listener_connect 0 crf d0 t0 (b, h) = (b1, h1)" "on_listener_connect 1 aaf d1 t1 (b1, h1) = (b2, h2)"
    "on_listener_disconnect 0 (b2, h2) = (b3, h3)"
    using assms by (simp_all add: board_uids)
  note e1 = connect_effect [OF c(1) _ assms(1), simplified]
  have "(1 :: u16) < 2" by simp
  note e2 = connect_effect [OF c(2) this assms(2), simplified]
  have "s_listener_enabled (b_srp b3) = 0 \<and> b_aaf b3 = b_aaf b2 \<and> b_slot0 b3 = b_slot0 b2"
    using c(3) e1 e2 srp_withdrawn by (auto simp: on_listener_disconnect_def board_uids withdraw_def on_eq avtp_filter_clear_slot_def Let_def)
  then show ?thesis using e1 e2 by (simp add: aaf_bind_def)
qed

theorem listeners_share_one_declaration_witness:
  "\<exists>b1 h1 b2 h2 b3 h3. on_listener_connect LISTENER_UID_CRF (replicate 8 1) (zeros 6) (zeros 8) demo_boot = (b1, h1)
    \<and> on_listener_connect LISTENER_UID_AAF (replicate 8 2) (zeros 6) (zeros 8) (b1, h1) = (b2, h2)
    \<and> on_listener_disconnect LISTENER_UID_CRF (b2, h2) = (b3, h3)
    \<and> s_listener_enabled (b_srp b3) = 0 \<and> a_bound (b_aaf b3) = 1"
proof -
  obtain b1 h1 where 1: "on_listener_connect LISTENER_UID_CRF (replicate 8 1) (zeros 6) (zeros 8) demo_boot = (b1, h1)" by fastforce
  obtain b2 h2 where 2: "on_listener_connect LISTENER_UID_AAF (replicate 8 2) (zeros 6) (zeros 8) (b1, h1) = (b2, h2)" by fastforce
  obtain b3 h3 where 3: "on_listener_disconnect LISTENER_UID_CRF (b2, h2) = (b3, h3)" by fastforce
  have z: "\<not> stream_id_is_zero (replicate 8 1)" "\<not> stream_id_is_zero (replicate 8 2)" by code_simp+
  show ?thesis using listeners_share_one_declaration [OF z, of _ _ "fst demo_boot" "snd demo_boot"] 1 2 3 by auto
qed

section \<open>The console command that clears the listeners\<close>

text \<open>
  The command 'D' disconnects the listeners, but not the hardware.  It empties both
  listener entries, unbinds both engines and drops the pending fast connects; unlike a
  disconnection it leaves the hardware stream filter as it was, so a filter slot opened by an
  earlier connection stays open, and it sends no notification to the registered controllers.
\<close>

theorem clear_listeners_leaves_filter:
  assumes "cmd_clear_listeners (b, h) = (b', h')" and "length (v_listeners (b_avdecc b)) = 2"
  shows "v_listeners (b_avdecc b') = [listener_stream_zero, listener_stream_zero]
    \<and> m_bound (b_mcr b') = 0 \<and> a_bound (b_aaf b') = 0 \<and> (\<forall>p \<in> set (b_pending b'). pb_active p = 0)
    \<and> b_slot0 b' = b_slot0 b \<and> hw_sent h' = hw_sent h
    \<and> fs_enabled (b_slot0 (fst (on_listener_disconnect LISTENER_UID_AAF (b, h)))) = 0"
proof -
  have w: "withdraw sid (x, k) = (x\<lparr>b_srp := (b_srp x)\<lparr>s_listener_enabled := 0\<rparr>\<rparr>, k)" for sid x k
    by (simp add: withdraw_def on_eq srp_listener_enable_def)
  have "xs[0 := y, 1 := y] = [y, y]" if "length xs = 2" for xs :: "avdecc_listener_stream list" and y
    using that by (cases xs; cases "tl xs") auto
  then have v: "(v_listeners (b_avdecc b))[0 := listener_stream_zero, 1 := listener_stream_zero] = [listener_stream_zero, listener_stream_zero]"
    using assms(2) by blast
  have "fs_enabled (b_slot0 (fst (on_listener_disconnect LISTENER_UID_AAF (b, h)))) = 0"
    using disconnect_effect(2) [of 1 b h] by (cases "on_listener_disconnect LISTENER_UID_AAF (b, h)") (simp add: board_uids)
  then show ?thesis
    using assms(1) v unfolding cmd_clear_listeners_def prod.case Let_def
    by (auto simp: w on_eq mcr_unbind_def aaf_unbind_def board_uids split: if_splits)
qed

theorem clear_listeners_leaves_filter_witness:
  "fs_enabled (b_slot0 (fst (cmd_clear_listeners ((fst demo_boot)\<lparr>b_slot0 := filter_slot_zero\<lparr>fs_enabled := 1\<rparr>\<rparr>, snd demo_boot)))) = 1"
proof -
  let ?b = "(fst demo_boot)\<lparr>b_slot0 := filter_slot_zero\<lparr>fs_enabled := 1\<rparr>\<rparr>"
  obtain b' h' where r: "cmd_clear_listeners (?b, snd demo_boot) = (b', h')" by fastforce
  have "length (v_listeners (b_avdecc ?b)) = 2" using demo_boot_ok by (simp add: board_ok_def avd_ok_def)
  from clear_listeners_leaves_filter [OF r this] show ?thesis by (simp add: r)
qed

section \<open>Fast connect\<close>

lemma learn_binding_idle: "pb_active (b_pending b ! i) = 0 \<or> \<not> dest_or_eid_match (b_pending b ! i) sid dst \<Longrightarrow>
    learn_binding sid dst i (b, h) = (b, h)"
  by (auto simp: learn_binding_def Let_def)

lemma learn_binding_effect:
  assumes "learn_binding sid dst i (b, h) = (b', h')" and "pending_wf (b_pending b)" and "i < 2"
    and "length (v_listeners (b_avdecc b)) = 2"
    and "pb_active (b_pending b ! i) \<noteq> 0" and "dest_or_eid_match (b_pending b ! i) sid dst"
  shows "b_pending b' = (b_pending b)[i := (b_pending b ! i)\<lparr>pb_active := 0\<rparr>]"
    and "vl_stream_id (v_listeners (b_avdecc b') ! i) = sid" and "vl_dest_mac (v_listeners (b_avdecc b') ! i) = dst"
    and "s_listener_enabled (b_srp b') = 1" and "s_listener_stream_id (b_srp b') = sid"
    and "i = 0 \<Longrightarrow> m_bound (b_mcr b') = 1 \<and> m_stream_id (b_mcr b') = sid"
    and "i = 1 \<Longrightarrow> a_bound (b_aaf b') = 1 \<and> a_stream_id (b_aaf b') = sid
      \<and> fs_sid_hi (b_slot0 b') = be32_at sid 0 \<and> fs_sid_lo (b_slot0 b') = be32_at sid 4 \<and> fs_enabled (b_slot0 b') = 1
      \<and> fs_mac_hi (b_slot0 b') = be16_at (pb_dest_mac (b_pending b ! i)) 0
      \<and> fs_mac_lo (b_slot0 b') = be32_at (pb_dest_mac (b_pending b ! i)) 2"
proof -
  have u: "pb_uid (b_pending b ! i) = of_nat i" using assms(2,3,5) by (simp add: pending_wf_def N_PENDING_def)
  have c: "same_binding x (copy_msrp s sid x)" for s x by (rule copy_msrp_same_binding)
  have k: "vl_stream_id (copy_msrp s sid x) = vl_stream_id x" "vl_dest_mac (copy_msrp s sid x) = vl_dest_mac x" for s x
    using same_binding_fields [OF c] by simp_all
  consider "i = 0" | "i = 1" using assms(3) by linarith
  then show "b_pending b' = (b_pending b)[i := (b_pending b ! i)\<lparr>pb_active := 0\<rparr>]"
    "vl_stream_id (v_listeners (b_avdecc b') ! i) = sid" "vl_dest_mac (v_listeners (b_avdecc b') ! i) = dst"
    "s_listener_enabled (b_srp b') = 1" "s_listener_stream_id (b_srp b') = sid"
    "i = 0 \<Longrightarrow> m_bound (b_mcr b') = 1 \<and> m_stream_id (b_mcr b') = sid"
    "i = 1 \<Longrightarrow> a_bound (b_aaf b') = 1 \<and> a_stream_id (b_aaf b') = sid
      \<and> fs_sid_hi (b_slot0 b') = be32_at sid 0 \<and> fs_sid_lo (b_slot0 b') = be32_at sid 4 \<and> fs_enabled (b_slot0 b') = 1
      \<and> fs_mac_hi (b_slot0 b') = be16_at (pb_dest_mac (b_pending b ! i)) 0
      \<and> fs_mac_lo (b_slot0 b') = be32_at (pb_dest_mac (b_pending b ! i)) 2"
    using assms(1,4-6) u k
    by (cases; auto simp: learn_binding_def bind_engine_def on_eq srp_listener_enable_def gptp_uptime_ms_eq set_listener_def
      avtp_filter_set_slot_def board_uids mcr_bind_def aaf_bind_def AVDECC_MAX_LISTENERS_def Let_def)+
qed

lemma advertise_learns:
  assumes "i < 2" and "pending_wf (b_pending b)" and "pb_active (b_pending b ! (1 - i)) = 0"
    and "pb_active (b_pending b ! i) \<noteq> 0" and "dest_or_eid_match (b_pending b ! i) sid dst"
  shows "\<exists>g. learn_binding sid dst i (b, h) = (fst (on_talker_advertise sid dst (b, h)), g)"
proof -
  have two: "on_talker_advertise sid dst w = learn_binding sid dst 1 (learn_binding sid dst 0 w)" for w
    by (simp add: on_talker_advertise_def N_PENDING_def numeral_2_eq_2)
  consider "i = 0" | "i = 1" using assms(1) by linarith
  then show ?thesis
  proof cases
    case 1
    obtain b1 h1 where l: "learn_binding sid dst 0 (b, h) = (b1, h1)" by fastforce
    have "b_pending b1 = (b_pending b)[0 := (b_pending b ! 0)\<lparr>pb_active := 0\<rparr>]"
      using l assms 1 by (auto simp: learn_binding_def bind_engine_def on_eq set_listener_def avtp_filter_set_slot_def Let_def split: if_splits)
    then have "pb_active (b_pending b1 ! 1) = 0" using assms(3) 1 by simp
    then show ?thesis using 1 l learn_binding_idle [of b1 1 sid dst h1] by (simp add: two)
  next
    case 2
    have "learn_binding sid dst 0 (b, h) = (b, h)" using learn_binding_idle [of b 0 sid dst h] assms(3) 2 by simp
    then show ?thesis using 2 by (cases "learn_binding sid dst 1 (b, h)") (simp add: two)
  qed
qed

text \<open>
  C28.  A fast connect completes when the stream shows up.  While the connection of a listener
  is pending, an advertisement that matches it by destination address or talker id binds the
  listener: its entry takes the advertised stream id and destination, the reservation declares
  the stream, the engine is bound to it and the pending entry is closed.  The hardware filter,
  however, is given the destination address saved with the command, not the advertised one --
  so a match by talker id with a zero saved address opens the filter for address zero.  An
  advertisement matching nothing has no effect.
\<close>

theorem fast_connect_learns:
  assumes "i < 2" and "pending_wf (b_pending b)" and "length (v_listeners (b_avdecc b)) = 2"
    and "pb_active (b_pending b ! (1 - i)) = 0" and "pb_active (b_pending b ! i) \<noteq> 0"
    and "on_talker_advertise sid dst (b, h) = (b', h')"
  defines "p \<equiv> b_pending b ! i"
  shows "(\<not> dest_or_eid_match p sid dst \<longrightarrow> b' = b \<and> h' = h)
    \<and> (dest_or_eid_match p sid dst \<longrightarrow>
        vl_stream_id (v_listeners (b_avdecc b') ! i) = sid \<and> vl_dest_mac (v_listeners (b_avdecc b') ! i) = dst
      \<and> s_listener_enabled (b_srp b') = 1 \<and> s_listener_stream_id (b_srp b') = sid \<and> pb_active (b_pending b' ! i) = 0
      \<and> (i = 0 \<longrightarrow> m_bound (b_mcr b') = 1 \<and> m_stream_id (b_mcr b') = sid)
      \<and> (i = 1 \<longrightarrow> a_bound (b_aaf b') = 1 \<and> a_stream_id (b_aaf b') = sid \<and> fs_enabled (b_slot0 b') = 1
           \<and> fs_sid_hi (b_slot0 b') = be32_at sid 0 \<and> fs_sid_lo (b_slot0 b') = be32_at sid 4
           \<and> fs_mac_hi (b_slot0 b') = be16_at (pb_dest_mac p) 0 \<and> fs_mac_lo (b_slot0 b') = be32_at (pb_dest_mac p) 2))"
proof (cases "dest_or_eid_match p sid dst")
  case True
  obtain g where l: "learn_binding sid dst i (b, h) = (b', g)"
    using advertise_learns [of i b sid dst h] assms True by auto
  have "length (b_pending b) = 2" using assms(2) by (simp add: pending_wf_def N_PENDING_def)
  then show ?thesis using learn_binding_effect [OF l assms(2,1,3,5) True [unfolded p_def]] True assms(1) by (simp add: p_def)
next
  case False
  have "learn_binding sid dst j (b, h) = (b, h)" if "j < 2" for j
  proof -
    have "j = i \<or> j = 1 - i" using that assms(1) by linarith
    then show ?thesis using learn_binding_idle [of b j sid dst h] False assms(4) by (auto simp: p_def)
  qed
  then have "on_talker_advertise sid dst (b, h) = (b, h)" by (simp add: on_talker_advertise_def N_PENDING_def numeral_2_eq_2)
  then show ?thesis using False assms(6) by simp
qed

definition demo_fast :: board where
  "demo_fast = (fst demo_boot)\<lparr>b_pending := [pending_zero, pending_zero\<lparr>pb_active := 1, pb_uid := 1,
     pb_talker_entity_id := [2, 3, 4, 0xFF, 0xFE, 5, 6, 7]\<rparr>]\<rparr>"

lemma demo_fast_facts:
  "pending_wf (b_pending demo_fast)" "length (v_listeners (b_avdecc demo_fast)) = 2"
  "b_pending demo_fast = [pending_zero, pending_zero\<lparr>pb_active := 1, pb_uid := 1, pb_talker_entity_id := [2, 3, 4, 0xFF, 0xFE, 5, 6, 7]\<rparr>]"
  using demo_boot_ok by (auto simp: demo_fast_def pending_wf_def N_PENDING_def less_2_cases_iff pending_zero_def board_ok_def avd_ok_def)

theorem fast_connect_learns_witness:
  "a_stream_id (b_aaf (fst (on_talker_advertise [2, 3, 4, 5, 6, 7, 0, 1] [0x91, 0xE0, 0xF0, 0, 0, 1] (demo_fast, hw0)))) = [2, 3, 4, 5, 6, 7, 0, 1]
    \<and> fs_mac_lo (b_slot0 (fst (on_talker_advertise [2, 3, 4, 5, 6, 7, 0, 1] [0x91, 0xE0, 0xF0, 0, 0, 1] (demo_fast, hw0)))) = 0"
proof -
  obtain b' h' where r: "on_talker_advertise [2, 3, 4, 5, 6, 7, 0, 1] [0x91, 0xE0, 0xF0, 0, 0, 1] (demo_fast, hw0) = (b', h')" by fastforce
  have m: "dest_or_eid_match (b_pending demo_fast ! 1) [2, 3, 4, 5, 6, 7, 0, 1] [0x91, 0xE0, 0xF0, 0, 0, 1]"
    by (simp add: demo_fast_facts dest_or_eid_match_def pending_zero_def zeros_def)
  have z: "be32_at (zeros 6) 2 = 0" by code_simp
  show ?thesis
    using fast_connect_learns [OF _ demo_fast_facts(1,2) _ _ r, of 1] m z by (simp add: r demo_fast_facts(3)) (simp add: pending_zero_def)
qed

text \<open>
  A pending fast connect whose talker id has the EUI-64 form takes the first stream of the
  vendor.  The last three bytes of the talker's address are not compared: the listener is bound
  to any advertised stream whose id begins with the same three bytes, whatever device sends it.
\<close>

theorem fast_connect_takes_vendor_stream:
  assumes "i < 2" and "pending_wf (b_pending b)" and "length (v_listeners (b_avdecc b)) = 2"
    and "pb_active (b_pending b ! (1 - i)) = 0" and "pb_active (b_pending b ! i) \<noteq> 0"
    and "pb_talker_entity_id (b_pending b ! i) = [o1, o2, o3, 0xFF, 0xFE, t1, t2, t3]"
    and "on_talker_advertise [o1, o2, o3, d1, d2, d3, u1, u2] dst (b, h) = (b', h')"
  shows "vl_stream_id (v_listeners (b_avdecc b') ! i) = [o1, o2, o3, d1, d2, d3, u1, u2]
    \<and> s_listener_stream_id (b_srp b') = [o1, o2, o3, d1, d2, d3, u1, u2]
    \<and> (i = 0 \<longrightarrow> m_stream_id (b_mcr b') = [o1, o2, o3, d1, d2, d3, u1, u2])
    \<and> (i = 1 \<longrightarrow> a_stream_id (b_aaf b') = [o1, o2, o3, d1, d2, d3, u1, u2])"
proof -
  have m: "dest_or_eid_match (b_pending b ! i) [o1, o2, o3, d1, d2, d3, u1, u2] dst"
    by (simp add: dest_or_eid_match_def assms(6) Let_def)
  obtain g where "learn_binding [o1, o2, o3, d1, d2, d3, u1, u2] dst i (b, h) = (b', g)"
    using advertise_learns [OF assms(1,2,4,5) m, of h] assms(7) by auto
  from learn_binding_effect [OF this assms(2,1,3,5) m] show ?thesis by simp
qed

theorem fast_connect_takes_vendor_stream_witness:
  "a_stream_id (b_aaf (fst (on_talker_advertise [2, 3, 4, 99, 98, 97, 0, 1] (zeros 6) (demo_fast, hw0)))) = [2, 3, 4, 99, 98, 97, 0, 1]"
proof -
  obtain b' h' where r: "on_talker_advertise [2, 3, 4, 99, 98, 97, 0, 1] (zeros 6) (demo_fast, hw0) = (b', h')" by fastforce
  show ?thesis
    using fast_connect_takes_vendor_stream [OF _ demo_fast_facts(1,2) _ _ _ r, of 1 5 6 7] by (simp add: r demo_fast_facts(3)) (simp add: pending_zero_def)
qed

section \<open>Starting and stopping the talker\<close>

definition talker_on :: "board \<Rightarrow> bool" where
  "talker_on b \<longleftrightarrow> a_tx_enabled (b_aaf b) = 1 \<and> b_aaf_gw_enabled b = 1 \<and> pk_enable (b_pkt b) = 1 \<and> s_talker_enabled (b_srp b) = 1"

definition talker_off :: "board \<Rightarrow> bool" where
  "talker_off b \<longleftrightarrow> a_tx_enabled (b_aaf b) = 0 \<and> b_aaf_gw_enabled b = 0 \<and> pk_enable (b_pkt b) = 0 \<and> s_talker_enabled (b_srp b) = 0"

lemma talker_connect_effect:
  "talker_on (fst (on_talker_connect 0 (b, h)))" "b_avdecc (fst (on_talker_connect 0 (b, h))) = b_avdecc b"
  "talker_off (fst (on_talker_disconnect 0 (b, h)))" "b_avdecc (fst (on_talker_disconnect 0 (b, h))) = b_avdecc b"
  by (simp_all add: on_talker_connect_def on_talker_disconnect_def on_eq aaf_gw_set_def aaf_gw_push_binding_def talker_on_def talker_off_def
      aaf_tx_enable_def srp_talker_enable_def mcr_sample_count_read_def board_uids Let_def)

text \<open>An ACMP frame for this board's talker.\<close>

definition to_talker :: "u8 \<Rightarrow> mem \<Rightarrow> u32 \<Rightarrow> avdecc_state \<Rightarrow> bool" where
  "to_talker msg frame len s \<longleftrightarrow> (let p = (\<lambda>j. frame (14 + j)) in
     70 \<le> len \<and> p 0 = AVTP_SUBTYPE_ACMP \<and> p 1 = msg \<and> bytes p ACMP_OFF_TALKER_ID 8 = v_entity_id s
     \<and> get_be16 p ACMP_OFF_TALKER_UID = 0)"

lemma rx_acmp:
  assumes "to_talker msg frame len s"
  shows "board_avdecc_rx frame len (b, h) = (case acmp_process_rx board_callbacks frame len (b_avdecc b, h, b) of
      (v, h', b') \<Rightarrow> (b'\<lparr>b_avdecc := v\<rparr>, h'))"
proof -
  have "70 \<le> len" using assms by (simp add: to_talker_def Let_def)
  then have "\<not> len < 14 + 4" by (auto simp: word_less_nat_alt word_le_nat_alt)
  then show ?thesis using assms
    by (simp add: board_avdecc_rx_def avdecc_process_rx_def to_talker_def AVTP_SUBTYPE_ACMP_def AVTP_SUBTYPE_ADP_def Let_def)
qed

lemma send_response_fields:
  "v_talkers (fst (acmp_send_response m st p (s, h))) = v_talkers s" "v_entity_id (fst (acmp_send_response m st p (s, h))) = v_entity_id s"
  by (simp_all add: acmp_send_response_def Let_def)

lemma connect_tx_run:
  assumes "to_talker ACMP_MSG_CONNECT_TX_COMMAND frame len (b_avdecc b)" and "board_avdecc_rx frame len (b, h) = (b', h')"
    and "length (v_talkers (b_avdecc b)) = 1"
  shows "talker_on b'" and "vt_connected (v_talkers (b_avdecc b') ! 0) = 1" and "length (v_talkers (b_avdecc b')) = 1"
    and "vt_connection_count (v_talkers (b_avdecc b') ! 0) = vt_connection_count (v_talkers (b_avdecc b) ! 0) + 1"
    and "v_entity_id (b_avdecc b') = v_entity_id (b_avdecc b)"
proof -
  have len': "\<not> len < 14 + of_nat ACMPDU_LEN" using assms(1) by (auto simp: to_talker_def ACMPDU_LEN_def Let_def word_less_nat_alt word_le_nat_alt)
  have e: "board_avdecc_rx frame len (b, h) = (b', h')" "to_talker ACMP_MSG_CONNECT_TX_COMMAND frame len (b_avdecc b)" using assms by simp_all
  have on: "talker_on (c\<lparr>b_avdecc := v\<rparr>) = talker_on c" for c v by (simp add: talker_on_def)
  show "talker_on b'" "vt_connected (v_talkers (b_avdecc b') ! 0) = 1" "length (v_talkers (b_avdecc b')) = 1"
    "vt_connection_count (v_talkers (b_avdecc b') ! 0) = vt_connection_count (v_talkers (b_avdecc b) ! 0) + 1"
    "v_entity_id (b_avdecc b') = v_entity_id (b_avdecc b)"
    using e assms(3) len' talker_connect_effect(1,2) unfolding rx_acmp [OF e(2)]
    by (auto simp: to_talker_def acmp_process_rx_def acmp_handle_connect_tx_def acmp_msg_codes AVDECC_MAX_TALKERS_def board_callbacks_def
        from_avdecc_eq lift_w_def send_response_fields on Let_def case_prod_unfold)
qed

lemma disconnect_tx_run:
  assumes "to_talker ACMP_MSG_DISCONNECT_TX_COMMAND frame len (b_avdecc b)" and "board_avdecc_rx frame len (b, h) = (b', h')"
    and "length (v_talkers (b_avdecc b)) = 1"
  shows "talker_off b'" and "vt_connected (v_talkers (b_avdecc b') ! 0) = 0"
    and "vt_connection_count (v_talkers (b_avdecc b') ! 0) = (if 0 < vt_connection_count (v_talkers (b_avdecc b) ! 0)
       then vt_connection_count (v_talkers (b_avdecc b) ! 0) - 1 else vt_connection_count (v_talkers (b_avdecc b) ! 0))"
proof -
  have len': "\<not> len < 14 + of_nat ACMPDU_LEN" using assms(1) by (auto simp: to_talker_def ACMPDU_LEN_def Let_def word_less_nat_alt word_le_nat_alt)
  have e: "board_avdecc_rx frame len (b, h) = (b', h')" "to_talker ACMP_MSG_DISCONNECT_TX_COMMAND frame len (b_avdecc b)" using assms by simp_all
  have off: "talker_off (c\<lparr>b_avdecc := v\<rparr>) = talker_off c" for c v by (simp add: talker_off_def)
  show "talker_off b'" "vt_connected (v_talkers (b_avdecc b') ! 0) = 0"
    "vt_connection_count (v_talkers (b_avdecc b') ! 0) = (if 0 < vt_connection_count (v_talkers (b_avdecc b) ! 0)
       then vt_connection_count (v_talkers (b_avdecc b) ! 0) - 1 else vt_connection_count (v_talkers (b_avdecc b) ! 0))"
    using e assms(3) len' talker_connect_effect(3,4) unfolding rx_acmp [OF e(2)]
    by (auto simp: to_talker_def acmp_process_rx_def acmp_handle_disconnect_tx_def acmp_msg_codes AVDECC_MAX_TALKERS_def board_callbacks_def
        from_avdecc_eq lift_w_def send_response_fields off Let_def case_prod_unfold)
qed

text \<open>
  A CONNECT_TX starts the stream, and the first DISCONNECT_TX stops it for everyone.  Two
  listeners' CONNECT_TX commands switch the software talker, the gateware packetizer and the
  SRP declaration on and count two connections; one of them disconnecting switches all three
  off while the talker still counts a connection.
\<close>

theorem talker_stops_at_first_disconnect:
  assumes "length (v_talkers (b_avdecc b)) = 1" and "vt_connection_count (v_talkers (b_avdecc b) ! 0) = n" and "n < 0xFFFE"
    and "to_talker ACMP_MSG_CONNECT_TX_COMMAND f1 len1 (b_avdecc b)" and "board_avdecc_rx f1 len1 (b, h) = (b1, h1)"
    and "to_talker ACMP_MSG_CONNECT_TX_COMMAND f2 len2 (b_avdecc b)" and "board_avdecc_rx f2 len2 (b1, h1) = (b2, h2)"
    and "to_talker ACMP_MSG_DISCONNECT_TX_COMMAND f3 len3 (b_avdecc b)" and "board_avdecc_rx f3 len3 (b2, h2) = (b3, h3)"
  shows "talker_on b1 \<and> talker_on b2 \<and> vt_connection_count (v_talkers (b_avdecc b2) ! 0) = n + 2
    \<and> talker_off b3 \<and> vt_connection_count (v_talkers (b_avdecc b3) ! 0) = n + 1 \<and> vt_connected (v_talkers (b_avdecc b3) ! 0) = 0"
proof -
  note c1 = connect_tx_run [OF assms(4,5,1)]
  have t2: "to_talker ACMP_MSG_CONNECT_TX_COMMAND f2 len2 (b_avdecc b1)" using assms(6) c1(5) by (simp add: to_talker_def)
  note c2 = connect_tx_run [OF t2 assms(7) c1(3)]
  have t3: "to_talker ACMP_MSG_DISCONNECT_TX_COMMAND f3 len3 (b_avdecc b2)" using assms(8) c1(5) c2(5) by (simp add: to_talker_def)
  note c3 = disconnect_tx_run [OF t3 assms(9) c2(3)]
  have "n + 2 \<noteq> 0"
  proof
    assume "n + 2 = 0"
    then have "n = - 2" by (simp add: eq_neg_iff_add_eq_0)
    then show False using assms(3) by simp
  qed
  then have "0 < n + 2" by (simp add: word_neq_0_conv)
  then show ?thesis using c1 c2 c3 assms(2) by (simp add: add.assoc)
qed

definition demo_acmp :: "u8 \<Rightarrow> u8 list" where
  "demo_acmp msg = zeros 14 @ [0xFC, msg, 0, 44] @ zeros 16 @ [2, 0, 0, 0xFF, 0xFE, 0, 0, 0x42] @ zeros 28"

lemma demo_acmp_to_talker:
  "to_talker 0 (mem_of (demo_acmp 0)) 70 (b_avdecc (fst demo_boot))" "to_talker 2 (mem_of (demo_acmp 2)) 70 (b_avdecc (fst demo_boot))"
  unfolding to_talker_def demo_boot_ids by code_simp+

theorem talker_stops_at_first_disconnect_witness:
  "\<exists>b1 h1 b2 h2 b3 h3. board_avdecc_rx (mem_of (demo_acmp 0)) 70 demo_boot = (b1, h1)
    \<and> board_avdecc_rx (mem_of (demo_acmp 0)) 70 (b1, h1) = (b2, h2) \<and> board_avdecc_rx (mem_of (demo_acmp 2)) 70 (b2, h2) = (b3, h3)
    \<and> talker_on b2 \<and> talker_off b3"
proof -
  obtain b1 h1 where 1: "board_avdecc_rx (mem_of (demo_acmp 0)) 70 (fst demo_boot, snd demo_boot) = (b1, h1)" by fastforce
  obtain b2 h2 where 2: "board_avdecc_rx (mem_of (demo_acmp 0)) 70 (b1, h1) = (b2, h2)" by fastforce
  obtain b3 h3 where 3: "board_avdecc_rx (mem_of (demo_acmp 2)) 70 (b2, h2) = (b3, h3)" by fastforce
  have t: "length (v_talkers (b_avdecc (fst demo_boot))) = 1" using demo_boot_ok by (simp add: board_ok_def avd_ok_def)
  have c: "vt_connection_count (v_talkers (b_avdecc (fst demo_boot)) ! 0) = 0"
    by (simp add: demo_boot_def main_init_def avdecc_init_def avdecc_set_talker_stream_def avdecc_zero_def talker_stream_zero_def
        TALKER_UID_AAF_def AVDECC_MAX_TALKERS_def Let_def case_prod_unfold)
  show ?thesis
    using talker_stops_at_first_disconnect [OF t c _ _ 1 _ 2 _ 3] demo_acmp_to_talker 1 2 3 by (auto simp: acmp_msg_codes)
qed

section \<open>Samples from the USB side\<close>

text \<open>
  One audio frame as the USB bridge queues it: a word per channel with the channel number in
  bits 0 to 2, the first-of-frame flag in bit 3, the valid flag in bit 4 and the sample in the
  upper 24 bits.
\<close>

definition usb_codes :: "u32 list" where "usb_codes = [0x18, 0x11, 0x12, 0x13, 0x14, 0x15, 0x16, 0x17]"

definition usb_frame :: "u32 list \<Rightarrow> u32 list" where
  "usb_frame f = map2 (\<lambda>c s. (s AND 0xFFFFFF00) OR c) usb_codes f"

definition audio24 :: "u32 list \<Rightarrow> u32 list" where "audio24 = map (\<lambda>s. s AND 0xFFFFFF00)"

lemma low_bits: "k AND 0xFFFFFF00 = 0 \<Longrightarrow> ((s AND 0xFFFFFF00) OR c) AND k = c AND (k :: u32)"
proof -
  assume k: "k AND 0xFFFFFF00 = 0"
  have "(s AND 0xFFFFFF00) AND k = s AND (k AND 0xFFFFFF00)" by (simp only: ac_simps)
  then show ?thesis by (simp add: k bit.conj_disj_distrib2)
qed

lemma high_bits: "c AND 0xFFFFFF00 = 0 \<Longrightarrow> ((s AND 0xFFFFFF00) OR c) AND 0xFFFFFF00 = s AND (0xFFFFFF00 :: u32)"
  by (simp add: bit.conj_disj_distrib2 and.assoc)

lemma first_bit: "drop_bit 3 (w :: u32) AND 1 = drop_bit 3 (w AND 8)"
  by (rule bit_eqI) (auto simp: bit_simps bit_1_iff)

definition flushed :: "board \<Rightarrow> board" where
  "flushed b = (if b_usb_have b \<noteq> 0 then
     b\<lparr>b_aaf := (if a_tx_enabled (b_aaf b) \<noteq> 0 then aaf_tx_push (b_aaf b) (b_usb_block b) else b_aaf b),
       b_usb_block := replicate AAF_CHANNELS 0, b_usb_to_aaf_frames := b_usb_to_aaf_frames b + 1\<rparr> else b)"

lemma usb_sample_code:
  assumes "c \<in> set usb_codes"
  shows "((s AND 0xFFFFFF00) OR c) AND 0x10 \<noteq> 0"
    and "usb_sample ((s AND 0xFFFFFF00) OR c) b = (let b1 = (if c = 0x18 then flushed b else b); ch = unat (c AND 7)
      in b1\<lparr>b_usb_block := (if ch < AAF_CHANNELS then (b_usb_block b1)[ch := s AND 0xFFFFFF00] else b_usb_block b1), b_usb_have := 1\<rparr>)"
proof -
  have c: "c AND 0xFFFFFF00 = 0" "c AND 0x10 \<noteq> 0" "(drop_bit 3 (c AND 8) \<noteq> 0) = (c = 0x18)"
    using assms by (auto simp: usb_codes_def)
  show "((s AND 0xFFFFFF00) OR c) AND 0x10 \<noteq> 0" using c(2) by (simp add: low_bits)
  have w: "((s AND 0xFFFFFF00) OR c) AND 7 = c AND 7" "((s AND 0xFFFFFF00) OR c) AND 0xFFFFFF00 = s AND 0xFFFFFF00"
    "drop_bit 3 ((s AND 0xFFFFFF00) OR c) AND 1 \<noteq> 0 \<longleftrightarrow> c = 0x18"
    using c(3) by (simp_all only: first_bit high_bits [OF c(1)] low_bits [of 7] low_bits [of 8]) (simp_all add: low_bits)
  show "usb_sample ((s AND 0xFFFFFF00) OR c) b = (let b1 = (if c = 0x18 then flushed b else b); ch = unat (c AND 7)
      in b1\<lparr>b_usb_block := (if ch < AAF_CHANNELS then (b_usb_block b1)[ch := s AND 0xFFFFFF00] else b_usb_block b1), b_usb_have := 1\<rparr>)"
    unfolding usb_sample_def Let_def w flushed_def
    by (cases "c = 0x18"; cases "b_usb_have b = 0") (simp_all only: simp_thms if_True if_False)
qed

lemma usb_one_frame:
  assumes "length f = 8" and "b_usb_fifo b = usb_frame f @ rest" and "length (b_usb_block b) = 8"
  shows "usb_drain_loop (n + 8) b = usb_drain_loop n ((flushed b)\<lparr>b_usb_fifo := rest, b_usb_block := audio24 f, b_usb_have := 1\<rparr>)"
proof -
  have step: "usb_drain_loop (Suc k) x = usb_drain_loop k (usb_sample w (x\<lparr>b_usb_fifo := ws\<rparr>))"
    if "b_usb_fifo x = w # ws" "w AND 0x10 \<noteq> 0" for k x w ws
    using that by (simp add: usb_sample_data_read_def)
  obtain s0 s1 s2 s3 s4 s5 s6 s7 where f: "f = [s0, s1, s2, s3, s4, s5, s6, s7]"
    using assms(1) by (auto simp: numeral_eq_Suc length_Suc_conv)
  define b0 where "b0 = flushed (b\<lparr>b_usb_fifo := rest\<rparr>)"
  have b0: "flushed b = b0\<lparr>b_usb_fifo := b_usb_fifo b\<rparr>" "length (b_usb_block b0) = 8"
    using assms(3) by (simp_all add: b0_def flushed_def AAF_CHANNELS_def)
  obtain y0 y1 y2 y3 y4 y5 y6 y7 where y: "b_usb_block b0 = [y0, y1, y2, y3, y4, y5, y6, y7]"
    using b0(2) by (auto simp: numeral_eq_Suc length_Suc_conv)
  have fl: "flushed (b\<lparr>b_usb_fifo := q\<rparr>) = b0\<lparr>b_usb_fifo := q\<rparr>" for q by (simp add: b0_def flushed_def)
  have codes: "c \<in> set usb_codes \<longleftrightarrow> c \<in> {0x18, 0x11, 0x12, 0x13, 0x14, 0x15, 0x16, 0x17}" for c by (simp add: usb_codes_def)
  have n8: "n + 8 = Suc (Suc (Suc (Suc (Suc (Suc (Suc (Suc n)))))))" by simp
  show ?thesis
    using assms(2) unfolding n8
    by (simp add: step f usb_frame_def usb_codes_def usb_sample_code codes fl AAF_CHANNELS_def y audio24_def b0(1) del: usb_drain_loop.simps)
qed

definition push_blocks :: "u32 list list \<Rightarrow> aaf_state \<Rightarrow> aaf_state" where
  "push_blocks blocks a = (if a_tx_enabled a \<noteq> 0 then fold (\<lambda>x a. aaf_tx_push a x) blocks a else a)"

lemma push_keeps_enabled: "a_tx_enabled (aaf_tx_push a x) = a_tx_enabled a"
  by (simp add: aaf_tx_push_def Let_def)

lemma usb_frames:
  assumes "\<forall>f \<in> set fs. length f = 8" and "length (b_usb_block b) = 8" and "b_usb_fifo b = concat (map usb_frame fs)"
    and "b_usb_have b \<noteq> 0"
  shows "\<exists>b'. usb_drain_loop (n + 8 * length fs) b = usb_drain_loop n b' \<and> b_usb_fifo b' = [] \<and> b_usb_have b' \<noteq> 0
    \<and> b_aaf b' = push_blocks (butlast (b_usb_block b # map audio24 fs)) (b_aaf b)
    \<and> b_usb_block b' = last (b_usb_block b # map audio24 fs)
    \<and> b_usb_to_aaf_frames b' = b_usb_to_aaf_frames b + of_nat (length fs)"
  using assms
proof (induction fs arbitrary: b)
  case Nil
  then show ?case by (auto simp: push_blocks_def)
next
  case (Cons f fs)
  let ?c = "(flushed b)\<lparr>b_usb_fifo := concat (map usb_frame fs), b_usb_block := audio24 f, b_usb_have := 1\<rparr>"
  have one: "usb_drain_loop (n + 8 * length fs + 8) b = usb_drain_loop (n + 8 * length fs) ?c"
    by (rule usb_one_frame) (use Cons.prems in simp_all)
  have len: "length (audio24 f) = 8" using Cons.prems(1) by (simp add: audio24_def)
  obtain b' where b': "usb_drain_loop (n + 8 * length fs) ?c = usb_drain_loop n b'" "b_usb_fifo b' = []" "b_usb_have b' \<noteq> 0"
    "b_aaf b' = push_blocks (butlast (audio24 f # map audio24 fs)) (b_aaf ?c)"
    "b_usb_block b' = last (audio24 f # map audio24 fs)"
    "b_usb_to_aaf_frames b' = b_usb_to_aaf_frames ?c + of_nat (length fs)"
    using Cons.IH [of ?c] Cons.prems(1) len by auto
  have e: "n + 8 * length (f # fs) = n + 8 * length fs + 8" by simp
  have "push_blocks (butlast (b_usb_block b # map audio24 (f # fs))) (b_aaf b) = push_blocks (butlast (audio24 f # map audio24 fs)) (b_aaf ?c)"
    using Cons.prems(4) by (simp add: push_blocks_def flushed_def push_keeps_enabled)
  moreover have "b_usb_to_aaf_frames ?c = b_usb_to_aaf_frames b + 1" using Cons.prems(4) by (simp add: flushed_def)
  ultimately show ?case using b' one unfolding e by (auto intro!: exI [of _ b'])
qed

text \<open>
  C39.  Frames queued by the USB bridge come out as blocks.  Draining a queue of up to 128
  eight-channel frames empties it and pushes, in order, the block left over from the last drain
  and all frames but the last, each channel at its index with its 24 bits; the last frame waits
  for the next drain, because a block is pushed when the first channel of the next frame
  arrives.  With the talker off the blocks are counted and dropped.
\<close>

theorem usb_frames_reassembled:
  assumes "\<forall>f \<in> set fs. length f = 8" and "length fs \<le> 128"
    and "length (b_usb_block b) = 8" and "b_usb_have b \<noteq> 0" and "b_usb_fifo b = concat (map usb_frame fs)"
  shows "b_usb_fifo (usb_aaf_drain b) = []
    \<and> b_aaf (usb_aaf_drain b) = push_blocks (butlast (b_usb_block b # map audio24 fs)) (b_aaf b)
    \<and> b_usb_block (usb_aaf_drain b) = last (b_usb_block b # map audio24 fs)
    \<and> b_usb_to_aaf_frames (usb_aaf_drain b) = b_usb_to_aaf_frames b + of_nat (length fs)"
proof -
  obtain b' where b': "usb_drain_loop (1024 - 8 * length fs + 8 * length fs) b = usb_drain_loop (1024 - 8 * length fs) b'" "b_usb_fifo b' = []"
    "b_aaf b' = push_blocks (butlast (b_usb_block b # map audio24 fs)) (b_aaf b)"
    "b_usb_block b' = last (b_usb_block b # map audio24 fs)"
    "b_usb_to_aaf_frames b' = b_usb_to_aaf_frames b + of_nat (length fs)"
    using usb_frames [OF assms(1,3,5,4), of "1024 - 8 * length fs"] by blast
  have "usb_drain_loop k b' = b'" for k using b'(2) by (cases k) (simp_all add: usb_sample_data_read_def)
  then have "usb_aaf_drain b = b'" using b'(1) assms(2) by (simp add: usb_aaf_drain_def)
  then show ?thesis using b' by simp
qed

theorem usb_frames_reassembled_witness:
  "b_usb_block (usb_aaf_drain ((fst demo_boot)\<lparr>b_usb_block := replicate 8 0, b_usb_have := 1,
       b_usb_fifo := concat (map usb_frame [[0x100, 0x200, 0x300, 0x400, 0x500, 0x600, 0x700, 0x800]])\<rparr>))
     = [0x100, 0x200, 0x300, 0x400, 0x500, 0x600, 0x700, 0x800]"
  by (subst usb_frames_reassembled [of "[[0x100, 0x200, 0x300, 0x400, 0x500, 0x600, 0x700, 0x800]]", THEN conjunct2, THEN conjunct2, THEN conjunct1])
    (simp_all add: audio24_def)

end
