(* ===== verification/BoardNet.thy ===== *)
theory BoardNet
  imports BoardConn
begin

text \<open>
  Two boards on one network: the frames one board sends are what the other receives, in a slot
  of its receive memory, tagged by a bridge or not.  A controller's connection request goes
  through three receptions (the listener asks the talker, the talker answers, the listener
  binds) until the packetizer of the one board and the filter of the other name the same
  stream.
\<close>

section \<open>Receiving an ACMP frame\<close>

definition acmp_frame :: "u8 list \<Rightarrow> bool" where
  "acmp_frame bs \<longleftrightarrow> 70 \<le> length bs \<and> length bs \<le> 1500 \<and> get_be16 (mem_of bs) 12 = AVDECC_ETHERTYPE
     \<and> mem_of bs 14 = AVTP_SUBTYPE_ACMP"

definition carries :: "rx_slot \<Rightarrow> u8 list \<Rightarrow> bool" where
  "carries r bs \<longleftrightarrow> untagged r bs \<or> tagged r bs"

lemma acmp_frame_self_contained: "acmp_frame bs \<Longrightarrow> self_contained bs"
  by (auto simp: acmp_frame_def self_contained_def carriable_def mem_of_def AVDECC_ETHERTYPE_def PTP_ETHERTYPE_def AVTP_SUBTYPE_ACMP_def
      AVTP_SUBTYPE_AECP_def)

lemma acmp_frame_length: "acmp_frame bs \<Longrightarrow> unat (of_nat (length bs) :: u32) = length bs" "acmp_frame bs \<Longrightarrow> 70 \<le> (of_nat (length bs) :: u32)"
  using frame_length_fits [of bs] by (auto simp: acmp_frame_def word_le_nat_alt)

text \<open>What the dispatcher counts and remembers of a control frame before it hands it on.\<close>

definition noted :: "mem \<Rightarrow> board \<Rightarrow> board" where
  "noted m b = b\<lparr>b_rx_total := b_rx_total b + 1, b_rx_last_ethertype := AVTP_ETHERTYPE, b_rx_last_dst := bytes m 0 6,
     b_rx_last_src := bytes m 6 6,
     b_rx_avb_stream_mcast := (if m 0 = 0x91 \<and> m 1 = 0xe0 \<and> m 2 = 0xf0 \<and> m 3 = 0
                               then b_rx_avb_stream_mcast b + 1 else b_rx_avb_stream_mcast b),
     b_rx_avtp := b_rx_avtp b + 1\<rparr>"

lemma noted_fields [simp]:
  "b_avdecc (noted m b) = b_avdecc b" "b_srp (noted m b) = b_srp b" "b_aaf (noted m b) = b_aaf b"
  "board_core base h (noted m b) = board_core base h b"
  by (simp_all add: noted_def)

lemma demux_acmp:
  assumes "get_be16 m 12 = AVDECC_ETHERTYPE" and "m 14 = AVTP_SUBTYPE_ACMP" and "\<not> len < 15"
  shows "demux m m len (b, h) = board_avdecc_rx m len (noted m b, h)"
  using assms by (simp add: demux_def noted_def ethertypes_distinct Let_def)

lemma dispatch_acmp:
  assumes "acmp_frame bs" and "carries r bs"
  obtains b1 h1 where "dispatch_frame r (b, h) = board_avdecc_rx (mem_of bs) (of_nat (length bs)) (b1, h1)"
    "b_avdecc b1 = b_avdecc b" "b_srp b1 = b_srp b" "b_aaf b1 = b_aaf b" "hw_sent h1 = hw_sent h" "peek_ms h1 = peek_ms h"
    "board_ok base (b, h) \<Longrightarrow> board_ok base (b1, h1)"
proof -
  obtain sc where d: "dispatch_frame r (b, h) = demux (mem_of bs) (mem_of bs) (of_nat (length bs)) (b\<lparr>b_scratch := sc\<rparr>, h\<lparr>hw_rx_ts := rx_ts r\<rparr>)"
    using dispatch_carried [OF _ acmp_frame_self_contained [OF assms(1)], of r b h] assms(2) by (auto simp: carries_def)
  have "\<not> (of_nat (length bs) :: u32) < 15" using acmp_frame_length [OF assms(1)] by (auto simp: word_less_nat_alt word_le_nat_alt)
  note d [unfolded demux_acmp [OF _ _ this, of "mem_of bs"]]
  with assms(1) show thesis
    using core_regs [of base h b "h\<lparr>hw_rx_ts := rx_ts r\<rparr>"] demux_acmp [OF _ _ \<open>\<not> (of_nat (length bs) :: u32) < 15\<close>, of "mem_of bs"]
    by (intro that [of "noted (mem_of bs) (b\<lparr>b_scratch := sc\<rparr>)" "h\<lparr>hw_rx_ts := rx_ts r\<rparr>"]) (simp_all add: acmp_frame_def board_ok_def d)
qed

text \<open>The frames the boards send are such frames.\<close>

lemma eth_hdr_acmp_frame:
  assumes "stored (mem_of bs) 0 (avdecc_eth_hdr src)" and "length src = 6" and "length bs = 70" and "mem_of bs 14 = AVTP_SUBTYPE_ACMP"
  shows "acmp_frame bs"
  using assms by (simp add: acmp_frame_def avdecc_eth_hdr_def AVDECC_MCAST_ADDR_def stored_be16)

lemma acmp_command_frame:
  assumes "length (v_src_mac s) = 6" and "length (acmp_command msg s r sid) = 70"
  shows "acmp_frame (acmp_command msg s r sid)"
proof -
  have "stored (mem_of (acmp_command msg s r sid)) 0 (avdecc_eth_hdr (v_src_mac s)) \<and> mem_of (acmp_command msg s r sid) 14 = AVTP_SUBTYPE_ACMP"
    using stored_mem_of [of "acmp_command msg s r sid"] assms(1) by (simp add: acmp_command_def)
  then show ?thesis using assms by (auto intro: eth_hdr_acmp_frame)
qed

text \<open>What the ACMP handlers make of it, on the board.\<close>

lemma rx_acmp_frame:
  assumes "acmp_frame bs" and "acmp_process_rx board_callbacks (mem_of bs) (of_nat (length bs)) (b_avdecc b, h, b) = (v, k, c)"
  shows "board_avdecc_rx (mem_of bs) (of_nat (length bs)) (b, h) = (c\<lparr>b_avdecc := v\<rparr>, k)"
proof -
  have "\<not> (of_nat (length bs) :: u32) < 14 + 4" using acmp_frame_length(2) [OF assms(1)] by (auto simp: word_less_nat_alt word_le_nat_alt)
  then show ?thesis using assms
    by (simp add: board_avdecc_rx_def avdecc_process_rx_def acmp_frame_def AVTP_SUBTYPE_ACMP_def AVTP_SUBTYPE_ADP_def Let_def)
qed

section \<open>The three receptions\<close>

text \<open>The listener takes the request and asks the talker.\<close>

lemma request_leg:
  fixes p :: mem
  assumes ids: "avd_ids (b_avdecc b)" and bs: "acmp_frame bs" "carries r bs" and p: "p = (\<lambda>i. mem_of bs (14 + i))"
    and req: "slow_request (b_avdecc b) p" and run: "dispatch_frame r (b, h) = (b', h')"
  defines "f1 \<equiv> acmp_command ACMP_MSG_CONNECT_TX_COMMAND (b_avdecc b)
      (pending_of p (b_avdecc b) h) (zeros 8)"
  shows "v_resolves (b_avdecc b') = (v_resolves (b_avdecc b))[unat (get_be16 p ACMP_OFF_LISTENER_UID) := pending_of p (b_avdecc b) h]"
    and "v_entity_id (b_avdecc b') = v_entity_id (b_avdecc b)" "v_src_mac (b_avdecc b') = v_src_mac (b_avdecc b)"
    and "hw_sent h' = hw_sent h @ [f1]" "acmp_frame f1" "length f1 = 70"
proof -
  have pend: "pending_of q s k = pending_of q s h" if "peek_ms k = peek_ms h" for q s k using that by (simp add: pending_of_def)
  obtain b1 h1 where d: "dispatch_frame r (b, h) = board_avdecc_rx (mem_of bs) (of_nat (length bs)) (b1, h1)"
    "b_avdecc b1 = b_avdecc b" "hw_sent h1 = hw_sent h" "peek_ms h1 = peek_ms h"
    by (rule dispatch_acmp [OF bs, of b h undefined])
  have len70: "length f1 = 70"
    using ids by (simp add: f1_def acmp_command_pdu acmp_pdu_length acmp_st_cdl_def avd_ids_def pending_of_def)
  note f1 = command_fields [OF ids refl, of p h, folded f1_def]
  show "length f1 = 70" by (rule len70)
  then show "acmp_frame f1" using ids by (simp add: f1_def acmp_command_frame avd_ids_def)
  note take = slow_request_taken [OF req [unfolded p] acmp_frame_length(2) [OF bs(1)], of board_callbacks h1 b1, folded p]
  note t = take [unfolded pend [OF d(4)], folded f1_def]
  have e: "(b', h') = (b1\<lparr>b_avdecc := (b_avdecc b)\<lparr>v_acmp_rx_count := v_acmp_rx_count (b_avdecc b) + 1,
        v_next_acmp_seq := v_next_acmp_seq (b_avdecc b) + 1,
        v_resolves := (v_resolves (b_avdecc b))[unat (get_be16 p ACMP_OFF_LISTENER_UID) := pending_of p (b_avdecc b) h],
        v_acmp_tx_count := v_acmp_tx_count (b_avdecc b) + 1\<rparr>\<rparr>, avdecc_send f1 (tick_time h1))"
    using rx_acmp_frame [OF bs(1), of b1 h1, unfolded d(2), OF t] run unfolding d(1) by simp
  show "hw_sent h' = hw_sent h @ [f1]"
    using e avdecc_send_sent [of f1 "tick_time h1"] len70 d(3) by simp
  show "v_resolves (b_avdecc b') = (v_resolves (b_avdecc b))[unat (get_be16 p ACMP_OFF_LISTENER_UID) := pending_of p (b_avdecc b) h]"
    "v_entity_id (b_avdecc b') = v_entity_id (b_avdecc b)" "v_src_mac (b_avdecc b') = v_src_mac (b_avdecc b)"
    using e by simp_all
qed

text \<open>The talker starts its stream and answers.\<close>

definition sends :: "board \<Rightarrow> u8 list \<Rightarrow> u8 list \<Rightarrow> bool" where
  "sends b sid dst \<longleftrightarrow> talker_on b \<and> pk_sid_hi (b_pkt b) = be32_at sid 0 \<and> pk_sid_lo (b_pkt b) = be32_at sid 4
     \<and> pk_dst_hi (b_pkt b) = be16_at dst 0 \<and> pk_dst_lo (b_pkt b) = be32_at dst 2"

lemma on_talker_connect_sends:
  "sends (fst (on_talker_connect 0 (b, h))) (a_stream_id (b_aaf b)) (a_dest_mac (b_aaf b))"
  "s_talker (b_srp (fst (on_talker_connect 0 (b, h)))) = s_talker (b_srp b)"
  by (simp_all add: sends_def talker_connect_effect)
    (simp_all add: on_talker_connect_def on_eq aaf_gw_set_def aaf_gw_push_binding_def aaf_tx_enable_def srp_talker_enable_def
      mcr_sample_count_read_def board_uids Let_def)

lemma sends_avdecc [simp]: "sends (b\<lparr>b_avdecc := v\<rparr>) sid dst = sends b sid dst"
  by (simp add: sends_def talker_on_def)

lemma connect_tx_sends:
  assumes "to_talker ACMP_MSG_CONNECT_TX_COMMAND frame len (b_avdecc b)" and "board_avdecc_rx frame len (b, h) = (b', h')"
  shows "sends b' (a_stream_id (b_aaf b)) (a_dest_mac (b_aaf b))" "s_talker (b_srp b') = s_talker (b_srp b)"
proof -
  have len': "\<not> len < 14 + of_nat ACMPDU_LEN" using assms(1) by (auto simp: to_talker_def ACMPDU_LEN_def Let_def word_less_nat_alt word_le_nat_alt)
  note sends = on_talker_connect_sends [of "c\<lparr>b_avdecc := v\<rparr>" for c v]
  show "sends b' (a_stream_id (b_aaf b)) (a_dest_mac (b_aaf b))" "s_talker (b_srp b') = s_talker (b_srp b)"
    using assms len' sends unfolding rx_acmp [OF assms(1)]
    by (auto simp: to_talker_def acmp_process_rx_def acmp_handle_connect_tx_def acmp_msg_codes AVDECC_MAX_TALKERS_def board_callbacks_def
        from_avdecc_eq lift_w_def Let_def case_prod_unfold)
qed

lemma answer_leg:
  fixes p :: mem and bL :: board and hL :: hw
  defines "f1 \<equiv> acmp_command ACMP_MSG_CONNECT_TX_COMMAND (b_avdecc bL) (pending_of p (b_avdecc bL) hL) (zeros 8)"
  assumes req: "slow_request (b_avdecc bL) p" "avd_ids (b_avdecc bL)"
    and dest: "bytes p ACMP_OFF_TALKER_ID 8 = v_entity_id (b_avdecc b)" "get_be16 p ACMP_OFF_TALKER_UID = 0"
    and ok: "board_ok base (b, h)" "avd_ids (b_avdecc b)" and f1: "acmp_frame f1" "length f1 = 70" "carries r f1"
    and run: "dispatch_frame r (b, h) = (b', h')"
  obtains f2 where "hw_sent h' = hw_sent h @ [f2]" "acmp_frame f2" "length f2 = 70"
    "answer_pdu (\<lambda>i. mem_of f2 (14 + i)) (b_avdecc bL) (b_avdecc b)"
    "v_talkers (b_avdecc b') = [talker_bound p (v_talkers (b_avdecc b) ! 0)]"
    "sends b' (a_stream_id (b_aaf b)) (a_dest_mac (b_aaf b))"
proof -
  obtain b1 h1 where d: "dispatch_frame r (b, h) = board_avdecc_rx (mem_of f1) 70 (b1, h1)"
    "b_avdecc b1 = b_avdecc b" "b_aaf b1 = b_aaf b" "hw_sent h1 = hw_sent h"
    by (rule dispatch_acmp [OF f1(1,3), of b h base]) (simp add: f1)
  have avd: "avd_ok (b_avdecc b)" using ok by (simp add: board_ok_def)
  obtain t k c f2 where leg: "acmp_process_rx board_callbacks (mem_of f1) 70 (b_avdecc b, h1, b1) = (t, k, c)"
    "v_talkers t = [talker_bound p (v_talkers (b_avdecc b) ! 0)]" "hw_sent k = hw_sent h1 @ [f2]" "length f2 = 70"
    "answer_pdu (\<lambda>i. mem_of f2 (14 + i)) (b_avdecc bL) (b_avdecc b)" "stored (mem_of f2) 0 (avdecc_eth_hdr (v_src_mac (b_avdecc b)))"
    by (rule board.talker_leg [OF refl req(1) dest req(2) avd ok(2), of hL h1 b1, folded f1_def])
  have e: "b' = c\<lparr>b_avdecc := t\<rparr>" "h' = k"
    using rx_acmp_frame [OF f1(1), of b1 h1, unfolded d(2) f1(2)] leg(1) run d(1) by simp_all
  have "to_talker ACMP_MSG_CONNECT_TX_COMMAND (mem_of f1) 70 (b_avdecc b1)"
    using command_fields [OF req(2) refl, of p hL, folded f1_def] f1(1) dest by (simp add: to_talker_def d(2) acmp_frame_def)
  then have "sends b' (a_stream_id (b_aaf b)) (a_dest_mac (b_aaf b))"
    using connect_tx_sends(1) [of "mem_of f1" 70 b1 h1 b' h'] run d by simp
  moreover have "acmp_frame f2"
    using leg(4-6) ok(2) by (intro eth_hdr_acmp_frame [of _ "v_src_mac (b_avdecc b)"]) (simp_all add: answer_pdu_def avd_ids_def)
  ultimately show thesis using leg e d(4) by (intro that [of f2]) simp_all
qed

text \<open>The listener binds to the stream of the answer.\<close>

lemma binding_leg:
  assumes ok: "board_ok base (b, h)" "0 < base" and ids: "length (v_src_mac (b_avdecc b)) = 6" "length (v_entity_id (b_avdecc b)) = 8"
    and fr: "acmp_frame fr" "length fr = 70" "carries r fr" "answer_pdu (\<lambda>i. mem_of fr (14 + i)) sL sT"
    and open_request: "v_resolves (b_avdecc b) = rs[i := q]" "find_resolve (v_next_acmp_seq sL) 0 rs = None" "i < length rs"
      "vr_active q \<noteq> 0" "vr_our_seq_id q = v_next_acmp_seq sL" "resolve_ok q"
    and same: "v_entity_id (b_avdecc b) = v_entity_id sL"
    and stream: "\<not> stream_id_is_zero (vt_stream_id (v_talkers sT ! 0))" and run: "dispatch_frame r (b, h) = (b', h')"
  defines "sid \<equiv> vt_stream_id (v_talkers sT ! 0)" and "dst \<equiv> vt_dest_mac (v_talkers sT ! 0)"
  shows "listens i sid dst (b', h')" "vl_talker_id (v_listeners (b_avdecc b') ! i) = vr_talker_id q"
    "vr_active (v_resolves (b_avdecc b') ! i) = 0"
    "\<exists>fs n v. hw_sent h' = hw_sent h @ fs @ [deferred_frame (b_avdecc b) q n ACMP_STATUS_SUCCESS sid dst v]"
proof -
  obtain b1 h1 where d: "dispatch_frame r (b, h) = board_avdecc_rx (mem_of fr) 70 (b1, h1)" "b_avdecc b1 = b_avdecc b"
    "hw_sent h1 = hw_sent h" "board_ok base (b1, h1)"
    by (rule dispatch_acmp [OF fr(1,3), of b h base]) (simp add: fr(2) ok(1))
  note ans = fr(4) [unfolded answer_pdu_def]
  have at: "v_resolves (b_avdecc b1) ! i = q" using open_request(1,3) by (simp add: d(2))
  have "answers_request (mem_of fr) 70 (b_avdecc b1) i"
    using ans stream same find_resolve_update [OF open_request(2), of i q] open_request by (simp add: answers_request_def d(2))
  note fin = answer_binds [OF d(4) ok(2) _ _ _ this, of b' h']
  have st: "answered_stream (mem_of fr) = sid" "answered_dest (mem_of fr) = dst"
    using ans by (simp_all add: answered_stream_def answered_dest_def sid_def dst_def)
  show "listens i sid dst (b', h')" "vl_talker_id (v_listeners (b_avdecc b') ! i) = vr_talker_id q"
    "vr_active (v_resolves (b_avdecc b') ! i) = 0"
    "\<exists>fs n v. hw_sent h' = hw_sent h @ fs @ [deferred_frame (b_avdecc b) q n ACMP_STATUS_SUCCESS sid dst v]"
    using fin run d(1,3) ids open_request(6) unfolding at st by (simp_all add: d(2))
qed

section \<open>A connection, from the request to the stream\<close>

text \<open>
  The board's talker speaks under its own name: the stream id and address its packets carry are
  those it answers controllers with and declares to the bridge.
\<close>

definition own_identity :: "board \<Rightarrow> bool" where
  "own_identity b \<longleftrightarrow> a_stream_id (b_aaf b) = vt_stream_id (v_talkers (b_avdecc b) ! 0)
     \<and> a_dest_mac (b_aaf b) = vt_dest_mac (v_talkers (b_avdecc b) ! 0)
     \<and> ta_stream_id (s_talker (b_srp b)) = vt_stream_id (v_talkers (b_avdecc b) ! 0)
     \<and> ta_dest_addr (s_talker (b_srp b)) = vt_dest_mac (v_talkers (b_avdecc b) ! 0)"

lemma boot_identity: "own_identity (fst (main_init clk (board_zero tns we, h)))"
  by (simp add: own_identity_def main_init_def aaf_init_def srp_talker_set_def avdecc_set_talker_stream_def avdecc_init_def
      avdecc_zero_def TALKER_UID_AAF_def AVDECC_MAX_TALKERS_def Let_def case_prod_unfold)

text \<open>Between two receptions a board may do anything that leaves its pending requests as they are.\<close>

definition still_waiting :: "board \<Rightarrow> board \<Rightarrow> bool" where
  "still_waiting b b' \<longleftrightarrow> v_resolves (b_avdecc b') = v_resolves (b_avdecc b) \<and> v_entity_id (b_avdecc b') = v_entity_id (b_avdecc b)
     \<and> v_src_mac (b_avdecc b') = v_src_mac (b_avdecc b)"

text \<open>
  C1.  Two boards connect.  A controller asks listener \<open>i\<close> of one board to connect to the talker
  of another.  The listener's board sends a command, that frame received by the talker's board
  starts its stream and is answered, and that answer, received while the request is still
  pending -- whatever else the board did in between -- binds the listener.  At the end the
  packetizer of the one board and the listener entry, the stream reservation, the engine and
  (for audio) the hardware filter of the other name the same stream id and address, the request
  is closed, each side records the other, and the controller has been told of success under the
  sequence number of its request.  Every frame may or may not carry a VLAN tag.  The talker's
  board must still speak under its own name, as it does from boot on until a listener binds.
\<close>

theorem two_boards_connect:
  fixes bs :: "u8 list" and bL bT :: board
  defines "p \<equiv> \<lambda>i. mem_of bs (14 + i)"
  defines "i \<equiv> unat (get_be16 p ACMP_OFF_LISTENER_UID)" and "t \<equiv> v_talkers (b_avdecc bT) ! 0"
  assumes L: "board_ok baseL (bL, hL)" "0 < baseL" "avd_ids (b_avdecc bL)"
    and T: "board_ok baseT (bT, hT)" "avd_ids (b_avdecc bT)" "own_identity bT" "\<not> stream_id_is_zero (vt_stream_id t)"
    and req: "acmp_frame bs" "carries r1 bs" "slow_request (b_avdecc bL) p"
      "bytes p ACMP_OFF_TALKER_ID 8 = v_entity_id (b_avdecc bT)" "get_be16 p ACMP_OFF_TALKER_UID = 0"
      "find_resolve (v_next_acmp_seq (b_avdecc bL)) 0 (v_resolves (b_avdecc bL)) = None"
    and ask: "dispatch_frame r1 (bL, hL) = (b1, h1)"
    and reply: "carries r2 (last (hw_sent h1))" "dispatch_frame r2 (bT, hT) = (bT', hT')"
    and meanwhile: "board_ok baseL (b2, h2)" "still_waiting b1 b2"
    and bind: "carries r3 (last (hw_sent hT'))" "dispatch_frame r3 (b2, h2) = (b3, h3)"
  shows "sends bT' (vt_stream_id t) (vt_dest_mac t) \<and> listens i (vt_stream_id t) (vt_dest_mac t) (b3, h3)
    \<and> v_talkers (b_avdecc bT') = [talker_bound p t]
    \<and> vl_talker_id (v_listeners (b_avdecc b3) ! i) = v_entity_id (b_avdecc bT) \<and> vr_active (v_resolves (b_avdecc b3) ! i) = 0
    \<and> (\<exists>n v. last (hw_sent h3) = avdecc_eth_hdr (v_src_mac (b_avdecc bL))
          @ acmp_pdu ACMP_MSG_CONNECT_RX_RESPONSE (acmp_st_cdl ACMP_STATUS_SUCCESS) (vt_stream_id t)
              (bytes p ACMP_OFF_CONTROLLER_ID 8) (v_entity_id (b_avdecc bT)) (v_entity_id (b_avdecc bL)) 0
              (get_be16 p ACMP_OFF_LISTENER_UID) (vt_dest_mac t) n (get_be16 p ACMP_OFF_SEQ_ID) 0 v)"
proof -
  let ?u = "get_be16 p ACMP_OFF_LISTENER_UID"
  define q where "q = pending_of p (b_avdecc bL) hL"
  note leg1 = request_leg [OF L(3) req(1,2) p_def [THEN meta_eq_to_obj_eq] req(3) ask]
  have f1: "last (hw_sent h1) = acmp_command ACMP_MSG_CONNECT_TX_COMMAND (b_avdecc bL) (pending_of p (b_avdecc bL) hL) (zeros 8)"
    using leg1(4) by simp
  obtain f2 where leg2: "hw_sent hT' = hw_sent hT @ [f2]" "acmp_frame f2" "length f2 = 70"
    "answer_pdu (\<lambda>i. mem_of f2 (14 + i)) (b_avdecc bL) (b_avdecc bT)"
    "v_talkers (b_avdecc bT') = [talker_bound p t]" "sends bT' (a_stream_id (b_aaf bT)) (a_dest_mac (b_aaf bT))"
    by (rule answer_leg [OF req(3) L(3) req(4,5) T(1,2) leg1(5,6) reply(1) [unfolded f1] reply(2), folded t_def])
  have f2: "last (hw_sent hT') = f2" using leg2(1) by simp
  have u: "?u = 0 \<or> ?u = 1" using req(3) uid_01 [of ?u] by (simp add: slow_request_def)
  then have i: "i < length (v_resolves (b_avdecc bL))" using L(1) by (auto simp: i_def board_ok_def avd_ok_def)
  have q: "ucast (vr_listener_uid q) = ?u" "vr_active q \<noteq> 0" "resolve_ok q" "vr_talker_id q = v_entity_id (b_avdecc bT)" "vr_talker_uid q = 0"
    "vr_our_seq_id q = v_next_acmp_seq (b_avdecc bL)"
    "vr_ctrl_eid_orig q = bytes p ACMP_OFF_CONTROLLER_ID 8" "vr_ctrl_seq_id_orig q = get_be16 p ACMP_OFF_SEQ_ID"
    using u req(4,5) T(2) by (auto simp: q_def pending_of_def resolve_ok_def avd_ids_def)
  have s2: "v_resolves (b_avdecc b2) = (v_resolves (b_avdecc bL))[i := q]" "v_entity_id (b_avdecc b2) = v_entity_id (b_avdecc bL)"
    "v_src_mac (b_avdecc b2) = v_src_mac (b_avdecc bL)"
    using meanwhile(2) leg1(1-3) by (simp_all add: still_waiting_def q_def i_def)
  have ids: "length (v_src_mac (b_avdecc b2)) = 6" "length (v_entity_id (b_avdecc b2)) = 8" using L(3) by (simp_all add: s2 avd_ids_def)
  note leg3 = binding_leg [OF meanwhile(1) L(2) ids leg2(2,3) bind(1) [unfolded f2] leg2(4) s2(1) req(6) i q(2,6,3) s2(2)
      T(4) [unfolded t_def] bind(2), folded t_def]
  have "a_stream_id (b_aaf bT) = vt_stream_id t" "a_dest_mac (b_aaf bT) = vt_dest_mac t"
    using T(3) by (simp_all add: own_identity_def t_def)
  moreover obtain n v where "last (hw_sent h3) = deferred_frame (b_avdecc b2) q n ACMP_STATUS_SUCCESS (vt_stream_id t) (vt_dest_mac t) v"
    using leg3(4) by force
  ultimately show ?thesis
    using leg2(5,6) leg3(1-3) q unfolding deferred_frame_def s2 by (simp only: ex_simps) blast
qed

definition slot_of :: "u8 list \<Rightarrow> rx_slot" where
  "slot_of bs = \<lparr>rx_ts = \<lparr>seconds = 0, nanoseconds = 0\<rparr>, rx_mem = mem_of bs, rx_len = of_nat (length bs)\<rparr>"

lemma slot_of_carries: "acmp_frame bs \<Longrightarrow> carries (slot_of bs) bs"
  using acmp_frame_length(1) [of bs] by (simp add: carries_def untagged_def slot_of_def bytes_mem_of)

definition demo_request :: "u8 list" where
  "demo_request = zeros 12 @ [0x22, 0xF0, 0xFC, 6, 0, 44] @ zeros 8 @ [1, 2, 3, 4, 5, 6, 7, 8]
     @ [2, 0, 0, 0xFF, 0xFE, 0, 0, 0x42] @ [2, 0, 0, 0xFF, 0xFE, 0, 0, 0x42] @ [0, 0, 0, 1] @ zeros 8 @ [0, 9] @ zeros 6"

lemma demo_request_reads:
  "length demo_request = 70" "get_be16 (mem_of demo_request) 12 = 0x22F0" "mem_of demo_request 14 = 0xFC" "mem_of demo_request 15 AND 0x0F = 6"
  "bytes (\<lambda>i. mem_of demo_request (14 + i)) ACMP_OFF_LISTENER_ID 8 = [2, 0, 0, 0xFF, 0xFE, 0, 0, 0x42]"
  "bytes (\<lambda>i. mem_of demo_request (14 + i)) ACMP_OFF_TALKER_ID 8 = [2, 0, 0, 0xFF, 0xFE, 0, 0, 0x42]"
  "bytes (\<lambda>i. mem_of demo_request (14 + i)) ACMP_OFF_STREAM_ID 8 = zeros 8"
  "bytes (\<lambda>i. mem_of demo_request (14 + i)) ACMP_OFF_STREAM_DEST_MAC 6 = zeros 6"
  "get_be16 (\<lambda>i. mem_of demo_request (14 + i)) ACMP_OFF_TALKER_UID = 0" "get_be16 (\<lambda>i. mem_of demo_request (14 + i)) ACMP_OFF_LISTENER_UID = 1"
  by code_simp+

lemma no_open_request: "find_resolve n i (replicate k resolve_zero) = None"
  by (induction k arbitrary: i) (simp_all add: resolve_zero_def)

lemma demo_boot_streams:
  "vt_stream_id (v_talkers (b_avdecc (fst demo_boot)) ! 0) = [2, 0, 0, 0, 0, 0x42, 0, 1]"
  "length (vt_dest_mac (v_talkers (b_avdecc (fst demo_boot)) ! 0)) = 6" "find_resolve n 0 (v_resolves (b_avdecc (fst demo_boot))) = None"
  by (simp_all add: demo_boot_def main_init_def avdecc_init_def avdecc_set_talker_stream_def avdecc_zero_def aaf_init_def
      TALKER_UID_AAF_def AVDECC_MAX_TALKERS_def no_open_request mac_addr_def Let_def case_prod_unfold)

theorem two_boards_connect_witness:
  "\<exists>b1 h1 bT' hT' b3 h3. dispatch_frame (slot_of demo_request) demo_boot = (b1, h1)
     \<and> dispatch_frame (slot_of (last (hw_sent h1))) demo_boot = (bT', hT')
     \<and> dispatch_frame (slot_of (last (hw_sent hT'))) (b1, h1) = (b3, h3)
     \<and> pk_enable (b_pkt bT') = 1 \<and> pk_sid_lo (b_pkt bT') = fs_sid_lo (b_slot0 b3) \<and> fs_enabled (b_slot0 b3) = 1
     \<and> a_stream_id (b_aaf b3) = [2, 0, 0, 0, 0, 0x42, 0, 1]"
proof -
  let ?p = "\<lambda>i. mem_of demo_request (14 + i)" and ?s = "b_avdecc (fst demo_boot)"
  have nz8: "[2, 0, 0, 0xFF, 0xFE, 0, 0, 0x42] \<noteq> zeros 8" by code_simp
  have ids: "avd_ids ?s" by (simp add: avd_ids_def demo_boot_ids mac_addr_def demo_boot_streams)
  have fr: "acmp_frame demo_request"
    by (simp add: acmp_frame_def demo_request_reads AVDECC_ETHERTYPE_def AVTP_SUBTYPE_ACMP_def)
  have req: "slow_request ?s ?p"
    using demo_request_reads(4) by (simp add: slow_request_def demo_request_reads demo_boot_ids ACMP_MSG_CONNECT_RX_COMMAND_def
        AVDECC_MAX_LISTENERS_def nz8)
  have dest: "bytes ?p ACMP_OFF_TALKER_ID 8 = v_entity_id ?s" "get_be16 ?p ACMP_OFF_TALKER_UID = 0"
    by (simp_all add: demo_request_reads demo_boot_ids)
  obtain b1 h1 where 1: "dispatch_frame (slot_of demo_request) (fst demo_boot, snd demo_boot) = (b1, h1)" by fastforce
  note l1 = request_leg [OF ids fr slot_of_carries [OF fr] refl req 1]
  have f1: "acmp_frame (last (hw_sent h1))" using l1(4,5) by simp
  obtain bT' hT' where 2: "dispatch_frame (slot_of (last (hw_sent h1))) (fst demo_boot, snd demo_boot) = (bT', hT')" by fastforce
  have ok: "board_ok 4123169 (fst demo_boot, snd demo_boot)" using demo_boot_ok by simp
  have "acmp_frame (last (hw_sent hT'))"
    by (rule answer_leg [OF req ids dest ok ids l1(5,6) _ 2 [unfolded l1(4) last_snoc]]) (use l1(5) slot_of_carries in simp_all)
  note f2 = slot_of_carries [OF this]
  obtain b3 h3 where 3: "dispatch_frame (slot_of (last (hw_sent hT'))) (b1, h1) = (b3, h3)" by fastforce
  have ok1: "board_ok 4123169 (b1, h1)" using dispatch_frame_ok [OF _ ok, of "slot_of demo_request"] 1 by simp
  have id: "own_identity (fst demo_boot)" unfolding demo_boot_def by (rule boot_identity)
  have nz: "\<not> stream_id_is_zero (vt_stream_id (v_talkers ?s ! 0))" unfolding demo_boot_streams by code_simp
  show ?thesis
    using two_boards_connect [OF ok _ ids ok ids id nz fr slot_of_carries [OF fr] req dest demo_boot_streams(3) 1 slot_of_carries [OF f1] 2 ok1 _ f2 3]
      1 2 3 by (auto simp: still_waiting_def demo_request_reads demo_boot_streams sends_def talker_on_def listens_def)
qed

section \<open>A listener takes over the talker's name\<close>

lemma listener_connect_keeps_talker:
  assumes "on_listener_connect uid sid dst tid (b, h) = (b', h')"
  shows "s_talker (b_srp b') = s_talker (b_srp b)" "a_dest_mac (b_aaf b') = a_dest_mac (b_aaf b)"
  using assms
  by (auto simp: on_listener_connect_def bind_engine_def on_eq srp_listener_enable_def gptp_uptime_ms_eq set_listener_def
      avtp_filter_set_slot_def board_uids aaf_bind_def Let_def split: if_splits)

lemma answer_keeps_talker:
  assumes "board_ok base (b, h)" and "answers_request frame len (b_avdecc b) i" and "board_avdecc_rx frame len (b, h) = (b', h')"
  shows "s_talker (b_srp b') = s_talker (b_srp b)" "a_dest_mac (b_aaf b') = a_dest_mac (b_aaf b)"
proof -
  have "avd_ok (b_avdecc b)" using assms(1) by (simp add: board_ok_def)
  note cb = answer_callback [OF this assms(2,3)]
  show "s_talker (b_srp b') = s_talker (b_srp b)" "a_dest_mac (b_aaf b') = a_dest_mac (b_aaf b)"
    by (rule cb; drule listener_connect_keeps_talker(1); simp) (rule cb; drule listener_connect_keeps_talker(2); simp)
qed

text \<open>
  C29.  A bound listener takes over the talker's name.  The audio engine keeps one stream id for
  both directions.  A board that spoke under its own name binds its audio listener to a remote
  stream, and is then asked to start its talker: the packetizer sends under the id of the
  remote stream (to the board's own address), while the board still declares its own id to the
  bridge.  The two ids differ whenever the remote stream is not the board's own.
\<close>

theorem listener_hijacks_talker:
  assumes ok: "board_ok base (b, h)" "0 < base" "own_identity b"
    and ids: "length (v_src_mac (b_avdecc b)) = 6" "length (v_entity_id (b_avdecc b)) = 8" "resolve_ok (v_resolves (b_avdecc b) ! 1)"
    and answer: "answers_request frame len (b_avdecc b) 1" "board_avdecc_rx frame len (b, h) = (b1, h1)"
    and start: "to_talker ACMP_MSG_CONNECT_TX_COMMAND f2 len2 (b_avdecc b)" "board_avdecc_rx f2 len2 (b1, h1) = (b2, h2)"
  shows "sends b2 (answered_stream frame) (vt_dest_mac (v_talkers (b_avdecc b) ! 0))
    \<and> ta_stream_id (s_talker (b_srp b2)) = vt_stream_id (v_talkers (b_avdecc b) ! 0)
    \<and> (answered_stream frame \<noteq> vt_stream_id (v_talkers (b_avdecc b) ! 0) \<longrightarrow> \<not> own_identity b1)"
proof -
  have l: "a_stream_id (b_aaf b1) = answered_stream frame"
    using answer_binds [OF ok(1,2) ids answer] by (simp add: listens_def)
  note k = answer_keeps_talker [OF ok(1) answer]
  have t: "to_talker ACMP_MSG_CONNECT_TX_COMMAND f2 len2 (b_avdecc b1)"
    using start(1) answer_binds [OF ok(1,2) ids answer] by (simp add: to_talker_def)
  have "ta_stream_id (s_talker (b_srp b1)) = vt_stream_id (v_talkers (b_avdecc b) ! 0)" using ok(3) k(1) by (simp add: own_identity_def)
  then have "answered_stream frame \<noteq> vt_stream_id (v_talkers (b_avdecc b) ! 0) \<longrightarrow> \<not> own_identity b1"
    using l by (auto simp: own_identity_def)
  moreover have "ta_stream_id (s_talker (b_srp b)) = vt_stream_id (v_talkers (b_avdecc b) ! 0)"
    "a_dest_mac (b_aaf b) = vt_dest_mac (v_talkers (b_avdecc b) ! 0)" using ok(3) by (simp_all add: own_identity_def)
  ultimately show ?thesis using connect_tx_sends [OF t start(2)] l k by simp
qed

theorem listener_hijacks_talker_witness:
  "\<exists>b1 h1 b2 h2. board_avdecc_rx (mem_of demo_answer) 70 (demo_waiting, snd demo_boot) = (b1, h1)
     \<and> board_avdecc_rx (mem_of (demo_acmp 0)) 70 (b1, h1) = (b2, h2)
     \<and> pk_sid_hi (b_pkt b2) = 0x01020304 \<and> ta_stream_id (s_talker (b_srp b2)) = [2, 0, 0, 0, 0, 0x42, 0, 1]"
proof -
  obtain b1 h1 where r1: "board_avdecc_rx (mem_of demo_answer) 70 (demo_waiting, snd demo_boot) = (b1, h1)" by fastforce
  obtain b2 h2 where r2: "board_avdecc_rx (mem_of (demo_acmp 0)) 70 (b1, h1) = (b2, h2)" by fastforce
  have ids: "length (v_src_mac (b_avdecc demo_waiting)) = 6" "length (v_entity_id (b_avdecc demo_waiting)) = 8"
    "resolve_ok (v_resolves (b_avdecc demo_waiting) ! 1)"
    by (simp_all add: demo_waiting_def demo_boot_ids mac_addr_def resolve_ok_def resolve_zero_def)
  have "own_identity (fst demo_boot)" unfolding demo_boot_def by (rule boot_identity)
  then have id: "own_identity demo_waiting" by (simp add: own_identity_def demo_waiting_def)
  have t: "to_talker ACMP_MSG_CONNECT_TX_COMMAND (mem_of (demo_acmp 0)) 70 (b_avdecc demo_waiting)"
    using demo_acmp_to_talker(1) by (simp add: to_talker_def demo_waiting_def acmp_msg_codes)
  have v: "v_talkers (b_avdecc demo_waiting) = v_talkers (b_avdecc (fst demo_boot))" by (simp add: demo_waiting_def)
  have w: "be32_at [1, 2, 3, 4, 5, 6, 7, 8] 0 = 0x01020304" by code_simp
  show ?thesis
    using listener_hijacks_talker [OF demo_waiting_ok _ id ids demo_answers r1 t r2] r1 r2
    by (simp add: sends_def demo_answer_reads v w demo_boot_streams)
qed

end
