(* ===== verification/Clocked.thy ===== *)
theory Clocked
  imports Wire
begin

text \<open>
  Clocked logic, as the gateware generators describe it.  A component is a record of registers
  with two functions: \<open>nxt i s\<close>, the registers after a clock edge at which the inputs are \<open>i\<close>
  (every right-hand side sees the old values), and \<open>out i s\<close>, what the component hands over in
  that cycle.  A run is a list of inputs, one per cycle.
\<close>

primrec clk_outs :: "('i \<Rightarrow> 's \<Rightarrow> 's) \<Rightarrow> ('i \<Rightarrow> 's \<Rightarrow> 'o list) \<Rightarrow> 'i list \<Rightarrow> 's \<Rightarrow> 'o list" where
  "clk_outs nxt out [] s = []"
| "clk_outs nxt out (i # is) s = out i s @ clk_outs nxt out is (nxt i s)"

lemma clk_outs_append [simp]: "clk_outs nxt out (is @ js) s = clk_outs nxt out is s @ clk_outs nxt out js (fold nxt is s)"
  by (induction "is" arbitrary: s) simp_all

lemma clk_outs_silent: "P s \<Longrightarrow> (\<And>i s. i \<in> set is \<Longrightarrow> P s \<Longrightarrow> out i s = [] \<and> P (nxt i s)) \<Longrightarrow> clk_outs nxt out is s = []"
  by (induction "is" arbitrary: s) auto

text \<open>A 32-bit beat of a byte stream: the first byte is in the low bits.\<close>

definition le32 :: "u8 list \<Rightarrow> u32" where
  "le32 bs = ucast (bs ! 0) OR push_bit 8 (ucast (bs ! 1)) OR push_bit 16 (ucast (bs ! 2)) OR push_bit 24 (ucast (bs ! 3))"

definition lane :: "nat \<Rightarrow> u32 \<Rightarrow> u8" where
  "lane k w = ucast (drop_bit (8 * k) w)"

lemma byte_high: "8 \<le> n \<Longrightarrow> \<not> bit (x :: u8) n"
  by (auto dest: bit_imp_le_length)

lemma lane_le32:
  assumes "k < 4"
  shows "lane k (le32 bs) = bs ! k"
proof -
  have "k = 0 \<or> k = 1 \<or> k = 2 \<or> k = 3" using assms by auto
  then show ?thesis
    by (auto intro!: bit_word_eqI simp: lane_def le32_def bit_simps byte_high)
qed

text \<open>The bytes of a frame as beats; the last beat is filled up with zeros.\<close>

definition beat :: "u8 list \<Rightarrow> nat \<Rightarrow> u32" where
  "beat bs w = le32 (map (\<lambda>k. if k < length bs then bs ! k else 0) [4 * w..<4 * w + 4])"

lemma lane_beat: "k < 4 \<Longrightarrow> lane k (beat bs w) = (if 4 * w + k < length bs then bs ! (4 * w + k) else 0)"
  by (simp add: beat_def lane_le32)

text \<open>Addresses and stream ids as the registers hold them: the high and the low part.\<close>

definition sig48 :: "u32 \<Rightarrow> u32 \<Rightarrow> 48 word" where
  "sig48 hi lo = push_bit 32 (ucast (hi AND 0xFFFF)) OR ucast lo"

definition sig64 :: "u32 \<Rightarrow> u32 \<Rightarrow> u64" where
  "sig64 hi lo = push_bit 32 (ucast hi) OR ucast lo"

text \<open>
  A beat on a stream of the MAC: data, whether it is the last, and its enabled bytes; a frame as
  beats has its last one marked.
\<close>

type_synonym mac_beat = "u32 \<times> bool \<times> nat"

definition mac_beats :: "u8 list \<Rightarrow> mac_beat list" where
  "mac_beats bs = (let n = (length bs + 3) div 4
     in map (\<lambda>w. (beat bs w, w = n - 1, if w = n - 1 then (if length bs mod 4 = 0 then 0xF else 2 ^ (length bs mod 4) - 1) else 0xF)) [0..<n])"

end
