(* ===== verification/Extractor.thy ===== *)
theory Extractor
  imports Board Clocked
begin

text \<open>
  The gateware listeners on the receive stream: the sample extractor (avtp_extractor.py, in the
  size avb_soc.py gives it: one slot, two of the eight channels stored) and the CRF timestamp
  extractor (crf_extractor.py).  Both watch the beats of every received frame.  The registers of
  the slot are \<open>filter_slot\<close> of \<open>Board\<close>.  The FIFOs are not part of the repository: what an
  extractor writes to them is its output, whether they have room is an input.
\<close>

section \<open>Words from registers and beats\<close>

text \<open>Byte \<open>off\<close> of the captured header.\<close>

definition hdr_byte :: "u32 list \<Rightarrow> nat \<Rightarrow> u8" where
  "hdr_byte ws off = lane (off mod 4) (ws ! (off div 4))"

text \<open>Bytes as one number, the first byte in the highest bits.\<close>

definition be_word :: "u8 list \<Rightarrow> 'a :: len word" where
  "be_word bs = fold (\<lambda>b w. push_bit 8 w OR ucast b) bs 0"

definition vlan_comb :: "u32 list \<Rightarrow> bool" where
  "vlan_comb ws \<longleftrightarrow> hdr_byte ws 12 = 0x81 \<and> hdr_byte ws 13 = 0x00"

definition subtype_comb :: "u32 list \<Rightarrow> u8" where
  "subtype_comb ws = (if vlan_comb ws then hdr_byte ws 18 else hdr_byte ws 14)"

definition sid_comb :: "u32 list \<Rightarrow> u64" where
  "sid_comb ws = be_word (map (\<lambda>k. if vlan_comb ws then hdr_byte ws (22 + k) else hdr_byte ws (18 + k)) [0..<8])"

definition dst_mac_comb :: "u32 list \<Rightarrow> 48 word" where
  "dst_mac_comb ws = be_word (map (hdr_byte ws) [0..<6])"

section \<open>The sample extractor\<close>

datatype ex_state = ExIdle | ExPrime | ExWarm | ExStream

record xtr =
  x_frame_buf :: "u32 list"
  x_rd_adr :: nat
  x_beat_idx :: nat
  x_frame_len :: nat
  x_hdr_words :: "u32 list"
  x_vlan_b :: bool
  x_subtype_b :: u8
  x_dst_mac_b :: "48 word"
  x_sid_b :: u64
  x_eof_b :: bool
  x_frame_len_b :: nat
  x_match_c :: bool
  x_eof_c :: bool
  x_frame_len_c :: nat
  x_vlan_c :: bool
  x_eof_count :: u32
  x_last_sid :: u64
  x_last_dst_mac :: "48 word"
  x_last_subtype :: u8
  x_state :: ex_state
  x_sample_n :: nat
  x_beat_addr :: nat
  x_prev_word :: u32
  x_match_count :: u32
  x_sample_count :: u32

record xtr_in =
  r_valid :: bool
  r_data :: u32
  r_last :: bool
  r_writable :: "nat \<Rightarrow> bool"

definition xtr_reset :: xtr where
  "xtr_reset = \<lparr>x_frame_buf = replicate 64 0, x_rd_adr = 0, x_beat_idx = 0, x_frame_len = 0, x_hdr_words = replicate 8 0,
     x_vlan_b = False, x_subtype_b = 0, x_dst_mac_b = 0, x_sid_b = 0, x_eof_b = False, x_frame_len_b = 0, x_match_c = False,
     x_eof_c = False, x_frame_len_c = 0, x_vlan_c = False, x_eof_count = 0, x_last_sid = 0, x_last_dst_mac = 0,
     x_last_subtype = 0, x_state = ExIdle, x_sample_n = 0, x_beat_addr = 0, x_prev_word = 0, x_match_count = 0,
     x_sample_count = 0\<rparr>"

definition BUF_BEATS :: nat where "BUF_BEATS = 64"
definition WIRE_CHANNELS :: nat where "WIRE_CHANNELS = 8"
definition N_CHANNELS :: nat where "N_CHANNELS = 2"
definition SAMPLES_PER_FRAME :: nat where "SAMPLES_PER_FRAME = 6 * WIRE_CHANNELS"

text \<open>The beat counter, the frame buffer and the header words.\<close>

definition capture_next :: "xtr_in \<Rightarrow> xtr \<Rightarrow> xtr \<Rightarrow> xtr" where
  "capture_next i x x' =
     (if r_valid i then
        x'\<lparr>x_frame_buf := (if x_beat_idx x < BUF_BEATS then (x_frame_buf x)[x_beat_idx x := r_data i] else x_frame_buf x),
           x_hdr_words := (if x_beat_idx x < 8 then (x_hdr_words x)[x_beat_idx x := r_data i] else x_hdr_words x),
           x_beat_idx := (if r_last i then 0 else if x_beat_idx x < BUF_BEATS then x_beat_idx x + 1 else x_beat_idx x),
           x_frame_len := (if r_last i then x_beat_idx x + 1 else x_frame_len x)\<rparr>
      else x')"

text \<open>Stage B latches the keys at the end of a frame, stage C compares them with the slot.\<close>

definition frame_done :: "xtr_in \<Rightarrow> bool" where "frame_done i \<longleftrightarrow> r_valid i \<and> r_last i"

definition stage_b_next :: "xtr_in \<Rightarrow> xtr \<Rightarrow> xtr \<Rightarrow> xtr" where
  "stage_b_next i x x' =
     (let x1 = x'\<lparr>x_eof_b := frame_done i\<rparr>
      in if frame_done i
         then x1\<lparr>x_vlan_b := vlan_comb (x_hdr_words x), x_subtype_b := subtype_comb (x_hdr_words x),
                 x_dst_mac_b := dst_mac_comb (x_hdr_words x), x_sid_b := sid_comb (x_hdr_words x),
                 x_frame_len_b := x_beat_idx x + 1\<rparr>
         else x1)"

definition slot_matches :: "filter_slot \<Rightarrow> 48 word \<Rightarrow> u64 \<Rightarrow> bool" where
  "slot_matches fs dst sid \<longleftrightarrow> bit (fs_enabled fs) 0 \<and> sig48 (fs_mac_hi fs) (fs_mac_lo fs) = dst \<and> sig64 (fs_sid_hi fs) (fs_sid_lo fs) = sid"

definition stage_c_next :: "filter_slot \<Rightarrow> xtr \<Rightarrow> xtr \<Rightarrow> xtr" where
  "stage_c_next fs x x' =
     (let x1 = x'\<lparr>x_eof_c := x_eof_b x\<rparr>
      in if x_eof_b x
         then x1\<lparr>x_match_c := slot_matches fs (x_dst_mac_b x) (x_sid_b x) \<and> x_subtype_b x = AVTP_SUBTYPE_AAF,
                 x_frame_len_c := x_frame_len_b x, x_vlan_c := x_vlan_b x, x_eof_count := x_eof_count x + 1,
                 x_last_sid := x_sid_b x, x_last_dst_mac := x_dst_mac_b x, x_last_subtype := x_subtype_b x\<rparr>
         else x1)"

text \<open>In the cycle of the last beat of a frame: the frame is kept from the CPU.\<close>

definition match_at_eof :: "filter_slot \<Rightarrow> xtr_in \<Rightarrow> xtr \<Rightarrow> bool" where
  "match_at_eof fs i x \<longleftrightarrow> r_valid i \<and> r_last i \<and> subtype_comb (x_hdr_words x) = AVTP_SUBTYPE_AAF
     \<and> slot_matches fs (dst_mac_comb (x_hdr_words x)) (sid_comb (x_hdr_words x))"

text \<open>
  The replay of the frame buffer: the read port shows the word of the address of the cycle
  before, and a sample lies across two words.
\<close>

definition rd_dat :: "xtr \<Rightarrow> u32" where "rd_dat x = x_frame_buf x ! x_rd_adr x"

definition ex_sample :: "xtr \<Rightarrow> u32" where
  "ex_sample x = ucast (lane 1 (rd_dat x)) OR push_bit 8 (ucast (lane 0 (rd_dat x)))
     OR push_bit 16 (ucast (lane 3 (x_prev_word x))) OR push_bit 24 (ucast (lane 2 (x_prev_word x)))"

definition ex_ch_now :: "xtr \<Rightarrow> nat" where "ex_ch_now x = x_sample_n x mod WIRE_CHANNELS"

definition replay_next :: "xtr \<Rightarrow> xtr \<Rightarrow> xtr" where
  "replay_next x x' =
     (let x1 = x'\<lparr>x_rd_adr := x_beat_addr x mod 64\<rparr>
      in case x_state x of
           ExIdle \<Rightarrow> if x_eof_c x \<and> x_match_c x
                     then x1\<lparr>x_state := ExPrime, x_beat_addr := (if x_vlan_c x then 10 else 9), x_sample_n := 0\<rparr> else x1
         | ExPrime \<Rightarrow> x1\<lparr>x_state := ExWarm, x_beat_addr := (x_beat_addr x + 1) mod 128\<rparr>
         | ExWarm \<Rightarrow> x1\<lparr>x_prev_word := rd_dat x, x_state := ExStream, x_beat_addr := (x_beat_addr x + 1) mod 128\<rparr>
         | ExStream \<Rightarrow>
             let x2 = x1\<lparr>x_prev_word := rd_dat x, x_beat_addr := (x_beat_addr x + 1) mod 128\<rparr>
             in if x_sample_n x = SAMPLES_PER_FRAME - 1 then x2\<lparr>x_state := ExIdle\<rparr>
                else x2\<lparr>x_sample_n := (x_sample_n x + 1) mod 64\<rparr>)"

definition counters_next :: "xtr \<Rightarrow> xtr \<Rightarrow> xtr" where
  "counters_next x x' =
     (let x1 = (if x_eof_c x \<and> x_match_c x then x'\<lparr>x_match_count := x_match_count x + 1\<rparr> else x')
      in if x_state x = ExStream \<and> ex_ch_now x = 0 then x1\<lparr>x_sample_count := x_sample_count x + 1\<rparr> else x1)"

definition xtr_next :: "filter_slot \<Rightarrow> xtr_in \<Rightarrow> xtr \<Rightarrow> xtr" where
  "xtr_next fs i x = counters_next x (replay_next x (stage_c_next fs x (stage_b_next i x (capture_next i x x))))"

text \<open>What is written to the channel FIFOs in this cycle: a channel and a sample.\<close>

definition xtr_out :: "xtr_in \<Rightarrow> xtr \<Rightarrow> (nat \<times> u32) list" where
  "xtr_out i x = (if x_state x = ExStream \<and> ex_ch_now x < N_CHANNELS \<and> r_writable i (ex_ch_now x)
     then [(ex_ch_now x, ex_sample x)] else [])"

section \<open>The CRF timestamp extractor\<close>

record crfx =
  c_beat_idx :: nat
  c_hdr_words :: "u32 list"
  c_local_ts :: "80 word"
  c_eof_b :: bool
  c_eof_count :: u32
  c_match_count :: u32
  c_overflow_count :: u32
  c_last_sid :: u64
  c_last_subtype :: u8

text \<open>The binding registers, and the inputs of a cycle.\<close>

record crfx_cfg =
  cf_enabled :: u32
  cf_sid_hi :: u32
  cf_sid_lo :: u32

record crfx_in =
  d_valid :: bool
  d_data :: u32
  d_last :: bool
  d_tsu :: "80 word"
  d_writable :: bool

definition crfx_reset :: crfx where
  "crfx_reset = \<lparr>c_beat_idx = 0, c_hdr_words = replicate 16 0, c_local_ts = 0, c_eof_b = False, c_eof_count = 0,
     c_match_count = 0, c_overflow_count = 0, c_last_sid = 0, c_last_subtype = 0\<rparr>"

definition CRF_HDR_BEATS :: nat where "CRF_HDR_BEATS = 16"

definition crf_ts_comb :: "u32 list \<Rightarrow> u64" where
  "crf_ts_comb ws = be_word (map (\<lambda>k. if vlan_comb ws then hdr_byte ws (38 + k) else hdr_byte ws (34 + k)) [0..<8])"

definition crf_matched :: "crfx_cfg \<Rightarrow> crfx \<Rightarrow> bool" where
  "crf_matched cf c \<longleftrightarrow> c_eof_b c \<and> bit (cf_enabled cf) 0 \<and> subtype_comb (c_hdr_words c) = AVTP_SUBTYPE_CRF
     \<and> sid_comb (c_hdr_words c) = sig64 (cf_sid_hi cf) (cf_sid_lo cf)"

definition crfx_capture :: "crfx_in \<Rightarrow> crfx \<Rightarrow> crfx \<Rightarrow> crfx" where
  "crfx_capture i c c' =
     (if d_valid i then
        c'\<lparr>c_hdr_words := (if c_beat_idx c < CRF_HDR_BEATS then (c_hdr_words c)[c_beat_idx c := d_data i] else c_hdr_words c),
           c_beat_idx := (if d_last i then 0 else if c_beat_idx c < CRF_HDR_BEATS then c_beat_idx c + 1 else c_beat_idx c),
           c_local_ts := (if c_beat_idx c = 0 then d_tsu i else c_local_ts c)\<rparr>
      else c')"

definition crfx_counters :: "crfx_cfg \<Rightarrow> crfx_in \<Rightarrow> crfx \<Rightarrow> crfx \<Rightarrow> crfx" where
  "crfx_counters cf i c c' =
     (let c1 = (if d_valid i \<and> d_last i then c'\<lparr>c_eof_count := c_eof_count c + 1\<rparr> else c');
          c2 = (if crf_matched cf c \<and> d_writable i then c1\<lparr>c_match_count := c_match_count c + 1\<rparr> else c1);
          c3 = (if crf_matched cf c \<and> \<not> d_writable i then c2\<lparr>c_overflow_count := c_overflow_count c + 1\<rparr> else c2)
      in if c_eof_b c then c3\<lparr>c_last_sid := sid_comb (c_hdr_words c), c_last_subtype := subtype_comb (c_hdr_words c)\<rparr> else c3)"

definition crfx_next :: "crfx_cfg \<Rightarrow> crfx_in \<Rightarrow> crfx \<Rightarrow> crfx" where
  "crfx_next cf i c = crfx_counters cf i c ((crfx_capture i c c)\<lparr>c_eof_b := d_valid i \<and> d_last i\<rparr>)"

text \<open>The entry written to the FIFO: CRF timestamp, local seconds, local nanoseconds.\<close>

definition crfx_out :: "crfx_cfg \<Rightarrow> crfx_in \<Rightarrow> crfx \<Rightarrow> (u64 \<times> u32 \<times> u32) list" where
  "crfx_out cf i c = (if crf_matched cf c \<and> d_writable i
     then [(crf_ts_comb (c_hdr_words c), ucast (drop_bit 32 (c_local_ts c)), ucast (c_local_ts c))] else [])"

end
