(* ===== verification/Packetizer.thy ===== *)
theory Packetizer
  imports Board Clocked
begin

text \<open>
  The gateware talker (aaf_packetizer.py): samples from the USB side are assembled into blocks
  of eight channels, a block is taken at every tick of the media clock, and six blocks make a
  packet that is built byte by byte and handed to the MAC in 59 beats.  \<open>pktz\<close> holds the
  registers, \<open>pktz_next\<close> is one clock cycle.  The binding registers the firmware writes are
  \<open>aaf_pkt\<close> of \<open>Board\<close>.  The block FIFO and the MAC are not part of the repository: what
  they show to the packetizer (a block, room for one, readiness for a beat) are inputs.
\<close>

section \<open>Geometry\<close>

definition HDR_LEN :: nat where "HDR_LEN = 42"
definition PAY_LEN :: nat where "PAY_LEN = 6 * 8 * 4"
definition TOTAL :: nat where "TOTAL = HDR_LEN + PAY_LEN"
definition N_WORDS :: nat where "N_WORDS = (TOTAL + 3) div 4"
definition LAST_IDX :: nat where "LAST_IDX = N_WORDS - 1"
definition LAST_BE :: nat where "LAST_BE = (if TOTAL mod 4 = 0 then 0xF else 2 ^ (TOTAL mod 4) - 1)"
definition NS_PER_SEC_BITS :: "nat list" where "NS_PER_SEC_BITS = [29, 28, 27, 25, 24, 23, 20, 19, 17, 15, 14, 11, 9]"
definition pres_offset_reset :: u32 where "pres_offset_reset = 2000000"

section \<open>Registers and inputs\<close>

datatype pktz_fsm = Idle | Build | Stream

record pktz =
  z_cur :: "u32 list"
  z_have :: bool
  z_pay :: "u32 list list"
  z_fill_buf :: bool
  z_send_buf :: bool
  z_blk_idx :: nat
  z_send_req :: bool
  z_underruns :: u32
  z_seq :: u8
  z_pres :: u32
  z_frame_ram :: "u32 list"
  z_byte_idx :: nat
  z_wacc :: "u8 list"
  z_rd_idx :: nat
  z_pkt_count :: u32
  z_overruns :: u32
  z_fsm :: pktz_fsm

text \<open>
  The inputs of one cycle: the USB handshake, the block FIFO (a block as its eight samples),
  the media clock, the time of the TSU, and whether the MAC takes a beat.
\<close>

record pktz_in =
  i_usb_lo :: u32
  i_usb_hi :: u32
  i_usb_readable :: bool
  i_fifo_writable :: bool
  i_fifo_readable :: bool
  i_fifo_dout :: "u32 list"
  i_sample_strobe :: bool
  i_seconds :: "48 word"
  i_nanoseconds :: u32
  i_ready :: bool

definition pktz_reset :: pktz where
  "pktz_reset = \<lparr>z_cur = replicate 8 0, z_have = False, z_pay = replicate 16 (replicate 8 0), z_fill_buf = False,
     z_send_buf = False, z_blk_idx = 0, z_send_req = False, z_underruns = 0, z_seq = 0, z_pres = 0,
     z_frame_ram = replicate N_WORDS 0, z_byte_idx = 0, z_wacc = replicate 3 0, z_rd_idx = 0, z_pkt_count = 0,
     z_overruns = 0, z_fsm = Idle\<rparr>"

section \<open>From USB samples to blocks\<close>

definition usb_first :: "pktz_in \<Rightarrow> bool" where "usb_first i \<longleftrightarrow> bit (i_usb_hi i) 3"

definition need_push :: "pktz_in \<Rightarrow> pktz \<Rightarrow> bool" where "need_push i z \<longleftrightarrow> usb_first i \<and> z_have z"

definition do_pop :: "aaf_pkt \<Rightarrow> pktz_in \<Rightarrow> pktz \<Rightarrow> bool" where
  "do_pop p i z \<longleftrightarrow> bit (pk_enable p) 0 \<and> i_usb_readable i \<and> (\<not> need_push i z \<or> i_fifo_writable i)"

text \<open>The block written to the FIFO in this cycle, if any.\<close>

definition fifo_write :: "aaf_pkt \<Rightarrow> pktz_in \<Rightarrow> pktz \<Rightarrow> u32 list list" where
  "fifo_write p i z = (if do_pop p i z \<and> need_push i z then [z_cur z] else [])"

definition assemble_next :: "aaf_pkt \<Rightarrow> pktz_in \<Rightarrow> pktz \<Rightarrow> pktz \<Rightarrow> pktz" where
  "assemble_next p i z z' =
     (if do_pop p i z
      then z'\<lparr>z_cur := (if need_push i z then replicate 8 0 else z_cur z)[unat (i_usb_hi i AND 7) := i_usb_lo i AND 0xFFFFFF00],
              z_have := True\<rparr>
      else z')"

section \<open>From blocks to packets\<close>

definition strobe :: "aaf_pkt \<Rightarrow> pktz_in \<Rightarrow> bool" where
  "strobe p i \<longleftrightarrow> i_sample_strobe i \<and> bit (pk_enable p) 0"

text \<open>Block \<open>blk\<close> of one of the two halves of the payload buffer.\<close>

definition pay_addr :: "nat \<Rightarrow> bool \<Rightarrow> nat" where "pay_addr blk half = blk + (if half then 8 else 0)"

definition pace_next :: "aaf_pkt \<Rightarrow> pktz_in \<Rightarrow> pktz \<Rightarrow> pktz \<Rightarrow> pktz" where
  "pace_next p i z z' =
     (if strobe p i then
        let z1 = z'\<lparr>z_pay := (z_pay z)[pay_addr (z_blk_idx z) (z_fill_buf z) := (if i_fifo_readable i then i_fifo_dout i else replicate 8 0)],
                    z_underruns := (if i_fifo_readable i then z_underruns z else z_underruns z + 1)\<rparr>
        in if z_blk_idx z = 6 - 1
           then z1\<lparr>z_blk_idx := 0, z_send_buf := z_fill_buf z, z_fill_buf := \<not> z_fill_buf z, z_send_req := True\<rparr>
           else z1\<lparr>z_blk_idx := (z_blk_idx z + 1) mod 8, z_send_req := False\<rparr>
      else z'\<lparr>z_send_req := False\<rparr>)"

section \<open>Building and sending a packet\<close>

definition mac_byte :: "48 word \<Rightarrow> nat \<Rightarrow> u8" where "mac_byte s k = ucast (drop_bit (48 - k * 8 - 8) s)"
definition sid_byte :: "u64 \<Rightarrow> nat \<Rightarrow> u8" where "sid_byte s k = ucast (drop_bit (64 - k * 8 - 8) s)"

definition nsr_ch :: u16 where "nsr_ch = push_bit 12 5 OR (8 AND 0x3FF)"

definition header_bytes :: "aaf_pkt \<Rightarrow> pktz \<Rightarrow> u8 list" where
  "header_bytes p z =
     map (mac_byte (sig48 (pk_dst_hi p) (pk_dst_lo p))) [0..<6]
     @ map (mac_byte (sig48 (pk_src_hi p) (pk_src_lo p))) [0..<6]
     @ [0x81, 0x00, ucast (drop_bit 8 (pk_vlan_tci p)), ucast (pk_vlan_tci p), 0x22, 0xF0, 0x02, 0x81, z_seq z, 0x00]
     @ map (sid_byte (sig64 (pk_sid_hi p) (pk_sid_lo p))) [0..<8]
     @ [ucast (drop_bit 24 (z_pres z)), ucast (drop_bit 16 (z_pres z)), ucast (drop_bit 8 (z_pres z)), ucast (z_pres z),
        0x02, ucast (drop_bit 8 nsr_ch), ucast nsr_ch, 0x20, ucast (drop_bit 8 (of_nat PAY_LEN :: u16)), ucast (of_nat PAY_LEN :: u16), 0x00, 0x00]"

text \<open>The byte built in this cycle: of the header, or of the sample the byte index falls into.\<close>

definition cur_byte :: "aaf_pkt \<Rightarrow> pktz \<Rightarrow> u8" where
  "cur_byte p z =
     (if z_byte_idx z < HDR_LEN then header_bytes p z ! z_byte_idx z
      else let pi = z_byte_idx z - HDR_LEN;
               n = pi div 4;
               samp = z_pay z ! pay_addr (n div 8) (z_send_buf z) ! (n mod 8)
           in ucast (drop_bit ((3 - pi mod 4) * 8) samp))"

text \<open>Seconds times 10^9 as a sum of shifts, in signals wide enough not to overflow.\<close>

definition mul_1e9 :: "48 word \<Rightarrow> 96 word" where
  "mul_1e9 x = fold (\<lambda>s acc. acc + push_bit s (ucast x)) NS_PER_SEC_BITS 0"

definition pres_time :: "pktz_in \<Rightarrow> u32" where
  "pres_time i = ucast (mul_1e9 (i_seconds i) + ucast (i_nanoseconds i) + ucast pres_offset_reset)"

definition build_next :: "aaf_pkt \<Rightarrow> pktz_in \<Rightarrow> pktz \<Rightarrow> pktz \<Rightarrow> pktz" where
  "build_next p i z z' = (case z_fsm z of
     Idle \<Rightarrow> if z_send_req z then z'\<lparr>z_pres := pres_time i, z_byte_idx := 0, z_fsm := Build\<rparr> else z'
   | Build \<Rightarrow>
       let c = cur_byte p z;
           lane = z_byte_idx z mod 4;
           widx = z_byte_idx z div 4;
           z1 = (if lane < 3 then z'\<lparr>z_wacc := (z_wacc z)[lane := c]\<rparr>
                 else z'\<lparr>z_frame_ram := (z_frame_ram z)[widx := le32 (z_wacc z @ [c])]\<rparr>)
       in if z_byte_idx z = TOTAL - 1
          then z1\<lparr>z_frame_ram := (z_frame_ram z1)[LAST_IDX := (if TOTAL mod 4 \<noteq> 0 then le32 [z_wacc z ! 0, c, 0, 0] else le32 (z_wacc z @ [c]))],
                  z_rd_idx := 0, z_fsm := Stream\<rparr>
          else z1\<lparr>z_byte_idx := (z_byte_idx z + 1) mod 256\<rparr>
   | Stream \<Rightarrow>
       if i_ready i then
         if z_rd_idx z = LAST_IDX then z'\<lparr>z_pkt_count := z_pkt_count z + 1, z_seq := z_seq z + 1, z_fsm := Idle\<rparr>
         else z'\<lparr>z_rd_idx := (z_rd_idx z + 1) mod 64\<rparr>
       else z')"

definition overrun_next :: "pktz \<Rightarrow> pktz \<Rightarrow> pktz" where
  "overrun_next z z' = (if z_send_req z \<and> z_fsm z \<noteq> Idle then z'\<lparr>z_overruns := z_overruns z + 1\<rparr> else z')"

definition pktz_next :: "aaf_pkt \<Rightarrow> pktz_in \<Rightarrow> pktz \<Rightarrow> pktz" where
  "pktz_next p i z = overrun_next z (build_next p i z (pace_next p i z (assemble_next p i z z)))"

definition pktz_beat :: "pktz \<Rightarrow> mac_beat" where
  "pktz_beat z = (z_frame_ram z ! z_rd_idx z, z_rd_idx z = LAST_IDX, if z_rd_idx z = LAST_IDX then LAST_BE else 0xF)"

text \<open>The beat the MAC takes in this cycle, if any.\<close>

definition pktz_out :: "pktz_in \<Rightarrow> pktz \<Rightarrow> mac_beat list" where
  "pktz_out i z = (if z_fsm z = Stream \<and> i_ready i then [pktz_beat z] else [])"

end
