(* ===== verification/PacketizerProps.thy ===== *)
theory PacketizerProps
  imports Packetizer
begin

text \<open>
  The gateware talker does what the software talker of aaf.c does: under the binding the
  firmware writes, the bytes it sends are those of \<open>aaf_packet\<close>, one packet for six ticks of
  the media clock; and its assembler cuts the USB samples into the same blocks.
\<close>

section \<open>The bytes of a packet\<close>

text \<open>The registers hold what the firmware pushes for the stream engine \<open>a\<close>.\<close>

definition bound_for :: "aaf_state \<Rightarrow> aaf_pkt \<Rightarrow> bool" where
  "bound_for a p \<longleftrightarrow> pk_src_hi p = be16_at (a_src_mac a) 0 \<and> pk_src_lo p = be32_at (a_src_mac a) 2
     \<and> pk_dst_hi p = be16_at (a_dest_mac a) 0 \<and> pk_dst_lo p = be32_at (a_dest_mac a) 2
     \<and> pk_sid_hi p = be32_at (a_stream_id a) 0 \<and> pk_sid_lo p = be32_at (a_stream_id a) 4
     \<and> pk_vlan_tci p = push_bit 13 (ucast (a_tx_pcp a AND 0x07)) OR ucast (a_tx_vid a AND 0x0FFF)"

lemma push_binding_bound: "bound_for (b_aaf b) (b_pkt (aaf_gw_push_binding b))"
  by (simp add: bound_for_def aaf_gw_push_binding_def Let_def)

lemma list_6: "length xs = 6 \<Longrightarrow> \<exists>a b c d e f. xs = [a, b, c, d, e, f]"
  by (auto simp: numeral_eq_Suc length_Suc_conv)

lemma list_8: "length xs = 8 \<Longrightarrow> \<exists>a b c d e f g h. xs = [a, b, c, d, e, f, g, h]"
  by (auto simp: numeral_eq_Suc length_Suc_conv)

lemma mac_bytes:
  assumes "length m = 6"
  shows "map (mac_byte (sig48 (be16_at m 0) (be32_at m 2))) [0..<6] = m"
proof -
  have mask: "(0xFFFF :: u32) = mask 16" by (simp add: mask_eq_exp_minus_1)
  obtain a b c d e f where m: "m = [a, b, c, d, e, f]" using list_6 [OF assms] by blast
  show ?thesis
    unfolding m sig48_def mask be16_at_def be32_at_def get_be32_def mem_of_def
    by (auto simp: upt_rec mac_byte_def bit_simps byte_high intro!: bit_word_eqI)
qed

lemma sid_bytes:
  assumes "length m = 8"
  shows "map (sid_byte (sig64 (be32_at m 0) (be32_at m 4))) [0..<8] = m"
proof -
  obtain a b c d e f g h where m: "m = [a, b, c, d, e, f, g, h]" using list_8 [OF assms] by blast
  show ?thesis
    unfolding m sig64_def be32_at_def get_be32_def mem_of_def
    by (auto simp: upt_rec sid_byte_def bit_simps byte_high intro!: bit_word_eqI)
qed

lemma put_be32_bytes: "put_be32 v = [ucast (drop_bit 24 v), ucast (drop_bit 16 v), ucast (drop_bit 8 v), ucast v]"
  by (simp add: put_be32_def)

lemma put_be16_bytes: "put_be16 v = [ucast (drop_bit 8 v), ucast v]"
  by (simp add: put_be16_def)

lemma tci_bytes:
  fixes pcp :: u8 and vid :: u16
  shows "[ucast (drop_bit 8 (push_bit 13 (ucast (pcp AND 0x07)) OR ucast (vid AND 0x0FFF) :: u32)),
      ucast (push_bit 13 (ucast (pcp AND 0x07)) OR ucast (vid AND 0x0FFF) :: u32)]
    = put_be16 (push_bit 13 (ucast (pcp AND 0x07)) OR (vid AND 0x0FFF))"
proof -
  have m: "(0x0FFF :: u16) = mask 12" "(0x07 :: u8) = mask 3" by (simp_all add: mask_eq_exp_minus_1)
  show ?thesis unfolding put_be16_bytes m by (auto intro!: bit_word_eqI simp: bit_simps byte_high)
qed

lemma header_is_software:
  assumes "aaf_ids_ok a" and "bound_for a p" and "z_seq z = a_tx_seq a"
  shows "header_bytes p z = concat (map snd (aaf_header a (z_pres z)))"
proof -
  have c: "put_be16 0x8100 = [0x81, 0x00]" "put_be16 AVTP_ETHERTYPE = [0x22, 0xF0]" "put_be16 192 = [0, 192]"
    "put_be16 (push_bit 12 (ucast AAF_NSR_48000) OR 8) = [ucast (drop_bit 8 nsr_ch), ucast nsr_ch]"
    by code_simp+
  have l: "ucast (drop_bit 8 (of_nat PAY_LEN :: u16)) = (0 :: u8)" "ucast (of_nat PAY_LEN :: u16) = (192 :: u8)"
    by code_simp+
  have s: "AVTP_SUBTYPE_AAF = 0x02" "AAF_FORMAT_INT_32BIT = 0x02" "AAF_BIT_DEPTH = 0x20"
    by (simp_all add: AVTP_SUBTYPE_AAF_def AAF_FORMAT_INT_32BIT_def AAF_BIT_DEPTH_def)
  show ?thesis
    using assms mac_bytes [of "a_dest_mac a"] mac_bytes [of "a_src_mac a"] sid_bytes [of "a_stream_id a"]
    unfolding header_bytes_def aaf_header_def bound_for_def aaf_ids_ok_def
    by (simp add: c l s tci_bytes [symmetric] put_be32_bytes del: upt.simps)
qed

text \<open>The packet the builder writes out byte by byte.\<close>

definition frame_byte :: "aaf_pkt \<Rightarrow> pktz \<Rightarrow> nat \<Rightarrow> u8" where
  "frame_byte p z n = cur_byte p (z\<lparr>z_byte_idx := n\<rparr>)"

definition sent_blocks :: "pktz \<Rightarrow> u32 list list" where
  "sent_blocks z = map (\<lambda>k. z_pay z ! pay_addr k (z_send_buf z)) [0..<6]"

lemma concat_nth:
  assumes "\<forall>b \<in> set bss. length b = n" and "k < length bss" and "j < n"
  shows "concat bss ! (n * k + j) = bss ! k ! j"
proof -
  have "bss ! k ! j = take n (drop (n * k) (concat bss)) ! j" by (simp add: concat_block [OF assms(1,2)])
  also have "\<dots> = concat bss ! (n * k + j)"
  proof -
    have "length (take n (drop (n * k) (concat bss))) = n" using concat_block [OF assms(1,2)] assms by simp
    then have "n * k + j < length (concat bss)" using assms(3) by (simp add: min_def split: if_splits) 
    then show ?thesis using assms(3) by simp
  qed
  finally show ?thesis by simp
qed

lemma block_byte:
  assumes "length b = 8" and "j < 32"
  shows "block_bytes b ! j = ucast (drop_bit ((3 - j mod 4) * 8) (b ! (j div 4)))"
proof -
  have "\<forall>x \<in> set (map put_be32 b). length x = 4" by auto
  moreover have "j div 4 < length (map put_be32 b)" "j mod 4 < 4" using assms by auto
  ultimately have "concat (map put_be32 b) ! (4 * (j div 4) + j mod 4) = put_be32 (b ! (j div 4)) ! (j mod 4)"
    using concat_nth [of "map put_be32 b" 4 "j div 4" "j mod 4"] assms by simp
  moreover have "j mod 4 = 0 \<or> j mod 4 = 1 \<or> j mod 4 = 2 \<or> j mod 4 = 3" by auto
  ultimately show ?thesis by (auto simp: block_bytes_def put_be32_bytes)
qed

lemma frame_is_software:
  assumes "aaf_ids_ok a" and "bound_for a p" and "z_seq z = a_tx_seq a" and "sent_blocks z = packet_blocks 6 a"
  shows "map (frame_byte p z) [0..<TOTAL] = aaf_packet a (z_pres z)"
proof (rule nth_equalityI)
  have len: "length (aaf_packet a (z_pres z)) = 234" by (rule length_aaf_packet [OF assms(1)])
  then show "length (map (frame_byte p z) [0..<TOTAL]) = length (aaf_packet a (z_pres z))"
    by (simp add: TOTAL_def HDR_LEN_def PAY_LEN_def)
  fix n assume "n < length (map (frame_byte p z) [0..<TOTAL])"
  then have n: "n < 234" by (simp add: TOTAL_def HDR_LEN_def PAY_LEN_def)
  have hl: "length (concat (map snd (aaf_header a (z_pres z)))) = 42" by (rule length_aaf_header [OF assms(1)])
  have hz: "header_bytes p (z\<lparr>z_byte_idx := n\<rparr>) = header_bytes p z" by (simp add: header_bytes_def)
  have "frame_byte p z n = aaf_packet a (z_pres z) ! n"
  proof (cases "n < 42")
    case True
    then show ?thesis using hl by (simp add: frame_byte_def cur_byte_def HDR_LEN_def aaf_packet_def hz header_is_software [OF assms(1-3)] nth_append)
  next
    case False
    define j where "j = n - 42"
    have j: "j < 192" "n = 42 + j" using n False by (auto simp: j_def)
    have "j div 32 < 6" using j by auto
    have "j mod 32 = 4 * (j div 4 mod 8) + j mod 4" using mod_mult2_eq [of j 4 8] by simp
    then have d: "j div 4 div 8 = j div 32" "j div 4 mod 8 = j mod 32 div 4" "j mod 4 = j mod 32 mod 4"
      by (simp flip: div_mult2_eq, simp_all)
    have b: "\<forall>x \<in> set (map block_bytes (packet_blocks 6 a)). length x = 32"
      by (auto simp: length_block_bytes dest: packet_blocks_8)
    have "concat (map block_bytes (packet_blocks 6 a)) ! (32 * (j div 32) + j mod 32) = block_bytes (packet_blocks 6 a ! (j div 32)) ! (j mod 32)"
      using concat_nth [OF b, of "j div 32" "j mod 32"] \<open>j div 32 < 6\<close> by simp
    moreover have "length (packet_blocks 6 a ! (j div 32)) = 8" using \<open>j div 32 < 6\<close> by (auto intro: packet_blocks_8 [OF nth_mem])
    moreover have "packet_blocks 6 a ! (j div 32) = z_pay z ! pay_addr (j div 32) (z_send_buf z)"
      using \<open>j div 32 < 6\<close> by (simp add: assms(4) [symmetric] sent_blocks_def)
    ultimately show ?thesis
      using hl block_byte [of "packet_blocks 6 a ! (j div 32)" "j mod 32"] j(2)
      by (simp add: frame_byte_def cur_byte_def HDR_LEN_def aaf_packet_def nth_append Let_def d)
  qed
  then show "map (frame_byte p z) [0..<TOTAL] ! n = aaf_packet a (z_pres z) ! n" using n by (simp add: TOTAL_def HDR_LEN_def PAY_LEN_def)
qed

lemma mul_1e9_wide: "mul_1e9 x = ucast x * 1000000000"
proof -
  have "push_bit s (y :: 96 word) = y * 2 ^ s" for s y by (simp add: push_bit_eq_mult)
  then show ?thesis by (simp add: mul_1e9_def NS_PER_SEC_BITS_def)
qed

lemma of_nat_mod32:
  assumes "32 \<le> n"
  shows "(of_nat (k mod 2 ^ n) :: u32) = of_nat k"
proof -
  have "(2 ^ 32 :: nat) dvd 2 ^ n" by (rule le_imp_power_dvd [OF assms])
  from mod_mod_cancel [OF this, of k] show ?thesis by (simp add: word_of_nat_eq_iff take_bit_eq_mod)
qed

lemma pres_time_is_software: "pres_time i = aaf_pres_ts \<lparr>seconds = ucast (i_seconds i), nanoseconds = i_nanoseconds i\<rparr>"
proof -
  let ?n = "unat (i_seconds i) * 1000000000 + unat (i_nanoseconds i) + 2000000"
  have u: "unat (ucast (i_seconds i) :: u64) = unat (i_seconds i)" "unat (ucast (i_seconds i) :: 96 word) = unat (i_seconds i)"
    "unat (ucast (i_nanoseconds i) :: u64) = unat (i_nanoseconds i)" "unat (ucast (i_nanoseconds i) :: 96 word) = unat (i_nanoseconds i)"
    "unat (ucast pres_offset_reset :: 96 word) = 2000000"
    by (simp_all add: unsigned_ucast_eq take_bit_nat_eq_self pres_offset_reset_def order_less_le_trans [OF unsigned_less])
  have w: "unat (ucast (i_seconds i) * 1000000000 + ucast (i_nanoseconds i) + ucast pres_offset_reset :: 96 word) = ?n mod 2 ^ 96"
    "unat (ucast (i_seconds i) * 1000000000 + ucast (i_nanoseconds i) + AAF_PRESENTATION_OFFSET_NS :: u64) = ?n mod 2 ^ 64"
    by (simp_all add: unat_word_ariths u AAF_PRESENTATION_OFFSET_NS_def mod_simps)
  have "pres_time i = of_nat (?n mod 2 ^ 96)"
    unfolding pres_time_def mul_1e9_wide w(1) [symmetric] by simp
  moreover have "aaf_pres_ts \<lparr>seconds = ucast (i_seconds i), nanoseconds = i_nanoseconds i\<rparr> = of_nat (?n mod 2 ^ 64)"
    unfolding aaf_pres_ts_def w(2) [symmetric] by simp
  ultimately show ?thesis by (simp only: of_nat_mod32)
qed

section \<open>One clock cycle\<close>

text \<open>The three parts write different registers.\<close>

lemma assemble_keeps [simp]:
  "z_pay (assemble_next p i z z') = z_pay z'" "z_blk_idx (assemble_next p i z z') = z_blk_idx z'"
  "z_fill_buf (assemble_next p i z z') = z_fill_buf z'" "z_send_buf (assemble_next p i z z') = z_send_buf z'"
  "z_send_req (assemble_next p i z z') = z_send_req z'" "z_fsm (assemble_next p i z z') = z_fsm z'" "z_seq (assemble_next p i z z') = z_seq z'"
  "z_pres (assemble_next p i z z') = z_pres z'" "z_byte_idx (assemble_next p i z z') = z_byte_idx z'" "z_wacc (assemble_next p i z z') = z_wacc z'"
  "z_frame_ram (assemble_next p i z z') = z_frame_ram z'" "z_rd_idx (assemble_next p i z z') = z_rd_idx z'"
  "z_pkt_count (assemble_next p i z z') = z_pkt_count z'"
  by (simp_all add: assemble_next_def)

lemma pace_keeps [simp]:
  "z_fsm (pace_next p i z z') = z_fsm z'" "z_seq (pace_next p i z z') = z_seq z'" "z_pres (pace_next p i z z') = z_pres z'"
  "z_byte_idx (pace_next p i z z') = z_byte_idx z'" "z_wacc (pace_next p i z z') = z_wacc z'" "z_frame_ram (pace_next p i z z') = z_frame_ram z'"
  "z_rd_idx (pace_next p i z z') = z_rd_idx z'" "z_pkt_count (pace_next p i z z') = z_pkt_count z'"
  "z_cur (pace_next p i z z') = z_cur z'" "z_have (pace_next p i z z') = z_have z'"
  by (simp_all add: pace_next_def Let_def)

lemma pace_reads:
  assumes "z_pay z' = z_pay z" "z_blk_idx z' = z_blk_idx z" "z_fill_buf z' = z_fill_buf z" "z_send_buf z' = z_send_buf z"
  shows "z_pay (pace_next p i z z') = z_pay (pace_next p i z z)" "z_blk_idx (pace_next p i z z') = z_blk_idx (pace_next p i z z)"
    "z_fill_buf (pace_next p i z z') = z_fill_buf (pace_next p i z z)" "z_send_buf (pace_next p i z z') = z_send_buf (pace_next p i z z)"
    "z_send_req (pace_next p i z z') = z_send_req (pace_next p i z z)"
  using assms by (simp_all add: pace_next_def Let_def)

lemma build_keeps [simp]:
  "z_pay (build_next p i z z') = z_pay z'" "z_blk_idx (build_next p i z z') = z_blk_idx z'" "z_fill_buf (build_next p i z z') = z_fill_buf z'"
  "z_send_buf (build_next p i z z') = z_send_buf z'" "z_send_req (build_next p i z z') = z_send_req z'"
  "z_cur (build_next p i z z') = z_cur z'" "z_have (build_next p i z z') = z_have z'"
  by (cases "z_fsm z"; simp add: build_next_def Let_def)+

lemma build_reads:
  assumes "z_fsm z' = z_fsm z" "z_seq z' = z_seq z" "z_pres z' = z_pres z" "z_byte_idx z' = z_byte_idx z" "z_wacc z' = z_wacc z"
    "z_frame_ram z' = z_frame_ram z" "z_rd_idx z' = z_rd_idx z" "z_pkt_count z' = z_pkt_count z"
  shows "z_fsm (build_next p i z z') = z_fsm (build_next p i z z)" "z_seq (build_next p i z z') = z_seq (build_next p i z z)"
    "z_pres (build_next p i z z') = z_pres (build_next p i z z)" "z_byte_idx (build_next p i z z') = z_byte_idx (build_next p i z z)"
    "z_wacc (build_next p i z z') = z_wacc (build_next p i z z)" "z_frame_ram (build_next p i z z') = z_frame_ram (build_next p i z z)"
    "z_rd_idx (build_next p i z z') = z_rd_idx (build_next p i z z)" "z_pkt_count (build_next p i z z') = z_pkt_count (build_next p i z z)"
  using assms by (cases "z_fsm z"; simp add: build_next_def Let_def)+

lemma overrun_keeps [simp]:
  "z_pay (overrun_next z z') = z_pay z'" "z_blk_idx (overrun_next z z') = z_blk_idx z'" "z_fill_buf (overrun_next z z') = z_fill_buf z'"
  "z_send_buf (overrun_next z z') = z_send_buf z'" "z_send_req (overrun_next z z') = z_send_req z'" "z_cur (overrun_next z z') = z_cur z'"
  "z_have (overrun_next z z') = z_have z'" "z_fsm (overrun_next z z') = z_fsm z'" "z_seq (overrun_next z z') = z_seq z'"
  "z_pres (overrun_next z z') = z_pres z'" "z_byte_idx (overrun_next z z') = z_byte_idx z'" "z_wacc (overrun_next z z') = z_wacc z'"
  "z_frame_ram (overrun_next z z') = z_frame_ram z'" "z_rd_idx (overrun_next z z') = z_rd_idx z'"
  "z_pkt_count (overrun_next z z') = z_pkt_count z'"
  by (simp_all add: overrun_next_def)

lemma next_pace:
  "z_pay (pktz_next p i z) = z_pay (pace_next p i z z)" "z_blk_idx (pktz_next p i z) = z_blk_idx (pace_next p i z z)"
  "z_fill_buf (pktz_next p i z) = z_fill_buf (pace_next p i z z)" "z_send_buf (pktz_next p i z) = z_send_buf (pace_next p i z z)"
  "z_send_req (pktz_next p i z) = z_send_req (pace_next p i z z)"
  unfolding pktz_next_def by (simp_all add: pace_reads [of "assemble_next p i z z" z])

lemma next_build:
  "z_fsm (pktz_next p i z) = z_fsm (build_next p i z z)" "z_seq (pktz_next p i z) = z_seq (build_next p i z z)"
  "z_pres (pktz_next p i z) = z_pres (build_next p i z z)" "z_byte_idx (pktz_next p i z) = z_byte_idx (build_next p i z z)"
  "z_wacc (pktz_next p i z) = z_wacc (build_next p i z z)" "z_frame_ram (pktz_next p i z) = z_frame_ram (build_next p i z z)"
  "z_rd_idx (pktz_next p i z) = z_rd_idx (build_next p i z z)" "z_pkt_count (pktz_next p i z) = z_pkt_count (build_next p i z z)"
  unfolding pktz_next_def by (simp_all add: build_reads [of "pace_next p i z (assemble_next p i z z)" z])

lemma next_assemble:
  "z_cur (pktz_next p i z) = z_cur (assemble_next p i z z)" "z_have (pktz_next p i z) = z_have (assemble_next p i z z)"
  by (simp_all add: pktz_next_def)

definition pktz_ok :: "pktz \<Rightarrow> bool" where
  "pktz_ok z \<longleftrightarrow> length (z_pay z) = 16 \<and> length (z_frame_ram z) = N_WORDS \<and> length (z_wacc z) = 3"

lemma pktz_reset_ok: "pktz_ok pktz_reset"
  by (simp add: pktz_ok_def pktz_reset_def)

lemma next_ok: "pktz_ok z \<Longrightarrow> pktz_ok (pktz_next p i z)"
  by (cases "z_fsm z"; simp add: pktz_ok_def next_pace next_build; simp add: pace_next_def build_next_def Let_def)

lemma run_ok: "pktz_ok z \<Longrightarrow> pktz_ok (fold (pktz_next p) is z)"
  by (induction "is" arbitrary: z) (simp_all add: next_ok)

section \<open>The two halves of the payload buffer\<close>

definition ticks :: "aaf_pkt \<Rightarrow> pktz_in list \<Rightarrow> nat" where
  "ticks p is = length (filter (strobe p) is)"

text \<open>The blocks taken at the ticks: what the FIFO shows, or silence.\<close>

definition tick_block :: "pktz_in \<Rightarrow> u32 list" where
  "tick_block i = (if i_fifo_readable i then i_fifo_dout i else replicate 8 0)"

definition tick_blocks :: "aaf_pkt \<Rightarrow> pktz_in list \<Rightarrow> u32 list list" where
  "tick_blocks p is = map tick_block (filter (strobe p) is)"

lemma ticks_simps [simp]:
  "ticks p [] = 0" "ticks p (i # is) = (if strobe p i then 1 else 0) + ticks p is" "ticks p (is @ js) = ticks p is + ticks p js"
  by (simp_all add: ticks_def)

lemma tick_blocks_simps [simp]:
  "tick_blocks p [] = []" "tick_blocks p (is @ js) = tick_blocks p is @ tick_blocks p js"
  "tick_blocks p [i] = (if strobe p i then [tick_block i] else [])" "length (tick_blocks p is) = ticks p is"
  by (simp_all add: tick_blocks_def ticks_def)

lemma pace_tick:
  assumes "strobe p i" and "z_blk_idx z < 5"
  shows "z_pay (pktz_next p i z) = (z_pay z)[pay_addr (z_blk_idx z) (z_fill_buf z) := tick_block i]"
    and "z_blk_idx (pktz_next p i z) = z_blk_idx z + 1" and "z_fill_buf (pktz_next p i z) = z_fill_buf z"
    and "z_send_buf (pktz_next p i z) = z_send_buf z" and "\<not> z_send_req (pktz_next p i z)"
  using assms by (simp_all add: next_pace pace_next_def Let_def tick_block_def)

lemma pace_last:
  assumes "strobe p i" and "z_blk_idx z = 5"
  shows "z_pay (pktz_next p i z) = (z_pay z)[pay_addr 5 (z_fill_buf z) := tick_block i]"
    and "z_blk_idx (pktz_next p i z) = 0" and "z_fill_buf (pktz_next p i z) = (\<not> z_fill_buf z)"
    and "z_send_buf (pktz_next p i z) = z_fill_buf z" and "z_send_req (pktz_next p i z)"
  using assms by (simp_all add: next_pace pace_next_def Let_def tick_block_def)

lemma pace_idle:
  assumes "\<not> strobe p i"
  shows "z_pay (pktz_next p i z) = z_pay z" and "z_blk_idx (pktz_next p i z) = z_blk_idx z"
    and "z_fill_buf (pktz_next p i z) = z_fill_buf z" and "z_send_buf (pktz_next p i z) = z_send_buf z"
    and "\<not> z_send_req (pktz_next p i z)"
  using assms by (simp_all add: next_pace pace_next_def Let_def)

text \<open>Up to five ticks fill the one half and leave the other as it is.\<close>

lemma pace_run:
  assumes "z_blk_idx z + ticks p is \<le> 5" and "length (z_pay z) = 16"
  defines "z' \<equiv> fold (pktz_next p) is z"
  shows "z_blk_idx z' = z_blk_idx z + ticks p is \<and> z_fill_buf z' = z_fill_buf z \<and> z_send_buf z' = z_send_buf z
    \<and> length (z_pay z') = 16 \<and> (is \<noteq> [] \<longrightarrow> \<not> z_send_req z')
    \<and> (\<forall>k < 8. z_pay z' ! pay_addr k (\<not> z_fill_buf z) = z_pay z ! pay_addr k (\<not> z_fill_buf z))
    \<and> (\<forall>k < z_blk_idx z. z_pay z' ! pay_addr k (z_fill_buf z) = z_pay z ! pay_addr k (z_fill_buf z))
    \<and> (\<forall>j < ticks p is. z_pay z' ! pay_addr (z_blk_idx z + j) (z_fill_buf z) = tick_blocks p is ! j)"
  using assms(1) unfolding z'_def
proof (induction "is" rule: rev_induct)
  case Nil
  then show ?case using assms(2) by simp
next
  case (snoc i js)
  let ?y = "fold (pktz_next p) js z"
  have IH: "z_blk_idx ?y = z_blk_idx z + ticks p js" "z_fill_buf ?y = z_fill_buf z" "z_send_buf ?y = z_send_buf z" "length (z_pay ?y) = 16"
    "\<forall>k < 8. z_pay ?y ! pay_addr k (\<not> z_fill_buf z) = z_pay z ! pay_addr k (\<not> z_fill_buf z)"
    "\<forall>k < z_blk_idx z. z_pay ?y ! pay_addr k (z_fill_buf z) = z_pay z ! pay_addr k (z_fill_buf z)"
    "\<forall>j < ticks p js. z_pay ?y ! pay_addr (z_blk_idx z + j) (z_fill_buf z) = tick_blocks p js ! j"
    using snoc by simp_all
  show ?case
  proof (cases "strobe p i")
    case False
    then show ?thesis using IH pace_idle [OF False, of ?y] by (simp add: nth_append)
  next
    case True
    then have b: "z_blk_idx ?y < 5" using snoc.prems IH(1) by simp
    have ne: "pay_addr (z_blk_idx z + ticks p js) (z_fill_buf z) \<noteq> pay_addr k (\<not> z_fill_buf z)" if "k < 8" for k
      using that b IH(1) by (auto simp: pay_addr_def)
    have ne2: "pay_addr (z_blk_idx z + ticks p js) (z_fill_buf z) \<noteq> pay_addr k (z_fill_buf z)" if "k < z_blk_idx z + ticks p js" for k
      using that by (auto simp: pay_addr_def)
    have lt: "pay_addr (z_blk_idx z + ticks p js) (z_fill_buf z) < 16" using b IH(1) by (simp add: pay_addr_def)
    show ?thesis
      using True IH lt pace_tick [OF True b] by (simp add: nth_append ne ne2 less_Suc_eq)
  qed
qed

section \<open>The builder\<close>

text \<open>While a packet is built only the other half changes, so its bytes stay the same.\<close>

lemma frame_byte_cong:
  assumes "z_seq y = z_seq z" and "z_pres y = z_pres z" and "sent_blocks y = sent_blocks z" and "n < TOTAL"
  shows "frame_byte p y n = frame_byte p z n"
proof -
  have "header_bytes p (y\<lparr>z_byte_idx := n\<rparr>) = header_bytes p (z\<lparr>z_byte_idx := n\<rparr>)" using assms by (simp add: header_bytes_def)
  moreover have "z_pay y ! pay_addr k (z_send_buf y) = z_pay z ! pay_addr k (z_send_buf z)" if "k < 6" for k
    using assms(3) that by (simp add: sent_blocks_def)
  moreover have "(n - HDR_LEN) div 4 div 8 < 6" using assms(4) by (simp add: TOTAL_def HDR_LEN_def PAY_LEN_def)
  ultimately show ?thesis by (simp add: frame_byte_def cur_byte_def Let_def)
qed

definition built :: "(nat \<Rightarrow> u8) \<Rightarrow> nat \<Rightarrow> pktz \<Rightarrow> bool" where
  "built F n z \<longleftrightarrow> z_byte_idx z = n \<and> (\<forall>w. 4 * w + 4 \<le> n \<longrightarrow> z_frame_ram z ! w = le32 (map F [4 * w..<4 * w + 4]))
     \<and> (\<forall>l < n mod 4. z_wacc z ! l = F (4 * (n div 4) + l))"

lemma upt_4: "[n..<n + 4] = [n, n + 1, n + 2, n + 3]"
  by (simp add: upt_rec)

lemma list_3: "length xs = 3 \<Longrightarrow> xs = [xs ! 0, xs ! 1, xs ! 2]"
  by (auto simp: numeral_eq_Suc length_Suc_conv)

lemma build_step:
  fixes i :: pktz_in
  assumes "z_fsm z = Build" and "built F n z" and "n < TOTAL - 1" and "cur_byte p z = F n" and ok: "pktz_ok z"
  defines "z' \<equiv> pktz_next p i z"
  shows "z_fsm z' = Build \<and> built F (n + 1) z' \<and> z_seq z' = z_seq z \<and> z_pres z' = z_pres z
    \<and> z_pkt_count z' = z_pkt_count z"
proof -
  have n: "z_byte_idx z = n" "n < 233" using assms by (auto simp: built_def TOTAL_def HDR_LEN_def PAY_LEN_def)
  note wacc = list_3 [of "z_wacc z"]
  have "built F (n + 1) z'"
  proof (cases "n mod 4 < 3")
    case True
    then have m: "(n + 1) mod 4 = n mod 4 + 1" "(n + 1) div 4 = n div 4" "\<And>w. 4 * w + 4 \<le> n + 1 \<longleftrightarrow> 4 * w + 4 \<le> n" by presburger+
    show ?thesis using assms True n m
      by (auto simp: built_def z'_def next_build build_next_def Let_def pktz_ok_def nth_list_update)
  next
    case False
    then have m: "n mod 4 = 3" "(n + 1) mod 4 = 0" "n = 4 * (n div 4) + 3" by presburger+
    have w: "4 * w + 4 \<le> n + 1 \<longleftrightarrow> 4 * w + 4 \<le> n \<or> w = n div 4" for w using m by presburger
    have "n div 4 < length (z_frame_ram z)" using n(2) ok by (simp add: pktz_ok_def N_WORDS_def TOTAL_def HDR_LEN_def PAY_LEN_def)
    moreover have "z_wacc z = [F (4 * (n div 4)), F (4 * (n div 4) + 1), F (4 * (n div 4) + 2)]"
      using list_3 [of "z_wacc z"] ok assms(2) m(1) by (simp add: pktz_ok_def built_def)
    ultimately show ?thesis using assms(1-4) m(1,2) n m(3)
      by (auto simp: built_def z'_def next_build build_next_def Let_def w upt_4 nth_list_update)
  qed
  then show ?thesis using assms(1,3) n by (simp add: z'_def next_build build_next_def Let_def)
qed

lemma build_last:
  fixes i :: pktz_in
  assumes "z_fsm z = Build" and "built F (TOTAL - 1) z" and "cur_byte p z = F (TOTAL - 1)" and ok: "pktz_ok z"
  defines "z' \<equiv> pktz_next p i z"
  shows "z_fsm z' = Stream \<and> z_rd_idx z' = 0 \<and> z_seq z' = z_seq z
    \<and> (\<forall>w < N_WORDS. z_frame_ram z' ! w = beat (map F [0..<TOTAL]) w)"
proof -
  have t: "TOTAL = 234" "N_WORDS = 59" "LAST_IDX = 58" by (simp_all add: TOTAL_def HDR_LEN_def PAY_LEN_def N_WORDS_def LAST_IDX_def)
  have b: "z_byte_idx z = 233" "z_wacc z ! 0 = F 232" "\<And>w. w < 58 \<Longrightarrow> z_frame_ram z ! w = le32 (map F [4 * w..<4 * w + 4])"
    using assms(2) by (auto simp: built_def t)
  have "z_frame_ram z' ! w = beat (map F [0..<TOTAL]) w" if "w < 59" for w
  proof (cases "w = 58")
    case True
    then show ?thesis using assms(1,3) b(1,2) ok
      by (simp add: z'_def next_build build_next_def Let_def t pktz_ok_def beat_def upt_4)
  next
    case False
    then have "w < 58" using that by simp
    then show ?thesis using assms(1,3) b ok
      by (simp add: z'_def next_build build_next_def Let_def t pktz_ok_def beat_def upt_4 nth_list_update)
  qed
  then show ?thesis using assms(1) b(1) by (simp add: z'_def next_build build_next_def Let_def t)
qed

lemma cur_byte_at: "z_byte_idx z = n \<Longrightarrow> cur_byte p z = frame_byte p z n"
  by (cases z) (simp add: frame_byte_def)

text \<open>
  A run of the builder: \<open>js\<close> are the cycles of the header and the payload, with at most five
  ticks among them.
\<close>

lemma sent_blocks_kept:
  assumes "z_blk_idx z + ticks p js \<le> 5" and "pktz_ok z" and "z_fill_buf z \<noteq> z_send_buf z"
  shows "sent_blocks (fold (pktz_next p) js z) = sent_blocks z"
proof -
  have s: "z_send_buf z = (\<not> z_fill_buf z)" using assms(3) by auto
  note r = pace_run [OF assms(1)] 
  show ?thesis using r assms(2) by (simp add: sent_blocks_def s pktz_ok_def)
qed

lemma out_silent: "z_fsm z \<noteq> Stream \<Longrightarrow> pktz_out i z = []"
  by (simp add: pktz_out_def)

lemma build_run:
  assumes start: "z_fsm z = Build" "z_byte_idx z = 0" "pktz_ok z" "z_fill_buf z \<noteq> z_send_buf z"
    and len: "length js \<le> TOTAL - 1" and t: "z_blk_idx z + ticks p js \<le> 5"
  defines "z' \<equiv> fold (pktz_next p) js z"
  shows "z_fsm z' = Build \<and> built (frame_byte p z) (length js) z' \<and> z_seq z' = z_seq z \<and> z_pres z' = z_pres z
    \<and> z_pkt_count z' = z_pkt_count z \<and> clk_outs (pktz_next p) pktz_out js z = []"
  using len t unfolding z'_def
proof (induction js rule: rev_induct)
  case Nil
  then show ?case using start by (simp add: built_def)
next
  case (snoc i js)
  let ?y = "fold (pktz_next p) js z"
  have IH: "z_fsm ?y = Build" "built (frame_byte p z) (length js) ?y" "z_seq ?y = z_seq z" "z_pres ?y = z_pres z"
    "z_pkt_count ?y = z_pkt_count z" "clk_outs (pktz_next p) pktz_out js z = []"
    using snoc by (simp_all split: if_splits)
  have sb: "sent_blocks ?y = sent_blocks z" using snoc.prems start by (intro sent_blocks_kept) (simp_all split: if_splits)
  have "cur_byte p ?y = frame_byte p ?y (length js)" using IH(2) by (simp add: cur_byte_at built_def)
  also have "\<dots> = frame_byte p z (length js)" using snoc.prems(1) by (intro frame_byte_cong IH(3,4) sb) simp
  finally show ?case using build_step [OF IH(1,2) _ _ run_ok [OF start(3)], of p i] snoc.prems(1) IH by (simp add: out_silent)
qed

section \<open>Handing the packet to the MAC\<close>

lemma stream_run:
  assumes "z_fsm z = Stream" and "\<forall>w < N_WORDS. z_frame_ram z ! w = beat bs w" and "length bs = TOTAL"
    and "length (filter i_ready js) = N_WORDS - z_rd_idx z" and "z_rd_idx z < N_WORDS" and "i_ready (last js)"
  shows "clk_outs (pktz_next p) pktz_out js z = drop (z_rd_idx z) (mac_beats bs)
    \<and> z_fsm (fold (pktz_next p) js z) = Idle \<and> z_seq (fold (pktz_next p) js z) = z_seq z + 1
    \<and> z_pkt_count (fold (pktz_next p) js z) = z_pkt_count z + 1"
  using assms
proof (induction js arbitrary: z)
  case Nil
  then show ?case by simp
next
  case (Cons i js)
  have t: "N_WORDS = 59" "TOTAL = 234" "LAST_IDX = 58" "LAST_BE = 3"
    by (simp_all add: TOTAL_def HDR_LEN_def PAY_LEN_def N_WORDS_def LAST_IDX_def LAST_BE_def)
  have beats: "length (mac_beats bs) = 59" "\<And>w. w < 59 \<Longrightarrow> mac_beats bs ! w = (beat bs w, w = 58, if w = 58 then 3 else 0xF)"
    using Cons.prems(3) by (simp_all add: mac_beats_def t)
  let ?y = "pktz_next p i z"
  show ?case
  proof (cases "i_ready i")
    case False
    have y: "z_fsm ?y = Stream" "z_frame_ram ?y = z_frame_ram z" "z_rd_idx ?y = z_rd_idx z" "z_seq ?y = z_seq z" "z_pkt_count ?y = z_pkt_count z"
      using Cons.prems(1) False by (simp_all add: next_build build_next_def)
    have "js \<noteq> []" using Cons.prems False by auto
    then show ?thesis using Cons.IH [of ?y] Cons.prems False by (simp add: y pktz_out_def)
  next
    case True
    have out: "pktz_out i z = [mac_beats bs ! z_rd_idx z]"
      using Cons.prems True beats(2) [of "z_rd_idx z"] by (simp add: pktz_out_def pktz_beat_def t)
    have d: "drop (z_rd_idx z) (mac_beats bs) = mac_beats bs ! z_rd_idx z # drop (Suc (z_rd_idx z)) (mac_beats bs)"
      using Cons.prems(5) beats(1) by (simp add: Cons_nth_drop_Suc t)
    show ?thesis
    proof (cases "z_rd_idx z = 58")
      case last: True
      then have "filter i_ready js = []" using Cons.prems(4) True by (simp add: t)
      then have "js = []" using Cons.prems(6) by (metis filter_empty_conv last.simps last_in_set)
      then show ?thesis using Cons.prems(1) True last out d beats(1) by (simp add: next_build build_next_def t)
    next
      case False
      have y: "z_fsm ?y = Stream" "z_frame_ram ?y = z_frame_ram z" "z_rd_idx ?y = z_rd_idx z + 1" "z_seq ?y = z_seq z" "z_pkt_count ?y = z_pkt_count z"
        using Cons.prems(1,5) True False by (simp_all add: next_build build_next_def t)
      have "js \<noteq> []" using Cons.prems(4,5) True False by (auto simp: t)
      then show ?thesis using Cons.IH [of ?y] Cons.prems True False out d by (simp add: y t)
    qed
  qed
qed

section \<open>Six ticks, one packet\<close>

lemma idle_run:
  assumes "z_blk_idx z + ticks p is \<le> 5" and "z_fsm z = Idle" and "\<not> z_send_req z" and "pktz_ok z"
  shows "z_fsm (fold (pktz_next p) is z) = Idle \<and> z_seq (fold (pktz_next p) is z) = z_seq z
    \<and> z_pkt_count (fold (pktz_next p) is z) = z_pkt_count z \<and> \<not> z_send_req (fold (pktz_next p) is z)
    \<and> clk_outs (pktz_next p) pktz_out is z = []"
  using assms(1)
proof (induction "is" rule: rev_induct)
  case Nil
  then show ?case using assms by simp
next
  case (snoc i js)
  then have IH: "z_fsm (fold (pktz_next p) js z) = Idle" "\<not> z_send_req (fold (pktz_next p) js z)"
    "z_seq (fold (pktz_next p) js z) = z_seq z" "z_pkt_count (fold (pktz_next p) js z) = z_pkt_count z"
    "clk_outs (pktz_next p) pktz_out js z = []" by (simp_all split: if_splits)
  have "\<not> z_send_req (fold (pktz_next p) (js @ [i]) z)"
    using pace_run [OF snoc.prems] assms(4) by (simp add: pktz_ok_def)
  then show ?case using IH by (simp add: next_build build_next_def out_silent)
qed

lemma gather:
  assumes start: "pktz_ok z" "z_fsm z = Idle" "\<not> z_send_req z" "z_blk_idx z = 0"
    and A: "ticks p A = 6" "strobe p (last A)"
  defines "y \<equiv> fold (pktz_next p) A z"
  shows "z_fsm y = Idle \<and> z_send_req y \<and> z_blk_idx y = 0 \<and> z_fill_buf y \<noteq> z_send_buf y \<and> z_seq y = z_seq z
    \<and> z_pkt_count y = z_pkt_count z \<and> sent_blocks y = tick_blocks p A \<and> clk_outs (pktz_next p) pktz_out A z = []"
proof -
  have ne: "A \<noteq> []" using A(1) by auto
  define A0 where "A0 = butlast A"
  have s: "A = A0 @ [last A]" using ne by (simp add: A0_def)
  have t: "ticks p A0 = 5" using A arg_cong [OF s, of "ticks p"] by simp
  let ?x = "fold (pktz_next p) A0 z"
  have r: "z_blk_idx ?x = 5" "z_fill_buf ?x = z_fill_buf z" "length (z_pay ?x) = 16"
    "\<forall>j < 5. z_pay ?x ! pay_addr j (z_fill_buf z) = tick_blocks p A0 ! j"
    using pace_run [of z p A0] start t by (simp_all add: pktz_ok_def)
  have i: "z_fsm ?x = Idle" "z_seq ?x = z_seq z" "z_pkt_count ?x = z_pkt_count z" "\<not> z_send_req ?x" "clk_outs (pktz_next p) pktz_out A0 z = []"
    using idle_run [of z p A0] start t by simp_all
  have y: "y = pktz_next p (last A) ?x" using arg_cong [OF s, of "\<lambda>A. fold (pktz_next p) A z"] by (simp add: y_def)
  note l = pace_last [OF A(2) r(1), folded y]
  have len: "pay_addr 5 (z_fill_buf z) < 16" "\<And>k. k < 5 \<Longrightarrow> pay_addr 5 (z_fill_buf z) \<noteq> pay_addr k (z_fill_buf z)" by (simp_all add: pay_addr_def)
  have "z_pay y ! pay_addr k (z_send_buf y) = tick_blocks p A ! k" if "k < 6" for k
  proof -
    have "tick_blocks p A = tick_blocks p A0 @ [tick_block (last A)]" using A(2) arg_cong [OF s, of "tick_blocks p"] by simp
    then show ?thesis using that l r t len by (cases "k = 5") (simp_all add: nth_append)
  qed
  then have "sent_blocks y = tick_blocks p A" using A(1) by (intro nth_equalityI) (simp_all add: sent_blocks_def)
  moreover have "clk_outs (pktz_next p) pktz_out A z = []"
    using i(1,5) arg_cong [OF s, of "\<lambda>A. clk_outs (pktz_next p) pktz_out A z"] by (simp add: out_silent)
  ultimately show ?thesis using l r i by (simp add: y next_build build_next_def)
qed

lemma build_packet:
  assumes start: "pktz_ok z" "z_fsm z = Idle" "z_send_req z" "z_blk_idx z = 0" "z_fill_buf z \<noteq> z_send_buf z"
    and ids: "aaf_ids_ok a" "bound_for a p" "a_tx_seq a = z_seq z" "sent_blocks z = packet_blocks 6 a"
    and B: "length B = 1 + TOTAL" "ticks p B \<le> 5"
  defines "y \<equiv> fold (pktz_next p) B z"
  shows "z_fsm y = Stream \<and> z_rd_idx y = 0 \<and> z_seq y = z_seq z \<and> z_pkt_count y = z_pkt_count z
    \<and> (\<forall>w < N_WORDS. z_frame_ram y ! w = beat (aaf_packet a (pres_time (hd B))) w)
    \<and> clk_outs (pktz_next p) pktz_out B z = []"
proof -
  have t: "TOTAL = 234" by (simp add: TOTAL_def HDR_LEN_def PAY_LEN_def)
  obtain b B1 i where B_eq: "B = b # B1 @ [i]" "length B1 = TOTAL - 1"
  proof -
    obtain b B' where b: "B = b # B'" "length B' = 234" using B(1) by (cases B) (simp_all add: t)
    then have "B' \<noteq> []" by auto
    then show thesis using b that [of b "butlast B'" "last B'"] by (simp add: t)
  qed
  let ?z1 = "pktz_next p b z" and ?F = "frame_byte p (pktz_next p b z)"
  let ?x = "fold (pktz_next p) B1 ?z1"
  have tb: "z_blk_idx z + ticks p [b] \<le> 5" "z_blk_idx z + ticks p (b # B1) \<le> 5" using B(2) start(4) by (simp_all add: B_eq)
  have z1: "z_fsm ?z1 = Build" "z_byte_idx ?z1 = 0" "z_pres ?z1 = pres_time b" "z_seq ?z1 = z_seq z" "z_pkt_count ?z1 = z_pkt_count z"
    using start(2,3) by (simp_all add: next_build build_next_def)
  have ok1: "pktz_ok ?z1" by (rule next_ok [OF start(1)])
  have p1: "z_blk_idx ?z1 + ticks p B1 \<le> 5" "z_fill_buf ?z1 \<noteq> z_send_buf ?z1"
    using pace_run [OF tb(1)] tb(2) start by (simp_all add: pktz_ok_def)
  have sb: "sent_blocks ?z1 = packet_blocks 6 a" using sent_blocks_kept [OF tb(1) start(1,5)] ids(4) by simp
  have F: "map ?F [0..<TOTAL] = aaf_packet a (pres_time b)"
    using frame_is_software [OF ids(1,2), of ?z1] z1 ids(3) sb by simp
  have len1: "length B1 \<le> TOTAL - 1" by (simp add: B_eq)
  have x: "z_fsm ?x = Build" "built ?F (TOTAL - 1) ?x" "z_seq ?x = z_seq z" "z_pres ?x = z_pres ?z1"
    "z_pkt_count ?x = z_pkt_count z" "clk_outs (pktz_next p) pktz_out B1 ?z1 = []"
    using build_run [OF z1(1,2) ok1 p1(2) len1 p1(1)] B_eq(2) z1(4,5) by simp_all
  have "cur_byte p ?x = frame_byte p ?x (TOTAL - 1)" using x(2) by (simp add: cur_byte_at built_def)
  also have "\<dots> = ?F (TOTAL - 1)"
    using x z1(4) sent_blocks_kept [OF p1(1) ok1 p1(2)] by (intro frame_byte_cong) (simp_all add: t)
  finally have l: "z_fsm y = Stream \<and> z_rd_idx y = 0 \<and> z_seq y = z_seq ?x \<and> (\<forall>w < N_WORDS. z_frame_ram y ! w = beat (map ?F [0..<TOTAL]) w)"
    using build_last [OF x(1,2) _ run_ok [OF ok1], of p i] by (simp add: y_def B_eq)
  have "z_pkt_count y = z_pkt_count ?x" using x(1) by (simp add: y_def B_eq next_build build_next_def Let_def)
  then show ?thesis using l x z1 start(2) by (simp add: B_eq F out_silent)
qed

text \<open>One period of the packetizer: six ticks, the builder, the MAC.\<close>

lemma packetizer_period:
  assumes start: "pktz_ok z" "z_fsm z = Idle" "\<not> z_send_req z" "z_blk_idx z = 0"
    and ids: "aaf_ids_ok a" "bound_for a p" "a_tx_seq a = z_seq z"
    and A: "ticks p A = 6" "strobe p (last A)" "tick_blocks p A = packet_blocks 6 a"
    and B: "length B = 1 + TOTAL" "ticks p B \<le> 5"
    and C: "length (filter i_ready C) = N_WORDS" "i_ready (last C)"
  defines "y \<equiv> fold (pktz_next p) (A @ B @ C) z"
  shows "clk_outs (pktz_next p) pktz_out (A @ B @ C) z = mac_beats (aaf_packet a (pres_time (hd B)))"
    "z_fsm y = Idle" "z_seq y = z_seq z + 1" "z_pkt_count y = z_pkt_count z + 1"
proof -
  let ?y = "fold (pktz_next p) A z" and ?bs = "aaf_packet a (pres_time (hd B))"
  let ?x = "fold (pktz_next p) B ?y"
  note g = gather [OF start A(1,2)]
  have seq: "a_tx_seq a = z_seq ?y" using g ids(3) by simp
  have b: "z_fsm ?x = Stream" "z_rd_idx ?x = 0" "z_seq ?x = z_seq z" "z_pkt_count ?x = z_pkt_count z"
    "\<forall>w < N_WORDS. z_frame_ram ?x ! w = beat ?bs w" "clk_outs (pktz_next p) pktz_out B ?y = []"
    using build_packet [OF run_ok [OF start(1), of p A] _ _ _ _ ids(1,2) seq _ B] g A(3) by simp_all
  have t: "length ?bs = TOTAL" "(0 :: nat) < N_WORDS"
    using length_aaf_packet [OF ids(1)] by (simp_all add: TOTAL_def HDR_LEN_def PAY_LEN_def N_WORDS_def)
  have c: "clk_outs (pktz_next p) pktz_out C ?x = mac_beats ?bs" "z_fsm (fold (pktz_next p) C ?x) = Idle"
    "z_seq (fold (pktz_next p) C ?x) = z_seq ?x + 1" "z_pkt_count (fold (pktz_next p) C ?x) = z_pkt_count ?x + 1"
    using stream_run [OF b(1,5) t(1) _ _ C(2)] C(1) t(2) b(2) by simp_all
  show "clk_outs (pktz_next p) pktz_out (A @ B @ C) z = mac_beats ?bs"
    "z_fsm y = Idle" "z_seq y = z_seq z + 1" "z_pkt_count y = z_pkt_count z + 1"
    unfolding y_def using b(3,4,6) c g by simp_all
qed

text \<open>
  C3.  The gateware talker sends what the software talker would.  Let the registers of the
  packetizer hold the binding of a stream engine \<open>a\<close>, and let the packetizer be at rest.  Over
  any cycles \<open>A\<close> with six ticks of the media clock (whatever lies between them), then the 235
  cycles \<open>B\<close> the builder takes, with at most five more ticks, then cycles \<open>C\<close> in which the MAC
  takes 59 beats (whenever it likes), it hands over exactly the beats of the frame that
  \<open>aaf_send_packet\<close> sends for the same six blocks, sequence number and time -- header, VLAN tag,
  presentation time and all samples, an empty FIFO and an empty ring both giving silence -- and
  it is at rest again with the next sequence number.
\<close>

theorem gateware_sends_software_packet:
  assumes start: "pktz_ok z" "z_fsm z = Idle" "\<not> z_send_req z" "z_blk_idx z = 0"
    and ids: "aaf_ids_ok a" "bound_for a p" "a_tx_seq a = z_seq z"
    and A: "ticks p A = 6" "strobe p (last A)" "tick_blocks p A = packet_blocks 6 a"
    and B: "length B = 1 + TOTAL" "ticks p B \<le> 5"
    and C: "length (filter i_ready C) = N_WORDS" "i_ready (last C)"
    and now: "peek_time h = \<lparr>seconds = ucast (i_seconds (hd B)), nanoseconds = i_nanoseconds (hd B)\<rparr>"
  shows "clk_outs (pktz_next p) pktz_out (A @ B @ C) z = mac_beats (last (hw_sent (snd (aaf_send_packet (a, h)))))
    \<and> z_fsm (fold (pktz_next p) (A @ B @ C) z) = Idle
    \<and> z_seq (fold (pktz_next p) (A @ B @ C) z) = a_tx_seq (fst (aaf_send_packet (a, h)))
    \<and> z_pkt_count (fold (pktz_next p) (A @ B @ C) z) = z_pkt_count z + 1"
proof -
  have "last (hw_sent (snd (aaf_send_packet (a, h)))) = aaf_packet a (pres_time (hd B))"
    using aaf_send_packet_sent [OF ids(1)] now pres_time_is_software [of "hd B"] by simp
  moreover have "a_tx_seq (fst (aaf_send_packet (a, h))) = a_tx_seq a + 1"
    by (simp add: aaf_send_packet_eq)
  ultimately show ?thesis using packetizer_period [OF start ids A B C] ids(3) by simp
qed

definition demo_binding :: aaf_pkt where
  "demo_binding = (let a = demo_talker
     in \<lparr>pk_src_hi = be16_at (a_src_mac a) 0, pk_src_lo = be32_at (a_src_mac a) 2, pk_dst_hi = be16_at (a_dest_mac a) 0,
         pk_dst_lo = be32_at (a_dest_mac a) 2, pk_sid_hi = be32_at (a_stream_id a) 0, pk_sid_lo = be32_at (a_stream_id a) 4,
         pk_vlan_tci = push_bit 13 (ucast (a_tx_pcp a AND 0x07)) OR ucast (a_tx_vid a AND 0x0FFF), pk_enable = 1\<rparr>)"

definition demo_quiet :: pktz_in where
  "demo_quiet = \<lparr>i_usb_lo = 0, i_usb_hi = 0, i_usb_readable = False, i_fifo_writable = True, i_fifo_readable = False,
     i_fifo_dout = [], i_sample_strobe = False, i_seconds = 0, i_nanoseconds = 0, i_ready = True\<rparr>"

definition demo_tick :: pktz_in where
  "demo_tick = demo_quiet\<lparr>i_sample_strobe := True, i_fifo_readable := True, i_fifo_dout := [1, 2, 3, 4, 5, 6, 7, 8]\<rparr>"

lemma demo_binding_bound: "bound_for demo_talker demo_binding" "bit (pk_enable demo_binding) 0"
  by (simp_all add: bound_for_def demo_binding_def Let_def)

definition demo_period :: "pktz_in list" where
  "demo_period = replicate 6 demo_tick @ replicate 235 demo_quiet @ replicate 59 demo_quiet"

lemma demo_strobes: "strobe demo_binding demo_tick" "\<not> strobe demo_binding demo_quiet"
  using demo_binding_bound(2) by (simp_all add: strobe_def demo_tick_def demo_quiet_def)

lemma demo_ticks:
  "ticks demo_binding (replicate 6 demo_tick) = 6" "strobe demo_binding (last (replicate 6 demo_tick))"
  "tick_blocks demo_binding (replicate 6 demo_tick) = packet_blocks 6 demo_talker"
  using demo_strobes by (simp_all add: ticks_def tick_blocks_def filter_replicate packet_blocks_def demo_talker_queue)
    (simp add: tick_block_def demo_tick_def)

lemma demo_builder: "length (replicate 235 demo_quiet) = 1 + TOTAL" "ticks demo_binding (replicate 235 demo_quiet) \<le> 5"
  using demo_strobes by (simp_all add: ticks_def TOTAL_def HDR_LEN_def PAY_LEN_def)

lemma demo_mac: "length (filter i_ready (replicate 59 demo_quiet)) = N_WORDS" "i_ready (last (replicate 59 demo_quiet))"
  by (simp_all add: demo_quiet_def N_WORDS_def TOTAL_def HDR_LEN_def PAY_LEN_def)

lemma demo_start: "z_fsm pktz_reset = Idle" "\<not> z_send_req pktz_reset" "z_blk_idx pktz_reset = 0" "a_tx_seq demo_talker = z_seq pktz_reset"
  by (simp_all add: pktz_reset_def demo_talker_def aaf_zero_def aaf_init_def aaf_tx_push_def Let_def numeral_eq_Suc)

theorem gateware_sends_software_packet_witness:
  "clk_outs (pktz_next demo_binding) pktz_out demo_period pktz_reset = mac_beats (last (hw_sent (snd (aaf_send_packet (demo_talker, hw0)))))"
  unfolding demo_period_def
  by (rule gateware_sends_software_packet [OF pktz_reset_ok demo_start(1-3) demo_talker_ids(1) demo_binding_bound(1) demo_start(4) demo_ticks
        demo_builder demo_mac, THEN conjunct1])
    (simp add: demo_quiet_def hw0_def)

section \<open>The assembler\<close>

text \<open>
  The word the firmware would read for the sample at the head of the USB FIFO, and the
  firmware's state that corresponds to the registers of the assembler.
\<close>

definition csr_word :: "pktz_in \<Rightarrow> u32" where
  "csr_word i = (i_usb_lo i AND 0xFFFFFF00) OR (if i_usb_readable i then 0x10 else 0) OR (i_usb_hi i AND 0xF)"

definition same_frame :: "pktz \<Rightarrow> board \<Rightarrow> bool" where
  "same_frame z b \<longleftrightarrow> z_cur z = b_usb_block b \<and> (z_have z \<longleftrightarrow> b_usb_have b \<noteq> 0) \<and> length (b_usb_block b) = AAF_CHANNELS"

definition push_block :: "u32 list \<Rightarrow> aaf_state \<Rightarrow> aaf_state" where
  "push_block x a = (if a_tx_enabled a \<noteq> 0 then aaf_tx_push a x else a)"

lemma csr_word_fields:
  assumes "i_usb_readable i"
  shows "csr_word i AND 7 = i_usb_hi i AND 7" "csr_word i AND 0xFFFFFF00 = i_usb_lo i AND 0xFFFFFF00"
    "drop_bit 3 (csr_word i) AND 1 \<noteq> 0 \<longleftrightarrow> usb_first i"
proof -
  have m: "(7 :: u32) = mask 3" "(0xF :: u32) = mask 4" "(0xFFFFFF00 :: u32) = NOT (mask 8)"
    by (simp_all add: mask_eq_exp_minus_1)
  have w: "csr_word i = (i_usb_lo i AND NOT (mask 8)) OR 0x10 OR (i_usb_hi i AND mask 4)"
    using assms by (simp only: csr_word_def m if_True)
  have b: "bit (0x10 :: u32) n \<longleftrightarrow> n = 4" for n using bit_exp_iff [where 'a = "32 word", of 4 n] by (cases "n < 32") (auto dest: bit_imp_le_length)
  show "csr_word i AND 7 = i_usb_hi i AND 7" unfolding w m by (rule bit_word_eqI) (auto simp: bit_simps b simp del: bit_numeral_word_iff)
  show "csr_word i AND 0xFFFFFF00 = i_usb_lo i AND 0xFFFFFF00" unfolding w m by (rule bit_word_eqI) (auto simp: bit_simps b simp del: bit_numeral_word_iff)
  have "drop_bit 3 (csr_word i) AND 1 \<noteq> 0 \<longleftrightarrow> bit (csr_word i) 3" by (simp add: and_one_eq mod_2_eq_odd bit_iff_odd_drop_bit)
  then show "drop_bit 3 (csr_word i) AND 1 \<noteq> 0 \<longleftrightarrow> usb_first i" unfolding w usb_first_def by (simp add: bit_simps b del: bit_numeral_word_iff)
qed

lemma assembler_step:
  assumes "same_frame z b" and "i_usb_readable i" and "i_fifo_writable i" and "bit (pk_enable p) 0"
  shows "same_frame (pktz_next p i z) (usb_sample (csr_word i) b)"
    and "b_aaf (usb_sample (csr_word i) b) = fold push_block (fifo_write p i z) (b_aaf b)"
proof -
  have pop: "do_pop p i z" using assms by (simp add: do_pop_def)
  have "i_usb_hi i AND 7 \<le> 7" by (rule word_and_le1)
  then have ch: "unat (i_usb_hi i AND 7) < 8" by (simp add: word_le_nat_alt)
  show "same_frame (pktz_next p i z) (usb_sample (csr_word i) b)"
    using assms pop ch by (auto simp: same_frame_def next_assemble assemble_next_def usb_sample_def csr_word_fields need_push_def AAF_CHANNELS_def Let_def)
  show "b_aaf (usb_sample (csr_word i) b) = fold push_block (fifo_write p i z) (b_aaf b)"
    using assms pop by (auto simp: same_frame_def fifo_write_def usb_sample_def csr_word_fields need_push_def push_block_def Let_def)
qed

text \<open>
  C17.  The gateware assembler cuts the samples like the firmware's drain.  As long as the block
  FIFO has room, the blocks the assembler writes while it pops a sequence of USB samples are the
  blocks the firmware pushes when it reads the same samples, in the same order, and the frame
  under assembly is the same afterwards; a cycle without a sample changes nothing.
\<close>

theorem assembler_is_software_drain:
  assumes "same_frame z b" and "bit (pk_enable p) 0" and "\<forall>i \<in> set is. i_usb_readable i \<longrightarrow> i_fifo_writable i"
  defines "b' \<equiv> fold usb_sample (map csr_word (filter i_usb_readable is)) b"
  shows "same_frame (fold (pktz_next p) is z) b' \<and> b_aaf b' = fold push_block (clk_outs (pktz_next p) (fifo_write p) is z) (b_aaf b)"
  using assms(1,3) unfolding b'_def
proof (induction "is" arbitrary: z b)
  case Nil
  then show ?case by simp
next
  case (Cons i "is")
  show ?case
  proof (cases "i_usb_readable i")
    case True
    then show ?thesis using Cons assembler_step [OF Cons.prems(1) True _ assms(2)] by simp
  next
    case False
    then have "same_frame (pktz_next p i z) b" "fifo_write p i z = []"
      using Cons.prems(1) by (simp_all add: same_frame_def next_assemble assemble_next_def do_pop_def fifo_write_def)
    then show ?thesis using False Cons by simp
  qed
qed

text \<open>Eight samples of one frame, with a pause, then the first sample of the next.\<close>

definition demo_usb :: "nat \<Rightarrow> u32 \<Rightarrow> pktz_in" where
  "demo_usb ch v = demo_quiet\<lparr>i_usb_readable := True, i_usb_lo := push_bit 8 v,
     i_usb_hi := (if ch = 0 then 8 else of_nat ch)\<rparr>"

definition demo_usb_frame :: "pktz_in list" where
  "demo_usb_frame = map (\<lambda>ch. demo_usb ch (of_nat ch + 1)) [0, 1, 2, 3] @ demo_quiet # map (\<lambda>ch. demo_usb ch (of_nat ch + 1)) [4, 5, 6, 7]
     @ [demo_usb 0 9]"

lemma demo_usb_blocks: "clk_outs (pktz_next demo_binding) (fifo_write demo_binding) demo_usb_frame pktz_reset
    = [[0x100, 0x200, 0x300, 0x400, 0x500, 0x600, 0x700, 0x800]]"
  by code_simp

theorem assembler_is_software_drain_witness:
  "\<forall>b. b_aaf (fold usb_sample (map csr_word (filter i_usb_readable demo_usb_frame)) (b\<lparr>b_usb_block := replicate 8 0, b_usb_have := 0\<rparr>))
     = push_block [0x100, 0x200, 0x300, 0x400, 0x500, 0x600, 0x700, 0x800] (b_aaf b)"
proof
  fix b :: board
  let ?b = "b\<lparr>b_usb_block := replicate 8 0, b_usb_have := 0\<rparr>"
  have "same_frame pktz_reset ?b" by (simp add: same_frame_def pktz_reset_def AAF_CHANNELS_def)
  moreover have "\<forall>i \<in> set demo_usb_frame. i_usb_readable i \<longrightarrow> i_fifo_writable i"
    by (simp add: demo_usb_frame_def demo_usb_def demo_quiet_def)
  ultimately show "b_aaf (fold usb_sample (map csr_word (filter i_usb_readable demo_usb_frame)) ?b)
     = push_block [0x100, 0x200, 0x300, 0x400, 0x500, 0x600, 0x700, 0x800] (b_aaf b)"
    using assembler_is_software_drain [OF _ demo_binding_bound(2), of pktz_reset ?b demo_usb_frame] by (simp add: demo_usb_blocks)
qed

end
