(* ===== verification/ExtractorProps.thy ===== *)
theory ExtractorProps
  imports Extractor PacketizerProps
begin

text \<open>
  The extractors recognise a stream by subtype, stream id and (the sample extractor) address,
  tagged or not and whatever the EtherType, whenever the beats of a frame arrive, and hand over
  what the firmware would read from the frame: the samples of the first two channels, and the time
  of a CRF frame.
\<close>

section \<open>Keys\<close>

lemma be_word_48:
  assumes "length m = 6"
  shows "sig48 (be16_at m 0) (be32_at m 2) = be_word m"
proof -
  have mask: "(0xFFFF :: u32) = mask 16" by (simp add: mask_eq_exp_minus_1)
  obtain a b c d e f where m: "m = [a, b, c, d, e, f]" using list_6 [OF assms] by blast
  show ?thesis
  proof (rule bit_word_eqI)
    fix n assume "n < LENGTH(48)"
    then have "n < 48" by simp
    then show "bit (sig48 (be16_at m 0) (be32_at m 2)) n = bit (be_word m :: 48 word) n"
      unfolding m sig48_def mask be16_at_def be32_at_def get_be32_def mem_of_def be_word_def
      by (cases "n < 8"; cases "n < 16"; cases "n < 24"; cases "n < 32"; cases "n < 40"; simp add: bit_simps byte_high not_less less_diff_conv2 le_diff_conv2)
  qed
qed

lemma be_word_64:
  assumes "length m = 8"
  shows "sig64 (be32_at m 0) (be32_at m 4) = be_word m"
proof -
  obtain a b c d e f g h where m: "m = [a, b, c, d, e, f, g, h]" using list_8 [OF assms] by blast
  show ?thesis
  proof (rule bit_word_eqI)
    fix n assume "n < LENGTH(64)"
    then have "n < 64" by simp
    then show "bit (sig64 (be32_at m 0) (be32_at m 4)) n = bit (be_word m :: u64) n"
      unfolding m sig64_def be32_at_def get_be32_def mem_of_def be_word_def
      by (cases "n < 8"; cases "n < 16"; cases "n < 24"; cases "n < 32"; cases "n < 40"; cases "n < 48"; cases "n < 56"; simp add: bit_simps byte_high not_less less_diff_conv2 le_diff_conv2)
  qed
qed

lemma be_word_48_inj: "length xs = 6 \<Longrightarrow> length ys = 6 \<Longrightarrow> (be_word xs :: 48 word) = be_word ys \<longleftrightarrow> xs = ys"
  by (metis be_word_48 mac_bytes)

lemma be_word_64_inj: "length xs = 8 \<Longrightarrow> length ys = 8 \<Longrightarrow> (be_word xs :: u64) = be_word ys \<longleftrightarrow> xs = ys"
  by (metis be_word_64 sid_bytes)

text \<open>The header words hold the first 32 bytes of the frame.\<close>

definition holds :: "u32 list \<Rightarrow> u8 list \<Rightarrow> nat \<Rightarrow> bool" where
  "holds ws bs n \<longleftrightarrow> (\<forall>w < n. ws ! w = beat bs w)"

lemma hdr_byte_holds: "holds ws bs n \<Longrightarrow> off < 4 * n \<Longrightarrow> off < length bs \<Longrightarrow> hdr_byte ws off = mem_of bs off"
  by (simp add: hdr_byte_def holds_def lane_beat mem_of_def)

text \<open>Where the AVTP header of a frame starts, counted from where it starts without a tag.\<close>

definition tag_len :: "u8 list \<Rightarrow> nat" where
  "tag_len bs = (if mem_of bs 12 = 0x81 \<and> mem_of bs 13 = 0x00 then 4 else 0)"

lemma keys_of_frame:
  assumes "holds ws bs 8" and "32 \<le> length bs"
  shows "vlan_comb ws \<longleftrightarrow> tag_len bs = 4" "subtype_comb ws = mem_of bs (14 + tag_len bs)"
    "sid_comb ws = be_word (bytes (mem_of bs) (18 + tag_len bs) 8)" "dst_mac_comb ws = be_word (bytes (mem_of bs) 0 6)"
proof -
  note h = hdr_byte_holds [OF assms(1)]
  show v: "vlan_comb ws \<longleftrightarrow> tag_len bs = 4" using assms(2) by (simp add: vlan_comb_def tag_len_def h)
  show "subtype_comb ws = mem_of bs (14 + tag_len bs)"
    using v assms(2) by (auto simp: subtype_comb_def tag_len_def h)
  have "map (\<lambda>k. if vlan_comb ws then hdr_byte ws (22 + k) else hdr_byte ws (18 + k)) [0..<8] = bytes (mem_of bs) (18 + tag_len bs) 8"
    unfolding v using assms(2) by (auto simp: bytes_def h tag_len_def intro!: map_cong)
  then show "sid_comb ws = be_word (bytes (mem_of bs) (18 + tag_len bs) 8)" by (simp add: sid_comb_def)
  have "map (hdr_byte ws) [0..<6] = bytes (mem_of bs) 0 6" using assms(2) by (auto simp: bytes_def h)
  then show "dst_mac_comb ws = be_word (bytes (mem_of bs) 0 6)" by (simp add: dst_mac_comb_def)
qed

definition programmed :: "filter_slot \<Rightarrow> u8 list \<Rightarrow> u8 list \<Rightarrow> bool" where
  "programmed fs sid dst \<longleftrightarrow> length sid = 8 \<and> length dst = 6
     \<and> fs = \<lparr>fs_sid_hi = be32_at sid 0, fs_sid_lo = be32_at sid 4, fs_mac_hi = be16_at dst 0, fs_mac_lo = be32_at dst 2, fs_enabled = 1\<rparr>"

text \<open>
  The keys of a stream at their places in a frame: the AAF subtype, this stream id and this
  address.  The EtherType is not among them.
\<close>

definition has_stream_keys :: "u8 list \<Rightarrow> u8 list \<Rightarrow> u8 list \<Rightarrow> bool" where
  "has_stream_keys sid dst bs \<longleftrightarrow> mem_of bs (14 + tag_len bs) = AVTP_SUBTYPE_AAF
     \<and> bytes (mem_of bs) (18 + tag_len bs) 8 = sid \<and> bytes (mem_of bs) 0 6 = dst"

lemma tag_len_cases: "tag_len bs = 0 \<or> tag_len bs = 4"
  by (simp add: tag_len_def)

text \<open>The frame with another EtherType, behind the tag if there is one.\<close>

definition with_ethertype :: "u16 \<Rightarrow> u8 list \<Rightarrow> u8 list" where
  "with_ethertype e bs = (let p = 12 + tag_len bs in take p bs @ put_be16 e @ drop (p + 2) bs)"

lemma with_ethertype_bytes:
  assumes "14 + tag_len bs \<le> length bs"
  shows "length (with_ethertype e bs) = length bs"
    "i < 12 + tag_len bs \<or> 14 + tag_len bs \<le> i \<Longrightarrow> mem_of (with_ethertype e bs) i = mem_of bs i"
  using assms by (auto simp: with_ethertype_def Let_def mem_of_def nth_append)

lemma with_ethertype_keys:
  assumes "18 \<le> length bs" and "tag_len bs = 4 \<or> e \<noteq> 0x8100"
  shows "has_stream_keys sid dst (with_ethertype e bs) \<longleftrightarrow> has_stream_keys sid dst bs"
proof -
  have l: "14 + tag_len bs \<le> length bs" using assms(1) tag_len_cases [of bs] by auto
  note w = with_ethertype_bytes(2) [OF l, of _ e]
  have t: "tag_len (with_ethertype e bs) = tag_len bs"
  proof (cases "tag_len bs = 4")
    case True
    then show ?thesis using w [of 12] w [of 13] by (simp add: tag_len_def)
  next
    case False
    then have z: "tag_len bs = 0" "e \<noteq> 0x8100" using tag_len_cases [of bs] assms(2) by auto
    have "mem_of (with_ethertype e bs) 12 = ucast (drop_bit 8 e)" "mem_of (with_ethertype e bs) 13 = ucast e"
      using l z(1) with_ethertype_bytes(1) [OF l, of e] unfolding mem_of_def by (simp_all add: with_ethertype_def Let_def nth_append put_be16_def)
    moreover have "e = 0x8100" if "ucast (drop_bit 8 e) = (0x81 :: u8)" "ucast e = (0 :: u8)"
      using put_be16_inject [of e "0x8100"] that by (simp add: put_be16_def)
    ultimately show ?thesis using z by (auto simp: tag_len_def)
  qed
  have "bytes (mem_of (with_ethertype e bs)) (18 + tag_len bs) 8 = bytes (mem_of bs) (18 + tag_len bs) 8"
    "bytes (mem_of (with_ethertype e bs)) 0 6 = bytes (mem_of bs) 0 6"
    by (rule bytes_cong, rule w, simp)+
  then show ?thesis using w [of "14 + tag_len bs"] by (simp add: has_stream_keys_def t)
qed

lemma slot_matches_iff:
  assumes "programmed fs sid dst" and "holds ws bs 8" and "32 \<le> length bs"
  shows "(slot_matches fs (dst_mac_comb ws) (sid_comb ws) \<and> subtype_comb ws = AVTP_SUBTYPE_AAF) \<longleftrightarrow> has_stream_keys sid dst bs"
proof -
  have l: "length (bytes (mem_of bs) p n) = n" for p n by simp
  show ?thesis
    using assms(1) unfolding slot_matches_def keys_of_frame [OF assms(2,3)] programmed_def has_stream_keys_def
    by (auto simp: be_word_48 be_word_64 be_word_48_inj be_word_64_inj)
qed

section \<open>Receiving a frame\<close>

definition xtr_ready :: "xtr \<Rightarrow> bool" where
  "xtr_ready x \<longleftrightarrow> x_state x = ExIdle \<and> x_beat_idx x = 0 \<and> \<not> x_eof_b x \<and> \<not> x_eof_c x \<and> length (x_frame_buf x) = 64
     \<and> length (x_hdr_words x) = 8"

lemma xtr_reset_ready: "xtr_ready xtr_reset"
  by (simp add: xtr_ready_def xtr_reset_def)

text \<open>Cycles in which the beats of a frame arrive, in this order, with gaps anywhere but at the end.\<close>

definition carries_frame :: "xtr_in list \<Rightarrow> u8 list \<Rightarrow> bool" where
  "carries_frame J bs \<longleftrightarrow> map (\<lambda>i. (r_data i, r_last i)) (filter r_valid J) = map (\<lambda>(d, l, e). (d, l)) (mac_beats bs)
     \<and> J \<noteq> [] \<and> r_valid (last J)"

text \<open>Each stage writes its own registers.\<close>

lemma capture_keeps [simp]:
  "x_rd_adr (capture_next i x x') = x_rd_adr x'" "x_vlan_b (capture_next i x x') = x_vlan_b x'"
  "x_subtype_b (capture_next i x x') = x_subtype_b x'" "x_dst_mac_b (capture_next i x x') = x_dst_mac_b x'"
  "x_sid_b (capture_next i x x') = x_sid_b x'" "x_eof_b (capture_next i x x') = x_eof_b x'"
  "x_match_c (capture_next i x x') = x_match_c x'" "x_eof_c (capture_next i x x') = x_eof_c x'"
  "x_vlan_c (capture_next i x x') = x_vlan_c x'" "x_state (capture_next i x x') = x_state x'"
  "x_sample_n (capture_next i x x') = x_sample_n x'" "x_beat_addr (capture_next i x x') = x_beat_addr x'"
  "x_prev_word (capture_next i x x') = x_prev_word x'"
  by (simp_all add: capture_next_def)

lemma stage_b_keeps [simp]:
  "x_frame_buf (stage_b_next i x x') = x_frame_buf x'" "x_rd_adr (stage_b_next i x x') = x_rd_adr x'"
  "x_beat_idx (stage_b_next i x x') = x_beat_idx x'" "x_hdr_words (stage_b_next i x x') = x_hdr_words x'"
  "x_match_c (stage_b_next i x x') = x_match_c x'" "x_eof_c (stage_b_next i x x') = x_eof_c x'"
  "x_vlan_c (stage_b_next i x x') = x_vlan_c x'" "x_state (stage_b_next i x x') = x_state x'"
  "x_sample_n (stage_b_next i x x') = x_sample_n x'" "x_beat_addr (stage_b_next i x x') = x_beat_addr x'"
  "x_prev_word (stage_b_next i x x') = x_prev_word x'"
  by (simp_all add: stage_b_next_def Let_def)

lemma stage_c_keeps [simp]:
  "x_frame_buf (stage_c_next fs x x') = x_frame_buf x'" "x_rd_adr (stage_c_next fs x x') = x_rd_adr x'"
  "x_beat_idx (stage_c_next fs x x') = x_beat_idx x'" "x_hdr_words (stage_c_next fs x x') = x_hdr_words x'"
  "x_vlan_b (stage_c_next fs x x') = x_vlan_b x'" "x_subtype_b (stage_c_next fs x x') = x_subtype_b x'"
  "x_dst_mac_b (stage_c_next fs x x') = x_dst_mac_b x'" "x_sid_b (stage_c_next fs x x') = x_sid_b x'"
  "x_eof_b (stage_c_next fs x x') = x_eof_b x'" "x_state (stage_c_next fs x x') = x_state x'"
  "x_sample_n (stage_c_next fs x x') = x_sample_n x'" "x_beat_addr (stage_c_next fs x x') = x_beat_addr x'"
  "x_prev_word (stage_c_next fs x x') = x_prev_word x'"
  by (simp_all add: stage_c_next_def Let_def)

lemma replay_keeps [simp]:
  "x_frame_buf (replay_next x x') = x_frame_buf x'" "x_beat_idx (replay_next x x') = x_beat_idx x'"
  "x_hdr_words (replay_next x x') = x_hdr_words x'" "x_vlan_b (replay_next x x') = x_vlan_b x'"
  "x_subtype_b (replay_next x x') = x_subtype_b x'" "x_dst_mac_b (replay_next x x') = x_dst_mac_b x'"
  "x_sid_b (replay_next x x') = x_sid_b x'" "x_eof_b (replay_next x x') = x_eof_b x'"
  "x_match_c (replay_next x x') = x_match_c x'" "x_eof_c (replay_next x x') = x_eof_c x'"
  "x_vlan_c (replay_next x x') = x_vlan_c x'"
  by (cases "x_state x"; simp add: replay_next_def Let_def)+

lemma counters_keep [simp]:
  "x_frame_buf (counters_next x x') = x_frame_buf x'" "x_rd_adr (counters_next x x') = x_rd_adr x'"
  "x_beat_idx (counters_next x x') = x_beat_idx x'" "x_hdr_words (counters_next x x') = x_hdr_words x'"
  "x_vlan_b (counters_next x x') = x_vlan_b x'" "x_subtype_b (counters_next x x') = x_subtype_b x'"
  "x_dst_mac_b (counters_next x x') = x_dst_mac_b x'" "x_sid_b (counters_next x x') = x_sid_b x'"
  "x_eof_b (counters_next x x') = x_eof_b x'" "x_match_c (counters_next x x') = x_match_c x'"
  "x_eof_c (counters_next x x') = x_eof_c x'" "x_vlan_c (counters_next x x') = x_vlan_c x'"
  "x_state (counters_next x x') = x_state x'" "x_sample_n (counters_next x x') = x_sample_n x'"
  "x_beat_addr (counters_next x x') = x_beat_addr x'" "x_prev_word (counters_next x x') = x_prev_word x'"
  by (simp_all add: counters_next_def Let_def)

lemma replay_reads:
  assumes "x_rd_adr x' = x_rd_adr x" "x_state x' = x_state x" "x_sample_n x' = x_sample_n x" "x_beat_addr x' = x_beat_addr x"
    "x_prev_word x' = x_prev_word x"
  shows "x_state (replay_next x x') = x_state (replay_next x x)" "x_sample_n (replay_next x x') = x_sample_n (replay_next x x)"
    "x_beat_addr (replay_next x x') = x_beat_addr (replay_next x x)" "x_prev_word (replay_next x x') = x_prev_word (replay_next x x)"
    "x_rd_adr (replay_next x x') = x_beat_addr x mod 64"
  using assms by (cases "x_state x"; simp add: replay_next_def Let_def)+

lemma xtr_fields:
  "x_state (xtr_next fs i x) = x_state (replay_next x x)" "x_beat_idx (xtr_next fs i x) = x_beat_idx (capture_next i x x)"
  "x_frame_buf (xtr_next fs i x) = x_frame_buf (capture_next i x x)" "x_hdr_words (xtr_next fs i x) = x_hdr_words (capture_next i x x)"
  "x_eof_b (xtr_next fs i x) = frame_done i" "x_eof_c (xtr_next fs i x) = x_eof_b x"
  "x_sample_n (xtr_next fs i x) = x_sample_n (replay_next x x)" "x_beat_addr (xtr_next fs i x) = x_beat_addr (replay_next x x)"
  "x_prev_word (xtr_next fs i x) = x_prev_word (replay_next x x)" "x_rd_adr (xtr_next fs i x) = x_beat_addr x mod 64"
  "x_vlan_c (xtr_next fs i x) = (if x_eof_b x then x_vlan_b x else x_vlan_c x)"
  "x_match_c (xtr_next fs i x) = (if x_eof_b x then slot_matches fs (x_dst_mac_b x) (x_sid_b x) \<and> x_subtype_b x = AVTP_SUBTYPE_AAF else x_match_c x)"
  unfolding xtr_next_def
  by (simp_all add: replay_reads [of "stage_c_next fs x (stage_b_next i x (capture_next i x x))" x])
    (simp_all add: stage_b_next_def stage_c_next_def Let_def)

lemma keys_latched:
  assumes "frame_done i"
  shows "x_vlan_b (xtr_next fs i x) = vlan_comb (x_hdr_words x)" "x_subtype_b (xtr_next fs i x) = subtype_comb (x_hdr_words x)"
    "x_dst_mac_b (xtr_next fs i x) = dst_mac_comb (x_hdr_words x)" "x_sid_b (xtr_next fs i x) = sid_comb (x_hdr_words x)"
  unfolding xtr_next_def using assms by (simp_all add: stage_b_next_def Let_def)

section \<open>Capturing the beats\<close>

lemma capture_run:
  fixes fs :: filter_slot
  assumes "xtr_ready x" and "\<forall>i \<in> set is. r_valid i \<longrightarrow> \<not> r_last i" and "length (filter r_valid is) \<le> 64"
  defines "y \<equiv> fold (xtr_next fs) is x"
  shows "x_state y = ExIdle \<and> \<not> x_eof_b y \<and> \<not> x_eof_c y \<and> x_beat_idx y = length (filter r_valid is)
    \<and> length (x_frame_buf y) = 64 \<and> length (x_hdr_words y) = 8 \<and> clk_outs (xtr_next fs) xtr_out is x = []
    \<and> (\<forall>w < length (filter r_valid is). x_frame_buf y ! w = r_data (filter r_valid is ! w) \<and> (w < 8 \<longrightarrow> x_hdr_words y ! w = r_data (filter r_valid is ! w)))"
  using assms(2,3) unfolding y_def
proof (induction "is" rule: rev_induct)
  case Nil
  then show ?case using assms(1) by (simp add: xtr_ready_def)
next
  case (snoc i js)
  let ?y = "fold (xtr_next fs) js x" and ?n = "length (filter r_valid js)"
  have IH: "x_state ?y = ExIdle" "\<not> x_eof_b ?y" "\<not> x_eof_c ?y" "x_beat_idx ?y = ?n" "length (x_frame_buf ?y) = 64" "length (x_hdr_words ?y) = 8"
    "clk_outs (xtr_next fs) xtr_out js x = []"
    "\<forall>w < ?n. x_frame_buf ?y ! w = r_data (filter r_valid js ! w) \<and> (w < 8 \<longrightarrow> x_hdr_words ?y ! w = r_data (filter r_valid js ! w))"
    using snoc by (simp_all split: if_splits)
  have out: "xtr_out i ?y = []" using IH(1) by (simp add: xtr_out_def)
  have "\<not> frame_done i" using snoc.prems(1) by (simp add: frame_done_def)
  then show ?case
    using IH out snoc.prems
    by (cases "r_valid i") (auto simp: xtr_fields capture_next_def replay_next_def BUF_BEATS_def nth_append nth_list_update Let_def less_Suc_eq)
qed

definition n_beats :: "u8 list \<Rightarrow> nat" where "n_beats bs = (length bs + 3) div 4"

lemma marked_beats:
  assumes "map (\<lambda>i. (D i, L i)) xs = map (\<lambda>(d, l, e). (d, l)) (mac_beats bs)"
  shows "length xs = n_beats bs" "\<And>w. w < n_beats bs \<Longrightarrow> D (xs ! w) = beat bs w"
    "\<And>w. w < n_beats bs \<Longrightarrow> L (xs ! w) \<longleftrightarrow> w = n_beats bs - 1"
proof -
  have m: "map (\<lambda>i. (D i, L i)) xs = map (\<lambda>w. (beat bs w, w = n_beats bs - 1)) [0..<n_beats bs]"
    using assms by (simp add: mac_beats_def n_beats_def Let_def)
  show l: "length xs = n_beats bs" using arg_cong [OF m, of length] by simp
  show "D (xs ! w) = beat bs w" "L (xs ! w) \<longleftrightarrow> w = n_beats bs - 1" if "w < n_beats bs" for w
    using arg_cong [OF m, of "\<lambda>xs. xs ! w"] that l by simp_all
qed

lemma marked_frame:
  assumes m: "map (\<lambda>i. (D i, L i)) (filter V J) = map (\<lambda>(d, l, e). (d, l)) (mac_beats bs)" and J: "J \<noteq> []" "V (last J)"
    and n: "0 < n_beats bs"
  shows "J = butlast J @ [last J]" "length (filter V (butlast J)) = n_beats bs - 1"
    "\<And>w. w < n_beats bs - 1 \<Longrightarrow> D (filter V (butlast J) ! w) = beat bs w"
    "D (last J) = beat bs (n_beats bs - 1)" "L (last J)" "\<forall>i \<in> set (butlast J). V i \<longrightarrow> \<not> L i"
proof -
  show s: "J = butlast J @ [last J]" using J(1) by simp
  have f: "filter V J = filter V (butlast J) @ [last J]" using arg_cong [OF s, of "filter V"] J(2) by simp
  note c = marked_beats [OF m]
  show l: "length (filter V (butlast J)) = n_beats bs - 1" using c(1) by (simp add: f)
  have at: "filter V (butlast J) ! w = filter V J ! w" if "w < n_beats bs - 1" for w using that by (simp add: f l nth_append)
  show "D (filter V (butlast J) ! w) = beat bs w" if "w < n_beats bs - 1" for w using that c(2) [of w] at by simp
  show "D (last J) = beat bs (n_beats bs - 1)" "L (last J)"
    using c(2,3) [of "n_beats bs - 1"] n by (simp_all add: f nth_append l)
  show "\<forall>i \<in> set (butlast J). V i \<longrightarrow> \<not> L i"
  proof (intro ballI impI)
    fix i assume "i \<in> set (butlast J)" "V i"
    then have "i \<in> set (filter V (butlast J))" by simp
    then obtain w where "w < n_beats bs - 1" "i = filter V (butlast J) ! w" using l by (metis in_set_conv_nth)
    then show "\<not> L i" using c(3) [of w] at by simp
  qed
qed

lemma frame_end:
  assumes "xtr_ready x" and J: "carries_frame J bs" and n: "9 \<le> n_beats bs" "n_beats bs \<le> 64" and p: "programmed fs sid dst"
  defines "z \<equiv> fold (xtr_next fs) (butlast J) x" and "y \<equiv> fold (xtr_next fs) J x"
  shows "match_at_eof fs (last J) z \<longleftrightarrow> has_stream_keys sid dst bs"
    and "x_state y = ExIdle" "\<not> x_eof_c y" "x_eof_b y" "x_beat_idx y = 0" "length (x_frame_buf y) = 64"
    and "\<forall>w < n_beats bs. x_frame_buf y ! w = beat bs w" and "x_vlan_b y \<longleftrightarrow> tag_len bs = 4"
    and "slot_matches fs (x_dst_mac_b y) (x_sid_b y) \<and> x_subtype_b y = AVTP_SUBTYPE_AAF \<longleftrightarrow> has_stream_keys sid dst bs"
    and "clk_outs (xtr_next fs) xtr_out J x = []"
proof -
  have v: "r_valid (last J)" and nz: "0 < n_beats bs" using J n by (simp_all add: carries_frame_def)
  have "map (\<lambda>i. (r_data i, r_last i)) (filter r_valid J) = map (\<lambda>(d, l, e). (d, l)) (mac_beats bs)" "J \<noteq> []"
    using J by (simp_all add: carries_frame_def)
  note c = marked_frame [OF this v nz]
  have r: "x_state z = ExIdle" "\<not> x_eof_b z" "\<not> x_eof_c z" "x_beat_idx z = n_beats bs - 1" "length (x_frame_buf z) = 64"
    "clk_outs (xtr_next fs) xtr_out (butlast J) x = []"
    "\<And>w. w < n_beats bs - 1 \<Longrightarrow> x_frame_buf z ! w = beat bs w" "\<And>w. w < 8 \<Longrightarrow> x_hdr_words z ! w = beat bs w"
    using capture_run [OF assms(1) c(6), of fs] c(2,3) n by (simp_all add: z_def)
  have h: "holds (x_hdr_words z) bs 8" "32 \<le> length bs" using r(8) n(1) by (simp_all add: holds_def n_beats_def)
  have eof: "frame_done (last J)" using v c(5) by (simp add: frame_done_def)
  have y: "y = xtr_next fs (last J) z" using arg_cong [OF c(1), of "\<lambda>J. fold (xtr_next fs) J x"] by (simp add: y_def z_def)
  show "match_at_eof fs (last J) z \<longleftrightarrow> has_stream_keys sid dst bs"
    using slot_matches_iff [OF p h] v c(5) by (auto simp: match_at_eof_def)
  show "x_vlan_b y \<longleftrightarrow> tag_len bs = 4" using keys_of_frame(1) [OF h] by (simp add: y keys_latched [OF eof])
  show "slot_matches fs (x_dst_mac_b y) (x_sid_b y) \<and> x_subtype_b y = AVTP_SUBTYPE_AAF \<longleftrightarrow> has_stream_keys sid dst bs"
    using slot_matches_iff [OF p h] by (simp add: y keys_latched [OF eof])
  show "clk_outs (xtr_next fs) xtr_out J x = []"
    using r(1,6) arg_cong [OF c(1), of "\<lambda>J. clk_outs (xtr_next fs) xtr_out J x"] by (simp add: xtr_out_def z_def [symmetric])
  show "\<forall>w < n_beats bs. x_frame_buf y ! w = beat bs w"
    using r(4,5,7) n v c(4,5) by (auto simp: y xtr_fields capture_next_def BUF_BEATS_def nth_list_update less_Suc_eq)
  show "x_state y = ExIdle" "\<not> x_eof_c y" "x_eof_b y" "x_beat_idx y = 0" "length (x_frame_buf y) = 64"
    using r eof v c(5) by (simp_all add: y xtr_fields replay_next_def capture_next_def)
qed

text \<open>
  The decision at the end of a frame needs less than the replay: the extractor may be replaying an
  earlier frame and the frame may have any length from the 33 bytes that hold the header.
\<close>

definition between_frames :: "xtr \<Rightarrow> bool" where
  "between_frames x \<longleftrightarrow> x_beat_idx x = 0 \<and> length (x_hdr_words x) = 8"

lemma xtr_ready_between: "xtr_ready x \<Longrightarrow> between_frames x"
  by (simp add: xtr_ready_def between_frames_def)

lemma header_run:
  fixes fs :: filter_slot
  assumes "between_frames x" and "\<forall>i \<in> set is. r_valid i \<longrightarrow> \<not> r_last i"
  defines "y \<equiv> fold (xtr_next fs) is x" and "n \<equiv> length (filter r_valid is)"
  shows "x_beat_idx y = min 64 n \<and> length (x_hdr_words y) = 8
    \<and> (\<forall>w < min 8 n. x_hdr_words y ! w = r_data (filter r_valid is ! w))"
  using assms(2) unfolding y_def n_def
proof (induction "is" rule: rev_induct)
  case Nil
  then show ?case using assms(1) by (simp add: between_frames_def)
next
  case (snoc i js)
  then have IH: "x_beat_idx (fold (xtr_next fs) js x) = min 64 (length (filter r_valid js))"
    "length (x_hdr_words (fold (xtr_next fs) js x)) = 8"
    "\<forall>w < min 8 (length (filter r_valid js)). x_hdr_words (fold (xtr_next fs) js x) ! w = r_data (filter r_valid js ! w)"
    by simp_all
  show ?case
    using IH snoc.prems
    by (cases "r_valid i") (auto simp: xtr_fields capture_next_def BUF_BEATS_def nth_append nth_list_update less_Suc_eq min_def)
qed

lemma match_end:
  assumes "between_frames x" and J: "carries_frame J bs" and n: "33 \<le> length bs" and p: "programmed fs sid dst"
  shows "match_at_eof fs (last J) (fold (xtr_next fs) (butlast J) x) \<longleftrightarrow> has_stream_keys sid dst bs"
    and "between_frames (fold (xtr_next fs) J x)"
proof -
  let ?z = "fold (xtr_next fs) (butlast J) x"
  have nb: "9 \<le> n_beats bs" using n by (simp add: n_beats_def)
  have v: "r_valid (last J)" and nz: "0 < n_beats bs" using J nb by (simp_all add: carries_frame_def)
  have "map (\<lambda>i. (r_data i, r_last i)) (filter r_valid J) = map (\<lambda>(d, l, e). (d, l)) (mac_beats bs)" "J \<noteq> []"
    using J by (simp_all add: carries_frame_def)
  note c = marked_frame [OF this v nz]
  note r = header_run [OF assms(1) c(6), of fs, unfolded c(2)]
  have h: "holds (x_hdr_words ?z) bs 8" "32 \<le> length bs" using r c(3) nb n by (auto simp: holds_def)
  show "match_at_eof fs (last J) ?z \<longleftrightarrow> has_stream_keys sid dst bs"
    using slot_matches_iff [OF p h] v c(5) by (auto simp: match_at_eof_def)
  have "fold (xtr_next fs) J x = xtr_next fs (last J) ?z" using arg_cong [OF c(1), of "\<lambda>J. fold (xtr_next fs) J x"] by simp
  then show "between_frames (fold (xtr_next fs) J x)"
    using r v c(5) by (simp add: between_frames_def xtr_fields capture_next_def)
qed

section \<open>Replaying the samples\<close>

text \<open>Later frames overwrite the buffer from its start, at most one word a cycle.\<close>

definition kept :: "u8 list \<Rightarrow> nat \<Rightarrow> xtr \<Rightarrow> bool" where
  "kept bs k y \<longleftrightarrow> x_beat_idx y \<le> k \<and> length (x_frame_buf y) = 64 \<and> (\<forall>w. k \<le> w \<and> w < n_beats bs \<longrightarrow> x_frame_buf y ! w = beat bs w)"

lemma kept_step: "kept bs k y \<Longrightarrow> kept bs (Suc k) (xtr_next fs i y)"
  by (auto simp: kept_def xtr_fields capture_next_def BUF_BEATS_def nth_list_update)

definition replaying :: "u8 list \<Rightarrow> nat \<Rightarrow> nat \<Rightarrow> xtr \<Rightarrow> bool" where
  "replaying bs base n y \<longleftrightarrow> x_state y = ExStream \<and> x_sample_n y = n \<and> x_prev_word y = beat bs (base + n) \<and> x_rd_adr y = base + 1 + n
     \<and> x_beat_addr y = base + 2 + n \<and> kept bs (4 + n) y"

lemma step_compare:
  assumes "x_state y = ExIdle" "\<not> x_eof_c y" "x_eof_b y" "slot_matches fs (x_dst_mac_b y) (x_sid_b y) \<and> x_subtype_b y = AVTP_SUBTYPE_AAF"
  shows "x_state (xtr_next fs i y) = ExIdle" "x_eof_c (xtr_next fs i y)" "x_match_c (xtr_next fs i y)" "x_vlan_c (xtr_next fs i y) = x_vlan_b y"
  using assms by (simp_all add: xtr_fields replay_next_def)

lemma step_match:
  assumes "x_state y = ExIdle" "x_eof_c y" "x_match_c y"
  shows "x_state (xtr_next fs i y) = ExPrime" "x_beat_addr (xtr_next fs i y) = (if x_vlan_c y then 10 else 9)" "x_sample_n (xtr_next fs i y) = 0"
  using assms by (simp_all add: xtr_fields replay_next_def)

lemma step_prime:
  assumes "x_state y = ExPrime" "x_beat_addr y < 60"
  shows "x_state (xtr_next fs i y) = ExWarm" "x_beat_addr (xtr_next fs i y) = x_beat_addr y + 1"
    "x_sample_n (xtr_next fs i y) = x_sample_n y" "x_rd_adr (xtr_next fs i y) = x_beat_addr y"
  using assms by (simp_all add: xtr_fields replay_next_def)

lemma step_warm:
  assumes "x_state y = ExWarm" "x_beat_addr y < 60"
  shows "x_state (xtr_next fs i y) = ExStream" "x_beat_addr (xtr_next fs i y) = x_beat_addr y + 1" "x_sample_n (xtr_next fs i y) = x_sample_n y"
    "x_rd_adr (xtr_next fs i y) = x_beat_addr y" "x_prev_word (xtr_next fs i y) = rd_dat y"
  using assms by (simp_all add: xtr_fields replay_next_def)

lemma step_stream:
  assumes "x_state y = ExStream" "x_beat_addr y < 64"
  shows "x_state (xtr_next fs i y) = (if x_sample_n y = 47 then ExIdle else ExStream)" "x_beat_addr (xtr_next fs i y) = x_beat_addr y + 1"
    "x_sample_n y < 47 \<Longrightarrow> x_sample_n (xtr_next fs i y) = x_sample_n y + 1" "x_rd_adr (xtr_next fs i y) = x_beat_addr y mod 64"
    "x_prev_word (xtr_next fs i y) = rd_dat y"
  using assms by (simp_all add: xtr_fields replay_next_def SAMPLES_PER_FRAME_def WIRE_CHANNELS_def Let_def)

lemma replay_start:
  assumes y: "x_state y = ExIdle" "\<not> x_eof_c y" "x_eof_b y" "x_beat_idx y = 0" "length (x_frame_buf y) = 64"
    and buf: "\<forall>w < n_beats bs. x_frame_buf y ! w = beat bs w"
    and m: "slot_matches fs (x_dst_mac_b y) (x_sid_b y) \<and> x_subtype_b y = AVTP_SUBTYPE_AAF"
    and base: "base = (if x_vlan_b y then 10 else 9)" "base + 49 \<le> n_beats bs"
  shows "replaying bs base 0 (fold (xtr_next fs) [k0, k1, k2, k3] y) \<and> clk_outs (xtr_next fs) xtr_out [k0, k1, k2, k3] y = []"
proof -
  define y1 y2 y3 y4 where "y1 = xtr_next fs k0 y" and "y2 = xtr_next fs k1 y1" and "y3 = xtr_next fs k2 y2" and "y4 = xtr_next fs k3 y3"
  have b: "3 \<le> base" "base < 11" using base(1) by simp_all
  have "kept bs 0 y" using y buf by (simp add: kept_def)
  then have kept: "kept bs 3 y3" "kept bs 4 y4"
    using kept_step [of bs 0 y fs k0] kept_step [of bs 1 y1 fs k1] kept_step [of bs 2 y2 fs k2] kept_step [of bs 3 y3 fs k3]
    by (simp_all add: y1_def y2_def y3_def y4_def numeral_eq_Suc)
  note 1 = step_compare [OF y(1-3) m, of k0, folded y1_def]
  note 2 = step_match [OF 1(1-3), of fs k1, folded y2_def]
  have a2: "x_beat_addr y2 = base" using 2(2) 1(4) base(1) by simp
  have "x_beat_addr y2 < 60" using a2 b by simp
  note 3 = step_prime [OF 2(1) this, of fs k2, folded y3_def]
  have "x_beat_addr y3 < 60" using 3(2) a2 b by simp
  note 4 = step_warm [OF 3(1) this, of fs k3, folded y4_def]
  have "rd_dat y3 = beat bs base" using kept(1) base(2) b 3(4) a2 by (simp add: kept_def rd_dat_def)
  then have "replaying bs base 0 y4" using 4 3 2 a2 kept(2) by (simp add: replaying_def)
  moreover have "fold (xtr_next fs) [k0, k1, k2, k3] y = y4" by (simp add: y1_def y2_def y3_def y4_def)
  moreover have "clk_outs (xtr_next fs) xtr_out [k0, k1, k2, k3] y = []"
    using y(1) 1(1) 2(1) 3(1) by (simp add: xtr_out_def y1_def [symmetric] y2_def [symmetric] y3_def [symmetric])
  ultimately show ?thesis by simp
qed

definition sample_at :: "u8 list \<Rightarrow> nat \<Rightarrow> nat \<Rightarrow> u32" where
  "sample_at bs base j = get_be32 (mem_of bs) (4 * (base + j) + 2)"

lemma ex_sample_at:
  assumes "replaying bs base n y" and "base + n + 1 < n_beats bs" and "4 * (base + n) + 6 \<le> length bs" and "3 \<le> base"
  shows "ex_sample y = sample_at bs base n"
proof -
  have "rd_dat y = beat bs (base + n + 1)"
    using assms(1,2,4) by (simp add: replaying_def kept_def rd_dat_def)
  moreover have "x_prev_word y = beat bs (base + n)" using assms(1) by (simp add: replaying_def)
  moreover define k where "k = 4 * (base + n)"
  then have k: "4 * (base + n) = k" "4 * (base + n + 1) = k + 4" "k + 2 + 1 = k + 3" "k + 2 + 2 = k + 4" "k + 2 + 3 = k + 5" "k + 4 + 1 = k + 5" "k + 4 + 0 = k + 4"
    "k + 2 < length bs" "k + 3 < length bs" "k + 4 < length bs" "k + 5 < length bs" using assms(3) by simp_all
  ultimately show ?thesis
    by (simp only: ex_sample_def sample_at_def get_be32_def mem_of_def lane_beat k if_True) (simp only: or.assoc or.commute or.left_commute)
qed

definition stored_samples :: "u8 list \<Rightarrow> nat \<Rightarrow> nat list \<Rightarrow> (nat \<times> u32) list" where
  "stored_samples bs base js = concat (map (\<lambda>j. if j mod 8 < 2 then [(j mod 8, sample_at bs base j)] else []) js)"

lemma replay_run:
  assumes "replaying bs base n y" and "n + length K = 48" and "K \<noteq> []" and "\<forall>i \<in> set K. \<forall>c. r_writable i c"
    and base: "base + 49 \<le> n_beats bs" "4 * base + 194 \<le> length bs" "3 \<le> base" "base < 14"
  shows "clk_outs (xtr_next fs) xtr_out K y = stored_samples bs base [n..<48] \<and> x_state (fold (xtr_next fs) K y) = ExIdle"
  using assms(1-4)
proof (induction K arbitrary: n y)
  case Nil
  then show ?case by simp
next
  case (Cons i K)
  have n: "n < 48" using Cons.prems(2) by simp
  have s: "ex_sample y = sample_at bs base n" using Cons.prems(1) n base by (intro ex_sample_at) simp_all
  have rd: "rd_dat y = beat bs (base + n + 1)"
    using Cons.prems(1) n base by (simp add: replaying_def kept_def rd_dat_def)
  have out: "xtr_out i y = (if n mod 8 < 2 then [(n mod 8, sample_at bs base n)] else [])"
    using Cons.prems(1,4) s by (simp add: xtr_out_def replaying_def ex_ch_now_def WIRE_CHANNELS_def N_CHANNELS_def)
  have u: "stored_samples bs base [n..<48] = xtr_out i y @ stored_samples bs base [Suc n..<48]"
    using n by (simp add: stored_samples_def out upt_conv_Cons)
  have y: "x_state y = ExStream" "x_sample_n y = n" "x_beat_addr y = base + 2 + n" "x_beat_addr y < 64"
    using Cons.prems(1) n base(4) by (simp_all add: replaying_def)
  note st = step_stream [OF y(1,4), of fs i]
  show ?case
  proof (cases "n = 47")
    case True
    then have "K = []" using Cons.prems(2) by simp
    then show ?thesis using u st(1) True y(2) by (simp add: stored_samples_def)
  next
    case False
    have "kept bs (4 + Suc n) (xtr_next fs i y)" using kept_step [of bs "4 + n" y fs i] Cons.prems(1) by (simp add: replaying_def)
    then have r: "replaying bs base (Suc n) (xtr_next fs i y)"
      using False n rd base(4) st y by (simp add: replaying_def)
    have "K \<noteq> []" using Cons.prems(2) False n by auto
    then show ?thesis using Cons.IH [OF r] Cons.prems u by simp
  qed
qed

section \<open>The packet on the receive stream\<close>

text \<open>The frame the talker sends, as the listener's board reads it.\<close>

lemma packet_carried:
  fixes ts :: u32
  assumes "aaf_ids_ok a"
  defines "bs \<equiv> aaf_packet a ts"
  shows "tag_len bs = 4" "length bs = 230 + tag_len bs" "has_stream_keys (a_stream_id a) (a_dest_mac a) bs"
    "k < 6 \<Longrightarrow> get_be32 (mem_of bs) (38 + tag_len bs + 32 * k) = packet_blocks 6 a ! k ! 0"
    "k < 6 \<Longrightarrow> get_be32 (mem_of bs) (38 + tag_len bs + 32 * k + 4) = packet_blocks 6 a ! k ! 1"
proof -
  note field = aaf_packet_field [OF assms(1), unfolded aaf_header_def]
  have "bytes (mem_of bs) 12 2 = put_be16 0x8100" unfolding bs_def using field [of ts "take 2 (aaf_header a ts)" 12 "put_be16 0x8100"]
    by (simp add: aaf_header_def)
  moreover have "put_be16 0x8100 = [0x81, 0x00]" by code_simp
  ultimately show t: "tag_len bs = 4" by (simp add: tag_len_def bytes_def upt_rec)
  show "length bs = 230 + tag_len bs" using length_aaf_packet [OF assms(1)] by (simp add: t bs_def [symmetric]) (simp add: bs_def)
  have ids: "length (a_stream_id a) = 8" "length (a_dest_mac a) = 6" using assms(1) by (simp_all add: aaf_ids_ok_def)
  have "mem_of (aaf_packet a ts) 18 = AVTP_SUBTYPE_AAF"
    using field [of ts "take 5 (aaf_header a ts)" 18 "[AVTP_SUBTYPE_AAF]"] ids by (simp add: aaf_header_def bytes_def)
  then show "has_stream_keys (a_stream_id a) (a_dest_mac a) bs"
    using field [of ts "take 9 (aaf_header a ts)" 22 "a_stream_id a"]
      field [of ts "[]" 0 "a_dest_mac a"] ids
    unfolding has_stream_keys_def t by (simp add: aaf_header_def bs_def)
  show "k < 6 \<Longrightarrow> get_be32 (mem_of bs) (38 + tag_len bs + 32 * k) = packet_blocks 6 a ! k ! 0"
    "k < 6 \<Longrightarrow> get_be32 (mem_of bs) (38 + tag_len bs + 32 * k + 4) = packet_blocks 6 a ! k ! 1"
    using aaf_packet_audio [OF assms(1), of k 0 ts] aaf_packet_audio [OF assms(1), of k 1 ts] by (simp_all add: t [unfolded bs_def] bs_def)
qed

text \<open>A slot programmed with the ids of the demonstration talker, and its packet arriving at one beat a cycle.\<close>

definition demo_slot :: filter_slot where
  "demo_slot = (let sid = a_stream_id demo_talker; dst = a_dest_mac demo_talker
     in \<lparr>fs_sid_hi = be32_at sid 0, fs_sid_lo = be32_at sid 4, fs_mac_hi = be16_at dst 0, fs_mac_lo = be32_at dst 2, fs_enabled = 1\<rparr>)"

definition beat_in :: "mac_beat \<Rightarrow> xtr_in" where
  "beat_in = (\<lambda>(d, l, e). \<lparr>r_valid = True, r_data = d, r_last = l, r_writable = (\<lambda>c. True)\<rparr>)"

definition idle_in :: xtr_in where
  "idle_in = \<lparr>r_valid = False, r_data = 0, r_last = False, r_writable = (\<lambda>c. True)\<rparr>"

definition demo_beats :: "xtr_in list" where
  "demo_beats = map beat_in (mac_beats (aaf_packet demo_talker 0))"

lemma demo_slot_programmed: "programmed demo_slot (a_stream_id demo_talker) (a_dest_mac demo_talker)"
  using demo_talker_ids(1) by (simp add: programmed_def demo_slot_def aaf_ids_ok_def Let_def)

lemma mac_beats_not_Nil: "bs \<noteq> [] \<Longrightarrow> mac_beats bs \<noteq> []"
  by (cases bs) (simp_all add: mac_beats_def Let_def)

lemma beats_carry_frame: "bs \<noteq> [] \<Longrightarrow> carries_frame (map beat_in (mac_beats bs)) bs"
  using mac_beats_not_Nil [of bs]
  by (auto simp: carries_frame_def filter_map o_def beat_in_def split_beta last_map intro!: map_cong)

lemma demo_beats_carry: "carries_frame demo_beats (aaf_packet demo_talker 0)"
  using length_aaf_packet [OF demo_talker_ids(1), of 0] unfolding demo_beats_def by (intro beats_carry_frame) auto

section \<open>What the extractor makes of a frame\<close>

text \<open>
  C16.  What the extractor keeps from the CPU.  Once the slot holds a stream id and an address,
  and whatever the extractor is still replaying, a frame of at least 33 bytes is marked for
  discarding in the cycle of its last beat if and only if it has the AAF subtype, that stream id
  and that address at their places, tagged or not; the beats may come with any gaps.  The
  EtherType is not looked at: with any other in its place (but a tag) the decision is the same, so
  frames that are no AVTP at all are withheld too.
\<close>

theorem extractor_discards_its_stream:
  assumes "between_frames x" and "carries_frame J bs" and "33 \<le> length bs" and "programmed fs sid dst"
  shows "(match_at_eof fs (last J) (fold (xtr_next fs) (butlast J) x) \<longleftrightarrow> has_stream_keys sid dst bs)
    \<and> (\<forall>e J'. (tag_len bs = 4 \<or> e \<noteq> 0x8100) \<and> carries_frame J' (with_ethertype e bs) \<longrightarrow>
         match_at_eof fs (last J') (fold (xtr_next fs) (butlast J') x) = match_at_eof fs (last J) (fold (xtr_next fs) (butlast J) x))"
proof (intro conjI allI impI)
  note d = match_end(1) [OF assms(1) _ _ assms(4)]
  show m: "match_at_eof fs (last J) (fold (xtr_next fs) (butlast J) x) \<longleftrightarrow> has_stream_keys sid dst bs"
    by (rule d [OF assms(2,3)])
  fix e J'
  assume e: "(tag_len bs = 4 \<or> e \<noteq> 0x8100) \<and> carries_frame J' (with_ethertype e bs)"
  have "14 + tag_len bs \<le> length bs" using assms(3) tag_len_cases [of bs] by auto
  then have "33 \<le> length (with_ethertype e bs)" using assms(3) with_ethertype_bytes(1) by simp
  moreover have "18 \<le> length bs" using assms(3) by simp
  ultimately show "match_at_eof fs (last J') (fold (xtr_next fs) (butlast J') x) = match_at_eof fs (last J) (fold (xtr_next fs) (butlast J) x)"
    using d [of J' "with_ethertype e bs"] with_ethertype_keys [of bs e sid dst] e m by blast
qed

text \<open>The packet of the demonstration talker is withheld, and so is the same frame as IPv4.\<close>

definition demo_ip_frame :: "u8 list" where
  "demo_ip_frame = with_ethertype 0x0800 (aaf_packet demo_talker 0)"

theorem extractor_discards_its_stream_witness:
  "match_at_eof demo_slot (last demo_beats) (fold (xtr_next demo_slot) (butlast demo_beats) xtr_reset)
    \<and> match_at_eof demo_slot (last (map beat_in (mac_beats demo_ip_frame)))
         (fold (xtr_next demo_slot) (butlast (map beat_in (mac_beats demo_ip_frame))) xtr_reset)"
proof -
  note c = packet_carried [OF demo_talker_ids(1), of 0]
  have l: "33 \<le> length (aaf_packet demo_talker 0)" "14 + tag_len (aaf_packet demo_talker 0) \<le> length (aaf_packet demo_talker 0)"
    using c(1,2) by simp_all
  have "demo_ip_frame \<noteq> []" using with_ethertype_bytes(1) [OF l(2), of "0x0800"] l by (auto simp: demo_ip_frame_def)
  then have J: "carries_frame (map beat_in (mac_beats demo_ip_frame)) demo_ip_frame" by (rule beats_carry_frame)
  show ?thesis
    using extractor_discards_its_stream [OF xtr_ready_between [OF xtr_reset_ready] demo_beats_carry l(1) demo_slot_programmed]
      J c(1,3) unfolding demo_ip_frame_def by blast
qed

lemma stored_samples_blocks:
  "stored_samples bs base [0..<8 * m] = concat (map (\<lambda>k. [(0, sample_at bs base (8 * k)), (1, sample_at bs base (8 * k + 1))]) [0..<m])"
proof (induction m)
  case 0
  then show ?case by (simp add: stored_samples_def)
next
  case (Suc m)
  have e: "[8 * m..<8 * m + 8] = map (\<lambda>j. 8 * m + j) [0, 1, 2, 3, 4, 5, 6, 7]" by (simp add: upt_rec)
  have "[0..<8 * Suc m] = [0..<8 * m] @ [8 * m..<8 * m + 8]" using upt_add_eq_append [of 0 "8 * m" 8] by (simp add: add.commute)
  moreover have "stored_samples bs base [8 * m..<8 * m + 8] = [(0, sample_at bs base (8 * m)), (1, sample_at bs base (8 * m + 1))]"
    by (simp add: e stored_samples_def mod_add_eq mod_Suc)
  ultimately show ?case using Suc by (simp add: stored_samples_def)
qed

text \<open>
  A frame of its stream of the length the talker sends, followed by 52 more cycles with room in
  the FIFOs -- whatever other frames begin, end or collide in them -- puts the samples of channels
  0 and 1 of the six blocks into their FIFOs, in order, as the firmware's listener would read them
  from the frame.
\<close>

lemma extractor_stores_two_channels:
  assumes "xtr_ready x" and J: "carries_frame J bs" and "programmed fs sid dst" and "has_stream_keys sid dst bs"
    and len: "length bs = 230 + tag_len bs" and K: "length K = 52" "\<forall>i \<in> set K. \<forall>c. r_writable i c"
  shows "clk_outs (xtr_next fs) xtr_out (J @ K) x = concat (map (\<lambda>k. [(0, get_be32 (mem_of bs) (38 + tag_len bs + 32 * k)),
      (1, get_be32 (mem_of bs) (38 + tag_len bs + 32 * k + 4))]) [0..<6])
    \<and> x_state (fold (xtr_next fs) (J @ K) x) = ExIdle"
proof -
  define base :: nat where "base = (if tag_len bs = 4 then 10 else 9)"
  have t: "tag_len bs = 0 \<or> tag_len bs = 4" by (simp add: tag_len_def)
  then have b: "base + 49 \<le> n_beats bs" "4 * base + 194 \<le> length bs" "3 \<le> base" "base < 14" "4 * base + 2 = 38 + tag_len bs"
    using len by (auto simp: base_def n_beats_def)
  have n: "9 \<le> n_beats bs" "n_beats bs \<le> 64" using t len by (auto simp: n_beats_def)
  let ?y = "fold (xtr_next fs) J x"
  note e = frame_end [OF assms(1) J n assms(3)]
  obtain k0 k1 k2 k3 K' where k: "K = [k0, k1, k2, k3] @ K'" "length K' = 48"
    using K(1) by (auto simp: numeral_eq_Suc length_Suc_conv)
  have base: "base = (if x_vlan_b ?y then 10 else 9)" using e(8) t by (auto simp: base_def)
  note r = replay_start [OF e(2-7) iffD2 [OF e(9) assms(4)] base b(1), of k0 k1 k2 k3]
  have "\<forall>i \<in> set K'. \<forall>c. r_writable i c" "K' \<noteq> []" using K(2) k by auto
  then have q: "clk_outs (xtr_next fs) xtr_out K' (fold (xtr_next fs) [k0, k1, k2, k3] ?y) = stored_samples bs base [0..<48]"
    "x_state (fold (xtr_next fs) K' (fold (xtr_next fs) [k0, k1, k2, k3] ?y)) = ExIdle"
    using replay_run [of bs base 0 _ K' fs] r b k(2) by simp_all
  have "sample_at bs base (8 * j) = get_be32 (mem_of bs) (38 + tag_len bs + 32 * j)"
    "sample_at bs base (8 * j + 1) = get_be32 (mem_of bs) (38 + tag_len bs + 32 * j + 4)" for j
    using b(5) by (simp_all add: sample_at_def add_mult_distrib2 algebra_simps)
  then show ?thesis using e(10) r q stored_samples_blocks [of bs base 6] by (simp add: k(1))
qed

end
