(* ===== verification/BoardStream.thy ===== *)
theory BoardStream
  imports BoardNet ExtractorProps
begin

text \<open>
  From one board to the other.  When a connection has been made (\<open>BoardNet\<close>), the registers of the
  two boards program the packetizer of the one and the slot of the extractor of the other; here the
  two run against each other, with the network between them.
\<close>

text \<open>Any six blocks can be the contents of the ring of a stream engine.\<close>

lemma engine_holding:
  fixes a :: aaf_state
  assumes "length bls = 6" and "\<forall>bl \<in> set bls. length bl = 8"
  obtains a' where "packet_blocks 6 a' = bls" "a_src_mac a' = a_src_mac a" "a_dest_mac a' = a_dest_mac a" "a_stream_id a' = a_stream_id a"
    "a_tx_seq a' = a_tx_seq a" "a_tx_pcp a' = a_tx_pcp a" "a_tx_vid a' = a_tx_vid a"
proof -
  let ?a = "a\<lparr>a_tx_read_idx := a_tx_write_idx a\<rparr>" and ?push = "\<lambda>bl a. aaf_tx_push a bl"
  have "tx_queue ?a = []" by (simp add: tx_queue_def ring_queue_empty)
  then have "tx_queue (fold ?push bls ?a) = bls" using assms txq.queue_pushes [of bls ?a] by (simp add: list_all_iff)
  then have q: "packet_blocks 6 (fold ?push bls ?a) = bls" using assms(1) by (simp add: packet_blocks_def)
  have f: "a_src_mac (fold ?push bs x) = a_src_mac x \<and> a_dest_mac (fold ?push bs x) = a_dest_mac x
      \<and> a_stream_id (fold ?push bs x) = a_stream_id x \<and> a_tx_seq (fold ?push bs x) = a_tx_seq x
      \<and> a_tx_pcp (fold ?push bs x) = a_tx_pcp x \<and> a_tx_vid (fold ?push bs x) = a_tx_vid x" for bs x
    by (induction bs arbitrary: x) (simp_all add: aaf_tx_push_def Let_def)
  show thesis by (rule that [OF q]) (simp_all add: f)
qed

text \<open>
  C2.  Audio crosses the network.  Let listener 1 of a board be bound to the stream and address
  of another board's talker, whose packetizer is at rest.  Six ticks of the talker's media
  clock, the builder's 235 cycles and the cycles in which its MAC takes the frame later, the
  listener's extractor -- seeing the same beats, with any gaps -- withholds the frame from its
  CPU and stores the samples of channels 0 and 1 of exactly the six blocks that were taken at
  the ticks, in order.
\<close>

theorem audio_crosses_the_network:
  assumes listener: "listens 1 (a_stream_id (b_aaf bT)) (a_dest_mac (b_aaf bT)) (bL, hL)" "xtr_ready x"
    and talker: "aaf_ids_ok (b_aaf bT)" "bound_for (b_aaf bT) (b_pkt bT)" "pktz_ok z" "z_fsm z = Idle" "\<not> z_send_req z" "z_blk_idx z = 0"
    and A: "ticks (b_pkt bT) A = 6" "strobe (b_pkt bT) (last A)" "\<forall>i \<in> set A. length (i_fifo_dout i) = 8"
    and B: "length B = 1 + TOTAL" "ticks (b_pkt bT) B \<le> 5"
    and C: "length (filter i_ready C) = N_WORDS" "i_ready (last C)"
    and network: "map (\<lambda>i. (r_data i, r_last i)) (filter r_valid J)
        = map (\<lambda>(d, l, e). (d, l)) (clk_outs (pktz_next (b_pkt bT)) pktz_out (A @ B @ C) z)" "J \<noteq> []" "r_valid (last J)"
    and K: "length K = 52" "\<forall>i \<in> set K. \<forall>c. r_writable i c"
  shows "match_at_eof (b_slot0 bL) (last J) (fold (xtr_next (b_slot0 bL)) (butlast J) x)
    \<and> clk_outs (xtr_next (b_slot0 bL)) xtr_out (J @ K) x = concat (map (\<lambda>bl. [(0, bl ! 0), (1, bl ! 1)]) (tick_blocks (b_pkt bT) A))"
proof -
  let ?p = "b_pkt bT" and ?fs = "b_slot0 bL"
  have bl: "\<forall>bl \<in> set (tick_blocks ?p A). length bl = 8" using A(3) by (auto simp: tick_blocks_def tick_block_def)
  obtain a where a: "packet_blocks 6 a = tick_blocks ?p A" "a_src_mac a = a_src_mac (b_aaf bT)" "a_dest_mac a = a_dest_mac (b_aaf bT)"
    "a_stream_id a = a_stream_id (b_aaf bT)" "a_tx_seq a = z_seq z" "a_tx_pcp a = a_tx_pcp (b_aaf bT)" "a_tx_vid a = a_tx_vid (b_aaf bT)"
    using engine_holding [of "tick_blocks ?p A" "b_aaf bT\<lparr>a_tx_seq := z_seq z\<rparr>"] A(1) bl by auto
  have ids: "aaf_ids_ok a" "bound_for a ?p" using talker(1,2) a by (simp_all add: aaf_ids_ok_def bound_for_def)
  let ?bs = "aaf_packet a (pres_time (hd B))"
  have "clk_outs (pktz_next ?p) pktz_out (A @ B @ C) z = mac_beats ?bs"
    by (rule packetizer_period [OF talker(3-6) ids a(5) A(1,2) a(1) [symmetric] B C])
  then have J: "carries_frame J ?bs" using network by (simp add: carries_frame_def)
  note c = packet_carried [OF ids(1), where ts = "pres_time (hd B)"]
  have fs: "programmed ?fs (a_stream_id a) (a_dest_mac a)"
    using listener(1) ids(1) a by (simp add: listens_def programmed_def aaf_ids_ok_def)
  have n: "9 \<le> n_beats ?bs" "n_beats ?bs \<le> 64" using c(1,2) by (simp_all add: n_beats_def)
  have "map (\<lambda>k. [(0 :: nat, get_be32 (mem_of ?bs) (38 + tag_len ?bs + 32 * k)), (1, get_be32 (mem_of ?bs) (38 + tag_len ?bs + 32 * k + 4))]) [0..<6]
    = map ((\<lambda>bl. [(0, bl ! 0), (1, bl ! 1)]) \<circ> (\<lambda>k. packet_blocks 6 a ! k)) [0..<6]"
    by (rule map_cong [OF refl]) (simp add: c(4) c(5) [simplified])
  moreover have "map (\<lambda>k. packet_blocks 6 a ! k) [0..<6] = tick_blocks ?p A"
    using map_nth [of "tick_blocks ?p A"] A(1) by (simp add: a(1))
  ultimately show ?thesis
    using frame_end(1) [OF listener(2) J n fs] extractor_stores_two_channels [OF listener(2) J fs c(3,2) K] c(3) unfolding map_map [symmetric]
    by simp
qed

text \<open>Any board as the sender, and any board as the receiver once its listener is bound.\<close>

definition demo_sender :: "board \<Rightarrow> board" where
  "demo_sender b = b\<lparr>b_aaf := demo_talker, b_pkt := demo_binding\<rparr>"

definition demo_receiver :: "board \<Rightarrow> board" where
  "demo_receiver b = b\<lparr>
     b_avdecc := (b_avdecc b)\<lparr>v_listeners := replicate 2 (listener_stream_zero\<lparr>vl_connected := 1,
       vl_stream_id := a_stream_id demo_talker, vl_dest_mac := a_dest_mac demo_talker\<rparr>)\<rparr>,
     b_srp := (b_srp b)\<lparr>s_listener_enabled := 1, s_listener_stream_id := a_stream_id demo_talker,
       s_listener_substate := MSRP_LISTENER_READY\<rparr>,
     b_aaf := (b_aaf b)\<lparr>a_bound := 1, a_rx_enabled := 1, a_stream_id := a_stream_id demo_talker\<rparr>, b_slot0 := demo_slot\<rparr>"

lemma demo_receiver_listens:
  "listens 1 (a_stream_id (b_aaf (demo_sender b))) (a_dest_mac (b_aaf (demo_sender b))) (demo_receiver b, hw0)"
  unfolding listens_def demo_sender_def demo_receiver_def demo_slot_def Let_def by (simp add: numeral_2_eq_2)

theorem audio_crosses_the_network_witness:
  "\<forall>b. clk_outs (xtr_next (b_slot0 (demo_receiver b))) xtr_out
      (map beat_in (clk_outs (pktz_next (b_pkt (demo_sender b))) pktz_out demo_period pktz_reset) @ replicate 52 idle_in) xtr_reset
    = concat (replicate 6 [(0, 1), (1, 2)])"
proof
  fix b :: board
  let ?out = "clk_outs (pktz_next (b_pkt (demo_sender b))) pktz_out demo_period pktz_reset"
  have s: "b_pkt (demo_sender b) = demo_binding" "b_aaf (demo_sender b) = demo_talker" by (simp_all add: demo_sender_def)
  have "?out = mac_beats (aaf_packet demo_talker (pres_time (hd (replicate 235 demo_quiet))))"
    unfolding demo_period_def s
    by (rule packetizer_period [OF pktz_reset_ok demo_start(1-3) demo_talker_ids(1) demo_binding_bound(1) demo_start(4) demo_ticks demo_builder demo_mac])
  moreover have "aaf_packet demo_talker ts \<noteq> []" for ts
    using length_aaf_packet [OF demo_talker_ids(1), of ts] by (simp flip: length_0_conv)
  ultimately have "?out \<noteq> []" by (simp only: mac_beats_not_Nil not_False_eq_True)
  then have J: "map (\<lambda>i. (r_data i, r_last i)) (filter r_valid (map beat_in ?out)) = map (\<lambda>(d, l, e). (d, l)) ?out"
    "map beat_in ?out \<noteq> []" "r_valid (last (map beat_in ?out))"
    by (auto simp: filter_map o_def beat_in_def split_beta last_map)
  have K: "length (replicate 52 idle_in) = 52" "\<forall>i \<in> set (replicate 52 idle_in). \<forall>c. r_writable i c"
    by (simp_all add: idle_in_def)
  have d: "\<forall>i \<in> set (replicate 6 demo_tick). length (i_fifo_dout i) = 8" by (simp add: demo_tick_def)
  have "clk_outs (xtr_next (b_slot0 (demo_receiver b))) xtr_out (map beat_in ?out @ replicate 52 idle_in) xtr_reset
    = concat (map (\<lambda>bl. [(0, bl ! 0), (1, bl ! 1)]) (tick_blocks (b_pkt (demo_sender b)) (replicate 6 demo_tick)))"
    by (rule audio_crosses_the_network [OF demo_receiver_listens xtr_reset_ready _ _ pktz_reset_ok demo_start(1-3) _ _ d _ _ demo_mac
          J [unfolded demo_period_def] K, unfolded demo_period_def [symmetric], THEN conjunct2])
      (use demo_talker_ids(1) demo_binding_bound(1) demo_ticks demo_builder in \<open>simp_all add: s\<close>)
  moreover have "tick_blocks demo_binding (replicate 6 demo_tick) = replicate 6 [1, 2, 3, 4, 5, 6, 7, 8]"
    unfolding demo_ticks(3) by (simp add: packet_blocks_def demo_talker_queue)
  ultimately show "clk_outs (xtr_next (b_slot0 (demo_receiver b))) xtr_out (map beat_in ?out @ replicate 52 idle_in) xtr_reset
    = concat (replicate 6 [(0, 1), (1, 2)])"
    by (simp add: s map_replicate_const numeral_eq_Suc)
qed

section \<open>The extractor in front of the dispatcher\<close>














end
