(* ===== verification/CrfExtractorProps.thy ===== *)
theory CrfExtractorProps
  imports BoardProps ExtractorProps
begin

text \<open>
  The CRF extractor and the receive path of the CPU see the same frames of the media clock stream.
  What the one queues and the other notes is compared here: both are sources of the clock servo.
\<close>

section \<open>Receiving a frame\<close>

definition crfx_ready :: "crfx \<Rightarrow> bool" where
  "crfx_ready c \<longleftrightarrow> c_beat_idx c = 0 \<and> \<not> c_eof_b c \<and> length (c_hdr_words c) = 16"

lemma crfx_reset_ready: "crfx_ready crfx_reset"
  by (simp add: crfx_ready_def crfx_reset_def)

definition crfx_carries :: "crfx_in list \<Rightarrow> u8 list \<Rightarrow> bool" where
  "crfx_carries J bs \<longleftrightarrow> map (\<lambda>i. (d_data i, d_last i)) (filter d_valid J) = map (\<lambda>(d, l, e). (d, l)) (mac_beats bs)
     \<and> J \<noteq> [] \<and> d_valid (last J)"

text \<open>The time at the first beat.\<close>

definition arrival :: "crfx_in list \<Rightarrow> 80 word" where
  "arrival J = d_tsu (hd (filter d_valid J))"

lemma crfx_fields:
  "c_beat_idx (crfx_next cf i c) = c_beat_idx (crfx_capture i c c)" "c_hdr_words (crfx_next cf i c) = c_hdr_words (crfx_capture i c c)"
  "c_local_ts (crfx_next cf i c) = c_local_ts (crfx_capture i c c)" "c_eof_b (crfx_next cf i c) \<longleftrightarrow> d_valid i \<and> d_last i"
  by (simp_all add: crfx_next_def crfx_counters_def Let_def)

lemma crfx_capture_run:
  fixes cf :: crfx_cfg
  assumes "crfx_ready c" and "\<forall>i \<in> set is. d_valid i \<longrightarrow> \<not> d_last i"
  defines "y \<equiv> fold (crfx_next cf) is c"
  shows "\<not> c_eof_b y \<and> c_beat_idx y = min 16 (length (filter d_valid is)) \<and> length (c_hdr_words y) = 16
    \<and> clk_outs (crfx_next cf) (crfx_out cf) is c = []
    \<and> (\<forall>w < min 16 (length (filter d_valid is)). c_hdr_words y ! w = d_data (filter d_valid is ! w))
    \<and> (filter d_valid is \<noteq> [] \<longrightarrow> c_local_ts y = arrival is)"
  using assms(2) unfolding y_def
proof (induction "is" rule: rev_induct)
  case Nil
  then show ?case using assms(1) by (simp add: crfx_ready_def)
next
  case (snoc i js)
  let ?y = "fold (crfx_next cf) js c" and ?n = "length (filter d_valid js)"
  have IH: "\<not> c_eof_b ?y" "c_beat_idx ?y = min 16 ?n" "length (c_hdr_words ?y) = 16" "clk_outs (crfx_next cf) (crfx_out cf) js c = []"
    "\<forall>w < min 16 ?n. c_hdr_words ?y ! w = d_data (filter d_valid js ! w)" "filter d_valid js \<noteq> [] \<longrightarrow> c_local_ts ?y = arrival js"
    using snoc by simp_all
  have out: "crfx_out cf i ?y = []" using IH(1) by (simp add: crfx_out_def crf_matched_def)
  have z: "?n = 0 \<longleftrightarrow> filter d_valid js = []" by simp
  show ?case
    using IH out snoc.prems z
    by (cases "d_valid i"; cases "?n < 16")
      (auto simp: crfx_fields crfx_capture_def CRF_HDR_BEATS_def nth_append nth_list_update less_Suc_eq min_def arrival_def hd_append)
qed

lemma crfx_frame_end:
  fixes cf :: crfx_cfg
  assumes "crfx_ready c" and J: "crfx_carries J bs" and n: "12 \<le> n_beats bs"
  defines "y \<equiv> fold (crfx_next cf) J c"
  shows "c_eof_b y" "c_beat_idx y = 0" "length (c_hdr_words y) = 16" "holds (c_hdr_words y) bs (min 16 (n_beats bs))"
    "c_local_ts y = arrival J" "clk_outs (crfx_next cf) (crfx_out cf) J c = []"
proof -
  have v: "d_valid (last J)" and nz: "0 < n_beats bs" using J n by (simp_all add: crfx_carries_def)
  have "map (\<lambda>i. (d_data i, d_last i)) (filter d_valid J) = map (\<lambda>(d, l, e). (d, l)) (mac_beats bs)" "J \<noteq> []"
    using J by (simp_all add: crfx_carries_def)
  note m = marked_frame [OF this v nz]
  let ?z = "fold (crfx_next cf) (butlast J) c"
  have "filter d_valid (butlast J) \<noteq> []" using m(2) n by auto
  then have r: "\<not> c_eof_b ?z" "c_beat_idx ?z = min 16 (n_beats bs - 1)" "length (c_hdr_words ?z) = 16"
    "clk_outs (crfx_next cf) (crfx_out cf) (butlast J) c = []"
    "\<forall>w < min 16 (n_beats bs - 1). c_hdr_words ?z ! w = beat bs w" "c_local_ts ?z = arrival (butlast J)"
    using crfx_capture_run [OF assms(1) m(6), of cf] m(2,3) by simp_all
  have y: "y = crfx_next cf (last J) ?z" using arg_cong [OF m(1), of "\<lambda>J. fold (crfx_next cf) J c"] by (simp add: y_def)
  show "c_eof_b y" "c_beat_idx y = 0" "length (c_hdr_words y) = 16" using v m(5) r(3) by (simp_all add: y crfx_fields crfx_capture_def)
  show "holds (c_hdr_words y) bs (min 16 (n_beats bs))"
    using r(2,3,5) v m(4) n by (auto simp: holds_def y crfx_fields crfx_capture_def CRF_HDR_BEATS_def nth_list_update less_Suc_eq min_def)
  have "arrival J = arrival (butlast J)"
    using arg_cong [OF m(1), of "filter d_valid"] \<open>filter d_valid (butlast J) \<noteq> []\<close> by (simp add: arrival_def hd_append)
  moreover have "c_beat_idx ?z \<noteq> 0" using r(2) n by (simp add: min_def)
  ultimately show "c_local_ts y = arrival J" using r(6) by (simp add: y crfx_fields crfx_capture_def)
  show "clk_outs (crfx_next cf) (crfx_out cf) J c = []"
    using r(1,4) arg_cong [OF m(1), of "\<lambda>J. clk_outs (crfx_next cf) (crfx_out cf) J c"] by (simp add: crfx_out_def crf_matched_def)
qed

section \<open>What it queues\<close>

lemma be_word_get_be64:
  assumes "length m = 8"
  shows "(be_word m :: u64) = get_be64 (mem_of m) 0"
  using be_word_64 [OF assms] by (simp add: sig64_def get_be64_def be32_at_def)

lemma get_be64_bytes: "get_be64 (mem_of (bytes m k 8)) 0 = get_be64 m k"
  by (simp add: get_be64_def get_be32_def mem_of_def bytes_def add.commute)

lemma crf_ts_of_frame:
  assumes h: "holds ws bs (min 16 (n_beats bs))" and "46 \<le> length bs"
  shows "crf_ts_comb ws = get_be64 (mem_of bs) (34 + tag_len bs)"
proof -
  have n: "12 \<le> n_beats bs" using assms(2) by (simp add: n_beats_def)
  then have h8: "holds ws bs 8" and h12: "holds ws bs 12" using h by (auto simp: holds_def)
  have v: "vlan_comb ws \<longleftrightarrow> tag_len bs = 4" using keys_of_frame(1) [OF h8] assms(2) by simp
  have "map (\<lambda>k. if vlan_comb ws then hdr_byte ws (38 + k) else hdr_byte ws (34 + k)) [0..<8] = bytes (mem_of bs) (34 + tag_len bs) 8"
    unfolding v using assms(2) by (auto simp: bytes_def hdr_byte_holds [OF h12] tag_len_def intro!: map_cong)
  then show ?thesis by (simp add: crf_ts_comb_def be_word_get_be64 get_be64_bytes)
qed

definition crf_bound :: "crfx_cfg \<Rightarrow> u8 list \<Rightarrow> bool" where
  "crf_bound cf sid \<longleftrightarrow> length sid = 8 \<and> cf = \<lparr>cf_enabled = 1, cf_sid_hi = be32_at sid 0, cf_sid_lo = be32_at sid 4\<rparr>"

definition crf_of_stream :: "u8 list \<Rightarrow> u8 list \<Rightarrow> bool" where
  "crf_of_stream sid bs \<longleftrightarrow> mem_of bs (14 + tag_len bs) = AVTP_SUBTYPE_CRF \<and> bytes (mem_of bs) (18 + tag_len bs) 8 = sid"

lemma crf_queued:
  assumes "crfx_ready c" and J: "crfx_carries J bs" and l: "46 \<le> length bs" and b: "crf_bound cf sid" and k: "d_writable k"
  shows "clk_outs (crfx_next cf) (crfx_out cf) (J @ [k]) c
    = (if crf_of_stream sid bs then [(get_be64 (mem_of bs) (34 + tag_len bs), ucast (drop_bit 32 (arrival J)), ucast (arrival J))] else [])"
proof -
  let ?y = "fold (crfx_next cf) J c"
  have n: "12 \<le> n_beats bs" using l by (simp add: n_beats_def)
  note e = crfx_frame_end [OF assms(1) J n, of cf]
  have h8: "holds (c_hdr_words ?y) bs 8" using e(4) n by (auto simp: holds_def)
  have l8: "length (bytes (mem_of bs) p 8) = 8" for p by simp
  have "crf_matched cf ?y \<longleftrightarrow> crf_of_stream sid bs"
    using e(1) b keys_of_frame(2,3) [OF h8] l
    by (auto simp: crf_matched_def crf_of_stream_def crf_bound_def be_word_64 be_word_64_inj [OF l8])
  then show ?thesis using e(5,6) k crf_ts_of_frame [OF e(4) l] by (simp add: crfx_out_def)
qed

section \<open>What the CPU notes\<close>

lemma be16_bytes: "ucast (drop_bit 8 (get_be16 m k)) = m k" "ucast (get_be16 m k) = m (k + 1)"
  by (rule bit_word_eqI, auto simp: get_be16_def bit_simps byte_high)+

lemma tag_len_le: "tag_len bs \<le> 4"
  by (simp add: tag_len_def)

lemma vlan_shift_tag_len:
  assumes "18 \<le> length bs" "length bs \<le> 1500"
  shows "unat (vlan_shift (mem_of bs) (of_nat (length bs))) = tag_len bs"
proof -
  have "get_be16 (mem_of bs) 12 = 0x8100 \<longleftrightarrow> mem_of bs 12 = 0x81 \<and> mem_of bs 13 = 0x00"
    using be16_bytes [of "mem_of bs" 12] by (auto simp: get_be16_def)
  moreover have "(18 :: u32) \<le> of_nat (length bs)" using assms frame_length_fits [of bs] by (simp add: word_le_nat_alt)
  ultimately show ?thesis by (simp add: vlan_shift_def tag_len_def)
qed

lemma dispatch_crf:
  assumes r: "rx_mem r = mem_of bs" "rx_len r = of_nat (length bs)" and l: "46 \<le> length bs" "length bs \<le> 1500"
    and et: "get_be16 (mem_of bs) (12 + tag_len bs) = AVTP_ETHERTYPE" "mem_of bs (14 + tag_len bs) = AVTP_SUBTYPE_CRF"
    and d: "dispatch_frame r (b, h) = (b', h')"
  shows "\<exists>b0. b_mcr b0 = b_mcr b \<and> (b', h') = on_mcr (mcr_process_rx (\<lambda>i. mem_of bs (i + tag_len bs)) (of_nat (length bs - tag_len bs))) (b0, h\<lparr>hw_rx_ts := rx_ts r\<rparr>)"
proof -
  define v where "v = vlan_shift (mem_of bs) (of_nat (length bs))"
  have v: "unat v = tag_len bs" using vlan_shift_tag_len l by (simp add: v_def)
  note t = tag_len_le [of bs]
  note u = frame_length_fits [of bs]
  have len: "of_nat (length bs) - v = (of_nat (length bs - tag_len bs) :: u32)"
    using l t by (simp add: v [symmetric] of_nat_diff)
  have "unat (of_nat (length bs - tag_len bs) :: u32) = length bs - tag_len bs" using l by (intro unat_small) simp
  then have big: "\<not> (of_nat (length bs - tag_len bs) :: u32) < 15" "(14 :: u32) \<le> of_nat (length bs - tag_len bs)" "(26 :: u32) \<le> of_nat (length bs - tag_len bs)"
    using l t by (simp_all add: word_less_nat_alt word_le_nat_alt)
  have "14 + v \<le> of_nat (length bs)" "15 + v \<le> of_nat (length bs)"
    using l t v u by (simp_all add: word_le_nat_alt unat_word_ariths)
  then have a: "is_avtp_data (rx_mem r) (rx_len r)"
    using et by (simp add: is_avtp_data_def r v_def [symmetric] v)
  have e: "get_be16 (\<lambda>i. mem_of bs (i + tag_len bs)) 12 = AVTP_ETHERTYPE" using et(1) by (simp add: get_be16_def)
  define b0 where "b0 = b\<lparr>b_rx_total := b_rx_total b + 1, b_rx_last_ethertype := AVTP_ETHERTYPE, b_rx_last_dst := bytes (mem_of bs) 0 6,
    b_rx_last_src := bytes (mem_of bs) 6 6,
    b_rx_avb_stream_mcast := (if mem_of bs 0 = 0x91 \<and> mem_of bs 1 = 0xe0 \<and> mem_of bs 2 = 0xf0 \<and> mem_of bs 3 = 0
      then b_rx_avb_stream_mcast b + 1 else b_rx_avb_stream_mcast b), b_rx_avtp := b_rx_avtp b + 1,
    b_rx_avtp_crf := b_rx_avtp_crf b + 1, b_rx_crf_last_sid := bytes (\<lambda>i. mem_of bs (i + tag_len bs)) 18 8\<rparr>"
  have "dispatch_frame r (b, h) = on_mcr (mcr_process_rx (\<lambda>i. mem_of bs (i + tag_len bs)) (of_nat (length bs - tag_len bs))) (b0, h\<lparr>hw_rx_ts := rx_ts r\<rparr>)"
    using a big e et(2)
    by (simp add: dispatch_frame_def demux_def r v_def [symmetric] v len ethertypes_distinct avtp_subtypes_distinct [symmetric] b0_def Let_def)
  then show ?thesis using d by (intro exI [of _ b0]) (simp add: b0_def)
qed

section \<open>Both together\<close>

text \<open>An entry as the firmware reads it from the registers of the queue.\<close>

definition hw_entry :: "u64 \<times> u32 \<times> u32 \<Rightarrow> u64 \<times> u64 \<times> u32" where
  "hw_entry = (\<lambda>(t, s, n). (t, ucast s, n))"

lemma servo_fed:
  assumes "m_bound m \<noteq> 0" and "m_servo_consumed m = 0"
  shows "m_prev_offset_ns (fst (mcr_servo_update (m, h))) = m_latest_offset_ns m"
    "m_servo_step_count (fst (mcr_servo_update (m, h))) = m_servo_step_count m + (if m_have_prev m \<noteq> 0 then 1 else 0)"
    "m_have_prev (fst (mcr_servo_update (m, h))) \<noteq> 0" "m_rx_count (fst (mcr_servo_update (m, h))) = m_rx_count m"
    "m_bound (fst (mcr_servo_update (m, h))) = m_bound m" "m_stream_id (fst (mcr_servo_update (m, h))) = m_stream_id m"
  using assms by (simp_all add: mcr_servo_update_def case_prod_unfold Let_def)

lemma pump_one:
  assumes "m_bound m \<noteq> 0" and "hw_crf_fifo h = [e]"
  shows "mcr_pump_hw (m, h) = mcr_servo_update (mcr_take_sample e m, h\<lparr>hw_crf_fifo := []\<rparr>)"
proof -
  have q: "hw_crf_fifo (snd (mcr_servo_update (m', h'))) = hw_crf_fifo h'" for m' h'
    by (simp add: mcr_servo_update_def case_prod_unfold Let_def)
  let ?w = "mcr_servo_update (mcr_take_sample e m, h\<lparr>hw_crf_fifo := []\<rparr>)"
  have "mcr_pump_loop 63 ?w = ?w" using q [of "mcr_take_sample e m" "h\<lparr>hw_crf_fifo := []\<rparr>"] by (cases ?w) (simp add: numeral_eq_Suc)
  then show ?thesis using assms by (simp add: mcr_pump_hw_def numeral_eq_Suc)
qed

text \<open>
  C15.  One CRF frame feeds the clock servo twice.  The extractor queues the first time stamp of a
  frame of the bound stream with its arrival time; the same frame reaches the CPU, which notes
  the last time stamp.  If it is dispatched after the queue has been drained, the servo steps
  for both, the frame counts twice, and the second step sees the distance between the last and
  the first time stamp as a clock error -- zero exactly for frames with one time stamp.
\<close>

theorem crf_frame_feeds_servo_twice:
  assumes hardware: "crfx_ready c" "crfx_carries J bs" "d_writable k" "crf_bound cf (m_stream_id m)" "crf_of_stream (m_stream_id m) bs"
    and frame: "46 \<le> length bs" "length bs \<le> 1500" "get_be16 (mem_of bs) (12 + tag_len bs) = AVTP_ETHERTYPE"
    and stamps: "n = min (unat (get_be16 (mem_of bs) (30 + tag_len bs)) div 8) ((length bs - tag_len bs - 34) div 8)" "0 < n"
    and bound: "m_bound m \<noteq> 0" "m_have_prev m \<noteq> 0"
    and queue: "hw_crf_fifo h0 = map hw_entry (clk_outs (crfx_next cf) (crfx_out cf) (J @ [k]) c)"
    and pump: "mcr_pump_hw (m, h0) = (b_mcr b, h)"
    and slot: "rx_mem r = mem_of bs" "rx_len r = of_nat (length bs)"
      "rx_ts r = \<lparr>seconds = ucast (ucast (drop_bit 32 (arrival J)) :: u32), nanoseconds = ucast (arrival J)\<rparr>"
    and cpu: "dispatch_frame r (b, h) = (b', h')"
  defines "m' \<equiv> fst (mcr_servo_update (b_mcr b', h'))"
  shows "m_servo_step_count m' = m_servo_step_count m + 2 \<and> m_rx_count m' = m_rx_count m + 2
    \<and> (word_of_int (m_prev_offset_ns m') - word_of_int (m_prev_offset_ns (b_mcr b)) :: u64)
      = get_be64 (mem_of bs) (34 + tag_len bs + 8 * (n - 1)) - get_be64 (mem_of bs) (34 + tag_len bs)"
proof -
  let ?t = "get_be64 (mem_of bs) (34 + tag_len bs)" and ?s = "ucast (drop_bit 32 (arrival J)) :: u32" and ?ns = "ucast (arrival J) :: u32"
  define e where "e = (?t, ucast ?s :: u64, ?ns)"
  let ?loc = "local_ns (ucast ?s) ?ns" and ?m1 = "mcr_take_sample e m"
  have "hw_crf_fifo h0 = [e]"
    using crf_queued [OF hardware(1,2) frame(1) hardware(4,3)] hardware(5) queue by (simp add: hw_entry_def e_def)
  then have p: "b_mcr b = fst (mcr_servo_update (?m1, h0\<lparr>hw_crf_fifo := []\<rparr>))"
    using pump_one [OF bound(1), of h0 e] pump by (metis fst_conv)
  have t: "m_bound ?m1 = m_bound m" "m_servo_consumed ?m1 = 0" "m_latest_offset_ns ?m1 = sint (?t - ?loc)"
    "m_rx_count ?m1 = m_rx_count m + 1" "m_have_prev ?m1 = m_have_prev m" "m_servo_step_count ?m1 = m_servo_step_count m"
    "m_stream_id ?m1 = m_stream_id m"
    by (simp_all add: mcr_take_sample_def e_def)
  note s1 = servo_fed [of ?m1 "h0\<lparr>hw_crf_fifo := []\<rparr>", folded p, unfolded t, OF bound(1) refl]
  let ?frame = "\<lambda>i. mem_of bs (i + tag_len bs)" and ?len = "of_nat (length bs - tag_len bs) :: u32"
  have sub: "mem_of bs (14 + tag_len bs) = AVTP_SUBTYPE_CRF" "bytes (mem_of bs) (18 + tag_len bs) 8 = m_stream_id m"
    using hardware(5) by (simp_all add: crf_of_stream_def)
  obtain b0 where b0: "b_mcr b0 = b_mcr b" "(b', h') = on_mcr (mcr_process_rx ?frame ?len) (b0, h\<lparr>hw_rx_ts := rx_ts r\<rparr>)"
    using dispatch_crf [OF slot(1,2) frame sub(1) cpu] by auto
  then obtain h2 where rx: "mcr_process_rx ?frame ?len (b_mcr b, h\<lparr>hw_rx_ts := rx_ts r\<rparr>) = (b_mcr b', h2)"
    by (auto simp: on_mcr_def split: prod.splits)
  have ul: "unat ?len = length bs - tag_len bs" using frame(2) by (intro unat_small) simp
  have sh: "bytes ?frame 18 8 = m_stream_id (b_mcr b)" "get_be16 ?frame 30 = get_be16 (mem_of bs) (30 + tag_len bs)"
    "get_be64 ?frame (34 + 8 * (n - 1)) = get_be64 (mem_of bs) (34 + tag_len bs + 8 * (n - 1))"
    using sub(2) s1(6) by (simp_all add: bytes_def get_be16_def get_be64_def get_be32_def ac_simps)
  have long: "34 \<le> unat ?len" using frame(1) tag_len_le [of bs] unfolding ul by linarith
  have pre: "m_bound (b_mcr b) \<noteq> 0" "?frame 14 = AVTP_SUBTYPE_CRF"
    "n = min (unat (get_be16 ?frame 30) div 8) ((unat ?len - 34) div 8)"
    using s1(5) bound(1) sub(1) stamps(1) unfolding sh(2) ul by simp_all
  note r = mcr_rx_sample [OF pre(1) long pre(2) sh(1) pre(3) stamps(2) rx]
  have "m_latest_local_ts (b_mcr b') = ?loc" unfolding r(3) by (simp add: slot(3))
  then have q: "m_latest_offset_ns (b_mcr b') = sint (get_be64 (mem_of bs) (34 + tag_len bs + 8 * (n - 1)) - ?loc)"
    using r(1,4) unfolding sh(3) by simp
  have q': "m_bound (b_mcr b') \<noteq> 0" "m_servo_consumed (b_mcr b') = 0" "m_have_prev (b_mcr b') \<noteq> 0"
    "m_rx_count (b_mcr b') = m_rx_count m + 2" "m_servo_step_count (b_mcr b') = m_servo_step_count m + 1"
    using r(5-10) s1(2-5) bound by simp_all
  note s2 = servo_fed [of "b_mcr b'" h', folded m'_def, OF q'(1,2)]
  show ?thesis using s1(1) s2(1,2,4) q q'(3-5) by simp
qed

text \<open>A frame with the time stamps 2 and 7, at one beat a cycle.\<close>

definition demo_crf_bytes :: "u8 list" where
  "demo_crf_bytes = [0x91, 0xE0, 0xF0, 0, 1, 2, 2, 0, 0, 0, 0, 9, 0x22, 0xF0, 4, 0x80, 0, 1] @ replicate 8 1
     @ [0, 0, 0xBB, 0x80, 0, 16, 0, 1] @ [0, 0, 0, 0, 0, 0, 0, 2] @ [0, 0, 0, 0, 0, 0, 0, 7]"

definition crf_beat_in :: "mac_beat \<Rightarrow> crfx_in" where
  "crf_beat_in = (\<lambda>(d, l, e). \<lparr>d_valid = True, d_data = d, d_last = l, d_tsu = 0, d_writable = True\<rparr>)"

definition demo_crf_beats :: "crfx_in list" where
  "demo_crf_beats = map crf_beat_in (mac_beats demo_crf_bytes)"

definition demo_clock :: mcr_state where
  "demo_clock = mcr_zero\<lparr>m_bound := 1, m_have_prev := 1, m_stream_id := replicate 8 1\<rparr>"

definition demo_crf_cfg :: crfx_cfg where
  "demo_crf_cfg = \<lparr>cf_enabled = 1, cf_sid_hi = be32_at (replicate 8 1) 0, cf_sid_lo = be32_at (replicate 8 1) 4\<rparr>"

definition demo_crf_queue :: hw where
  "demo_crf_queue = hw0\<lparr>hw_crf_fifo := map hw_entry (clk_outs (crfx_next demo_crf_cfg) (crfx_out demo_crf_cfg)
     (demo_crf_beats @ [crf_beat_in (0, False, 0)]) crfx_reset)\<rparr>"

definition demo_crf_slot :: rx_slot where
  "demo_crf_slot = \<lparr>rx_ts = \<lparr>seconds = 0, nanoseconds = 0\<rparr>, rx_mem = mem_of demo_crf_bytes, rx_len = 50\<rparr>"

lemma demo_crf_reads:
  "length demo_crf_bytes = 50" "tag_len demo_crf_bytes = 0" "get_be16 (mem_of demo_crf_bytes) 12 = AVTP_ETHERTYPE"
  "get_be16 (mem_of demo_crf_bytes) 30 = 16" "get_be64 (mem_of demo_crf_bytes) 34 = 2" "get_be64 (mem_of demo_crf_bytes) 42 = 7"
  "crf_of_stream (replicate 8 1) demo_crf_bytes"
  by code_simp+

lemma demo_crf_carried: "crfx_carries demo_crf_beats demo_crf_bytes" "arrival demo_crf_beats = 0"
proof -
  have "mac_beats demo_crf_bytes \<noteq> []" by (rule mac_beats_not_Nil) (simp add: demo_crf_bytes_def)
  then show "crfx_carries demo_crf_beats demo_crf_bytes" "arrival demo_crf_beats = 0"
    by (auto simp: crfx_carries_def arrival_def demo_crf_beats_def filter_map o_def crf_beat_in_def split_beta last_map hd_map)
qed

theorem crf_frame_feeds_servo_twice_witness:
  "\<forall>b. let (m1, h1) = mcr_pump_hw (demo_clock, demo_crf_queue); (b', h') = dispatch_frame demo_crf_slot (b\<lparr>b_mcr := m1\<rparr>, h1);
      m' = fst (mcr_servo_update (b_mcr b', h'))
    in m_rx_count m' = 2 \<and> word_of_int (m_prev_offset_ns m') - word_of_int (m_prev_offset_ns m1) = (5 :: u64)"
proof
  fix b :: board
  obtain m1 h1 where pump: "mcr_pump_hw (demo_clock, demo_crf_queue) = (m1, h1)" by force
  obtain b' h' where cpu: "dispatch_frame demo_crf_slot (b\<lparr>b_mcr := m1\<rparr>, h1) = (b', h')" by force
  have m: "m_bound demo_clock \<noteq> 0" "m_have_prev demo_clock \<noteq> 0" "m_stream_id demo_clock = replicate 8 1" "m_rx_count demo_clock = 0"
    by (simp_all add: demo_clock_def mcr_zero_def)
  have c: "crf_bound demo_crf_cfg (replicate 8 1)" "d_writable (crf_beat_in (0, False, 0))"
    by (simp_all add: crf_bound_def demo_crf_cfg_def crf_beat_in_def)
  have q: "hw_crf_fifo demo_crf_queue = map hw_entry (clk_outs (crfx_next demo_crf_cfg) (crfx_out demo_crf_cfg)
      (demo_crf_beats @ [crf_beat_in (0, False, 0)]) crfx_reset)"
    unfolding demo_crf_queue_def by simp
  have p: "mcr_pump_hw (demo_clock, demo_crf_queue) = (b_mcr (b\<lparr>b_mcr := m1\<rparr>), h1)" by (simp add: pump)
  have "m_rx_count (fst (mcr_servo_update (b_mcr b', h'))) = m_rx_count demo_clock + 2
    \<and> word_of_int (m_prev_offset_ns (fst (mcr_servo_update (b_mcr b', h')))) - word_of_int (m_prev_offset_ns (b_mcr (b\<lparr>b_mcr := m1\<rparr>)))
      = get_be64 (mem_of demo_crf_bytes) (34 + tag_len demo_crf_bytes + 8 * (2 - 1)) - get_be64 (mem_of demo_crf_bytes) (34 + tag_len demo_crf_bytes)"
    by (rule crf_frame_feeds_servo_twice [where n = 2 and ?h0.0 = demo_crf_queue, OF crfx_reset_ready demo_crf_carried(1) c(2) c(1) [folded m(3)] _ _ _ _ _ _ m(1,2) q p _ _ _ cpu, THEN conjunct2])
      (simp_all add: demo_crf_reads m demo_crf_slot_def demo_crf_carried(2))
  then show "let (m1, h1) = mcr_pump_hw (demo_clock, demo_crf_queue); (b', h') = dispatch_frame demo_crf_slot (b\<lparr>b_mcr := m1\<rparr>, h1);
      m' = fst (mcr_servo_update (b_mcr b', h'))
    in m_rx_count m' = 2 \<and> word_of_int (m_prev_offset_ns m') - word_of_int (m_prev_offset_ns m1) = (5 :: u64)"
    by (simp add: pump cpu demo_crf_reads m)
qed

end
