(* ===== verification/Arbiter.thy ===== *)
theory Arbiter
  imports Clocked
begin

text \<open>
  The transmit arbiter (TXFrameArbiter in aaf_packetizer.py): the firmware's MAC and the packetizer
  share the way to the PHY frame by frame.  A source shows a beat with its error lane or nothing;
  an output is the beat that leaves, with the index of the source it was taken from.
\<close>

type_synonym arb_beat = "mac_beat \<times> 4 word"

record arb =
  ar_sel :: nat
  ar_busy :: bool

record arb_in =
  q_sources :: "arb_beat option list"
  q_ready :: bool

definition arb_reset :: arb where "arb_reset = \<lparr>ar_sel = 0, ar_busy = False\<rparr>"

definition is_last :: "arb_beat \<Rightarrow> bool" where "is_last b = fst (snd (fst b))"

text \<open>The lowest index that has a beat; the number of sources if none has.\<close>

definition nextsel :: "arb_in \<Rightarrow> nat" where
  "nextsel i = length (takeWhile (\<lambda>q. q = None) (q_sources i))"

definition granted :: "arb_in \<Rightarrow> arb \<Rightarrow> arb_beat option" where
  "granted i a = (if ar_busy a \<and> ar_sel a < length (q_sources i) then q_sources i ! ar_sel a else None)"

definition firmware_granted :: "arb \<Rightarrow> bool" where
  "firmware_granted a \<longleftrightarrow> ar_busy a \<and> ar_sel a = 0"

definition source_ready :: "nat \<Rightarrow> arb_in \<Rightarrow> arb \<Rightarrow> bool" where
  "source_ready s i a \<longleftrightarrow> ar_busy a \<and> ar_sel a = s \<and> q_ready i"

definition arb_next :: "arb_in \<Rightarrow> arb \<Rightarrow> arb" where
  "arb_next i a =
     (if \<not> ar_busy a then
        if nextsel i < length (q_sources i) then a\<lparr>ar_sel := nextsel i, ar_busy := True\<rparr> else a
      else case granted i a of
        Some b \<Rightarrow> if q_ready i \<and> is_last b then a\<lparr>ar_busy := False\<rparr> else a
      | None \<Rightarrow> a)"

definition arb_out :: "arb_in \<Rightarrow> arb \<Rightarrow> (nat \<times> arb_beat) list" where
  "arb_out i a = (case granted i a of Some b \<Rightarrow> if q_ready i then [(ar_sel a, b)] else [] | None \<Rightarrow> [])"

text \<open>What source \<open>s\<close> hands over: its beat, in the cycles in which it is told ready.\<close>

definition handed :: "nat \<Rightarrow> arb_in \<Rightarrow> arb \<Rightarrow> arb_beat list" where
  "handed s i a = (if s < length (q_sources i) \<and> source_ready s i a then (case q_sources i ! s of Some b \<Rightarrow> [b] | None \<Rightarrow> []) else [])"

section \<open>Frames stay whole\<close>

text \<open>A beat that is not the last of its frame is followed by a beat of the same source.\<close>

definition whole_frames :: "(nat \<times> arb_beat) list \<Rightarrow> bool" where
  "whole_frames os \<longleftrightarrow> (\<forall>k. Suc k < length os \<longrightarrow> \<not> is_last (snd (os ! k)) \<longrightarrow> fst (os ! Suc k) = fst (os ! k))"

lemma whole_frames_Cons:
  "whole_frames (o1 # os) \<longleftrightarrow> whole_frames os \<and> (os \<noteq> [] \<longrightarrow> \<not> is_last (snd o1) \<longrightarrow> fst (hd os) = fst o1)"
  unfolding whole_frames_def by (auto simp: nth_Cons hd_conv_nth split: nat.splits)

text \<open>While the grant is held, the next beat to leave is the holder's.\<close>

lemma holder_leaves_next:
  "ar_busy a \<Longrightarrow> clk_outs arb_next arb_out is a \<noteq> [] \<Longrightarrow> fst (hd (clk_outs arb_next arb_out is a)) = ar_sel a"
  by (induction "is" arbitrary: a) (auto simp: arb_out_def arb_next_def split: option.splits if_splits)

theorem frames_leave_whole: "whole_frames (clk_outs arb_next arb_out is a)"
proof (induction "is" arbitrary: a)
  case Nil
  then show ?case by (simp add: whole_frames_def)
next
  case (Cons i "is")
  show ?case
  proof (cases "arb_out i a")
    case Nil
    then show ?thesis using Cons by simp
  next
    case (Cons o1 os)
    then have o1: "os = []" "fst o1 = ar_sel a" "ar_busy a" and b: "granted i a = Some (snd o1)" "q_ready i"
      by (auto simp: arb_out_def granted_def split: option.splits if_splits)
    have "ar_busy (arb_next i a) \<and> ar_sel (arb_next i a) = ar_sel a" if "\<not> is_last (snd o1)"
      using that o1(3) b by (simp add: arb_next_def)
    then show ?thesis
      using Cons.IH [of "arb_next i a"] o1 Cons holder_leaves_next [of "arb_next i a" "is"] by (auto simp: whole_frames_Cons)
  qed
qed

text \<open>Nothing is lost, added or reordered: what leaves with the mark of a source is what it handed over.\<close>

theorem nothing_lost: "map snd (filter (\<lambda>(s', b). s' = s) (clk_outs arb_next arb_out is a)) = clk_outs arb_next (handed s) is a"
proof (induction "is" arbitrary: a)
  case (Cons i "is")
  have "map snd (filter (\<lambda>(s', b). s' = s) (arb_out i a)) = handed s i a"
    by (auto simp: arb_out_def handed_def granted_def source_ready_def split: option.splits)
  then show ?case using Cons by simp
qed simp

text \<open>The firmware comes first: it gets every free cycle in which it has a beat.\<close>

theorem firmware_first:
  "\<not> ar_busy a \<Longrightarrow> q_sources i = Some b # qs \<Longrightarrow> firmware_granted (arb_next i a)"
  by (simp add: arb_next_def nextsel_def firmware_granted_def)

end
