(* ===== verification/MediaClock.thy ===== *)
theory MediaClock
  imports Mcr Gptp Clocked
begin

text \<open>
  The media clock in the gateware (MCRNco and MCRI2STx in avb_soc.py).  The oscillator adds the
  increment the firmware writes (\<open>hw_nco\<close>) to a 32-bit phase every cycle and strobes when it wraps:
  that strobe paces the packetizer, the DAC writer's counter and the I2S transmitter, whose clocks
  and data are read off the phase.  Beside it, the offset register of the time stamp unit
  (TSUWithCSRs), which the clock servo writes in two parts.
\<close>

section \<open>The oscillator\<close>

record nco =
  n_phase :: u32
  n_strobe :: bool
  n_count :: u32

definition next_phase :: "u32 \<Rightarrow> nco \<Rightarrow> 33 word" where
  "next_phase inc n = ucast (n_phase n) + ucast inc"

definition nco_next :: "u32 \<Rightarrow> nco \<Rightarrow> nco" where
  "nco_next inc n = \<lparr>n_phase = ucast (next_phase inc n), n_strobe = bit (next_phase inc n) 32,
     n_count = (if n_strobe n then n_count n + 1 else n_count n)\<rparr>"

definition nco_reset :: nco where "nco_reset = \<lparr>n_phase = 0, n_strobe = False, n_count = 0\<rparr>"

text \<open>How often the phase wraps while the increments \<open>incs\<close> are added.\<close>

primrec wraps :: "u32 list \<Rightarrow> nco \<Rightarrow> nat" where
  "wraps [] n = 0"
| "wraps (inc # incs) n = of_bool (n_strobe (nco_next inc n)) + wraps incs (nco_next inc n)"

lemma wraps_append: "wraps (xs @ ys) n = wraps xs n + wraps ys (fold nco_next xs n)"
  by (induction xs arbitrary: n) simp_all

lemma next_phase_sum: "unat (next_phase inc n) = unat (n_phase n) + unat inc"
proof -
  have "unat (n_phase n) < 2 ^ 32" "unat inc < 2 ^ 32" using unsigned_less [of "n_phase n"] unsigned_less [of inc] by simp_all
  then show ?thesis by (simp add: next_phase_def unat_word_ariths unsigned_ucast_eq take_bit_nat_eq_self)
qed

lemma nco_step: "2 ^ 32 * of_bool (n_strobe (nco_next inc n)) + unat (n_phase (nco_next inc n)) = unat (n_phase n) + unat inc"
proof -
  let ?s = "unat (n_phase n) + unat inc"
  have "unat (n_phase n) < 2 ^ 32" "unat inc < 2 ^ 32" using unsigned_less [of "n_phase n"] unsigned_less [of inc] by simp_all
  then have s: "?s div 2 ^ 32 < 2" by (simp add: less_mult_imp_div_less)
  have "bit (next_phase inc n) 32 \<longleftrightarrow> odd (?s div 2 ^ 32)"
    using bit_unsigned_iff [where 'a = nat, of "next_phase inc n" 32] by (simp add: bit_iff_odd next_phase_sum)
  moreover have "unat (ucast (next_phase inc n) :: u32) = ?s mod 2 ^ 32"
    by (simp add: unsigned_ucast_eq next_phase_sum take_bit_eq_mod)
  moreover have "of_bool (odd (?s div 2 ^ 32)) = ?s div 2 ^ 32" using s by (cases "?s div 2 ^ 32 = 0") (simp_all add: odd_iff_mod_2_eq_one)
  ultimately show ?thesis by (simp add: nco_next_def)
qed

text \<open>The phase loses nothing: wraps and phase together hold the sum of all increments.\<close>

lemma nco_run: "2 ^ 32 * wraps incs n + unat (n_phase (fold nco_next incs n)) = unat (n_phase n) + sum_list (map unat incs)"
proof (induction incs arbitrary: n)
  case (Cons inc incs)
  show ?case using nco_step [of inc n] Cons.IH [of "nco_next inc n"] by (cases "n_strobe (nco_next inc n)") simp_all
qed simp

lemma nco_count: "n_count (fold nco_next incs n) + of_bool (n_strobe (fold nco_next incs n)) = n_count n + of_bool (n_strobe n) + of_nat (wraps incs n)"
proof (induction incs arbitrary: n)
  case (Cons inc incs)
  have "n_count (nco_next inc n) = n_count n + of_bool (n_strobe n)" by (simp add: nco_next_def)
  then show ?case using Cons [of "nco_next inc n"] by simp
qed simp

text \<open>
  C19.  The sample clock runs at its rate.  With the nominal increment the firmware computes for a
  rate \<open>fs\<close>, the number of samples strobed in any number \<open>k\<close> of system clock cycles from reset
  is off the ideal \<open>k * fs / sys_clk_freq\<close> by at most one sample and another half sample in
  every 2^32 cycles; the sample counter the firmware reads has that number, less a strobe that
  is still in flight.
\<close>

theorem media_clock_rate:
  assumes "fs < sys_clk_freq"
  defines "incs \<equiv> \<lambda>k. replicate k (mcr_base_increment sys_clk_freq fs)"
  shows "2 ^ 33 * \<bar>int (wraps (incs k) nco_reset) * uint sys_clk_freq - int k * uint fs\<bar> \<le> (2 ^ 33 + int k) * uint sys_clk_freq
    \<and> n_count (fold nco_next (incs k) nco_reset) + of_bool (n_strobe (fold nco_next (incs k) nco_reset)) = of_nat (wraps (incs k) nco_reset)"
proof -
  define inc where "inc = uint (mcr_base_increment sys_clk_freq fs)"
  define w where "w = int (wraps (incs k) nco_reset)"
  define ph where "ph = uint (n_phase (fold nco_next (incs k) nco_reset))"
  define d where "d = inc * uint sys_clk_freq - uint fs * 2 ^ 32"
  have d: "\<bar>2 * d\<bar> \<le> uint sys_clk_freq" using mcr_base_increment_nearest [OF assms(1)] by (simp only: d_def inc_def abs_mult abs_numeral)
  have ph: "0 \<le> ph" "ph < 2 ^ 32" using uint_lt2p [of "n_phase (fold nco_next (incs k) nco_reset)"] by (simp_all add: ph_def)
  have "sum_list (map unat (incs k)) = k * unat (mcr_base_increment sys_clk_freq fs)" by (simp add: incs_def sum_list_replicate)
  then have "2 ^ 32 * w + ph = int k * inc"
    using arg_cong [OF nco_run [of "incs k" nco_reset], of int] by (simp add: w_def ph_def inc_def nco_reset_def)
  then have w: "2 ^ 32 * w = int k * inc - ph" by simp
  have "2 ^ 33 * (w * uint sys_clk_freq - int k * uint fs) = 2 * (2 ^ 32 * w) * uint sys_clk_freq - 2 ^ 33 * (int k * uint fs)"
    by (simp add: right_diff_distrib)
  also have "\<dots> = int k * (2 * d) - 2 * (ph * uint sys_clk_freq)"
    unfolding w d_def by (simp add: left_diff_distrib right_diff_distrib)
  finally have "2 ^ 33 * (w * uint sys_clk_freq - int k * uint fs) = int k * (2 * d) - 2 * (ph * uint sys_clk_freq)" .
  moreover have "\<bar>int k * (2 * d)\<bar> \<le> int k * uint sys_clk_freq" using d by (simp add: abs_mult mult_left_mono)
  moreover have "0 \<le> ph * uint sys_clk_freq" "ph * uint sys_clk_freq \<le> 2 ^ 32 * uint sys_clk_freq"
    using ph by (simp_all add: mult_right_mono)
  ultimately have "\<bar>2 ^ 33 * (w * uint sys_clk_freq - int k * uint fs)\<bar> \<le> (2 ^ 33 + int k) * uint sys_clk_freq"
    by (simp add: distrib_right abs_le_iff)
  then have "2 ^ 33 * \<bar>w * uint sys_clk_freq - int k * uint fs\<bar> \<le> (2 ^ 33 + int k) * uint sys_clk_freq"
    by (simp only: abs_mult power_abs abs_numeral)
  moreover have "n_count nco_reset = 0" "\<not> n_strobe nco_reset" by (simp_all add: nco_reset_def)
  ultimately show ?thesis using nco_count [of "incs k" nco_reset] by (simp add: w_def)
qed

theorem media_clock_rate_witness:
  "2 ^ 33 * \<bar>int (wraps (replicate 50000000 (mcr_base_increment 50000000 48000)) nco_reset) * 50000000 - 50000000 * 48000\<bar>
     \<le> (2 ^ 33 + 50000000) * 50000000"
  using media_clock_rate [of 48000 50000000 50000000] by simp

section \<open>The I2S transmitter\<close>

record i2s =
  t_nco :: nco
  t_l :: "24 word"
  t_r :: "24 word"
  t_underruns :: u32

text \<open>The inputs of a cycle: the increment register, and the head of the sample FIFO.\<close>

record i2s_in =
  j_inc :: u32
  j_l :: "24 word"
  j_r :: "24 word"
  j_valid :: bool

definition i2s_next :: "i2s_in \<Rightarrow> i2s \<Rightarrow> i2s" where
  "i2s_next i t =
     (let t1 = t\<lparr>t_nco := nco_next (j_inc i) (t_nco t)\<rparr>
      in if n_strobe (t_nco t) then
           if j_valid i then t1\<lparr>t_l := j_l i, t_r := j_r i\<rparr> else t1\<lparr>t_underruns := t_underruns t + 1\<rparr>
         else t1)"

text \<open>What is taken from the FIFO in a cycle.\<close>

definition i2s_pop :: "i2s_in \<Rightarrow> i2s \<Rightarrow> (24 word \<times> 24 word) list" where
  "i2s_pop i t = (if n_strobe (t_nco t) \<and> j_valid i then [(j_l i, j_r i)] else [])"

text \<open>The 32 bits of a channel: one bit of delay, the sample from its highest bit, padding.\<close>

definition pattern :: "24 word \<Rightarrow> bool list" where
  "pattern a = False # map (bit a) (rev [0..<24]) @ replicate 7 False"

definition bck :: "u32 \<Rightarrow> bool" where "bck ph = bit ph 25"
definition lrck :: "u32 \<Rightarrow> bool" where "lrck ph = bit ph 31"
definition bit_idx :: "u32 \<Rightarrow> nat" where "bit_idx ph = unat (drop_bit 26 ph AND 31)"

definition i2s_dout :: "i2s \<Rightarrow> bool" where
  "i2s_dout t = pattern (if lrck (n_phase (t_nco t)) then t_r t else t_l t) ! bit_idx (n_phase (t_nco t))"

text \<open>The three wires in a cycle: bit clock, channel, data.\<close>

definition i2s_out :: "i2s_in \<Rightarrow> i2s \<Rightarrow> (bool \<times> bool \<times> bool) list" where
  "i2s_out i t = [(bck (n_phase (t_nco t)), lrck (n_phase (t_nco t)), i2s_dout t)]"

section \<open>What the converter receives\<close>

text \<open>The converter takes channel and data at every rising edge of the bit clock.\<close>

primrec rising :: "bool \<Rightarrow> (bool \<times> 'a) list \<Rightarrow> 'a list" where
  "rising p [] = []"
| "rising p (x # xs) = (if \<not> p \<and> fst x then [snd x] else []) @ rising (fst x) xs"

text \<open>Of the bits of a channel it keeps the 24 after the first.\<close>

definition channel_sample :: "bool list \<Rightarrow> 24 word" where
  "channel_sample bs = horner_sum of_bool 2 (rev (take 24 (tl bs)))"

definition received_pair :: "(bool \<times> bool) list \<Rightarrow> 24 word \<times> 24 word" where
  "received_pair xs = (channel_sample (map snd (filter (\<lambda>(c, d). \<not> c) xs)), channel_sample (map snd (filter fst xs)))"

lemma channel_sample_pattern: "channel_sample (pattern a) = a"
proof -
  have "rev (take 24 (tl (pattern a))) = map (bit a) [0..<24]" by (simp add: pattern_def rev_map)
  then have "channel_sample (pattern a) = take_bit 24 a" by (simp add: channel_sample_def horner_sum_bit_eq_take_bit)
  then show ?thesis by (simp add: take_bit_word_eq_self)
qed

lemma length_pattern [simp]: "length (pattern a) = 32"
  by (simp add: pattern_def)

text \<open>Half a bit cell is 2^25 steps of the phase; a frame has 128 of them.\<close>

definition half_cell :: "u32 \<Rightarrow> nat" where "half_cell ph = unat ph div 2 ^ 25"

definition cell :: "24 word \<Rightarrow> 24 word \<Rightarrow> nat \<Rightarrow> bool \<times> bool" where
  "cell l r k = (32 \<le> k, (pattern l @ pattern r) ! k)"

definition wave :: "24 word \<Rightarrow> 24 word \<Rightarrow> u32 \<Rightarrow> bool \<times> bool \<times> bool" where
  "wave l r ph = (bck ph, lrck ph, pattern (if lrck ph then r else l) ! bit_idx ph)"

lemma half_cell_128: "half_cell ph < 128"
  using unsigned_less [where 'a = nat, of ph] by (simp add: half_cell_def less_mult_imp_div_less)

lemma wave_cell: "wave l r ph = (odd (half_cell ph), cell l r (half_cell ph div 2))"
proof -
  have u: "unat (drop_bit n ph) = unat ph div 2 ^ n" for n by (subst unat_drop_bit_eq) (simp add: drop_bit_eq_div)
  have b: "bit ph n \<longleftrightarrow> odd (unat ph div 2 ^ n)" if "n < 32" for n
    using bit_unsigned_iff [where 'a = nat, of ph n] that by (simp add: bit_iff_odd)
  have h: "half_cell ph div 64 < 2" using half_cell_128 [of ph] by (simp add: less_mult_imp_div_less)
  have l: "lrck ph \<longleftrightarrow> 64 \<le> half_cell ph"
    using b [of 31] h by (cases "half_cell ph div 64 = 0") (auto simp: lrck_def half_cell_def div_mult2_eq [symmetric] odd_iff_mod_2_eq_one)
  have i: "bit_idx ph = half_cell ph div 2 mod 32"
  proof -
    have "drop_bit 26 ph AND 31 = take_bit 5 (drop_bit 26 ph)" by (simp add: take_bit_eq_mask mask_eq_exp_minus_1)
    then have "bit_idx ph = unat (drop_bit 26 ph) mod 2 ^ 5" by (simp add: bit_idx_def unat_mod_distrib take_bit_eq_mod)
    then show ?thesis using u [of 26] by (simp add: half_cell_def div_mult2_eq [symmetric])
  qed
  have b25: "bck ph \<longleftrightarrow> odd (half_cell ph)" using b [of 25] by (simp add: bck_def half_cell_def)
  show ?thesis
  proof (cases "lrck ph")
    case True
    then have "32 \<le> half_cell ph div 2" using l by simp
    moreover have "half_cell ph div 2 mod 32 = half_cell ph div 2 - 32"
      using \<open>32 \<le> half_cell ph div 2\<close> half_cell_128 [of ph] by (simp add: le_mod_geq)
    ultimately show ?thesis using True b25 i by (simp add: wave_def cell_def nth_append)
  next
    case False
    then have "half_cell ph div 2 < 32" using l by simp
    then show ?thesis using False b25 i by (simp add: wave_def cell_def nth_append)
  qed
qed

text \<open>Rising edges fall in the middle of the bit cells, one in each.\<close>

fun small_steps :: "nat \<Rightarrow> u32 list \<Rightarrow> bool" where
  "small_steps h [] \<longleftrightarrow> True"
| "small_steps h (p # ps) \<longleftrightarrow> (half_cell p = h \<or> half_cell p = Suc h) \<and> small_steps (half_cell p) ps"

lemma small_steps_le: "small_steps h ps \<Longrightarrow> h \<le> last (h # map half_cell ps)"
  by (induction h ps rule: small_steps.induct) (auto split: if_splits)

lemma half_up: "h' = h \<or> h' = Suc h \<Longrightarrow> \<not> (even h \<and> odd h') \<Longrightarrow> (h + 1) div 2 = (h' + 1) div (2 :: nat)"
  by presburger

lemma rising_wave:
  "small_steps h ps \<Longrightarrow> rising (odd h) (map (wave l r) ps) = map (cell l r) [(h + 1) div 2..<(last (h # map half_cell ps) + 1) div 2]"
proof (induction h ps rule: small_steps.induct)
  case (2 h p ps)
  let ?h = "half_cell p" and ?L = "(last (half_cell p # map half_cell ps) + 1) div 2"
  have IH: "rising (odd ?h) (map (wave l r) ps) = map (cell l r) [(?h + 1) div 2..<?L]" using 2 by simp
  have L: "(?h + 1) div 2 \<le> ?L" using small_steps_le [of ?h ps] 2(2) by (intro div_le_mono) simp
  have r: "rising (odd h) (map (wave l r) (p # ps))
    = (if even h \<and> odd ?h then [cell l r (?h div 2)] else []) @ map (cell l r) [(?h + 1) div 2..<?L]"
    using IH by (simp add: wave_cell)
  have e: "last (h # map half_cell (p # ps)) = last (?h # map half_cell ps)" by simp
  show ?case unfolding r e
  proof (cases "even h \<and> odd ?h")
    case True
    then have "(h + 1) div 2 = ?h div 2" "(?h + 1) div 2 = Suc (?h div 2)" using 2(2) by (auto elim!: evenE)
    then show "(if even h \<and> odd ?h then [cell l r (?h div 2)] else []) @ map (cell l r) [(?h + 1) div 2..<?L]
      = map (cell l r) [(h + 1) div 2..<?L]" using True L by (simp add: upt_conv_Cons)
  next
    case False
    then have "(h + 1) div 2 = (?h + 1) div 2" using 2(2) by (intro half_up) simp_all
    then show "(if even h \<and> odd ?h then [cell l r (?h div 2)] else []) @ map (cell l r) [(?h + 1) div 2..<?L]
      = map (cell l r) [(h + 1) div 2..<?L]" using False by simp
  qed
qed simp

section \<open>One frame\<close>

text \<open>The phases seen in the cycles of a run.\<close>

primrec phases :: "u32 list \<Rightarrow> nco \<Rightarrow> u32 list" where
  "phases [] n = []"
| "phases (inc # incs) n = n_phase n # phases incs (nco_next inc n)"

lemma no_wrap: "\<not> n_strobe (nco_next inc n) \<Longrightarrow> unat (n_phase (nco_next inc n)) = unat (n_phase n) + unat inc"
  using nco_step [of inc n] by simp

lemma phases_small:
  assumes "\<forall>inc \<in> set incs. unat inc \<le> 2 ^ 25" and "wraps (butlast incs) n = 0"
  shows "small_steps (half_cell (n_phase n)) (phases incs n)"
  using assms
proof (induction incs arbitrary: n)
  case (Cons inc incs)
  show ?case
  proof (cases "incs = []")
    case False
    let ?n = "nco_next inc n"
    have w: "\<not> n_strobe ?n" "wraps (butlast incs) ?n = 0" using Cons.prems(2) False by (auto split: if_splits)
    have "unat inc \<le> 2 ^ 25" using Cons.prems(1) by simp
    then have "unat (n_phase ?n) div 2 ^ 25 \<le> (unat (n_phase n) + 2 ^ 25) div 2 ^ 25" "unat (n_phase n) div 2 ^ 25 \<le> unat (n_phase ?n) div 2 ^ 25"
      using no_wrap [OF w(1)] by (auto intro!: div_le_mono)
    then have h: "half_cell (n_phase ?n) = half_cell (n_phase n) \<or> half_cell (n_phase ?n) = Suc (half_cell (n_phase n))"
      by (auto simp: half_cell_def)
    have "small_steps (half_cell (n_phase ?n)) (phases incs ?n)" using Cons.IH w(2) Cons.prems(1) by simp
    then show ?thesis using h False by (cases incs) auto
  qed simp
qed simp

lemma phases_last: "incs \<noteq> [] \<Longrightarrow> last (phases incs n) = n_phase (fold nco_next (butlast incs) n)"
proof (induction incs arbitrary: n)
  case (Cons inc incs)
  then show ?case by (cases incs) auto
qed simp

lemma frame_ends:
  assumes "incs \<noteq> []" and "unat (last incs) \<le> 2 ^ 25" and "wraps (butlast incs) n = 0" and "wraps incs n = 1"
  shows "half_cell (last (phases incs n)) = 127" "n_strobe (fold nco_next incs n)" "unat (n_phase (fold nco_next incs n)) < 2 ^ 25"
proof -
  let ?m = "fold nco_next (butlast incs) n"
  have s: "incs = butlast incs @ [last incs]" using assms(1) by simp
  have f: "fold nco_next incs n = nco_next (last incs) ?m" using arg_cong [OF s, of "\<lambda>xs. fold nco_next xs n"] by simp
  have "wraps incs n = wraps (butlast incs) n + wraps [last incs] ?m" using arg_cong [OF s, of "\<lambda>xs. wraps xs n"] by (simp only: wraps_append)
  then have "of_bool (n_strobe (nco_next (last incs) ?m)) = (1 :: nat)" by (simp only: assms(3,4) wraps.simps add_0 add_0_right)
  then show st: "n_strobe (fold nco_next incs n)" unfolding f by (cases "n_strobe (nco_next (last incs) ?m)") simp_all
  have e: "2 ^ 32 + unat (n_phase (fold nco_next incs n)) = unat (n_phase ?m) + unat (last incs)" using nco_step [of "last incs" ?m] st f by simp
  have b: "unat (n_phase ?m) < 2 ^ 32" using unsigned_less [where 'a = nat, of "n_phase ?m"] by simp
  show "unat (n_phase (fold nco_next incs n)) < 2 ^ 25" using e b assms(2) by simp
  have "2 ^ 32 - 2 ^ 25 \<le> unat (n_phase ?m)" using e assms(2) by simp
  then have "(2 ^ 32 - 2 ^ 25) div 2 ^ 25 \<le> unat (n_phase ?m) div 2 ^ 25" by (rule div_le_mono)
  then show "half_cell (last (phases incs n)) = 127"
    using half_cell_128 [of "n_phase ?m"] by (simp add: phases_last [OF assms(1)] half_cell_def)
qed

lemma i2s_quiet:
  assumes "\<not> n_strobe (t_nco t)" and "wraps (butlast (map j_inc is)) (t_nco t) = 0"
  shows "clk_outs i2s_next i2s_out is t = map (wave (t_l t) (t_r t)) (phases (map j_inc is) (t_nco t)) \<and> clk_outs i2s_next i2s_pop is t = []"
  using assms
proof (induction "is" arbitrary: t)
  case (Cons i "is")
  let ?t = "i2s_next i t"
  have t: "t_nco ?t = nco_next (j_inc i) (t_nco t)" "t_l ?t = t_l t" "t_r ?t = t_r t" using Cons.prems(1) by (simp_all add: i2s_next_def Let_def)
  have o: "i2s_out i t = [wave (t_l t) (t_r t) (n_phase (t_nco t))]" "i2s_pop i t = []"
    using Cons.prems(1) by (simp_all add: i2s_out_def i2s_dout_def wave_def i2s_pop_def)
  show ?case
  proof (cases "is = []")
    case False
    then have "\<not> n_strobe (t_nco ?t)" "wraps (butlast (map j_inc is)) (t_nco ?t) = 0" using Cons.prems(2) by (auto simp: t split: if_splits)
    then show ?thesis using Cons.IH [of ?t] o t by simp
  qed (simp add: o)
qed simp

lemma cells_of_frame: "map (cell l r) [0..<64] = map (Pair False) (pattern l) @ map (Pair True) (pattern r)"
  by (rule nth_equalityI) (auto simp: cell_def nth_append)

text \<open>
  C18.  The I2S wires carry the sample pairs.  From one strobe of the oscillator to the next, with
  whatever increments up to half a bit cell the servo sets meanwhile, the converter that samples
  the data at the rising edges of the bit clock receives exactly the pair the transmitter took
  from the FIFO at the strobe -- or, if the FIFO was empty, the pair of the frame before -- and
  the transmitter takes no other; then the next frame begins in the same way.
\<close>

theorem i2s_carries_samples:
  assumes start: "n_strobe (t_nco t)" "unat (n_phase (t_nco t)) < 2 ^ 25"
    and incs: "\<forall>i \<in> set is. unat (j_inc i) \<le> 2 ^ 25"
    and frame: "is \<noteq> []" "wraps (map j_inc (butlast is)) (t_nco t) = 0" "wraps (map j_inc is) (t_nco t) = 1"
  defines "pair \<equiv> if j_valid (hd is) then (j_l (hd is), j_r (hd is)) else (t_l t, t_r t)"
  shows "received_pair (rising p (clk_outs i2s_next i2s_out is t)) = pair
    \<and> clk_outs i2s_next i2s_pop is t = (if j_valid (hd is) then [pair] else [])
    \<and> n_strobe (fold nco_next (map j_inc is) (t_nco t)) \<and> unat (n_phase (fold nco_next (map j_inc is) (t_nco t))) < 2 ^ 25"
proof -
  obtain i js where ijs: "is = i # js" using frame(1) by (cases "is") simp_all
  let ?n = "t_nco t" and ?t = "i2s_next i t" and ?incs = "map j_inc is"
  have b: "wraps (butlast ?incs) ?n = 0" using frame(2) by (simp add: map_butlast)
  have e: "half_cell (last (phases ?incs ?n)) = 127" "n_strobe (fold nco_next ?incs ?n)" "unat (n_phase (fold nco_next ?incs ?n)) < 2 ^ 25"
    using frame_ends [of ?incs ?n] incs b frame(1,3) by (simp_all add: last_map)
  have h0: "half_cell (n_phase ?n) = 0" using start(2) by (simp add: half_cell_def)
  then have js: "js \<noteq> []" using e(1) by (auto simp: ijs)
  have ps: "phases ?incs ?n = n_phase ?n # phases (map j_inc js) (t_nco ?t)" by (simp add: ijs i2s_next_def Let_def)
  have "small_steps 0 (phases ?incs ?n)" using phases_small [of ?incs ?n] incs b h0 by simp
  then have st: "small_steps 0 (phases (map j_inc js) (t_nco ?t))" using h0 by (simp add: ps)
  have nj: "phases (map j_inc js) (t_nco ?t) \<noteq> []" using js by (cases js) simp_all
  have l: "last (0 # map half_cell (phases (map j_inc js) (t_nco ?t))) = 127" using e(1) nj by (simp add: ps last_map)
  have lr: "(t_l ?t, t_r ?t) = pair" using start(1) by (simp add: i2s_next_def pair_def ijs Let_def)
  have "\<not> n_strobe (t_nco ?t)" "wraps (butlast (map j_inc js)) (t_nco ?t) = 0"
    using b js by (auto simp: ijs i2s_next_def Let_def split: if_splits)
  then have q: "clk_outs i2s_next i2s_out js ?t = map (wave (t_l ?t) (t_r ?t)) (phases (map j_inc js) (t_nco ?t))"
    "clk_outs i2s_next i2s_pop js ?t = []"
    using i2s_quiet [of ?t js] by blast+
  have "\<not> bck (n_phase ?n)" using wave_cell [of 0 0 "n_phase ?n"] h0 by (simp add: wave_def)
  then have "rising p (clk_outs i2s_next i2s_out is t) = rising (odd (0 :: nat)) (map (wave (t_l ?t) (t_r ?t)) (phases (map j_inc js) (t_nco ?t)))"
    by (simp add: ijs q(1) i2s_out_def)
  also have "\<dots> = map (cell (t_l ?t) (t_r ?t)) [0..<64]" using rising_wave [OF st, of "t_l ?t" "t_r ?t"] unfolding l by simp
  finally have "received_pair (rising p (clk_outs i2s_next i2s_out is t)) = (t_l ?t, t_r ?t)"
    by (simp add: cells_of_frame received_pair_def filter_map o_def channel_sample_pattern)
  moreover have "clk_outs i2s_next i2s_pop is t = (if j_valid (hd is) then [pair] else [])"
    using start(1) q(2) by (simp add: ijs i2s_pop_def pair_def)
  ultimately show ?thesis using e(2,3) lr by simp
qed

definition demo_i2s :: i2s where
  "demo_i2s = \<lparr>t_nco = \<lparr>n_phase = 0, n_strobe = True, n_count = 0\<rparr>, t_l = 0, t_r = 0, t_underruns = 0\<rparr>"

definition demo_i2s_in :: i2s_in where
  "demo_i2s_in = \<lparr>j_inc = 0x2000000, j_l = 0xABCDEF, j_r = 0x123456, j_valid = True\<rparr>"

theorem i2s_carries_samples_witness:
  "received_pair (rising True (clk_outs i2s_next i2s_out (replicate 128 demo_i2s_in) demo_i2s)) = (0xABCDEF, 0x123456)"
proof -
  have s: "2 ^ 32 * wraps (replicate k 0x2000000) (t_nco demo_i2s) + unat (n_phase (fold nco_next (replicate k 0x2000000) (t_nco demo_i2s))) = k * 2 ^ 25" for k
    using nco_run [of "replicate k 0x2000000" "t_nco demo_i2s"] by (simp add: demo_i2s_def sum_list_replicate)
  have "unat (n_phase (fold nco_next (replicate 128 0x2000000) (t_nco demo_i2s))) < 2 ^ 32"
    using unsigned_less [where 'a = nat, of "n_phase (fold nco_next (replicate 128 0x2000000) (t_nco demo_i2s))"] by simp
  then have w: "wraps (replicate 127 0x2000000) (t_nco demo_i2s) = 0" "wraps (replicate 128 0x2000000) (t_nco demo_i2s) = 1"
    using s [of 127] s [of 128] by simp_all
  have m: "j_inc demo_i2s_in = 0x2000000" by (simp add: demo_i2s_in_def)
  have d: "n_strobe (t_nco demo_i2s)" "unat (n_phase (t_nco demo_i2s)) < 2 ^ 25" "\<forall>i \<in> set (replicate 128 demo_i2s_in). unat (j_inc i) \<le> 2 ^ 25"
    by (simp_all add: demo_i2s_def demo_i2s_in_def)
  have f: "replicate 128 demo_i2s_in \<noteq> []" "wraps (map j_inc (butlast (replicate 128 demo_i2s_in))) (t_nco demo_i2s) = 0"
    "wraps (map j_inc (replicate 128 demo_i2s_in)) (t_nco demo_i2s) = 1"
    by (simp_all add: butlast_conv_take m w)
  have "received_pair (rising True (clk_outs i2s_next i2s_out (replicate 128 demo_i2s_in) demo_i2s))
    = (if j_valid (hd (replicate 128 demo_i2s_in)) then (j_l (hd (replicate 128 demo_i2s_in)), j_r (hd (replicate 128 demo_i2s_in))) else (t_l demo_i2s, t_r demo_i2s))"
    by (rule i2s_carries_samples [OF d f, THEN conjunct1])
  then show ?thesis by (simp add: demo_i2s_in_def)
qed

section \<open>The offset register\<close>

text \<open>The signed offset put together from the two registers: the sign bit of the high part is replicated.\<close>

definition tsu_offset :: "u32 \<Rightarrow> u32 \<Rightarrow> 81 word" where
  "tsu_offset lo hi = ucast lo OR push_bit 32 (ucast (ucast hi :: 17 word))
     OR (if bit (ucast hi :: 17 word) 16 then push_bit 49 (mask 32) else 0)"

text \<open>Every offset of up to 2^48 ns either way reaches the time stamp unit as it is.\<close>

theorem offset_reaches_tsu:
  assumes "- (2 ^ 48) \<le> off" and "off < 2 ^ 48"
  shows "\<exists>lo hi. hw_offsets (gptp_adjust_offset off h) = hw_offsets h @ [(lo, hi)] \<and> sint (tsu_offset lo hi) = off"
proof -
  let ?lo = "word_of_int (off AND 0xFFFFFFFF) :: u32" and ?hi = "word_of_int (drop_bit 32 off AND 0x1FFFF) :: u32"
  have m: "(0xFFFFFFFF :: int) = mask 32" "(0x1FFFF :: int) = mask 17" by (simp_all add: mask_eq_exp_minus_1)
  have st: "signed_take_bit 48 off = off" using assms by (simp add: signed_take_bit_int_eq_self)
  have high: "bit off n \<longleftrightarrow> bit off 48" if "48 \<le> n" for n
    using bit_signed_take_bit_iff [of 48 off n] that by (simp add: st min_def)
  have "tsu_offset ?lo ?hi = word_of_int off"
  proof (rule bit_word_eqI)
    fix n assume "n < LENGTH(81)"
    then have n: "n < 81" by simp
    show "bit (tsu_offset ?lo ?hi) n = bit (word_of_int off :: 81 word) n"
      using n high [of n] unfolding tsu_offset_def m by (cases "n < 48") (auto simp: bit_simps not_less less_diff_conv2 le_diff_conv2)
  qed
  moreover have "sint (word_of_int off :: 81 word) = off" using assms by (simp add: signed_of_int signed_take_bit_int_eq_self)
  ultimately show ?thesis by (simp add: gptp_adjust_offset_def)
qed

end
