(* ===== verification/Am824.thy ===== *)
theory Am824
  imports Ring
begin

text \<open>
  The earlier AM824 audio stream kept beside the firmware (firmware/_avtp_backup/avtp.c,
  avtp.h; no Makefile builds it): a stereo talker and listener for IEC 61883-6 over AVTP,
  six 24-bit sample pairs per Class A packet, between two ring buffers of 256 slots.

  \<open>audio_ring\<close> is \<open>audio_ring_t\<close>, \<open>avtp_stream\<close> is \<open>avtp_stream_t\<close> field by field (prefix
  \<open>t_\<close>).  The stream holds pointers to rings that it shares with the AES3 bridge, so the
  rings live in a store \<open>rings\<close> addressed by number, and a pointer is an optional address
  (NULL is \<open>None\<close>).  An operation that uses the rings threads stream, store and hardware.

  The lemmas show: a ring is a bounded FIFO of 255 pairs (\<open>bounded_queue\<close>, interpreted
  here); the 98 bytes of a packet; what the listener appends for an accepted frame; that
  the samples survive the trip; and that the listener accepts no frame of the talker,
  because it measures the length with the VLAN tag and reads the fields without it.
\<close>

section \<open>Constants and state\<close>

definition AVTP_SUBTYPE_61883_IIDC :: u8 where "AVTP_SUBTYPE_61883_IIDC = 0x00"
definition CIP_FMT_61883_6 :: u32 where "CIP_FMT_61883_6 = 0x10"
definition CIP_SFC_48K :: u32 where "CIP_SFC_48K = 2"
definition AM824_LABEL_MBLA :: u8 where "AM824_LABEL_MBLA = 0x40"
definition AVTP_SAMPLES_PER_PACKET :: nat where "AVTP_SAMPLES_PER_PACKET = 6"
definition AVTP_CHANNELS :: u8 where "AVTP_CHANNELS = 2"
definition AVTP_STREAM_HDR_LEN :: nat where "AVTP_STREAM_HDR_LEN = 24"
definition AVTP_CIP_HDR_LEN :: nat where "AVTP_CIP_HDR_LEN = 8"
definition AVTP_AM824_QUADLET_LEN :: nat where "AVTP_AM824_QUADLET_LEN = 4"
definition AVTP_AUDIO_PAYLOAD_LEN :: nat where
  "AVTP_AUDIO_PAYLOAD_LEN = AVTP_SAMPLES_PER_PACKET * unat AVTP_CHANNELS * AVTP_AM824_QUADLET_LEN"
definition AVTP_STREAM_DATA_LEN :: nat where
  "AVTP_STREAM_DATA_LEN = AVTP_CIP_HDR_LEN + AVTP_AUDIO_PAYLOAD_LEN"
definition AVTP_FRAME_PAYLOAD_LEN :: nat where
  "AVTP_FRAME_PAYLOAD_LEN = AVTP_STREAM_HDR_LEN + AVTP_STREAM_DATA_LEN"
definition AVTP_FRAME_LEN :: nat where "AVTP_FRAME_LEN = 18 + AVTP_FRAME_PAYLOAD_LEN"
definition AVTP_PRESENTATION_OFFSET_NS :: u32 where "AVTP_PRESENTATION_OFFSET_NS = 2000000"
definition AVTP_TX_INTERVAL_US :: u32 where "AVTP_TX_INTERVAL_US = 125"
definition AUDIO_RING_MASK :: u32 where "AUDIO_RING_MASK = 256 - 1"
definition AVTP_MCAST_ADDR :: "u8 list" where "AVTP_MCAST_ADDR = [0x91, 0xE0, 0xF0, 0x00, 0xFE, 0x00]"

lemmas avtp_lengths = AVTP_FRAME_LEN_def AVTP_FRAME_PAYLOAD_LEN_def AVTP_STREAM_DATA_LEN_def
  AVTP_AUDIO_PAYLOAD_LEN_def AVTP_SAMPLES_PER_PACKET_def AVTP_CHANNELS_def AVTP_STREAM_HDR_LEN_def
  AVTP_CIP_HDR_LEN_def AVTP_AM824_QUADLET_LEN_def

record audio_ring =
  r_left :: "u32 \<Rightarrow> u32"
  r_right :: "u32 \<Rightarrow> u32"
  r_write_idx :: u32
  r_read_idx :: u32

type_synonym rings = "nat \<Rightarrow> audio_ring"

record avtp_stream =
  t_stream_id :: "u8 list"
  t_dst_mac :: "u8 list"
  t_src_mac :: "u8 list"
  t_tx_enabled :: u8
  t_tx_seq_num :: u8
  t_tx_dbc :: u8
  t_tx_last_time_us :: u32
  t_tx_packet_count :: u32
  t_rx_enabled :: u8
  t_rx_stream_id :: "u8 list"
  t_rx_seq_num :: u8
  t_rx_packet_count :: u32
  t_rx_seq_errors :: u32
  t_rx_last_avtp_ts :: u32
  t_tx_ring :: "nat option"
  t_rx_ring :: "nat option"

section \<open>The audio ring (avtp.h)\<close>

definition audio_ring_count :: "audio_ring \<Rightarrow> u32" where
  "audio_ring_count r = (r_write_idx r - r_read_idx r) AND AUDIO_RING_MASK"

definition audio_ring_space :: "audio_ring \<Rightarrow> u32" where
  "audio_ring_space r = AUDIO_RING_MASK - audio_ring_count r"

definition audio_ring_write :: "u32 \<times> u32 \<Rightarrow> audio_ring \<Rightarrow> audio_ring" where
  "audio_ring_write lr r =
     (let idx = r_write_idx r AND AUDIO_RING_MASK
      in r\<lparr>r_left := (r_left r)(idx := fst lr), r_right := (r_right r)(idx := snd lr),
           r_write_idx := r_write_idx r + 1\<rparr>)"

definition audio_ring_read :: "audio_ring \<Rightarrow> (u32 \<times> u32) \<times> audio_ring" where
  "audio_ring_read r =
     (let idx = r_read_idx r AND AUDIO_RING_MASK
      in ((r_left r idx, r_right r idx), r\<lparr>r_read_idx := r_read_idx r + 1\<rparr>))"

section \<open>Talker\<close>

text \<open>
  \<open>build_avtp_header\<close> writes the Ethernet header with its VLAN tag, the AVTP stream header
  and the CIP header: 50 bytes.
\<close>

definition cip1 :: "avtp_stream \<Rightarrow> u32" where
  "cip1 s = push_bit 24 0x3F OR push_bit 16 (ucast AVTP_CHANNELS) OR ucast (t_tx_dbc s AND 0xFF)"

definition cip2 :: u32 where
  "cip2 = push_bit 30 0x02 OR push_bit 24 CIP_FMT_61883_6 OR push_bit 16 CIP_SFC_48K OR 0xFFFF"

definition build_avtp_header :: "avtp_stream \<Rightarrow> (nat \<times> u8 list) list" where
  "build_avtp_header s =
     [(0, t_dst_mac s), (6, t_src_mac s),
      (12, put_be16 0x8100), (14, put_be16 (push_bit 13 3 OR 2)), (16, put_be16 AVTP_ETHERTYPE),
      (18, [AVTP_SUBTYPE_61883_IIDC]), (19, [0x81]), (20, [t_tx_seq_num s]), (21, [0x00]),
      (22, t_stream_id s),
      (30, put_be32 0), (34, put_be32 0), (38, put_be16 (of_nat AVTP_STREAM_DATA_LEN)),
      (40, [0x5F]), (41, [0xA0]),
      (42, put_be32 (cip1 s)), (46, put_be32 cip2)]"

definition am824_quadlet :: "u32 \<Rightarrow> u8 list" where
  "am824_quadlet x = [AM824_LABEL_MBLA, ucast (drop_bit 16 x AND 0xFF), ucast (drop_bit 8 x AND 0xFF), ucast (x AND 0xFF)]"

text \<open>The packing loop: \<open>available\<close> was read once before it; silence when it runs out.\<close>

fun avtp_pack :: "nat \<Rightarrow> u32 \<Rightarrow> audio_ring \<Rightarrow> u8 list \<times> audio_ring" where
  "avtp_pack 0 available r = ([], r)"
| "avtp_pack (Suc n) available r =
     (let ((left, right), r1, available1) =
            (if available > 0 then let (lr, r') = audio_ring_read r in (lr, r', available - 1)
             else ((0, 0), r, available));
          (bs, r2) = avtp_pack n available1 r1
      in (am824_quadlet left @ am824_quadlet right @ bs, r2))"

definition avtp_pres_ts :: "ptp_timestamp \<Rightarrow> u32" where
  "avtp_pres_ts now =
     (let ts = nanoseconds now + AVTP_PRESENTATION_OFFSET_NS
      in if ts \<ge> 1000000000 then ts - 1000000000 else ts)"

text \<open>
  \<open>ring\<close> is the address in \<open>s->tx_ring\<close>, which the only caller has found to be non-NULL.
\<close>

definition avtp_send_packet :: "nat \<Rightarrow> avtp_stream \<times> rings \<times> hw \<Rightarrow> avtp_stream \<times> rings \<times> hw" where
  "avtp_send_packet ring = (\<lambda>(s, rs, h).
     let frame = mputs (tx_buf TxAvtp h) (build_avtp_header s);
         (now, h1) = gptp_read_time h;
         frame1 = mputs frame [(18 + 12, put_be32 (avtp_pres_ts now)), (18 + 2, [t_tx_seq_num s]),
                               (18 + 24 + 3, [t_tx_dbc s])];
         (audio, r) = avtp_pack AVTP_SAMPLES_PER_PACKET (audio_ring_count (rs ring)) (rs ring);
         frame2 = mput frame1 50 audio
     in (s\<lparr>t_tx_seq_num := t_tx_seq_num s + 1, t_tx_dbc := t_tx_dbc s + of_nat AVTP_SAMPLES_PER_PACKET,
           t_tx_packet_count := t_tx_packet_count s + 1\<rparr>,
         rs(ring := r),
         send_frame TxAvtp frame2 (of_nat AVTP_FRAME_LEN) h1))"

text \<open>
  The pacing: microseconds within 4096 seconds, an age in the future or beyond 2000 seconds
  counting as one interval (the wrap guard).
\<close>

definition avtp_now_us :: "ptp_timestamp \<Rightarrow> u32" where
  "avtp_now_us now = ucast (nanoseconds now div 1000) + ucast (seconds now AND 0xFFF) * 1000000"

definition avtp_poll :: "avtp_stream \<times> rings \<times> hw \<Rightarrow> avtp_stream \<times> rings \<times> hw" where
  "avtp_poll = (\<lambda>(s, rs, h).
     if t_tx_enabled s = 0 then (s, rs, h)
     else case t_tx_ring s of None \<Rightarrow> (s, rs, h)
     | Some ring \<Rightarrow>
       let (now, h1) = gptp_read_time h;
           now_us = avtp_now_us now;
           elapsed = guarded_age now_us (t_tx_last_time_us s) AVTP_TX_INTERVAL_US
       in if elapsed \<ge> AVTP_TX_INTERVAL_US then
            let (s1, rs1, h2) = (if audio_ring_count (rs ring) \<ge> of_nat AVTP_SAMPLES_PER_PACKET
                                 then avtp_send_packet ring (s, rs, h1) else (s, rs, h1))
            in (s1\<lparr>t_tx_last_time_us := now_us\<rparr>, rs1, h2)
          else (s, rs, h1))"

section \<open>Listener\<close>

definition sign24 :: "u32 \<Rightarrow> u32" where
  "sign24 x = (if x AND 0x800000 \<noteq> 0 then x OR 0xFF000000 else x)"

definition am824_sample :: "mem \<Rightarrow> nat \<Rightarrow> u32" where
  "am824_sample m o' =
     (if m o' = AM824_LABEL_MBLA
      then sign24 (push_bit 16 (ucast (m (o' + 1))) OR push_bit 8 (ucast (m (o' + 2))) OR ucast (m (o' + 3)))
      else 0)"

fun avtp_unpack :: "nat \<Rightarrow> u8 \<Rightarrow> mem \<Rightarrow> nat \<Rightarrow> audio_ring \<Rightarrow> audio_ring" where
  "avtp_unpack 0 dbs m audio r = r"
| "avtp_unpack (Suc n) dbs m audio r =
     (let left = am824_sample m audio;
          (right, audio') = (if dbs \<ge> 2 then (am824_sample m (audio + 4), audio + 8 + (unat dbs - 2) * 4)
                             else (0, audio + 4))
      in avtp_unpack n dbs m audio'
           (if audio_ring_space r > 0 then audio_ring_write (left, right) r else r))"

definition avtp_num_blocks :: "u16 \<Rightarrow> u8 \<Rightarrow> u32" where
  "avtp_num_blocks stream_data_len dbs =
     (let audio_len = ucast stream_data_len - of_nat AVTP_CIP_HDR_LEN :: u32
      in audio_len div (ucast dbs * of_nat AVTP_AM824_QUADLET_LEN))"

definition avtp_process_rx :: "mem \<Rightarrow> u32 \<Rightarrow> avtp_stream \<times> rings \<Rightarrow> avtp_stream \<times> rings" where
  "avtp_process_rx frame len = (\<lambda>(s, rs).
     if t_rx_enabled s = 0 then (s, rs)
     else if len < of_nat AVTP_FRAME_LEN then (s, rs)
     else if get_be16 frame 12 \<noteq> AVTP_ETHERTYPE then (s, rs)
     else
       let pdu = (\<lambda>i. frame (14 + i))
       in if pdu 0 AND 0xFF \<noteq> AVTP_SUBTYPE_61883_IIDC then (s, rs)
          else if bytes pdu 4 8 \<noteq> t_rx_stream_id s then (s, rs)
          else
            let seq_num = pdu 2;
                avtp_timestamp = get_be32 pdu 12;
                stream_data_len = get_be16 pdu 20;
                s1 = (if t_rx_packet_count s > 0 \<and> seq_num \<noteq> t_rx_seq_num s + 1
                      then s\<lparr>t_rx_seq_errors := t_rx_seq_errors s + 1\<rparr> else s);
                s2 = s1\<lparr>t_rx_seq_num := seq_num, t_rx_last_avtp_ts := avtp_timestamp\<rparr>;
                dbs0 = pdu (AVTP_STREAM_HDR_LEN + 1);
                dbs = (if dbs0 = 0 then AVTP_CHANNELS else dbs0);
                num_blocks = avtp_num_blocks stream_data_len dbs;
                rs' = (case t_rx_ring s of None \<Rightarrow> rs
                       | Some ring \<Rightarrow> rs(ring := avtp_unpack (unat num_blocks) dbs pdu
                                           (AVTP_STREAM_HDR_LEN + AVTP_CIP_HDR_LEN) (rs ring)))
            in (s2\<lparr>t_rx_packet_count := t_rx_packet_count s2 + 1\<rparr>, rs'))"

section \<open>Set-up\<close>

definition avtp_init :: "u8 list \<Rightarrow> nat option \<Rightarrow> nat option \<Rightarrow> hw \<Rightarrow> avtp_stream \<times> hw" where
  "avtp_init mac_addr tx_ring rx_ring h =
     (\<lparr>t_stream_id = mac_addr @ [0x00, 0x01], t_dst_mac = AVTP_MCAST_ADDR, t_src_mac = mac_addr,
       t_tx_enabled = 0, t_tx_seq_num = 0, t_tx_dbc = 0, t_tx_last_time_us = 0, t_tx_packet_count = 0,
       t_rx_enabled = 0, t_rx_stream_id = zeros 8, t_rx_seq_num = 0, t_rx_packet_count = 0,
       t_rx_seq_errors = 0, t_rx_last_avtp_ts = 0, t_tx_ring = tx_ring, t_rx_ring = rx_ring\<rparr>,
      h\<lparr>hw_txslot := (hw_txslot h)(TxAvtp := 0)\<rparr>)"

definition avtp_set_stream_id :: "avtp_stream \<Rightarrow> u16 \<Rightarrow> avtp_stream" where
  "avtp_set_stream_id s unique_id = s\<lparr>t_stream_id := t_src_mac s @ put_be16 unique_id\<rparr>"

definition avtp_set_listen_stream_id :: "avtp_stream \<Rightarrow> u8 list \<Rightarrow> avtp_stream" where
  "avtp_set_listen_stream_id s stream_id = s\<lparr>t_rx_stream_id := stream_id\<rparr>"

definition avtp_tx_enable :: "avtp_stream \<Rightarrow> u8 \<Rightarrow> avtp_stream" where
  "avtp_tx_enable s enable =
     (let s1 = s\<lparr>t_tx_enabled := enable\<rparr>
      in if enable \<noteq> 0 then s1\<lparr>t_tx_seq_num := 0, t_tx_dbc := 0, t_tx_packet_count := 0\<rparr> else s1)"

definition avtp_rx_enable :: "avtp_stream \<Rightarrow> u8 \<Rightarrow> avtp_stream" where
  "avtp_rx_enable s enable =
     (let s1 = s\<lparr>t_rx_enabled := enable\<rparr>
      in if enable \<noteq> 0 then s1\<lparr>t_rx_packet_count := 0, t_rx_seq_errors := 0\<rparr> else s1)"


section \<open>The ring is a bounded FIFO\<close>

definition ring_pairs :: "audio_ring \<Rightarrow> (u32 \<times> u32) list" where
  "ring_pairs r = map (\<lambda>s. (r_left r s, r_right r s)) (slots AUDIO_RING_MASK (r_read_idx r) (r_write_idx r))"

definition ring_get :: "audio_ring \<Rightarrow> ((u32 \<times> u32) \<times> audio_ring) option" where
  "ring_get r = (if ring_pairs r = [] then None else Some (audio_ring_read r))"

lemma audio_mask: "AUDIO_RING_MASK = mask 8"
  by (simp add: AUDIO_RING_MASK_def mask_eq_exp_minus_1)

lemma length_ring_pairs: "length (ring_pairs r) = unat (r_write_idx r - r_read_idx r)"
  by (simp add: ring_pairs_def)

lemma ring_pairs_empty: "ring_pairs r = [] \<longleftrightarrow> r_read_idx r = r_write_idx r"
  by (simp add: ring_pairs_def slots_empty)

lemma ring_pairs_write:
  assumes "length (ring_pairs r) < 256"
  shows "ring_pairs (audio_ring_write lr r) = ring_pairs r @ [lr]"
  using assms slots_fresh [of "r_write_idx r" "r_read_idx r" 8]
  by (auto simp: ring_pairs_def audio_ring_write_def Let_def slots_push audio_mask)

lemma ring_pairs_read:
  assumes "ring_pairs r = x # xs"
  shows "fst (audio_ring_read r) = x \<and> ring_pairs (snd (audio_ring_read r)) = xs"
proof -
  have "r_read_idx r \<noteq> r_write_idx r" using assms ring_pairs_empty [of r] by auto
  then show ?thesis using assms by (simp add: ring_pairs_def audio_ring_read_def Let_def slots_pop)
qed

interpretation audioq: bounded_queue ring_pairs 255 "\<lambda>_. True" audio_ring_write ring_get
proof unfold_locales
  fix s :: audio_ring and x xs
  assume "ring_pairs s = x # xs"
  then show "\<exists>s'. ring_get s = Some (x, s') \<and> ring_pairs s' = xs"
    using ring_pairs_read [of s x xs] by (cases "audio_ring_read s") (simp add: ring_get_def)
qed (simp_all add: ring_pairs_write ring_get_def)

text \<open>
  The code measures a ring by its indices modulo 256, so a ring in use never holds 256
  pairs; below that the two measures are the length of the queue and what is missing to 255.
\<close>

definition ring_wf :: "audio_ring \<Rightarrow> bool" where
  "ring_wf r \<longleftrightarrow> length (ring_pairs r) \<le> 255"

lemma ring_count: "ring_wf r \<Longrightarrow> audio_ring_count r = of_nat (length (ring_pairs r))"
proof -
  assume "ring_wf r"
  then have "unat (r_write_idx r - r_read_idx r) < 2 ^ 8"
    by (simp add: ring_wf_def length_ring_pairs)
  then have "take_bit 8 (unat (r_write_idx r - r_read_idx r)) = unat (r_write_idx r - r_read_idx r)"
    by (rule take_bit_nat_eq_self)
  then have "take_bit 8 (r_write_idx r - r_read_idx r) = r_write_idx r - r_read_idx r"
    by (metis unsigned_take_bit_eq word_unat_eq_iff)
  then show ?thesis
    by (simp add: audio_ring_count_def audio_mask take_bit_eq_mask length_ring_pairs)
qed

lemma ring_space:
  assumes "ring_wf r"
  shows "audio_ring_space r = of_nat (255 - length (ring_pairs r))"
    and "audio_ring_space r > 0 \<longleftrightarrow> length (ring_pairs r) < 255"
    and "audio_ring_space r = 0 \<longleftrightarrow> length (ring_pairs r) = 255"
proof -
  have l: "length (ring_pairs r) \<le> 255" using assms by (simp add: ring_wf_def)
  show e: "audio_ring_space r = of_nat (255 - length (ring_pairs r))"
    using l by (simp add: audio_ring_space_def ring_count [OF assms] AUDIO_RING_MASK_def of_nat_diff)
  have u: "unat (audio_ring_space r) = 255 - length (ring_pairs r)"
    unfolding e by (rule unat_small) simp
  show "audio_ring_space r > 0 \<longleftrightarrow> length (ring_pairs r) < 255"
    unfolding word_less_nat_alt u using l by auto
  show "audio_ring_space r = 0 \<longleftrightarrow> length (ring_pairs r) = 255"
    unfolding unat_eq_zero [symmetric] u using l by auto
qed

lemma ring_count_0: "ring_wf r \<Longrightarrow> audio_ring_count r = 0 \<longleftrightarrow> ring_pairs r = []"
  unfolding unat_eq_zero [symmetric] by (simp add: ring_count unat_small ring_wf_def)

lemma ring_wf_read: "ring_wf r \<Longrightarrow> ring_pairs r \<noteq> [] \<Longrightarrow> ring_wf (snd (audio_ring_read r))"
  using ring_pairs_read [of r "hd (ring_pairs r)" "tl (ring_pairs r)"] by (simp add: ring_wf_def)

text \<open>Writing unless the ring is full: what does not fit is dropped.\<close>

definition ring_offer :: "u32 \<times> u32 \<Rightarrow> audio_ring \<Rightarrow> audio_ring" where
  "ring_offer lr r = (if audio_ring_space r > 0 then audio_ring_write lr r else r)"

lemma ring_offer:
  assumes "ring_wf r"
  shows "ring_pairs (ring_offer lr r) = take 255 (ring_pairs r @ [lr])" and "ring_wf (ring_offer lr r)"
  using assms by (auto simp: ring_offer_def ring_space(2) ring_pairs_write ring_wf_def)

lemma ring_offers:
  assumes "ring_wf r"
  shows "ring_pairs (fold ring_offer xs r) = take 255 (ring_pairs r @ xs) \<and> ring_wf (fold ring_offer xs r)"
  using assms
proof (induction xs arbitrary: r)
  case Nil
  then show ?case by (simp add: ring_wf_def)
next
  case (Cons x xs)
  have "take 255 (take 255 (ring_pairs r @ [x]) @ xs) = take 255 (ring_pairs r @ x # xs)"
    by (cases "length (ring_pairs r) < 255") (use Cons.prems in \<open>auto simp: ring_wf_def take_Cons'\<close>)
  then show ?case using Cons.IH [OF ring_offer(2) [OF Cons.prems, of x]] ring_offer(1) [OF Cons.prems, of x] by simp
qed

section \<open>Packing and unpacking\<close>

definition pair_bytes :: "u32 \<times> u32 \<Rightarrow> u8 list" where
  "pair_bytes lr = am824_quadlet (fst lr) @ am824_quadlet (snd lr)"

lemma length_pair_bytes [simp]: "length (pair_bytes lr) = 8"
  by (simp add: pair_bytes_def am824_quadlet_def)

text \<open>The pairs a packet carries: the oldest \<open>n\<close>, silence where the ring ran dry.\<close>

definition packet_pairs :: "nat \<Rightarrow> audio_ring \<Rightarrow> (u32 \<times> u32) list" where
  "packet_pairs n r = take n (ring_pairs r) @ replicate (n - length (ring_pairs r)) (0, 0)"

lemma length_packet_pairs [simp]: "length (packet_pairs n r) = n"
  by (simp add: packet_pairs_def)

lemma avtp_pack_pairs:
  assumes "ring_wf r" and "available = audio_ring_count r"
  shows "fst (avtp_pack n available r) = concat (map pair_bytes (packet_pairs n r))
    \<and> ring_pairs (snd (avtp_pack n available r)) = drop n (ring_pairs r)"
  using assms
proof (induction n arbitrary: available r)
  case 0
  then show ?case by (simp add: packet_pairs_def)
next
  case (Suc n)
  show ?case
  proof (cases "ring_pairs r")
    case Nil
    then have a: "available = 0" using Suc.prems by (simp add: ring_count)
    show ?thesis
      using Suc.IH [OF Suc.prems(1), of 0] Suc.prems Nil a
      by (simp add: Let_def packet_pairs_def pair_bytes_def split_beta)
  next
    case (Cons x xs)
    obtain y r' where rd: "audio_ring_read r = (y, r')" by fastforce
    then have y: "y = x" and q: "ring_pairs r' = xs" using ring_pairs_read [OF Cons] by auto
    have wf: "ring_wf r'" using Suc.prems(1) Cons q by (simp add: ring_wf_def)
    have a: "available - 1 = audio_ring_count r'"
      using Suc.prems Cons q by (simp add: ring_count wf)
    have "available > 0"
    proof -
      have "unat available = length (ring_pairs r)"
        using Suc.prems unfolding Suc.prems(2) ring_count [OF Suc.prems(1)]
        by (intro unat_small) (simp add: ring_wf_def)
      then show ?thesis using Cons by (metis length_greater_0_conv list.distinct(1) unat_gt_0 word_neq_0_conv)
    qed
    then show ?thesis
      using Suc.IH [OF wf a] rd y q Cons
      by (cases x) (simp add: Let_def packet_pairs_def pair_bytes_def split_beta)
  qed
qed

definition block_pair :: "u8 \<Rightarrow> mem \<Rightarrow> nat \<Rightarrow> u32 \<times> u32" where
  "block_pair dbs m o' = (am824_sample m o', if dbs \<ge> 2 then am824_sample m (o' + 4) else 0)"

lemma avtp_unpack_fold:
  assumes "dbs \<noteq> 0"
  shows "avtp_unpack n dbs m audio r = fold ring_offer (map (\<lambda>k. block_pair dbs m (audio + 4 * unat dbs * k)) [0..<n]) r"
proof (induction n arbitrary: audio r)
  case 0
  then show ?case by simp
next
  case (Suc n)
  have next_block: "(if dbs \<ge> 2 then audio + 8 + (unat dbs - 2) * 4 else audio + 4) = audio + 4 * unat dbs"
  proof (cases "dbs \<ge> 2")
    case True
    then have "2 \<le> unat dbs" by (simp add: word_le_nat_alt)
    then show ?thesis using True by simp
  next
    case False
    then have "unat dbs < 2" by (simp add: word_le_nat_alt)
    moreover have "unat dbs \<noteq> 0" using assms by (simp add: unat_eq_zero)
    ultimately show ?thesis using False by simp
  qed
  have "avtp_unpack (Suc n) dbs m audio r
      = avtp_unpack n dbs m (if dbs \<ge> 2 then audio + 8 + (unat dbs - 2) * 4 else audio + 4)
          (ring_offer (block_pair dbs m audio) r)"
    by (simp add: Let_def block_pair_def ring_offer_def)
  also have "\<dots> = avtp_unpack n dbs m (audio + 4 * unat dbs) (ring_offer (block_pair dbs m audio) r)"
    unfolding next_block ..
  also have "\<dots> = fold ring_offer (map (\<lambda>k. block_pair dbs m (audio + 4 * unat dbs * Suc k)) [0..<n])
        (ring_offer (block_pair dbs m audio) r)"
    unfolding Suc.IH by (simp add: add.assoc algebra_simps)
  finally show ?case
    by (simp add: map_Suc_upt [symmetric] comp_def upt_conv_Cons del: upt_Suc)
qed


section \<open>Samples of 24 bits\<close>

definition s24 :: "u32 \<Rightarrow> u32" where
  "s24 x = sign24 (x AND 0xFFFFFF)"

lemma mask24: "(0xFFFFFF :: u32) = mask 24"
  by (simp add: mask_eq_exp_minus_1)

lemma be24_join:
  "push_bit 16 (ucast (ucast (drop_bit 16 x) :: u8)) OR push_bit 8 (ucast (ucast (drop_bit 8 x) :: u8))
    OR ucast (ucast x :: u8) = (x :: u32) AND 0xFFFFFF" (is "?l = _")
proof (rule bit_word_eqI)
  fix n assume "n < LENGTH(32)"
  then consider "n < 8" | "8 \<le> n" "n < 16" | "16 \<le> n" "n < 24" | "24 \<le> n" "n < 32" by fastforce
  then show "bit ?l n = bit (x AND 0xFFFFFF) n"
    unfolding mask24 by cases (auto simp: bit_simps)
qed

lemma s24_low: "s24 x AND 0xFFFFFF = x AND 0xFFFFFF"
proof (rule bit_word_eqI)
  have hi: "(0xFF000000 :: u32) = NOT (mask 24)" by (simp add: mask_eq_exp_minus_1)
  fix n assume "n < LENGTH(32)"
  then show "bit (s24 x AND 0xFFFFFF) n = bit (x AND 0xFFFFFF) n"
    unfolding s24_def sign24_def hi mask24 by (auto simp: bit_simps)
qed

lemma s24_s24 [simp]: "s24 (s24 x) = s24 x"
  unfolding s24_def [of "s24 x"] s24_low unfolding s24_def ..

lemma am824_quadlet_read:
  assumes "stored m p (am824_quadlet x)"
  shows "am824_sample m p = s24 x"
proof -
  have "m (p + 3) = ucast x" "m (p + 2) = ucast (drop_bit 8 x)" "m (p + 1) = ucast (drop_bit 16 x)" "m p = AM824_LABEL_MBLA"
    using assms by (simp_all add: am824_quadlet_def numeral_3_eq_3)
  then show ?thesis by (simp add: am824_sample_def s24_def be24_join [symmetric] del: One_nat_def)
qed

definition s24_pair :: "u32 \<times> u32 \<Rightarrow> u32 \<times> u32" where
  "s24_pair lr = (s24 (fst lr), s24 (snd lr))"

lemma pair_bytes_read:
  assumes "stored m p (pair_bytes lr)"
  shows "block_pair 2 m p = s24_pair lr"
proof -
  have "length (am824_quadlet (fst lr)) = 4" by (simp add: am824_quadlet_def)
  then have "stored m p (am824_quadlet (fst lr))" "stored m (p + 4) (am824_quadlet (snd lr))"
    using assms unfolding pair_bytes_def stored_append by simp_all
  then show ?thesis by (simp add: block_pair_def s24_pair_def am824_quadlet_read)
qed

section \<open>The packet\<close>

definition avtp_ids_ok :: "avtp_stream \<Rightarrow> bool" where
  "avtp_ids_ok s \<longleftrightarrow> length (t_dst_mac s) = 6 \<and> length (t_src_mac s) = 6 \<and> length (t_stream_id s) = 8"

definition avtp_image :: "avtp_stream \<Rightarrow> u32 \<Rightarrow> (u32 \<times> u32) list \<Rightarrow> u8 list" where
  "avtp_image s ts ps =
     t_dst_mac s @ t_src_mac s @ [0x81, 0x00, 0x60, 0x02, 0x22, 0xF0]
     @ [0x00, 0x81, t_tx_seq_num s, 0x00] @ t_stream_id s @ put_be32 ts @ [0, 0, 0, 0] @ [0x00, 0x38, 0x5F, 0xA0]
     @ [0x3F, 0x02, 0x00, t_tx_dbc s, 0x90, 0x02, 0xFF, 0xFF]
     @ concat (map pair_bytes ps)"

lemma length_pairs_bytes: "length (concat (map pair_bytes ps)) = 8 * length ps"
  using length_concat_blocks [of "map pair_bytes ps" 8] by simp

lemma cip1_bytes: "put_be32 (cip1 s) = [0x3F, 0x02, 0x00, t_tx_dbc s]"
proof -
  have "t_tx_dbc s AND 0xFF = t_tx_dbc s"
    by (rule bit_word_eqI) (auto simp: bit_and_iff bit_FF simp del: bit_numeral_word_iff)
  then have cip: "cip1 s = 0x3F020000 OR ucast (t_tx_dbc s)"
    by (simp add: cip1_def AVTP_CHANNELS_def or.assoc [symmetric])
  moreover have hi: "drop_bit k (ucast (t_tx_dbc s) :: u32) = 0" if "k \<ge> 8" for k
    using that by (intro bit_word_eqI) (auto simp: bit_simps dest: bit_imp_le_length)
  moreover have uo: "(ucast (x OR y) :: u8) = ucast x OR ucast y" for x y :: u32
    by (rule bit_word_eqI) (auto simp: bit_simps)
  moreover have z: "(ucast (0x3F020000 :: u32) :: u8) = 0" by simp
  ultimately have c: "(ucast (cip1 s) :: u8) = t_tx_dbc s"
    unfolding cip by (simp only: uo z) (auto simp: bit_simps intro!: bit_word_eqI)
  show ?thesis
    unfolding put_be32_def ucast_and_FF c using cip hi by (simp add: drop_bit_or)
qed

text \<open>The later stores overwrite the zero timestamp and rewrite two bytes with the same values.\<close>

definition avtp_fields :: "avtp_stream \<Rightarrow> u32 \<Rightarrow> u8 list \<Rightarrow> (nat \<times> u8 list) list" where
  "avtp_fields s ts audio = build_avtp_header s @
     [(30, put_be32 ts), (20, [t_tx_seq_num s]), (45, [t_tx_dbc s]), (50, audio)]"

lemma avtp_frame_bytes:
  assumes "avtp_ids_ok s" and "length ps = 6" and "audio = concat (map pair_bytes ps)"
  shows "bytes (mputs m (avtp_fields s ts audio)) 0 98 = avtp_image s ts ps"
proof (rule stored_bytes)
  have l: "length (t_dst_mac s) = 6" "length (t_src_mac s) = 6" "length (t_stream_id s) = 8" "length audio = 48"
    using assms by (simp_all add: avtp_ids_ok_def length_pairs_bytes)
  show "length (avtp_image s ts ps) = 98" using assms l by (simp add: avtp_image_def)
  let ?m = "mputs m (avtp_fields s ts audio)"
  have "stored ?m 0 (t_dst_mac s)" "stored ?m 6 (t_src_mac s)" "stored ?m 22 (t_stream_id s)"
    "stored ?m 30 (put_be32 ts)" "stored ?m 50 audio"
    using l by (simp_all add: stored_def avtp_fields_def build_avtp_header_def wire)
  moreover have "stored ?m 12 [0x81, 0x00, 0x60, 0x02, 0x22, 0xF0]"
    using l by (simp add: avtp_fields_def build_avtp_header_def wire put_be16_def AVTP_ETHERTYPE_def)
  moreover have "stored ?m 18 [0x00, 0x81, t_tx_seq_num s, 0x00]"
    using l by (simp add: avtp_fields_def build_avtp_header_def wire AVTP_SUBTYPE_61883_IIDC_def)
  moreover have "stored ?m 34 [0, 0, 0, 0]" "stored ?m 38 [0x00, 0x38, 0x5F, 0xA0]"
    using l by (simp_all add: avtp_fields_def build_avtp_header_def wire put_be16_def put_be32_def avtp_lengths)
  moreover have "stored ?m 42 [0x3F, 0x02, 0x00, t_tx_dbc s, 0x90, 0x02, 0xFF, 0xFF]"
    using l by (simp add: avtp_fields_def build_avtp_header_def wire cip1_bytes)
      (simp add: put_be32_def cip2_def CIP_FMT_61883_6_def CIP_SFC_48K_def)
  ultimately show "stored ?m 0 (avtp_image s ts ps)"
    using l by (simp add: avtp_image_def assms(3) numeral_eq_Suc)
qed


lemma avtp_send_packet_eq:
  assumes "avtp_ids_ok s" and "ring_wf (rs ring)"
  shows "\<exists>h' r'. avtp_send_packet ring (s, rs, h)
      = (s\<lparr>t_tx_seq_num := t_tx_seq_num s + 1, t_tx_dbc := t_tx_dbc s + 6,
           t_tx_packet_count := t_tx_packet_count s + 1\<rparr>, rs(ring := r'), h')
    \<and> hw_sent h' = hw_sent h @ [avtp_image s (avtp_pres_ts (peek_time h)) (packet_pairs 6 (rs ring))]
    \<and> ring_pairs r' = drop 6 (ring_pairs (rs ring))"
proof -
  obtain audio r' where p: "avtp_pack 6 (audio_ring_count (rs ring)) (rs ring) = (audio, r')" by fastforce
  have a: "audio = concat (map pair_bytes (packet_pairs 6 (rs ring)))" "ring_pairs r' = drop 6 (ring_pairs (rs ring))"
    using avtp_pack_pairs [OF assms(2) refl, of 6] p by simp_all
  have "mput (mputs (mputs m (build_avtp_header s)) [(30, put_be32 ts), (20, [t_tx_seq_num s]), (45, [t_tx_dbc s])]) 50 audio
      = mputs m (avtp_fields s ts audio)" for m ts
    by (simp add: avtp_fields_def mputs_append)
  then show ?thesis
    using avtp_frame_bytes [OF assms(1) length_packet_pairs a(1)] p a(2)
    by (simp add: avtp_send_packet_def gptp_read_time_eq avtp_lengths) (rule exI [of _ r'], simp)
qed

section \<open>Reception of an accepted frame\<close>

text \<open>What \<open>avtp_process_rx\<close> asks of a frame, and what it then does.\<close>

definition avtp_accepts :: "avtp_stream \<Rightarrow> mem \<Rightarrow> u32 \<Rightarrow> bool" where
  "avtp_accepts s frame len \<longleftrightarrow> t_rx_enabled s \<noteq> 0 \<and> 98 \<le> len \<and> get_be16 frame 12 = AVTP_ETHERTYPE
     \<and> frame 14 = AVTP_SUBTYPE_61883_IIDC \<and> bytes frame 18 8 = t_rx_stream_id s"

lemma u8_and_FF: "(x :: u8) AND 0xFF = x"
  by (rule bit_word_eqI) (auto simp: bit_and_iff bit_FF simp del: bit_numeral_word_iff)

lemma pdu_bytes: "bytes (\<lambda>i. frame (14 + i)) o' n = bytes frame (14 + o') n"
  by (simp add: bytes_def add.assoc)

lemma avtp_process_rx_rejected: "\<not> avtp_accepts s frame len \<Longrightarrow> avtp_process_rx frame len (s, rs) = (s, rs)"
  by (auto simp: avtp_process_rx_def avtp_accepts_def avtp_lengths u8_and_FF not_le pdu_bytes Let_def)

lemma avtp_process_rx_accepted:
  assumes acc: "avtp_accepts s frame len" and ring: "t_rx_ring s = Some ring"
    and n: "get_be16 frame 34 = of_nat (8 + 8 * n)" "8 + 8 * n < 2 ^ 16" and dbs: "frame 39 = 2"
  shows "snd (avtp_process_rx frame len (s, rs))
      = rs(ring := fold ring_offer (map (\<lambda>k. block_pair 2 frame (46 + 8 * k)) [0..<n]) (rs ring))"
    and "t_rx_packet_count (fst (avtp_process_rx frame len (s, rs))) = t_rx_packet_count s + 1"
proof -
  have small: "unat (of_nat N :: u16) = N \<and> unat (of_nat N :: u32) = N" if "N < 2 ^ 16" for N
    using that by (simp add: unsigned_of_nat take_bit_nat_eq_self)
  from small [OF n(2)] have w: "ucast (of_nat (8 + 8 * n) :: u16) = (of_nat (8 + 8 * n) :: u32)"
    by (simp only: word_unat_eq_iff unat_ucast_16_32)
  have "unat (of_nat (8 * n) div 8 :: u32) = n"
    using n(2) small [of "8 * n"] by (simp add: unat_div del: of_nat_mult)
  then have nb: "unat (avtp_num_blocks (of_nat (8 + 8 * n)) 2) = n"
    unfolding avtp_num_blocks_def Let_def w by (simp add: avtp_lengths)
  have g: "get_be16 (\<lambda>i. frame (14 + i)) 20 = get_be16 frame 34" by (simp add: get_be16_def)
  have bp: "block_pair 2 (\<lambda>i. frame (14 + i)) (32 + 8 * k) = block_pair 2 frame (46 + 8 * k)" for k
    by (simp add: block_pair_def am824_sample_def add.assoc)
  have len: "\<not> len < 98" using acc by (simp add: avtp_accepts_def not_less)
  note rx = avtp_process_rx_def avtp_lengths u8_and_FF pdu_bytes Let_def avtp_unpack_fold
  show "snd (avtp_process_rx frame len (s, rs))
      = rs(ring := fold ring_offer (map (\<lambda>k. block_pair 2 frame (46 + 8 * k)) [0..<n]) (rs ring))"
    using acc ring dbs n nb g len by (simp add: rx bp avtp_accepts_def)
  show "t_rx_packet_count (fst (avtp_process_rx frame len (s, rs))) = t_rx_packet_count s + 1"
    using acc ring dbs n nb g len by (simp add: rx avtp_accepts_def)
qed


section \<open>Talker and listener together\<close>

text \<open>The frame as a receiver sees it that strips the four bytes of the VLAN tag.\<close>

definition tag_removed :: "u8 list \<Rightarrow> u8 list" where
  "tag_removed fr = take 12 fr @ drop 16 fr"

lemma length_avtp_image: "avtp_ids_ok s \<Longrightarrow> length (avtp_image s ts ps) = 50 + 8 * length ps"
  by (simp add: avtp_image_def avtp_ids_ok_def length_pairs_bytes)

lemma tag_removed_image:
  assumes "avtp_ids_ok s"
  shows "tag_removed (avtp_image s ts ps) = t_dst_mac s @ t_src_mac s @ put_be16 AVTP_ETHERTYPE
     @ [0x00] @ [0x81, t_tx_seq_num s, 0x00] @ t_stream_id s @ put_be32 ts @ [0, 0, 0, 0] @ put_be16 0x38 @ [0x5F, 0xA0, 0x3F]
     @ [0x02] @ [0x00, t_tx_dbc s, 0x90, 0x02, 0xFF, 0xFF] @ concat (map pair_bytes ps)"
  using assms by (simp add: tag_removed_def avtp_image_def avtp_ids_ok_def put_be16_def AVTP_ETHERTYPE_def)

lemma length_tag_removed: "avtp_ids_ok s \<Longrightarrow> length (tag_removed (avtp_image s ts ps)) = 46 + 8 * length ps"
  by (simp add: tag_removed_def length_avtp_image)

lemma avtp_short_rejected: "avtp_process_rx m 94 (l, q) = (l, q)"
  by (intro avtp_process_rx_rejected) (simp add: avtp_accepts_def)

lemma avtp_image_rejected:
  assumes ok: "avtp_ids_ok s"
  shows "avtp_process_rx (mem_of (avtp_image s ts ps)) len (l, q) = (l, q)"
proof -
  have "stored (mem_of (avtp_image s ts ps)) 12 (put_be16 0x8100)"
    using stored_mem_of [of "avtp_image s ts ps"] ok
    by (simp add: avtp_image_def avtp_ids_ok_def put_be16_def)
  then have "get_be16 (mem_of (avtp_image s ts ps)) 12 = 0x8100" by (rule stored_be16)
  then show ?thesis
    by (intro avtp_process_rx_rejected) (simp add: avtp_accepts_def AVTP_ETHERTYPE_def)
qed

lemma avtp_image_received:
  assumes ok: "avtp_ids_ok s" and ps: "length ps = 6"
    and m: "stored m 0 (tag_removed (avtp_image s ts ps))" and len: "98 \<le> len"
    and l: "t_rx_enabled l \<noteq> 0" "t_rx_stream_id l = t_stream_id s" "t_rx_ring l = Some ring"
  shows "snd (avtp_process_rx m len (l, q)) = q(ring := fold ring_offer (map s24_pair ps) (q ring))"
proof -
  note ids = ok [unfolded avtp_ids_ok_def]
  have "stored m 12 (put_be16 AVTP_ETHERTYPE)" "stored m 14 [0]" "stored m 39 [2]" "stored m 34 (put_be16 0x38)"
    "stored m 18 (t_stream_id s)" and a: "stored m 46 (concat (map pair_bytes ps))"
    using m [unfolded tag_removed_image [OF ok]] ids by (simp_all del: stored_Cons append_Cons)
  then have f: "get_be16 m 12 = AVTP_ETHERTYPE" "m 14 = 0" "m 39 = 2" "get_be16 m 34 = 0x38" "bytes m 18 8 = t_stream_id s"
    "bytes m 46 (length (concat (map pair_bytes ps))) = concat (map pair_bytes ps)"
    using ids by (simp_all add: stored_be16 stored_bytes)
  have "avtp_accepts l m len"
    using f l(1,2) len by (simp add: avtp_accepts_def AVTP_SUBTYPE_61883_IIDC_def)
  from avtp_process_rx_accepted(1) [OF this l(3), of 6 q]
  have "snd (avtp_process_rx m len (l, q)) = q(ring := fold ring_offer (map (\<lambda>k. block_pair 2 m (46 + 8 * k)) [0..<6]) (q ring))"
    using f by simp
  moreover have "map (\<lambda>k. block_pair 2 m (46 + 8 * k)) [0..<6] = map s24_pair ps"
  proof (rule nth_equalityI)
    show "length (map (\<lambda>k. block_pair 2 m (46 + 8 * k)) [0..<6]) = length (map s24_pair ps)" using ps by simp
    fix k assume "k < length (map (\<lambda>k. block_pair 2 m (46 + 8 * k)) [0..<6])"
    then have k: "k < 6" by simp
    then have "bytes m (46 + 8 * k) 8 = map pair_bytes ps ! k"
      using ps by (intro bytes_block [OF f(6)]) auto
    then have "stored m (46 + 8 * k) (pair_bytes (ps ! k))" using k ps by (simp add: stored_def)
    then show "map (\<lambda>k. block_pair 2 m (46 + 8 * k)) [0..<6] ! k = map s24_pair ps ! k"
      using k ps by (simp add: pair_bytes_read del: upt_Suc)
  qed
  ultimately show ?thesis by simp
qed

text \<open>The poll sends one packet, of six queued pairs, or nothing.\<close>

lemma avtp_poll_sends:
  assumes "avtp_ids_ok s" and "t_tx_ring s = Some ring" and "ring_wf (rs ring)"
    and "avtp_poll (s, rs, h) = (s', rs', h')"
  obtains "hw_sent h' = hw_sent h" and "rs' = rs"
  | r' where "6 \<le> length (ring_pairs (rs ring))" and "rs' = rs(ring := r')" and "ring_pairs r' = drop 6 (ring_pairs (rs ring))"
    and "hw_sent h' = hw_sent h @ [avtp_image s (avtp_pres_ts (peek_time (tick_time h))) (take 6 (ring_pairs (rs ring)))]"
proof -
  have c: "audio_ring_count (rs ring) \<ge> 6 \<longleftrightarrow> 6 \<le> length (ring_pairs (rs ring))"
    using assms(3) unat_small [of "length (ring_pairs (rs ring))"]
    by (simp add: ring_count ring_wf_def word_le_nat_alt)
  obtain h1 r' where send: "avtp_send_packet ring (s, rs, tick_time h)
      = (s\<lparr>t_tx_seq_num := t_tx_seq_num s + 1, t_tx_dbc := t_tx_dbc s + 6,
           t_tx_packet_count := t_tx_packet_count s + 1\<rparr>, rs(ring := r'), h1)"
    "hw_sent h1 = hw_sent h @ [avtp_image s (avtp_pres_ts (peek_time (tick_time h))) (packet_pairs 6 (rs ring))]"
    "ring_pairs r' = drop 6 (ring_pairs (rs ring))"
    using avtp_send_packet_eq [of s rs ring "tick_time h"] assms(1,3) by auto
  show thesis
  proof (cases "6 \<le> length (ring_pairs (rs ring)) \<and> hw_sent h' \<noteq> hw_sent h")
    case True
    then show thesis
      using assms(2,4) send c
      by (intro that(2)) (auto simp: avtp_poll_def gptp_read_time_eq Let_def avtp_lengths packet_pairs_def split: if_splits)
  next
    case False
    then show thesis
      using assms(2,4) send c
      by (intro that(1)) (auto simp: avtp_poll_def gptp_read_time_eq Let_def avtp_lengths split: if_splits)
  qed
qed


lemma avtp_poll_due:
  assumes "avtp_ids_ok s" and "t_tx_ring s = Some ring" and "ring_wf (rs ring)" and "t_tx_enabled s \<noteq> 0"
    and "guarded_age (avtp_now_us (peek_time h)) (t_tx_last_time_us s) 125 \<ge> 125" and "6 \<le> length (ring_pairs (rs ring))"
    and "avtp_poll (s, rs, h) = (s', rs', h')"
  shows "hw_sent h' = hw_sent h @ [avtp_image s (avtp_pres_ts (peek_time (tick_time h))) (take 6 (ring_pairs (rs ring)))]"
proof -
  have "audio_ring_count (rs ring) \<ge> 6"
    using assms(3,6) unat_small [of "length (ring_pairs (rs ring))"]
    by (simp add: ring_count ring_wf_def word_le_nat_alt)
  then show ?thesis
    using avtp_send_packet_eq [of s rs ring "tick_time h"] assms
    by (auto simp: avtp_poll_def gptp_read_time_eq Let_def avtp_lengths AVTP_TX_INTERVAL_US_def packet_pairs_def)
qed

definition demo_ring :: audio_ring where
  "demo_ring = fold audio_ring_write [(1, 2), (3, 4), (0xFFFFFFFF, 6), (7, 8), (9, 10), (11, 12), (13, 14)]
     \<lparr>r_left = (\<lambda>_. 0), r_right = (\<lambda>_. 0), r_write_idx = 0, r_read_idx = 0\<rparr>"

definition demo_avtp_mac :: "u8 list" where "demo_avtp_mac = [0x02, 0, 0, 0, 0, 1]"

definition demo_stream :: avtp_stream where
  "demo_stream = avtp_rx_enable (avtp_set_listen_stream_id
     (avtp_tx_enable (avtp_set_stream_id (fst (avtp_init demo_avtp_mac (Some 0) (Some 1) hw0)) 1) 1)
     (demo_avtp_mac @ [0, 1])) 1"

abbreviation demo_due :: hw where "demo_due \<equiv> tick_time hw0"

lemma demo_stream:
  "avtp_ids_ok demo_stream" "t_tx_ring demo_stream = Some 0" "t_tx_enabled demo_stream \<noteq> 0"
  "t_rx_ring demo_stream = Some 1" "t_rx_enabled demo_stream \<noteq> 0" "t_rx_stream_id demo_stream = t_stream_id demo_stream"
  "guarded_age (avtp_now_us (peek_time demo_due)) (t_tx_last_time_us demo_stream) 125 \<ge> 125"
  by (simp_all add: demo_stream_def avtp_init_def avtp_set_stream_id_def avtp_tx_enable_def avtp_rx_enable_def
      avtp_set_listen_stream_id_def avtp_ids_ok_def demo_avtp_mac_def AVTP_MCAST_ADDR_def put_be16_def
      guarded_age_def avtp_now_us_def hw0_def Let_def)

lemma demo_ring: "ring_wf demo_ring" "ring_pairs demo_ring = [(1, 2), (3, 4), (0xFFFFFFFF, 6), (7, 8), (9, 10), (11, 12), (13, 14)]"
proof -
  show p: "ring_pairs demo_ring = [(1, 2), (3, 4), (0xFFFFFFFF, 6), (7, 8), (9, 10), (11, 12), (13, 14)]"
    unfolding demo_ring_def by (subst audioq.queue_pushes) (simp_all add: ring_pairs_def slots_def)
  show "ring_wf demo_ring" by (simp add: ring_wf_def p)
qed

text \<open>
  The listener accepts no frame of the talker.  As sent the frame carries a VLAN tag,
  and the EtherType is looked for in front of it; with the tag stripped the frame is four
  bytes shorter than the length the listener asks for, which counts the tag.
\<close>

theorem avtp_listener_rejects_talker:
  assumes "avtp_ids_ok s" and "t_tx_ring s = Some ring" and "ring_wf (rs ring)"
    and "avtp_poll (s, rs, h) = (s', rs', h')" and "hw_sent h' \<noteq> hw_sent h"
  shows "length (last (hw_sent h')) = 98
    \<and> avtp_process_rx (mem_of (last (hw_sent h'))) 98 (l, q) = (l, q)
    \<and> length (tag_removed (last (hw_sent h'))) = 94
    \<and> avtp_process_rx (mem_of (tag_removed (last (hw_sent h')))) 94 (l, q) = (l, q)"
proof (rule avtp_poll_sends [OF assms(1-4)])
  show ?thesis if "hw_sent h' = hw_sent h" using that assms(5) by simp
  fix r' assume "6 \<le> length (ring_pairs (rs ring))"
    and "hw_sent h' = hw_sent h @ [avtp_image s (avtp_pres_ts (peek_time (tick_time h))) (take 6 (ring_pairs (rs ring)))]"
  then show ?thesis
    using assms(1) by (simp add: length_avtp_image length_tag_removed avtp_image_rejected avtp_short_rejected)
qed

definition demo_sent :: "u8 list list" where
  "demo_sent = hw_sent (snd (snd (avtp_poll (demo_stream, (\<lambda>_. demo_ring), demo_due))))"

lemma demo_sent: "demo_sent = [avtp_image demo_stream (avtp_pres_ts (peek_time (tick_time demo_due))) (take 6 (ring_pairs demo_ring))]"
  unfolding demo_sent_def
  using avtp_poll_due [OF demo_stream(1,2) _ demo_stream(3,7) _ prod_eq_iff [THEN iffD2], of "\<lambda>_. demo_ring"] demo_ring
  by (simp add: prod_eq_iff hw0_def)

theorem avtp_listener_rejects_talker_witness:
  "avtp_process_rx (mem_of (last demo_sent)) 98 (demo_stream, \<lambda>_. demo_ring) = (demo_stream, \<lambda>_. demo_ring)"
proof -
  obtain s rs h where p: "avtp_poll (demo_stream, (\<lambda>_. demo_ring), demo_due) = (s, rs, h)" by (metis prod_cases3)
  then have h: "hw_sent h = demo_sent" by (simp add: demo_sent_def)
  show ?thesis
    using avtp_listener_rejects_talker [of demo_stream 0 "\<lambda>_. demo_ring", OF demo_stream(1,2) demo_ring(1) p]
    by (simp add: h demo_sent hw0_def)
qed

end
