(* ===== verification/Aes3.thy ===== *)
theory Aes3
  imports Am824
begin

text \<open>
  The bridge between the AES3 receiver and transmitter and the audio rings of the earlier
  AM824 stream (firmware/_aes3_backup/aes3.c, aes3.h; no Makefile builds it).

  \<open>aes3_hw\<close> is the AES3 gateware seen through its CSRs.  What a read answers is not the
  firmware's business, so it is an arbitrary sequence: lock, receive level and transmit
  level for the \<open>k\<close>-th poll, and the pair latched by the \<open>k\<close>-th read of the left channel,
  which pops the receive FIFO.  \<open>x_out\<close> lists the pairs pushed into the transmit FIFO and
  \<open>x_cs\<close> the six words of channel status.

  The lemmas show what one poll moves: captured pairs, sign-extended, until the level is
  used up or the ring is full; queued pairs, cut to 24 bits, until the transmit FIFO or the
  ring is exhausted.  The last section follows the samples from one AES3 input through ring and
  packet to the listener, which does not take the packet.
\<close>

section \<open>State\<close>

record aes3_state =
  e_rx_locked :: u8
  e_rx_was_locked :: u8
  e_rx_sample_count :: u32
  e_rx_overrun_count :: u32
  e_tx_sample_count :: u32
  e_tx_underrun_count :: u32

record aes3_hw =
  x_polls :: nat
  x_locked :: "nat \<Rightarrow> u32"
  x_rx_level :: "nat \<Rightarrow> u32"
  x_tx_level :: "nat \<Rightarrow> u32"
  x_audio :: "nat \<Rightarrow> u32 \<times> u32"
  x_pops :: nat
  x_out :: "(u32 \<times> u32) list"
  x_cs :: "u32 list"

section \<open>Operations\<close>

definition aes3_set_default_channel_status :: "aes3_hw \<Rightarrow> aes3_hw" where
  "aes3_set_default_channel_status x =
     (let cs0 = 0x01 OR push_bit 8 0x00 OR push_bit 16 0x00 OR push_bit 24 0x04;
          cs1 = 0x0A
      in x\<lparr>x_cs := [cs0, cs1, 0, 0, 0, 0]\<rparr>)"

definition aes3_init :: "aes3_hw \<Rightarrow> aes3_state \<times> aes3_hw" where
  "aes3_init x =
     (\<lparr>e_rx_locked = 0, e_rx_was_locked = 0, e_rx_sample_count = 0, e_rx_overrun_count = 0,
       e_tx_sample_count = 0, e_tx_underrun_count = 0\<rparr>, aes3_set_default_channel_status x)"

text \<open>The capture loop over the level read once, stopped by a full ring.\<close>

fun aes3_capture :: "nat \<Rightarrow> aes3_state \<times> audio_ring \<times> aes3_hw \<Rightarrow> aes3_state \<times> audio_ring \<times> aes3_hw" where
  "aes3_capture 0 w = w"
| "aes3_capture (Suc rx_level) (s, r, x) =
     (if audio_ring_space r = 0 then (s\<lparr>e_rx_overrun_count := e_rx_overrun_count s + 1\<rparr>, r, x)
      else
        let (left, right) = x_audio x (x_pops x)
        in aes3_capture rx_level
             (s\<lparr>e_rx_sample_count := e_rx_sample_count s + 1\<rparr>,
              audio_ring_write (sign24 left, sign24 right) r, x\<lparr>x_pops := x_pops x + 1\<rparr>))"

text \<open>The playback loop over the free space computed once.\<close>

fun aes3_play :: "nat \<Rightarrow> aes3_state \<times> audio_ring \<times> aes3_hw \<Rightarrow> aes3_state \<times> audio_ring \<times> aes3_hw" where
  "aes3_play 0 w = w"
| "aes3_play (Suc tx_space) (s, r, x) =
     (if audio_ring_count r = 0 then (s, r, x)
      else
        let ((left, right), r1) = audio_ring_read r
        in aes3_play tx_space
             (s\<lparr>e_tx_sample_count := e_tx_sample_count s + 1\<rparr>, r1,
              x\<lparr>x_out := x_out x @ [(left AND 0x00FFFFFF, right AND 0x00FFFFFF)]\<rparr>))"

definition on_ring :: "nat \<Rightarrow> (aes3_state \<times> audio_ring \<times> aes3_hw \<Rightarrow> aes3_state \<times> audio_ring \<times> aes3_hw)
    \<Rightarrow> aes3_state \<times> rings \<times> aes3_hw \<Rightarrow> aes3_state \<times> rings \<times> aes3_hw" where
  "on_ring p f = (\<lambda>(s, rs, x). let (s', r', x') = f (s, rs p, x) in (s', rs(p := r'), x'))"

definition aes3_poll :: "nat option \<Rightarrow> nat option \<Rightarrow> aes3_state \<times> rings \<times> aes3_hw \<Rightarrow> aes3_state \<times> rings \<times> aes3_hw" where
  "aes3_poll rx_ring tx_ring = (\<lambda>(s, rs, x).
     let k = x_polls x;
         locked = ucast (x_locked x k);
         s1 = s\<lparr>e_rx_locked := locked, e_rx_was_locked := locked\<rparr>;
         w1 = (case rx_ring of
                 Some p \<Rightarrow> if locked \<noteq> 0 then on_ring p (aes3_capture (unat (x_rx_level x k))) (s1, rs, x)
                           else (s1, rs, x)
               | None \<Rightarrow> (s1, rs, x));
         (s2, rs2, x2) = (case tx_ring of
                 Some p \<Rightarrow> on_ring p (aes3_play (unat (64 - x_tx_level x k))) w1
               | None \<Rightarrow> w1)
     in (s2, rs2, x2\<lparr>x_polls := x_polls x2 + 1\<rparr>))"

section \<open>What one poll moves\<close>

definition captured :: "aes3_hw \<Rightarrow> nat \<Rightarrow> (u32 \<times> u32) list" where
  "captured x n = map (\<lambda>k. map_prod sign24 sign24 (x_audio x (x_pops x + k))) [0..<n]"

definition cut24 :: "u32 \<times> u32 \<Rightarrow> u32 \<times> u32" where
  "cut24 lr = (fst lr AND 0x00FFFFFF, snd lr AND 0x00FFFFFF)"

lemma captured_Suc:
  "captured x (Suc n) = map_prod sign24 sign24 (x_audio x (x_pops x)) # captured (x\<lparr>x_pops := x_pops x + 1\<rparr>) n"
  by (simp add: captured_def upt_conv_Cons map_Suc_upt [symmetric] comp_def del: upt_Suc)

lemma aes3_capture:
  assumes "ring_wf r" and "aes3_capture n (s, r, x) = (s', r', x')"
  defines "c \<equiv> min n (255 - length (ring_pairs r))"
  shows "ring_pairs r' = ring_pairs r @ captured x c" and "ring_wf r'"
    and "x' = x\<lparr>x_pops := x_pops x + c\<rparr>"
    and "s' = s\<lparr>e_rx_sample_count := e_rx_sample_count s + of_nat c,
                e_rx_overrun_count := e_rx_overrun_count s + (if c < n then 1 else 0)\<rparr>"
proof -
  have "ring_pairs r' = ring_pairs r @ captured x c \<and> ring_wf r' \<and> x' = x\<lparr>x_pops := x_pops x + c\<rparr>
    \<and> s' = s\<lparr>e_rx_sample_count := e_rx_sample_count s + of_nat c,
            e_rx_overrun_count := e_rx_overrun_count s + (if c < n then 1 else 0)\<rparr>"
    unfolding c_def using assms(1,2)
  proof (induction n arbitrary: s r x)
    case 0
    then show ?case by (simp add: captured_def)
  next
    case (Suc n)
    show ?case
    proof (cases "length (ring_pairs r) = 255")
      case True
      then have "audio_ring_space r = 0" using ring_space(3) [OF Suc.prems(1)] by simp
      then show ?thesis using Suc.prems True by (auto simp: captured_def)
    next
      case False
      then have l: "length (ring_pairs r) < 255" using Suc.prems(1) by (simp add: ring_wf_def)
      let ?lr = "map_prod sign24 sign24 (x_audio x (x_pops x))"
      have q: "ring_pairs (audio_ring_write ?lr r) = ring_pairs r @ [?lr]"
        using l by (intro ring_pairs_write) simp
      then have wf: "ring_wf (audio_ring_write ?lr r)" using l by (simp add: ring_wf_def)
      have m: "min (Suc n) (255 - length (ring_pairs r)) = Suc (min n (255 - length (ring_pairs (audio_ring_write ?lr r))))"
        using l by (simp add: q)
      have "audio_ring_space r \<noteq> 0" using False ring_space(3) [OF Suc.prems(1)] by simp
      then have "aes3_capture n (s\<lparr>e_rx_sample_count := e_rx_sample_count s + 1\<rparr>, audio_ring_write ?lr r, x\<lparr>x_pops := x_pops x + 1\<rparr>)
          = (s', r', x')"
        using Suc.prems(2) by (simp add: map_prod_def split_beta)
      from Suc.IH [OF wf this] show ?thesis
        unfolding m captured_Suc by (simp add: q)
    qed
  qed
  then show "ring_pairs r' = ring_pairs r @ captured x c" and "ring_wf r'"
    and "x' = x\<lparr>x_pops := x_pops x + c\<rparr>"
    and "s' = s\<lparr>e_rx_sample_count := e_rx_sample_count s + of_nat c,
                e_rx_overrun_count := e_rx_overrun_count s + (if c < n then 1 else 0)\<rparr>"
    by simp_all
qed

lemma aes3_play:
  assumes "ring_wf r" and "aes3_play n (s, r, x) = (s', r', x')"
  shows "ring_pairs r' = drop n (ring_pairs r)" and "ring_wf r'"
    and "x' = x\<lparr>x_out := x_out x @ map cut24 (take n (ring_pairs r))\<rparr>"
    and "s' = s\<lparr>e_tx_sample_count := e_tx_sample_count s + of_nat (min n (length (ring_pairs r)))\<rparr>"
proof -
  have "ring_pairs r' = drop n (ring_pairs r) \<and> ring_wf r'
    \<and> x' = x\<lparr>x_out := x_out x @ map cut24 (take n (ring_pairs r))\<rparr>
    \<and> s' = s\<lparr>e_tx_sample_count := e_tx_sample_count s + of_nat (min n (length (ring_pairs r)))\<rparr>"
    using assms
  proof (induction n arbitrary: s r x)
    case 0
    then show ?case by simp
  next
    case (Suc n)
    note z = ring_count_0 [OF Suc.prems(1)]
    show ?case
    proof (cases "ring_pairs r")
      case Nil
      then show ?thesis using Suc.prems z by simp
    next
      case (Cons y ys)
      obtain lr r1 where rd: "audio_ring_read r = (lr, r1)" by fastforce
      have y: "lr = y" and q: "ring_pairs r1 = ys" using ring_pairs_read [OF Cons] rd by auto
      have wf: "ring_wf r1" using Suc.prems(1) Cons q by (simp add: ring_wf_def)
      have "aes3_play n (s\<lparr>e_tx_sample_count := e_tx_sample_count s + 1\<rparr>, r1, x\<lparr>x_out := x_out x @ [cut24 y]\<rparr>) = (s', r', x')"
        using Suc.prems(2) z Cons rd y by (simp add: cut24_def split_beta)
      from Suc.IH [OF wf this] show ?thesis using Cons q by simp
    qed
  qed
  then show "ring_pairs r' = drop n (ring_pairs r)" and "ring_wf r'"
    and "x' = x\<lparr>x_out := x_out x @ map cut24 (take n (ring_pairs r))\<rparr>"
    and "s' = s\<lparr>e_tx_sample_count := e_tx_sample_count s + of_nat (min n (length (ring_pairs r)))\<rparr>"
    by simp_all
qed


text \<open>The number of pairs a poll captures and the room it finds in the transmit FIFO.\<close>

definition capture_count :: "aes3_hw \<Rightarrow> audio_ring \<Rightarrow> nat" where
  "capture_count x r = (if ucast (x_locked x (x_polls x)) \<noteq> (0 :: u8)
     then min (unat (x_rx_level x (x_polls x))) (255 - length (ring_pairs r)) else 0)"

definition play_room :: "aes3_hw \<Rightarrow> nat" where
  "play_room x = unat (64 - x_tx_level x (x_polls x))"

lemma aes3_poll_effect:
  assumes "ring_wf (rs p)" and "ring_wf (rs q)"
    and "aes3_poll (Some p) (Some q) (s, rs, x) = (s', rs', x')"
  defines "c \<equiv> capture_count x (rs p)"
  defines "mid \<equiv> (\<lambda>i. if i = p then ring_pairs (rs p) @ captured x c else ring_pairs (rs i))"
  shows "ring_pairs \<circ> rs' = mid(q := drop (play_room x) (mid q))
    \<and> x_out x' = x_out x @ map cut24 (take (play_room x) (mid q))
    \<and> x_pops x' = x_pops x + c
    \<and> e_rx_sample_count s' = e_rx_sample_count s + of_nat c
    \<and> e_tx_sample_count s' = e_tx_sample_count s + of_nat (min (play_room x) (length (mid q)))
    \<and> e_tx_underrun_count s' = e_tx_underrun_count s"
proof -
  define l where "l = (ucast (x_locked x (x_polls x)) :: u8)"
  define s1 where "s1 = s\<lparr>e_rx_locked := l, e_rx_was_locked := l\<rparr>"
  obtain s2 r2 x2 where cap: "(if l \<noteq> 0 then aes3_capture (unat (x_rx_level x (x_polls x))) (s1, rs p, x) else (s1, rs p, x)) = (s2, r2, x2)"
    by (metis prod_cases3)
  have c: "ring_pairs r2 = ring_pairs (rs p) @ captured x c" "ring_wf r2" "x2 = x\<lparr>x_pops := x_pops x + c\<rparr>"
    "e_rx_sample_count s2 = e_rx_sample_count s + of_nat c" "e_tx_sample_count s2 = e_tx_sample_count s"
    "e_tx_underrun_count s2 = e_tx_underrun_count s"
    using cap aes3_capture [OF assms(1), of "unat (x_rx_level x (x_polls x))" s1 x s2 r2 x2] assms(1)
    by (auto simp: c_def capture_count_def l_def [symmetric] s1_def captured_def split: if_splits)
  have mid: "ring_pairs ((rs(p := r2)) i) = mid i" for i by (simp add: mid_def c(1))
  have wf: "ring_wf ((rs(p := r2)) q)" using assms(2) c(2) by simp
  obtain s3 r3 x3 where pl: "aes3_play (play_room x) (s2, (rs(p := r2)) q, x2) = (s3, r3, x3)" by (metis prod_cases3)
  have "aes3_poll (Some p) (Some q) (s, rs, x) = (s3, (rs(p := r2))(q := r3), x3\<lparr>x_polls := x_polls x3 + 1\<rparr>)"
  proof (cases "l = 0")
    case True
    then have "s2 = s1" "r2 = rs p" "x2 = x" using cap by auto
    then show ?thesis
      using pl True unfolding aes3_poll_def Let_def on_ring_def l_def s1_def play_room_def by (simp split: if_splits)
  next
    case False
    then show ?thesis
      using pl cap False unfolding aes3_poll_def Let_def on_ring_def l_def s1_def play_room_def by simp
  qed
  then have out: "s' = s3" "rs' = (rs(p := r2))(q := r3)" "x' = x3\<lparr>x_polls := x_polls x3 + 1\<rparr>"
    using assms(3) by simp_all
  note p = aes3_play [OF wf pl, unfolded mid]
  have "ring_pairs \<circ> rs' = mid(q := drop (play_room x) (mid q))"
    using mid p(1) by (auto simp: out(2) fun_eq_iff)
  then show ?thesis using p c out by simp
qed

section \<open>The bridge as a whole\<close>

text \<open>
  One poll of the bridge, for any two rings, also when they are the same: the captured
  pairs are appended, sign-extended and in order, as far as the FIFO level and the 255 places
  of the ring allow; then the oldest pairs of the playback ring, the captured ones included
  when it is the same ring, go to the transmitter, cut to 24 bits, as far as there is room;
  no other ring changes, and the counters count.
\<close>

theorem aes3_poll_moves:
  assumes "ring_wf (rs p)" and "ring_wf (rs q)"
    and "aes3_poll (Some p) (Some q) (s, rs, x) = (s', rs', x')"
  defines "c \<equiv> capture_count x (rs p)"
  defines "mid \<equiv> (\<lambda>i. if i = p then ring_pairs (rs p) @ captured x c else ring_pairs (rs i))"
  shows "ring_pairs \<circ> rs' = mid(q := drop (play_room x) (mid q))
    \<and> x_out x' = x_out x @ map cut24 (take (play_room x) (mid q))
    \<and> x_pops x' = x_pops x + c
    \<and> e_rx_sample_count s' = e_rx_sample_count s + of_nat c
    \<and> e_tx_sample_count s' = e_tx_sample_count s + of_nat (min (play_room x) (length (mid q)))
    \<and> e_tx_underrun_count s' = e_tx_underrun_count s"
  using aes3_poll_effect [OF assms(1-3)] unfolding c_def mid_def .

definition demo_aes3 :: aes3_hw where
  "demo_aes3 = \<lparr>x_polls = 0, x_locked = (\<lambda>_. 1), x_rx_level = (\<lambda>_. 7), x_tx_level = (\<lambda>_. 56),
     x_audio = (\<lambda>k. (of_nat k + 0x800000, of_nat k)), x_pops = 0, x_out = [], x_cs = []\<rparr>"

definition ring_new :: audio_ring where
  "ring_new = \<lparr>r_left = (\<lambda>_. 0), r_right = (\<lambda>_. 0), r_write_idx = 0, r_read_idx = 0\<rparr>"

lemma ring_new: "ring_pairs ring_new = []" "ring_wf ring_new"
  by (simp_all add: ring_new_def ring_pairs_def slots_def ring_wf_def)

lemma demo_counts: "capture_count demo_aes3 ring_new = 7" "play_room demo_aes3 = 8"
  by (simp_all add: capture_count_def play_room_def demo_aes3_def ring_new)

text \<open>Looped back through one ring, the first seven pairs come out as they went in.\<close>

theorem aes3_poll_moves_witness:
  "x_out (snd (snd (aes3_poll (Some 0) (Some 0) (fst (aes3_init demo_aes3), \<lambda>_. ring_new, demo_aes3))))
    = map (\<lambda>k. (of_nat k + 0x800000, of_nat k)) [0..<7]"
proof -
  obtain s rs x where p: "aes3_poll (Some 0) (Some 0) (fst (aes3_init demo_aes3), \<lambda>_. ring_new, demo_aes3) = (s, rs, x)"
    by (metis prod_cases3)
  have "x_out x = map cut24 (captured demo_aes3 7)"
    using aes3_poll_moves [of "\<lambda>_. ring_new" 0 0, OF ring_new(2) ring_new(2) p]
    by (simp add: demo_counts ring_new captured_def) (simp add: demo_aes3_def)
  then show ?thesis
    unfolding p by (simp add: captured_def demo_aes3_def sign24_def cut24_def numeral_eq_Suc)
qed

lemma cut24_roundtrip: "cut24 (s24_pair (map_prod sign24 sign24 lr)) = cut24 lr"
proof -
  have hi: "(0xFF000000 :: u32) = NOT (mask 24)" by (simp add: mask_eq_exp_minus_1)
  have "sign24 y AND 0xFFFFFF = y AND 0xFFFFFF" for y
    unfolding sign24_def hi mask24 by (rule bit_word_eqI) (auto simp: bit_simps)
  then show ?thesis by (simp add: cut24_def s24_pair_def s24_low)
qed


text \<open>
  What the listener would do with the samples if its length test let the packet in: received
  without its VLAN tag and with at least four bytes behind it -- more than the talker sends --
  the first six captured pairs would travel through the capture ring, one packet of the talker,
  the playback ring of the listener and its bridge, and come out with the 24 bits they went in
  with.
\<close>

theorem aes3_samples_cross_the_stream:
  assumes "p \<noteq> q" and "ring_pairs (rs p) = []" and "ring_wf (rs q)" and "6 \<le> capture_count x (rs p)"
    and capture: "aes3_poll (Some p) (Some q) (e, rs, x) = (e1, rs1, x1)"
    and "avtp_ids_ok t" and "t_tx_ring t = Some p"
    and send: "avtp_poll (t, rs1, h) = (t', rs2, h')" "hw_sent h' \<noteq> hw_sent h"
    and frame: "stored m 0 (tag_removed (last (hw_sent h')))" "98 \<le> len"
    and l: "t_rx_enabled l \<noteq> 0" "t_rx_stream_id l = t_stream_id t" "t_rx_ring l = Some q'"
    and "p' \<noteq> q'" and "ring_wf (rs' p')" and "ring_pairs (rs' q') = []" and "6 \<le> play_room x'"
    and play: "aes3_poll (Some p') (Some q') (e', snd (avtp_process_rx m len (l, rs')), x') = (e'', rs'', x'')"
  shows "x_out x'' = x_out x' @ map (\<lambda>k. cut24 (x_audio x (x_pops x + k))) [0..<6]"
proof -
  let ?c = "capture_count x (rs p)" and ?ps = "take 6 (captured x (capture_count x (rs p)))"
  have "?c \<le> 255" by (simp add: capture_count_def min_le_iff_disj)
  have wf: "ring_wf (rs p)" using assms(2) by (simp add: ring_wf_def)
  have "ring_pairs (rs1 p) = captured x ?c"
    using aes3_poll_effect [of rs p q, OF wf assms(3) capture] assms(1,2) by (simp add: fun_eq_iff)
  moreover have "length (captured x ?c) = ?c" by (simp add: captured_def)
  ultimately have sent: "last (hw_sent h') = avtp_image t (avtp_pres_ts (peek_time (tick_time h))) ?ps"
    using avtp_poll_sends [of t p rs1 h t' rs2 h'] assms(6,7) send \<open>?c \<le> 255\<close>
    by (metis last_snoc ring_wf_def)
  have "length ?ps = 6" using assms(4) by (simp add: captured_def)
  then have rx: "snd (avtp_process_rx m len (l, rs')) = rs'(q' := fold ring_offer (map s24_pair ?ps) (rs' q'))"
    using frame by (intro avtp_image_received [OF assms(6) _ _ frame(2) l]) (simp_all add: sent)
  have wf': "ring_wf (rs' q')" using assms(17) by (simp add: ring_wf_def)
  have q: "ring_pairs (fold ring_offer (map s24_pair ?ps) (rs' q')) = map s24_pair ?ps"
    "ring_wf (fold ring_offer (map s24_pair ?ps) (rs' q'))"
    using ring_offers [OF wf', of "map s24_pair ?ps"] assms(17) by simp_all
  have "x_out x'' = x_out x' @ map cut24 (take (play_room x') (map s24_pair ?ps))"
    using aes3_poll_effect [of "snd (avtp_process_rx m len (l, rs'))" p' q', OF _ _ play] assms(15,16) q
    by (simp add: rx)
  moreover have "map cut24 (map s24_pair ?ps) = map (\<lambda>k. cut24 (x_audio x (x_pops x + k))) [0..<6]"
    using assms(4) by (simp add: captured_def take_map take_upt cut24_roundtrip comp_def)
  ultimately show ?thesis using \<open>length ?ps = 6\<close> assms(18) by simp
qed


definition demo_captured :: "aes3_state \<times> rings \<times> aes3_hw" where
  "demo_captured = aes3_poll (Some 0) (Some 1) (fst (aes3_init demo_aes3), \<lambda>_. ring_new, demo_aes3)"

definition demo_on_wire :: "avtp_stream \<times> rings \<times> hw" where
  "demo_on_wire = avtp_poll (demo_stream, fst (snd demo_captured), demo_due)"

definition demo_heard :: rings where
  "demo_heard = snd (avtp_process_rx (mem_of (tag_removed (last (hw_sent (snd (snd demo_on_wire)))))) 98 (demo_stream, \<lambda>_. ring_new))"

theorem aes3_samples_cross_the_stream_witness:
  "x_out (snd (snd (aes3_poll (Some 0) (Some 1) (fst (aes3_init demo_aes3), demo_heard, demo_aes3))))
    = map (\<lambda>k. (of_nat k + 0x800000, of_nat k)) [0..<6]"
proof -
  obtain e1 rs1 x1 where c: "aes3_poll (Some 0) (Some 1) (fst (aes3_init demo_aes3), \<lambda>_. ring_new, demo_aes3) = (e1, rs1, x1)"
    by (metis prod_cases3)
  obtain t' rs2 h' where w: "avtp_poll (demo_stream, rs1, demo_due) = (t', rs2, h')" by (metis prod_cases3)
  obtain e2 rs3 x2 where o': "aes3_poll (Some 0) (Some 1) (fst (aes3_init demo_aes3), demo_heard, demo_aes3) = (e2, rs3, x2)"
    by (metis prod_cases3)
  have h: "demo_heard = snd (avtp_process_rx (mem_of (tag_removed (last (hw_sent h')))) 98 (demo_stream, \<lambda>_. ring_new))"
    unfolding demo_heard_def demo_on_wire_def demo_captured_def c fst_conv snd_conv w ..
  have "ring_pairs (rs1 0) = captured demo_aes3 7"
    using aes3_poll_effect [of "\<lambda>_. ring_new" 0 1, OF ring_new(2) ring_new(2) c]
    by (simp add: demo_counts ring_new fun_eq_iff)
  then have "ring_wf (rs1 0)" "6 \<le> length (ring_pairs (rs1 0))" by (simp_all add: ring_wf_def captured_def)
  from avtp_poll_due [OF demo_stream(1,2) this(1) demo_stream(3,7) this(2) w]
  have sent: "hw_sent h' \<noteq> hw_sent demo_due" by simp
  have "x_out x2 = x_out demo_aes3 @ map (\<lambda>k. cut24 (x_audio demo_aes3 (x_pops demo_aes3 + k))) [0..<6]"
    using aes3_samples_cross_the_stream [of 0 1 "\<lambda>_. ring_new", OF _ ring_new _ c demo_stream(1,2) w sent stored_mem_of
        order_refl [of 98] demo_stream(5,6,4) _ _ _ _ o' [unfolded h]]
    by (simp add: ring_new demo_counts)
  then show ?thesis
    unfolding o' by (simp add: demo_aes3_def cut24_def numeral_eq_Suc)
qed

section \<open>Where the samples get to\<close>

text \<open>The quadlets of a captured pair on the wire: the label, and 24 bits, highest first.\<close>

definition am824_wire :: "u32 \<times> u32 \<Rightarrow> u8 list" where
  "am824_wire lr = (case lr of (l, r) \<Rightarrow> [0x40, ucast (drop_bit 16 l), ucast (drop_bit 8 l), ucast l,
     0x40, ucast (drop_bit 16 r), ucast (drop_bit 8 r), ucast r])"

lemma captured_wire: "pair_bytes (map_prod sign24 sign24 lr) = am824_wire lr"
proof -
  have hi: "(0xFF000000 :: u32) = NOT (mask 24)" by (simp add: mask_eq_exp_minus_1)
  have "(ucast (drop_bit 16 (sign24 x)) :: u8) = ucast (drop_bit 16 x)" "(ucast (drop_bit 8 (sign24 x)) :: u8) = ucast (drop_bit 8 x)"
    "(ucast (sign24 x) :: u8) = ucast x" for x
    unfolding sign24_def hi mask24 by (rule bit_word_eqI; auto simp: bit_simps)+
  then show ?thesis
    by (cases lr) (simp add: pair_bytes_def am824_quadlet_def am824_wire_def ucast_and_FF AM824_LABEL_MBLA_def)
qed

text \<open>The frame as it can be received: with its tag, or, the tag stripped, four bytes shorter.\<close>

definition received_as :: "u8 list \<Rightarrow> mem \<Rightarrow> u32 \<Rightarrow> bool" where
  "received_as fr m len \<longleftrightarrow> stored m 0 fr \<and> len = of_nat (length fr) \<or> stored m 0 (tag_removed fr) \<and> len = of_nat (length fr) - 4"

text \<open>
  C40.  The AES3 samples reach the wire and no further.  The first six pairs captured on an AES3
  input are the payload of the talker's next packet, each sample as its 24 bits behind the AM824
  label, and leave the capture ring; but no listener of the same code takes the packet, tagged or
  with the tag stripped: its state and its rings stay as they were, and its bridge plays only what
  was queued before.
\<close>

theorem aes3_samples_stop_on_the_wire:
  assumes "p \<noteq> q" and "ring_pairs (rs p) = []" and "ring_wf (rs q)"
    and capture: "aes3_poll (Some p) (Some q) (e, rs, x) = (e1, rs1, x1)"
    and "avtp_ids_ok t" and "t_tx_ring t = Some p"
    and send: "avtp_poll (t, rs1, h) = (t', rs2, h')" "hw_sent h' \<noteq> hw_sent h"
    and heard: "received_as (last (hw_sent h')) m len" "avtp_process_rx m len (l, rs') = (l', rs3)"
    and "p' \<noteq> q'" and "ring_wf (rs' p')" and "ring_wf (rs' q')"
    and play: "aes3_poll (Some p') (Some q') (e', rs3, x') = (e'', rs'', x'')"
  shows "length (last (hw_sent h')) = 98
    \<and> bytes (mem_of (last (hw_sent h'))) 50 48 = concat (map (\<lambda>k. am824_wire (x_audio x (x_pops x + k))) [0..<6])
    \<and> ring_pairs (rs2 p) = drop 6 (ring_pairs (rs1 p))
    \<and> l' = l \<and> rs3 = rs'
    \<and> x_out x'' = x_out x' @ map cut24 (take (play_room x') (ring_pairs (rs' q')))"
proof -
  let ?c = "capture_count x (rs p)" and ?f = "last (hw_sent h')"
  have "?c \<le> 255" by (simp add: capture_count_def min_le_iff_disj)
  have wf: "ring_wf (rs p)" using assms(2) by (simp add: ring_wf_def)
  have r1: "ring_pairs (rs1 p) = captured x ?c"
    using aes3_poll_effect [of rs p q, OF wf assms(3) capture] assms(1,2) by (simp add: fun_eq_iff)
  moreover have lc: "length (captured x ?c) = ?c" by (simp add: captured_def)
  ultimately have wf1: "ring_wf (rs1 p)" using \<open>?c \<le> 255\<close> by (simp add: ring_wf_def)
  obtain ts r' where f: "6 \<le> ?c" "?f = avtp_image t ts (take 6 (captured x ?c))" "rs2 = rs1(p := r')" "ring_pairs r' = drop 6 (ring_pairs (rs1 p))"
    by (rule avtp_poll_sends [OF assms(5,6) wf1 send(1)]) (use send(2) r1 lc in auto)
  have ps: "length (take 6 (captured x ?c)) = 6" using f(1) lc by simp
  have len: "length ?f = 98" using length_avtp_image [OF assms(5)] ps f(2) by simp
  have "bytes (mem_of ?f) 50 48 = drop 50 ?f" using len bytes_mem_of_slice [of 50 48 ?f] by simp
  moreover have "drop 50 ?f = concat (map pair_bytes (take 6 (captured x ?c)))"
    using assms(5) by (simp add: f(2) avtp_image_def avtp_ids_ok_def)
  moreover have "map pair_bytes (take 6 (captured x ?c)) = map (\<lambda>k. am824_wire (x_audio x (x_pops x + k))) [0..<6]"
    using f(1) by (simp add: captured_def take_map take_upt captured_wire comp_def)
  ultimately have wire: "bytes (mem_of ?f) 50 48 = concat (map (\<lambda>k. am824_wire (x_audio x (x_pops x + k))) [0..<6])"
    by (simp only:)
  have "stored m 12 (put_be16 0x8100) \<or> len = 94"
    using heard(1) assms(5) len by (auto simp: received_as_def f(2) avtp_image_def avtp_ids_ok_def put_be16_def)
  then have "\<not> avtp_accepts l m len"
    using stored_be16 [of m 12 "0x8100"] by (auto simp: avtp_accepts_def AVTP_ETHERTYPE_def avtp_lengths)
  then have same: "l' = l" "rs3 = rs'" using avtp_process_rx_rejected [of l m len rs'] heard(2) by simp_all
  have "x_out x'' = x_out x' @ map cut24 (take (play_room x') (ring_pairs (rs' q')))"
    using aes3_poll_effect [of rs3 p' q', OF _ _ play] assms(11-13) by (simp add: same)
  then show ?thesis using len wire f(3,4) same by simp
qed

theorem aes3_samples_stop_on_the_wire_witness:
  "\<exists>e1 rs1 x1 t' rs2 h' e2 rs4 x2. aes3_poll (Some 0) (Some 1) (fst (aes3_init demo_aes3), \<lambda>_. ring_new, demo_aes3) = (e1, rs1, x1)
    \<and> avtp_poll (demo_stream, rs1, demo_due) = (t', rs2, h')
    \<and> bytes (mem_of (last (hw_sent h'))) 50 48 = concat (map (\<lambda>k. [0x40, 0x80, 0, of_nat k, 0x40, 0, 0, of_nat k]) [0..<6])
    \<and> avtp_process_rx (mem_of (tag_removed (last (hw_sent h')))) 94 (demo_stream, \<lambda>_. ring_new) = (demo_stream, \<lambda>_. ring_new)
    \<and> aes3_poll (Some 0) (Some 1) (e1, \<lambda>_. ring_new, demo_aes3) = (e2, rs4, x2) \<and> x_out x2 = []"
proof -
  obtain e1 rs1 x1 where c: "aes3_poll (Some 0) (Some 1) (fst (aes3_init demo_aes3), \<lambda>_. ring_new, demo_aes3) = (e1, rs1, x1)"
    by (metis prod_cases3)
  obtain t' rs2 h' where w: "avtp_poll (demo_stream, rs1, demo_due) = (t', rs2, h')" by (metis prod_cases3)
  let ?m = "mem_of (tag_removed (last (hw_sent h')))"
  obtain l' rs3 where a: "avtp_process_rx ?m 94 (demo_stream, \<lambda>_. ring_new) = (l', rs3)" by fastforce
  obtain e2 rs4 x2 where o': "aes3_poll (Some 0) (Some 1) (e1, rs3, demo_aes3) = (e2, rs4, x2)" by (metis prod_cases3)
  have "ring_pairs (rs1 0) = captured demo_aes3 7"
    using aes3_poll_effect [of "\<lambda>_. ring_new" 0 1, OF ring_new(2) ring_new(2) c]
    by (simp add: demo_counts ring_new fun_eq_iff)
  then have q: "ring_wf (rs1 0)" "6 \<le> length (ring_pairs (rs1 0))" by (simp_all add: ring_wf_def captured_def)
  note due = avtp_poll_due [OF demo_stream(1,2) q(1) demo_stream(3,7) q(2) w]
  then have sent: "hw_sent h' \<noteq> hw_sent demo_due" by simp
  have "length (last (hw_sent h')) = 98" using due q(2) by (simp add: length_avtp_image [OF demo_stream(1)])
  then have "received_as (last (hw_sent h')) ?m 94" by (simp add: received_as_def stored_mem_of)
  note p = aes3_samples_stop_on_the_wire [of 0 1 "\<lambda>_. ring_new", OF _ ring_new c demo_stream(1,2) w sent this a _ ring_new(2) ring_new(2) o']
  then have r: "rs3 = (\<lambda>_. ring_new)" "l' = demo_stream" "x_out x2 = []"
    "bytes (mem_of (last (hw_sent h'))) 50 48 = concat (map (\<lambda>k. am824_wire (x_audio demo_aes3 (x_pops demo_aes3 + k))) [0..<6])"
    by (simp_all add: ring_new) (simp add: demo_aes3_def)
  have "map (\<lambda>k. am824_wire (x_audio demo_aes3 (x_pops demo_aes3 + k))) [0..<6]
      = map (\<lambda>k. [0x40, 0x80, 0, of_nat k, 0x40, 0, 0, of_nat k]) [0..<6]"
    by code_simp
  note r(4) [unfolded this]
  moreover note a [unfolded r(1,2)] o' [unfolded r(1)]
  ultimately show ?thesis using c w r(3) by (intro exI conjI)
qed

end
