(* ===== verification/Spec2Isabelle.thy ===== *)
theory Spec2Isabelle
  imports Aaf Mcr GptpProps SrpProps AemProps BoardNet BoardStream CrfExtractorProps Arbiter MediaClock Aes3
begin

text \<open>
  \<^bold>\<open>The program.\<close>  The C firmware (firmware/) of an FPGA audio endpoint for AVB networks: a
  bare-metal main loop on one core, no interrupts, that synchronises the board's clock
  (IEEE 802.1AS), reserves streams (MSRP, MVRP), answers controllers (AVDECC: ADP, ACMP, AECP
  with the Milan extensions), recovers the media clock from a CRF stream, and sends and receives
  one 8-channel AAF stream.  All frames come in through one dispatcher (\<open>dispatch_rx\<close> in
  main.c); the protocol modules call back into main.c when a controller connects or a stream
  is advertised, and main.c then drives the other modules and the gateware registers.

  \<^bold>\<open>Theories, in the order they build on each other.\<close>
  \<^item> \<open>Prelude\<close>: C integers, signed 64-bit wrap-around, guarded millisecond ages, byte memory.
    \<open>Wire\<close>: the byte-order helpers, one definition for the copies each module has.
    \<open>Hw\<close>: Ethernet slots, clocks and servo registers as one record \<open>hw\<close>, threaded by every
    operation.
  \<^item> \<open>Ring\<close>: the locale \<open>bounded_queue\<close> and the ring buffers; \<open>Aaf\<close>: aaf.c.  Both jitter
    buffers are interpretations of the locale.
  \<^item> \<open>Mcr\<close>: mcr.c, the CRF listener and its PI servo on the oscillator register, with the
    lock hysteresis and the step relation \<open>mcr_step\<close>.
  \<^item> \<open>Gptp\<close>: gptp.c, peer delay, sync, rate ratio, step and PI servo, locking;
    \<open>GptpProps\<close>: measurement theorems, the invariant of every reachable state, short frames.
  \<^item> \<open>Srp\<close>: srp.c, the emitters, the parser, the registrar table and the poll;
    \<open>SrpProps\<close>: two boards understand each other, the registrar as a table, timers.
  \<^item> \<open>Avdecc\<close>: avdecc.c up to ACMP (ADP, connection management, resolves, watchdog, counters);
    \<open>AvdeccProps\<close>, \<open>AcmpProps\<close>: table invariant, answers, timeouts, the CRF watchdog.
    \<open>Aecp\<close>: descriptors, AEM and vendor-unique commands, notifications; \<open>AecpProps\<close>: reachable
    states and the refinement of the controller table to a bounded map; \<open>AemProps\<close>: every command,
    AEM or vendor-unique, that is long enough is answered once, and the entity model agrees with itself.
  \<^item> \<open>Board\<close>: main.c.  \<open>board\<close> holds the static variables and the module states, \<open>machine\<close> a board
    with its hardware; the callbacks, the frame dispatcher, the console commands, the USB drain,
    the DAC writer and one pass of the main loop are one definition each.
    \<open>BoardProps\<close>: what a frame looks like to the dispatcher; \<open>BoardInv\<close>: every callback and
    every pass keeps the invariant; \<open>BoardRun\<close>: the step relation \<open>board_step\<close> from
    \<open>main_init\<close>, its invariant, the single source of the stream, the pace of the DAC;
    \<open>BoardConn\<close>: what single receptions do to the board, through ACMP, callbacks, SRP, engines
    and filter; \<open>BoardNet\<close>: two boards connect, each frame one sends being a slot of the other.
  \<^item> \<open>Clocked\<close>: runs of clocked logic; \<open>Packetizer\<close>, \<open>Arbiter\<close>: aaf_packetizer.py, the gateware that
    sends the stream once the firmware has written its registers (\<open>b_pkt\<close>); \<open>Extractor\<close>:
    avtp_extractor.py and crf_extractor.py, the gateware that watches the received frames.  One
    definition per group of register assignments, composed into the cycle functions \<open>pktz_next\<close>,
    \<open>arb_next\<close>, \<open>xtr_next\<close> and \<open>crfx_next\<close>, in the size avb_soc.py instantiates.
    \<open>PacketizerProps\<close>: the packetizer sends what \<open>aaf_send_packet\<close> would and assembles like the
    firmware's drain; \<open>ExtractorProps\<close>: which frames are kept from the CPU and what is stored of
    them; \<open>CrfExtractorProps\<close>: the queue of the clock servo against what the CPU notes of the same
    frame; \<open>BoardStream\<close>: packetizer and extractor of two connected boards, back to back, and the
    extractor in front of the dispatcher of one board (\<open>receive_frame\<close>).
    \<open>MediaClock\<close>: the oscillator of avb_soc.py, whose strobe paces all of this, at the increment
    \<open>Mcr\<close> computes; the I2S transmitter that plays what the DAC writer pushes; the offset register
    the clock servo writes.
  \<^item> \<open>Am824\<close>, \<open>Aes3\<close>: the earlier AM824 stream and AES3 bridge kept in firmware/_avtp_backup and
    firmware/_aes3_backup, which no Makefile builds; its samples reach the wire, but the listener
    takes no packet of the talker.

  \<^bold>\<open>Conventions.\<close>  A C struct is a record with the struct's fields under a one- or two-letter
  prefix; unsigned integers are words of their width, \<open>int64_t\<close> an integer kept in range by
  \<open>s64\<close>; a frame is the memory behind a pointer with a length, and a read past the length sees
  what memory holds there.  A frame to be sent is built over what the transmit slot held.  A
  value the firmware reads from hardware is the next of an arbitrary sequence, so theorems hold
  for every behaviour of clocks and levels; registers it writes are fields, and frames, samples
  and pulses it emits are lists.  In the gateware theories a cycle function takes the inputs of the
  cycle and the registers before the clock edge, and a run is a list of inputs, so the gaps and
  the order of events are arbitrary.  Callbacks of a module are arguments of its operations,
  instantiated by main.c's functions in \<open>Board\<close>.

  \<^bold>\<open>Bounds.\<close>  Loops over a hardware queue take the bound the code has: 64 frames per dispatch,
  1024 words per USB drain, 32 samples per DAC pass, 64 entries of the CRF FIFO per pass; parsers
  recurse on the remaining length.  A packet takes the packetizer one cycle to start, 234 to build and
  59 accepted beats to leave; the extractor replays a frame in 52 cycles.  No definition uses fuel that the code does not have.

  \<^bold>\<open>Lemma groups.\<close>  Per module: preservation of a well-formedness predicate by every operation
  (\<open>gptp_ok\<close>, \<open>mcr_ok\<close>, \<open>srp_wf\<close>, \<open>avd_ok\<close>, \<open>board_ok\<close>), the frame each emitter produces, what
  each handler does on every branch, and the agreement lemmas that bound which bytes of a frame a
  handler reads.  Statements numbered C1, C2, ... are the main results, most important first.

  \<^bold>\<open>Not modelled.\<close>  printf output and the caches and counters that only gate it; busy waits for
  hardware; the MDIO set-up of the PHY; compiler-dependent effects of undefined behaviour
  other than signed overflow (taken as wrap-around); of the gateware, the library parts (FIFOs, MAC,
  time stamp unit, CSR bus, whose behaviour is an input here), the wiring of avb_soc.py and the
  Verilog under rtl/; the build files, the bitstreams and the simulation benches.  The stream
  filter (avtp_stream_filter.py) is not instantiated by the system.
\<close>

end
